(* ===== verification/Prelude.thy ===== *)
theory Prelude
  imports Main "HOL-Library.AList" "HOL-Library.Word"
begin

text \<open>
  What every component of the model shares.

  \<^item> Text typed by a person (user names, room names, messages, passwords) is a list of
    runes, as the Go code sees it after \<open>[]rune(s)\<close>; identifiers the server generates or
    compares byte by byte (client UUIDs, role and room ids, protocol codes) are strings.
  \<^item> A Go map is an association list with the operations of \<open>HOL-Library.AList\<close>. Ranging
    over a map is a pass over the list in list order: Go leaves the order open, and a lemma
    about every list is a lemma about every order. \<open>wf_map\<close> says that no key is listed twice.
  \<^item> A Go function that returns \<open>(T, error)\<close> returns the sum \<open>'e + 'a\<close>, \<open>Inl\<close> the error.
\<close>

section \<open>Types\<close>

type_synonym rune = nat
type_synonym ustring = "rune list"
type_synonym uuid = string
type_synonym ('k, 'v) gomap = "('k \<times> 'v) list"

definition runes :: "string \<Rightarrow> ustring" where
  "runes s = map of_char s"

named_theorems gomap_simps "lookup after the updates of a Go map"

section \<open>Go maps\<close>

abbreviation mget :: "('k, 'v) gomap \<Rightarrow> 'k \<Rightarrow> 'v option" where
  "mget \<equiv> map_of"

abbreviation mput :: "'k \<Rightarrow> 'v \<Rightarrow> ('k, 'v) gomap \<Rightarrow> ('k, 'v) gomap" where
  "mput \<equiv> AList.update"

abbreviation mdel :: "'k \<Rightarrow> ('k, 'v) gomap \<Rightarrow> ('k, 'v) gomap" where
  "mdel \<equiv> AList.delete"

abbreviation keys :: "('k, 'v) gomap \<Rightarrow> 'k list" where
  "keys m \<equiv> map fst m"

abbreviation vals :: "('k, 'v) gomap \<Rightarrow> 'v list" where
  "vals m \<equiv> map snd m"

definition wf_map :: "('k, 'v) gomap \<Rightarrow> bool" where
  "wf_map m \<longleftrightarrow> distinct (keys m)"

lemma mget_mput [simp, gomap_simps]:
  "mget (mput k v m) k' = (if k' = k then Some v else mget m k')"
  by (simp add: update_conv')

lemma mget_mdel [simp, gomap_simps]:
  "mget (mdel k m) k' = (if k' = k then None else mget m k')"
  by (simp add: delete_conv')

lemma wf_map_Nil [simp]: "wf_map []"
  by (simp add: wf_map_def)

lemma wf_map_mput [simp]: "wf_map m \<Longrightarrow> wf_map (mput k v m)"
  by (simp add: wf_map_def distinct_update)

lemma wf_map_mdel [simp]: "wf_map m \<Longrightarrow> wf_map (mdel k m)"
  by (simp add: wf_map_def distinct_delete)

lemma wf_map_filter [simp]: "wf_map m \<Longrightarrow> wf_map (filter P m)"
  by (simp add: wf_map_def distinct_map_filter)

lemma set_wf_map: "wf_map m \<Longrightarrow> (k, v) \<in> set m \<longleftrightarrow> mget m k = Some v"
  by (simp add: wf_map_def)

lemma mget_filter:
  "wf_map m \<Longrightarrow>
   mget (filter P m) k = (case mget m k of None \<Rightarrow> None | Some v \<Rightarrow> if P (k, v) then Some v else None)"
  by (induction m) (auto simp: wf_map_def map_of_eq_None_iff split: option.splits)

lemma mget_map_snd: "mget (map (\<lambda>(k, v). (k, f k v)) m) k = map_option (f k) (mget m k)"
  by (induction m) auto

lemma keys_map_snd [simp]: "keys (map (\<lambda>(k, v). (k, f k v)) m) = keys m"
  by (induction m) auto

lemma wf_map_map_snd [simp]: "wf_map (map (\<lambda>(k, v). (k, f k v)) m) \<longleftrightarrow> wf_map m"
  by (simp add: wf_map_def comp_def case_prod_unfold)

lemma length_mput:
  "length (mput k v m) = (if mget m k = None then Suc (length m) else length m)"
  by (induction m) auto

lemma length_mdel:
  "wf_map m \<Longrightarrow> length (mdel k m) = (if mget m k = None then length m else length m - 1)"
proof (induction m)
  case (Cons p m)
  then have wf: "wf_map m" and fresh: "fst p \<notin> set (keys m)"
    by (simp_all add: wf_map_def)
  show ?case
  proof (cases "fst p = k")
    case True
    then have "mdel k m = m" using fresh by simp
    with True show ?thesis by (cases p) simp
  next
    case False
    then have "m \<noteq> []" if "mget m k \<noteq> None" using that by auto
    with False Cons.IH [OF wf] show ?thesis
      by (cases p) (auto simp: neq_Nil_conv)
  qed
qed simp

lemma mget_in_vals: "mget m k = Some v \<Longrightarrow> v \<in> set (vals m)"
  by (force dest: map_of_SomeD)

lemma vals_wf: "wf_map m \<Longrightarrow> v \<in> snd ` set m \<longleftrightarrow> (\<exists>k. mget m k = Some v)"
proof -
  assume "wf_map m"
  moreover have "v \<in> snd ` set m \<longleftrightarrow> (\<exists>k. (k, v) \<in> set m)" by force
  ultimately show ?thesis by (simp add: set_wf_map)
qed

lemma mget_Nil_all: "(\<forall>k. mget m k = None) \<longleftrightarrow> m = []"
  by (cases m) auto

section \<open>Maps of maps\<close>

text \<open>
  \<open>m[k][i]\<close> on a map of maps: reading through a missing inner map is a miss, writing makes
  the inner map first, and \<open>mdel2\<close> drops the inner map once it is empty.
\<close>

definition mget2 :: "('k, ('i, 'v) gomap) gomap \<Rightarrow> 'k \<Rightarrow> 'i \<Rightarrow> 'v option" where
  "mget2 mm k i = (case mget mm k of None \<Rightarrow> None | Some g \<Rightarrow> mget g i)"

definition mput2 :: "'k \<Rightarrow> 'i \<Rightarrow> 'v \<Rightarrow> ('k, ('i, 'v) gomap) gomap \<Rightarrow> ('k, ('i, 'v) gomap) gomap" where
  "mput2 k i v mm = mput k (mput i v (case mget mm k of None \<Rightarrow> [] | Some g \<Rightarrow> g)) mm"

definition mdel2 :: "'k \<Rightarrow> 'i \<Rightarrow> ('k, ('i, 'v) gomap) gomap \<Rightarrow> ('k, ('i, 'v) gomap) gomap" where
  "mdel2 k i mm =
     (case mget mm k of
        None \<Rightarrow> mm
      | Some g \<Rightarrow> if mdel i g = [] then mdel k mm else mput k (mdel i g) mm)"

definition wf_map2 :: "('k, ('i, 'v) gomap) gomap \<Rightarrow> bool" where
  "wf_map2 mm \<longleftrightarrow> wf_map mm \<and> (\<forall>g \<in> set (vals mm). wf_map g)"

lemma mget2_Nil [simp]: "mget2 [] k i = None"
  by (simp add: mget2_def)

lemma mget2_mput2 [simp, gomap_simps]:
  "mget2 (mput2 k i v mm) k' i' = (if k' = k \<and> i' = i then Some v else mget2 mm k' i')"
  by (simp add: mget2_def mput2_def split: option.split)

lemma mget2_mdel2 [simp, gomap_simps]:
  "mget2 (mdel2 k i mm) k' i' = (if k' = k \<and> i' = i then None else mget2 mm k' i')"
proof (cases "mget mm k")
  case (Some g)
  have "mget g i' = None" if "mdel i g = []" "i' \<noteq> i"
    using that mget_mdel [of i g i'] by simp
  with Some show ?thesis by (auto simp: mget2_def mdel2_def)
qed (simp add: mget2_def mdel2_def)

lemma wf_map2_alt: "wf_map2 mm \<longleftrightarrow> wf_map mm \<and> (\<forall>k g. mget mm k = Some g \<longrightarrow> wf_map g)"
proof (cases "wf_map mm")
  case True
  then show ?thesis
    unfolding wf_map2_def set_wf_map [OF True, symmetric] by force
qed (simp add: wf_map2_def)

lemma wf_map2_Nil [simp]: "wf_map2 []"
  by (simp add: wf_map2_def)

lemma wf_map2_mput2 [simp]: "wf_map2 mm \<Longrightarrow> wf_map2 (mput2 k i v mm)"
  by (auto simp: wf_map2_alt mput2_def split: option.split)

lemma wf_map2_mdel2 [simp]: "wf_map2 mm \<Longrightarrow> wf_map2 (mdel2 k i mm)"
  by (auto simp: wf_map2_alt mdel2_def split: option.split)

text \<open>Changing the object a key points to, when there is one.\<close>

definition madjust :: "'k \<Rightarrow> ('v \<Rightarrow> 'v) \<Rightarrow> ('k, 'v) gomap \<Rightarrow> ('k, 'v) gomap" where
  "madjust k f m = (case mget m k of None \<Rightarrow> m | Some v \<Rightarrow> mput k (f v) m)"

lemma mget_madjust [simp, gomap_simps]:
  "mget (madjust k f m) k' = (if k' = k then map_option f (mget m k) else mget m k')"
  by (simp add: madjust_def split: option.split)

lemma wf_map_madjust [simp]: "wf_map m \<Longrightarrow> wf_map (madjust k f m)"
  by (simp add: madjust_def split: option.split)

lemma keys_madjust [simp]: "fst ` set (madjust k f m) = fst ` set m"
proof -
  have "mget (madjust k f m) x = None \<longleftrightarrow> mget m x = None" for x by simp
  then show ?thesis unfolding map_of_eq_None_iff by blast
qed

section \<open>Tables with a key\<close>

definition find_by :: "('r \<Rightarrow> 'k) \<Rightarrow> 'k \<Rightarrow> 'r list \<Rightarrow> 'r option" where
  "find_by key k rows = find (\<lambda>r. key r = k) rows"

named_theorems table_simps "lookup in a table after an insert, an update or a delete"

lemma find_by_Nil [simp, table_simps]: "find_by key k [] = None"
  by (simp add: find_by_def)

lemma find_by_Cons [simp, table_simps]:
  "find_by key k (r # rows) = (if key r = k then Some r else find_by key k rows)"
  by (simp add: find_by_def)

lemma find_by_append [table_simps]:
  "find_by key k (rows @ rows') =
     (case find_by key k rows of None \<Rightarrow> find_by key k rows' | Some r \<Rightarrow> Some r)"
  by (induction rows) auto

lemma find_by_update [table_simps]:
  "(\<And>r. key r = i \<Longrightarrow> key (f r) = i) \<Longrightarrow>
   find_by key k (map (\<lambda>r. if key r = i then f r else r) rows) =
     (if k = i then map_option f (find_by key i rows) else find_by key k rows)"
  by (induction rows) auto

lemma find_by_delete [table_simps]:
  "find_by key k (filter (\<lambda>r. key r \<noteq> i) rows) = (if k = i then None else find_by key k rows)"
  by (induction rows) auto

lemma find_by_None: "find_by key k rows = None \<longleftrightarrow> k \<notin> key ` set rows"
  by (induction rows) auto

lemma find_by_Some: "find_by key k rows = Some r \<Longrightarrow> r \<in> set rows \<and> key r = k"
  by (induction rows) (auto split: if_splits)

lemma find_by_Some_iff:
  "distinct (map key rows) \<Longrightarrow> find_by key k rows = Some r \<longleftrightarrow> r \<in> set rows \<and> key r = k"
  by (induction rows) auto

lemma find_by_filter:
  "distinct (map key rows) \<Longrightarrow>
   find_by key k (filter P rows) =
     (case find_by key k rows of None \<Rightarrow> None | Some r \<Rightarrow> if P r then Some r else None)"
proof (induction rows)
  case (Cons a rows)
  then have "find_by key (key a) rows = None" by (simp add: find_by_None)
  with Cons show ?case by auto
qed simp

text \<open>Loading a table into a Go map, row by row.\<close>

definition load_map :: "('r \<Rightarrow> 'k) \<Rightarrow> 'r list \<Rightarrow> ('k, 'r) gomap" where
  "load_map key rows = fold (\<lambda>r m. mput (key r) r m) rows []"

lemma mget_fold_mput:
  "distinct (map key rows) \<Longrightarrow>
   mget (fold (\<lambda>r m. mput (key r) r m) rows m) k =
     (case find_by key k rows of None \<Rightarrow> mget m k | Some r \<Rightarrow> Some r)"
proof (induction rows arbitrary: m)
  case (Cons a rows)
  then have "find_by key (key a) rows = None" by (simp add: find_by_None)
  with Cons show ?case by (auto split: option.splits)
qed simp

lemma mget_load_map: "distinct (map key rows) \<Longrightarrow> mget (load_map key rows) k = find_by key k rows"
  by (simp add: load_map_def mget_fold_mput split: option.split)

lemma wf_load_map: "wf_map (load_map key rows)"
proof -
  have "wf_map m \<Longrightarrow> wf_map (fold (\<lambda>r m. mput (key r) r m) rows m)" for m
    by (induction rows arbitrary: m) auto
  then show ?thesis by (simp add: load_map_def)
qed

section \<open>Results\<close>

fun is_ok :: "'e + 'a \<Rightarrow> bool" where
  "is_ok (Inl _) = False"
| "is_ok (Inr _) = True"

lemma is_ok_iff: "is_ok r \<longleftrightarrow> (\<exists>x. r = Inr x)"
  by (cases r) auto

lemma ok_split: "is_ok (snd x) \<Longrightarrow> \<exists>y. x = (fst x, Inr y)"
  by (cases x) (auto simp: is_ok_iff)

section \<open>Trimming\<close>

definition trim_by :: "('a \<Rightarrow> bool) \<Rightarrow> 'a list \<Rightarrow> 'a list" where
  "trim_by p xs = rev (dropWhile p (rev (dropWhile p xs)))"

lemma set_trim_by: "set (trim_by p xs) \<subseteq> set xs"
  by (auto simp: trim_by_def dest!: set_dropWhileD)

lemma hd_trim_by: "trim_by p xs \<noteq> [] \<Longrightarrow> \<not> p (hd (trim_by p xs))"
proof -
  let ?ys = "dropWhile p xs"
  assume ne: "trim_by p xs \<noteq> []"
  then have "?ys \<noteq> []" unfolding trim_by_def by force
  moreover obtain zs where "rev ?ys = zs @ dropWhile p (rev ?ys)"
    by (metis takeWhile_dropWhile_id)
  then have "?ys = trim_by p xs @ rev zs"
    unfolding trim_by_def by (metis rev_append rev_rev_ident)
  ultimately show ?thesis
    using ne hd_dropWhile [of p xs] by (metis hd_append2)
qed

lemma last_trim_by: "trim_by p xs \<noteq> [] \<Longrightarrow> \<not> p (last (trim_by p xs))"
  using hd_dropWhile [of p "rev (dropWhile p xs)"]
  by (auto simp: trim_by_def last_rev)

lemma trim_by_id:
  "xs = [] \<or> (\<not> p (hd xs) \<and> \<not> p (last xs)) \<Longrightarrow> trim_by p xs = xs"
proof -
  have dw: "dropWhile p ys = ys" if "ys = [] \<or> \<not> p (hd ys)" for ys :: "'a list"
    using that by (cases ys) auto
  assume "xs = [] \<or> (\<not> p (hd xs) \<and> \<not> p (last xs))"
  then show ?thesis by (auto simp: trim_by_def dw hd_rev)
qed

lemma trim_by_idem [simp]: "trim_by p (trim_by p xs) = trim_by p xs"
  using hd_trim_by last_trim_by by (intro trim_by_id) blast

lemma length_trim_by: "length (trim_by p xs) \<le> length xs"
  unfolding trim_by_def
  by (metis length_dropWhile_le length_rev le_trans)

end
