(* ===== verification/Textutil.thy ===== *)
theory Textutil
  imports Prelude
begin

text \<open>
  The text rules: \<open>internal/textutil/textutil.go\<close> and \<open>internal/session/validate.go\<close>.
  Inputs reach this code through \<open>encoding/json\<close>, which only yields valid UTF-8, so a Go
  string is its list of runes. \<open>is_control\<close>, \<open>is_space\<close>, \<open>trim_space\<close>, \<open>fields\<close> and
  \<open>replace_all\<close> are the functions of the packages \<open>unicode\<close> and \<open>strings\<close> the code calls;
  the two Unicode categories they need are finite and written out.
\<close>

section \<open>The standard library functions the code calls\<close>

definition is_control :: "rune \<Rightarrow> bool" where
  "is_control r \<longleftrightarrow> r \<le> 0x1f \<or> (0x7f \<le> r \<and> r \<le> 0x9f)"

definition is_space :: "rune \<Rightarrow> bool" where
  "is_space r \<longleftrightarrow> (9 \<le> r \<and> r \<le> 13) \<or> r = 0x20 \<or> r = 0x85 \<or> r = 0xa0 \<or> r = 0x1680
     \<or> (0x2000 \<le> r \<and> r \<le> 0x200a) \<or> r = 0x2028 \<or> r = 0x2029 \<or> r = 0x202f
     \<or> r = 0x205f \<or> r = 0x3000"

definition trim_space :: "ustring \<Rightarrow> ustring" where
  "trim_space = trim_by is_space"

function fields :: "ustring \<Rightarrow> ustring list" where
  "fields s = (case dropWhile is_space s of
       [] \<Rightarrow> []
     | r # rs \<Rightarrow> (r # takeWhile (\<lambda>c. \<not> is_space c) rs)
                  # fields (dropWhile (\<lambda>c. \<not> is_space c) rs))"
  by pat_completeness auto
termination
proof (relation "measure length")
  fix s r and rs :: ustring
  assume "dropWhile is_space s = r # rs"
  then have "length (r # rs) \<le> length s"
    by (metis length_dropWhile_le)
  moreover have "length (dropWhile (\<lambda>c. \<not> is_space c) rs) \<le> length rs"
    by (rule length_dropWhile_le)
  ultimately show "(dropWhile (\<lambda>c. \<not> is_space c) rs, s) \<in> measure length"
    by simp
qed simp

declare fields.simps [simp del]

fun join :: "ustring \<Rightarrow> ustring list \<Rightarrow> ustring" where
  "join sep [] = []"
| "join sep [w] = w"
| "join sep (w # ws) = w @ sep @ join sep ws"

text \<open>\<open>strings.ReplaceAll\<close> with the pattern \<open>\r\n\<close>, and with the pattern \<open>\r\<close>.\<close>

fun replace_crlf :: "ustring \<Rightarrow> ustring" where
  "replace_crlf [] = []"
| "replace_crlf (a # s) =
     (case s of
        b # t \<Rightarrow> if a = 13 \<and> b = 10 then 10 # replace_crlf t else a # replace_crlf s
      | [] \<Rightarrow> [a])"

definition replace_cr :: "ustring \<Rightarrow> ustring" where
  "replace_cr = map (\<lambda>r. if r = 13 then 10 else r)"

text \<open>Go compares strings byte by byte, which for UTF-8 is the order of the code points.\<close>

fun text_le :: "ustring \<Rightarrow> ustring \<Rightarrow> bool" where
  "text_le [] _ = True"
| "text_le (_ # _) [] = False"
| "text_le (a # s) (b # t) = (a < b \<or> (a = b \<and> text_le s t))"

section \<open>Names\<close>

datatype text_error =
    TextEmpty string
  | TextTooShort string int
  | TextTooLong string int
  | TextControl string
  | TextBidi string
  | MessageEmpty
  | MessageTooLong int int
  | MessageControl
  | BadClientID

definition is_bidi_control :: "rune \<Rightarrow> bool" where
  "is_bidi_control r \<longleftrightarrow>
     r = 0x200e \<or> r = 0x200f \<or> (0x202a \<le> r \<and> r \<le> 0x202e) \<or> (0x2066 \<le> r \<and> r \<le> 0x2069)"

fun check_name_runes :: "string \<Rightarrow> ustring \<Rightarrow> text_error option" where
  "check_name_runes label [] = None"
| "check_name_runes label (r # rs) =
     (if is_control r then Some (TextControl label)
      else if is_bidi_control r then Some (TextBidi label)
      else check_name_runes label rs)"

definition normalize_name :: "ustring \<Rightarrow> string \<Rightarrow> int \<Rightarrow> int \<Rightarrow> text_error + ustring" where
  "normalize_name raw label mn mx =
     (let name = trim_space raw in
      if name = [] then Inl (TextEmpty label)
      else if int (length name) < mn then Inl (TextTooShort label mn)
      else if int (length name) > mx then Inl (TextTooLong label mx)
      else (case check_name_runes label name of
              Some e \<Rightarrow> Inl e
            | None \<Rightarrow> Inr (join [0x20] (fields name))))"

definition normalize_username :: "ustring \<Rightarrow> int \<Rightarrow> int \<Rightarrow> text_error + ustring" where
  "normalize_username raw mn mx = normalize_name raw ''username'' mn mx"

section \<open>Messages\<close>

fun check_message_runes :: "ustring \<Rightarrow> text_error option" where
  "check_message_runes [] = None"
| "check_message_runes (r # rs) =
     (if r = 10 \<or> r = 9 then check_message_runes rs
      else if is_control r then Some MessageControl
      else check_message_runes rs)"

definition normalize_message :: "ustring \<Rightarrow> int \<Rightarrow> text_error + ustring" where
  "normalize_message raw mx =
     (let t = replace_cr (replace_crlf raw);
          t = trim_by (\<lambda>r. r = 0x20 \<or> r = 9 \<or> r = 10) t in
      if t = [] then Inl MessageEmpty
      else if int (length t) > mx then Inl (MessageTooLong mx (int (length t)))
      else (case check_message_runes t of Some e \<Rightarrow> Inl e | None \<Rightarrow> Inr t))"

section \<open>Client UUIDs\<close>

text \<open>
  The regular expression is anchored, so it is the list of its character classes. Lowering
  the case comes first; the only runes above ASCII with an ASCII lower case are the Kelvin
  sign and the dotted capital I, and neither lower case is a hexadecimal digit.
\<close>

definition lower_ascii :: "rune \<Rightarrow> rune" where
  "lower_ascii r = (if 65 \<le> r \<and> r \<le> 90 then r + 32 else r)"

definition is_hex :: "rune \<Rightarrow> bool" where
  "is_hex r \<longleftrightarrow> (48 \<le> r \<and> r \<le> 57) \<or> (97 \<le> r \<and> r \<le> 102) \<or> (65 \<le> r \<and> r \<le> 70)"

definition uuid_pattern :: "(rune \<Rightarrow> bool) list" where
  "uuid_pattern = replicate 8 is_hex @ [(=) 45] @ replicate 4 is_hex @ [(=) 45]
     @ replicate 4 is_hex @ [(=) 45] @ replicate 4 is_hex @ [(=) 45] @ replicate 12 is_hex"

definition match_uuid :: "ustring \<Rightarrow> bool" where
  "match_uuid s \<longleftrightarrow> list_all2 (\<lambda>p r. p r) uuid_pattern s"

definition normalize_client_uuid :: "ustring \<Rightarrow> text_error + ustring" where
  "normalize_client_uuid raw =
     (let i = map lower_ascii (trim_space raw) in
      if \<not> match_uuid i then Inl BadClientID else Inr i)"

section \<open>Words\<close>

definition wordlike :: "ustring \<Rightarrow> bool" where
  "wordlike w \<longleftrightarrow> w \<noteq> [] \<and> (\<forall>r \<in> set w. \<not> is_space r)"

lemma space_is_space [simp]: "is_space 32"
  by (simp add: is_space_def)

lemma space_not_control [simp]: "\<not> is_control 32" "\<not> is_bidi_control 32"
  by (simp_all add: is_control_def is_bidi_control_def)

lemma fields_Nil [simp]: "fields [] = []"
  by (subst fields.simps) simp

lemma fields_space [simp]: "is_space r \<Longrightarrow> fields (r # s) = fields s"
  by (subst (1 2) fields.simps) simp

lemma fields_dropWhile: "fields (dropWhile is_space s) = fields s"
  by (induction s) auto

lemma fields_all_space: "\<forall>r \<in> set s. is_space r \<Longrightarrow> fields s = []"
  by (induction s) auto

lemma fields_word:
  assumes w: "wordlike w" and s: "s = [] \<or> is_space (hd s)"
  shows "fields (w @ s) = w # fields s"
proof -
  obtain r rs where w_eq: "w = r # rs" using w by (cases w) (auto simp: wordlike_def)
  have rs: "\<forall>c \<in> set rs. \<not> is_space c" and r: "\<not> is_space r"
    using w w_eq by (auto simp: wordlike_def)
  have "takeWhile (\<lambda>c. \<not> is_space c) (rs @ s) = rs"
    "dropWhile (\<lambda>c. \<not> is_space c) (rs @ s) = s"
    using rs s by (cases s; simp)+
  then show ?thesis
    by (subst fields.simps) (simp add: w_eq r)
qed

lemma join_Cons: "join sep (w # ws) = (if ws = [] then w else w @ sep @ join sep ws)"
  by (cases ws) auto

lemma fields_join: "\<forall>w \<in> set ws. wordlike w \<Longrightarrow> fields (join [32] ws) = ws"
proof (induction ws)
  case (Cons w ws)
  then show ?case using fields_word [of w "[]"] fields_word [of w "32 # join [32] ws"]
    by (auto simp: join_Cons)
qed simp

lemma fields_cases:
  obtains (none) "dropWhile is_space s = []" "fields s = []"
  | (some) w t where "dropWhile is_space s = w @ t" "wordlike w" "t = [] \<or> is_space (hd t)"
      "fields s = w # fields t"
proof (cases "dropWhile is_space s")
  case Nil
  then have "fields s = []" by (subst fields.simps) (simp only: list.case)
  with Nil show thesis by (rule none)
next
  case (Cons r rs)
  let ?w = "r # takeWhile (\<lambda>c. \<not> is_space c) rs"
  let ?t = "dropWhile (\<lambda>c. \<not> is_space c) rs"
  have "\<not> is_space r" using Cons hd_dropWhile [of is_space s] by simp
  then have "wordlike ?w" by (auto simp: wordlike_def dest: set_takeWhileD)
  moreover have "?t = [] \<or> is_space (hd ?t)" using hd_dropWhile by blast
  moreover have "fields s = ?w # fields ?t" using Cons by (simp add: fields.simps [of s])
  ultimately show thesis using some [of ?w ?t] Cons by simp
qed

lemma length_fields_induct [case_names step]:
  assumes "\<And>s. (\<And>w t. dropWhile is_space s = w @ t \<Longrightarrow> wordlike w \<Longrightarrow> P t) \<Longrightarrow> P s"
  shows "P s"
proof (induction "length s" arbitrary: s rule: less_induct)
  case less
  show ?case
  proof (rule assms)
    fix w t
    assume d: "dropWhile is_space s = w @ t" and "wordlike w"
    then have "length t < length (w @ t)" by (cases w) (auto simp: wordlike_def)
    also have "\<dots> \<le> length s" by (metis d length_dropWhile_le)
    finally show "P t" by (rule less)
  qed
qed

lemma fields_wordlike: "w \<in> set (fields s) \<Longrightarrow> wordlike w \<and> set w \<subseteq> set s"
proof (induction s rule: length_fields_induct)
  case (step s)
  show ?case
  proof (cases s rule: fields_cases)
    case (some w' t)
    have sub: "set (w' @ t) \<subseteq> set s" using some(1) by (metis set_dropWhileD subsetI)
    consider "w = w'" | "w \<in> set (fields t)" using step.prems some(4) by auto
    then show ?thesis
    proof cases
      case 2
      then have "wordlike w \<and> set w \<subseteq> set t" using step.IH some(1,2) by blast
      then show ?thesis using sub by auto
    qed (use some(2) sub in auto)
  qed (use step in simp)
qed

lemma fields_append_spaces: "\<forall>r \<in> set u. is_space r \<Longrightarrow> fields (s @ u) = fields s"
proof (induction s rule: length_fields_induct)
  case (step s)
  show ?case
  proof (cases s rule: fields_cases)
    case none
    then show ?thesis using step.prems
      by (intro trans [OF fields_all_space]) auto
  next
    case (some w t)
    have "dropWhile is_space s \<noteq> []" using some(1,2) by (simp add: wordlike_def)
    then have "dropWhile is_space (s @ u) = dropWhile is_space s @ u"
      by (auto simp: dropWhile_append)
    then have "fields (s @ u) = fields (dropWhile is_space s @ u)"
      by (metis fields_dropWhile)
    also have "\<dots> = w # fields (t @ u)"
      using some step.prems fields_word [of w "t @ u"] by (cases t; cases u) auto
    finally show ?thesis using some step by simp
  qed
qed

lemma fields_trim_space: "fields (trim_space s) = fields s"
proof -
  let ?d = "dropWhile is_space s"
  have "rev ?d = takeWhile is_space (rev ?d) @ dropWhile is_space (rev ?d)" by simp
  then have "?d = trim_space s @ rev (takeWhile is_space (rev ?d))"
    unfolding trim_space_def trim_by_def by (metis rev_append rev_rev_ident)
  moreover have "\<forall>r \<in> set (rev (takeWhile is_space (rev ?d))). is_space r"
    by (auto dest: set_takeWhileD)
  ultimately show ?thesis using fields_append_spaces fields_dropWhile by metis
qed

lemma length_join_fields:
  "length (join [32] (fields s)) \<le> length (dropWhile is_space s)"
proof (induction s rule: length_fields_induct)
  case (step s)
  show ?case
  proof (cases s rule: fields_cases)
    case (some w t)
    have IH: "length (join [32] (fields t)) \<le> length (dropWhile is_space t)"
      using step some by blast
    have "length (dropWhile is_space t) < length t" if "fields t \<noteq> []"
    proof -
      have "t \<noteq> []" "is_space (hd t)" using that some(3) by auto
      then show ?thesis using length_dropWhile_le [of is_space "tl t"] by (cases t) auto
    qed
    then show ?thesis using some IH by (cases "fields t = []") (auto simp: join_Cons)
  qed simp
qed

lemma hd_last_join:
  assumes "ws \<noteq> []" "\<forall>w \<in> set ws. wordlike w"
  shows "join [32] ws \<noteq> []" "\<not> is_space (hd (join [32] ws))" "\<not> is_space (last (join [32] ws))"
proof -
  have "join [32] ws \<noteq> [] \<and> \<not> is_space (hd (join [32] ws)) \<and> \<not> is_space (last (join [32] ws))"
    using assms by (induction ws) (auto simp: join_Cons wordlike_def hd_append)
  then show "join [32] ws \<noteq> []" "\<not> is_space (hd (join [32] ws))"
    "\<not> is_space (last (join [32] ws))" by auto
qed

lemma set_join: "set (join [32] ws) \<subseteq> insert 32 (\<Union> (set ` set ws))"
  by (induction ws) (auto simp: join_Cons)

lemma check_name_runes_None:
  "check_name_runes label s = None \<longleftrightarrow> (\<forall>r \<in> set s. \<not> is_control r \<and> \<not> is_bidi_control r)"
  by (induction s) auto

lemma check_message_runes_None:
  "check_message_runes s = None \<longleftrightarrow> (\<forall>r \<in> set s. r = 10 \<or> r = 9 \<or> \<not> is_control r)"
  by (induction s) auto

lemma normalize_name_Inr:
  "normalize_name raw label mn mx = Inr n \<longleftrightarrow>
     trim_space raw \<noteq> [] \<and> mn \<le> int (length (trim_space raw)) \<and> int (length (trim_space raw)) \<le> mx
     \<and> (\<forall>r \<in> set (trim_space raw). \<not> is_control r \<and> \<not> is_bidi_control r)
     \<and> n = join [32] (fields raw)"
proof (cases "check_name_runes label (trim_space raw)")
  case None
  then have "\<forall>r \<in> set (trim_space raw). \<not> is_control r \<and> \<not> is_bidi_control r"
    by (simp only: check_name_runes_None)
  with None show ?thesis by (auto simp: normalize_name_def Let_def fields_trim_space)
next
  case (Some e)
  then have "\<not> (\<forall>r \<in> set (trim_space raw). \<not> is_control r \<and> \<not> is_bidi_control r)"
    by (simp only: flip: check_name_runes_None [of label]) simp
  with Some show ?thesis by (simp add: normalize_name_def Let_def)
qed

lemma dropWhile_trim [simp]: "dropWhile is_space (trim_space s) = trim_space s"
  using hd_trim_by [of is_space s] by (cases "trim_space s") (auto simp: trim_space_def)

lemma fields_nonempty: "trim_space s \<noteq> [] \<Longrightarrow> fields s \<noteq> []"
  using fields_trim_space [of s]
  by (cases "trim_space s" rule: fields_cases) auto

lemma fields_Cons:
  "\<not> is_space r \<Longrightarrow> fields (r # rs) = (r # takeWhile (\<lambda>c. \<not> is_space c) rs)
     # fields (dropWhile (\<lambda>c. \<not> is_space c) rs)"
  by (subst fields.simps) simp

lemmas name_eval = normalize_name_def trim_space_def trim_by_def is_space_def is_control_def
  is_bidi_control_def fields_Cons

section \<open>Correctness of the text rules\<close>

lemma normalize_name_facts:
  assumes "normalize_name raw label mn mx = Inr n"
  shows "n \<noteq> []" "int (length n) \<le> mx" "\<forall>r \<in> set n. \<not> is_control r \<and> \<not> is_bidi_control r"
    "n = join [32] (fields n)" "trim_space n = n" "fields n = fields raw"
proof -
  from assms have t: "trim_space raw \<noteq> []" "int (length (trim_space raw)) \<le> mx"
    "\<forall>r \<in> set (trim_space raw). \<not> is_control r \<and> \<not> is_bidi_control r"
    and n: "n = join [32] (fields (trim_space raw))"
    by (auto simp: normalize_name_Inr fields_trim_space)
  let ?ws = "fields (trim_space raw)"
  have ws: "?ws \<noteq> []" "\<forall>w \<in> set ?ws. wordlike w"
    using fields_nonempty [OF t(1)] fields_wordlike by (auto simp: fields_trim_space)
  have "set n \<subseteq> insert 32 (set (trim_space raw))"
    using set_join [of ?ws] fields_wordlike [of _ "trim_space raw"] unfolding n by blast
  then show "\<forall>r \<in> set n. \<not> is_control r \<and> \<not> is_bidi_control r"
    using t(3) space_not_control by blast
  have "length n \<le> length (trim_space raw)"
    using length_join_fields [of "trim_space raw"] by (simp add: n)
  with t(2) show "int (length n) \<le> mx" by simp
  show "trim_space n = n"
    unfolding trim_space_def using hd_last_join [OF ws] by (intro trim_by_id) (simp add: n)
  show "n \<noteq> []" using hd_last_join(1) [OF ws] by (simp add: n)
  show fn: "fields n = fields raw" using fields_join [OF ws(2)] by (simp add: n fields_trim_space)
  show "n = join [32] (fields n)" unfolding fn by (simp add: n fields_trim_space)
qed

text \<open>A name the server accepts is not empty, no longer than the limit, free of control and
  bidirectional characters, and is its own words joined by single blanks, so it neither starts
  nor ends with white space.\<close>

theorem normalize_name_accepts:
  assumes "normalize_name raw label mn mx = Inr n"
  shows "n \<noteq> [] \<and> int (length n) \<le> mx
    \<and> (\<forall>r \<in> set n. \<not> is_control r \<and> \<not> is_bidi_control r)
    \<and> n = join [32] (fields n) \<and> trim_space n = n"
  using normalize_name_facts [OF assms] by blast

theorem normalize_name_accepts_witness:
  "normalize_name [32, 97, 32, 32, 98] ''x'' 1 40 = Inr [97, 32, 98] \<and> trim_space [97, 32, 98] = [97, 32, 98]"
proof -
  have h: "normalize_name [32, 97, 32, 32, 98] ''x'' 1 40 = Inr [97, 32, 98]"
    by (simp add: name_eval)
  show ?thesis using h normalize_name_accepts [OF h] by simp
qed

text \<open>Names that differ only in white space are one name: two accepted inputs with the same
  words are stored as the same name, and an accepted name that still meets the minimum length is
  accepted again unchanged.\<close>

theorem normalize_name_canonical:
  assumes "normalize_name raw label mn mx = Inr n"
  shows "(fields raw' = fields raw \<longrightarrow> normalize_name raw' label' mn' mx' = Inr n' \<longrightarrow> n' = n)
    \<and> (mn'' \<le> int (length n) \<longrightarrow> normalize_name n label'' mn'' mx = Inr n)"
  using assms normalize_name_facts [OF assms] by (auto simp: normalize_name_Inr)

theorem normalize_name_canonical_witness:
  "normalize_name [97, 32, 98] ''y'' 1 40 = Inr [97, 32, 98]"
proof -
  have h: "normalize_name [32, 97, 32, 32, 98] ''x'' 1 40 = Inr [97, 32, 98]"
    by (simp add: name_eval)
  show ?thesis
    using normalize_name_canonical [OF h, of "[]" "[]" 0 0 "[]" 1 "''y''"] by simp
qed

text \<open>The minimum length is checked before inner white space is collapsed, so a name shorter
  than the configured minimum can be accepted: four characters are demanded, three are stored.\<close>

theorem normalize_name_below_minimum:
  "normalize_name [97, 32, 32, 98] ''username'' 4 40 = Inr [97, 32, 98]"
  by (simp add: name_eval)

section \<open>Messages\<close>

lemma replace_cr_id: "13 \<notin> set s \<Longrightarrow> replace_cr s = s"
  by (induction s) (auto simp: replace_cr_def)

lemma replace_crlf_id: "13 \<notin> set s \<Longrightarrow> replace_crlf s = s"
proof (induction s rule: replace_crlf.induct)
  case (2 a s)
  then show ?case by (subst replace_crlf.simps(2)) (auto simp del: replace_crlf.simps(2) split: list.split)
qed simp

lemma no_cr_replace_cr: "13 \<notin> set (replace_cr s)"
  by (auto simp: replace_cr_def)

lemma normalize_message_Inr:
  "normalize_message raw mx = Inr t \<longleftrightarrow>
     t = trim_by (\<lambda>r. r = 32 \<or> r = 9 \<or> r = 10) (replace_cr (replace_crlf raw))
     \<and> t \<noteq> [] \<and> int (length t) \<le> mx \<and> (\<forall>r \<in> set t. r = 10 \<or> r = 9 \<or> \<not> is_control r)"
proof -
  define t0 where "t0 = trim_by (\<lambda>r. r = 32 \<or> r = 9 \<or> r = 10) (replace_cr (replace_crlf raw))"
  have "normalize_message raw mx =
     (if t0 = [] then Inl MessageEmpty
      else if int (length t0) > mx then Inl (MessageTooLong mx (int (length t0)))
      else (case check_message_runes t0 of Some e \<Rightarrow> Inl e | None \<Rightarrow> Inr t0))"
    unfolding normalize_message_def Let_def t0_def ..
  then show ?thesis
    unfolding t0_def [symmetric] using check_message_runes_None [of t0]
    by (cases "check_message_runes t0") auto
qed

text \<open>An accepted message is not empty, within the limit, holds no carriage return and no
  control character but the line feed and the tab, and is accepted again unchanged: a message
  that was stored can be edited to itself.\<close>

theorem normalize_message_accepts:
  assumes "normalize_message raw mx = Inr t"
  shows "t \<noteq> [] \<and> int (length t) \<le> mx \<and> 13 \<notin> set t
    \<and> (\<forall>r \<in> set t. is_control r \<longrightarrow> r = 10 \<or> r = 9)
    \<and> normalize_message t mx = Inr t"
proof -
  have t: "t = trim_by (\<lambda>r. r = 32 \<or> r = 9 \<or> r = 10) (replace_cr (replace_crlf raw))"
    and ok: "t \<noteq> []" "int (length t) \<le> mx" "\<forall>r \<in> set t. r = 10 \<or> r = 9 \<or> \<not> is_control r"
    using assms unfolding normalize_message_Inr by blast+
  have cr: "13 \<notin> set t"
    using no_cr_replace_cr set_trim_by unfolding t by fastforce
  have "trim_by (\<lambda>r. r = 32 \<or> r = 9 \<or> r = 10) t = t"
    by (simp add: t)
  then have "normalize_message t mx = Inr t"
    using ok cr by (simp add: normalize_message_Inr replace_crlf_id replace_cr_id)
  then show ?thesis using ok cr by blast
qed

theorem normalize_message_accepts_witness:
  "normalize_message [104, 105, 13, 10, 33, 32] 100 = Inr [104, 105, 10, 33]
   \<and> normalize_message [104, 105, 10, 33] 100 = Inr [104, 105, 10, 33]"
proof -
  have h: "normalize_message [104, 105, 13, 10, 33, 32] 100 = Inr [104, 105, 10, 33]"
    by (simp add: normalize_message_def replace_cr_def trim_by_def is_control_def)
  show ?thesis using h normalize_message_accepts [OF h] by simp
qed

section \<open>Client UUIDs\<close>

lemma match_uuid_length: "match_uuid s \<Longrightarrow> length s = 36"
  by (auto simp: match_uuid_def uuid_pattern_def dest!: list_all2_lengthD)

lemma match_uuid_set: "match_uuid s \<Longrightarrow> \<forall>r \<in> set s. is_hex r \<or> r = 45"
proof
  fix r
  assume m: "match_uuid s" and "r \<in> set s"
  then obtain i where i: "i < length s" "r = s ! i" by (auto simp: in_set_conv_nth)
  then have "(uuid_pattern ! i) r" "i < length uuid_pattern"
    using m by (auto simp: match_uuid_def list_all2_conv_all_nth)
  moreover have "\<forall>p \<in> set uuid_pattern. p = is_hex \<or> p = (=) 45"
    by (auto simp: uuid_pattern_def)
  ultimately show "is_hex r \<or> r = 45" by (metis nth_mem)
qed

text \<open>An accepted client UUID has 36 characters, all of them lower-case hexadecimal digits or
  hyphens, and is its own canonical form: the registry never holds two spellings of one UUID.\<close>

theorem normalize_client_uuid_canonical:
  assumes "normalize_client_uuid raw = Inr u"
  shows "length u = 36 \<and> (\<forall>r \<in> set u. (is_hex r \<and> lower_ascii r = r) \<or> r = 45)
    \<and> normalize_client_uuid u = Inr u"
proof -
  have u: "u = map lower_ascii (trim_space raw)" and m: "match_uuid u"
    using assms by (auto simp: normalize_client_uuid_def Let_def split: if_splits)
  have idem: "lower_ascii (lower_ascii r) = lower_ascii r" for r
    by (simp add: lower_ascii_def)
  have low: "map lower_ascii u = u" by (simp add: u idem)
  have chars: "\<forall>r \<in> set u. (is_hex r \<and> lower_ascii r = r) \<or> r = 45"
    using match_uuid_set [OF m] low by (auto simp: map_eq_conv [of lower_ascii u "\<lambda>r. r", simplified])
  have "\<forall>r \<in> set u. \<not> is_space r"
    using match_uuid_set [OF m] by (auto simp: is_space_def is_hex_def)
  then have "trim_space u = u"
    unfolding trim_space_def by (intro trim_by_id) (metis hd_in_set last_in_set)
  then have "normalize_client_uuid u = Inr u"
    using low m by (simp add: normalize_client_uuid_def)
  with chars match_uuid_length [OF m] show ?thesis by blast
qed

lemma uuid_pattern_eval: "uuid_pattern =
    [is_hex, is_hex, is_hex, is_hex, is_hex, is_hex, is_hex, is_hex, (=) 45, is_hex, is_hex, is_hex, is_hex, (=) 45, is_hex, is_hex, is_hex, is_hex, (=) 45,
     is_hex, is_hex, is_hex, is_hex, (=) 45, is_hex, is_hex, is_hex, is_hex, is_hex, is_hex, is_hex, is_hex, is_hex, is_hex, is_hex, is_hex]"
proof -
  have "replicate 8 is_hex = [is_hex, is_hex, is_hex, is_hex, is_hex, is_hex, is_hex, is_hex]"
    "replicate 4 is_hex = [is_hex, is_hex, is_hex, is_hex]"
    "replicate 12 is_hex = [is_hex, is_hex, is_hex, is_hex, is_hex, is_hex,
       is_hex, is_hex, is_hex, is_hex, is_hex, is_hex]"
    by (simp_all add: numeral_eq_Suc)
  then show ?thesis by (simp add: uuid_pattern_def)
qed

theorem normalize_client_uuid_canonical_witness:
  "normalize_client_uuid (runes ''0A000000-0000-4000-8000-00000000000f '')
     = Inr (runes ''0a000000-0000-4000-8000-00000000000f'')
   \<and> length (runes ''0a000000-0000-4000-8000-00000000000f'') = 36"
proof -
  have h: "normalize_client_uuid (runes ''0A000000-0000-4000-8000-00000000000f '')
     = Inr (runes ''0a000000-0000-4000-8000-00000000000f'')"
    by (simp add: normalize_client_uuid_def runes_def trim_space_def trim_by_def is_space_def
        lower_ascii_def match_uuid_def uuid_pattern_eval is_hex_def)
  show ?thesis using h normalize_client_uuid_canonical [OF h] by blast
qed

end
