(* ===== verification/Authz.thy ===== *)
theory Authz
  imports Prelude
begin

text \<open>
  The permission masks of \<open>internal/authz/authz.go\<close>: one bit per permission, the table of
  wire keys, and the conversions between masks and keys. \<open>policy\<close> is the interface
  \<open>authz.Policy\<close> as its clients use it: whoever implements it answers \<open>Can\<close> from a mask.
\<close>

unbundle bit_operations_syntax

type_synonym perm = "64 word"

definition perm_send_messages :: perm where
  "perm_send_messages = push_bit 0 1"

definition perm_moderate_chat :: perm where
  "perm_moderate_chat = push_bit 1 1"

definition perm_manage_rooms :: perm where
  "perm_manage_rooms = push_bit 2 1"

definition perm_join_locked_rooms :: perm where
  "perm_join_locked_rooms = push_bit 3 1"

definition perm_bypass_room_password :: perm where
  "perm_bypass_room_password = push_bit 4 1"

definition perm_kick :: perm where
  "perm_kick = push_bit 5 1"

definition perm_ban :: perm where
  "perm_ban = push_bit 6 1"

definition perm_mute :: perm where
  "perm_mute = push_bit 7 1"

definition perm_move_users :: perm where
  "perm_move_users = push_bit 8 1"

definition perm_manage_roles :: perm where
  "perm_manage_roles = push_bit 9 1"

definition perm_upload_files :: perm where
  "perm_upload_files = push_bit 10 1"

definition perm_control_bots :: perm where
  "perm_control_bots = push_bit 11 1"

definition perm_speak :: perm where
  "perm_speak = push_bit 12 1"

definition perm_publish_video :: perm where
  "perm_publish_video = push_bit 13 1"

definition perm_share_screen :: perm where
  "perm_share_screen = push_bit 14 1"

definition perm_paint :: perm where
  "perm_paint = push_bit 15 1"

definition perm_manage_bots :: perm where
  "perm_manage_bots = push_bit 16 1"

lemmas perm_defs = perm_send_messages_def
  perm_moderate_chat_def
  perm_manage_rooms_def
  perm_join_locked_rooms_def
  perm_bypass_room_password_def
  perm_kick_def
  perm_ban_def
  perm_mute_def
  perm_move_users_def
  perm_manage_roles_def
  perm_upload_files_def
  perm_control_bots_def
  perm_speak_def
  perm_publish_video_def
  perm_share_screen_def
  perm_paint_def
  perm_manage_bots_def

record descriptor =
  d_perm :: perm
  d_key :: string

definition all_perms :: "descriptor list" where
  "all_perms =
    [\<lparr>d_perm = perm_send_messages, d_key = ''send_messages''\<rparr>,
     \<lparr>d_perm = perm_upload_files, d_key = ''upload_files''\<rparr>,
     \<lparr>d_perm = perm_moderate_chat, d_key = ''moderate_chat''\<rparr>,
     \<lparr>d_perm = perm_manage_rooms, d_key = ''manage_rooms''\<rparr>,
     \<lparr>d_perm = perm_join_locked_rooms, d_key = ''join_locked_rooms''\<rparr>,
     \<lparr>d_perm = perm_bypass_room_password, d_key = ''bypass_room_password''\<rparr>,
     \<lparr>d_perm = perm_kick, d_key = ''kick''\<rparr>,
     \<lparr>d_perm = perm_ban, d_key = ''ban''\<rparr>,
     \<lparr>d_perm = perm_mute, d_key = ''mute''\<rparr>,
     \<lparr>d_perm = perm_move_users, d_key = ''move_users''\<rparr>,
     \<lparr>d_perm = perm_speak, d_key = ''speak''\<rparr>,
     \<lparr>d_perm = perm_publish_video, d_key = ''publish_video''\<rparr>,
     \<lparr>d_perm = perm_share_screen, d_key = ''share_screen''\<rparr>,
     \<lparr>d_perm = perm_paint, d_key = ''paint''\<rparr>,
     \<lparr>d_perm = perm_manage_roles, d_key = ''manage_roles''\<rparr>,
     \<lparr>d_perm = perm_control_bots, d_key = ''control_bots''\<rparr>,
     \<lparr>d_perm = perm_manage_bots, d_key = ''manage_bots''\<rparr>]"

text \<open>\<open>Lookup\<close> returns the first table entry with the key.\<close>

definition lookup_perm :: "string \<Rightarrow> descriptor option" where
  "lookup_perm key = find (\<lambda>d. d_key d = key) all_perms"

text \<open>\<open>Keys\<close>: a pass over the table in its order.\<close>

definition perm_keys :: "perm \<Rightarrow> string list" where
  "perm_keys m = map d_key (filter (\<lambda>d. m AND d_perm d \<noteq> 0) all_perms)"

text \<open>\<open>Mask\<close>: unknown keys are skipped.\<close>

fun perm_mask_from :: "perm \<Rightarrow> string list \<Rightarrow> perm" where
  "perm_mask_from acc [] = acc"
| "perm_mask_from acc (k # ks) =
     (case lookup_perm k of
        Some d \<Rightarrow> perm_mask_from (acc OR d_perm d) ks
      | None \<Rightarrow> perm_mask_from acc ks)"

definition perm_mask :: "string list \<Rightarrow> perm" where
  "perm_mask ks = perm_mask_from 0 ks"

definition everything :: perm where
  "everything = foldl (\<lambda>acc d. acc OR d_perm d) 0 all_perms"

section \<open>The bit of each permission\<close>

lemma and_bit: "m AND 2 ^ i \<noteq> (0 :: perm) \<longleftrightarrow> bit m i"
  by (simp add: and_exp_eq_0_iff_not_bit)

text \<open>Every table entry is one bit, and no two entries share a key.\<close>

lemma all_perms_bits: "list_all2 (\<lambda>d i. d_perm d = push_bit i 1 \<and> i < 64) all_perms
    [0, 10, 1, 2, 3, 4, 5, 6, 7, 8, 12, 13, 14, 15, 9, 11, 16]"
  by (simp add: all_perms_def perm_defs)

lemma distinct_perm_keys: "distinct (map d_key all_perms)"
  by (simp add: all_perms_def)

lemma perm_bit_exists: "d \<in> set all_perms \<Longrightarrow> \<exists>i < 64. d_perm d = 2 ^ i"
  using all_perms_bits by (auto simp: list_all2_conv_all_nth in_set_conv_nth)

lemma lookup_perm_Some: "lookup_perm k = Some d \<longleftrightarrow> d \<in> set all_perms \<and> d_key d = k"
proof
  assume "lookup_perm k = Some d"
  then show "d \<in> set all_perms \<and> d_key d = k"
    by (auto simp: lookup_perm_def find_Some_iff)
next
  assume d: "d \<in> set all_perms \<and> d_key d = k"
  then obtain e where e: "lookup_perm k = Some e"
    by (cases "lookup_perm k") (auto simp: lookup_perm_def find_None_iff)
  then have "e \<in> set all_perms" "d_key e = d_key d"
    using d by (auto simp: lookup_perm_def find_Some_iff)
  with d have "e = d"
    using distinct_perm_keys by (auto simp: distinct_map inj_on_def)
  with e show "lookup_perm k = Some d" by simp
qed

lemma lookup_perm_None: "lookup_perm k = None \<longleftrightarrow> k \<notin> d_key ` set all_perms"
  by (auto simp: lookup_perm_def find_None_iff)

lemma bit_perm_mask_from:
  "bit (perm_mask_from acc ks) n \<longleftrightarrow>
     bit acc n \<or> (\<exists>d \<in> set all_perms. d_key d \<in> set ks \<and> bit (d_perm d) n)"
proof (induction ks arbitrary: acc)
  case (Cons k ks)
  show ?case
  proof (cases "lookup_perm k")
    case None
    then have "\<forall>d \<in> set all_perms. d_key d \<noteq> k" by (auto simp: lookup_perm_None)
    with None Cons.IH show ?thesis by auto
  next
    case (Some d)
    then have d: "d \<in> set all_perms" "d_key d = k" by (simp_all add: lookup_perm_Some)
    have "\<forall>e \<in> set all_perms. d_key e = k \<longleftrightarrow> e = d"
      using d Some by (metis lookup_perm_Some option.inject)
    then have "(\<exists>e \<in> set all_perms. d_key e \<in> set (k # ks) \<and> bit (d_perm e) n) \<longleftrightarrow>
        bit (d_perm d) n \<or> (\<exists>e \<in> set all_perms. d_key e \<in> set ks \<and> bit (d_perm e) n)"
      using d(1) by auto
    then show ?thesis by (simp only: perm_mask_from.simps Some option.case Cons.IH bit_or_iff disj_assoc)
  qed
qed simp

lemma bit_perm_mask:
  "bit (perm_mask ks) n \<longleftrightarrow> (\<exists>d \<in> set all_perms. d_key d \<in> set ks \<and> bit (d_perm d) n)"
  by (simp add: perm_mask_def bit_perm_mask_from)

lemma bit_fold_or:
  "bit (foldl (\<lambda>acc d. acc OR f d) a xs) n \<longleftrightarrow> bit (a :: perm) n \<or> (\<exists>d \<in> set xs. bit (f d) n)"
  by (induction xs arbitrary: a) (auto simp: bit_or_iff)

lemma bit_everything: "bit everything n \<longleftrightarrow> (\<exists>d \<in> set all_perms. bit (d_perm d) n)"
  by (simp add: everything_def bit_fold_or)

lemma set_perm_keys: "k \<in> set (perm_keys m) \<longleftrightarrow> (\<exists>d \<in> set all_perms. d_key d = k \<and> m AND d_perm d \<noteq> 0)"
  by (auto simp: perm_keys_def)

lemma bit_single: "bit (2 ^ i :: perm) n \<longleftrightarrow> n = i \<and> i < 64"
  by (auto simp: bit_exp_iff)

lemma perm_bit_and:
  "d \<in> set all_perms \<Longrightarrow> bit (d_perm d) n \<Longrightarrow> m AND d_perm d \<noteq> 0 \<longleftrightarrow> bit m n"
  using perm_bit_exists [of d] by (auto simp: bit_single and_exp_eq_0_iff_not_bit simp del: bit_exp_iff)

lemma all_perms_distinct_bits:
  "d \<in> set all_perms \<Longrightarrow> e \<in> set all_perms \<Longrightarrow> d_perm d = d_perm e \<Longrightarrow> d = e"
proof -
  have "distinct (map d_perm all_perms)"
    by (simp add: all_perms_def perm_defs)
  then show "d \<in> set all_perms \<Longrightarrow> e \<in> set all_perms \<Longrightarrow> d_perm d = d_perm e \<Longrightarrow> d = e"
    by (auto simp: distinct_map inj_on_def)
qed

section \<open>Masks and wire keys\<close>

text \<open>Sending a mask as wire keys and folding the keys back loses exactly the bits the
  table does not name.\<close>

theorem mask_of_keys: "perm_mask (perm_keys m) = m AND everything"
proof (rule bit_eqI)
  fix n
  have "(\<exists>d \<in> set all_perms. d_key d \<in> set (perm_keys m) \<and> bit (d_perm d) n)
      \<longleftrightarrow> (\<exists>d \<in> set all_perms. m AND d_perm d \<noteq> 0 \<and> bit (d_perm d) n)"
    using distinct_perm_keys by (auto simp: set_perm_keys distinct_map inj_on_def)
  also have "\<dots> \<longleftrightarrow> bit m n \<and> (\<exists>d \<in> set all_perms. bit (d_perm d) n)"
    using perm_bit_and by blast
  finally show "bit (perm_mask (perm_keys m)) n \<longleftrightarrow> bit (m AND everything) n"
    by (simp add: bit_perm_mask bit_and_iff bit_everything)
qed

text \<open>Folding wire keys into a mask and expanding it gives the known keys, each once, in the
  order of the table: unknown keys and repetitions are dropped and nothing is added.\<close>

theorem keys_of_mask: "perm_keys (perm_mask ks) = filter (\<lambda>k. k \<in> set ks) (map d_key all_perms)"
proof -
  have "perm_mask ks AND d_perm d \<noteq> 0 \<longleftrightarrow> d_key d \<in> set ks" if d: "d \<in> set all_perms" for d
  proof -
    obtain i where i: "i < 64" "d_perm d = 2 ^ i" using perm_bit_exists [OF d] by blast
    have bits: "bit (d_perm e) i \<longleftrightarrow> e = d" if "e \<in> set all_perms" for e
      using that d i all_perms_distinct_bits [of e d] perm_bit_exists [OF that]
      by (auto simp: bit_single simp del: bit_exp_iff)
    have "perm_mask ks AND d_perm d \<noteq> 0 \<longleftrightarrow> bit (perm_mask ks) i" unfolding i(2) by (rule and_bit)
    also have "\<dots> \<longleftrightarrow> d_key d \<in> set ks" using d by (auto simp: bit_perm_mask bits)
    finally show ?thesis .
  qed
  then have "filter (\<lambda>d. perm_mask ks AND d_perm d \<noteq> 0) all_perms
      = filter (\<lambda>d. d_key d \<in> set ks) all_perms"
    by (intro filter_cong refl) simp
  then show ?thesis by (simp add: perm_keys_def filter_map comp_def)
qed

section \<open>The policy interface\<close>

text \<open>
  \<open>authz.Policy\<close> as its clients see it. The law ties \<open>Can\<close> to one mask per user; the gateway's
  \<open>permissionsOf\<close> asks \<open>Can\<close> for every known permission and rebuilds the mask from the answers.
\<close>

definition permissions_via :: "(string \<Rightarrow> perm \<Rightarrow> bool) \<Rightarrow> string \<Rightarrow> perm" where
  "permissions_via can u = foldl (\<lambda>acc d. if can u (d_perm d) then acc OR d_perm d else acc) 0 all_perms"

lemma bit_fold_if_or:
  "bit (foldl (\<lambda>acc d. if P d then acc OR f d else acc) a xs) n
     \<longleftrightarrow> bit (a :: perm) n \<or> (\<exists>d \<in> set xs. P d \<and> bit (f d) n)"
  by (induction xs arbitrary: a) (auto simp: bit_or_iff)

locale policy =
  fixes can :: "string \<Rightarrow> perm \<Rightarrow> bool"
    and perms_of :: "string \<Rightarrow> perm"
  assumes can_mask: "can u p \<longleftrightarrow> perms_of u AND p \<noteq> 0"
begin

lemma can_zero: "\<not> can u 0"
  by (simp add: can_mask)

lemma can_or: "can u (p OR q) \<longleftrightarrow> can u p \<or> can u q"
  unfolding can_mask by (simp add: bit.conj_disj_distrib or_eq_0_iff)

lemma permissions_via_eq: "permissions_via can u = perms_of u AND everything"
proof (rule bit_eqI)
  fix n
  have "(\<exists>d \<in> set all_perms. can u (d_perm d) \<and> bit (d_perm d) n)
      \<longleftrightarrow> bit (perms_of u) n \<and> (\<exists>d \<in> set all_perms. bit (d_perm d) n)"
    using perm_bit_and by (auto simp: can_mask)
  then show "bit (permissions_via can u) n \<longleftrightarrow> bit (perms_of u AND everything) n"
    by (simp add: permissions_via_def bit_fold_if_or bit_and_iff bit_everything)
qed

lemma can_known: "d \<in> set all_perms \<Longrightarrow> can u (d_perm d) \<longleftrightarrow> permissions_via can u AND d_perm d \<noteq> 0"
proof -
  assume d: "d \<in> set all_perms"
  then obtain i where i: "d_perm d = 2 ^ i" "bit (d_perm d) i"
    using perm_bit_exists [of d] by (auto simp: bit_single simp del: bit_exp_iff)
  show ?thesis
    using perm_bit_and [OF d i(2)] d i(2)
    by (simp add: permissions_via_eq can_mask bit_and_iff bit_everything) blast
qed

end

end
