(* ===== verification/Storage.thy ===== *)
theory Storage
  imports Textutil Authz
begin

text \<open>
  The tables of the SQLite database that hold the settings, the known users, roles, role
  assignments, sanctions, the moderation log and the room definitions, and the statements of
  \<open>internal/storage/roles.go\<close>, \<open>sanctions.go\<close>, \<open>rooms.go\<close>, \<open>settings.go\<close> and \<open>users.go\<close>
  on them. A table is the list of its rows; the primary keys,
  the unique indexes (\<open>COLLATE NOCASE\<close> compares ASCII letters without case) and the foreign key
  with \<open>ON DELETE CASCADE\<close> come from \<open>internal/storage/migrations.go\<close>.

  \<open>env\<close> is what one call sees of the outside: which database calls fail at the driver (the disk
  is full, the context is done), the UUID the random source yields and the clock, in nanoseconds.
  A statement that fails leaves its table alone.
\<close>

section \<open>Rows\<close>

record role =
  role_id :: string
  role_name :: ustring
  role_permissions :: perm
  role_priority :: int
  role_color :: ustring
  role_tag_style :: ustring
  role_is_default :: bool
  role_created_at :: int

record user_role =
  ur_client :: uuid
  ur_role :: string
  ur_granted_by :: uuid
  ur_granted_at :: int

record sanction_row =
  sn_id :: string
  sn_client :: uuid
  sn_kind :: string
  sn_reason :: ustring
  sn_username :: ustring
  sn_created_by :: uuid
  sn_created_at :: int
  sn_expires_at :: int

record mod_entry =
  me_at :: int
  me_actor_uuid :: uuid
  me_actor_name :: ustring
  me_action :: string
  me_target_uuid :: uuid
  me_target_name :: ustring
  me_detail :: ustring

record room_def =
  rd_id :: string
  rd_name :: ustring
  rd_password :: ustring
  rd_capacity :: int
  rd_position :: int
  rd_required_role :: string
  rd_created_at :: int
  rd_updated_at :: int

record known_user =
  ku_client :: uuid
  ku_username :: ustring
  ku_first_seen :: int
  ku_last_seen :: int
  ku_visits :: int
  ku_note :: ustring

record db =
  t_settings :: "(string, ustring) gomap"
  t_users :: "known_user list"
  t_roles :: "role list"
  t_user_roles :: "user_role list"
  t_sanctions :: "sanction_row list"
  t_mod_log :: "mod_entry list"
  t_rooms :: "room_def list"

definition empty_db :: db where
  "empty_db = \<lparr>t_settings = [], t_users = [], t_roles = [], t_user_roles = [], t_sanctions = [], t_mod_log = [], t_rooms = []\<rparr>"

section \<open>The outside\<close>

datatype dbcall =
    CountRoles | CreateRole string | UpdateRole | DeleteRole | ListRoles
  | GrantRole | RevokeRole | ListAssignments
  | PutSanction | DeleteSanction | ListSanctions | PurgeSanctions | AppendModLog
  | CreateRoom | UpdateRoom | DeleteRoom | ListRooms | NextRoomPosition
  | LoadSettings | PutSetting | DeleteSetting | TouchUser | UpdateUsername | MarkUserSeen
  | GetRole | GetRoom | RecentModLog | RecentUsers | CountUsers | ReadIdentity | CreateIdentity
  | CreateBot | UpdateBot | DeleteBot | GetBot | ListBots
  | CreatePlaylist | RenamePlaylist | DeletePlaylist | DeletePlaylistsOfBot | GetPlaylist | ListPlaylists

record env =
  fails :: "dbcall \<Rightarrow> bool"
  new_uuid :: string
  clock :: int

definition unix :: "int \<Rightarrow> int" where
  "unix t = t div 1000000000"

definition quiet_env :: "string \<Rightarrow> int \<Rightarrow> env" where
  "quiet_env u t = \<lparr>fails = \<lambda>_. False, new_uuid = u, clock = t\<rparr>"

datatype store_error =
    DbError | RoleNotFound | RoleNameTaken | RoomNotFound | RoomNameTaken

definition nocase :: "ustring \<Rightarrow> ustring" where
  "nocase = map lower_ascii"

section \<open>Roles\<close>

definition role_id_admin :: string where "role_id_admin = ''role-admin''"
definition role_id_default :: string where "role_id_default = ''role-default''"

definition db_create_role :: "env \<Rightarrow> role \<Rightarrow> db \<Rightarrow> store_error + db" where
  "db_create_role e r d =
     (if fails e (CreateRole (role_id r)) then Inl DbError
      else if role_id r \<in> set (map role_id (t_roles d))
          \<or> nocase (role_name r) \<in> set (map (nocase \<circ> role_name) (t_roles d)) then Inl RoleNameTaken
      else Inr (d\<lparr>t_roles := t_roles d @ [r\<lparr>role_created_at := unix (clock e)\<rparr>]\<rparr>))"

definition db_update_role :: "env \<Rightarrow> role \<Rightarrow> db \<Rightarrow> store_error + db" where
  "db_update_role e r d =
     (if fails e UpdateRole then Inl DbError
      else if role_id r \<in> set (map role_id (t_roles d))
          \<and> (\<exists>x \<in> set (t_roles d). role_id x \<noteq> role_id r \<and> nocase (role_name x) = nocase (role_name r))
        then Inl RoleNameTaken
      else if role_id r \<notin> set (map role_id (t_roles d)) then Inl RoleNotFound
      else Inr (d\<lparr>t_roles := map (\<lambda>x. if role_id x = role_id r
               then r\<lparr>role_created_at := role_created_at x\<rparr> else x) (t_roles d)\<rparr>))"

definition db_delete_role :: "env \<Rightarrow> string \<Rightarrow> db \<Rightarrow> store_error + db" where
  "db_delete_role e i d =
     (if fails e DeleteRole then Inl DbError
      else if i \<notin> set (map role_id (t_roles d)) then Inl RoleNotFound
      else Inr (d\<lparr>t_roles := filter (\<lambda>r. role_id r \<noteq> i) (t_roles d),
                 t_user_roles := filter (\<lambda>a. ur_role a \<noteq> i) (t_user_roles d)\<rparr>))"

text \<open>\<open>ORDER BY priority DESC, created_at\<close>: two stable sorts, the second key first.\<close>

definition db_list_roles :: "env \<Rightarrow> db \<Rightarrow> store_error + role list" where
  "db_list_roles e d =
     (if fails e ListRoles then Inl DbError
      else Inr (sort_key (\<lambda>r. - role_priority r) (sort_key role_created_at (t_roles d))))"

definition db_count_roles :: "env \<Rightarrow> db \<Rightarrow> store_error + nat" where
  "db_count_roles e d = (if fails e CountRoles then Inl DbError else Inr (length (t_roles d)))"

text \<open>The foreign key refuses an unknown role; a second grant is ignored.\<close>

definition db_grant_role :: "env \<Rightarrow> uuid \<Rightarrow> string \<Rightarrow> uuid \<Rightarrow> db \<Rightarrow> store_error + db" where
  "db_grant_role e u i by_uuid d =
     (if fails e GrantRole then Inl DbError
      else if (u, i) \<in> set (map (\<lambda>a. (ur_client a, ur_role a)) (t_user_roles d)) then Inr d
      else if i \<notin> set (map role_id (t_roles d)) then Inl DbError
      else Inr (d\<lparr>t_user_roles := t_user_roles d
               @ [\<lparr>ur_client = u, ur_role = i, ur_granted_by = by_uuid, ur_granted_at = unix (clock e)\<rparr>]\<rparr>))"

definition db_revoke_role :: "env \<Rightarrow> uuid \<Rightarrow> string \<Rightarrow> db \<Rightarrow> store_error + db" where
  "db_revoke_role e u i d =
     (if fails e RevokeRole then Inl DbError
      else Inr (d\<lparr>t_user_roles := filter (\<lambda>a. \<not> (ur_client a = u \<and> ur_role a = i)) (t_user_roles d)\<rparr>))"

definition db_list_assignments :: "env \<Rightarrow> db \<Rightarrow> store_error + (uuid \<times> string) list" where
  "db_list_assignments e d =
     (if fails e ListAssignments then Inl DbError
      else Inr (map (\<lambda>a. (ur_client a, ur_role a)) (t_user_roles d)))"

section \<open>Sanctions and the log\<close>

definition sanction_key :: "sanction_row \<Rightarrow> uuid \<times> string" where
  "sanction_key s = (sn_client s, sn_kind s)"

text \<open>The upsert keeps the row's id and replaces the rest.\<close>

definition db_put_sanction :: "env \<Rightarrow> sanction_row \<Rightarrow> db \<Rightarrow> store_error + db" where
  "db_put_sanction e s d =
     (if fails e PutSanction then Inl DbError
      else if sanction_key s \<in> set (map sanction_key (t_sanctions d)) then
        Inr (d\<lparr>t_sanctions := map (\<lambda>x. if sanction_key x = sanction_key s
               then x\<lparr>sn_reason := sn_reason s, sn_username := sn_username s,
                      sn_created_by := sn_created_by s, sn_created_at := unix (clock e),
                      sn_expires_at := sn_expires_at s\<rparr> else x) (t_sanctions d)\<rparr>)
      else if sn_id s \<in> set (map sn_id (t_sanctions d)) then Inl DbError
      else Inr (d\<lparr>t_sanctions := t_sanctions d @ [s\<lparr>sn_created_at := unix (clock e)\<rparr>]\<rparr>))"

definition db_delete_sanction :: "env \<Rightarrow> uuid \<Rightarrow> string \<Rightarrow> db \<Rightarrow> store_error + db \<times> bool" where
  "db_delete_sanction e u kind d =
     (if fails e DeleteSanction then Inl DbError
      else Inr (d\<lparr>t_sanctions := filter (\<lambda>s. sanction_key s \<noteq> (u, kind)) (t_sanctions d)\<rparr>,
                (u, kind) \<in> set (map sanction_key (t_sanctions d))))"

text \<open>\<open>ORDER BY created_at DESC\<close>.\<close>

definition db_list_sanctions :: "env \<Rightarrow> db \<Rightarrow> store_error + sanction_row list" where
  "db_list_sanctions e d =
     (if fails e ListSanctions then Inl DbError
      else Inr (sort_key (\<lambda>s. - sn_created_at s) (t_sanctions d)))"

definition db_purge_sanctions :: "env \<Rightarrow> db \<Rightarrow> store_error + db \<times> nat" where
  "db_purge_sanctions e d =
     (if fails e PurgeSanctions then Inl DbError
      else let gone = (\<lambda>s. sn_expires_at s > 0 \<and> sn_expires_at s \<le> unix (clock e)) in
        Inr (d\<lparr>t_sanctions := filter (\<lambda>s. \<not> gone s) (t_sanctions d)\<rparr>,
             length (filter gone (t_sanctions d))))"

definition db_append_mod_log :: "env \<Rightarrow> mod_entry \<Rightarrow> db \<Rightarrow> store_error + db" where
  "db_append_mod_log e m d =
     (if fails e AppendModLog then Inl DbError
      else Inr (d\<lparr>t_mod_log := t_mod_log d @ [m\<lparr>me_at := unix (clock e)\<rparr>]\<rparr>))"

section \<open>Rooms\<close>

definition db_create_room :: "env \<Rightarrow> room_def \<Rightarrow> db \<Rightarrow> store_error + db" where
  "db_create_room e r d =
     (if fails e CreateRoom then Inl DbError
      else if rd_id r \<in> set (map rd_id (t_rooms d))
          \<or> nocase (rd_name r) \<in> set (map (nocase \<circ> rd_name) (t_rooms d)) then Inl RoomNameTaken
      else Inr (d\<lparr>t_rooms := t_rooms d
               @ [r\<lparr>rd_created_at := unix (clock e), rd_updated_at := unix (clock e)\<rparr>]\<rparr>))"

definition db_update_room :: "env \<Rightarrow> room_def \<Rightarrow> db \<Rightarrow> store_error + db" where
  "db_update_room e r d =
     (if fails e UpdateRoom then Inl DbError
      else if rd_id r \<in> set (map rd_id (t_rooms d))
          \<and> (\<exists>x \<in> set (t_rooms d). rd_id x \<noteq> rd_id r \<and> nocase (rd_name x) = nocase (rd_name r))
        then Inl RoomNameTaken
      else if rd_id r \<notin> set (map rd_id (t_rooms d)) then Inl RoomNotFound
      else Inr (d\<lparr>t_rooms := map (\<lambda>x. if rd_id x = rd_id r
               then r\<lparr>rd_created_at := rd_created_at x, rd_updated_at := unix (clock e)\<rparr>
               else x) (t_rooms d)\<rparr>))"

definition db_delete_room :: "env \<Rightarrow> string \<Rightarrow> db \<Rightarrow> store_error + db" where
  "db_delete_room e i d =
     (if fails e DeleteRoom then Inl DbError
      else if i \<notin> set (map rd_id (t_rooms d)) then Inl RoomNotFound
      else Inr (d\<lparr>t_rooms := filter (\<lambda>r. rd_id r \<noteq> i) (t_rooms d)\<rparr>))"

definition db_list_rooms :: "env \<Rightarrow> db \<Rightarrow> store_error + room_def list" where
  "db_list_rooms e d =
     (if fails e ListRooms then Inl DbError
      else Inr (sort_key rd_position (sort_key rd_created_at (t_rooms d))))"

definition db_next_room_position :: "env \<Rightarrow> db \<Rightarrow> store_error + int" where
  "db_next_room_position e d =
     (if fails e NextRoomPosition then Inl DbError
      else Inr (if t_rooms d = [] then 0 else Max (set (map rd_position (t_rooms d))) + 1))"

section \<open>Settings and known users\<close>

definition db_load_settings :: "env \<Rightarrow> db \<Rightarrow> store_error + (string, ustring) gomap" where
  "db_load_settings e d = (if fails e LoadSettings then Inl DbError else Inr (t_settings d))"

definition db_put_setting :: "env \<Rightarrow> string \<Rightarrow> ustring \<Rightarrow> db \<Rightarrow> store_error + db" where
  "db_put_setting e k v d =
     (if fails e PutSetting then Inl DbError else Inr (d\<lparr>t_settings := mput k v (t_settings d)\<rparr>))"

definition db_delete_setting :: "env \<Rightarrow> string \<Rightarrow> db \<Rightarrow> store_error + db" where
  "db_delete_setting e k d =
     (if fails e DeleteSetting then Inl DbError else Inr (d\<lparr>t_settings := mdel k (t_settings d)\<rparr>))"

text \<open>The first visit makes the row; a later one refreshes the name and counts the visit.\<close>

definition db_touch_user :: "env \<Rightarrow> uuid \<Rightarrow> ustring \<Rightarrow> db \<Rightarrow> store_error + db" where
  "db_touch_user e u name d =
     (if fails e TouchUser then Inl DbError
      else if u \<in> set (map ku_client (t_users d)) then
        Inr (d\<lparr>t_users := map (\<lambda>x. if ku_client x = u
               then x\<lparr>ku_username := name, ku_last_seen := unix (clock e), ku_visits := ku_visits x + 1\<rparr>
               else x) (t_users d)\<rparr>)
      else Inr (d\<lparr>t_users := t_users d
               @ [\<lparr>ku_client = u, ku_username = name, ku_first_seen = unix (clock e),
                   ku_last_seen = unix (clock e), ku_visits = 1, ku_note = []\<rparr>]\<rparr>))"

definition db_update_username :: "env \<Rightarrow> uuid \<Rightarrow> ustring \<Rightarrow> db \<Rightarrow> store_error + db" where
  "db_update_username e u name d =
     (if fails e UpdateUsername then Inl DbError
      else Inr (d\<lparr>t_users := map (\<lambda>x. if ku_client x = u
               then x\<lparr>ku_username := name, ku_last_seen := unix (clock e)\<rparr> else x) (t_users d)\<rparr>))"

definition db_mark_user_seen :: "env \<Rightarrow> uuid \<Rightarrow> db \<Rightarrow> store_error + db" where
  "db_mark_user_seen e u d =
     (if fails e MarkUserSeen then Inl DbError
      else Inr (d\<lparr>t_users := map (\<lambda>x. if ku_client x = u
               then x\<lparr>ku_last_seen := unix (clock e)\<rparr> else x) (t_users d)\<rparr>))"

section \<open>The constraints of the schema\<close>

definition wf_db :: "db \<Rightarrow> bool" where
  "wf_db d \<longleftrightarrow>
     distinct (map role_id (t_roles d)) \<and> distinct (map (nocase \<circ> role_name) (t_roles d))
     \<and> distinct (map (\<lambda>a. (ur_client a, ur_role a)) (t_user_roles d))
     \<and> (\<forall>a \<in> set (t_user_roles d). ur_role a \<in> set (map role_id (t_roles d)))
     \<and> distinct (map sn_id (t_sanctions d)) \<and> distinct (map sanction_key (t_sanctions d))
     \<and> distinct (map rd_id (t_rooms d)) \<and> distinct (map (nocase \<circ> rd_name) (t_rooms d))"

lemma wf_empty_db: "wf_db empty_db"
  by (simp add: wf_db_def empty_db_def)

lemma map_update_same:
  "(\<And>x. x \<in> set xs \<Longrightarrow> c x \<Longrightarrow> g (f x) = g x) \<Longrightarrow> map g (map (\<lambda>x. if c x then f x else x) xs) = map g xs"
  by auto

lemma distinct_map_update_one:
  assumes "distinct (map g xs)" "distinct (map key xs)"
    and "\<And>x. x \<in> set xs \<Longrightarrow> key x \<noteq> k \<Longrightarrow> g x \<noteq> v"
    and "\<And>x. x \<in> set xs \<Longrightarrow> key x = k \<Longrightarrow> g (f x) = v"
  shows "distinct (map g (map (\<lambda>x. if key x = k then f x else x) xs))"
  using assms
proof (induction xs)
  case (Cons x xs)
  then have IH: "distinct (map g (map (\<lambda>x. if key x = k then f x else x) xs))" by simp
  show ?case
  proof (cases "key x = k")
    case True
    then have "k \<notin> key ` set xs" using Cons.prems(2) by simp
    then have "\<forall>y \<in> set xs. key y \<noteq> k" by blast
    with True Cons.prems IH show ?thesis by (auto simp: image_iff)
  next
    case False
    with Cons.prems IH show ?thesis by (auto simp: image_iff split: if_splits)
  qed
qed simp

lemma wf_db_create_role: "db_create_role e r d = Inr d' \<Longrightarrow> wf_db d \<Longrightarrow> wf_db d'"
  by (auto simp: db_create_role_def wf_db_def split: if_splits)

lemma wf_db_update_role: "db_update_role e r d = Inr d' \<Longrightarrow> wf_db d \<Longrightarrow> wf_db d'"
proof -
  assume u: "db_update_role e r d = Inr d'" and wf: "wf_db d"
  let ?f = "\<lambda>x. r\<lparr>role_created_at := role_created_at x\<rparr>"
  let ?rows = "map (\<lambda>x. if role_id x = role_id r then ?f x else x) (t_roles d)"
  from u have d': "d' = d\<lparr>t_roles := ?rows\<rparr>"
    and free: "\<forall>x \<in> set (t_roles d). role_id x \<noteq> role_id r \<longrightarrow> nocase (role_name x) \<noteq> nocase (role_name r)"
    by (auto simp: db_update_role_def split: if_splits)
  have ids: "map role_id ?rows = map role_id (t_roles d)" by (rule map_update_same) simp
  have "distinct (map (nocase \<circ> role_name) ?rows)"
    by (rule distinct_map_update_one [where v = "nocase (role_name r)"])
       (use wf free in \<open>auto simp: wf_db_def\<close>)
  then show "wf_db d'" using wf unfolding wf_db_def
    by (simp add: d' ids del: map_map)
qed

lemma wf_db_delete_role: "db_delete_role e i d = Inr d' \<Longrightarrow> wf_db d \<Longrightarrow> wf_db d'"
proof -
  assume del: "db_delete_role e i d = Inr d'" and wf: "wf_db d"
  then have "ur_role a \<in> role_id ` {r \<in> set (t_roles d). role_id r \<noteq> i}"
    if "a \<in> set (t_user_roles d)" "ur_role a \<noteq> i" for a
    using that by (force simp: wf_db_def)
  with del wf show "wf_db d'"
    by (auto simp: db_delete_role_def wf_db_def distinct_map_filter split: if_splits)
qed

lemma wf_db_grant_role: "db_grant_role e u i b d = Inr d' \<Longrightarrow> wf_db d \<Longrightarrow> wf_db d'"
  by (auto simp: db_grant_role_def wf_db_def split: if_splits)

lemma wf_db_revoke_role: "db_revoke_role e u i d = Inr d' \<Longrightarrow> wf_db d \<Longrightarrow> wf_db d'"
  by (auto simp: db_revoke_role_def wf_db_def distinct_map_filter split: if_splits)

lemma wf_db_put_sanction: "db_put_sanction e s d = Inr d' \<Longrightarrow> wf_db d \<Longrightarrow> wf_db d'"
  by (auto simp: db_put_sanction_def wf_db_def map_update_same sanction_key_def comp_def
      simp del: map_map split: if_splits)

lemma wf_db_delete_sanction: "db_delete_sanction e u k d = Inr (d', b) \<Longrightarrow> wf_db d \<Longrightarrow> wf_db d'"
  by (auto simp: db_delete_sanction_def wf_db_def distinct_map_filter split: if_splits)

lemma wf_db_purge_sanctions: "db_purge_sanctions e d = Inr (d', n) \<Longrightarrow> wf_db d \<Longrightarrow> wf_db d'"
  by (auto simp: db_purge_sanctions_def Let_def wf_db_def distinct_map_filter split: if_splits)

lemma wf_db_append_mod_log: "db_append_mod_log e m d = Inr d' \<Longrightarrow> wf_db d \<Longrightarrow> wf_db d'"
  by (auto simp: db_append_mod_log_def wf_db_def split: if_splits)

lemma wf_db_create_room: "db_create_room e r d = Inr d' \<Longrightarrow> wf_db d \<Longrightarrow> wf_db d'"
  by (auto simp: db_create_room_def wf_db_def split: if_splits)

lemma wf_db_delete_room: "db_delete_room e i d = Inr d' \<Longrightarrow> wf_db d \<Longrightarrow> wf_db d'"
  by (auto simp: db_delete_room_def wf_db_def distinct_map_filter split: if_splits)

lemma wf_db_update_room: "db_update_room e r d = Inr d' \<Longrightarrow> wf_db d \<Longrightarrow> wf_db d'"
proof -
  assume u: "db_update_room e r d = Inr d'" and wf: "wf_db d"
  let ?f = "\<lambda>x. r\<lparr>rd_created_at := rd_created_at x, rd_updated_at := unix (clock e)\<rparr>"
  let ?rows = "map (\<lambda>x. if rd_id x = rd_id r then ?f x else x) (t_rooms d)"
  from u have d': "d' = d\<lparr>t_rooms := ?rows\<rparr>"
    and free: "\<forall>x \<in> set (t_rooms d). rd_id x \<noteq> rd_id r \<longrightarrow> nocase (rd_name x) \<noteq> nocase (rd_name r)"
    by (auto simp: db_update_room_def split: if_splits)
  have ids: "map rd_id ?rows = map rd_id (t_rooms d)" by (rule map_update_same) simp
  have "distinct (map (nocase \<circ> rd_name) ?rows)"
    by (rule distinct_map_update_one [where v = "nocase (rd_name r)"])
       (use wf free in \<open>auto simp: wf_db_def\<close>)
  then show "wf_db d'" using wf unfolding wf_db_def
    by (simp add: d' ids del: map_map)
qed

end
