(* ===== verification/Access.thy ===== *)
theory Access
  imports Storage
begin

text \<open>
  The role and sanction system: \<open>internal/access/access.go\<close>, \<open>roles.go\<close> and \<open>sanctions.go\<close>.
  The manager keeps roles, assignments and sanctions in memory beside the database it writes
  through to. \<open>lower\<close> is \<open>strings.ToLower\<close>, whose Unicode table is a parameter; the role order
  is the only place it is used here.
\<close>

section \<open>State\<close>

record access =
  store :: db
  roles :: "(string, role) gomap"
  assignments :: "(uuid, (string, bool) gomap) gomap"
  sanctions :: "(uuid, (string, sanction_row) gomap) gomap"

datatype access_error =
    ErrRoleNotFound | ErrRoleNameTaken | ErrRoleProtected | ErrOutranked
  | ErrYourself | ErrRoleNameRequired | ErrBadRoleName text_error | ErrStore

definition sanction_ban :: string where "sanction_ban = ''ban''"
definition sanction_mute :: string where "sanction_mute = ''mute''"

section \<open>Questions\<close>

definition granted :: "access \<Rightarrow> uuid \<Rightarrow> string \<Rightarrow> bool" where
  "granted m u i \<longleftrightarrow> mget2 (assignments m) u i = Some True"

definition roles_of :: "access \<Rightarrow> uuid \<Rightarrow> role list" where
  "roles_of m u = map snd (filter (\<lambda>(i, r). role_is_default r \<or> granted m u i) (roles m))"

definition permissions :: "access \<Rightarrow> uuid \<Rightarrow> perm" where
  "permissions m u = foldl (\<lambda>mask r. mask OR role_permissions r) 0 (roles_of m u)"

definition can :: "access \<Rightarrow> uuid \<Rightarrow> perm \<Rightarrow> bool" where
  "can m u p \<longleftrightarrow> permissions m u AND p \<noteq> 0"

definition priority :: "access \<Rightarrow> uuid \<Rightarrow> int" where
  "priority m u = foldl (\<lambda>p r. if role_priority r > p then role_priority r else p) 0 (roles_of m u)"

definition has_role :: "access \<Rightarrow> uuid \<Rightarrow> string \<Rightarrow> bool" where
  "has_role m u i =
     ((case mget (roles m) i of None \<Rightarrow> False | Some r \<Rightarrow> role_is_default r) \<or> granted m u i)"

definition role_exists :: "access \<Rightarrow> string \<Rightarrow> bool" where
  "role_exists m i \<longleftrightarrow> mget (roles m) i \<noteq> None"

definition can_enter_restricted :: "access \<Rightarrow> uuid \<Rightarrow> string \<Rightarrow> bool" where
  "can_enter_restricted m u i =
     (if i = [] then True else has_role m u i \<or> can m u perm_join_locked_rooms)"

definition can_bypass_password :: "access \<Rightarrow> uuid \<Rightarrow> bool" where
  "can_bypass_password m u = can m u perm_bypass_room_password"

definition outranks_or_equal :: "access \<Rightarrow> uuid \<Rightarrow> uuid \<Rightarrow> bool" where
  "outranks_or_equal m actor target \<longleftrightarrow> priority m target \<ge> priority m actor"

section \<open>The role order\<close>

definition stays_before :: "(ustring \<Rightarrow> ustring) \<Rightarrow> role \<Rightarrow> role \<Rightarrow> bool" where
  "stays_before lower a b \<longleftrightarrow> role_priority a > role_priority b
     \<or> (role_priority a = role_priority b \<and> text_le (lower (role_name a)) (lower (role_name b)))"

text \<open>
  The insertion sort: the element at \<open>i\<close> moves left past every element it may not follow.
  The sorted prefix is held with its last element first, the direction the inner loop walks.
\<close>

fun sink :: "(ustring \<Rightarrow> ustring) \<Rightarrow> role \<Rightarrow> role list \<Rightarrow> role list" where
  "sink lower b [] = [b]"
| "sink lower b (a # prefix) =
     (if stays_before lower a b then b # a # prefix else a # sink lower b prefix)"

definition sort_roles :: "(ustring \<Rightarrow> ustring) \<Rightarrow> role list \<Rightarrow> role list" where
  "sort_roles lower rs = rev (foldl (\<lambda>prefix b. sink lower b prefix) [] rs)"

definition user_roles :: "(ustring \<Rightarrow> ustring) \<Rightarrow> access \<Rightarrow> uuid \<Rightarrow> role list" where
  "user_roles lower m u = sort_roles lower (roles_of m u)"

definition all_roles :: "(ustring \<Rightarrow> ustring) \<Rightarrow> access \<Rightarrow> role list" where
  "all_roles lower m = sort_roles lower (vals (roles m))"

section \<open>Loading\<close>

text \<open>Assignments of a role that is not defined are skipped.\<close>

definition load_assignment ::
  "(string, role) gomap \<Rightarrow> uuid \<times> string \<Rightarrow> (uuid, (string, bool) gomap) gomap
     \<Rightarrow> (uuid, (string, bool) gomap) gomap" where
  "load_assignment rs a by_user =
     (if mget rs (snd a) = None then by_user
      else mput2 (fst a) (snd a) True by_user)"

definition load_sanction ::
  "sanction_row \<Rightarrow> (uuid, (string, sanction_row) gomap) gomap
     \<Rightarrow> (uuid, (string, sanction_row) gomap) gomap" where
  "load_sanction s by_target =
     mput2 (sn_client s) (sn_kind s) s by_target"

definition reload :: "env \<Rightarrow> access \<Rightarrow> access_error + access" where
  "reload e m =
     (case db_list_roles e (store m) of Inl _ \<Rightarrow> Inl ErrStore | Inr rs \<Rightarrow>
      case db_list_assignments e (store m) of Inl _ \<Rightarrow> Inl ErrStore | Inr as \<Rightarrow>
      case db_list_sanctions e (store m) of Inl _ \<Rightarrow> Inl ErrStore | Inr ss \<Rightarrow>
      let by_id = load_map role_id rs in
      Inr (m\<lparr>roles := by_id,
             assignments := fold (load_assignment by_id) as [],
             sanctions := fold load_sanction ss []\<rparr>))"

definition Reload :: "env \<Rightarrow> access \<Rightarrow> access \<times> (access_error + nat)" where
  "Reload e m =
     (case db_purge_sanctions e (store m) of
        Inl _ \<Rightarrow> (m, Inl ErrStore)
      | Inr (d, _) \<Rightarrow>
          (case reload e (m\<lparr>store := d\<rparr>) of
             Inl err \<Rightarrow> (m\<lparr>store := d\<rparr>, Inl err)
           | Inr m' \<Rightarrow> (m', Inr (length (roles m')))))"

definition default_role :: role where
  "default_role = \<lparr>role_id = role_id_default, role_name = runes ''User'',
     role_permissions = perm_send_messages OR perm_upload_files OR perm_speak
       OR perm_publish_video OR perm_share_screen OR perm_paint,
     role_priority = 0, role_color = [], role_tag_style = [], role_is_default = True,
     role_created_at = 0\<rparr>"

definition admin_role :: role where
  "admin_role = \<lparr>role_id = role_id_admin, role_name = runes ''Admin'',
     role_permissions = everything, role_priority = 100, role_color = runes ''#e74c3c'',
     role_tag_style = [], role_is_default = False, role_created_at = 0\<rparr>"

definition seed :: "env \<Rightarrow> db \<Rightarrow> db \<times> access_error option" where
  "seed e d =
     (case db_count_roles e d of
        Inl _ \<Rightarrow> (d, Some ErrStore)
      | Inr n \<Rightarrow>
          if n > 0 then (d, None)
          else (case db_create_role e default_role d of
                  Inl _ \<Rightarrow> (d, Some ErrStore)
                | Inr d1 \<Rightarrow>
                    (case db_create_role e admin_role d1 of
                       Inl _ \<Rightarrow> (d1, Some ErrStore)
                     | Inr d2 \<Rightarrow> (d2, None))))"

definition New :: "env \<Rightarrow> db \<Rightarrow> db \<times> (access_error + access)" where
  "New e d =
     (case seed e d of
        (d1, Some err) \<Rightarrow> (d1, Inl err)
      | (d1, None) \<Rightarrow>
          (case db_purge_sanctions e d1 of
             Inl _ \<Rightarrow> (d1, Inl ErrStore)
           | Inr (d2, _) \<Rightarrow>
               (d2, reload e \<lparr>store = d2, roles = [], assignments = [], sanctions = []\<rparr>)))"

section \<open>Role operations\<close>

record role_spec =
  sp_name :: "ustring option"
  sp_permissions :: "perm option"
  sp_priority :: "int option"
  sp_color :: "ustring option"
  sp_tag_style :: "ustring option"

definition normalize_role_name :: "ustring \<Rightarrow> access_error + ustring" where
  "normalize_role_name raw =
     (case normalize_name raw ''role name'' 1 32 of
        Inl err \<Rightarrow> Inl (ErrBadRoleName err) | Inr name \<Rightarrow> Inr name)"

text \<open>The fields of a specification that are set, written over a role.\<close>

definition apply_spec :: "role_spec \<Rightarrow> role \<Rightarrow> role" where
  "apply_spec sp r = r\<lparr>
     role_permissions := (case sp_permissions sp of None \<Rightarrow> role_permissions r | Some p \<Rightarrow> p),
     role_priority := (case sp_priority sp of None \<Rightarrow> role_priority r | Some p \<Rightarrow> p),
     role_color := (case sp_color sp of None \<Rightarrow> role_color r | Some c \<Rightarrow> c),
     role_tag_style := (case sp_tag_style sp of None \<Rightarrow> role_tag_style r | Some c \<Rightarrow> c)\<rparr>"

definition create_role :: "env \<Rightarrow> role_spec \<Rightarrow> access \<Rightarrow> access \<times> (access_error + role)" where
  "create_role e sp m =
     (case sp_name sp of
        None \<Rightarrow> (m, Inl ErrRoleNameRequired)
      | Some raw \<Rightarrow>
          (case normalize_role_name raw of
             Inl err \<Rightarrow> (m, Inl err)
           | Inr name \<Rightarrow>
               (let r = apply_spec sp \<lparr>role_id = new_uuid e, role_name = name,
                          role_permissions = 0, role_priority = 0, role_color = [],
                          role_tag_style = [], role_is_default = False, role_created_at = 0\<rparr> in
                case db_create_role e r (store m) of
                  Inl RoleNameTaken \<Rightarrow> (m, Inl ErrRoleNameTaken)
                | Inl _ \<Rightarrow> (m, Inl ErrStore)
                | Inr d \<Rightarrow> (m\<lparr>store := d, roles := mput (role_id r) r (roles m)\<rparr>, Inr r))))"

definition update_role ::
  "env \<Rightarrow> string \<Rightarrow> role_spec \<Rightarrow> access \<Rightarrow> access \<times> (access_error + role)" where
  "update_role e i sp m =
     (case mget (roles m) i of
        None \<Rightarrow> (m, Inl ErrRoleNotFound)
      | Some r0 \<Rightarrow>
          (case (case sp_name sp of
                   None \<Rightarrow> Inr (role_name r0) | Some raw \<Rightarrow> normalize_role_name raw) of
             Inl err \<Rightarrow> (m, Inl err)
           | Inr name \<Rightarrow>
               (let r = apply_spec sp (r0\<lparr>role_name := name\<rparr>) in
                case db_update_role e r (store m) of
                  Inl RoleNameTaken \<Rightarrow> (m, Inl ErrRoleNameTaken)
                | Inl RoleNotFound \<Rightarrow> (m, Inl ErrRoleNotFound)
                | Inl _ \<Rightarrow> (m, Inl ErrStore)
                | Inr d \<Rightarrow> (m\<lparr>store := d, roles := mput i r (roles m)\<rparr>, Inr r))))"

definition delete_role :: "env \<Rightarrow> string \<Rightarrow> access \<Rightarrow> access \<times> access_error option" where
  "delete_role e i m =
     (if i = role_id_default \<or> i = role_id_admin then (m, Some ErrRoleProtected)
      else if mget (roles m) i = None then (m, Some ErrRoleNotFound)
      else (case db_delete_role e i (store m) of
              Inl RoleNotFound \<Rightarrow> (m, Some ErrRoleNotFound)
            | Inl _ \<Rightarrow> (m, Some ErrStore)
            | Inr d \<Rightarrow> (m\<lparr>store := d, roles := mdel i (roles m),
                           assignments := map (\<lambda>(u, g). (u, mdel i g)) (assignments m)\<rparr>, None)))"

text \<open>The empty actor is the admin panel, which is not ranked.\<close>

definition grant :: "env \<Rightarrow> uuid \<Rightarrow> uuid \<Rightarrow> string \<Rightarrow> access \<Rightarrow> access \<times> access_error option" where
  "grant e actor target i m =
     (case mget (roles m) i of
        None \<Rightarrow> (m, Some ErrRoleNotFound)
      | Some r \<Rightarrow>
          if actor \<noteq> [] \<and> role_priority r \<ge> priority m actor then (m, Some ErrOutranked)
          else (case db_grant_role e target i actor (store m) of
                  Inl _ \<Rightarrow> (m, Some ErrStore)
                | Inr d \<Rightarrow>
                    (m\<lparr>store := d, assignments := mput2 target i True (assignments m)\<rparr>, None)))"

definition revoke :: "env \<Rightarrow> uuid \<Rightarrow> uuid \<Rightarrow> string \<Rightarrow> access \<Rightarrow> access \<times> access_error option" where
  "revoke e actor target i m =
     (if mget (roles m) i = None then (m, Some ErrRoleNotFound)
      else if actor \<noteq> [] \<and> outranks_or_equal m actor target then (m, Some ErrOutranked)
      else (case db_revoke_role e target i (store m) of
              Inl _ \<Rightarrow> (m, Some ErrStore)
            | Inr d \<Rightarrow> (m\<lparr>store := d, assignments := mdel2 target i (assignments m)\<rparr>, None)))"

section \<open>Sanctions\<close>

record sanction =
  sa_kind :: string
  sa_reason :: ustring
  sa_created_by :: uuid
  sa_created_at :: int
  sa_expires_at :: int

definition active :: "sanction \<Rightarrow> int \<Rightarrow> bool" where
  "active s t \<longleftrightarrow> sa_expires_at s = 0 \<or> sa_expires_at s > unix t"

text \<open>\<open>duration\<close> is a \<open>time.Duration\<close>: nanoseconds.\<close>

definition apply_sanction ::
  "env \<Rightarrow> string \<Rightarrow> uuid \<Rightarrow> uuid \<Rightarrow> ustring \<Rightarrow> ustring \<Rightarrow> int \<Rightarrow> access
     \<Rightarrow> access \<times> (access_error + sanction)" where
  "apply_sanction e kind actor target username reason duration m =
     (if target = actor then (m, Inl ErrYourself)
      else if actor \<noteq> [] \<and> outranks_or_equal m actor target then (m, Inl ErrOutranked)
      else
        (let expires = (if duration > 0 then unix (clock e + duration) else 0);
             row = \<lparr>sn_id = new_uuid e, sn_client = target, sn_kind = kind, sn_reason = reason,
                    sn_username = username, sn_created_by = actor, sn_created_at = 0,
                    sn_expires_at = expires\<rparr> in
         case db_put_sanction e row (store m) of
           Inl _ \<Rightarrow> (m, Inl ErrStore)
         | Inr d \<Rightarrow>
             (m\<lparr>store := d, sanctions := mput2 target kind row (sanctions m)\<rparr>,
              Inr \<lparr>sa_kind = kind, sa_reason = reason, sa_created_by = actor,
                   sa_created_at = unix (clock e), sa_expires_at = expires\<rparr>)))"

definition ban where "ban e = apply_sanction e sanction_ban"
definition mute where "mute e = apply_sanction e sanction_mute"

definition lift :: "env \<Rightarrow> string \<Rightarrow> uuid \<Rightarrow> access \<Rightarrow> access \<times> (access_error + bool)" where
  "lift e kind target m =
     (case db_delete_sanction e target kind (store m) of
        Inl _ \<Rightarrow> (m, Inl ErrStore)
      | Inr (d, removed) \<Rightarrow>
          (m\<lparr>store := d, sanctions := mdel2 target kind (sanctions m)\<rparr>, Inr removed))"

definition sanction_of :: "access \<Rightarrow> uuid \<Rightarrow> string \<Rightarrow> sanction_row option" where
  "sanction_of m u kind = mget2 (sanctions m) u kind"

definition active_sanction :: "int \<Rightarrow> access \<Rightarrow> uuid \<Rightarrow> string \<Rightarrow> sanction option" where
  "active_sanction t m u kind =
     (case sanction_of m u kind of
        None \<Rightarrow> None
      | Some row \<Rightarrow>
          (let v = \<lparr>sa_kind = sn_kind row, sa_reason = sn_reason row,
                    sa_created_by = sn_created_by row, sa_created_at = sn_created_at row,
                    sa_expires_at = sn_expires_at row\<rparr> in
           if \<not> active v t then None else Some v))"

definition ban_of where "ban_of t m u = active_sanction t m u sanction_ban"
definition is_banned where "is_banned t m u \<longleftrightarrow> ban_of t m u \<noteq> None"
definition mute_of where "mute_of t m u = active_sanction t m u sanction_mute"
definition is_muted where "is_muted t m u \<longleftrightarrow> mute_of t m u \<noteq> None"

definition active_sanctions :: "int \<Rightarrow> access \<Rightarrow> sanction_row list" where
  "active_sanctions t m =
     filter (\<lambda>row. active \<lparr>sa_kind = sn_kind row, sa_reason = [], sa_created_by = [],
                          sa_created_at = 0, sa_expires_at = sn_expires_at row\<rparr> t)
       (concat (map vals (vals (sanctions m))))"

text \<open>A log that cannot be written is reported and dropped.\<close>

definition log_mod :: "env \<Rightarrow> mod_entry \<Rightarrow> access \<Rightarrow> access" where
  "log_mod e entry m =
     (case db_append_mod_log e entry (store m) of Inl _ \<Rightarrow> m | Inr d \<Rightarrow> m\<lparr>store := d\<rparr>)"

end
