(* ===== verification/Access_Correct.thy ===== *)
theory Access_Correct
  imports Access "HOL-Library.Multiset"
begin

text \<open>
  What the role and sanction system promises. The abstract specification is the database: the
  manager's in-memory view \<open>mirrors\<close> its tables, each operation keeps it so, and every
  decision taken from memory is the decision the tables give. The remaining lemmas are the
  ranking rules, the sanctions and the role order.
\<close>

section \<open>Memory mirrors the database\<close>

text \<open>The creation time of a role or a sanction, and the row id a sanction keeps in an upsert,
  are set by the database and are not part of the mirrored view.\<close>

definition role_public :: "role \<Rightarrow> role" where
  "role_public r = r\<lparr>role_created_at := 0\<rparr>"

definition sanction_public :: "sanction_row \<Rightarrow> sanction_row" where
  "sanction_public s = s\<lparr>sn_id := [], sn_created_at := 0\<rparr>"

definition db_granted :: "db \<Rightarrow> uuid \<Rightarrow> string \<Rightarrow> bool" where
  "db_granted d u i \<longleftrightarrow> (u, i) \<in> set (map (\<lambda>a. (ur_client a, ur_role a)) (t_user_roles d))"

text \<open>Sanctions are compared as far as they are in force at \<open>T\<close>: a purge deletes rows that have
  expired, and when the load after it fails, memory still holds them.\<close>

definition in_force :: "int \<Rightarrow> sanction_row \<Rightarrow> bool" where
  "in_force T s \<longleftrightarrow> sn_expires_at s = 0 \<or> sn_expires_at s > unix T"

definition live_public :: "int \<Rightarrow> sanction_row option \<Rightarrow> sanction_row option" where
  "live_public T row =
     Option.bind (map_option sanction_public row) (\<lambda>s. if in_force T s then Some s else None)"

definition mirrors :: "int \<Rightarrow> access \<Rightarrow> bool" where
  "mirrors T m \<longleftrightarrow> wf_db (store m) \<and> wf_map (roles m) \<and> wf_map2 (assignments m) \<and> wf_map2 (sanctions m)
    \<and> (\<forall>i. map_option role_public (mget (roles m) i)
          = map_option role_public (find_by role_id i (t_roles (store m))))
    \<and> (\<forall>u i. granted m u i \<longleftrightarrow> db_granted (store m) u i)
    \<and> (\<forall>u k. live_public T (sanction_of m u k)
          = live_public T (find_by sanction_key (u, k) (t_sanctions (store m))))"

lemma role_public_eqD:
  assumes "role_public r = role_public r'"
  shows "role_id r = role_id r'" "role_permissions r = role_permissions r'"
    "role_priority r = role_priority r'" "role_is_default r = role_is_default r'"
    "role_name r = role_name r'"
  using arg_cong [OF assms, of role_id] arg_cong [OF assms, of role_permissions]
    arg_cong [OF assms, of role_priority] arg_cong [OF assms, of role_is_default]
    arg_cong [OF assms, of role_name]
  by (simp_all add: role_public_def)

lemma sanction_public_eqD:
  assumes "sanction_public s = sanction_public s'"
  shows "sn_expires_at s = sn_expires_at s'" "sn_kind s = sn_kind s'" "sn_client s = sn_client s'"
    "sn_reason s = sn_reason s'" "sn_created_by s = sn_created_by s'"
  using arg_cong [OF assms, of sn_expires_at] arg_cong [OF assms, of sn_kind]
    arg_cong [OF assms, of sn_client] arg_cong [OF assms, of sn_reason]
    arg_cong [OF assms, of sn_created_by]
  by (simp_all add: sanction_public_def)

lemma sanction_key_eq: "sanction_key s = (u, k) \<longleftrightarrow> sn_client s = u \<and> sn_kind s = k"
  by (simp add: sanction_key_def)

lemma mirrors_role_view:
  "mirrors T m \<Longrightarrow> map_option role_public (mget (roles m) i)
     = map_option role_public (find_by role_id i (t_roles (store m)))"
  by (simp add: mirrors_def)

lemma mirrors_role_exists:
  "mirrors T m \<Longrightarrow> mget (roles m) i = None \<longleftrightarrow> i \<notin> role_id ` set (t_roles (store m))"
  unfolding mirrors_def by (metis find_by_None option.map_disc_iff)

lemma mirrors_role_id: "mirrors T m \<Longrightarrow> mget (roles m) i = Some r \<Longrightarrow> role_id r = i"
proof -
  assume m: "mirrors T m" and r: "mget (roles m) i = Some r"
  then obtain r' where "find_by role_id i (t_roles (store m)) = Some r'" "role_public r = role_public r'"
    unfolding mirrors_def by (metis map_option_eq_Some option.map(2))
  then show "role_id r = i" by (metis find_by_Some role_public_eqD(1))
qed

subsection \<open>Loading establishes the mirror\<close>

lemma find_by_perm:
  assumes "distinct (map key xs)" "set ys = set xs" "distinct (map key ys)"
  shows "find_by key k ys = find_by key k xs"
proof (cases "find_by key k xs")
  case None
  then have "find_by key k ys = None" using assms(2) by (simp only: find_by_None simp_thms)
  with None show ?thesis by simp
next
  case (Some r)
  then have "find_by key k ys = Some r" using assms by (simp only: find_by_Some_iff simp_thms)
  with Some show ?thesis by simp
qed

lemma distinct_sort_key: "distinct (map g (sort_key f xs)) \<longleftrightarrow> distinct (map g xs)"
  by (simp add: distinct_map)

lemma granted_load_assignment:
  "mget2 (load_assignment rs a acc) u i = Some True \<longleftrightarrow>
     mget2 acc u i = Some True \<or> ((u, i) = a \<and> mget rs i \<noteq> None)"
  by (cases a) (auto simp: load_assignment_def)

lemma granted_load:
  "mget2 (fold (load_assignment rs) as acc) u i = Some True \<longleftrightarrow>
     mget2 acc u i = Some True \<or> ((u, i) \<in> set as \<and> mget rs i \<noteq> None)"
proof (induction as arbitrary: acc)
  case (Cons a as)
  show ?case by (auto simp: Cons.IH granted_load_assignment)
qed simp

lemma wf_map2_load_assignments: "wf_map2 acc \<Longrightarrow> wf_map2 (fold (load_assignment rs) as acc)"
  by (induction as arbitrary: acc) (auto simp: load_assignment_def)

lemma sanction_load:
  "distinct (map sanction_key ss) \<Longrightarrow>
   mget2 (fold load_sanction ss acc) u k =
     (case find_by sanction_key (u, k) ss of None \<Rightarrow> mget2 acc u k | Some s \<Rightarrow> Some s)"
proof (induction ss arbitrary: acc)
  case (Cons s ss)
  then have "find_by sanction_key (sn_client s, sn_kind s) ss = None"
    by (simp add: find_by_None sanction_key_def [of s])
  with Cons show ?case
    by (auto simp: load_sanction_def sanction_key_eq split: option.splits)
qed simp

lemma wf_map2_load_sanctions: "wf_map2 acc \<Longrightarrow> wf_map2 (fold load_sanction ss acc)"
  by (induction ss arbitrary: acc) (auto simp: load_sanction_def)

lemma reload_Inr:
  assumes "reload e m = Inr m'"
  obtains rs as ss where
    "rs = sort_key (\<lambda>r. - role_priority r) (sort_key role_created_at (t_roles (store m)))"
    "as = map (\<lambda>a. (ur_client a, ur_role a)) (t_user_roles (store m))"
    "ss = sort_key (\<lambda>s. - sn_created_at s) (t_sanctions (store m))"
    "m' = m\<lparr>roles := load_map role_id rs,
      assignments := fold (load_assignment (load_map role_id rs)) as [],
      sanctions := fold load_sanction ss []\<rparr>"
  using assms unfolding reload_def db_list_roles_def db_list_assignments_def
    db_list_sanctions_def Let_def by (simp split: if_splits)

lemma mirrors_reload:
  assumes "reload e m = Inr m'" "wf_db (store m)"
  shows "mirrors T m' \<and> store m' = store m"
  using assms(1)
proof (rule reload_Inr)
  fix rs as ss
  assume rs: "rs = sort_key (\<lambda>r. - role_priority r) (sort_key role_created_at (t_roles (store m)))"
    and as: "as = map (\<lambda>a. (ur_client a, ur_role a)) (t_user_roles (store m))"
    and ss: "ss = sort_key (\<lambda>s. - sn_created_at s) (t_sanctions (store m))"
    and m': "m' = m\<lparr>roles := load_map role_id rs,
      assignments := fold (load_assignment (load_map role_id rs)) as [],
      sanctions := fold load_sanction ss []\<rparr>"
  have dr: "distinct (map role_id rs)" and ds: "distinct (map sanction_key ss)"
    using assms(2) by (simp_all add: wf_db_def distinct_sort_key rs ss)
  have roles: "mget (load_map role_id rs) i = find_by role_id i (t_roles (store m))" for i
    unfolding mget_load_map [OF dr]
    using dr assms(2) by (intro find_by_perm) (simp_all add: rs wf_db_def)
  have fk: "mget (load_map role_id rs) i \<noteq> None" if "(u, i) \<in> set as" for u i
  proof -
    have "i \<in> role_id ` set (t_roles (store m))" using that assms(2) by (auto simp: as wf_db_def)
    then show ?thesis unfolding roles find_by_None by simp
  qed
  have "granted m' u i \<longleftrightarrow> db_granted (store m) u i" for u i
    using granted_load [of "load_map role_id rs" as "[]" u i] fk [of u i]
    by (simp add: granted_def db_granted_def m' as [symmetric] del: set_map) blast
  moreover have "sanction_of m' u k = find_by sanction_key (u, k) (t_sanctions (store m))" for u k
  proof -
    have "find_by sanction_key (u, k) ss = find_by sanction_key (u, k) (t_sanctions (store m))"
      using ds assms(2) by (intro find_by_perm) (simp_all add: ss wf_db_def)
    then show ?thesis
      using sanction_load [OF ds, of "[]" u k] by (simp add: sanction_of_def m' split: option.splits)
  qed
  ultimately show ?thesis
    using assms(2) roles
    by (simp add: mirrors_def m' wf_load_map wf_map2_load_assignments wf_map2_load_sanctions)
qed

subsection \<open>What each statement changes\<close>

lemma db_create_role_Inr:
  assumes "db_create_role e r d = Inr d'"
  shows "find_by role_id i (t_roles d') =
      (if i = role_id r then Some (r\<lparr>role_created_at := unix (clock e)\<rparr>) else find_by role_id i (t_roles d))"
    "t_user_roles d' = t_user_roles d" "t_sanctions d' = t_sanctions d"
    "find_by role_id (role_id r) (t_roles d) = None"
proof -
  have n: "find_by role_id (role_id r) (t_roles d) = None"
    and d': "d' = d\<lparr>t_roles := t_roles d @ [r\<lparr>role_created_at := unix (clock e)\<rparr>]\<rparr>"
    using assms by (auto simp: db_create_role_def find_by_None split: if_splits)
  then show "find_by role_id i (t_roles d') =
      (if i = role_id r then Some (r\<lparr>role_created_at := unix (clock e)\<rparr>) else find_by role_id i (t_roles d))"
    by (auto simp: find_by_append split: option.split)
  show "t_user_roles d' = t_user_roles d" "t_sanctions d' = t_sanctions d" by (simp_all add: d')
qed (use assms in \<open>auto simp: db_create_role_def find_by_None split: if_splits\<close>)

lemma db_update_role_Inr:
  assumes "db_update_role e r d = Inr d'"
  shows "find_by role_id i (t_roles d') =
      (if i = role_id r then map_option (\<lambda>x. r\<lparr>role_created_at := role_created_at x\<rparr>)
         (find_by role_id i (t_roles d)) else find_by role_id i (t_roles d))"
    "t_user_roles d' = t_user_roles d" "t_sanctions d' = t_sanctions d"
    "role_id r \<in> role_id ` set (t_roles d)"
proof -
  let ?f = "\<lambda>x. r\<lparr>role_created_at := role_created_at x\<rparr>"
  have d': "d' = d\<lparr>t_roles := map (\<lambda>x. if role_id x = role_id r then ?f x else x) (t_roles d)\<rparr>"
    and ex: "role_id r \<in> role_id ` set (t_roles d)"
    using assms by (auto simp: db_update_role_def split: if_splits)
  show "find_by role_id i (t_roles d') =
      (if i = role_id r then map_option ?f (find_by role_id i (t_roles d)) else find_by role_id i (t_roles d))"
    using find_by_update [of role_id "role_id r" ?f i "t_roles d"] by (simp add: d')
  show "t_user_roles d' = t_user_roles d" "t_sanctions d' = t_sanctions d" by (simp_all add: d')
  show "role_id r \<in> role_id ` set (t_roles d)" by (rule ex)
qed

lemma db_delete_role_Inr:
  assumes "db_delete_role e i d = Inr d'"
  shows "find_by role_id j (t_roles d') = (if j = i then None else find_by role_id j (t_roles d))"
    "db_granted d' u j \<longleftrightarrow> db_granted d u j \<and> j \<noteq> i" "t_sanctions d' = t_sanctions d"
  using assms by (auto simp: db_delete_role_def db_granted_def find_by_delete split: if_splits)

lemma db_grant_role_Inr:
  assumes "db_grant_role e u i b d = Inr d'"
  shows "db_granted d' v j \<longleftrightarrow> db_granted d v j \<or> (v = u \<and> j = i)"
    "t_roles d' = t_roles d" "t_sanctions d' = t_sanctions d"
  using assms by (auto simp: db_grant_role_def db_granted_def split: if_splits)

lemma db_revoke_role_Inr:
  assumes "db_revoke_role e u i d = Inr d'"
  shows "db_granted d' v j \<longleftrightarrow> db_granted d v j \<and> \<not> (v = u \<and> j = i)"
    "t_roles d' = t_roles d" "t_sanctions d' = t_sanctions d"
  using assms by (auto simp: db_revoke_role_def db_granted_def split: if_splits)

lemma db_put_sanction_Inr:
  assumes "db_put_sanction e s d = Inr d'"
  shows "map_option sanction_public (find_by sanction_key (u, k) (t_sanctions d')) =
      (if u = sn_client s \<and> k = sn_kind s then Some (sanction_public s)
       else map_option sanction_public (find_by sanction_key (u, k) (t_sanctions d)))"
    "t_roles d' = t_roles d" "t_user_roles d' = t_user_roles d"
proof -
  show "t_roles d' = t_roles d" "t_user_roles d' = t_user_roles d"
    using assms by (auto simp: db_put_sanction_def split: if_splits)
  let ?f = "\<lambda>x. x\<lparr>sn_reason := sn_reason s, sn_username := sn_username s,
    sn_created_by := sn_created_by s, sn_created_at := unix (clock e), sn_expires_at := sn_expires_at s\<rparr>"
  let ?old = "find_by sanction_key (sanction_key s) (t_sanctions d)"
  show "map_option sanction_public (find_by sanction_key (u, k) (t_sanctions d')) =
      (if u = sn_client s \<and> k = sn_kind s then Some (sanction_public s)
       else map_option sanction_public (find_by sanction_key (u, k) (t_sanctions d)))"
  proof (cases ?old)
    case None
    then have "t_sanctions d' = t_sanctions d @ [s\<lparr>sn_created_at := unix (clock e)\<rparr>]"
      using assms by (auto simp: db_put_sanction_def find_by_None split: if_splits)
    with None show ?thesis
      by (auto simp: find_by_append sanction_key_def [of s] sanction_key_eq sanction_public_def
          split: option.splits)
  next
    case (Some x)
    then have x: "x \<in> set (t_sanctions d)" "sanction_key x = sanction_key s"
      using find_by_Some by fastforce+
    then have "sanction_key s \<in> set (map sanction_key (t_sanctions d))"
      by (metis imageI list.set_map)
    then have d': "t_sanctions d' =
        map (\<lambda>x. if sanction_key x = sanction_key s then ?f x else x) (t_sanctions d)"
      using assms by (auto simp: db_put_sanction_def simp del: set_map split: if_splits)
    have pub: "sanction_public (?f x) = sanction_public s"
      using x(2) by (simp add: sanction_public_def sanction_key_def)
    have "find_by sanction_key (u, k) (t_sanctions d') =
        (if (u, k) = sanction_key s then Some (?f x) else find_by sanction_key (u, k) (t_sanctions d))"
      using Some find_by_update [of sanction_key "sanction_key s" ?f "(u, k)" "t_sanctions d"]
      unfolding d' by (simp add: sanction_key_def [of "_\<lparr>sn_reason := _\<rparr>"] sanction_key_def)
    then show ?thesis using pub by (simp add: sanction_key_def [of s])
  qed
qed

lemma db_delete_sanction_Inr:
  assumes "db_delete_sanction e u k d = Inr (d', b)"
  shows "find_by sanction_key x (t_sanctions d') =
      (if x = (u, k) then None else find_by sanction_key x (t_sanctions d))"
    "t_roles d' = t_roles d" "t_user_roles d' = t_user_roles d"
    "b \<longleftrightarrow> find_by sanction_key (u, k) (t_sanctions d) \<noteq> None"
  using assms by (auto simp: db_delete_sanction_def find_by_delete find_by_None split: if_splits)

subsection \<open>Every operation keeps the mirror\<close>

lemma mirrors_create_role:
  "mirrors T m \<Longrightarrow> mirrors T (fst (create_role e sp m))"
  unfolding create_role_def Let_def
  by (auto simp: mirrors_def granted_def db_granted_def sanction_of_def db_create_role_Inr
      role_public_def wf_db_create_role split: option.split sum.split store_error.split)

lemma mirrors_update_role:
  assumes m: "mirrors T m" shows "mirrors T (fst (update_role e i sp m))"
proof (cases "mget (roles m) i")
  case (Some r0)
  have id0: "role_id r0 = i" by (rule mirrors_role_id [OF m Some])
  have upd: "mirrors T (m\<lparr>store := d, roles := mput i r (roles m)\<rparr>)"
    if up: "db_update_role e r (store m) = Inr d" and idr: "role_id r = i" for r d
  proof -
    note u = db_update_role_Inr [OF up]
    obtain x where "find_by role_id i (t_roles (store m)) = Some x"
      using u(4) idr by (metis find_by_None not_None_eq)
    then show ?thesis
      using m u idr wf_db_update_role [OF up]
      by (simp add: mirrors_def granted_def db_granted_def sanction_of_def role_public_def)
  qed
  have id_spec: "role_id (apply_spec sp (r0\<lparr>role_name := n\<rparr>)) = i" for n
    by (simp add: apply_spec_def id0)
  show ?thesis
    using m upd id_spec
    by (auto simp: update_role_def Some Let_def split: sum.split store_error.split)
qed (simp add: update_role_def m)

lemma granted_delete:
  "mget2 (map (\<lambda>(u, g). (u, mdel i g)) mm) u j = (if j = i then None else mget2 mm u j)"
  by (induction mm) (auto simp: mget2_def)

lemma wf_map2_delete: "wf_map2 mm \<Longrightarrow> wf_map2 (map (\<lambda>(u, g). (u, mdel i g)) mm)"
  by (force simp: wf_map2_def)

lemma mirrors_delete_role:
  "mirrors T m \<Longrightarrow> mirrors T (fst (delete_role e i m))"
  unfolding delete_role_def
  by (auto simp: mirrors_def granted_def sanction_of_def db_delete_role_Inr granted_delete
      wf_map2_delete wf_db_delete_role split: sum.split store_error.split)

lemma mirrors_grant: "mirrors T m \<Longrightarrow> mirrors T (fst (grant e a u i m))"
  unfolding grant_def
  by (auto simp: mirrors_def granted_def sanction_of_def db_grant_role_Inr wf_db_grant_role
      split: option.split sum.split)

lemma mirrors_revoke: "mirrors T m \<Longrightarrow> mirrors T (fst (revoke e a u i m))"
  unfolding revoke_def
  by (auto simp: mirrors_def granted_def sanction_of_def db_revoke_role_Inr wf_db_revoke_role
      split: sum.split)

lemma mirrors_apply_sanction: "mirrors T m \<Longrightarrow> mirrors T (fst (apply_sanction e k a u n r t m))"
  unfolding apply_sanction_def Let_def
  by (auto simp: mirrors_def granted_def db_granted_def sanction_of_def live_public_def
      db_put_sanction_Inr wf_db_put_sanction split: sum.split)

lemma mirrors_lift: "mirrors T m \<Longrightarrow> mirrors T (fst (lift e k u m))"
  unfolding lift_def
  by (auto simp: mirrors_def granted_def db_granted_def sanction_of_def db_delete_sanction_Inr
      wf_db_delete_sanction split: sum.split)

lemma mirrors_log: "mirrors T m \<Longrightarrow> mirrors T (log_mod e entry m)"
  unfolding log_mod_def
  by (auto simp: mirrors_def granted_def db_granted_def sanction_of_def
      db_append_mod_log_def wf_db_def split: sum.split if_splits)

subsection \<open>Reachable states\<close>

text \<open>The operations that change the state, in any order and with any outside whose clock has
  not passed \<open>T\<close>.\<close>

inductive access_step :: "int \<Rightarrow> access \<Rightarrow> access \<Rightarrow> bool" for T where
  step_create: "access_step T m (fst (create_role e sp m))"
| step_update: "access_step T m (fst (update_role e i sp m))"
| step_delete: "access_step T m (fst (delete_role e i m))"
| step_grant: "access_step T m (fst (grant e a u i m))"
| step_revoke: "access_step T m (fst (revoke e a u i m))"
| step_sanction: "access_step T m (fst (apply_sanction e k a u n r t m))"
| step_lift: "access_step T m (fst (lift e k u m))"
| step_log: "access_step T m (log_mod e entry m)"
| step_Reload: "clock e \<le> T \<Longrightarrow> access_step T m (fst (Reload e m))"

inductive access_reachable :: "int \<Rightarrow> access \<Rightarrow> bool" for T where
  access_new: "wf_db d \<Longrightarrow> New e d = (d', Inr m) \<Longrightarrow> access_reachable T m"
| access_more: "access_reachable T m \<Longrightarrow> access_step T m m' \<Longrightarrow> access_reachable T m'"

lemma wf_seed: "wf_db d \<Longrightarrow> seed e d = (d', r) \<Longrightarrow> wf_db d'"
  by (auto simp: seed_def dest: wf_db_create_role split: sum.splits if_splits)

lemma mirrors_New: "wf_db d \<Longrightarrow> New e d = (d', Inr m) \<Longrightarrow> mirrors T m"
  unfolding New_def
  by (auto dest!: mirrors_reload [where T = T] dest: wf_seed wf_db_purge_sanctions
      split: prod.splits option.splits sum.splits)

lemma live_public_purge:
  assumes "db_purge_sanctions e d = Inr (d', n)" "clock e \<le> T" "wf_db d"
  shows "live_public T (find_by sanction_key x (t_sanctions d'))
      = live_public T (find_by sanction_key x (t_sanctions d))"
    "t_roles d' = t_roles d" "t_user_roles d' = t_user_roles d"
proof -
  have d': "d' = d\<lparr>t_sanctions := filter (\<lambda>s. \<not> (sn_expires_at s > 0 \<and> sn_expires_at s \<le> unix (clock e)))
      (t_sanctions d)\<rparr>"
    using assms(1) by (auto simp: db_purge_sanctions_def Let_def split: if_splits)
  have "unix (clock e) \<le> unix T" using assms(2) by (simp add: unix_def zdiv_mono1)
  moreover have "distinct (map sanction_key (t_sanctions d))" using assms(3) by (simp add: wf_db_def)
  ultimately show "live_public T (find_by sanction_key x (t_sanctions d'))
      = live_public T (find_by sanction_key x (t_sanctions d))"
    by (auto simp: d' find_by_filter live_public_def in_force_def sanction_public_def split: option.split)
  show "t_roles d' = t_roles d" "t_user_roles d' = t_user_roles d" by (simp_all add: d')
qed

lemma mirrors_Reload: "mirrors T m \<Longrightarrow> clock e \<le> T \<Longrightarrow> mirrors T (fst (Reload e m))"
proof (cases "db_purge_sanctions e (store m)")
  case (Inr dn)
  obtain d n where p: "db_purge_sanctions e (store m) = Inr (d, n)" using Inr by (cases dn) simp
  assume m: "mirrors T m" and T: "clock e \<le> T"
  then have wf: "wf_db (store m)" by (simp add: mirrors_def)
  have purged: "mirrors T (m\<lparr>store := d\<rparr>)"
    using m live_public_purge [OF p T wf] wf_db_purge_sanctions [OF p wf]
    by (simp add: mirrors_def granted_def db_granted_def sanction_of_def)
  show ?thesis
    using purged mirrors_reload [where T = T and e = e and m = "m\<lparr>store := d\<rparr>"] wf_db_purge_sanctions [OF p wf]
    by (auto simp: Reload_def p split: sum.split)
qed (simp add: Reload_def)

lemma access_step_mirrors: "access_step T m m' \<Longrightarrow> mirrors T m \<Longrightarrow> mirrors T m'"
  by (induction rule: access_step.induct)
     (auto intro: mirrors_create_role mirrors_update_role mirrors_delete_role mirrors_grant
       mirrors_revoke mirrors_apply_sanction mirrors_lift mirrors_log mirrors_Reload)

lemma access_reachable_mirrors: "access_reachable T m \<Longrightarrow> mirrors T m"
  by (induction rule: access_reachable.induct) (auto intro: mirrors_New access_step_mirrors)

section \<open>Decisions from memory are the database's\<close>

definition db_roles_of :: "db \<Rightarrow> uuid \<Rightarrow> role list" where
  "db_roles_of d u = filter (\<lambda>r. role_is_default r \<or> db_granted d u (role_id r)) (t_roles d)"

definition db_permissions :: "db \<Rightarrow> uuid \<Rightarrow> perm" where
  "db_permissions d u = foldl (\<lambda>mask r. mask OR role_permissions r) 0 (db_roles_of d u)"

definition db_priority :: "db \<Rightarrow> uuid \<Rightarrow> int" where
  "db_priority d u = Max (insert 0 (role_priority ` set (db_roles_of d u)))"

definition db_sanctioned :: "int \<Rightarrow> db \<Rightarrow> uuid \<Rightarrow> string \<Rightarrow> bool" where
  "db_sanctioned t d u k \<longleftrightarrow> (\<exists>s \<in> set (t_sanctions d). sanction_key s = (u, k) \<and> in_force t s)"

lemma foldl_max_Max: "foldl (\<lambda>p r. max p (f r)) (a :: int) rs = Max (insert a (f ` set rs))"
proof (induction rs arbitrary: a)
  case (Cons r rs)
  have "Max (insert (max a (f r)) (f ` set rs)) = Max (insert a (insert (f r) (f ` set rs)))"
    by (cases "rs = []") (simp_all add: Max_insert max.assoc)
  then show ?case by (simp add: Cons.IH del: Max_insert)
qed simp

lemma priority_Max: "priority m u = Max (insert 0 (role_priority ` set (roles_of m u)))"
proof -
  have "(\<lambda>p r. if role_priority r > p then role_priority r else p) = (\<lambda>p r. max p (role_priority r))"
    by (auto simp: fun_eq_iff max_def)
  then show ?thesis
    unfolding priority_def foldl_max_Max [of role_priority, symmetric] by (rule arg_cong)
qed

lemma set_roles_of:
  "wf_map (roles m) \<Longrightarrow> r \<in> set (roles_of m u) \<longleftrightarrow>
     (\<exists>i. mget (roles m) i = Some r \<and> (role_is_default r \<or> granted m u i))"
proof -
  assume wf: "wf_map (roles m)"
  have "r \<in> set (roles_of m u) \<longleftrightarrow> (\<exists>i. (i, r) \<in> set (roles m) \<and> (role_is_default r \<or> granted m u i))"
    unfolding roles_of_def set_map set_filter by (simp add: image_iff Bex_def)
  then show ?thesis by (simp add: set_wf_map [OF wf])
qed

lemma bit_permissions: "bit (permissions m u) n \<longleftrightarrow> (\<exists>r \<in> set (roles_of m u). bit (role_permissions r) n)"
  by (simp add: permissions_def bit_fold_or)

lemma mirrors_roles_of:
  assumes m: "mirrors T m"
  shows "role_public ` set (roles_of m u) = role_public ` set (db_roles_of (store m) u)"
proof -
  have wf: "wf_map (roles m)" "distinct (map role_id (t_roles (store m)))"
    and view: "\<And>i. map_option role_public (mget (roles m) i)
      = map_option role_public (find_by role_id i (t_roles (store m)))"
    and gr: "\<And>u i. granted m u i \<longleftrightarrow> db_granted (store m) u i"
    using m by (auto simp: mirrors_def wf_db_def)
  have db_iff: "r \<in> set (db_roles_of (store m) u) \<longleftrightarrow> find_by role_id (role_id r) (t_roles (store m)) = Some r
      \<and> (role_is_default r \<or> db_granted (store m) u (role_id r))" for r
    using wf(2) by (auto simp: db_roles_of_def find_by_Some_iff)
  show ?thesis
  proof (intro set_eqI iffI; elim imageE)
    fix p r
    assume p: "p = role_public r" and "r \<in> set (roles_of m u)"
    then obtain i where i: "mget (roles m) i = Some r" "role_is_default r \<or> granted m u i"
      using set_roles_of [OF wf(1)] by blast
    then obtain r' where r': "find_by role_id i (t_roles (store m)) = Some r'" "role_public r' = role_public r"
      using view [of i] by (cases "find_by role_id i (t_roles (store m))") auto
    then have "role_id r' = i" using find_by_Some by fast
    then have "r' \<in> set (db_roles_of (store m) u)"
      using r' i(2) gr role_public_eqD(4) [OF r'(2)] by (simp add: db_iff)
    with p r'(2) show "p \<in> role_public ` set (db_roles_of (store m) u)" by (metis imageI)
  next
    fix p r
    assume p: "p = role_public r" and r: "r \<in> set (db_roles_of (store m) u)"
    then obtain r' where r': "mget (roles m) (role_id r) = Some r'" "role_public r' = role_public r"
      using view [of "role_id r"] by (cases "mget (roles m) (role_id r)") (auto simp: db_iff)
    then have "r' \<in> set (roles_of m u)"
      using r gr role_public_eqD(4) [OF r'(2)] by (auto simp: db_iff set_roles_of [OF wf(1)])
    with p r'(2) show "p \<in> role_public ` set (roles_of m u)" by (metis imageI)
  qed
qed

lemma image_public:
  assumes "role_public ` A = role_public ` B" and "\<And>r r'. role_public r = role_public r' \<Longrightarrow> f r = f r'"
  shows "f ` A = f ` B"
proof -
  have f: "f (role_public r) = f r" for r
    by (rule assms(2)) (simp add: role_public_def)
  have "f ` A = f ` role_public ` A" for A by (simp add: image_image f)
  then show ?thesis using assms(1) by metis
qed

lemma mirrors_permissions: "mirrors T m \<Longrightarrow> permissions m u = db_permissions (store m) u"
proof (rule bit_eqI)
  fix n assume "mirrors T m"
  then have eq: "role_permissions ` set (roles_of m u) = role_permissions ` set (db_roles_of (store m) u)"
    by (rule image_public [where f = role_permissions, OF mirrors_roles_of role_public_eqD(2)])
  have "bit (permissions m u) n \<longleftrightarrow> (\<exists>p \<in> role_permissions ` set (roles_of m u). bit p n)"
    by (simp add: bit_permissions)
  also have "\<dots> \<longleftrightarrow> bit (db_permissions (store m) u) n"
    unfolding eq db_permissions_def bit_fold_or by simp
  finally show "bit (permissions m u) n \<longleftrightarrow> bit (db_permissions (store m) u) n" .
qed

lemma mirrors_priority: "mirrors T m \<Longrightarrow> priority m u = db_priority (store m) u"
  unfolding priority_Max db_priority_def
  using image_public [where f = role_priority, OF mirrors_roles_of role_public_eqD(3)] by simp

lemma mirrors_active_sanction:
  assumes m: "mirrors T m" and t: "T \<le> t"
  shows "active_sanction t m u k \<noteq> None \<longleftrightarrow> db_sanctioned t (store m) u k"
proof -
  have mono: "in_force t s \<Longrightarrow> in_force T s" for s
    using zdiv_mono1 [OF t, of 1000000000] by (auto simp: in_force_def unix_def)
  have "distinct (map sanction_key (t_sanctions (store m)))" using m by (simp add: mirrors_def wf_db_def)
  then have db: "db_sanctioned t (store m) u k \<longleftrightarrow>
      (\<exists>s. find_by sanction_key (u, k) (t_sanctions (store m)) = Some s \<and> in_force t s)"
    by (auto simp: db_sanctioned_def find_by_Some_iff)
  have live: "live_public T (sanction_of m u k)
      = live_public T (find_by sanction_key (u, k) (t_sanctions (store m)))"
    using m by (simp add: mirrors_def)
  have at: "(\<exists>s. row = Some s \<and> in_force t s) \<longleftrightarrow> (\<exists>s. live_public T row = Some s \<and> in_force t s)" for row
    using mono by (cases row) (auto simp: live_public_def in_force_def sanction_public_def)
  have "active_sanction t m u k \<noteq> None \<longleftrightarrow> (\<exists>s. sanction_of m u k = Some s \<and> in_force t s)"
    by (auto simp: active_sanction_def active_def in_force_def Let_def split: option.split)
  also have "\<dots> \<longleftrightarrow> db_sanctioned t (store m) u k"
    using live at [of "sanction_of m u k"] at [of "find_by sanction_key (u, k) (t_sanctions (store m))"]
    unfolding db by simp
  finally show ?thesis .
qed

text \<open>C3. Everything is mirrored in memory: after any sequence of role, assignment and sanction
  operations, reloads and failing database calls, the permissions and the rank the server
  computes from memory, and the bans and mutes it enforces, are those the database tables give.\<close>

theorem memory_decides_as_database:
  assumes "access_reachable T m" and "T \<le> t"
  shows "permissions m u = db_permissions (store m) u
    \<and> priority m u = db_priority (store m) u
    \<and> (is_banned t m u \<longleftrightarrow> db_sanctioned t (store m) u sanction_ban)
    \<and> (is_muted t m u \<longleftrightarrow> db_sanctioned t (store m) u sanction_mute)"
  using access_reachable_mirrors [OF assms(1)] mirrors_active_sanction [OF _ assms(2)]
  by (simp add: mirrors_permissions mirrors_priority is_banned_def ban_of_def is_muted_def mute_of_def)

text \<open>The state of a server that has just seeded an empty database, at time zero.\<close>

definition fresh_access :: access where
  "fresh_access = \<lparr>store = empty_db\<lparr>t_roles := [default_role, admin_role]\<rparr>,
     roles = [(role_id_admin, admin_role), (role_id_default, default_role)],
     assignments = [], sanctions = []\<rparr>"

lemma New_empty:
  "New (quiet_env u 0) empty_db = (empty_db\<lparr>t_roles := [default_role, admin_role]\<rparr>, Inr fresh_access)"
  by (simp add: New_def seed_def db_count_roles_def db_create_role_def db_purge_sanctions_def
      reload_def db_list_roles_def db_list_assignments_def db_list_sanctions_def quiet_env_def
      empty_db_def default_role_def admin_role_def role_id_default_def role_id_admin_def nocase_def
      lower_ascii_def runes_def unix_def load_map_def fresh_access_def Let_def)

lemma fresh_access_reachable: "access_reachable T fresh_access"
  by (rule access_new [OF wf_empty_db New_empty])

theorem memory_decides_as_database_witness:
  "permissions fresh_access ''u'' = db_permissions (store fresh_access) ''u''"
  using memory_decides_as_database [OF fresh_access_reachable order_refl] by blast

section \<open>Rank\<close>

lemmas access_eval = apply_sanction_def grant_def revoke_def lift_def outranks_or_equal_def
  priority_def roles_of_def granted_def fresh_access_def default_role_def admin_role_def
  db_put_sanction_def db_grant_role_def db_revoke_role_def db_delete_sanction_def sanction_key_def
  empty_db_def quiet_env_def role_id_default_def role_id_admin_def unix_def mget2_def mput2_def
  sanction_ban_def sanction_mute_def Let_def

text \<open>A server with one administrator, appointed from the panel.\<close>

definition admin_access :: access where
  "admin_access = fst (grant (quiet_env ''g'' 0) [] ''a'' role_id_admin fresh_access)"

lemma admin_access_reachable: "access_reachable T admin_access"
  unfolding admin_access_def by (rule access_more [OF fresh_access_reachable step_grant])

lemma admin_bans: "is_ok (snd (apply_sanction (quiet_env ''s'' 5000000000) sanction_ban
    ''a'' ''b'' [] [] 60000000000 admin_access))"
  unfolding admin_access_def by (simp add: access_eval)

text \<open>C7. The priority rule: a ban or a mute by a user lands only on somebody else of strictly
  lower rank, so of two users at most one can sanction the other.\<close>

theorem sanction_needs_higher_rank:
  assumes "apply_sanction e kind actor target name reason dur m = (m', Inr s)"
  shows "target \<noteq> actor \<and> (actor = [] \<or> priority m target < priority m actor)"
  using assms
  by (auto simp: apply_sanction_def outranks_or_equal_def Let_def split: if_splits sum.splits)

theorem sanction_needs_higher_rank_witness:
  "''b'' \<noteq> ''a'' \<and> priority admin_access ''b'' < priority admin_access ''a''"
  using ok_split [OF admin_bans] sanction_needs_higher_rank by force

text \<open>A sanction that was applied is in force from then until it expires, for ever when the
  duration is zero, on its target and its kind and on nobody and nothing else.\<close>

theorem sanction_takes_effect:
  assumes "apply_sanction e k actor target name reason dur m = (m', Inr s)"
    and "0 < unix (clock e)"
  shows "(active_sanction t m' target k \<noteq> None \<longleftrightarrow> dur \<le> 0 \<or> unix t < unix (clock e + dur))
    \<and> (\<forall>u k'. (u, k') = (target, k) \<or> active_sanction t m' u k' = active_sanction t m u k')"
proof -
  have pos: "0 < unix (clock e + dur)" if "0 < dur"
    using that assms(2) zdiv_mono1 [of "clock e" "clock e + dur" 1000000000] by (simp add: unix_def)
  show ?thesis
    using assms(1) pos
    by (auto simp: apply_sanction_def Let_def active_sanction_def sanction_of_def active_def
        split: if_splits sum.splits)
qed

theorem sanction_takes_effect_witness:
  "\<exists>m'. active_sanction 6000000000 m' ''b'' sanction_ban \<noteq> None
     \<and> active_sanction 65000000000 m' ''b'' sanction_ban = None"
proof -
  obtain m' s where h: "apply_sanction (quiet_env ''s'' 5000000000) sanction_ban
      ''a'' ''b'' [] [] 60000000000 admin_access = (m', Inr s)"
    using ok_split [OF admin_bans] by blast
  have c: "0 < unix (clock (quiet_env ''s'' 5000000000))" by (simp add: unix_def quiet_env_def)
  show ?thesis
    using sanction_takes_effect [OF h c, of 6000000000] sanction_takes_effect [OF h c, of 65000000000]
    by (auto simp: quiet_env_def unix_def)
qed

text \<open>Lifting a sanction ends it at once, leaves every other sanction as it was, and says
  whether the database had one.\<close>

theorem lift_ends_sanction:
  assumes "lift e k u m = (m', Inr removed)"
  shows "active_sanction t m' u k = None
    \<and> (\<forall>u' k'. (u', k') = (u, k) \<or> active_sanction t m' u' k' = active_sanction t m u' k')
    \<and> (removed \<longleftrightarrow> find_by sanction_key (u, k) (t_sanctions (store m)) \<noteq> None)"
  using assms
  by (auto simp: lift_def active_sanction_def sanction_of_def
      dest: db_delete_sanction_Inr(4) split: sum.splits if_splits)

theorem lift_ends_sanction_witness:
  "\<exists>m'. active_sanction 6000000000 m' ''b'' sanction_ban = None"
proof -
  have "is_ok (snd (lift (quiet_env ''l'' 0) sanction_ban ''b'' admin_access))"
    unfolding admin_access_def by (simp add: access_eval)
  then obtain m' r where "lift (quiet_env ''l'' 0) sanction_ban ''b'' admin_access = (m', Inr r)"
    using ok_split by blast
  from lift_ends_sanction [OF this] show ?thesis by blast
qed

text \<open>A user who hands out a role never overtakes anybody with it: their own rank stays, a
  target who ranked below them still does, and nobody else's roles change.\<close>

theorem grant_keeps_rank:
  assumes "access_reachable T m" and "grant e actor target i m = (m', None)" and "actor \<noteq> []"
  shows "priority m' actor = priority m actor
    \<and> (priority m actor \<le> priority m target \<or> priority m' target < priority m' actor)
    \<and> (\<forall>u. u = target \<or> roles_of m' u = roles_of m u)"
proof -
  obtain r d where r: "mget (roles m) i = Some r" "role_priority r < priority m actor"
    and m': "m' = m\<lparr>store := d, assignments := mput2 target i True (assignments m)\<rparr>"
    using assms(2,3) by (auto simp: grant_def split: option.splits sum.splits if_splits)
  have g: "granted m' u j \<longleftrightarrow> granted m u j \<or> (u = target \<and> j = i)" for u j
    by (auto simp: m' granted_def)
  have same: "roles m' = roles m" by (simp add: m')
  have wf: "wf_map (roles m)" "wf_map (roles m')"
    using access_reachable_mirrors [OF assms(1)] by (simp_all add: mirrors_def same)
  have others: "roles_of m' u = roles_of m u" if "u \<noteq> target" for u
    using that by (simp add: roles_of_def same g)
  have "set (roles_of m' target) = insert r (set (roles_of m target))"
    using r(1) by (auto simp: set_roles_of wf same g)
  then have t: "priority m' target = max (priority m target) (role_priority r)"
    by (simp add: priority_Max Max_insert max.commute max.left_commute insert_commute [of 0])
  have a: "priority m' actor = priority m actor"
    using t r(2) others by (cases "actor = target") (auto simp: priority_def)
  show ?thesis using a t r(2) others by auto
qed

theorem grant_keeps_rank_witness:
  "\<exists>m'. priority m' ''a'' = priority admin_access ''a'' \<and> priority m' ''b'' < priority m' ''a''"
proof -
  have "snd (grant (quiet_env ''g'' 0) ''a'' ''b'' role_id_default admin_access) = None"
    unfolding admin_access_def by (simp add: access_eval)
  then obtain m' where h: "grant (quiet_env ''g'' 0) ''a'' ''b'' role_id_default admin_access = (m', None)"
    by (metis prod.collapse)
  have "\<not> priority admin_access ''a'' \<le> priority admin_access ''b''"
    unfolding admin_access_def by (simp add: access_eval)
  then show ?thesis using grant_keeps_rank [OF admin_access_reachable h] by auto
qed

section \<open>The built-in roles\<close>

definition builtin_db :: "db \<Rightarrow> bool" where
  "builtin_db d \<longleftrightarrow> (\<exists>r. find_by role_id role_id_default (t_roles d) = Some r \<and> role_is_default r)
     \<and> find_by role_id role_id_admin (t_roles d) \<noteq> None"

lemma builtin_seed: "seed e d = (d', None) \<Longrightarrow> t_roles d = [] \<or> builtin_db d \<Longrightarrow> builtin_db d'"
  by (auto simp: seed_def db_count_roles_def builtin_db_def db_create_role_Inr default_role_def
      admin_role_def role_id_default_def role_id_admin_def split: sum.splits if_splits)

lemma builtin_New: "New e d = (d', Inr m) \<Longrightarrow> t_roles d = [] \<or> builtin_db d \<Longrightarrow> wf_db d
    \<Longrightarrow> builtin_db (store m)"
proof -
  assume n: "New e d = (d', Inr m)" and b: "t_roles d = [] \<or> builtin_db d" and wf: "wf_db d"
  then obtain d1 d2 k where s: "seed e d = (d1, None)" and p: "db_purge_sanctions e d1 = Inr (d2, k)"
    and r: "reload e \<lparr>store = d2, roles = [], assignments = [], sanctions = []\<rparr> = Inr m"
    by (auto simp: New_def split: prod.splits option.splits sum.splits)
  have "store m = d2"
    using r wf_db_purge_sanctions [OF p wf_seed [OF wf s]] mirrors_reload [OF r] by simp
  moreover have "t_roles d2 = t_roles d1"
    using p by (auto simp: db_purge_sanctions_def Let_def split: if_splits)
  ultimately show "builtin_db (store m)" using builtin_seed [OF s b] by (simp add: builtin_db_def)
qed

lemma builtin_create:
  assumes "db_create_role e r d = Inr d'" and "builtin_db d"
  shows "builtin_db d'"
proof -
  note c = db_create_role_Inr [OF assms(1)]
  have "role_id r \<noteq> role_id_default" "role_id r \<noteq> role_id_admin"
    using c(4) assms(2) by (auto simp: builtin_db_def)
  then show ?thesis using assms(2) by (simp add: builtin_db_def c(1))
qed

lemma builtin_update:
  assumes "db_update_role e r d = Inr d'" and "builtin_db d"
    and "\<And>x. find_by role_id (role_id r) (t_roles d) = Some x \<Longrightarrow> role_is_default r = role_is_default x"
  shows "builtin_db d'"
  using assms(2) assms(3) by (auto simp: builtin_db_def db_update_role_Inr(1) [OF assms(1)])

lemma builtin_step:
  assumes "access_step T m m'" "mirrors T m" "builtin_db (store m)"
  shows "builtin_db (store m')"
  using assms
proof (induction rule: access_step.induct)
  case (step_create m e sp)
  then show ?case
    by (auto simp: create_role_def Let_def dest: builtin_create
        split: option.split sum.split store_error.split)
next
  case (step_update m e i sp)
  have same: "role_is_default r = role_is_default x"
    if "mget (roles m) i = Some r" "find_by role_id i (t_roles (store m)) = Some x" for r x
    using that mirrors_role_view [OF step_update(1), of i] by (auto dest: role_public_eqD(4))
  have upd: "builtin_db d"
    if "mget (roles m) i = Some r0" "db_update_role e (apply_spec sp (r0\<lparr>role_name := n\<rparr>)) (store m) = Inr d"
    for r0 n d
    using builtin_update [OF that(2) step_update(2)] same [OF that(1)]
      mirrors_role_id [OF step_update(1) that(1)] by (simp add: apply_spec_def)
  show ?case
    using step_update(2) upd upd [of r0 "role_name r0" for r0]
    by (auto simp: update_role_def Let_def split: option.split sum.split store_error.split)
next
  case (step_delete m e i)
  then show ?case
    by (auto simp: delete_role_def builtin_db_def db_delete_role_Inr
        split: sum.splits store_error.splits)
next
  case (step_grant m e a u i)
  then show ?case
    by (auto simp: grant_def builtin_db_def db_grant_role_Inr split: option.splits sum.splits)
next
  case (step_revoke m e a u i)
  then show ?case by (auto simp: revoke_def builtin_db_def db_revoke_role_Inr split: sum.splits)
next
  case (step_sanction m e k a u n r t)
  then show ?case
    by (auto simp: apply_sanction_def Let_def builtin_db_def db_put_sanction_Inr split: sum.splits)
next
  case (step_lift m e k u)
  then show ?case
    by (auto simp: lift_def builtin_db_def db_delete_sanction_Inr split: sum.splits)
next
  case (step_log m e entry)
  then show ?case
    by (auto simp: log_mod_def builtin_db_def db_append_mod_log_def split: sum.splits if_splits)
next
  case (step_Reload e m)
  have wf: "wf_db (store m)" using step_Reload by (simp add: mirrors_def)
  show ?case
  proof (cases "db_purge_sanctions e (store m)")
    case (Inr dn)
    obtain d n where p: "db_purge_sanctions e (store m) = Inr (d, n)" using Inr by (cases dn) simp
    then have "builtin_db d"
      using step_Reload live_public_purge(2) [OF p _ wf] by (simp add: builtin_db_def)
    then show ?thesis
      using mirrors_reload [where e = e and m = "m\<lparr>store := d\<rparr>"] wf_db_purge_sanctions [OF p wf]
      by (auto simp: Reload_def p split: sum.split)
  qed (simp add: Reload_def step_Reload)
qed

text \<open>On a server that started from an empty database, or from one with the two built-in
  roles, both are there for ever: every user always holds the default role, and the admin role
  can always be granted.\<close>

theorem builtin_roles_stay:
  assumes "wf_db d" and "t_roles d = [] \<or> builtin_db d" and "New e d = (d', Inr m0)"
    and "(access_step T)\<^sup>*\<^sup>* m0 m"
  shows "has_role m u role_id_default \<and> role_exists m role_id_admin \<and> builtin_db (store m)"
proof -
  from assms(4) have "mirrors T m \<and> builtin_db (store m)"
  proof (induction rule: rtranclp_induct)
    case base
    show ?case using assms(1-3) mirrors_New builtin_New by blast
  next
    case (step y z)
    then show ?case using access_step_mirrors builtin_step by blast
  qed
  then have m: "mirrors T m" and b: "builtin_db (store m)" by simp_all
  have admin: "mget (roles m) role_id_admin \<noteq> None"
    using b mirrors_role_view [OF m, of role_id_admin] by (auto simp: builtin_db_def)
  obtain x where x: "find_by role_id role_id_default (t_roles (store m)) = Some x" "role_is_default x"
    using b by (auto simp: builtin_db_def)
  then obtain r where r: "mget (roles m) role_id_default = Some r" "role_public r = role_public x"
    using mirrors_role_view [OF m, of role_id_default]
    by (cases "mget (roles m) role_id_default") auto
  show ?thesis using b admin r(1) x(2) role_public_eqD(4) [OF r(2)]
    by (simp add: has_role_def role_exists_def)
qed

theorem builtin_roles_stay_witness:
  "has_role (fst (delete_role (quiet_env ''d'' 0) role_id_default fresh_access)) ''u'' role_id_default"
proof -
  have "t_roles empty_db = [] \<or> builtin_db empty_db" by (simp add: empty_db_def)
  moreover have "(access_step 0)\<^sup>*\<^sup>* fresh_access
      (fst (delete_role (quiet_env ''d'' 0) role_id_default fresh_access))"
    by (rule r_into_rtranclp) (rule step_delete)
  ultimately show ?thesis using builtin_roles_stay [OF wf_empty_db _ New_empty] by blast
qed

text \<open>Deleting a role takes it from everybody who was granted it and leaves all other roles
  and grants alone; the two built-in roles are refused, and a refusal changes nothing.\<close>

theorem delete_role_removes_everywhere:
  assumes "delete_role e i m = (m', res)"
  shows "if res = None
     then i \<noteq> role_id_default \<and> i \<noteq> role_id_admin \<and> \<not> role_exists m' i
       \<and> (\<forall>u. \<not> granted m' u i)
       \<and> (\<forall>u j. j = i \<or> (granted m' u j \<longleftrightarrow> granted m u j) \<and> mget (roles m') j = mget (roles m) j)
     else m' = m"
  using assms
  by (auto simp: delete_role_def role_exists_def granted_def granted_delete
      split: if_splits sum.splits store_error.splits)

theorem delete_role_removes_everywhere_witness:
  "fst (delete_role (quiet_env ''d'' 0) role_id_admin admin_access) = admin_access"
proof -
  have h: "delete_role (quiet_env ''d'' 0) role_id_admin admin_access = (admin_access, Some ErrRoleProtected)"
    by (simp add: delete_role_def)
  show ?thesis using delete_role_removes_everywhere [OF h] h by simp
qed

section \<open>The role order\<close>

lemma text_le_refl [simp]: "text_le s s"
  by (induction s) auto

lemma text_le_total: "text_le s t \<or> text_le t s"
  by (induction s t rule: text_le.induct) auto

lemma text_le_trans: "text_le s t \<Longrightarrow> text_le t u \<Longrightarrow> text_le s u"
proof (induction s t arbitrary: u rule: text_le.induct)
  case (3 a s b t)
  then show ?case by (cases u) auto
qed auto

lemma stays_before_total: "\<not> stays_before lower a b \<Longrightarrow> stays_before lower b a"
  using text_le_total by (auto simp: stays_before_def)

lemma stays_before_trans: "stays_before lower a b \<Longrightarrow> stays_before lower b c \<Longrightarrow> stays_before lower a c"
  using text_le_trans by (auto simp: stays_before_def)

lemma set_sink [simp]: "set (sink lower b prefix) = insert b (set prefix)"
  by (induction prefix) auto

lemma mset_sink [simp]: "mset (sink lower b prefix) = add_mset b (mset prefix)"
  by (induction prefix) auto

lemma sorted_sink:
  "sorted_wrt (\<lambda>x y. stays_before lower y x) prefix
     \<Longrightarrow> sorted_wrt (\<lambda>x y. stays_before lower y x) (sink lower b prefix)"
  by (induction prefix) (auto dest: stays_before_trans stays_before_total)

text \<open>The role list the clients are sent is a rearrangement of the roles in which no role
  stands before one of higher rank, and roles of one rank are in the order of their names.\<close>

theorem sort_roles_sorts:
  "mset (sort_roles lower rs) = mset rs \<and> sorted_wrt (stays_before lower) (sort_roles lower rs)"
proof -
  let ?f = "foldl (\<lambda>prefix b. sink lower b prefix)"
  have "mset (?f p rs) = mset p + mset rs" for p
    by (induction rs arbitrary: p) auto
  moreover have "sorted_wrt (\<lambda>x y. stays_before lower y x) p
      \<Longrightarrow> sorted_wrt (\<lambda>x y. stays_before lower y x) (?f p rs)" for p
    by (induction rs arbitrary: p) (auto simp: sorted_sink)
  ultimately show ?thesis by (simp add: sort_roles_def sorted_wrt_rev)
qed

section \<open>The interfaces the manager implements\<close>

interpretation access_policy: policy "can m" "permissions m" for m
  by unfold_locales (simp add: can_def)

text \<open>Asking \<open>Can\<close> for each known permission, as the gateway does to describe a user, rebuilds
  exactly the known part of the mask the roles give.\<close>

theorem permissions_of_user:
  "permissions_via (can m) u = permissions m u AND everything"
  by (rule access_policy.permissions_via_eq)

text \<open>A ban that was just applied is reported with no creation time until the next reload: the
  record kept in memory never gets the time the database row and the reply carry.\<close>

theorem ban_created_at_lost:
  assumes "apply_sanction e sanction_ban actor target name reason dur m = (m', Inr s)"
    and "dur \<le> 0"
  shows "sa_created_at s = unix (clock e) \<and> map_option sa_created_at (ban_of t m' target) = Some 0"
  using assms
  by (auto simp: apply_sanction_def Let_def ban_of_def active_sanction_def sanction_of_def active_def
      split: if_splits sum.splits)

theorem ban_created_at_lost_witness:
  "\<exists>m'. map_option sa_created_at (ban_of 6000000000 m' ''b'') = Some 0"
proof -
  have "is_ok (snd (apply_sanction (quiet_env ''s'' 5000000000) sanction_ban
      ''a'' ''b'' [] [] 0 admin_access))"
    unfolding admin_access_def by (simp add: access_eval)
  then obtain m' s where h: "apply_sanction (quiet_env ''s'' 5000000000) sanction_ban
      ''a'' ''b'' [] [] 0 admin_access = (m', Inr s)"
    using ok_split by blast
  show ?thesis using ban_created_at_lost [OF h, of 6000000000] by auto
qed

end
