(* ===== verification/Protocol.thy ===== *)
theory Protocol
  imports Storage Complex_Main
begin

text \<open>
  The wire messages, \<open>internal/protocol/protocol.go\<close>: one record per payload struct the modelled
  code builds or reads, one constructor of \<open>payload\<close> per kind of payload, and the frame that
  \<open>Encode\<close> makes of a type, a request id and a payload. JSON itself is not modelled: a frame is the
  value that is encoded, and a request arrives as its decoded payload. Encoding such a value cannot
  fail. The sentence shown with an error code is dropped. A coordinate is a \<open>float64\<close>: a finite
  number, an infinity or not a number.
\<close>

section \<open>Users and rooms\<close>

record hello =
  hl_protocol :: int
  hl_uuid :: ustring
  hl_username :: ustring
  hl_password :: ustring

record media_state =
  md_mic :: bool
  md_cam :: bool
  md_screen :: bool
  md_deaf :: bool

definition no_media :: media_state where
  "no_media = \<lparr>md_mic = False, md_cam = False, md_screen = False, md_deaf = False\<rparr>"

record user =
  u_uuid :: uuid
  u_username :: ustring
  u_joined_at :: int
  u_room_id :: string
  u_roles :: "string list"
  u_muted :: bool
  u_avatar :: string
  u_media :: media_state

record room_view =
  rv_id :: string
  rv_name :: ustring
  rv_has_password :: bool
  rv_capacity :: int
  rv_position :: int
  rv_member_count :: nat
  rv_members :: "user list"
  rv_required_role :: string

record room_join =
  rj_room_id :: string
  rj_password :: ustring

record room_create =
  rc_name :: ustring
  rc_password :: ustring
  rc_capacity :: int
  rc_required_role :: string

record room_update =
  ru_room_id :: string
  ru_name :: "ustring option"
  ru_password :: "ustring option"
  ru_capacity :: "int option"
  ru_position :: "int option"
  ru_required_role :: "string option"

section \<open>Roles and moderation\<close>

record role_view =
  ro_id :: string
  ro_name :: ustring
  ro_permissions :: "string list"
  ro_priority :: int
  ro_color :: ustring
  ro_tag_style :: ustring
  ro_is_default :: bool

record wire_role_spec =
  ws_role_id :: string
  ws_name :: "ustring option"
  ws_permissions :: "string list option"
  ws_priority :: "int option"
  ws_color :: "ustring option"
  ws_tag_style :: "ustring option"

record admin_target =
  at_uuid :: uuid
  at_reason :: ustring
  at_duration :: int

record wire_sanction =
  wn_uuid :: uuid
  wn_username :: ustring
  wn_kind :: string
  wn_reason :: ustring
  wn_created_by :: uuid
  wn_created_at :: int
  wn_expires_at :: int

record moderation =
  mo_uuid :: uuid
  mo_username :: ustring
  mo_by_uuid :: uuid
  mo_by_username :: ustring
  mo_reason :: ustring
  mo_expires_at :: int

section \<open>Chat and files\<close>

datatype msg_kind = MessageText | MessageSticker | MessageFile

datatype attachment_kind = AttachmentImage | AttachmentFile

record attachment =
  ac_id :: string
  ac_name :: ustring
  ac_size :: int
  ac_mime :: string
  ac_kind :: attachment_kind
  ac_width :: int
  ac_height :: int
  ac_has_thumb :: bool

record message =
  ms_id :: string
  ms_seq :: nat
  ms_room_id :: string
  ms_author :: user
  ms_kind :: msg_kind
  ms_text :: ustring
  ms_sticker :: ustring
  ms_attachment :: "attachment option"
  ms_created_at :: int
  ms_edited_at :: int

record chat_send =
  cs_text :: ustring
  cs_sticker :: ustring

record chat_history_request =
  hr_before :: nat
  hr_limit :: int

record chat_edit =
  ce_message :: string
  ce_text :: ustring

section \<open>The paint board\<close>

datatype float64 = Fin rat | PosInf | NegInf | NaN

type_synonym point = "float64 \<times> float64"

record stroke =
  st_id :: string
  st_seq :: nat
  st_room_id :: string
  st_author :: uuid
  st_tool :: string
  st_color :: ustring
  st_width :: float64
  st_points :: "point list"
  st_done :: bool

record paint_begin =
  pb_tool :: string
  pb_color :: ustring
  pb_width :: float64
  pb_points :: "point list"

section \<open>Payloads\<close>

record user_limits =
  ul_username_min :: int
  ul_username_max :: int
  ul_max_users :: int
  ul_message_max :: int
  ul_history_limit :: int
  ul_stickers :: bool
  ul_media :: bool
  ul_paint :: bool

record bot_track =
  bt_index :: int
  bt_title :: ustring

record bot_view =
  bv_id :: string
  bv_name :: ustring
  bv_kind :: string
  bv_color :: ustring
  bv_room :: string
  bv_state :: string
  bv_track :: "bot_track option"
  bv_track_count :: nat
  bv_playlist_id :: string
  bv_playlist_name :: ustring
  bv_loop :: bool
  bv_shuffle :: bool
  bv_enabled :: bool

record bot_control =
  bc_bot :: string
  bc_action :: string
  bc_track :: int

record bot_spec =
  bs_bot :: string
  bs_name :: "ustring option"
  bs_color :: "ustring option"
  bs_loop :: "bool option"
  bs_shuffle :: "bool option"
  bs_enabled :: "bool option"

record bot_playlist =
  bp_id :: string
  bp_bot :: string
  bp_name :: ustring
  bp_track_count :: nat

record bot_playlist_spec =
  ps_bot :: string
  ps_playlist :: string
  ps_name :: ustring

record bot_track_upload =
  bu_bot :: string
  bu_playlist :: string
  bu_name :: ustring
  bu_size :: int

record bot_track_ref =
  bf_bot :: string
  bf_playlist :: string
  bf_index :: int

record welcome_msg =
  wl_session_id :: string
  wl_server_uuid :: string
  wl_server_name :: ustring
  wl_message :: ustring
  wl_heartbeat :: int
  wl_you :: user
  wl_users :: "user list"
  wl_rooms :: "room_view list"
  wl_roles :: "role_view list"
  wl_bots :: "bot_view list"
  wl_limits :: user_limits
  wl_permissions :: "string list"

record media_token =
  mt_url :: ustring
  mt_token :: string
  mt_room :: string
  mt_identity :: uuid
  mt_expires_at :: int
  mt_can_speak :: bool
  mt_can_publish_video :: bool
  mt_can_share_screen :: bool

datatype payload =
    PNone
  | PError string
  | PUser user
  | PUserLeft uuid ustring string
  | PRoom room_view
  | PRoomList "room_view list"
  | PRoomJoined room_view string
  | PRoomLeft string string
  | PRoomRef string
  | PRoomMember string user string
  | PMessage message
  | PChatHistory string "message list" bool
  | PChatDeleted string string uuid
  | PChatTyping string uuid ustring bool
  | PModeration moderation
  | PUserRoles uuid "string list" "string list"
  | PRole role_view
  | PRoles "role_view list"
  | PRoleRef string
  | PRoleAssignment uuid string
  | PAdminTarget uuid
  | PAdminMove uuid string
  | PSanctions "wire_sanction list"
  | PUploadTicket string string int int
  | PDownload string string int bool
  | PMediaState uuid string media_state
  | PMediaToken media_token
  | PStroke stroke
  | PPaintAppend string "point list"
  | PPaintEnd string
  | PPaintUndo string string
  | PPaintCleared string string uuid
  | PPaintState string "stroke list" int
  | PWelcome welcome_msg
  | PBot bot_view
  | PBots "bot_view list"
  | PBotQueue string "bot_track list"
  | PBotRef string
  | PBotPlaylists string "bot_playlist list" string
  | PBotPlaylist bot_playlist
  | PBotPlaylistGone bot_playlist_spec
  | PTrackTicket string int int
  | PAvatarTicket string int int
  | PNotice ustring ustring

record frame =
  f_type :: string
  f_id :: string
  f_data :: payload

definition encode :: "string \<Rightarrow> string \<Rightarrow> payload \<Rightarrow> frame" where
  "encode ty i p = \<lparr>f_type = ty, f_id = i, f_data = p\<rparr>"

end
