(* ===== verification/Contents.thy ===== *)
theory Contents
  imports Protocol
begin

text \<open>
  What happens inside a room and goes when it empties: the message history
  (\<open>internal/chat/buffer.go\<close>), the whiteboard (\<open>internal/paint/board.go\<close>) and the file store
  (\<open>internal/files/files.go\<close>). Each implements the interface \<open>rooms.Ephemeral\<close>, here the locale
  \<open>ephemeral\<close>, interpreted on the three of them.

  A stroke is reached through the list of strokes and through the index, both pointers to the one
  object; here the list holds the ids and the index the objects, so a pointer is the id. The files
  on disk are a map from path to size.
\<close>

section \<open>The interface\<close>

locale ephemeral =
  fixes clear :: "'c \<Rightarrow> 'c" and holds :: "'c \<Rightarrow> 'x set"
  assumes holds_clear: "holds (clear c) = {}"
begin

lemma clear_entry: "mget (madjust k clear m) k = Some c \<Longrightarrow> holds c = {}"
  by (auto simp: holds_clear)

lemma clear_entry_other: "k' \<noteq> k \<Longrightarrow> mget (madjust k clear m) k' = mget m k'"
  by simp

end

section \<open>The message history\<close>

record buffer =
  bf_room :: string
  bf_messages :: "message list"
  bf_seq :: nat

definition new_buffer :: "string \<Rightarrow> buffer" where
  "new_buffer i = \<lparr>bf_room = i, bf_messages = [], bf_seq = 0\<rparr>"

definition buf_append :: "string \<Rightarrow> int \<Rightarrow> message \<Rightarrow> buffer \<Rightarrow> buffer \<times> message" where
  "buf_append new_id limit msg b =
     (let sq = bf_seq b + 1;
          msg = msg\<lparr>ms_seq := sq, ms_id := new_id, ms_room_id := bf_room b\<rparr>;
          all = bf_messages b @ [msg];
          kept = (if limit > 0 \<and> int (length all) > limit then drop (length all - nat limit) all else all) in
      (b\<lparr>bf_messages := kept, bf_seq := sq\<rparr>, msg))"

text \<open>The errors of the chat, the buffer's own and those of the manager whose checks it runs.\<close>

datatype chat_error =
    MessageNotFound | ChatNotInRoom | ChatRateLimited | ChatForbidden | StickersDisabled
  | ChatMuted | ChatNotAllowed | InvalidText text_error | InvalidSticker | NotEditable

text \<open>The first message with the id; \<open>fn\<close> is the caller's check and change.\<close>

fun edit_first ::
  "string \<Rightarrow> (message \<Rightarrow> chat_error + message) \<Rightarrow> message list \<Rightarrow> chat_error + message list \<times> message" where
  "edit_first i fn [] = Inl MessageNotFound"
| "edit_first i fn (m # ms) =
     (if ms_id m \<noteq> i
      then (case edit_first i fn ms of Inl err \<Rightarrow> Inl err | Inr (ms', c) \<Rightarrow> Inr (m # ms', c))
      else (case fn m of Inl err \<Rightarrow> Inl err | Inr c \<Rightarrow> Inr (c # ms, c)))"

definition buf_edit ::
  "string \<Rightarrow> (message \<Rightarrow> chat_error + message) \<Rightarrow> buffer \<Rightarrow> buffer \<times> (chat_error + message)" where
  "buf_edit i fn b =
     (case edit_first i fn (bf_messages b) of
        Inl err \<Rightarrow> (b, Inl err)
      | Inr (ms, c) \<Rightarrow> (b\<lparr>bf_messages := ms\<rparr>, Inr c))"

fun delete_first ::
  "string \<Rightarrow> (message \<Rightarrow> chat_error option) \<Rightarrow> message list \<Rightarrow> chat_error + message list \<times> message" where
  "delete_first i fn [] = Inl MessageNotFound"
| "delete_first i fn (m # ms) =
     (if ms_id m \<noteq> i
      then (case delete_first i fn ms of Inl err \<Rightarrow> Inl err | Inr (ms', c) \<Rightarrow> Inr (m # ms', c))
      else (case fn m of Some err \<Rightarrow> Inl err | None \<Rightarrow> Inr (ms, m)))"

definition buf_delete ::
  "string \<Rightarrow> (message \<Rightarrow> chat_error option) \<Rightarrow> buffer \<Rightarrow> buffer \<times> (chat_error + message)" where
  "buf_delete i fn b =
     (case delete_first i fn (bf_messages b) of
        Inl err \<Rightarrow> (b, Inl err)
      | Inr (ms, m) \<Rightarrow> (b\<lparr>bf_messages := ms\<rparr>, Inr m))"

text \<open>How many messages at the front come before a sequence number.\<close>

fun count_before :: "nat \<Rightarrow> message list \<Rightarrow> nat" where
  "count_before s [] = 0"
| "count_before s (m # ms) = (if ms_seq m \<ge> s then 0 else Suc (count_before s ms))"

text \<open>The callers pass a positive limit.\<close>

definition buf_history :: "nat \<Rightarrow> int \<Rightarrow> buffer \<Rightarrow> message list \<times> bool" where
  "buf_history before limit b =
     (let e = (if before > 0 then count_before before (bf_messages b) else length (bf_messages b));
          st = (if int e - limit < 0 then 0 else nat (int e - limit)) in
      (take (e - st) (drop st (bf_messages b)), st > 0))"

definition buf_clear :: "buffer \<Rightarrow> buffer" where
  "buf_clear b = b\<lparr>bf_messages := []\<rparr>"

section \<open>The whiteboard\<close>

record board =
  bd_room :: string
  bd_strokes :: "string list"
  bd_index :: "(string, stroke) gomap"
  bd_seq :: nat

datatype board_error = StrokeNotFound | BoardFull | NotYours

definition new_board :: "string \<Rightarrow> board" where
  "new_board i = \<lparr>bd_room = i, bd_strokes = [], bd_index = [], bd_seq = 0\<rparr>"

definition max_points_per_stroke :: nat where "max_points_per_stroke = 4000"
definition max_points_per_message :: nat where "max_points_per_message = 512"

definition finite_float :: "float64 \<Rightarrow> bool" where
  "finite_float v = (case v of Fin _ \<Rightarrow> True | _ \<Rightarrow> False)"

definition clamp01 :: "float64 \<Rightarrow> float64" where
  "clamp01 v = (case v of
       Fin x \<Rightarrow> if x < - (1 / 2) then Fin (- (1 / 2)) else if x > 3 / 2 then Fin (3 / 2) else Fin x
     | PosInf \<Rightarrow> Fin (3 / 2)
     | NegInf \<Rightarrow> Fin (- (1 / 2))
     | NaN \<Rightarrow> NaN)"

definition clamp_points :: "nat \<Rightarrow> point list \<Rightarrow> point list" where
  "clamp_points max_n ps =
     map (\<lambda>(x, y). (clamp01 x, clamp01 y))
       (filter (\<lambda>(x, y). finite_float x \<and> finite_float y) (take max_n ps))"

definition board_begin ::
  "string \<Rightarrow> int \<Rightarrow> uuid \<Rightarrow> paint_begin \<Rightarrow> board \<Rightarrow> board \<times> (board_error + stroke)" where
  "board_begin new_id limit author req b =
     (if limit > 0 \<and> int (length (bd_strokes b)) \<ge> limit then (b, Inl BoardFull)
      else
        (let sq = bd_seq b + 1;
             s = \<lparr>st_id = new_id, st_seq = sq, st_room_id = bd_room b, st_author = author,
                  st_tool = pb_tool req, st_color = pb_color req, st_width = pb_width req,
                  st_points = clamp_points max_points_per_message (pb_points req), st_done = False\<rparr> in
         (b\<lparr>bd_strokes := bd_strokes b @ [new_id], bd_index := mput new_id s (bd_index b), bd_seq := sq\<rparr>,
          Inr s)))"

definition board_append ::
  "uuid \<Rightarrow> string \<Rightarrow> point list \<Rightarrow> board \<Rightarrow> board \<times> (board_error + point list)" where
  "board_append author i ps b =
     (let ps = clamp_points max_points_per_message ps in
      case mget (bd_index b) i of
        None \<Rightarrow> (b, Inl StrokeNotFound)
      | Some s \<Rightarrow>
          if st_author s \<noteq> author then (b, Inl NotYours)
          else if st_done s then (b, Inl StrokeNotFound)
          else if length (st_points s) \<ge> max_points_per_stroke then (b, Inr [])
          else
            (let ps = take (max_points_per_stroke - length (st_points s)) ps in
             (b\<lparr>bd_index := mput i (s\<lparr>st_points := st_points s @ ps\<rparr>) (bd_index b)\<rparr>, Inr ps)))"

definition board_end :: "uuid \<Rightarrow> string \<Rightarrow> board \<Rightarrow> board \<times> board_error option" where
  "board_end author i b =
     (case mget (bd_index b) i of
        None \<Rightarrow> (b, Some StrokeNotFound)
      | Some s \<Rightarrow>
          if st_author s \<noteq> author then (b, Some NotYours)
          else (b\<lparr>bd_index := mput i (s\<lparr>st_done := True\<rparr>) (bd_index b)\<rparr>, None))"

definition drawn_by :: "board \<Rightarrow> uuid \<Rightarrow> string \<Rightarrow> bool" where
  "drawn_by b author i = (case mget (bd_index b) i of Some s \<Rightarrow> st_author s = author | None \<Rightarrow> False)"

text \<open>The loop runs from the last stroke to the first.\<close>

definition board_undo :: "uuid \<Rightarrow> board \<Rightarrow> board \<times> (board_error + string)" where
  "board_undo author b =
     (case find (drawn_by b author) (rev (bd_strokes b)) of
        None \<Rightarrow> (b, Inl StrokeNotFound)
      | Some i \<Rightarrow>
          (b\<lparr>bd_strokes := rev (remove1 i (rev (bd_strokes b))), bd_index := mdel i (bd_index b)\<rparr>, Inr i))"

definition board_clear_all :: "board \<Rightarrow> board" where
  "board_clear_all b = b\<lparr>bd_strokes := [], bd_index := []\<rparr>"

definition board_clear_author :: "uuid \<Rightarrow> board \<Rightarrow> board" where
  "board_clear_author author b =
     b\<lparr>bd_strokes := filter (\<lambda>i. \<not> drawn_by b author i) (bd_strokes b),
       bd_index := fold mdel (filter (drawn_by b author) (bd_strokes b)) (bd_index b)\<rparr>"

definition board_snapshot :: "board \<Rightarrow> stroke list" where
  "board_snapshot b = map (\<lambda>i. the (mget (bd_index b) i)) (bd_strokes b)"

section \<open>The file store\<close>

record stored_file =
  fl_id :: string
  fl_room :: string
  fl_name :: ustring
  fl_size :: int
  fl_mime :: string
  fl_kind :: attachment_kind
  fl_width :: int
  fl_height :: int
  fl_has_thumb :: bool
  fl_owner :: uuid
  fl_created_at :: int
  fl_path :: ustring
  fl_thumb_path :: ustring

definition attachment_of :: "stored_file \<Rightarrow> attachment" where
  "attachment_of f = \<lparr>ac_id = fl_id f, ac_name = fl_name f, ac_size = fl_size f, ac_mime = fl_mime f,
     ac_kind = fl_kind f, ac_width = fl_width f, ac_height = fl_height f, ac_has_thumb = fl_has_thumb f\<rparr>"

record file_store =
  fs_room :: string
  fs_dir :: ustring
  fs_files :: "(string, stored_file) gomap"
  fs_total :: int

type_synonym disk = "(ustring, int) gomap"

definition new_file_store :: "string \<Rightarrow> ustring \<Rightarrow> file_store" where
  "new_file_store i dir = \<lparr>fs_room = i, fs_dir = dir, fs_files = [], fs_total = 0\<rparr>"

definition store_add :: "stored_file \<Rightarrow> file_store \<Rightarrow> file_store" where
  "store_add f s = s\<lparr>fs_files := mput (fl_id f) f (fs_files s), fs_total := fs_total s + fl_size f\<rparr>"

definition store_get :: "file_store \<Rightarrow> string \<Rightarrow> stored_file option" where
  "store_get s i = mget (fs_files s) i"

definition remove_quietly :: "ustring \<Rightarrow> disk \<Rightarrow> disk" where
  "remove_quietly path d = (if path = [] then d else mdel path d)"

definition store_reset :: "file_store \<Rightarrow> file_store" where
  "store_reset s = s\<lparr>fs_files := [], fs_total := 0\<rparr>"

definition remove_files :: "stored_file list \<Rightarrow> disk \<Rightarrow> disk" where
  "remove_files fs d =
     fold (\<lambda>f d. if fl_has_thumb f then remove_quietly (fl_thumb_path f) (remove_quietly (fl_path f) d)
                 else remove_quietly (fl_path f) d) fs d"

definition store_clear :: "file_store \<times> disk \<Rightarrow> file_store \<times> disk" where
  "store_clear sd = (store_reset (fst sd), remove_files (vals (fs_files (fst sd))) (snd sd))"

section \<open>Clearing\<close>

interpretation chat_history: ephemeral buf_clear "\<lambda>b. set (bf_messages b)"
  by unfold_locales (simp add: buf_clear_def)

interpretation whiteboard: ephemeral board_clear_all "\<lambda>b. set (bd_strokes b) \<union> set (keys (bd_index b))"
  by unfold_locales (simp add: board_clear_all_def)

interpretation shared_files: ephemeral store_reset "\<lambda>s. set (fs_files s)"
  by unfold_locales (simp add: store_reset_def)

end
