(* ===== verification/Contents_Correct.thy ===== *)
theory Contents_Correct
  imports Contents
begin

text \<open>
  What holds of the three stores: a history is in order and within its limit and its pages tile it;
  a board never holds a point that is not on the canvas, its list and its index agree, and only the
  author's strokes go on an undo or a clear; a file store's total is the size of its files, and
  clearing it leaves none of them on disk.
\<close>

section \<open>The message history\<close>

definition buffer_ok :: "buffer \<Rightarrow> bool" where
  "buffer_ok b \<longleftrightarrow> sorted_wrt (<) (map ms_seq (bf_messages b))
     \<and> (\<forall>m \<in> set (bf_messages b). 0 < ms_seq m \<and> ms_seq m \<le> bf_seq b \<and> ms_room_id m = bf_room b)"

lemma edit_first_shape:
  "edit_first i fn ms = Inr (ms', c) \<Longrightarrow>
     \<exists>pre m post. ms = pre @ m # post \<and> ms' = pre @ c # post \<and> ms_id m = i \<and> fn m = Inr c
       \<and> (\<forall>x \<in> set pre. ms_id x \<noteq> i)"
proof (induction ms arbitrary: ms')
  case (Cons m ms)
  show ?case
  proof (cases "ms_id m = i")
    case True
    with Cons.prems have "fn m = Inr c" "ms' = c # ms" by (auto split: sum.splits)
    with True have "m # ms = [] @ m # ms \<and> ms' = [] @ c # ms \<and> ms_id m = i \<and> fn m = Inr c" by simp
    then show ?thesis by fastforce
  next
    case False
    with Cons.prems obtain ms1 where "edit_first i fn ms = Inr (ms1, c)" "ms' = m # ms1"
      by (auto split: sum.splits)
    with Cons.IH obtain pre x post where "ms = pre @ x # post \<and> ms1 = pre @ c # post \<and> ms_id x = i
      \<and> fn x = Inr c \<and> (\<forall>x \<in> set pre. ms_id x \<noteq> i)" by blast
    with False \<open>ms' = m # ms1\<close> have "m # ms = (m # pre) @ x # post \<and> ms' = (m # pre) @ c # post
      \<and> ms_id x = i \<and> fn x = Inr c \<and> (\<forall>x \<in> set (m # pre). ms_id x \<noteq> i)" by simp
    then show ?thesis by blast
  qed
qed simp

lemma delete_first_shape:
  "delete_first i fn ms = Inr (ms', m) \<Longrightarrow>
     \<exists>pre post. ms = pre @ m # post \<and> ms' = pre @ post \<and> ms_id m = i \<and> fn m = None
       \<and> (\<forall>x \<in> set pre. ms_id x \<noteq> i)"
proof (induction ms arbitrary: ms')
  case (Cons a ms)
  show ?case
  proof (cases "ms_id a = i")
    case True
    with Cons.prems have "fn a = None" "ms' = ms" "m = a" by (auto split: option.splits)
    with True have "a # ms = [] @ m # ms \<and> ms' = [] @ ms \<and> ms_id m = i \<and> fn m = None" by simp
    then show ?thesis by fastforce
  next
    case False
    with Cons.prems obtain ms1 where "delete_first i fn ms = Inr (ms1, m)" "ms' = a # ms1"
      by (auto split: sum.splits)
    with Cons.IH obtain pre post where "ms = pre @ m # post \<and> ms1 = pre @ post \<and> ms_id m = i
      \<and> fn m = None \<and> (\<forall>x \<in> set pre. ms_id x \<noteq> i)" by blast
    with False \<open>ms' = a # ms1\<close> have "a # ms = (a # pre) @ m # post \<and> ms' = (a # pre) @ post
      \<and> ms_id m = i \<and> fn m = None \<and> (\<forall>x \<in> set (a # pre). ms_id x \<noteq> i)" by simp
    then show ?thesis by blast
  qed
qed simp

text \<open>Edits change neither the place of a message nor its sequence number.\<close>

definition keeps_place :: "(message \<Rightarrow> chat_error + message) \<Rightarrow> bool" where
  "keeps_place fn \<longleftrightarrow> (\<forall>m c. fn m = Inr c \<longrightarrow> ms_seq c = ms_seq m \<and> ms_room_id c = ms_room_id m \<and> ms_id c = ms_id m)"

inductive buffer_reachable :: "int \<Rightarrow> buffer \<Rightarrow> bool" for limit where
  new: "buffer_reachable limit (new_buffer i)"
| append: "buffer_reachable limit b \<Longrightarrow> buf_append new_id limit m b = (b', m') \<Longrightarrow> buffer_reachable limit b'"
| edit: "buffer_reachable limit b \<Longrightarrow> keeps_place fn \<Longrightarrow> buf_edit i fn b = (b', res) \<Longrightarrow> buffer_reachable limit b'"
| delete: "buffer_reachable limit b \<Longrightarrow> buf_delete i fn b = (b', res) \<Longrightarrow> buffer_reachable limit b'"
| clear: "buffer_reachable limit b \<Longrightarrow> buffer_reachable limit (buf_clear b)"

lemma buffer_ok_append:
  assumes "buffer_ok b" "buf_append new_id limit m b = (b', m')"
  shows "buffer_ok b'"
proof -
  let ?all = "bf_messages b @ [m']"
  have m': "ms_seq m' = Suc (bf_seq b)" "ms_room_id m' = bf_room b"
    and b': "bf_seq b' = Suc (bf_seq b)" "bf_room b' = bf_room b"
    and "bf_messages b' = (if limit > 0 \<and> int (length ?all) > limit then drop (length ?all - nat limit) ?all else drop 0 ?all)"
    using assms(2) unfolding buf_append_def Let_def by (auto simp del: drop_append)
  then have k: "\<exists>k. bf_messages b' = drop k ?all" by metis
  have "sorted_wrt (<) (map ms_seq ?all)"
    using assms(1) m' by (auto simp: buffer_ok_def sorted_wrt_append less_Suc_eq_le)
  moreover have "0 < ms_seq x \<and> ms_seq x \<le> Suc (bf_seq b) \<and> ms_room_id x = bf_room b" if "x \<in> set ?all" for x
    using that assms(1) m' by (auto simp: buffer_ok_def intro: le_SucI)
  moreover from k obtain k where k: "bf_messages b' = drop k ?all" ..
  moreover have "sorted_wrt (<) (map ms_seq (drop k ?all))"
    unfolding drop_map [symmetric] by (rule sorted_wrt_drop) fact
  moreover have "set (drop k ?all) \<subseteq> set ?all" by (rule set_drop_subset)
  ultimately show ?thesis using b' unfolding buffer_ok_def by (metis subsetD)
qed

lemma buffer_ok_edit: "buffer_ok b \<Longrightarrow> keeps_place fn \<Longrightarrow> buf_edit i fn b = (b', res) \<Longrightarrow> buffer_ok b'"
  by (auto simp: buf_edit_def buffer_ok_def keeps_place_def sorted_wrt_append
      dest!: edit_first_shape split: option.splits sum.splits)

lemma buffer_ok_delete: "buffer_ok b \<Longrightarrow> buf_delete i fn b = (b', res) \<Longrightarrow> buffer_ok b'"
  by (auto simp: buf_delete_def buffer_ok_def sorted_wrt_append
      dest!: delete_first_shape split: option.splits sum.splits)

lemma buffer_reachable_ok: "buffer_reachable limit b \<Longrightarrow> buffer_ok b"
proof (induction rule: buffer_reachable.induct)
  case (new i)
  then show ?case by (simp add: buffer_ok_def new_buffer_def)
next
  case (clear b)
  then show ?case by (simp add: buffer_ok_def buf_clear_def)
qed (blast intro: buffer_ok_append buffer_ok_edit buffer_ok_delete)+

lemma buffer_reachable_length: "buffer_reachable limit b \<Longrightarrow> 0 < limit \<Longrightarrow> int (length (bf_messages b)) \<le> limit"
proof (induction rule: buffer_reachable.induct)
  case (new i)
  then show ?case by (simp add: new_buffer_def)
next
  case (append b new_id m b' m')
  then show ?case by (auto simp: buf_append_def Let_def split: if_splits)
next
  case (edit b fn i b' res)
  then show ?case by (auto simp: buf_edit_def dest!: edit_first_shape split: option.splits sum.splits)
next
  case (delete b i fn b' res)
  then show ?case by (auto simp: buf_delete_def dest!: delete_first_shape split: option.splits sum.splits)
qed (simp add: buf_clear_def)

text \<open>A history of two messages that keeps at most ten, used by the examples.\<close>

definition demo_message :: message where
  "demo_message = \<lparr>ms_id = [], ms_seq = 0, ms_room_id = [],
     ms_author = \<lparr>u_uuid = ''u'', u_username = [97], u_joined_at = 0, u_room_id = ''r'', u_roles = [],
       u_muted = False, u_avatar = [], u_media = no_media\<rparr>,
     ms_kind = MessageText, ms_text = [104], ms_sticker = [], ms_attachment = None,
     ms_created_at = 0, ms_edited_at = 0\<rparr>"

definition demo_buffer :: buffer where
  "demo_buffer = fst (buf_append ''m2'' 10 demo_message
     (fst (buf_append ''m1'' 10 demo_message (new_buffer ''r''))))"

lemma demo_buffer_reachable: "buffer_reachable 10 demo_buffer"
  unfolding demo_buffer_def by (rule buffer_reachable.append [OF buffer_reachable.append [OF buffer_reachable.new]])
    (auto simp: prod_eq_iff)

lemma demo_buffer_messages: "map ms_id (bf_messages demo_buffer) = [''m1'', ''m2'']"
  by (simp add: demo_buffer_def buf_append_def Let_def new_buffer_def)

text \<open>A room's history never holds more messages than its limit, and they stay in the order they
  were sent whatever is appended, edited, deleted and cleared.\<close>

theorem history_bounded_in_order:
  assumes "buffer_reachable limit b" "0 < limit"
  shows "int (length (bf_messages b)) \<le> limit \<and> sorted_wrt (<) (map ms_seq (bf_messages b))"
  using buffer_reachable_length [OF assms] buffer_reachable_ok [OF assms(1)] by (simp add: buffer_ok_def)

theorem history_bounded_in_order_witness:
  "int (length (bf_messages demo_buffer)) \<le> 10 \<and> sorted_wrt (<) (map ms_seq (bf_messages demo_buffer))"
  using history_bounded_in_order [OF demo_buffer_reachable] by simp

lemma count_before_split:
  "sorted_wrt (<) (map ms_seq ms) \<Longrightarrow>
     count_before s ms \<le> length ms
     \<and> (\<forall>m \<in> set (take (count_before s ms) ms). ms_seq m < s)
     \<and> (\<forall>m \<in> set (drop (count_before s ms) ms). ms_seq m \<ge> s)"
  by (induction ms) (auto intro: less_imp_le order.strict_trans1)

text \<open>A page of history is the stretch of messages right before the requested point: nothing is
  skipped and nothing repeated between it and the page after it, it is as long as the limit unless
  the history starts with it, and more is reported exactly when older messages are left.\<close>

theorem history_page:
  assumes "buffer_reachable n b" "0 < limit" "buf_history before limit b = (page, older_left)"
  shows "\<exists>older rest. bf_messages b = older @ page @ rest
     \<and> (before = 0 \<longrightarrow> rest = [])
     \<and> (0 < before \<longrightarrow> (\<forall>m \<in> set (older @ page). ms_seq m < before) \<and> (\<forall>m \<in> set rest. before \<le> ms_seq m))
     \<and> (if older_left then older \<noteq> [] \<and> int (length page) = limit
        else older = [] \<and> int (length page) \<le> limit)"
proof -
  let ?ms = "bf_messages b"
  have so: "sorted_wrt (<) (map ms_seq ?ms)" using buffer_reachable_ok [OF assms(1)] by (simp add: buffer_ok_def)
  define e where "e = (if before > 0 then count_before before ?ms else length ?ms)"
  define st where "st = (if int e - limit < 0 then 0 else nat (int e - limit))"
  have e: "e \<le> length ?ms" "st \<le> e"
    using count_before_split [OF so, of before] assms(2) by (auto simp: e_def st_def)
  have pm: "page = take (e - st) (drop st ?ms)" "older_left \<longleftrightarrow> st > 0"
    using assms(3) unfolding buf_history_def Let_def e_def [symmetric] st_def [symmetric] by auto
  have front: "take st ?ms @ page = take e ?ms"
    using e(2) by (simp add: pm(1) take_add [symmetric])
  have split: "?ms = take st ?ms @ page @ drop e ?ms"
    using front by (metis append_assoc append_take_drop_id)
  have "before = 0 \<longrightarrow> drop e ?ms = []" by (simp add: e_def)
  moreover have "0 < before \<longrightarrow> (\<forall>m \<in> set (take st ?ms @ page). ms_seq m < before) \<and> (\<forall>m \<in> set (drop e ?ms). before \<le> ms_seq m)"
    unfolding front using count_before_split [OF so, of before] by (simp add: e_def)
  moreover have "if older_left then take st ?ms \<noteq> [] \<and> int (length page) = limit
      else take st ?ms = [] \<and> int (length page) \<le> limit"
    using e assms(2) by (auto simp: pm st_def)
  ultimately show ?thesis using split by blast
qed

theorem history_page_witness:
  "\<exists>page. buf_history 0 1 demo_buffer = (page, True) \<and> length page = 1"
proof -
  obtain page left where h: "buf_history 0 1 demo_buffer = (page, left)" by fastforce
  have two: "length (bf_messages demo_buffer) = 2" using demo_buffer_messages by (metis length_map list.size(3,4) One_nat_def Suc_1 add.commute plus_1_eq_Suc)
  from history_page [OF demo_buffer_reachable _ h] obtain older rest where
    o: "bf_messages demo_buffer = older @ page @ rest" "rest = []"
    "if left then older \<noteq> [] \<and> int (length page) = 1 else older = [] \<and> int (length page) \<le> 1" by auto
  then have left using two by (cases left) auto
  with o h show ?thesis by auto
qed

section \<open>The whiteboard\<close>

definition coord_ok :: "float64 \<Rightarrow> bool" where
  "coord_ok v = (case v of Fin x \<Rightarrow> - (1 / 2) \<le> x \<and> x \<le> 3 / 2 | _ \<Rightarrow> False)"

definition on_canvas :: "point \<Rightarrow> bool" where
  "on_canvas p \<longleftrightarrow> coord_ok (fst p) \<and> coord_ok (snd p)"

lemma coord_ok_clamp: "finite_float v \<Longrightarrow> coord_ok (clamp01 v)"
  by (cases v) (simp_all add: coord_ok_def clamp01_def finite_float_def)

lemma clamp_points_canvas: "p \<in> set (clamp_points n ps) \<Longrightarrow> on_canvas p"
  by (auto simp: clamp_points_def on_canvas_def coord_ok_clamp)

lemma length_clamp_points: "length (clamp_points n ps) \<le> n"
proof -
  have "length (filter P (take n ps)) \<le> n" for P
    by (rule order_trans [OF length_filter_le]) simp
  then show ?thesis by (simp add: clamp_points_def)
qed

definition stroke_ok :: "stroke \<Rightarrow> bool" where
  "stroke_ok s \<longleftrightarrow> length (st_points s) \<le> max_points_per_stroke \<and> (\<forall>p \<in> set (st_points s). on_canvas p)"

definition board_ok :: "board \<Rightarrow> bool" where
  "board_ok b \<longleftrightarrow> distinct (bd_strokes b)
     \<and> (\<forall>i. i \<in> set (bd_strokes b) \<longleftrightarrow> mget (bd_index b) i \<noteq> None)
     \<and> (\<forall>i s. mget (bd_index b) i = Some s \<longrightarrow> st_id s = i \<and> stroke_ok s)"

text \<open>The random source yields an id that is not on the board.\<close>

inductive board_reachable :: "int \<Rightarrow> board \<Rightarrow> bool" for limit where
  new: "board_reachable limit (new_board i)"
| begins: "board_reachable limit b \<Longrightarrow> new_id \<notin> set (bd_strokes b)
     \<Longrightarrow> board_begin new_id limit author req b = (b', res) \<Longrightarrow> board_reachable limit b'"
| appends: "board_reachable limit b \<Longrightarrow> board_append author i ps b = (b', stored) \<Longrightarrow> board_reachable limit b'"
| ends: "board_reachable limit b \<Longrightarrow> board_end author i b = (b', err) \<Longrightarrow> board_reachable limit b'"
| undoes: "board_reachable limit b \<Longrightarrow> board_undo author b = (b', undone) \<Longrightarrow> board_reachable limit b'"
| clears_own: "board_reachable limit b \<Longrightarrow> board_reachable limit (board_clear_author author b)"
| clears: "board_reachable limit b \<Longrightarrow> board_reachable limit (board_clear_all b)"

lemma board_ok_begin:
  "board_ok b \<Longrightarrow> new_id \<notin> set (bd_strokes b) \<Longrightarrow> board_begin new_id limit author req b = (b', res) \<Longrightarrow> board_ok b'"
  using clamp_points_canvas length_clamp_points [of 512 "pb_points req"]
  by (auto simp: board_begin_def board_ok_def Let_def stroke_ok_def max_points_per_message_def
      max_points_per_stroke_def split: if_splits)

lemma board_ok_append:
  assumes "board_ok b" "board_append author i ps b = (b', res)"
  shows "board_ok b'"
proof -
  have "on_canvas p" if "p \<in> set (take k (clamp_points n ps))" for k n p
    using that clamp_points_canvas by (blast dest: in_set_takeD)
  with assms show ?thesis
    by (auto simp: board_append_def board_ok_def Let_def stroke_ok_def split: option.splits if_splits)
qed

lemma board_ok_end: "board_ok b \<Longrightarrow> board_end author i b = (b', res) \<Longrightarrow> board_ok b'"
  by (auto simp: board_end_def board_ok_def stroke_ok_def split: option.splits if_splits)

lemma remove1_rev: "distinct xs \<Longrightarrow> rev (remove1 i (rev xs)) = remove1 i xs"
  by (simp add: distinct_remove1_removeAll removeAll_filter_not_eq rev_filter)

lemma find_split: "find P xs = Some x \<Longrightarrow> \<exists>pre post. xs = pre @ x # post \<and> P x \<and> (\<forall>y \<in> set pre. \<not> P y)"
proof (induction xs)
  case (Cons a xs)
  show ?case
  proof (cases "P a")
    case True
    with Cons.prems show ?thesis by (intro exI [of _ "[]"] exI [of _ xs]) auto
  next
    case False
    with Cons obtain pre post where "xs = pre @ x # post \<and> P x \<and> (\<forall>y \<in> set pre. \<not> P y)" by auto
    with False have "a # xs = (a # pre) @ x # post \<and> P x \<and> (\<forall>y \<in> set (a # pre). \<not> P y)" by simp
    then show ?thesis by blast
  qed
qed simp

lemma board_undo_cases:
  assumes "board_ok b" "board_undo author b = (b', res)"
  obtains (none) "res = Inl StrokeNotFound" "b' = b" "\<forall>i \<in> set (bd_strokes b). \<not> drawn_by b author i"
  | (undone) pre i post where "res = Inr i" "bd_strokes b = pre @ i # post" "drawn_by b author i"
      "\<forall>x \<in> set post. \<not> drawn_by b author x" "bd_strokes b' = pre @ post" "bd_index b' = mdel i (bd_index b)"
proof (cases "find (drawn_by b author) (rev (bd_strokes b))")
  case None
  then have "\<forall>i \<in> set (bd_strokes b). \<not> drawn_by b author i" by (auto simp: find_None_iff)
  with None assms(2) show ?thesis by (intro none) (auto simp: board_undo_def)
next
  case (Some i)
  from find_split [OF this] obtain pre post where sp: "rev (bd_strokes b) = pre @ i # post"
    "drawn_by b author i" "\<forall>x \<in> set pre. \<not> drawn_by b author x" by blast
  have "bd_strokes b = rev (pre @ i # post)" using sp(1) by (metis rev_rev_ident)
  then have eq: "bd_strokes b = rev post @ i # rev pre" by simp
  moreover have "distinct (bd_strokes b)" using assms(1) by (simp add: board_ok_def)
  ultimately have "remove1 i (bd_strokes b) = rev post @ rev pre" by (simp add: remove1_append)
  moreover have "bd_strokes b' = remove1 i (bd_strokes b)" "bd_index b' = mdel i (bd_index b)" "res = Inr i"
    using Some assms(2) remove1_rev [OF \<open>distinct (bd_strokes b)\<close>] by (auto simp: board_undo_def)
  ultimately show ?thesis
    using sp eq by (intro undone [of i "rev post" "rev pre"]) auto
qed

lemma board_ok_undo:
  assumes "board_ok b" "board_undo author b = (b', res)"
  shows "board_ok b'"
  using assms
proof (rule board_undo_cases)
  assume "b' = b"
  with assms show ?thesis by simp
next
  fix pre i post
  assume undone: "res = Inr i" "bd_strokes b = pre @ i # post" "bd_strokes b' = pre @ post"
    "bd_index b' = mdel i (bd_index b)"
  with assms(1) have "distinct (pre @ i # post)" "i \<notin> set (pre @ post)" by (auto simp: board_ok_def)
  moreover have "x \<in> set (pre @ i # post) \<longleftrightarrow> mget (bd_index b) x \<noteq> None" for x
    using assms(1) undone(2) by (simp add: board_ok_def)
  ultimately show ?thesis using assms(1) undone
    by (auto simp: board_ok_def)
qed

lemma mget_fold_mdel: "mget (fold mdel is m) i = (if i \<in> set is then None else mget m i)"
  by (induction "is" arbitrary: m) auto

lemma board_clear_author_index:
  assumes "board_ok b"
  shows "mget (bd_index (board_clear_author author b)) i = (if drawn_by b author i then None else mget (bd_index b) i)"
proof -
  have "i \<in> set (bd_strokes b)" if "drawn_by b author i"
    using that assms by (auto simp: board_ok_def drawn_by_def split: option.splits)
  then show ?thesis by (auto simp: board_clear_author_def mget_fold_mdel)
qed

lemma board_ok_clear_author: "board_ok b \<Longrightarrow> board_ok (board_clear_author author b)"
  using board_clear_author_index [of b author]
  by (auto simp: board_ok_def) (auto simp: board_clear_author_def)

lemma board_reachable_ok: "board_reachable limit b \<Longrightarrow> board_ok b"
proof (induction rule: board_reachable.induct)
  case (new i)
  then show ?case by (simp add: board_ok_def new_board_def)
next
  case (clears b)
  then show ?case by (simp add: board_ok_def board_clear_all_def)
qed (blast intro: board_ok_begin board_ok_append board_ok_end board_ok_undo board_ok_clear_author)+

lemma board_reachable_length:
  "board_reachable limit b \<Longrightarrow> 0 < limit \<Longrightarrow> int (length (bd_strokes b)) \<le> limit"
proof (induction rule: board_reachable.induct)
  case (new i)
  then show ?case by (simp add: new_board_def)
next
  case (begins b new_id author req b' res)
  then show ?case by (auto simp: board_begin_def Let_def split: if_splits)
next
  case (appends b author i ps b' stored)
  then show ?case by (auto simp: board_append_def Let_def split: option.splits if_splits)
next
  case (ends b author i b' err)
  then show ?case by (auto simp: board_end_def split: option.splits if_splits)
next
  case (undoes b author b' undone)
  show ?case
    using undoes by (auto elim!: board_undo_cases [OF board_reachable_ok [OF undoes.hyps(1)]])
next
  case (clears_own b author)
  have le: "int (length (filter (\<lambda>i. \<not> drawn_by b author i) (bd_strokes b))) \<le> int (length (bd_strokes b))"
    by (simp only: of_nat_le_iff length_filter_le)
  from order_trans [OF le clears_own.IH [OF clears_own.prems]]
  show ?case by (simp add: board_clear_author_def)
next
  case (clears b)
  then show ?case by (simp add: board_clear_all_def)
qed

text \<open>A board with one stroke by \<open>u\<close>, off the edge of the canvas, used by the examples.\<close>

definition demo_begin :: paint_begin where
  "demo_begin = \<lparr>pb_tool = ''pen'', pb_color = [], pb_width = Fin 1, pb_points = [(Fin 2, Fin 0), (NaN, Fin 0)]\<rparr>"

definition demo_board :: board where
  "demo_board = fst (board_begin ''s1'' 10 ''u'' demo_begin (new_board ''r''))"

lemma demo_board_reachable: "board_reachable 10 demo_board"
  unfolding demo_board_def
  by (rule board_reachable.begins [OF board_reachable.new]) (auto simp: new_board_def prod_eq_iff)

lemma demo_board_index: "mget (bd_index demo_board) ''s1'' = Some \<lparr>st_id = ''s1'', st_seq = 1, st_room_id = ''r'',
    st_author = ''u'', st_tool = ''pen'', st_color = [], st_width = Fin 1, st_points = [(Fin (3 / 2), Fin 0)], st_done = False\<rparr>"
  by (simp add: demo_board_def board_begin_def Let_def new_board_def demo_begin_def clamp_points_def
      max_points_per_message_def finite_float_def clamp01_def)

text \<open>Whatever clients send, a board holds at most its limit of strokes, every stroke at most 4000
  points, every point finite and inside the canvas with its slack; and the list of strokes and the
  index by id hold the same strokes.\<close>

theorem board_invariant:
  assumes "board_reachable limit b" "0 < limit"
  shows "int (length (bd_strokes b)) \<le> limit \<and> distinct (bd_strokes b)
    \<and> (\<forall>i. i \<in> set (bd_strokes b) \<longleftrightarrow> mget (bd_index b) i \<noteq> None)
    \<and> (\<forall>s \<in> set (board_snapshot b). length (st_points s) \<le> 4000 \<and> (\<forall>p \<in> set (st_points s). on_canvas p))"
proof -
  note ok = board_reachable_ok [OF assms(1)]
  have "stroke_ok s" if "s \<in> set (board_snapshot b)" for s
    using that ok by (fastforce simp: board_snapshot_def board_ok_def)
  with ok board_reachable_length [OF assms] show ?thesis
    by (simp add: board_ok_def stroke_ok_def max_points_per_stroke_def)
qed

theorem board_invariant_witness:
  "int (length (bd_strokes demo_board)) \<le> 10 \<and> ''s1'' \<in> set (bd_strokes demo_board)"
  using board_invariant [OF demo_board_reachable] demo_board_index by simp

text \<open>Undo takes back the caller's own last stroke and nothing else, and clearing one's own strokes
  removes all of those and keeps everybody else's.\<close>

theorem undo_and_clear_own:
  assumes "board_reachable limit b" "board_undo author b = (b', res)"
  shows "(case res of
       Inl _ \<Rightarrow> b' = b \<and> (\<forall>i \<in> set (bd_strokes b). \<not> drawn_by b author i)
     | Inr i \<Rightarrow> drawn_by b author i
         \<and> (\<exists>pre post. bd_strokes b = pre @ i # post \<and> bd_strokes b' = pre @ post
              \<and> (\<forall>x \<in> set post. \<not> drawn_by b author x))
         \<and> (\<forall>x. mget (bd_index b') x = (if x = i then None else mget (bd_index b) x)))
    \<and> bd_strokes (board_clear_author author b) = filter (\<lambda>i. \<not> drawn_by b author i) (bd_strokes b)
    \<and> (\<forall>i. mget (bd_index (board_clear_author author b)) i
           = (if drawn_by b author i then None else mget (bd_index b) i))"
proof -
  note ok = board_reachable_ok [OF assms(1)]
  from board_undo_cases [OF ok assms(2)] have
    "case res of
       Inl _ \<Rightarrow> b' = b \<and> (\<forall>i \<in> set (bd_strokes b). \<not> drawn_by b author i)
     | Inr i \<Rightarrow> drawn_by b author i
         \<and> (\<exists>pre post. bd_strokes b = pre @ i # post \<and> bd_strokes b' = pre @ post
              \<and> (\<forall>x \<in> set post. \<not> drawn_by b author x))
         \<and> (\<forall>x. mget (bd_index b') x = (if x = i then None else mget (bd_index b) x))"
    by cases auto
  moreover have "bd_strokes (board_clear_author author b) = filter (\<lambda>i. \<not> drawn_by b author i) (bd_strokes b)"
    by (simp add: board_clear_author_def)
  ultimately show ?thesis using board_clear_author_index [OF ok] by blast
qed

theorem undo_and_clear_own_witness:
  "\<exists>b'. board_undo ''u'' demo_board = (b', Inr ''s1'') \<and> mget (bd_index b') ''s1'' = None"
proof -
  obtain b' res where u: "board_undo ''u'' demo_board = (b', res)" by fastforce
  have "res = Inr ''s1''" using u
    by (auto simp: board_undo_def demo_board_def board_begin_def Let_def new_board_def drawn_by_def)
  with undo_and_clear_own [OF demo_board_reachable u] u show ?thesis by simp
qed

section \<open>The file store\<close>

lemma mget_remove_files:
  "mget (remove_files fs d) p =
     (if p \<noteq> [] \<and> (\<exists>f \<in> set fs. p = fl_path f \<or> (fl_has_thumb f \<and> p = fl_thumb_path f)) then None else mget d p)"
  by (induction fs arbitrary: d) (auto simp: remove_files_def remove_quietly_def)

definition store_total_ok :: "file_store \<Rightarrow> bool" where
  "store_total_ok s \<longleftrightarrow> wf_map (fs_files s) \<and> fs_total s = sum_list (map fl_size (vals (fs_files s)))"

lemma mput_new: "mget m k = None \<Longrightarrow> mput k v m = m @ [(k, v)]"
  by (induction m) (auto split: if_splits)

lemma store_total_add: "store_total_ok s \<Longrightarrow> store_get s (fl_id f) = None \<Longrightarrow> store_total_ok (store_add f s)"
  by (simp add: store_total_ok_def store_add_def store_get_def mput_new)
    (metis mput_new wf_map_mput)

lemma store_total_reset: "store_total_ok (store_reset s)"
  by (simp add: store_total_ok_def store_reset_def)

end
