(* ===== verification/Ratelimit.thy ===== *)
theory Ratelimit
  imports Prelude Complex_Main "HOL-Library.Log_Nat"
begin

text \<open>
  The token bucket of \<open>internal/ratelimit/bucket.go\<close>.

  A \<open>float64\<close> is a rational, and \<open>fl64\<close> rounds the exact result of an operation to the nearest
  number of 53 significant bits, ties to even. The exponent is unbounded here: token counts lie
  between 0 and a configured burst, and a step of the clock is at least a nanosecond, so neither
  overflow nor a subnormal result can occur. A \<open>time.Time\<close> is its nanoseconds.
\<close>

section \<open>float64\<close>

definition round_even :: "rat \<Rightarrow> int" where
  "round_even x =
     (let f = \<lfloor>x\<rfloor>; r = x - of_int f in
      if r < 1 / 2 then f else if r > 1 / 2 then f + 1 else if even f then f else f + 1)"

definition expo :: "rat \<Rightarrow> int" where
  "expo x =
     (let (p, q) = quotient_of x; e = int (floorlog 2 (nat p)) - int (floorlog 2 (nat q)) in
      if x < 2 powi e then e - 1 else e)"

definition fl_pos :: "rat \<Rightarrow> rat" where
  "fl_pos x = (let u = 2 powi (expo x - 52) in of_int (round_even (x / u)) * u)"

definition fl64 :: "rat \<Rightarrow> rat" where
  "fl64 x = (if x = 0 then 0 else if x > 0 then fl_pos x else - fl_pos (- x))"

definition ulp :: rat where
  "ulp = 1 / 2 ^ 53"

lemma ulp_nonneg [simp]: "0 \<le> ulp" and ulp_pos [simp]: "0 < ulp"
  by (simp_all add: ulp_def)

lemma round_even_close: "\<bar>of_int (round_even x) - x\<bar> \<le> 1 / 2"
proof -
  define f where "f = \<lfloor>x\<rfloor>"
  have "of_int f \<le> x" unfolding f_def by simp
  moreover have "x < of_int f + 1" unfolding f_def by linarith
  ultimately show ?thesis by (simp add: round_even_def Let_def f_def [symmetric] abs_le_iff)
qed

lemma round_even_int [simp]: "round_even (of_int n) = n"
  by (simp add: round_even_def)

lemma round_even_nonneg: "0 \<le> x \<Longrightarrow> 0 \<le> round_even x"
  by (simp add: round_even_def Let_def)

lemma expo_bounds:
  assumes "0 < x"
  shows "2 powi expo x \<le> x \<and> x < 2 powi (expo x + 1)"
proof -
  obtain p q where pq: "quotient_of x = (p, q)" by fastforce
  then have q: "0 < q" and x: "x = of_int p / of_int q"
    by (simp_all add: quotient_of_denom_pos quotient_of_div)
  with assms have p: "0 < p" by (simp add: zero_less_divide_iff)
  define P Q where PQ: "P = nat p" "Q = nat q"
  define a where "a = floorlog 2 P"
  define b where "b = floorlog 2 Q"
  have pos: "0 < P" "0 < Q" using p q by (simp_all add: PQ)
  have x': "x = of_nat P / of_nat Q" using p q by (simp add: x PQ)
  have ab: "0 < a" "0 < b" using pos by (simp_all add: a_def b_def floorlog_def)
  have P: "2 ^ (a - 1) \<le> P" "P < 2 ^ a" and Q: "2 ^ (b - 1) \<le> Q" "Q < 2 ^ b"
    using floorlog_bounds [of P 2] floorlog_bounds [of Q 2] pos by (simp_all add: a_def b_def)
  have cast: "2 ^ n \<le> N \<Longrightarrow> (2::rat) powi int n \<le> of_nat N"
    "N < 2 ^ n \<Longrightarrow> of_nat N < (2::rat) powi int n" for n N :: nat
  proof -
    have e: "(2::rat) powi int n = of_nat (2 ^ n)" by simp
    show "2 ^ n \<le> N \<Longrightarrow> (2::rat) powi int n \<le> of_nat N" unfolding e by (simp only: of_nat_le_iff)
    show "N < 2 ^ n \<Longrightarrow> of_nat N < (2::rat) powi int n" unfolding e by (simp only: of_nat_less_iff)
  qed
  have shift: "(2::rat) powi m * 2 powi n = 2 powi (m + n)" for m n
    by (simp add: power_int_add)
  have lo: "(2::rat) powi (int a - int b - 1) \<le> x"
  proof -
    have "(2::rat) powi (int a - int b - 1) * of_nat Q \<le> 2 powi (int a - int b - 1) * 2 powi int b"
      using cast(2) [OF Q(2)] by (intro mult_left_mono) auto
    also have "\<dots> \<le> of_nat P"
      unfolding shift using cast(1) [OF P(1)] ab by (simp add: of_nat_diff)
    finally show ?thesis using pos by (simp add: x' pos_le_divide_eq)
  qed
  have hi: "x < 2 powi (int a - int b + 1)"
  proof -
    have "of_nat P < (2::rat) powi (int a - int b + 1) * 2 powi (int (b - 1))"
      unfolding shift using cast(2) [OF P(2)] ab by (simp add: of_nat_diff)
    also have "\<dots> \<le> 2 powi (int a - int b + 1) * of_nat Q"
      using cast(1) [OF Q(1)] by (intro mult_left_mono) auto
    finally show ?thesis using pos by (simp add: x' pos_divide_less_eq)
  qed
  show ?thesis
  proof (cases "x < 2 powi (int a - int b)")
    case True
    then have "expo x = int a - int b - 1" by (simp add: expo_def pq a_def b_def PQ)
    with True lo show ?thesis by simp
  next
    case False
    then have "expo x = int a - int b" by (simp add: expo_def pq a_def b_def PQ)
    with False hi show ?thesis by simp
  qed
qed

lemma fl_pos_close:
  assumes "0 < x"
  shows "\<bar>fl_pos x - x\<bar> \<le> ulp * x"
proof -
  define u :: rat where "u = 2 powi (expo x - 52)"
  have u: "0 < u" by (simp add: u_def)
  have "u * 2 powi 52 = 2 powi expo x"
    unfolding u_def by (subst power_int_add [symmetric]) auto
  then have le: "u * 2 powi 52 \<le> x" using expo_bounds [OF assms] by simp
  have "\<bar>fl_pos x - x\<bar> = u * \<bar>of_int (round_even (x / u)) - x / u\<bar>"
    using u by (simp add: fl_pos_def Let_def u_def [symmetric] abs_mult_pos' field_simps flip: abs_mult)
  also have "\<dots> \<le> u * (1 / 2)"
    using round_even_close [of "x / u"] u by (intro mult_left_mono) auto
  also have "\<dots> \<le> ulp * x"
    using le by (simp add: ulp_def field_simps)
  finally show ?thesis .
qed

lemma fl_pos_int:
  assumes "0 < n" "n \<le> 2 ^ 53"
  shows "fl_pos (of_int n) = of_int n"
proof -
  let ?e = "expo (of_int n)"
  have b: "(2::rat) powi ?e \<le> of_int n" "of_int n < (2::rat) powi (?e + 1)"
    using expo_bounds [of "of_int n"] assms by auto
  have e53: "?e \<le> 53"
  proof (rule ccontr)
    assume "\<not> ?e \<le> 53"
    then have "(2::rat) powi 53 < 2 powi ?e" by (intro power_int_strict_increasing) auto
    also note b(1)
    finally have "of_int (2 ^ 53) < (of_int n :: rat)" by simp
    then have "2 ^ 53 < n" by (simp only: of_int_less_iff)
    with assms(2) show False by simp
  qed
  define u :: rat where "u = 2 powi (?e - 52)"
  have u: "u \<noteq> 0" by (simp add: u_def)
  have "\<exists>k. of_int n / u = (of_int k :: rat)"
  proof (cases "?e = 53")
    case True
    then have "of_int (2 ^ 53) \<le> (of_int n :: rat)" using b(1) by simp
    then have "2 ^ 53 \<le> n" by (simp only: of_int_le_iff)
    with assms have "n = 2 ^ 53" by simp
    then have "of_int n / u = (of_int (2 ^ 52) :: rat)" using True by (simp add: u_def)
    then show ?thesis by blast
  next
    case False
    define m where "m = nat (52 - ?e)"
    from False e53 have "?e - 52 = - int m" by (simp add: m_def)
    then have "inverse u = of_int (2 ^ m)" by (simp add: u_def power_int_minus)
    then have "of_int n / u = (of_int (n * 2 ^ m) :: rat)" by (simp add: divide_inverse)
    then show ?thesis by blast
  qed
  then obtain k where k: "of_int n / u = (of_int k :: rat)" ..
  then have "fl_pos (of_int n) = of_int k * u" by (simp add: fl_pos_def Let_def u_def [symmetric])
  also have "\<dots> = of_int n" using k u by (simp add: field_simps)
  finally show ?thesis .
qed

text \<open>What the bucket relies on: rounding keeps the sign, loses at most one unit in the last place
  and leaves the integers a \<open>float64\<close> can hold alone.\<close>

locale float_arith =
  fixes rnd :: "rat \<Rightarrow> rat"
  assumes rnd_nonneg: "0 \<le> x \<Longrightarrow> 0 \<le> rnd x"
    and rnd_le: "0 \<le> x \<Longrightarrow> rnd x \<le> (1 + ulp) * x"
    and rnd_int: "\<bar>n\<bar> \<le> 2 ^ 53 \<Longrightarrow> rnd (of_int n) = of_int n"

lemma fl64_close: "\<bar>fl64 x - x\<bar> \<le> ulp * \<bar>x\<bar>"
  using fl_pos_close [of x] fl_pos_close [of "- x"] by (auto simp: fl64_def abs_if split: if_splits)

interpretation fl64: float_arith fl64
proof
  fix x :: rat
  assume x: "0 \<le> x"
  have "0 \<le> fl_pos x" if "0 < x"
    unfolding fl_pos_def Let_def using that round_even_nonneg [of "x / 2 powi (expo x - 52)"] by simp
  with x show "0 \<le> fl64 x" by (simp add: fl64_def)
  from fl64_close [of x] x show "fl64 x \<le> (1 + ulp) * x"
    by (simp add: abs_le_iff algebra_simps)
next
  fix n :: int
  assume "\<bar>n\<bar> \<le> 2 ^ 53"
  with fl_pos_int [of n] fl_pos_int [of "- n"] show "fl64 (of_int n) = of_int n"
    by (auto simp: fl64_def abs_if split: if_splits)
qed

section \<open>The bucket\<close>

record bucket =
  tokens :: rat
  last_at :: int
  started :: bool

definition new_bucket :: bucket where
  "new_bucket = \<lparr>tokens = 0, last_at = 0, started = False\<rparr>"

text \<open>\<open>Duration.Seconds\<close>: whole seconds and the rest, each converted and then added. Integer
  division truncates towards zero.\<close>

definition seconds :: "int \<Rightarrow> rat" where
  "seconds d =
     (let s = sgn d * (\<bar>d\<bar> div 1000000000); ns = sgn d * (\<bar>d\<bar> mod 1000000000) in
      fl64 (fl64 (of_int s) + fl64 (fl64 (of_int ns) / 1000000000)))"

definition allow_at :: "int \<Rightarrow> int \<Rightarrow> rat \<Rightarrow> bucket \<Rightarrow> bucket \<times> bool" where
  "allow_at now capacity per_second b =
     (let capacity = (if capacity < 1 then 1 else capacity);
          b = (if \<not> started b
               then \<lparr>tokens = fl64 (of_int capacity), last_at = now, started = True\<rparr>
               else (let elapsed = seconds (now - last_at b);
                         b = (if elapsed > 0
                              then b\<lparr>tokens := fl64 (tokens b + fl64 (elapsed * per_second)), last_at := now\<rparr>
                              else b) in
                     if tokens b > fl64 (of_int capacity) then b\<lparr>tokens := fl64 (of_int capacity)\<rparr> else b)) in
      if tokens b < 1 then (b, False)
      else (b\<lparr>tokens := fl64 (tokens b - 1)\<rparr>, True))"

text \<open>One bucket asked at each of a list of times.\<close>

fun allow_seq :: "int list \<Rightarrow> int \<Rightarrow> rat \<Rightarrow> bucket \<Rightarrow> bucket \<times> bool list" where
  "allow_seq [] c r b = (b, [])"
| "allow_seq (t # ts) c r b =
     (let (b1, ok) = allow_at t c r b; (b2, oks) = allow_seq ts c r b1 in (b2, ok # oks))"

definition bucket_ok :: "int \<Rightarrow> bucket \<Rightarrow> bool" where
  "bucket_ok c b \<longleftrightarrow> (started b \<longrightarrow> 0 \<le> tokens b \<and> tokens b \<le> fl64 (of_int (max 1 c)))"

lemma new_bucket_ok [simp]: "bucket_ok c new_bucket"
  by (simp add: bucket_ok_def new_bucket_def)

lemma seconds_bounds:
  assumes "0 \<le> d"
  shows "0 \<le> seconds d \<and> seconds d \<le> (1 + ulp) ^ 3 * (of_int d / 1000000000)"
proof -
  let ?s = "of_int (d div 1000000000) :: rat" and ?n = "of_int (d mod 1000000000) :: rat"
  have s: "0 \<le> ?s" and n: "0 \<le> ?n" using assms by (auto simp: pos_imp_zdiv_nonneg_iff)
  have eq: "seconds d = fl64 (fl64 ?s + fl64 (fl64 ?n / 1000000000))"
    using assms by (cases "d = 0") (auto simp: seconds_def Let_def)
  have fs: "0 \<le> fl64 ?s" "fl64 ?s \<le> (1 + ulp) * ?s" and fn: "0 \<le> fl64 ?n" "fl64 ?n \<le> (1 + ulp) * ?n"
    using fl64.rnd_nonneg fl64.rnd_le s n by auto
  have q: "0 \<le> fl64 (fl64 ?n / 1000000000)"
    "fl64 (fl64 ?n / 1000000000) \<le> (1 + ulp) * (fl64 ?n / 1000000000)"
    using fl64.rnd_nonneg [of "fl64 ?n / 1000000000"] fl64.rnd_le [of "fl64 ?n / 1000000000"] fn(1)
    by simp_all
  have whole: "?s + ?n / 1000000000 = of_int d / 1000000000"
  proof -
    have "of_int d = (of_int (d div 1000000000 * 1000000000 + d mod 1000000000) :: rat)" by simp
    then have "of_int d = ?s * 1000000000 + ?n" by (simp only: of_int_add of_int_mult of_int_numeral)
    then show ?thesis by simp
  qed
  let ?k = "1 + ulp"
  have "?k * ?s \<le> ?k * (?k * ?s)" using s by (intro mult_left_mono) (auto simp: algebra_simps)
  with fs(2) have one: "fl64 ?s \<le> ?k * (?k * ?s)" by simp
  have "fl64 ?n / 1000000000 \<le> ?k * ?n / 1000000000" using fn(2) by (intro divide_right_mono) auto
  then have "?k * (fl64 ?n / 1000000000) \<le> ?k * (?k * ?n / 1000000000)"
    by (intro mult_left_mono) auto
  with q(2) have two: "fl64 (fl64 ?n / 1000000000) \<le> ?k * (?k * (?n / 1000000000))" by simp
  have "?k * (?k * ?s) + ?k * (?k * (?n / 1000000000)) = ?k * (?k * (?s + ?n / 1000000000))"
    by (simp only: distrib_left)
  with one two have "fl64 ?s + fl64 (fl64 ?n / 1000000000) \<le> ?k * (?k * (?s + ?n / 1000000000))"
    by linarith
  then have sum: "fl64 ?s + fl64 (fl64 ?n / 1000000000) \<le> (1 + ulp)\<^sup>2 * (of_int d / 1000000000)"
    by (simp only: whole power2_eq_square mult.assoc)
  have "0 \<le> seconds d" using fs q eq by (simp add: fl64.rnd_nonneg)
  moreover have "seconds d \<le> (1 + ulp) * (fl64 ?s + fl64 (fl64 ?n / 1000000000))"
    unfolding eq using fs q by (intro fl64.rnd_le) simp
  moreover have "\<dots> \<le> (1 + ulp) * ((1 + ulp)\<^sup>2 * (of_int d / 1000000000))"
    using sum by (intro mult_left_mono) auto
  ultimately have "0 \<le> seconds d" "seconds d \<le> (1 + ulp) * ((1 + ulp)\<^sup>2 * (of_int d / 1000000000))"
    by (blast intro: order_trans)+
  then show ?thesis by (simp add: power3_eq_cube power2_eq_square mult.assoc)
qed

lemma fl64_max_int: "0 \<le> fl64 (of_int (max 1 c))"
  by (rule fl64.rnd_nonneg) simp

text \<open>One call: the tokens left, plus the one handed out, are at most the tokens before, what the
  time elapsed since the bucket was last filled is worth, and two rounding errors.\<close>

definition refill :: "rat \<Rightarrow> int \<Rightarrow> rat" where
  "refill rate d = (1 + ulp) ^ 5 * rate * (of_int d / 1000000000)"

lemma refill_add: "refill r (a + b) = refill r a + refill r b"
  by (simp add: refill_def add_divide_distrib distrib_left)

lemma refill_mono: "0 \<le> r \<Longrightarrow> a \<le> b \<Longrightarrow> refill r a \<le> refill r b"
  unfolding refill_def by (intro mult_left_mono divide_right_mono) auto

lemma fill_bound:
  assumes d: "0 \<le> d" and r: "0 \<le> r" and t: "0 \<le> t" "t \<le> cap"
  shows "0 \<le> fl64 (t + fl64 (seconds d * r))
       \<and> fl64 (t + fl64 (seconds d * r)) \<le> t + ulp * cap + refill r d"
proof -
  let ?k = "1 + ulp" and ?d = "of_int d / 1000000000 :: rat"
  have sr: "0 \<le> seconds d * r" "seconds d * r \<le> ?k ^ 3 * ?d * r"
    using seconds_bounds [OF d] r by (simp, intro mult_right_mono) auto
  have f: "0 \<le> fl64 (seconds d * r)" by (rule fl64.rnd_nonneg [OF sr(1)])
  have "fl64 (seconds d * r) \<le> ?k * (seconds d * r)" by (rule fl64.rnd_le [OF sr(1)])
  also have "\<dots> \<le> ?k * (?k ^ 3 * ?d * r)" using sr(2) by (intro mult_left_mono) auto
  finally have f2: "fl64 (seconds d * r) \<le> ?k ^ 4 * ?d * r" by (simp add: eval_nat_numeral mult.assoc)
  have "fl64 (t + fl64 (seconds d * r)) \<le> ?k * (t + fl64 (seconds d * r))"
    using t f by (intro fl64.rnd_le) simp
  also have "\<dots> \<le> ?k * t + ?k * (?k ^ 4 * ?d * r)"
    unfolding distrib_left by (intro add_left_mono mult_left_mono f2) simp
  also have "\<dots> \<le> t + ulp * cap + refill r d"
  proof -
    have "ulp * t \<le> ulp * cap" using t by (intro mult_left_mono) auto
    then have "?k * t \<le> t + ulp * cap" by (simp add: algebra_simps)
    moreover have "?k * (?k ^ 4 * ?d * r) = refill r d"
      by (simp add: refill_def eval_nat_numeral mult_ac)
    ultimately show ?thesis by simp
  qed
  finally show ?thesis using t f by (simp add: fl64.rnd_nonneg)
qed

lemma take_bound:
  assumes "1 \<le> t" "t \<le> cap"
  shows "0 \<le> fl64 (t - 1) \<and> fl64 (t - 1) + 1 \<le> t + ulp * cap"
proof -
  have "fl64 (t - 1) \<le> (1 + ulp) * (t - 1)" using assms by (intro fl64.rnd_le) simp
  moreover have "ulp * (t - 1) \<le> ulp * cap" using assms by (intro mult_left_mono) auto
  ultimately have "fl64 (t - 1) + 1 \<le> t + ulp * cap" by (simp add: algebra_simps)
  then show ?thesis using assms by (simp add: fl64.rnd_nonneg)
qed

lemma allow_step:
  assumes ok: "bucket_ok c b" and t: "started b \<Longrightarrow> last_at b \<le> now"
    and r: "0 \<le> r" and c: "c \<le> 2 ^ 53"
    and b': "allow_at now c r b = (b', yes)"
  shows "bucket_ok c b' \<and> started b' \<and> last_at b' \<le> now
    \<and> (if yes then 1 else 0) + tokens b' + refill r (now - last_at b')
        \<le> (if started b then tokens b + refill r (now - last_at b) else of_int (max 1 c))
           + 2 * ulp * of_int (max 1 c)"
proof -
  define cap :: rat where "cap = of_int (max 1 c)"
  have cap: "fl64 (of_int (if c < 1 then 1 else c)) = cap" "fl64 (of_int (max 1 c)) = cap" "1 \<le> cap"
    using c fl64.rnd_int [of "max 1 c"] by (auto simp: cap_def max_def)
  have small: "ulp * cap \<le> 1"
  proof -
    have "cap \<le> of_int (2 ^ 53)" unfolding cap_def of_int_le_iff using c by simp
    then show ?thesis by (simp add: ulp_def)
  qed
  define filled where "filled = (if \<not> started b then cap
     else if seconds (now - last_at b) > 0
       then min cap (fl64 (tokens b + fl64 (seconds (now - last_at b) * r)))
     else tokens b)"
  have b'_eq: "started b'" "yes = (1 \<le> filled)" "tokens b' = (if 1 \<le> filled then fl64 (filled - 1) else filled)"
    "last_at b' = (if started b \<and> \<not> seconds (now - last_at b) > 0 then last_at b else now)"
    using b' ok cap(3) by (auto simp: allow_at_def Let_def cap(1,2) filled_def min_def bucket_ok_def split: if_splits)
  have le: "0 \<le> filled" "filled \<le> cap"
    and bound: "filled + refill r (now - last_at b')
      \<le> (if started b then tokens b + refill r (now - last_at b) else cap) + ulp * cap"
  proof -
    have tk: "0 \<le> tokens b" "tokens b \<le> cap" if "started b"
      using ok that by (simp_all add: bucket_ok_def cap)
    note fb = fill_bound [OF _ r, of "now - last_at b" "tokens b" cap]
    show "0 \<le> filled" "filled \<le> cap" using tk fb t cap(3) by (auto simp: filled_def)
    have z: "refill r 0 = 0" by (simp add: refill_def)
    show "filled + refill r (now - last_at b')
      \<le> (if started b then tokens b + refill r (now - last_at b) else cap) + ulp * cap"
      using tk fb t cap(3) by (auto simp: filled_def b'_eq z min_le_iff_disj)
  qed
  have tk: "0 \<le> tokens b'" "tokens b' + (if yes then 1 else 0) \<le> filled + ulp * cap" "tokens b' \<le> cap"
    using take_bound [of filled cap] le small cap(3) by (auto simp: b'_eq)
  have "bucket_ok c b' \<and> started b'" using tk cap(2) by (simp add: bucket_ok_def b'_eq(1))
  moreover have "last_at b' \<le> now" using t by (simp add: b'_eq(4))
  moreover have "2 * ulp * cap = ulp * cap + ulp * cap" by simp
  with tk(2) bound have "(if yes then 1 else 0) + tokens b' + refill r (now - last_at b')
    \<le> (if started b then tokens b + refill r (now - last_at b) else cap) + 2 * ulp * cap" by linarith
  ultimately show ?thesis unfolding cap_def by blast
qed

definition worth :: "rat \<Rightarrow> int \<Rightarrow> bucket \<Rightarrow> rat" where
  "worth r e b = tokens b + refill r (e - last_at b)"

lemma allow_step_worth:
  assumes "bucket_ok c b" "started b \<Longrightarrow> last_at b \<le> now" "0 \<le> r" "c \<le> 2 ^ 53" "allow_at now c r b = (b', yes)"
  shows "(if yes then 1 else 0) + worth r e b'
    \<le> (if started b then worth r e b else of_int (max 1 c) + refill r (e - now)) + 2 * ulp * of_int (max 1 c)"
proof -
  have "refill r (e - last_at b) = refill r (e - now) + refill r (now - last_at b)"
    "refill r (e - last_at b') = refill r (e - now) + refill r (now - last_at b')"
    by (simp_all flip: refill_add)
  with allow_step [OF assms] show ?thesis unfolding worth_def by (cases "started b") simp_all
qed

lemma allow_seq_worth:
  assumes "bucket_ok c b" and "started b" and "sorted (last_at b # ts)" and "\<forall>t \<in> set ts. t \<le> e"
    and "last_at b \<le> e" and r: "0 \<le> r" and c: "c \<le> 2 ^ 53" and "allow_seq ts c r b = (b', oks)"
  shows "of_nat (count_list oks True) + worth r e b'
     \<le> worth r e b + of_nat (length ts) * (2 * ulp * of_int (max 1 c))
    \<and> bucket_ok c b' \<and> started b' \<and> last_at b' \<le> e"
  using assms(1-5,8)
proof (induction ts arbitrary: b oks)
  case Nil
  then show ?case by simp
next
  case (Cons t ts)
  obtain b1 ok where a: "allow_at t c r b = (b1, ok)" by fastforce
  obtain oks' where s: "allow_seq ts c r b1 = (b', oks')" and oks: "oks = ok # oks'"
    using Cons.prems(6) by (auto simp: a split: prod.splits)
  from Cons.prems(3) have t: "last_at b \<le> t" "sorted (t # ts)" by auto
  have ok1: "bucket_ok c b1" "started b1" "last_at b1 \<le> t"
    using allow_step [OF Cons.prems(1) t(1) r c a] by auto
  from ok1(3) t(2) have "sorted (last_at b1 # ts)" by (auto intro: order_trans)
  moreover have "last_at b1 \<le> e" using ok1(3) Cons.prems(4) by auto
  ultimately have IH: "of_nat (count_list oks' True) + worth r e b'
     \<le> worth r e b1 + of_nat (length ts) * (2 * ulp * of_int (max 1 c))
    \<and> bucket_ok c b' \<and> started b' \<and> last_at b' \<le> e"
    using Cons.IH [OF ok1(1,2)] Cons.prems(4) s by auto
  have "(if ok then 1 else 0) + worth r e b1 \<le> worth r e b + 2 * ulp * of_int (max 1 c)"
    using allow_step_worth [OF Cons.prems(1) t(1) r c a] Cons.prems(2) by simp
  with IH show ?case by (simp add: oks distrib_right split: if_splits)
qed

text \<open>C32. However a client spaces its requests, the bucket hands out at most its capacity plus the
  refill rate times the time that passed, up to the rounding of the arithmetic: a relative error of
  five units in the last place on the refill and two per call on the capacity.\<close>

theorem bucket_rate_bound:
  assumes "sorted (t # ts)" "0 \<le> r" "c \<le> 2 ^ 53" "allow_seq (t # ts) c r new_bucket = (b', oks)"
  shows "of_nat (count_list oks True)
     \<le> of_int (max 1 c) + (1 + ulp) ^ 5 * r * (of_int (last (t # ts) - t) / 1000000000)
       + of_nat (length (t # ts)) * (2 * ulp * of_int (max 1 c))
    \<and> 0 \<le> tokens b' \<and> tokens b' \<le> of_int (max 1 c)"
proof -
  define e where "e = last (t # ts)"
  have e: "t \<le> e" "\<forall>x \<in> set ts. x \<le> e"
    using assms(1) unfolding e_def by (induction ts rule: rev_induct) (auto simp: sorted_append)
  obtain b1 ok where a: "allow_at t c r new_bucket = (b1, ok)" by fastforce
  obtain oks' where s: "allow_seq ts c r b1 = (b', oks')" and oks: "oks = ok # oks'"
    using assms(4) by (auto simp: a split: prod.splits)
  have fresh: "\<not> started new_bucket" by (simp add: new_bucket_def)
  have st: "bucket_ok c b1" "started b1" "last_at b1 \<le> t"
    using allow_step [OF _ _ assms(2,3) a] fresh by auto
  have "(if ok then 1 else 0) + worth r e b1
      \<le> of_int (max 1 c) + refill r (e - t) + 2 * ulp * of_int (max 1 c)"
    using allow_step_worth [OF _ _ assms(2,3) a, of e] fresh by simp
  moreover have "sorted (last_at b1 # ts)" "last_at b1 \<le> e"
    using st(3) assms(1) e by (auto intro: order_trans)
  with allow_seq_worth [OF st(1,2) _ e(2) _ assms(2,3) s]
  have "of_nat (count_list oks' True) + worth r e b'
     \<le> worth r e b1 + of_nat (length ts) * (2 * ulp * of_int (max 1 c))"
    and b': "bucket_ok c b'" "started b'" "last_at b' \<le> e" by auto
  moreover have tk: "0 \<le> tokens b'" "tokens b' \<le> of_int (max 1 c)"
    using b' assms(3) fl64.rnd_int [of "max 1 c"] by (auto simp: bucket_ok_def max_def)
  moreover have "0 \<le> worth r e b'"
    using tk b'(3) refill_mono [OF assms(2), of 0 "e - last_at b'"] by (simp add: worth_def refill_def)
  ultimately show ?thesis
    unfolding e_def [symmetric] refill_def [symmetric] by (simp add: oks distrib_right split: if_splits)
qed

theorem bucket_rate_bound_witness:
  "of_nat (count_list (snd (allow_seq [0, 5000000000] 3 (1 / 60) new_bucket)) True)
     \<le> 3 + (1 + ulp) ^ 5 * (1 / 60) * 5 + 2 * (2 * ulp * (3::rat))"
proof -
  obtain b' oks where "allow_seq [0, 5000000000] 3 (1 / 60) new_bucket = (b', oks)" by fastforce
  with bucket_rate_bound [of 0 "[5000000000]" "1 / 60" 3 b' oks] show ?thesis by simp
qed

end
