(* ===== verification/Guard.thy ===== *)
theory Guard
  imports Ratelimit Textutil
begin

text \<open>
  The guard at the front door, \<open>internal/guard/guard.go\<close>: how many sockets an address holds and how
  fast it may open new ones. \<open>Admit\<close> returns a release function; here it returns the address
  the release is for, and calling the release is \<open>release\<close> (\<open>done\<close> in the source).

  \<open>net.SplitHostPort\<close> is the one of Go's standard library, read as: the port starts after the last
  colon, an address with more than one colon is in brackets, no other bracket appears.
\<close>

section \<open>Addresses\<close>

definition colon :: rune where "colon = 58"
definition lbracket :: rune where "lbracket = 91"
definition rbracket :: rune where "rbracket = 93"

fun index_of :: "rune \<Rightarrow> ustring \<Rightarrow> nat option" where
  "index_of c [] = None"
| "index_of c (x # xs) = (if x = c then Some 0 else map_option Suc (index_of c xs))"

fun last_index_of :: "rune \<Rightarrow> ustring \<Rightarrow> nat option" where
  "last_index_of c [] = None"
| "last_index_of c (x # xs) =
     (case last_index_of c xs of Some i \<Rightarrow> Some (Suc i) | None \<Rightarrow> if x = c then Some 0 else None)"

definition split_host :: "ustring \<Rightarrow> ustring option" where
  "split_host s =
     (case last_index_of colon s of
        None \<Rightarrow> None
      | Some i \<Rightarrow>
          if hd s = lbracket then
            (case index_of rbracket s of
               None \<Rightarrow> None
             | Some e \<Rightarrow>
                 if e + 1 \<noteq> i then None
                 else if lbracket \<in> set (drop 1 s) \<or> rbracket \<in> set (drop (e + 1) s) then None
                 else Some (take (e - 1) (drop 1 s)))
          else if colon \<in> set (take i s) then None
          else if lbracket \<in> set s \<or> rbracket \<in> set s then None
          else Some (take i s))"

definition host_of :: "ustring \<Rightarrow> ustring" where
  "host_of addr = (case split_host addr of Some h \<Rightarrow> h | None \<Rightarrow> trim_space addr)"

section \<open>The guard\<close>

record limits =
  max_per_ip :: int
  burst :: int
  per_minute :: int

record guard =
  open_conns :: "(ustring, int) gomap"
  buckets :: "(ustring, bucket) gomap"

datatype guard_error = ErrTooManyConnections | ErrTooFast

definition new_guard :: guard where
  "new_guard = \<lparr>open_conns = [], buckets = []\<rparr>"

text \<open>Reading a key that is not there gives zero.\<close>

definition conns :: "guard \<Rightarrow> ustring \<Rightarrow> int" where
  "conns g ip = (case mget (open_conns g) ip of None \<Rightarrow> 0 | Some n \<Rightarrow> n)"

definition admit :: "int \<Rightarrow> limits \<Rightarrow> ustring \<Rightarrow> guard \<Rightarrow> guard \<times> (guard_error + ustring)" where
  "admit now lm addr g =
     (let ip = host_of addr in
      if max_per_ip lm > 0 \<and> conns g ip \<ge> max_per_ip lm then (g, Inl ErrTooManyConnections)
      else
        (let b = (case mget (buckets g) ip of Some b \<Rightarrow> b | None \<Rightarrow> new_bucket);
             (b', yes) = (if per_minute lm > 0
               then allow_at now (burst lm) (fl64 (fl64 (of_int (per_minute lm)) / 60)) b
               else (b, True));
             g' = g\<lparr>buckets := mput ip b' (buckets g)\<rparr> in
         if \<not> yes then (g', Inl ErrTooFast)
         else (g'\<lparr>open_conns := mput ip (conns g' ip + 1) (open_conns g')\<rparr>, Inr ip)))"

definition release :: "ustring \<Rightarrow> guard \<Rightarrow> guard" where
  "release ip g =
     (if conns g ip \<le> 1 then g\<lparr>open_conns := mdel ip (open_conns g)\<rparr>
      else g\<lparr>open_conns := mput ip (conns g ip - 1) (open_conns g)\<rparr>)"

definition open_count :: "guard \<Rightarrow> ustring \<Rightarrow> int" where
  "open_count g addr = conns g (host_of addr)"

definition sweep :: "guard \<Rightarrow> guard \<times> nat" where
  "sweep g =
     (g\<lparr>buckets := filter (\<lambda>(ip, _). conns g ip \<noteq> 0) (buckets g)\<rparr>,
      length (filter (\<lambda>(ip, _). conns g ip = 0) (buckets g)))"

section \<open>What the counters mean\<close>

text \<open>\<open>held\<close> lists the address of every admitted connection that has not been released yet.\<close>

inductive guard_reachable :: "guard \<Rightarrow> ustring list \<Rightarrow> bool" where
  start: "guard_reachable new_guard []"
| admitted: "guard_reachable g held \<Longrightarrow> admit now lm addr g = (g', Inr ip) \<Longrightarrow> guard_reachable g' (ip # held)"
| refused: "guard_reachable g held \<Longrightarrow> admit now lm addr g = (g', Inl err) \<Longrightarrow> guard_reachable g' held"
| released: "guard_reachable g held \<Longrightarrow> ip \<in> set held \<Longrightarrow> guard_reachable (release ip g) (remove1 ip held)"
| swept: "guard_reachable g held \<Longrightarrow> guard_reachable (fst (sweep g)) held"

definition counts :: "guard \<Rightarrow> ustring list \<Rightarrow> bool" where
  "counts g held \<longleftrightarrow> wf_map (buckets g) \<and>
     (\<forall>ip. mget (open_conns g) ip = (if ip \<in> set held then Some (int (count_list held ip)) else None))"

lemma conns_counts: "counts g held \<Longrightarrow> conns g ip = int (count_list held ip)"
  by (simp add: counts_def conns_def count_list_0_iff)

lemma counts_mem: "counts g held \<Longrightarrow> ip \<in> set held \<longleftrightarrow> conns g ip \<noteq> 0"
  using count_list_0_iff [of held ip] by (simp add: conns_counts)

lemma admit_cases:
  assumes "admit now lm addr g = (g', res)"
  obtains (many) "res = Inl ErrTooManyConnections" "g' = g"
      "max_per_ip lm > 0" "conns g (host_of addr) \<ge> max_per_ip lm"
  | (fast) b where "res = Inl ErrTooFast" "g' = g\<lparr>buckets := mput (host_of addr) b (buckets g)\<rparr>"
  | (admit) b where "res = Inr (host_of addr)"
      "g' = g\<lparr>buckets := mput (host_of addr) b (buckets g),
              open_conns := mput (host_of addr) (conns g (host_of addr) + 1) (open_conns g)\<rparr>"
      "max_per_ip lm > 0 \<longrightarrow> conns g (host_of addr) < max_per_ip lm"
  using assms
  by (auto simp: admit_def Let_def conns_def split: if_splits prod.splits option.splits)

lemma counts_admit:
  assumes "counts g held" "admit now lm addr g = (g', res)"
  shows "counts g' (case res of Inr ip \<Rightarrow> ip # held | Inl _ \<Rightarrow> held)"
  using assms(2)
  by (cases rule: admit_cases) (use assms(1) conns_counts [OF assms(1)] in \<open>auto simp: counts_def\<close>)

lemma count_list_remove1: "count_list (remove1 x xs) y = count_list xs y - (if x = y then 1 else 0)"
  by (induction xs) (auto simp: count_list_0_iff [symmetric] Suc_diff_Suc)

lemma set_count: "y \<in> set xs \<longleftrightarrow> 0 < count_list xs y"
  using count_list_0_iff [of xs y] by auto

lemma counts_release:
  assumes "counts g held" "ip \<in> set held"
  shows "counts (release ip g) (remove1 ip held)"
proof -
  have n: "conns g ip = int (count_list held ip)" "0 < count_list held ip"
    using conns_counts [OF assms(1)] assms(2) count_list_0_iff [of held ip] by auto
  then show ?thesis using assms(1)
    by (auto simp: counts_def release_def set_count count_list_remove1)
qed

lemma counts_sweep: "counts g held \<Longrightarrow> counts (fst (sweep g)) held"
  by (simp add: counts_def sweep_def)

lemma guard_reachable_counts: "guard_reachable g held \<Longrightarrow> counts g held"
proof (induction rule: guard_reachable.induct)
  case start
  then show ?case by (simp add: counts_def new_guard_def)
next
  case (admitted g held now lm addr g' ip)
  then show ?case using counts_admit by force
next
  case (refused g held now lm addr g' err)
  then show ?case using counts_admit by force
qed (simp_all add: counts_release counts_sweep)

text \<open>A guard with one connection, used by the examples: the address is \<open>h:1\<close>.\<close>

definition one_limit :: limits where
  "one_limit = \<lparr>max_per_ip = 1, burst = 0, per_minute = 0\<rparr>"

definition one_guard :: guard where
  "one_guard = \<lparr>open_conns = [([104], 1)], buckets = [([104], new_bucket)]\<rparr>"

lemma demo_host: "host_of [104, 58, 49] = [104]"
  by (simp add: host_of_def split_host_def colon_def lbracket_def rbracket_def)

lemma demo_admit: "admit 0 one_limit [104, 58, 49] new_guard = (one_guard, Inr [104])"
  by (simp add: admit_def Let_def conns_def demo_host one_limit_def one_guard_def new_guard_def)

lemma demo_reachable: "guard_reachable one_guard [[104]]"
  using guard_reachable.admitted [OF guard_reachable.start demo_admit] .

text \<open>C27. The guard counts exactly the connections that were admitted and not released, whatever was
  admitted, refused, released and swept before, and it remembers no address without one.\<close>

theorem guard_counts_connections:
  assumes "guard_reachable g held"
  shows "open_count g addr = int (count_list held (host_of addr)) \<and> set (keys (open_conns g)) = set held"
proof -
  from guard_reachable_counts [OF assms] have c: "counts g held" .
  then have "set (keys (open_conns g)) = set held"
    by (force simp: counts_def dom_map_of_conv_image_fst [symmetric] dom_def split: if_splits)
  with c show ?thesis by (simp add: open_count_def conns_counts)
qed

theorem guard_counts_connections_witness:
  "open_count one_guard [104, 58, 49] = 1 \<and> set (keys (open_conns one_guard)) = {[104]}"
  using guard_counts_connections [OF demo_reachable, of "[104, 58, 49]"] by (simp add: demo_host)

text \<open>An address never gets past its limit: when a connection is admitted under a limit, the
  connections the address then holds are within it; and a refused attempt changes no count.\<close>

theorem guard_admit_within_limit:
  assumes "guard_reachable g held" "admit now lm addr g = (g', res)" "0 < max_per_ip lm"
  shows "(case res of
      Inr ip \<Rightarrow> ip = host_of addr \<and> open_count g' addr = open_count g addr + 1
        \<and> int (count_list (ip # held) ip) \<le> max_per_ip lm
    | Inl err \<Rightarrow> open_conns g' = open_conns g
        \<and> (err = ErrTooManyConnections \<longleftrightarrow> int (count_list held (host_of addr)) \<ge> max_per_ip lm))"
  using assms(2)
proof (cases rule: admit_cases)
  case many
  then show ?thesis using conns_counts [OF guard_reachable_counts [OF assms(1)]] by simp
next
  case (fast b)
  then have "\<not> conns g (host_of addr) \<ge> max_per_ip lm"
    using assms(2,3) by (auto simp: admit_def Let_def)
  with fast show ?thesis using conns_counts [OF guard_reachable_counts [OF assms(1)]] by simp
next
  case (admit b)
  with assms(3) show ?thesis using conns_counts [OF guard_reachable_counts [OF assms(1)]]
    by (simp add: open_count_def conns_def)
qed

theorem guard_admit_within_limit_witness:
  "open_count (fst (admit 5 one_limit [104, 58, 49] one_guard)) [104, 58, 49] = 1
   \<and> snd (admit 5 one_limit [104, 58, 49] one_guard) = Inl ErrTooManyConnections"
proof -
  obtain g' res where a: "admit 5 one_limit [104, 58, 49] one_guard = (g', res)" by fastforce
  have "res = Inl ErrTooManyConnections" "g' = one_guard"
    using a by (auto simp: admit_def Let_def conns_def demo_host one_limit_def one_guard_def)
  with guard_admit_within_limit [OF demo_reachable a] a show ?thesis
    by (simp add: one_limit_def open_count_def conns_def demo_host one_guard_def)
qed

text \<open>A sweep forgets the rate bucket of an address only when the address holds no connection, so
  it never resets the rate limit of a connected client.\<close>

theorem sweep_keeps_connected:
  assumes "guard_reachable g held"
  shows "mget (buckets (fst (sweep g))) ip = (if ip \<in> set held then mget (buckets g) ip else None)
    \<and> open_conns (fst (sweep g)) = open_conns g
    \<and> length (buckets (fst (sweep g))) + snd (sweep g) = length (buckets g)"
proof -
  from guard_reachable_counts [OF assms] have c: "counts g held" .
  then have "mget (buckets (fst (sweep g))) ip = (if ip \<in> set held then mget (buckets g) ip else None)"
    by (simp add: sweep_def mget_filter counts_def [of g held] counts_mem [OF c] split: option.splits)
  moreover have "length (filter (\<lambda>(ip, _). conns g ip \<noteq> 0) xs)
      + length (filter (\<lambda>(ip, _). conns g ip = 0) xs) = length xs" for xs :: "(ustring \<times> bucket) list"
    by (induction xs) auto
  ultimately show ?thesis by (simp add: sweep_def)
qed

theorem sweep_keeps_connected_witness:
  "mget (buckets (fst (sweep one_guard))) [104] = Some new_bucket"
  using sweep_keeps_connected [OF demo_reachable, of "[104]"] by (simp add: one_guard_def)

end
