(* ===== verification/Config.thy ===== *)
theory Config
  imports Guard Storage
begin

text \<open>
  The settings, \<open>internal/config/schema.go\<close> and \<open>config.go\<close>: the registry of every key with its
  default and its check, the live values, and how they are loaded, reloaded, set and reset. The
  labels and help texts of the registry and the watchers (the logger is the only one) are left out.

  \<open>valid_proxy\<close> stands for \<open>net.ParseCIDR\<close> or \<open>net.ParseIP\<close> accepting one entry of the trusted
  proxies list; nothing is assumed of it.
\<close>

section \<open>strconv and strings\<close>

definition is_digit :: "rune \<Rightarrow> bool" where
  "is_digit r \<longleftrightarrow> 48 \<le> r \<and> r \<le> 57"

definition digits_val :: "ustring \<Rightarrow> int" where
  "digits_val = foldl (\<lambda>n r. 10 * n + (int r - 48)) 0"

text \<open>\<open>strconv.Atoi\<close>: an optional sign, at least one digit, and a value that fits 64 bits.\<close>

definition atoi :: "ustring \<Rightarrow> int option" where
  "atoi s =
     (let ds = (if s \<noteq> [] \<and> (hd s = 43 \<or> hd s = 45) then tl s else s);
          n = (if s \<noteq> [] \<and> hd s = 45 then - digits_val ds else digits_val ds) in
      if ds \<noteq> [] \<and> list_all is_digit ds \<and> - (2 ^ 63) \<le> n \<and> n < 2 ^ 63 then Some n else None)"

fun split_on :: "rune \<Rightarrow> ustring \<Rightarrow> ustring list" where
  "split_on c [] = [[]]"
| "split_on c (x # xs) =
     (if x = c then [] # split_on c xs
      else (case split_on c xs of w # ws \<Rightarrow> (x # w) # ws | [] \<Rightarrow> [[x]]))"

definition parse_bool :: "ustring \<Rightarrow> bool option" where
  "parse_bool v =
     (let s = map lower_ascii (trim_space v) in
      if s \<in> set (map runes [''1'', ''true'', ''yes'', ''on'']) then Some True
      else if s \<in> set (map runes [''0'', ''false'', ''no'', ''off'']) then Some False
      else None)"

section \<open>The registry\<close>

datatype kind = KindString | KindInt | KindBool | KindSecret | KindEnum

datatype validator = NoCheck | NotEmpty | IntRange int int | ListenAddr | TrustedProxies

record setting =
  st_key :: string
  st_section :: string
  st_kind :: kind
  st_default :: ustring
  st_options :: "ustring list"
  st_validate :: validator

definition mk_setting :: "string \<Rightarrow> string \<Rightarrow> kind \<Rightarrow> string \<Rightarrow> ustring list \<Rightarrow> validator \<Rightarrow> setting" where
  "mk_setting k sec kd d os v =
     \<lparr>st_key = k, st_section = sec, st_kind = kd, st_default = runes d, st_options = os, st_validate = v\<rparr>"

abbreviation KeyServerName :: string where "KeyServerName \<equiv> ''server.name''"
abbreviation KeyServerWelcome :: string where "KeyServerWelcome \<equiv> ''server.welcome''"
abbreviation KeyServerPassword :: string where "KeyServerPassword \<equiv> ''server.password''"
abbreviation KeyServerMaxUsers :: string where "KeyServerMaxUsers \<equiv> ''server.max_users''"
abbreviation KeyListenAddr :: string where "KeyListenAddr \<equiv> ''network.listen_addr''"
abbreviation KeyPublicHost :: string where "KeyPublicHost \<equiv> ''network.public_host''"
abbreviation KeyHeartbeatSec :: string where "KeyHeartbeatSec \<equiv> ''network.heartbeat_sec''"
abbreviation KeyMaxConnsPerIP :: string where "KeyMaxConnsPerIP \<equiv> ''network.max_conns_per_ip''"
abbreviation KeyHandshakePerMinute :: string where "KeyHandshakePerMinute \<equiv> ''network.handshake_per_minute''"
abbreviation KeyHandshakeBurst :: string where "KeyHandshakeBurst \<equiv> ''network.handshake_burst''"
abbreviation KeyTrustedProxies :: string where "KeyTrustedProxies \<equiv> ''network.trusted_proxies''"
abbreviation KeyTLSEnabled :: string where "KeyTLSEnabled \<equiv> ''tls.enabled''"
abbreviation KeyTLSCertFile :: string where "KeyTLSCertFile \<equiv> ''tls.cert_file''"
abbreviation KeyTLSKeyFile :: string where "KeyTLSKeyFile \<equiv> ''tls.key_file''"
abbreviation KeyBackupDir :: string where "KeyBackupDir \<equiv> ''backup.dir''"
abbreviation KeyBackupKeep :: string where "KeyBackupKeep \<equiv> ''backup.keep''"
abbreviation KeyUsernameMinLen :: string where "KeyUsernameMinLen \<equiv> ''users.username_min_len''"
abbreviation KeyUsernameMaxLen :: string where "KeyUsernameMaxLen \<equiv> ''users.username_max_len''"
abbreviation KeyRoomsMaxPerServer :: string where "KeyRoomsMaxPerServer \<equiv> ''rooms.max_per_server''"
abbreviation KeyRoomsDefaultMaxUsers :: string where "KeyRoomsDefaultMaxUsers \<equiv> ''rooms.default_max_users''"
abbreviation KeyRoomsHistoryLimit :: string where "KeyRoomsHistoryLimit \<equiv> ''rooms.history_limit''"
abbreviation KeyRoomsPurgeOnEmpty :: string where "KeyRoomsPurgeOnEmpty \<equiv> ''rooms.purge_on_empty''"
abbreviation KeyRoomsPurgeGraceSec :: string where "KeyRoomsPurgeGraceSec \<equiv> ''rooms.purge_grace_sec''"
abbreviation KeyChatMaxMessageLen :: string where "KeyChatMaxMessageLen \<equiv> ''chat.max_message_len''"
abbreviation KeyChatRatePerMinute :: string where "KeyChatRatePerMinute \<equiv> ''chat.rate_per_minute''"
abbreviation KeyChatRateBurst :: string where "KeyChatRateBurst \<equiv> ''chat.rate_burst''"
abbreviation KeyChatStickersEnabled :: string where "KeyChatStickersEnabled \<equiv> ''chat.stickers_enabled''"
abbreviation KeyUploadsEnabled :: string where "KeyUploadsEnabled \<equiv> ''uploads.enabled''"
abbreviation KeyUploadsMaxSizeMB :: string where "KeyUploadsMaxSizeMB \<equiv> ''uploads.max_size_mb''"
abbreviation KeyUploadsRoomQuotaMB :: string where "KeyUploadsRoomQuotaMB \<equiv> ''uploads.room_quota_mb''"
abbreviation KeyUploadsDir :: string where "KeyUploadsDir \<equiv> ''uploads.dir''"
abbreviation KeyUploadsTokenTTLSec :: string where "KeyUploadsTokenTTLSec \<equiv> ''uploads.token_ttl_sec''"
abbreviation KeyUploadsThumbMaxPx :: string where "KeyUploadsThumbMaxPx \<equiv> ''uploads.thumb_max_px''"
abbreviation KeyAvatarsEnabled :: string where "KeyAvatarsEnabled \<equiv> ''uploads.avatars_enabled''"
abbreviation KeyAvatarsDir :: string where "KeyAvatarsDir \<equiv> ''uploads.avatars_dir''"
abbreviation KeyPaintEnabled :: string where "KeyPaintEnabled \<equiv> ''paint.enabled''"
abbreviation KeyPaintMaxStrokes :: string where "KeyPaintMaxStrokes \<equiv> ''paint.max_strokes''"
abbreviation KeyPaintRatePerSecond :: string where "KeyPaintRatePerSecond \<equiv> ''paint.rate_per_second''"
abbreviation KeyPaintRateBurst :: string where "KeyPaintRateBurst \<equiv> ''paint.rate_burst''"
abbreviation KeyLiveKitEnabled :: string where "KeyLiveKitEnabled \<equiv> ''livekit.enabled''"
abbreviation KeyLiveKitURL :: string where "KeyLiveKitURL \<equiv> ''livekit.url''"
abbreviation KeyLiveKitAPIURL :: string where "KeyLiveKitAPIURL \<equiv> ''livekit.api_url''"
abbreviation KeyLiveKitAPIKey :: string where "KeyLiveKitAPIKey \<equiv> ''livekit.api_key''"
abbreviation KeyLiveKitAPISecret :: string where "KeyLiveKitAPISecret \<equiv> ''livekit.api_secret''"
abbreviation KeyBotsDir :: string where "KeyBotsDir \<equiv> ''bots.dir''"
abbreviation KeyBotsMaxTrackMB :: string where "KeyBotsMaxTrackMB \<equiv> ''bots.max_track_mb''"
abbreviation KeyBotsQuotaMB :: string where "KeyBotsQuotaMB \<equiv> ''bots.quota_mb''"
abbreviation KeyLogLevel :: string where "KeyLogLevel \<equiv> ''log.level''"

definition base_settings :: "setting list" where
  "base_settings = [
     mk_setting KeyServerName ''server'' KindString ''TamizChat Server'' [] NotEmpty,
     mk_setting KeyServerWelcome ''server'' KindString ''Welcome to the server!'' [] NoCheck,
     mk_setting KeyServerPassword ''server'' KindSecret '''' [] NoCheck,
     mk_setting KeyServerMaxUsers ''server'' KindInt ''200'' [] (IntRange 1 100000),
     mk_setting KeyListenAddr ''network'' KindString '':8080'' [] ListenAddr,
     mk_setting KeyPublicHost ''network'' KindString '''' [] NoCheck,
     mk_setting KeyHeartbeatSec ''network'' KindInt ''30'' [] (IntRange 5 600),
     mk_setting KeyMaxConnsPerIP ''network'' KindInt ''8'' [] (IntRange 0 10000),
     mk_setting KeyHandshakePerMinute ''network'' KindInt ''60'' [] (IntRange 1 10000),
     mk_setting KeyHandshakeBurst ''network'' KindInt ''15'' [] (IntRange 1 1000),
     mk_setting KeyTrustedProxies ''network'' KindString '''' [] TrustedProxies,
     mk_setting KeyTLSEnabled ''tls'' KindBool ''false'' [] NoCheck,
     mk_setting KeyTLSCertFile ''tls'' KindString '''' [] NoCheck,
     mk_setting KeyTLSKeyFile ''tls'' KindString '''' [] NoCheck,
     mk_setting KeyBackupDir ''backup'' KindString ''data/backups'' [] NotEmpty,
     mk_setting KeyBackupKeep ''backup'' KindInt ''10'' [] (IntRange 1 1000),
     mk_setting KeyUsernameMinLen ''users'' KindInt ''3'' [] (IntRange 1 64),
     mk_setting KeyUsernameMaxLen ''users'' KindInt ''24'' [] (IntRange 1 64),
     mk_setting KeyRoomsMaxPerServer ''rooms'' KindInt ''50'' [] (IntRange 1 10000),
     mk_setting KeyRoomsDefaultMaxUsers ''rooms'' KindInt ''25'' [] (IntRange 1 5000),
     mk_setting KeyRoomsHistoryLimit ''rooms'' KindInt ''500'' [] (IntRange 10 100000),
     mk_setting KeyRoomsPurgeOnEmpty ''rooms'' KindBool ''true'' [] NoCheck,
     mk_setting KeyRoomsPurgeGraceSec ''rooms'' KindInt ''30'' [] (IntRange 0 86400)]"

definition feature_settings :: "setting list" where
  "feature_settings = [
     mk_setting KeyChatMaxMessageLen ''chat'' KindInt ''2000'' [] (IntRange 1 20000),
     mk_setting KeyChatRatePerMinute ''chat'' KindInt ''30'' [] (IntRange 1 600),
     mk_setting KeyChatRateBurst ''chat'' KindInt ''5'' [] (IntRange 1 100),
     mk_setting KeyChatStickersEnabled ''chat'' KindBool ''true'' [] NoCheck,
     mk_setting KeyUploadsEnabled ''uploads'' KindBool ''true'' [] NoCheck,
     mk_setting KeyUploadsMaxSizeMB ''uploads'' KindInt ''25'' [] (IntRange 1 2048),
     mk_setting KeyUploadsRoomQuotaMB ''uploads'' KindInt ''512'' [] (IntRange 1 102400),
     mk_setting KeyUploadsDir ''uploads'' KindString ''data/uploads'' [] NotEmpty,
     mk_setting KeyUploadsTokenTTLSec ''uploads'' KindInt ''300'' [] (IntRange 10 86400),
     mk_setting KeyUploadsThumbMaxPx ''uploads'' KindInt ''320'' [] (IntRange 32 2048),
     mk_setting KeyAvatarsEnabled ''uploads'' KindBool ''true'' [] NoCheck,
     mk_setting KeyAvatarsDir ''uploads'' KindString ''data/avatars'' [] NotEmpty,
     mk_setting KeyPaintEnabled ''paint'' KindBool ''true'' [] NoCheck,
     mk_setting KeyPaintMaxStrokes ''paint'' KindInt ''2000'' [] (IntRange 10 100000),
     mk_setting KeyPaintRatePerSecond ''paint'' KindInt ''40'' [] (IntRange 1 500),
     mk_setting KeyPaintRateBurst ''paint'' KindInt ''80'' [] (IntRange 1 1000),
     mk_setting KeyLiveKitEnabled ''livekit'' KindBool ''false'' [] NoCheck,
     mk_setting KeyLiveKitURL ''livekit'' KindString '''' [] NoCheck,
     mk_setting KeyLiveKitAPIURL ''livekit'' KindString '''' [] NoCheck,
     mk_setting KeyLiveKitAPIKey ''livekit'' KindString '''' [] NoCheck,
     mk_setting KeyLiveKitAPISecret ''livekit'' KindSecret '''' [] NoCheck,
     mk_setting KeyBotsDir ''bots'' KindString ''bots'' [] NotEmpty,
     mk_setting KeyBotsMaxTrackMB ''bots'' KindInt ''30'' [] (IntRange 1 2048),
     mk_setting KeyBotsQuotaMB ''bots'' KindInt ''2048'' [] (IntRange 1 1048576),
     mk_setting KeyLogLevel ''log'' KindEnum ''info'' [runes ''debug'', runes ''info'', runes ''warn'', runes ''error''] NoCheck]"

definition registry :: "setting list" where
  "registry = base_settings @ feature_settings"

lemmas registry_defs = registry_def base_settings_def feature_settings_def mk_setting_def

definition lookup_setting :: "string \<Rightarrow> setting option" where
  "lookup_setting k = find (\<lambda>s. st_key s = k) registry"

definition by_section :: "string \<Rightarrow> setting list" where
  "by_section sec = filter (\<lambda>s. st_section s = sec) registry"

section \<open>Checking a value\<close>

datatype config_error =
    NotANumber string | NotABool string | NotAnOption string
  | EmptyValue | NotInRange int int | BadAddress | BadProxy
  | UnknownKey string | InvalidStored config_error | ConfigStore

definition validate :: "(ustring \<Rightarrow> bool) \<Rightarrow> string \<Rightarrow> validator \<Rightarrow> ustring \<Rightarrow> config_error option" where
  "validate valid_proxy k vd v =
     (case vd of
        NoCheck \<Rightarrow> None
      | NotEmpty \<Rightarrow> if trim_space v = [] then Some EmptyValue else None
      | IntRange lo hi \<Rightarrow>
          (case atoi (trim_space v) of
             None \<Rightarrow> Some (NotANumber k)
           | Some n \<Rightarrow> if n < lo \<or> n > hi then Some (NotInRange lo hi) else None)
      | ListenAddr \<Rightarrow>
          if trim_space v = [] then Some EmptyValue
          else if split_host v = None then Some BadAddress else None
      | TrustedProxies \<Rightarrow>
          if list_all (\<lambda>entry. trim_space entry = [] \<or> valid_proxy (trim_space entry)) (split_on 44 v)
          then None else Some BadProxy)"

definition check_value :: "(ustring \<Rightarrow> bool) \<Rightarrow> setting \<Rightarrow> ustring \<Rightarrow> config_error option" where
  "check_value valid_proxy s v =
     (case st_kind s of
        KindInt \<Rightarrow> if atoi (trim_space v) = None then Some (NotANumber (st_key s))
                   else validate valid_proxy (st_key s) (st_validate s) v
      | KindBool \<Rightarrow> if parse_bool v = None then Some (NotABool (st_key s))
                    else validate valid_proxy (st_key s) (st_validate s) v
      | KindEnum \<Rightarrow> if v \<notin> set (st_options s) then Some (NotAnOption (st_key s))
                    else validate valid_proxy (st_key s) (st_validate s) v
      | _ \<Rightarrow> validate valid_proxy (st_key s) (st_validate s) v)"

section \<open>The live values\<close>

type_synonym config = "(string, ustring) gomap"

definition defaults :: config where
  "defaults = fold (\<lambda>s m. mput (st_key s) (st_default s) m) registry []"

definition cfg_string :: "config \<Rightarrow> string \<Rightarrow> ustring" where
  "cfg_string c k = (case mget c k of None \<Rightarrow> [] | Some v \<Rightarrow> v)"

definition cfg_int :: "config \<Rightarrow> string \<Rightarrow> int" where
  "cfg_int c k =
     (case atoi (trim_space (cfg_string c k)) of
        Some n \<Rightarrow> n
      | None \<Rightarrow>
          (case lookup_setting k of
             None \<Rightarrow> 0
           | Some s \<Rightarrow> (case atoi (st_default s) of Some d \<Rightarrow> d | None \<Rightarrow> 0)))"

definition cfg_bool :: "config \<Rightarrow> string \<Rightarrow> bool" where
  "cfg_bool c k \<longleftrightarrow> parse_bool (cfg_string c k) = Some True"

definition username_limits :: "config \<Rightarrow> int \<times> int" where
  "username_limits c =
     (let lo = cfg_int c KeyUsernameMinLen; hi = cfg_int c KeyUsernameMaxLen in
      if lo > hi then (hi, lo) else (lo, hi))"

text \<open>A stored key the registry does not know is skipped; a stored value that fails its check ends
  the load.\<close>

fun overlay :: "(ustring \<Rightarrow> bool) \<Rightarrow> (string \<times> ustring) list \<Rightarrow> config \<Rightarrow> config_error + config" where
  "overlay vp [] vs = Inr vs"
| "overlay vp ((k, v) # saved) vs =
     (case lookup_setting k of
        None \<Rightarrow> overlay vp saved vs
      | Some s \<Rightarrow>
          (case check_value vp s v of
             Some err \<Rightarrow> Inl (InvalidStored err)
           | None \<Rightarrow> overlay vp saved (mput k v vs)))"

definition load_config :: "env \<Rightarrow> (ustring \<Rightarrow> bool) \<Rightarrow> db \<Rightarrow> config_error + config" where
  "load_config e vp d =
     (case db_load_settings e d of
        Inl _ \<Rightarrow> Inl ConfigStore
      | Inr saved \<Rightarrow> overlay vp saved defaults)"

definition reload_config ::
  "env \<Rightarrow> (ustring \<Rightarrow> bool) \<Rightarrow> db \<Rightarrow> config \<Rightarrow> config \<times> (config_error + nat)" where
  "reload_config e vp d c =
     (case load_config e vp d of
        Inl err \<Rightarrow> (c, Inl err)
      | Inr fresh \<Rightarrow> (fresh, Inr (length (filter (\<lambda>(k, v). cfg_string c k \<noteq> v) fresh))))"

definition set_config ::
  "env \<Rightarrow> (ustring \<Rightarrow> bool) \<Rightarrow> string \<Rightarrow> ustring \<Rightarrow> db \<times> config \<Rightarrow> (db \<times> config) \<times> config_error option" where
  "set_config e vp k v w =
     (case lookup_setting k of
        None \<Rightarrow> (w, Some (UnknownKey k))
      | Some s \<Rightarrow>
          (case check_value vp s (trim_space v) of
             Some err \<Rightarrow> (w, Some err)
           | None \<Rightarrow>
               (case db_put_setting e k (trim_space v) (fst w) of
                  Inl _ \<Rightarrow> (w, Some ConfigStore)
                | Inr d \<Rightarrow> ((d, mput k (trim_space v) (snd w)), None))))"

definition reset_config :: "env \<Rightarrow> string \<Rightarrow> db \<times> config \<Rightarrow> (db \<times> config) \<times> config_error option" where
  "reset_config e k w =
     (case lookup_setting k of
        None \<Rightarrow> (w, Some (UnknownKey k))
      | Some s \<Rightarrow>
          (case db_delete_setting e k (fst w) of
             Inl _ \<Rightarrow> (w, Some ConfigStore)
           | Inr d \<Rightarrow> ((d, mput k (st_default s) (snd w)), None)))"

text \<open>What the panel shows: a secret is only ever shown as set or not set.\<close>

definition display :: "setting \<Rightarrow> ustring \<Rightarrow> ustring" where
  "display s v =
     (if st_kind s = KindSecret then (if v = [] then runes ''(not set)'' else replicate 8 0x2022)
      else if v = [] then runes ''(empty)'' else v)"

section \<open>Every live value passes its check\<close>

definition config_ok :: "(ustring \<Rightarrow> bool) \<Rightarrow> config \<Rightarrow> bool" where
  "config_ok vp c \<longleftrightarrow> wf_map c
     \<and> (\<forall>k. lookup_setting k = None \<longrightarrow> mget c k = None)
     \<and> (\<forall>k s. lookup_setting k = Some s \<longrightarrow> (\<exists>v. mget c k = Some v \<and> check_value vp s v = None))"

lemma lookup_setting_key: "lookup_setting k = Some s \<Longrightarrow> st_key s = k \<and> s \<in> set registry"
  by (auto simp: lookup_setting_def find_Some_iff)

lemma fold_defaults:
  "mget (fold (\<lambda>s m. mput (st_key s) (st_default s) m) ss m) k =
     (case find_by st_key k (rev ss) of None \<Rightarrow> mget m k | Some s \<Rightarrow> Some (st_default s))"
  by (induction ss arbitrary: m) (auto simp: find_by_append split: option.splits)

lemma wf_fold_defaults: "wf_map m \<Longrightarrow> wf_map (fold (\<lambda>s m. mput (st_key s) (st_default s) m) ss m)"
  by (induction ss arbitrary: m) auto

lemma registry_distinct: "distinct (map st_key registry)"
  by (simp add: registry_defs)

lemma registry_defaults_ok: "\<forall>s \<in> set registry. check_value vp s (st_default s) = None"
  unfolding registry_defs
  by (simp add: check_value_def validate_def runes_def atoi_def Let_def digits_val_def is_digit_def
      parse_bool_def lower_ascii_def trim_space_def trim_by_def is_space_def split_host_def
      colon_def lbracket_def rbracket_def)

lemma find_by_rev:
  "distinct (map key xs) \<Longrightarrow> find_by key k (rev xs) = find_by key k xs"
proof -
  assume d: "distinct (map key xs)"
  then have "distinct (map key (rev xs))" by (simp flip: rev_map)
  with d have "find_by key k (rev xs) = Some r \<longleftrightarrow> find_by key k xs = Some r" for r
    by (simp add: find_by_Some_iff)
  then show ?thesis by (metis option.exhaust)
qed

lemma lookup_find_by: "lookup_setting k = find_by st_key k registry"
  by (simp add: lookup_setting_def find_by_def)

lemma config_ok_defaults: "config_ok vp defaults"
proof -
  have "mget defaults k = (case lookup_setting k of None \<Rightarrow> None | Some s \<Rightarrow> Some (st_default s))" for k
    by (simp add: defaults_def fold_defaults find_by_rev [OF registry_distinct] lookup_find_by
        split: option.split)
  then show ?thesis
    using registry_defaults_ok [of vp] lookup_setting_key
    by (auto simp: config_ok_def defaults_def wf_fold_defaults split: option.splits)
qed

lemma config_ok_mput:
  "config_ok vp c \<Longrightarrow> lookup_setting k = Some s \<Longrightarrow> check_value vp s v = None \<Longrightarrow> config_ok vp (mput k v c)"
  by (auto simp: config_ok_def)

lemma config_ok_overlay: "overlay vp saved c = Inr c' \<Longrightarrow> config_ok vp c \<Longrightarrow> config_ok vp c'"
  by (induction vp saved c rule: overlay.induct) (auto simp: config_ok_mput split: option.splits)

inductive config_reachable :: "(ustring \<Rightarrow> bool) \<Rightarrow> db \<Rightarrow> config \<Rightarrow> bool" for vp where
  loaded: "load_config e vp d = Inr c \<Longrightarrow> config_reachable vp d c"
| set: "config_reachable vp d c \<Longrightarrow> set_config e vp k v (d, c) = ((d', c'), res) \<Longrightarrow> config_reachable vp d' c'"
| reset: "config_reachable vp d c \<Longrightarrow> reset_config e k (d, c) = ((d', c'), res) \<Longrightarrow> config_reachable vp d' c'"
| edited: "config_reachable vp d c \<Longrightarrow> config_reachable vp d' c"
| reloaded: "config_reachable vp d c \<Longrightarrow> reload_config e vp d c = (c', res) \<Longrightarrow> config_reachable vp d c'"

lemma config_ok_load: "load_config e vp d = Inr c \<Longrightarrow> config_ok vp c"
  using config_ok_overlay [OF _ config_ok_defaults] by (auto simp: load_config_def split: sum.splits)

lemma config_reachable_ok: "config_reachable vp d c \<Longrightarrow> config_ok vp c"
proof (induction rule: config_reachable.induct)
  case (loaded e d c)
  then show ?case by (rule config_ok_load)
next
  case (set d c e k v d' c' res)
  then show ?case
    by (auto simp: set_config_def config_ok_mput split: option.splits sum.splits)
next
  case (reset d c e k d' c' res)
  have "check_value vp s (st_default s) = None" if "lookup_setting k = Some s" for s
    using registry_defaults_ok that lookup_setting_key by blast
  with reset show ?case
    by (auto simp: reset_config_def config_ok_mput split: option.splits sum.splits)
next
  case (reloaded d c e c' res)
  then show ?case using config_ok_load by (auto simp: reload_config_def split: sum.splits)
qed

lemma check_int:
  assumes "config_ok vp c" "lookup_setting k = Some s" "st_validate s = IntRange lo hi"
  shows "\<exists>n. atoi (trim_space (cfg_string c k)) = Some n \<and> lo \<le> n \<and> n \<le> hi"
proof -
  obtain v where v: "mget c k = Some v" "check_value vp s v = None"
    using assms(1,2) by (fastforce simp: config_ok_def split: option.splits)
  then have "validate vp (st_key s) (IntRange lo hi) v = None"
    by (simp add: check_value_def assms(3) split: kind.splits if_splits)
  then show ?thesis by (auto simp: validate_def cfg_string_def v(1) split: option.splits if_splits)
qed

text \<open>C33. Whatever the operator stores, edits in the database, sets, resets and reloads, every numeric
  setting the running server reads is within the bounds its registry entry declares, and it is the
  configured value, never the fallback; every boolean setting parses.\<close>

theorem config_values_in_range:
  assumes "config_reachable vp d c" "lookup_setting k = Some s"
  shows "(\<forall>lo hi. st_validate s = IntRange lo hi \<longrightarrow>
            lo \<le> cfg_int c k \<and> cfg_int c k \<le> hi
            \<and> atoi (trim_space (cfg_string c k)) = Some (cfg_int c k))
    \<and> (st_kind s = KindBool \<longrightarrow> parse_bool (cfg_string c k) = Some (cfg_bool c k))"
proof -
  note ok = config_reachable_ok [OF assms(1)]
  have "parse_bool (cfg_string c k) \<noteq> None" if "st_kind s = KindBool"
  proof -
    obtain v where "mget c k = Some v" "check_value vp s v = None"
      using ok assms(2) by (fastforce simp: config_ok_def split: option.splits)
    with that show ?thesis by (simp add: check_value_def cfg_string_def split: if_splits)
  qed
  moreover have "lo \<le> cfg_int c k \<and> cfg_int c k \<le> hi \<and> atoi (trim_space (cfg_string c k)) = Some (cfg_int c k)"
    if "st_validate s = IntRange lo hi" for lo hi
    using check_int [OF ok assms(2) that] by (auto simp: cfg_int_def)
  ultimately show ?thesis by (auto simp: cfg_bool_def)
qed

theorem config_values_in_range_witness:
  "\<exists>c. load_config (quiet_env [] 0) (\<lambda>_. False) empty_db = Inr c
     \<and> 0 \<le> cfg_int c KeyRoomsPurgeGraceSec \<and> cfg_int c KeyRoomsPurgeGraceSec \<le> 86400"
proof -
  have l: "load_config (quiet_env [] 0) (\<lambda>_. False) empty_db = Inr defaults"
    by (simp add: load_config_def db_load_settings_def quiet_env_def empty_db_def)
  have "\<exists>s. lookup_setting KeyRoomsPurgeGraceSec = Some s \<and> st_validate s = IntRange 0 86400"
    by (simp add: lookup_setting_def registry_defs)
  then obtain s where s: "lookup_setting KeyRoomsPurgeGraceSec = Some s" "st_validate s = IntRange 0 86400"
    by blast
  from config_values_in_range [OF config_reachable.loaded [OF l] s(1)] s(2) l show ?thesis by auto
qed

end
