(* ===== verification/Session.thy ===== *)
theory Session
  imports Protocol Config
begin

text \<open>
  The connected clients, \<open>internal/session/session.go\<close> and \<open>manager.go\<close>. A \<open>*Session\<close> is a
  reference into a heap, so that two managers that hold the same session see the same fields, and
  \<open>cur == s\<close> is equality of references. The outbound channel is the list of the frames queued and
  not yet written; the write pump takes from its front. The registry is the Go map from client id
  to session.

  \<open>strings.ToLower\<close> on names is the parameter \<open>lower\<close>: only equality of its results is used.
\<close>

section \<open>State\<close>

type_synonym sref = nat

record session =
  s_id :: string
  s_uuid :: uuid
  s_remote :: ustring
  s_joined :: int
  s_username :: ustring
  s_avatar :: string
  s_room :: string
  s_roles :: "string list"
  s_muted :: bool
  s_media :: media_state
  s_closed :: bool
  s_reason :: string
  s_out :: "frame list"

type_synonym heap = "sref \<Rightarrow> session"

record net =
  heap :: heap
  next_ref :: sref
  live :: "(uuid, sref) gomap"

definition outbound_buffer :: nat where "outbound_buffer = 64"

section \<open>One session\<close>

definition new_session :: "string \<Rightarrow> uuid \<Rightarrow> ustring \<Rightarrow> ustring \<Rightarrow> int \<Rightarrow> session" where
  "new_session i u name remote now =
     \<lparr>s_id = i, s_uuid = u, s_remote = remote, s_joined = now, s_username = name, s_avatar = [],
      s_room = [], s_roles = [], s_muted = False, s_media = no_media, s_closed = False,
      s_reason = [], s_out = []\<rparr>"

definition on_heap :: "sref \<Rightarrow> (session \<Rightarrow> session) \<Rightarrow> heap \<Rightarrow> heap" where
  "on_heap r f h = h(r := f (h r))"

definition at_session :: "sref \<Rightarrow> (session \<Rightarrow> session) \<Rightarrow> 'a net_scheme \<Rightarrow> 'a net_scheme" where
  "at_session r f w = w\<lparr>heap := on_heap r f (heap w)\<rparr>"

definition set_username :: "sref \<Rightarrow> ustring \<Rightarrow> 'a net_scheme \<Rightarrow> 'a net_scheme" where
  "set_username r name = at_session r (\<lambda>s. s\<lparr>s_username := name\<rparr>)"

definition set_avatar :: "sref \<Rightarrow> string \<Rightarrow> 'a net_scheme \<Rightarrow> 'a net_scheme" where
  "set_avatar r tag = at_session r (\<lambda>s. s\<lparr>s_avatar := tag\<rparr>)"

definition set_room :: "sref \<Rightarrow> string \<Rightarrow> 'a net_scheme \<Rightarrow> 'a net_scheme" where
  "set_room r i = at_session r (\<lambda>s. s\<lparr>s_room := i\<rparr>)"

definition set_roles :: "sref \<Rightarrow> string list \<Rightarrow> 'a net_scheme \<Rightarrow> 'a net_scheme" where
  "set_roles r ids = at_session r (\<lambda>s. s\<lparr>s_roles := ids\<rparr>)"

definition set_muted :: "sref \<Rightarrow> bool \<Rightarrow> 'a net_scheme \<Rightarrow> 'a net_scheme" where
  "set_muted r b = at_session r (\<lambda>s. s\<lparr>s_muted := b\<rparr>)"

definition set_media :: "sref \<Rightarrow> media_state \<Rightarrow> 'a net_scheme \<Rightarrow> 'a net_scheme" where
  "set_media r m = at_session r (\<lambda>s. s\<lparr>s_media := m\<rparr>)"

definition user_of :: "session \<Rightarrow> user" where
  "user_of s = \<lparr>u_uuid = s_uuid s, u_username = s_username s, u_joined_at = unix (s_joined s),
     u_room_id = s_room s, u_roles = s_roles s, u_muted = s_muted s, u_avatar = s_avatar s,
     u_media = s_media s\<rparr>"

definition session_user :: "'a net_scheme \<Rightarrow> sref \<Rightarrow> user" where
  "session_user w r = user_of (heap w r)"

text \<open>The first reason wins: closing a closed session changes nothing.\<close>

definition close_with :: "string \<Rightarrow> session \<Rightarrow> session" where
  "close_with reason s = (if s_closed s then s else s\<lparr>s_closed := True, s_reason := reason\<rparr>)"

abbreviation ReasonClientLeft :: string where "ReasonClientLeft \<equiv> ''client_left''"
abbreviation ReasonReplaced :: string where "ReasonReplaced \<equiv> ''replaced_by_new_connection''"
abbreviation ReasonTimeout :: string where "ReasonTimeout \<equiv> ''timeout''"
abbreviation ReasonShutdown :: string where "ReasonShutdown \<equiv> ''server_shutdown''"
abbreviation ReasonSlow :: string where "ReasonSlow \<equiv> ''slow_consumer''"
abbreviation ReasonKicked :: string where "ReasonKicked \<equiv> ''kicked''"
abbreviation ReasonBanned :: string where "ReasonBanned \<equiv> ''banned''"

definition push :: "frame \<Rightarrow> session \<Rightarrow> session" where
  "push f s =
     (if s_closed s then s
      else if length (s_out s) < outbound_buffer then s\<lparr>s_out := s_out s @ [f]\<rparr>
      else close_with ReasonSlow s)"

definition accepts :: "session \<Rightarrow> bool" where
  "accepts s \<longleftrightarrow> \<not> s_closed s \<and> length (s_out s) < outbound_buffer"

definition send :: "sref \<Rightarrow> frame \<Rightarrow> 'a net_scheme \<Rightarrow> 'a net_scheme" where
  "send r f = at_session r (push f)"

definition send_message :: "sref \<Rightarrow> string \<Rightarrow> string \<Rightarrow> payload \<Rightarrow> 'a net_scheme \<Rightarrow> 'a net_scheme" where
  "send_message r ty i p = send r (encode ty i p)"

definition send_error :: "sref \<Rightarrow> string \<Rightarrow> string \<Rightarrow> 'a net_scheme \<Rightarrow> 'a net_scheme" where
  "send_error r i code = send_message r ''error'' i (PError code)"

definition close_session :: "sref \<Rightarrow> string \<Rightarrow> 'a net_scheme \<Rightarrow> 'a net_scheme" where
  "close_session r reason = at_session r (close_with reason)"

text \<open>The write pump takes the next frame off the queue.\<close>

definition pump_one :: "sref \<Rightarrow> 'a net_scheme \<Rightarrow> 'a net_scheme \<times> frame option" where
  "pump_one r w =
     (case s_out (heap w r) of
        [] \<Rightarrow> (w, None)
      | f # fs \<Rightarrow> (at_session r (\<lambda>s. s\<lparr>s_out := fs\<rparr>) w, Some f))"

section \<open>The registry\<close>

definition alloc :: "session \<Rightarrow> 'a net_scheme \<Rightarrow> 'a net_scheme \<times> sref" where
  "alloc s w = (w\<lparr>heap := (heap w)(next_ref w := s), next_ref := Suc (next_ref w)\<rparr>, next_ref w)"

datatype session_error = ErrServerFull

definition add_session :: "int \<Rightarrow> sref \<Rightarrow> 'a net_scheme \<Rightarrow> 'a net_scheme \<times> (session_error + sref option)" where
  "add_session max_users r w =
     (let u = s_uuid (heap w r) in
      case mget (live w) u of
        Some old \<Rightarrow> ((close_session old ReasonReplaced w)\<lparr>live := mput u r (live w)\<rparr>, Inr (Some old))
      | None \<Rightarrow>
          if max_users > 0 \<and> int (length (live w)) \<ge> max_users then (w, Inl ErrServerFull)
          else (w\<lparr>live := mput u r (live w)\<rparr>, Inr None))"

definition remove_session :: "sref \<Rightarrow> 'a net_scheme \<Rightarrow> 'a net_scheme \<times> bool" where
  "remove_session r w =
     (let u = s_uuid (heap w r) in
      if mget (live w) u = Some r then (w\<lparr>live := mdel u (live w)\<rparr>, True) else (w, False))"

definition get_session :: "'a net_scheme \<Rightarrow> uuid \<Rightarrow> sref option" where
  "get_session w u = mget (live w) u"

definition username_taken :: "(ustring \<Rightarrow> ustring) \<Rightarrow> 'a net_scheme \<Rightarrow> ustring \<Rightarrow> uuid \<Rightarrow> bool" where
  "username_taken lower w name except \<longleftrightarrow>
     list_ex (\<lambda>(u, r). u \<noteq> except \<and> lower (s_username (heap w r)) = lower name) (live w)"

text \<open>\<open>sort.Slice\<close> by lower-case name. It leaves the order of equal names open; here they keep the
  order they came in.\<close>

fun insert_user :: "(ustring \<Rightarrow> ustring) \<Rightarrow> user \<Rightarrow> user list \<Rightarrow> user list" where
  "insert_user lower u [] = [u]"
| "insert_user lower u (v # us) =
     (if text_le (lower (u_username u)) (lower (u_username v)) then u # v # us
      else v # insert_user lower u us)"

definition sort_users :: "(ustring \<Rightarrow> ustring) \<Rightarrow> user list \<Rightarrow> user list" where
  "sort_users lower us = foldr (insert_user lower) us []"

definition all_users :: "(ustring \<Rightarrow> ustring) \<Rightarrow> 'a net_scheme \<Rightarrow> user list" where
  "all_users lower w = sort_users lower (map (session_user w) (vals (live w)))"

text \<open>Queue a frame for each of a list of sessions but those the guard skips.\<close>

definition push_all :: "(sref \<Rightarrow> bool) \<Rightarrow> frame \<Rightarrow> sref list \<Rightarrow> heap \<Rightarrow> heap" where
  "push_all skip f rs h = fold (\<lambda>r h. if skip r then h else on_heap r (push f) h) rs h"

definition broadcast :: "string \<Rightarrow> payload \<Rightarrow> uuid \<Rightarrow> 'a net_scheme \<Rightarrow> 'a net_scheme" where
  "broadcast ty p except w =
     w\<lparr>heap := push_all (\<lambda>r. s_uuid (heap w r) = except) (encode ty [] p) (vals (live w)) (heap w)\<rparr>"

definition close_all :: "string \<Rightarrow> 'a net_scheme \<Rightarrow> 'a net_scheme" where
  "close_all reason w =
     w\<lparr>heap := fold (\<lambda>r. on_heap r (close_with reason)) (vals (live w)) (heap w)\<rparr>"

end
