(* ===== verification/Session_Correct.thy ===== *)
theory Session_Correct
  imports Session
begin

text \<open>
  What holds of the connected clients: the registry maps an id to the one session that carries it,
  a queue never grows past its buffer, a broadcast reaches every registered client once, and a
  replaced session can no longer take its successor out of the registry. \<open>net_frame\<close> collects what
  the operations leave alone; the room manager and the handlers use it.
\<close>

named_theorems net_frame "fields an operation on sessions does not touch"

section \<open>What the operations leave alone\<close>

lemma on_heap_same [simp]: "on_heap r f h r = f (h r)"
  and on_heap_other: "x \<noteq> r \<Longrightarrow> on_heap r f h x = h x"
  by (simp_all add: on_heap_def)

lemma on_heap_apply: "on_heap r f h x = (if x = r then f (h r) else h x)"
  by (simp add: on_heap_def)

lemma close_with_fields [simp, net_frame]:
  "s_uuid (close_with reason s) = s_uuid s" "s_room (close_with reason s) = s_room s"
  "s_username (close_with reason s) = s_username s" "s_out (close_with reason s) = s_out s"
  "s_muted (close_with reason s) = s_muted s" "s_roles (close_with reason s) = s_roles s"
  "s_media (close_with reason s) = s_media s" "s_closed (close_with reason s)"
  "user_of (close_with reason s) = user_of s"
  by (simp_all add: close_with_def user_of_def)

lemma push_fields [simp, net_frame]:
  "s_uuid (push f s) = s_uuid s" "s_room (push f s) = s_room s"
  "s_username (push f s) = s_username s" "s_muted (push f s) = s_muted s"
  "s_roles (push f s) = s_roles s" "s_media (push f s) = s_media s"
  "user_of (push f s) = user_of s"
  by (simp_all add: push_def user_of_def close_with_def)

lemma push_all_field:
  assumes "\<And>s. g (push f s) = g s"
  shows "g (push_all skip f rs h r) = g (h r)"
  unfolding push_all_def by (induction rs arbitrary: h) (auto simp: on_heap_apply assms)

lemma push_all_fields [simp, net_frame]:
  "s_uuid (push_all skip f rs h r) = s_uuid (h r)" "s_room (push_all skip f rs h r) = s_room (h r)"
  "s_username (push_all skip f rs h r) = s_username (h r)" "s_muted (push_all skip f rs h r) = s_muted (h r)"
  "s_roles (push_all skip f rs h r) = s_roles (h r)" "s_media (push_all skip f rs h r) = s_media (h r)"
  "user_of (push_all skip f rs h r) = user_of (h r)"
  by (rule push_all_field, simp)+

lemma broadcast_fields [simp, net_frame]:
  "live (broadcast ty p ex w) = live w" "next_ref (broadcast ty p ex w) = next_ref w"
  "s_uuid (heap (broadcast ty p ex w) r) = s_uuid (heap w r)"
  "s_room (heap (broadcast ty p ex w) r) = s_room (heap w r)"
  "s_username (heap (broadcast ty p ex w) r) = s_username (heap w r)"
  "s_muted (heap (broadcast ty p ex w) r) = s_muted (heap w r)"
  "s_roles (heap (broadcast ty p ex w) r) = s_roles (heap w r)"
  "s_media (heap (broadcast ty p ex w) r) = s_media (heap w r)"
  "user_of (heap (broadcast ty p ex w) r) = user_of (heap w r)"
  by (simp_all add: broadcast_def)

lemma at_session_live [simp, net_frame]:
  "live (at_session r f w) = live w" "next_ref (at_session r f w) = next_ref w"
  by (simp_all add: at_session_def)

lemma heap_at_session: "heap (at_session r f w) x = (if x = r then f (heap w r) else heap w x)"
  by (simp add: at_session_def on_heap_apply)

lemma send_fields [simp, net_frame]:
  "live (send r f w) = live w" "next_ref (send r f w) = next_ref w"
  "s_uuid (heap (send r f w) x) = s_uuid (heap w x)"
  "s_room (heap (send r f w) x) = s_room (heap w x)"
  "s_username (heap (send r f w) x) = s_username (heap w x)"
  "s_muted (heap (send r f w) x) = s_muted (heap w x)"
  "s_roles (heap (send r f w) x) = s_roles (heap w x)"
  "s_media (heap (send r f w) x) = s_media (heap w x)"
  "user_of (heap (send r f w) x) = user_of (heap w x)"
  by (simp_all add: send_def heap_at_session)

section \<open>Queues\<close>

definition queue_ok :: "session \<Rightarrow> bool" where
  "queue_ok s \<longleftrightarrow> length (s_out s) \<le> outbound_buffer"

lemma queue_ok_push [simp]: "queue_ok s \<Longrightarrow> queue_ok (push f s)"
  by (auto simp: queue_ok_def push_def)

lemma queue_ok_close [simp]: "queue_ok (close_with reason s) = queue_ok s"
  by (simp add: queue_ok_def)

lemma queue_ok_push_all: "\<forall>r. queue_ok (h r) \<Longrightarrow> queue_ok (push_all skip f rs h r)"
  unfolding push_all_def by (induction rs arbitrary: h) (auto simp: on_heap_apply)

lemma push_all_at:
  "distinct rs \<Longrightarrow> push_all skip f rs h r = (if r \<in> set rs \<and> \<not> skip r then push f (h r) else h r)"
  unfolding push_all_def by (induction rs arbitrary: h) (auto simp: on_heap_apply)

lemma push_all_closed:
  "s_closed (h r) \<Longrightarrow> push_all skip f rs h r = h r"
proof (induction rs arbitrary: h)
  case (Cons a rs)
  have "on_heap a (push f) h r = h r" using Cons.prems by (auto simp: on_heap_apply push_def)
  then have "s_closed (on_heap a (push f) h r)" using Cons.prems by simp
  with Cons.IH [of "on_heap a (push f) h"] Cons.IH [of h] Cons.prems
    \<open>on_heap a (push f) h r = h r\<close>
  show ?case by (simp add: push_all_def)
qed (simp add: push_all_def)

lemma fold_close_at:
  "fold (\<lambda>r. on_heap r (close_with reason)) rs h x = (if x \<in> set rs then close_with reason (h x) else h x)"
  by (induction rs arbitrary: h) (auto simp: on_heap_apply close_with_def)

section \<open>The registry\<close>

definition wf_net :: "'a net_scheme \<Rightarrow> bool" where
  "wf_net w \<longleftrightarrow> wf_map (live w)
     \<and> (\<forall>u r. mget (live w) u = Some r \<longrightarrow> r < next_ref w \<and> s_uuid (heap w r) = u)
     \<and> (\<forall>r. queue_ok (heap w r))"

lemma wf_net_live: "wf_net w \<Longrightarrow> mget (live w) u = Some r \<Longrightarrow> r < next_ref w \<and> s_uuid (heap w r) = u"
  by (simp add: wf_net_def)

lemma live_mem: "wf_net w \<Longrightarrow> r \<in> snd ` set (live w) \<longleftrightarrow> mget (live w) (s_uuid (heap w r)) = Some r"
  using vals_wf [of "live w" r] unfolding wf_net_def by blast

lemma distinct_live: "wf_net w \<Longrightarrow> distinct (vals (live w))"
proof -
  assume wf: "wf_net w"
  then have "distinct (live w)" by (auto simp: wf_net_def wf_map_def distinct_map)
  moreover have "inj_on snd (set (live w))"
  proof (rule inj_onI)
    fix p q assume pq: "p \<in> set (live w)" "q \<in> set (live w)" "snd p = snd q"
    have "(fst p, snd p) \<in> set (live w)" "(fst q, snd q) \<in> set (live w)" using pq(1,2) by simp_all
    moreover have "wf_map (live w)" using wf by (simp add: wf_net_def)
    ultimately have "mget (live w) (fst p) = Some (snd p)" "mget (live w) (fst q) = Some (snd q)"
      using set_wf_map by fast+
    then have "fst p = fst q" using wf_net_live [OF wf] pq(3) by metis
    with pq(3) show "p = q" by (simp add: prod_eq_iff)
  qed
  ultimately show "distinct (vals (live w))" by (simp add: distinct_map)
qed

lemma wf_net_heap:
  assumes "wf_net w" "\<And>r. s_uuid (h r) = s_uuid (heap w r)" "\<And>r. queue_ok (h r)"
  shows "wf_net (w\<lparr>heap := h\<rparr>)"
  using assms by (auto simp: wf_net_def)

lemma wf_net_at_session:
  assumes "wf_net w" "\<And>s. s_uuid (f s) = s_uuid s" "\<And>s. queue_ok s \<Longrightarrow> queue_ok (f s)"
  shows "wf_net (at_session r f w)"
  unfolding at_session_def using assms by (intro wf_net_heap) (auto simp: on_heap_apply wf_net_def)

lemma wf_net_send [simp]: "wf_net w \<Longrightarrow> wf_net (send r f w)"
  unfolding send_def by (rule wf_net_at_session) auto

lemma wf_net_close [simp]: "wf_net w \<Longrightarrow> wf_net (close_session r reason w)"
  unfolding close_session_def by (rule wf_net_at_session) auto

lemma wf_net_set [simp]:
  "wf_net w \<Longrightarrow> wf_net (set_room r i w)" "wf_net w \<Longrightarrow> wf_net (set_media r m w)"
  "wf_net w \<Longrightarrow> wf_net (set_muted r b w)" "wf_net w \<Longrightarrow> wf_net (set_roles r ids w)"
  "wf_net w \<Longrightarrow> wf_net (set_username r n w)" "wf_net w \<Longrightarrow> wf_net (set_avatar r t w)"
  unfolding set_room_def set_media_def set_muted_def set_roles_def set_username_def set_avatar_def
  by (rule wf_net_at_session; simp add: queue_ok_def)+

lemma wf_net_broadcast [simp]: "wf_net w \<Longrightarrow> wf_net (broadcast ty p ex w)"
  unfolding broadcast_def by (rule wf_net_heap) (auto simp: queue_ok_push_all wf_net_def)

lemma wf_net_close_all: "wf_net w \<Longrightarrow> wf_net (close_all reason w)"
  unfolding close_all_def by (rule wf_net_heap) (auto simp: fold_close_at wf_net_def)

lemma wf_net_pump: "wf_net w \<Longrightarrow> pump_one r w = (w', f) \<Longrightarrow> wf_net w'"
  by (auto simp: pump_one_def wf_net_def heap_at_session queue_ok_def split: list.splits)
    (metis Suc_leD length_Cons)

lemma wf_net_alloc: "wf_net w \<Longrightarrow> alloc s w = (w', r) \<Longrightarrow> s_out s = [] \<Longrightarrow> wf_net w'"
  unfolding alloc_def wf_net_def queue_ok_def by (fastforce simp: less_Suc_eq)

lemma wf_net_mput:
  "wf_net w \<Longrightarrow> r < next_ref w \<Longrightarrow> s_uuid (heap w r) = u \<Longrightarrow> wf_net (w\<lparr>live := mput u r (live w)\<rparr>)"
  unfolding wf_net_def by (auto split: if_splits)

lemma wf_net_mdel: "wf_net w \<Longrightarrow> wf_net (w\<lparr>live := mdel u (live w)\<rparr>)"
  unfolding wf_net_def by (auto split: if_splits)

lemma wf_net_add:
  assumes "wf_net w" "add_session m r w = (w', res)" "r < next_ref w"
  shows "wf_net w'"
proof (cases "mget (live w) (s_uuid (heap w r))")
  case None
  with assms show ?thesis by (auto simp: add_session_def Let_def wf_net_mput split: if_splits)
next
  case (Some old)
  have "wf_net (close_session old ReasonReplaced w)" using assms(1) by simp
  then have "wf_net ((close_session old ReasonReplaced w)
      \<lparr>live := mput (s_uuid (heap w r)) r (live (close_session old ReasonReplaced w))\<rparr>)"
    by (rule wf_net_mput) (use assms(3) in \<open>auto simp: close_session_def heap_at_session\<close>)
  with Some assms show ?thesis by (simp add: add_session_def Let_def close_session_def)
qed

lemma wf_net_remove: "wf_net w \<Longrightarrow> remove_session r w = (w', b) \<Longrightarrow> wf_net w'"
  by (auto simp: remove_session_def Let_def wf_net_mdel split: if_splits)

section \<open>The properties\<close>

definition empty_net :: net where
  "empty_net = \<lparr>heap = \<lambda>_. new_session [] [] [] [] 0, next_ref = 0, live = []\<rparr>"

lemma wf_empty_net: "wf_net empty_net"
  by (simp add: wf_net_def empty_net_def queue_ok_def new_session_def)

text \<open>One operation on the clients; a session is allocated and then offered to the registry, which
  may turn it down.\<close>

inductive net_step :: "net \<Rightarrow> net \<Rightarrow> bool" where
  connect: "alloc (new_session i u name remote now) w = (w1, r) \<Longrightarrow> add_session m r w1 = (w2, res)
     \<Longrightarrow> net_step w w2"
| disconnect: "remove_session r w = (w', b) \<Longrightarrow> net_step w w'"
| sends: "net_step w (send r f w)"
| casts: "net_step w (broadcast ty p ex w)"
| closes: "net_step w (close_session r reason w)"
| shutdown: "net_step w (close_all reason w)"
| pumps: "pump_one r w = (w', f) \<Longrightarrow> net_step w w'"

inductive net_reachable :: "net \<Rightarrow> bool" where
  start: "net_reachable empty_net"
| step: "net_reachable w \<Longrightarrow> net_step w w' \<Longrightarrow> net_reachable w'"

lemma net_step_wf: "net_step w w' \<Longrightarrow> wf_net w \<Longrightarrow> wf_net w'"
proof (induction rule: net_step.induct)
  case (connect i u name remote now w w1 r m w2 res)
  then have "wf_net w1" "r < next_ref w1"
    by (auto intro: wf_net_alloc simp: new_session_def) (auto simp: alloc_def)
  with connect show ?case by (blast intro: wf_net_add)
qed (auto intro: wf_net_remove wf_net_close_all wf_net_pump)

lemma net_reachable_wf: "net_reachable w \<Longrightarrow> wf_net w"
  by (induction rule: net_reachable.induct) (auto simp: wf_empty_net net_step_wf)

text \<open>One connected client, used by the examples.\<close>

definition demo_session :: session where
  "demo_session = new_session ''s'' ''u'' [97] [] 0"

definition demo_net :: net where
  "demo_net = \<lparr>heap = (heap empty_net)(0 := demo_session), next_ref = 1, live = [(''u'', 0)]\<rparr>"

lemma demo_net_reachable: "net_reachable demo_net"
proof -
  have "net_step empty_net demo_net"
    by (rule net_step.connect [where i = "''s''" and u = "''u''" and name = "[97]" and remote = "[]"
          and now = 0 and m = 0 and res = "Inr None"])
       (auto simp: alloc_def add_session_def Let_def empty_net_def demo_net_def demo_session_def new_session_def)
  then show ?thesis by (rule net_reachable.step [OF net_reachable.start])
qed

text \<open>A broadcast queues its frame exactly once for every registered client but the excepted one
  whose queue has room; a registered client whose queue is full is closed as a slow consumer, and
  nobody else's session changes.\<close>

theorem broadcast_delivers:
  assumes "net_reachable w"
  shows "heap (broadcast ty p ex w) r =
     (if mget (live w) (s_uuid (heap w r)) = Some r \<and> s_uuid (heap w r) \<noteq> ex \<and> \<not> s_closed (heap w r)
      then if length (s_out (heap w r)) < outbound_buffer
           then (heap w r)\<lparr>s_out := s_out (heap w r) @ [encode ty [] p]\<rparr>
           else (heap w r)\<lparr>s_closed := True, s_reason := ReasonSlow\<rparr>
      else heap w r)"
proof -
  note wf = net_reachable_wf [OF assms]
  show ?thesis unfolding broadcast_def
    by (simp add: push_all_at [OF distinct_live [OF wf]] live_mem [OF wf] push_def close_with_def)
qed

theorem broadcast_delivers_witness:
  "map f_type (s_out (heap (broadcast ''server.notice'' PNone [] demo_net) 0)) = [''server.notice'']"
  using broadcast_delivers [OF demo_net_reachable, of "''server.notice''" PNone "[]" 0]
  by (simp add: demo_net_def demo_session_def new_session_def outbound_buffer_def encode_def)

text \<open>Memory per client is bounded and identities are unique: in every reachable state no queue
  holds more than 64 frames, every registered session is registered under its own client id, and
  no session is registered twice.\<close>

theorem net_invariant:
  assumes "net_reachable w"
  shows "length (s_out (heap w r)) \<le> 64 \<and> distinct (keys (live w)) \<and> distinct (vals (live w))
    \<and> (mget (live w) u = Some r \<longrightarrow> s_uuid (heap w r) = u)"
  using net_reachable_wf [OF assms] distinct_live [OF net_reachable_wf [OF assms]]
  by (simp add: wf_net_def queue_ok_def outbound_buffer_def wf_map_def)

theorem net_invariant_witness:
  "length (s_out (heap demo_net 0)) \<le> 64 \<and> s_uuid (heap demo_net 0) = ''u''"
  using net_invariant [OF demo_net_reachable, of 0 "''u''"] by (simp add: demo_net_def)

text \<open>A second connection with the same client id replaces the first: the old session is closed,
  the number of clients stays the same, and when the old connection unwinds, its removal is
  refused and leaves the new session registered.\<close>

theorem replacement_survives_old_unwind:
  assumes "net_reachable w0" "get_session w0 (s_uuid s) = Some old"
    and "alloc s w0 = (w, r)" "add_session m r w = (w', res)"
  shows "res = Inr (Some old) \<and> s_closed (heap w' old) \<and> length (live w') = length (live w0)
    \<and> remove_session old w' = (w', False) \<and> get_session w' (s_uuid s) = Some r"
proof -
  from assms(3) have w: "heap w r = s" "live w = live w0" "r = next_ref w0"
    "x \<noteq> r \<Longrightarrow> heap w x = heap w0 x" for x by (auto simp: alloc_def)
  let ?u = "s_uuid s"
  from assms(2) have o: "mget (live w0) ?u = Some old" by (simp add: get_session_def)
  then have w': "w' = (close_session old ReasonReplaced w)\<lparr>live := mput ?u r (live w0)\<rparr>" "res = Inr (Some old)"
    using assms(4) unfolding add_session_def Let_def w(1,2) by auto
  have "s_uuid (heap w0 old) = ?u" "old \<noteq> r"
    using wf_net_live [OF net_reachable_wf [OF assms(1)] o] w(3) by auto
  then show ?thesis using o w(4) [of old]
    by (auto simp: w' remove_session_def Let_def get_session_def close_session_def heap_at_session length_mput)
qed

theorem replacement_survives_old_unwind_witness:
  "\<exists>w'. add_session 0 1 (fst (alloc demo_session demo_net)) = (w', Inr (Some 0)) \<and> s_closed (heap w' 0)
     \<and> get_session w' ''u'' = Some 1"
proof -
  have g: "get_session demo_net (s_uuid demo_session) = Some 0"
    by (simp add: get_session_def demo_net_def demo_session_def new_session_def)
  obtain w r where a: "alloc demo_session demo_net = (w, r)" by fastforce
  then have r: "r = 1" by (simp add: alloc_def demo_net_def)
  obtain w' res where ad: "add_session 0 r w = (w', res)" by fastforce
  from replacement_survives_old_unwind [OF demo_net_reachable g a ad] a ad r show ?thesis
    by (auto simp: demo_session_def new_session_def)
qed

text \<open>Once a session is closed its reason is final: no operation reopens it, changes the reason or
  queues another frame for it.\<close>

theorem first_reason_wins:
  assumes "net_step w w'" "s_closed (heap w r)" "r < next_ref w"
  shows "s_closed (heap w' r) \<and> s_reason (heap w' r) = s_reason (heap w r)
    \<and> length (s_out (heap w' r)) \<le> length (s_out (heap w r))"
  using assms
proof (induction rule: net_step.induct)
  case (connect i u name remote now w w1 r1 m w2 res)
  then have "heap w1 r = heap w r" by (auto simp: alloc_def)
  with connect show ?case
    by (auto simp: add_session_def Let_def close_session_def heap_at_session close_with_def
        split: option.splits if_splits)
next
  case (casts w ty p ex)
  then show ?case by (simp add: broadcast_def push_all_closed)
next
  case (shutdown w reason)
  then show ?case by (simp add: close_all_def fold_close_at close_with_def)
qed (auto simp: remove_session_def Let_def send_def heap_at_session push_def close_session_def
    close_with_def pump_one_def split: if_splits list.splits)

theorem first_reason_wins_witness:
  "s_reason (heap (close_session 0 ReasonTimeout (close_session 0 ReasonKicked demo_net)) 0) = ReasonKicked"
proof -
  let ?w = "close_session 0 ReasonKicked demo_net"
  have "s_closed (heap ?w 0)" "s_reason (heap ?w 0) = ReasonKicked" "0 < next_ref ?w"
    by (simp_all add: close_session_def heap_at_session close_with_def demo_net_def demo_session_def new_session_def)
  with first_reason_wins [OF net_step.closes, of ?w 0] show ?thesis by simp
qed

end
