(* ===== verification/Rooms.thy ===== *)
theory Rooms
  imports Contents Access Session_Correct
begin

text \<open>
  The state of the running server and the room manager, \<open>internal/rooms/room.go\<close>,
  \<open>manager.go\<close> and \<open>reload.go\<close>.

  \<open>server\<close> extends the connected clients with what the managers share: the settings, the access
  manager (whose store is the database), the rooms, the contents of every room, the files on disk,
  the upload tickets and download grants, and the rate limits. A room's ephemeral stores are handles;
  clearing a handle clears the entry of that room in the manager's map. The purge timer of a room
  is the time it fires at. The callbacks of \<open>OnDelete\<close> and \<open>OnMemberLeft\<close> that belong to the chat,
  the board and the files run here as \<open>app.go\<close> registers them; the calls to the media and bot
  managers are recorded in \<open>hooks\<close>, in order.
\<close>

section \<open>State\<close>

datatype eph = EphChat | EphPaint | EphFiles

record room =
  rm_def :: room_def
  rm_members :: "(uuid, sref) gomap"
  rm_ephemerals :: "eph list"
  rm_purge :: "int option"

datatype hook =
    MediaDisconnect uuid string
  | MediaSyncRights uuid string
  | MediaCloseRoom string
  | BotsRoomGone string

record ticket =
  tk_id :: string
  tk_room :: string
  tk_client :: uuid
  tk_name :: ustring
  tk_max :: int
  tk_expires :: int

record download_grant =
  gr_file :: string
  gr_room :: string
  gr_expires :: int

record server = net +
  cfg :: config
  acc :: access
  rooms :: "(string, room) gomap"
  buffers :: "(string, buffer) gomap"
  boards :: "(string, board) gomap"
  stores :: "(string, file_store) gomap"
  disk :: disk
  tickets :: "(string, ticket) gomap"
  grants :: "(string, download_grant) gomap"
  send_rate :: "(uuid, bucket) gomap"
  type_rate :: "(uuid, bucket) gomap"
  draw_rate :: "(uuid, bucket) gomap"
  hooks :: "hook list"

datatype rooms_error =
    RoomsNotFound | RoomsNameTaken | RoomsBadPassword | RoomsFull | RoomsLimit | RoomsNotInRoom
  | RoomsRoleRequired | RoomsRoleUnknown | RoomsBadName text_error | RoomsBadCapacity | RoomsStore

abbreviation ReasonRoomDeleted :: string where "ReasonRoomDeleted \<equiv> ''room_deleted''"
abbreviation ReasonSwitchedRoom :: string where "ReasonSwitchedRoom \<equiv> ''switched_room''"
abbreviation ReasonDisconnected :: string where "ReasonDisconnected \<equiv> ''disconnected''"
abbreviation ReasonLeftVoluntarily :: string where "ReasonLeftVoluntarily \<equiv> ''left''"
abbreviation ReasonMoved :: string where "ReasonMoved \<equiv> ''moved_by_admin''"

definition db_of :: "server \<Rightarrow> db" where
  "db_of w = store (acc w)"

definition set_db :: "db \<Rightarrow> server \<Rightarrow> server" where
  "set_db d w = w\<lparr>acc := (acc w)\<lparr>store := d\<rparr>\<rparr>"

section \<open>One room\<close>

definition new_room :: "room_def \<Rightarrow> room" where
  "new_room d = \<lparr>rm_def = d, rm_members = [], rm_ephemerals = [], rm_purge = None\<rparr>"

definition on_room :: "string \<Rightarrow> (room \<Rightarrow> room) \<Rightarrow> server \<Rightarrow> server" where
  "on_room i f w = w\<lparr>rooms := madjust i f (rooms w)\<rparr>"

definition get_room :: "server \<Rightarrow> string \<Rightarrow> room option" where
  "get_room w i = mget (rooms w) i"

definition add_ephemeral :: "string \<Rightarrow> eph \<Rightarrow> server \<Rightarrow> server" where
  "add_ephemeral i e = on_room i (\<lambda>r. r\<lparr>rm_ephemerals := rm_ephemerals r @ [e]\<rparr>)"

definition view_room :: "(ustring \<Rightarrow> ustring) \<Rightarrow> heap \<Rightarrow> bool \<Rightarrow> room \<Rightarrow> room_view" where
  "view_room lower h with_members r =
     \<lparr>rv_id = rd_id (rm_def r), rv_name = rd_name (rm_def r),
      rv_has_password = (rd_password (rm_def r) \<noteq> []), rv_capacity = rd_capacity (rm_def r),
      rv_position = rd_position (rm_def r), rv_member_count = length (rm_members r),
      rv_members = (if with_members then sort_users lower (map (user_of \<circ> h) (vals (rm_members r))) else []),
      rv_required_role = rd_required_role (rm_def r)\<rparr>"

definition room_broadcast :: "string \<Rightarrow> string \<Rightarrow> payload \<Rightarrow> uuid \<Rightarrow> server \<Rightarrow> server" where
  "room_broadcast i ty p except w =
     (case get_room w i of
        None \<Rightarrow> w
      | Some r \<Rightarrow>
          w\<lparr>heap := push_all (\<lambda>x. s_uuid (heap w x) = except) (encode ty [] p) (vals (rm_members r)) (heap w)\<rparr>)"

definition clear_eph :: "string \<Rightarrow> eph \<Rightarrow> server \<Rightarrow> server" where
  "clear_eph i e w =
     (case e of
        EphChat \<Rightarrow> w\<lparr>buffers := madjust i buf_clear (buffers w)\<rparr>
      | EphPaint \<Rightarrow> w\<lparr>boards := madjust i board_clear_all (boards w)\<rparr>
      | EphFiles \<Rightarrow>
          (case mget (stores w) i of
             None \<Rightarrow> w
           | Some s \<Rightarrow> w\<lparr>stores := mput i (fst (store_clear (s, disk w))) (stores w),
                          disk := snd (store_clear (s, disk w))\<rparr>))"

definition clear_content :: "string \<Rightarrow> room \<Rightarrow> server \<Rightarrow> server" where
  "clear_content i r w = fold (clear_eph i) (rm_ephemerals r) w"

section \<open>Emptying\<close>

definition purge :: "string \<Rightarrow> server \<Rightarrow> server" where
  "purge i w =
     (case get_room w i of
        None \<Rightarrow> w
      | Some r \<Rightarrow>
          (let w1 = on_room i (\<lambda>r. r\<lparr>rm_purge := None\<rparr>) w in
           if rm_members r \<noteq> [] then w1
           else broadcast ''room.purged'' (PRoomRef i) [] (clear_content i r w1)))"

definition schedule_purge :: "int \<Rightarrow> string \<Rightarrow> server \<Rightarrow> server" where
  "schedule_purge now i w =
     (if \<not> cfg_bool (cfg w) KeyRoomsPurgeOnEmpty then w
      else
        (let grace = cfg_int (cfg w) KeyRoomsPurgeGraceSec * 1000000000 in
         if grace \<le> 0 then purge i w
         else on_room i (\<lambda>r. r\<lparr>rm_purge := Some (now + grace)\<rparr>) w))"

definition leave_room :: "int \<Rightarrow> sref \<Rightarrow> string \<Rightarrow> string \<Rightarrow> server \<Rightarrow> server" where
  "leave_room now r i reason w =
     (case get_room w i of
        None \<Rightarrow> set_room r [] w
      | Some room \<Rightarrow>
          (let u = s_uuid (heap w r) in
           if mget (rm_members room) u = None then w
           else
             (let w1 = on_room i (\<lambda>x. x\<lparr>rm_members := mdel u (rm_members x)\<rparr>) w;
                  w2 = (if s_room (heap w1 r) = i then set_room r [] w1 else w1);
                  w3 = set_media r no_media w2;
                  w4 = broadcast ''room.member_left'' (PRoomMember i (session_user w3 r) reason) u w3;
                  w5 = w4\<lparr>hooks := hooks w4 @ [MediaDisconnect u i]\<rparr> in
              if mdel u (rm_members room) = [] then schedule_purge now i w5 else w5)))"

section \<open>Entering and leaving\<close>

definition enter_room ::
  "int \<Rightarrow> sref \<Rightarrow> string \<Rightarrow> bool \<Rightarrow> string \<Rightarrow> server \<Rightarrow> server \<times> (rooms_error + string)" where
  "enter_room now r i ignore_capacity reason w =
     (case get_room w i of
        None \<Rightarrow> (w, Inl RoomsNotFound)
      | Some room \<Rightarrow>
          if s_room (heap w r) = i then (w, Inr i)
          else if \<not> ignore_capacity \<and> rd_capacity (rm_def room) > 0
              \<and> int (length (rm_members room)) \<ge> rd_capacity (rm_def room) then (w, Inl RoomsFull)
          else
            (let u = s_uuid (heap w r);
                 w1 = on_room i (\<lambda>x. x\<lparr>rm_purge := None, rm_members := mput u r (rm_members x)\<rparr>) w;
                 w2 = (if s_room (heap w1 r) \<noteq> [] then leave_room now r (s_room (heap w1 r)) reason w1 else w1);
                 w3 = set_room r i w2;
                 arrival = (if reason = ReasonMoved then reason else []) in
             (broadcast ''room.member_joined'' (PRoomMember i (session_user w3 r) arrival) u w3, Inr i)))"

definition join_room ::
  "int \<Rightarrow> sref \<Rightarrow> string \<Rightarrow> ustring \<Rightarrow> server \<Rightarrow> server \<times> (rooms_error + string)" where
  "join_room now r i password w =
     (case get_room w i of
        None \<Rightarrow> (w, Inl RoomsNotFound)
      | Some room \<Rightarrow>
          (let d = rm_def room; u = s_uuid (heap w r) in
           if rd_required_role d \<noteq> [] \<and> \<not> can_enter_restricted (acc w) u (rd_required_role d)
             then (w, Inl RoomsRoleRequired)
           else if rd_password d \<noteq> [] \<and> \<not> can_bypass_password (acc w) u \<and> rd_password d \<noteq> password
             then (w, Inl RoomsBadPassword)
           else enter_room now r i False ReasonSwitchedRoom w))"

definition force_room :: "int \<Rightarrow> sref \<Rightarrow> string \<Rightarrow> server \<Rightarrow> server \<times> (rooms_error + string)" where
  "force_room now r i w =
     (case get_room w i of
        None \<Rightarrow> (w, Inl RoomsNotFound)
      | Some _ \<Rightarrow> enter_room now r i True ReasonMoved w)"

definition leave :: "int \<Rightarrow> sref \<Rightarrow> server \<Rightarrow> server \<times> (rooms_error + string)" where
  "leave now r w =
     (let i = s_room (heap w r) in
      if i = [] then (w, Inl RoomsNotInRoom) else (leave_room now r i ReasonLeftVoluntarily w, Inr i))"

definition transfer_membership :: "sref \<Rightarrow> sref \<Rightarrow> server \<Rightarrow> server \<times> bool" where
  "transfer_membership old fresh w =
     (let i = s_room (heap w old) in
      if i = [] then (w, False)
      else
        (case get_room w i of
           None \<Rightarrow> (set_room old [] w, False)
         | Some room \<Rightarrow>
             if mget (rm_members room) (s_uuid (heap w old)) \<noteq> Some old then (w, False)
             else
               (let w1 = on_room i (\<lambda>x. x\<lparr>rm_members := mput (s_uuid (heap w fresh)) fresh (rm_members x),
                                          rm_purge := None\<rparr>) w in
                (set_room fresh i (set_room old [] w1), True))))"

definition disconnect :: "int \<Rightarrow> sref \<Rightarrow> server \<Rightarrow> server" where
  "disconnect now r w =
     (let i = s_room (heap w r) in
      if i \<noteq> [] then leave_room now r i ReasonDisconnected w else w)"

section \<open>Definitions\<close>

definition load_rooms :: "env \<Rightarrow> db \<Rightarrow> rooms_error + (string, room) gomap" where
  "load_rooms e d =
     (case db_list_rooms e d of
        Inl _ \<Rightarrow> Inl RoomsStore
      | Inr ds \<Rightarrow> Inr (fold (\<lambda>x m. mput (rd_id x) (new_room x) m) ds []))"

definition room_before :: "room \<Rightarrow> room \<Rightarrow> bool" where
  "room_before a b \<longleftrightarrow>
     (if rd_position (rm_def a) \<noteq> rd_position (rm_def b) then rd_position (rm_def a) < rd_position (rm_def b)
      else rd_created_at (rm_def a) < rd_created_at (rm_def b))"

definition list_rooms :: "server \<Rightarrow> room list" where
  "list_rooms w =
     sort_key (\<lambda>r. rd_position (rm_def r)) (sort_key (\<lambda>r. rd_created_at (rm_def r)) (vals (rooms w)))"

definition room_views :: "(ustring \<Rightarrow> ustring) \<Rightarrow> server \<Rightarrow> room_view list" where
  "room_views lower w = map (view_room lower (heap w) True) (list_rooms w)"

definition name_taken :: "(ustring \<Rightarrow> ustring) \<Rightarrow> server \<Rightarrow> ustring \<Rightarrow> string \<Rightarrow> bool" where
  "name_taken lower w name except \<longleftrightarrow>
     list_ex (\<lambda>(i, r). i \<noteq> except \<and> lower (rd_name (rm_def r)) = lower name) (rooms w)"

definition normalize_room_name :: "ustring \<Rightarrow> rooms_error + ustring" where
  "normalize_room_name raw =
     (case normalize_name raw ''room name'' 1 40 of Inl err \<Rightarrow> Inl (RoomsBadName err) | Inr n \<Rightarrow> Inr n)"

definition create_room ::
  "env \<Rightarrow> (ustring \<Rightarrow> ustring) \<Rightarrow> uuid \<Rightarrow> room_create \<Rightarrow> server \<Rightarrow> server \<times> (rooms_error + string)" where
  "create_room e lower actor req w =
     (case normalize_room_name (rc_name req) of
        Inl err \<Rightarrow> (w, Inl err)
      | Inr name \<Rightarrow>
          (let capacity = (if rc_capacity req \<le> 0 then cfg_int (cfg w) KeyRoomsDefaultMaxUsers else rc_capacity req);
               max_rooms = cfg_int (cfg w) KeyRoomsMaxPerServer in
           if max_rooms > 0 \<and> int (length (rooms w)) \<ge> max_rooms then (w, Inl RoomsLimit)
           else if name_taken lower w name [] then (w, Inl RoomsNameTaken)
           else
             (case db_next_room_position e (db_of w) of
                Inl _ \<Rightarrow> (w, Inl RoomsStore)
              | Inr pos \<Rightarrow>
                  if rc_required_role req \<noteq> [] \<and> \<not> role_exists (acc w) (rc_required_role req)
                    then (w, Inl RoomsRoleUnknown)
                  else
                    (let d = \<lparr>rd_id = new_uuid e, rd_name = name, rd_password = trim_space (rc_password req),
                              rd_capacity = capacity, rd_position = pos,
                              rd_required_role = rc_required_role req, rd_created_at = 0, rd_updated_at = 0\<rparr> in
                     case db_create_room e d (db_of w) of
                       Inl RoomNameTaken \<Rightarrow> (w, Inl RoomsNameTaken)
                     | Inl _ \<Rightarrow> (w, Inl RoomsStore)
                     | Inr d' \<Rightarrow>
                         (let w1 = set_db d' w; w2 = w1\<lparr>rooms := mput (rd_id d) (new_room d) (rooms w1)\<rparr> in
                          (broadcast ''room.created'' (PRoom (view_room lower (heap w2) False (new_room d))) actor w2,
                           Inr (rd_id d)))))))"

text \<open>The checks of an update in the order of the code; the result is the new definition.\<close>

definition apply_room_update ::
  "(ustring \<Rightarrow> ustring) \<Rightarrow> server \<Rightarrow> room_update \<Rightarrow> room_def \<Rightarrow> rooms_error + room_def" where
  "apply_room_update lower w req d =
     (case (case ru_name req of
              None \<Rightarrow> Inr (rd_name d)
            | Some raw \<Rightarrow>
                (case normalize_room_name raw of
                   Inl err \<Rightarrow> Inl err
                 | Inr name \<Rightarrow> if name_taken lower w name (rd_id d) then Inl RoomsNameTaken else Inr name)) of
        Inl err \<Rightarrow> Inl err
      | Inr name \<Rightarrow>
          (if (case ru_capacity req of None \<Rightarrow> False | Some c \<Rightarrow> c < 1) then Inl RoomsBadCapacity
           else if (case ru_required_role req of
                      None \<Rightarrow> False | Some i \<Rightarrow> i \<noteq> [] \<and> \<not> role_exists (acc w) i) then Inl RoomsRoleUnknown
           else Inr (d\<lparr>rd_name := name,
                  rd_password := (case ru_password req of None \<Rightarrow> rd_password d | Some p \<Rightarrow> trim_space p),
                  rd_capacity := (case ru_capacity req of None \<Rightarrow> rd_capacity d | Some c \<Rightarrow> c),
                  rd_position := (case ru_position req of None \<Rightarrow> rd_position d | Some p \<Rightarrow> p),
                  rd_required_role := (case ru_required_role req of None \<Rightarrow> rd_required_role d | Some i \<Rightarrow> i)\<rparr>)))"

definition update_room ::
  "env \<Rightarrow> (ustring \<Rightarrow> ustring) \<Rightarrow> uuid \<Rightarrow> room_update \<Rightarrow> server \<Rightarrow> server \<times> (rooms_error + string)" where
  "update_room e lower actor req w =
     (let i = ru_room_id req in
      case get_room w i of
        None \<Rightarrow> (w, Inl RoomsNotFound)
      | Some room \<Rightarrow>
          (case apply_room_update lower w req (rm_def room) of
             Inl err \<Rightarrow> (w, Inl err)
           | Inr d \<Rightarrow>
               (case db_update_room e d (db_of w) of
                  Inl RoomNameTaken \<Rightarrow> (w, Inl RoomsNameTaken)
                | Inl RoomNotFound \<Rightarrow> (w, Inl RoomsNotFound)
                | Inl _ \<Rightarrow> (w, Inl RoomsStore)
                | Inr d' \<Rightarrow>
                    (let w1 = on_room i (\<lambda>r. r\<lparr>rm_def := d\<rparr>) (set_db d' w) in
                     (broadcast ''room.updated'' (PRoom (view_room lower (heap w1) False (room\<lparr>rm_def := d\<rparr>))) actor w1,
                      Inr i)))))"

section \<open>Deleting\<close>

text \<open>The callbacks of \<open>OnDelete\<close>, in the order \<open>app.go\<close> registers them.\<close>

definition on_delete :: "string \<Rightarrow> server \<Rightarrow> server" where
  "on_delete i w =
     (let w1 = w\<lparr>buffers := mdel i (buffers w)\<rparr>;
          w2 = (case mget (stores w1) i of
                  None \<Rightarrow> w1
                | Some s \<Rightarrow> w1\<lparr>stores := mdel i (stores w1), disk := snd (store_clear (s, disk w1))\<rparr>);
          w3 = w2\<lparr>hooks := hooks w2 @ [MediaCloseRoom i]\<rparr>;
          w4 = w3\<lparr>boards := mdel i (boards w3)\<rparr> in
      w4\<lparr>hooks := hooks w4 @ [BotsRoomGone i]\<rparr>)"

definition eject :: "string \<Rightarrow> bool \<Rightarrow> uuid \<times> sref \<Rightarrow> server \<Rightarrow> server" where
  "eject i reset_media m w =
     (let w1 = set_room (snd m) [] w;
          w2 = (if reset_media then set_media (snd m) no_media w1 else w1) in
      send_message (snd m) ''room.left'' [] (PRoomLeft i ReasonRoomDeleted) w2)"

definition delete_room :: "env \<Rightarrow> uuid \<Rightarrow> string \<Rightarrow> server \<Rightarrow> server \<times> rooms_error option" where
  "delete_room e actor i w =
     (case get_room w i of
        None \<Rightarrow> (w, Some RoomsNotFound)
      | Some room \<Rightarrow>
          (case db_delete_room e i (db_of w) of
             Inl RoomNotFound \<Rightarrow> (w, Some RoomsNotFound)
           | Inl _ \<Rightarrow> (w, Some RoomsStore)
           | Inr d \<Rightarrow>
               (let w0 = set_db d w;
                    w1 = w0\<lparr>rooms := mdel i (rooms w0)\<rparr>;
                    w2 = on_delete i w1;
                    w3 = fold (eject i False) (rm_members room) w2;
                    w4 = clear_content i room w3 in
                (broadcast ''room.deleted'' (PRoomRef i) actor w4, None))))"

section \<open>Reloading\<close>

definition room_changed :: "room_def \<Rightarrow> room_def \<Rightarrow> bool" where
  "room_changed a b \<longleftrightarrow> rd_name a \<noteq> rd_name b \<or> rd_password a \<noteq> rd_password b
     \<or> rd_capacity a \<noteq> rd_capacity b \<or> rd_position a \<noteq> rd_position b
     \<or> rd_required_role a \<noteq> rd_required_role b"

text \<open>The rooms after merging the stored definitions, and the ids created and updated.\<close>

fun merge_defs ::
  "room_def list \<Rightarrow> (string, room) gomap \<Rightarrow> (string, room) gomap \<times> string list \<times> string list" where
  "merge_defs [] rs = (rs, [], [])"
| "merge_defs (d # ds) rs =
     (case mget rs (rd_id d) of
        None \<Rightarrow>
          (case merge_defs ds (mput (rd_id d) (new_room d) rs) of
             (rs', cr, up) \<Rightarrow> (rs', rd_id d # cr, up))
      | Some r \<Rightarrow>
          if room_changed (rm_def r) d then
            (case merge_defs ds (mput (rd_id d) (r\<lparr>rm_def := d\<rparr>) rs) of
               (rs', cr, up) \<Rightarrow> (rs', cr, rd_id d # up))
          else merge_defs ds rs)"

definition announce_room :: "(ustring \<Rightarrow> ustring) \<Rightarrow> string \<Rightarrow> string \<Rightarrow> server \<Rightarrow> server" where
  "announce_room lower ty i w =
     (case get_room w i of
        None \<Rightarrow> w
      | Some r \<Rightarrow> broadcast ty (PRoom (view_room lower (heap w) False r)) [] w)"

definition evict :: "string \<Rightarrow> room \<Rightarrow> server \<Rightarrow> server" where
  "evict i room w = clear_content i room (fold (eject i True) (rm_members room) w)"

definition drop_removed :: "string \<times> room \<Rightarrow> server \<Rightarrow> server" where
  "drop_removed ir w =
     broadcast ''room.deleted'' (PRoomRef (fst ir)) [] (on_delete (fst ir) (evict (fst ir) (snd ir) w))"

definition reload_rooms ::
  "env \<Rightarrow> (ustring \<Rightarrow> ustring) \<Rightarrow> server \<Rightarrow> server \<times> (rooms_error + nat)" where
  "reload_rooms e lower w =
     (case db_list_rooms e (db_of w) of
        Inl _ \<Rightarrow> (w, Inl RoomsStore)
      | Inr ds \<Rightarrow>
          (let (rs, created, updated) = merge_defs ds (rooms w);
               seen = (\<lambda>ir. fst ir \<in> set (map rd_id ds));
               w1 = w\<lparr>rooms := filter seen rs\<rparr>;
               w2 = fold (announce_room lower ''room.created'') created w1;
               w3 = fold (announce_room lower ''room.updated'') updated w2;
               w4 = fold drop_removed (filter (\<lambda>ir. \<not> seen ir) rs) w3 in
           (w4, Inr (length ds))))"

end
