(* ===== verification/Rooms_Correct.thy ===== *)
theory Rooms_Correct
  imports Rooms
begin

text \<open>
  What holds of the rooms. The central invariant ties the two records of a membership together: a
  registered session is in the member map of exactly the room its own field names. \<open>core\<close> is what an
  invariant needs of a room, its definition and members; purging, scheduling, broadcasting and
  clearing leave it alone. The section on contents shows what a purge drops and what it spares.
\<close>

section \<open>Frames\<close>

lemma server_broadcast [simp, net_frame]:
  "cfg (broadcast ty p ex w) = cfg w" "acc (broadcast ty p ex w) = acc w"
  "rooms (broadcast ty p ex w) = rooms w" "buffers (broadcast ty p ex w) = buffers w"
  "boards (broadcast ty p ex w) = boards w" "stores (broadcast ty p ex w) = stores w"
  "disk (broadcast ty p ex w) = disk w" "tickets (broadcast ty p ex w) = tickets w"
  "grants (broadcast ty p ex w) = grants w" "hooks (broadcast ty p ex w) = hooks w"
  "get_room (broadcast ty p ex w) = get_room w"
  by (simp_all add: broadcast_def get_room_def fun_eq_iff)

lemma server_at_session [simp, net_frame]:
  "cfg (at_session r f w) = cfg w" "acc (at_session r f w) = acc w"
  "rooms (at_session r f w) = rooms w" "buffers (at_session r f w) = buffers w"
  "boards (at_session r f w) = boards w" "stores (at_session r f w) = stores w"
  "disk (at_session r f w) = disk w" "tickets (at_session r f w) = tickets w"
  "grants (at_session r f w) = grants w" "hooks (at_session r f w) = hooks w"
  "get_room (at_session r f w) = get_room w"
  by (simp_all add: at_session_def get_room_def fun_eq_iff)

lemma server_send [simp, net_frame]:
  "cfg (send r f w) = cfg w" "acc (send r f w) = acc w"
  "rooms (send r f w) = rooms w" "buffers (send r f w) = buffers w"
  "boards (send r f w) = boards w" "stores (send r f w) = stores w"
  "disk (send r f w) = disk w" "tickets (send r f w) = tickets w"
  "grants (send r f w) = grants w" "hooks (send r f w) = hooks w"
  "get_room (send r f w) = get_room w"
  by (simp_all add: send_def)

lemma heap_set_room: "heap (set_room r i w) x = (if x = r then (heap w r)\<lparr>s_room := i\<rparr> else heap w x)"
  by (simp add: set_room_def heap_at_session)

lemma heap_set_media: "heap (set_media r m w) x = (if x = r then (heap w r)\<lparr>s_media := m\<rparr> else heap w x)"
  by (simp add: set_media_def heap_at_session)

lemma server_set [simp, net_frame]:
  "get_room (set_room r i w) = get_room w" "live (set_room r i w) = live w" "next_ref (set_room r i w) = next_ref w"
  "get_room (set_media r m w) = get_room w" "live (set_media r m w) = live w" "next_ref (set_media r m w) = next_ref w"
  "cfg (set_room r i w) = cfg w" "cfg (set_media r m w) = cfg w"
  "acc (set_room r i w) = acc w" "acc (set_media r m w) = acc w"
  "rooms (set_room r i w) = rooms w" "rooms (set_media r m w) = rooms w"
  "buffers (set_room r i w) = buffers w" "buffers (set_media r m w) = buffers w"
  "boards (set_room r i w) = boards w" "boards (set_media r m w) = boards w"
  "stores (set_room r i w) = stores w" "stores (set_media r m w) = stores w"
  "disk (set_room r i w) = disk w" "disk (set_media r m w) = disk w"
  "hooks (set_room r i w) = hooks w" "hooks (set_media r m w) = hooks w"
  "s_uuid (heap (set_room r i w) x) = s_uuid (heap w x)" "s_uuid (heap (set_media r m w) x) = s_uuid (heap w x)"
  "s_room (heap (set_media r m w) x) = s_room (heap w x)"
  "s_room (heap (set_room r i w) x) = (if x = r then i else s_room (heap w x))"
  by (simp_all add: set_room_def set_media_def heap_at_session)

lemma get_room_on_room [simp]:
  "get_room (on_room i f w) j = (if j = i then map_option f (get_room w i) else get_room w j)"
  by (simp add: on_room_def get_room_def)

lemma on_room_frame [simp, net_frame]:
  "heap (on_room i f w) = heap w" "live (on_room i f w) = live w" "next_ref (on_room i f w) = next_ref w"
  "cfg (on_room i f w) = cfg w" "acc (on_room i f w) = acc w" "buffers (on_room i f w) = buffers w"
  "boards (on_room i f w) = boards w" "stores (on_room i f w) = stores w" "disk (on_room i f w) = disk w"
  "hooks (on_room i f w) = hooks w" "wf_net (on_room i f w) = wf_net w"
  by (simp_all add: on_room_def wf_net_def)

lemma clear_eph_frame [simp, net_frame]:
  "heap (clear_eph i e w) = heap w" "live (clear_eph i e w) = live w" "next_ref (clear_eph i e w) = next_ref w"
  "rooms (clear_eph i e w) = rooms w" "cfg (clear_eph i e w) = cfg w" "acc (clear_eph i e w) = acc w"
  "hooks (clear_eph i e w) = hooks w"
  by (simp_all add: clear_eph_def split: eph.split option.split)

lemma fold_clear_eph_frame:
  "heap (fold (clear_eph i) es w) = heap w" "live (fold (clear_eph i) es w) = live w"
  "next_ref (fold (clear_eph i) es w) = next_ref w" "rooms (fold (clear_eph i) es w) = rooms w"
  "cfg (fold (clear_eph i) es w) = cfg w" "acc (fold (clear_eph i) es w) = acc w"
  "hooks (fold (clear_eph i) es w) = hooks w"
  by (induction es arbitrary: w) simp_all

lemma clear_content_frame [simp, net_frame]:
  "heap (clear_content i r w) = heap w" "live (clear_content i r w) = live w"
  "next_ref (clear_content i r w) = next_ref w" "rooms (clear_content i r w) = rooms w"
  "cfg (clear_content i r w) = cfg w" "acc (clear_content i r w) = acc w"
  "hooks (clear_content i r w) = hooks w" "get_room (clear_content i r w) = get_room w"
  by (simp_all add: clear_content_def fold_clear_eph_frame get_room_def fun_eq_iff)

lemma wf_net_cong:
  "heap w' = heap w \<Longrightarrow> live w' = live w \<Longrightarrow> next_ref w' = next_ref w \<Longrightarrow> wf_net w' = wf_net (w :: server)"
  by (simp add: wf_net_def)

section \<open>Members\<close>

definition core :: "server \<Rightarrow> string \<Rightarrow> (room_def \<times> (uuid, sref) gomap) option" where
  "core w i = map_option (\<lambda>r. (rm_def r, rm_members r)) (get_room w i)"

definition member :: "server \<Rightarrow> string \<Rightarrow> uuid \<Rightarrow> sref \<Rightarrow> bool" where
  "member w i u r \<longleftrightarrow> (\<exists>room. get_room w i = Some room \<and> mget (rm_members room) u = Some r)"

definition rooms_wf :: "server \<Rightarrow> bool" where
  "rooms_wf w \<longleftrightarrow> wf_map (rooms w)
     \<and> (\<forall>i room. get_room w i = Some room \<longrightarrow> i \<noteq> [] \<and> rd_id (rm_def room) = i \<and> wf_map (rm_members room))"

definition rooms_inv :: "server \<Rightarrow> bool" where
  "rooms_inv w \<longleftrightarrow> wf_net w \<and> rooms_wf w
     \<and> (\<forall>i u r. i \<noteq> [] \<longrightarrow> (member w i u r \<longleftrightarrow> mget (live w) u = Some r \<and> s_room (heap w r) = i))"

lemma member_core: "member w i u r \<longleftrightarrow> (\<exists>d ms. core w i = Some (d, ms) \<and> mget ms u = Some r)"
  by (auto simp: member_def core_def)

lemma core_cong: "get_room w' = get_room w \<Longrightarrow> core w' = core w"
  by (simp add: core_def fun_eq_iff)

lemma core_frame [simp]:
  "core (broadcast ty p ex w) = core w" "core (at_session r f w) = core w" "core (send r g w) = core w"
  "core (set_room r i w) = core w" "core (set_media r m w) = core w" "core (clear_content j x w) = core w"
  by (rule core_cong, simp)+

lemma core_on_room [simp]:
  "core (on_room i f w) j =
     (if j = i then map_option (\<lambda>r. (rm_def (f r), rm_members (f r))) (get_room w i) else core w j)"
  by (simp add: core_def map_option.compositionality comp_def)

lemma core_on_room_same:
  "(\<And>r. rm_def (f r) = rm_def r \<and> rm_members (f r) = rm_members r) \<Longrightarrow> core (on_room i f w) = core w"
  by (rule ext) (simp add: core_def map_option.compositionality comp_def)

lemma core_Some: "core w i = Some (d, ms) \<longleftrightarrow> (\<exists>room. get_room w i = Some room \<and> d = rm_def room \<and> ms = rm_members room)"
  by (auto simp: core_def)

lemma wf_map_on_room [simp]: "wf_map (rooms w) \<Longrightarrow> wf_map (rooms (on_room i f w))"
  by (simp add: on_room_def)

lemma rooms_wf_core:
  "rooms_wf w \<longleftrightarrow> wf_map (rooms w) \<and> (\<forall>i d ms. core w i = Some (d, ms) \<longrightarrow> i \<noteq> [] \<and> rd_id d = i \<and> wf_map ms)"
  by (auto simp: rooms_wf_def core_Some)

lemma core_purge [simp]: "core (purge i w) = core w"
  by (simp add: purge_def Let_def core_on_room_same split: option.split)

lemma purge_frame [simp, net_frame]:
  "live (purge i w) = live w" "next_ref (purge i w) = next_ref w" "cfg (purge i w) = cfg w"
  "acc (purge i w) = acc w" "hooks (purge i w) = hooks w"
  "s_uuid (heap (purge i w) r) = s_uuid (heap w r)" "s_room (heap (purge i w) r) = s_room (heap w r)"
  "user_of (heap (purge i w) r) = user_of (heap w r)"
  by (auto simp: purge_def Let_def split: option.split)

lemma wf_map_purge [simp]: "wf_map (rooms w) \<Longrightarrow> wf_map (rooms (purge i w))"
  by (auto simp: purge_def Let_def on_room_def split: option.split)

lemma wf_net_clear [simp]: "wf_net (clear_content i r w) = wf_net w"
  by (rule wf_net_cong) simp_all

lemma wf_net_purge [simp]: "wf_net w \<Longrightarrow> wf_net (purge i w)"
  by (simp add: purge_def Let_def split: option.split)

lemma core_schedule [simp]: "core (schedule_purge now i w) = core w"
  by (simp add: schedule_purge_def Let_def core_on_room_same)

lemma schedule_frame [simp, net_frame]:
  "live (schedule_purge now i w) = live w" "next_ref (schedule_purge now i w) = next_ref w"
  "cfg (schedule_purge now i w) = cfg w" "acc (schedule_purge now i w) = acc w"
  "hooks (schedule_purge now i w) = hooks w"
  "s_uuid (heap (schedule_purge now i w) r) = s_uuid (heap w r)"
  "s_room (heap (schedule_purge now i w) r) = s_room (heap w r)"
  by (simp_all add: schedule_purge_def Let_def)

lemma wf_map_schedule [simp]: "wf_map (rooms w) \<Longrightarrow> wf_map (rooms (schedule_purge now i w))"
  by (simp add: schedule_purge_def Let_def on_room_def)

lemma wf_net_schedule [simp]: "wf_net w \<Longrightarrow> wf_net (schedule_purge now i w)"
  by (simp add: schedule_purge_def Let_def)

section \<open>One exit path\<close>

definition removed_from :: "server \<Rightarrow> sref \<Rightarrow> string \<Rightarrow> bool" where
  "removed_from w r i \<longleftrightarrow> (\<exists>x. member w i (s_uuid (heap w r)) x)"

lemma leave_room_frame [simp, net_frame]:
  "live (leave_room now r i reason w) = live w" "next_ref (leave_room now r i reason w) = next_ref w"
  "cfg (leave_room now r i reason w) = cfg w" "acc (leave_room now r i reason w) = acc w"
  "s_uuid (heap (leave_room now r i reason w) x) = s_uuid (heap w x)"
  by (auto simp: leave_room_def Let_def split: option.split)

lemma wf_net_hooks [simp]: "wf_net (w\<lparr>hooks := hs\<rparr>) = wf_net (w :: server)"
  by (simp add: wf_net_def)

lemma core_hooks [simp]: "core (w\<lparr>hooks := hs\<rparr>) = core w"
  by (simp add: core_def get_room_def fun_eq_iff)

lemma wf_net_leave_room [simp]: "wf_net w \<Longrightarrow> wf_net (leave_room now r i reason w)"
  by (auto simp: leave_room_def Let_def split: option.split)

lemma wf_map_leave_room [simp]: "wf_map (rooms w) \<Longrightarrow> wf_map (rooms (leave_room now r i reason w))"
  by (auto simp: leave_room_def Let_def on_room_def split: option.split)

lemma core_leave_room:
  "core (leave_room now r i reason w) j =
     (if j = i then map_option (\<lambda>(d, ms). (d, mdel (s_uuid (heap w r)) ms)) (core w i) else core w j)"
proof (cases "get_room w i")
  case None
  then have "core w i = None" by (simp add: core_def)
  with None show ?thesis by (simp add: leave_room_def)
next
  case (Some room)
  then have c: "core w i = Some (rm_def room, rm_members room)" by (simp add: core_def)
  show ?thesis
  proof (cases "mget (rm_members room) (s_uuid (heap w r))")
    case None
    then have "mdel (s_uuid (heap w r)) (rm_members room) = rm_members room"
      by (simp add: delete_idem map_of_eq_None_iff)
    with Some None c show ?thesis by (simp add: leave_room_def)
  next
    case (Some x)
    with \<open>get_room w i = Some room\<close> c show ?thesis by (simp add: leave_room_def Let_def)
  qed
qed

lemma s_room_leave_room:
  "s_room (heap (leave_room now r i reason w) x) =
     (if x = r \<and> (get_room w i = None \<or> (removed_from w r i \<and> s_room (heap w r) = i)) then []
      else s_room (heap w x))"
  by (auto simp: leave_room_def Let_def removed_from_def member_def split: option.split)

lemma member_leave_room:
  "member (leave_room now r i reason w) j u x \<longleftrightarrow> member w j u x \<and> \<not> (j = i \<and> u = s_uuid (heap w r))"
  by (auto simp: member_core core_leave_room split: if_splits)

lemma rooms_wf_leave_room: "rooms_wf w \<Longrightarrow> rooms_wf (leave_room now r i reason w)"
  by (auto simp: rooms_wf_core core_leave_room split: if_splits)

text \<open>What a registered session's departure does to the invariant: it leaves the room and is in
  none.\<close>

lemma rooms_invI:
  assumes "wf_net w" "rooms_wf w"
    and "\<And>i u r. i \<noteq> [] \<Longrightarrow> member w i u r \<longleftrightarrow> mget (live w) u = Some r \<and> s_room (heap w r) = i"
  shows "rooms_inv w"
  using assms by (simp add: rooms_inv_def)

lemma rooms_invD:
  assumes "rooms_inv w"
  shows "wf_net w" "rooms_wf w" "get_room w [] = None"
    and "i \<noteq> [] \<Longrightarrow> member w i u r \<longleftrightarrow> mget (live w) u = Some r \<and> s_room (heap w r) = i"
  using assms by (cases "get_room w []"; force simp: rooms_inv_def rooms_wf_def)+

lemma rooms_inv_uuid: "rooms_inv w \<Longrightarrow> mget (live w) u = Some r \<Longrightarrow> s_uuid (heap w r) = u"
  using rooms_invD(1) wf_net_live by blast

text \<open>Only the registry, the session's room field and the rooms' cores matter.\<close>

lemma rooms_inv_cong:
  assumes "rooms_inv w" "wf_net w'" "live w' = live w" "core w' = core w" "wf_map (rooms w')"
    and "\<And>u r. mget (live w) u = Some r \<Longrightarrow> s_room (heap w' r) = s_room (heap w r)"
  shows "rooms_inv w'"
proof (rule rooms_invI)
  show "wf_net w'" by fact
  show "rooms_wf w'" using rooms_invD(2) [OF assms(1)] assms(4,5) by (simp add: rooms_wf_core)
  fix i :: string and u r
  assume "i \<noteq> []"
  then have "member w i u r \<longleftrightarrow> mget (live w) u = Some r \<and> s_room (heap w r) = i"
    by (rule rooms_invD(4) [OF assms(1)])
  then show "member w' i u r \<longleftrightarrow> mget (live w') u = Some r \<and> s_room (heap w' r) = i"
    using assms(3,4,6) by (auto simp: member_core)
qed

text \<open>What a registered session's departure does to the invariant: it leaves the room and is in
  none.\<close>

lemma rooms_inv_leave_room:
  assumes inv: "rooms_inv w" and l: "mget (live w) (s_uuid (heap w r)) = Some r"
  shows "rooms_inv (leave_room now r (s_room (heap w r)) reason w)"
proof (cases "s_room (heap w r) = []")
  case True
  then have eq: "leave_room now r (s_room (heap w r)) reason w = set_room r [] w"
    using rooms_invD(3) [OF inv] by (simp add: leave_room_def)
  show ?thesis unfolding eq
    by (rule rooms_inv_cong [OF inv]) (use True rooms_invD(1,2) [OF inv] in \<open>auto simp: rooms_wf_def\<close>)
next
  case False
  let ?i = "s_room (heap w r)" and ?w = "leave_room now r (s_room (heap w r)) reason w"
  have rem: "removed_from w r ?i"
    unfolding removed_from_def using rooms_invD(4) [OF inv False] l by auto
  show ?thesis
  proof (rule rooms_invI)
    show "wf_net ?w" "rooms_wf ?w" using rooms_invD(1,2) [OF inv] by (simp_all add: rooms_wf_leave_room)
    fix i :: string and u x
    assume i: "i \<noteq> []"
    note m = rooms_invD(4) [OF inv i, of u x]
    show "member ?w i u x \<longleftrightarrow> mget (live ?w) u = Some x \<and> s_room (heap ?w x) = i"
    proof (cases "x = r")
      case True
      then show ?thesis using m rem i rooms_inv_uuid [OF inv, of u r]
        by (auto simp: member_leave_room s_room_leave_room)
    next
      case False
      then have "u \<noteq> s_uuid (heap w r)" if "mget (live w) u = Some x" using l that by auto
      with False m show ?thesis by (auto simp: member_leave_room s_room_leave_room)
    qed
  qed
qed

section \<open>Entering\<close>

lemma rooms_inv_enter_room:
  assumes inv: "rooms_inv w" and l: "mget (live w) (s_uuid (heap w r)) = Some r"
  shows "rooms_inv (fst (enter_room now r i ign reason w))"
proof (cases "get_room w i")
  case None
  with inv show ?thesis by (simp add: enter_room_def)
next
  case (Some room)
  have i: "i \<noteq> []" using Some rooms_invD(3) [OF inv] by auto
  let ?u = "s_uuid (heap w r)"
  define w1 where "w1 = on_room i (\<lambda>x. x\<lparr>rm_purge := None, rm_members := mput ?u r (rm_members x)\<rparr>) w"
  define w2 where "w2 = (if s_room (heap w r) \<noteq> [] then leave_room now r (s_room (heap w r)) reason w1 else w1)"
  have stay: "rooms_inv w" by (rule inv)
  have m1: "member w1 j v x \<longleftrightarrow> (if j = i \<and> v = ?u then x = r else member w j v x)" for j v x
    using Some by (auto simp: w1_def member_def)
  have wfw: "rooms_wf w" by (rule rooms_invD(2) [OF inv])
  then have "rd_id (rm_def room) = i \<and> wf_map (rm_members room)" using Some by (simp add: rooms_wf_def)
  then have "j \<noteq> [] \<and> rd_id (rm_def x) = j \<and> wf_map (rm_members x)" if "get_room w1 j = Some x" for j x
    using that wfw Some i by (cases "j = i") (auto simp: w1_def rooms_wf_def)
  moreover have "wf_map (rooms w1)" using wfw by (simp add: w1_def rooms_wf_def)
  ultimately have wf1: "rooms_wf w1" "wf_net w1"
    using rooms_invD(1) [OF inv] by (auto simp: rooms_wf_def w1_def)
  have h1: "heap w1 = heap w" "live w1 = live w" by (simp_all add: w1_def)
  have m2: "member w2 j v x \<longleftrightarrow> member w1 j v x \<and> \<not> (s_room (heap w r) \<noteq> [] \<and> j = s_room (heap w r) \<and> v = ?u)" for j v x
    by (auto simp: w2_def member_leave_room h1)
  have s2: "s_room (heap w2 x) = s_room (heap w x)" if "x \<noteq> r" for x
    using that by (auto simp: w2_def s_room_leave_room h1)
  have wf2: "rooms_wf w2" "wf_net w2" "live w2 = live w"
    using wf1 by (auto simp: w2_def rooms_wf_leave_room h1)
  have goal: "rooms_inv (set_room r i w2)" if ne: "s_room (heap w r) \<noteq> i"
  proof (rule rooms_invI)
    show "wf_net (set_room r i w2)" using wf2 by simp
    show "rooms_wf (set_room r i w2)" using wf2(1) by (simp add: rooms_wf_core)
    fix j :: string and v x assume j: "j \<noteq> []"
    note m = rooms_invD(4) [OF inv j, of v x]
    have mem: "member (set_room r i w2) j v x \<longleftrightarrow> member w2 j v x" by (simp add: member_core)
    show "member (set_room r i w2) j v x \<longleftrightarrow> mget (live (set_room r i w2)) v = Some x \<and> s_room (heap (set_room r i w2) x) = j"
    proof (cases "v = ?u")
      case True
      have "\<not> member w j ?u x" if "j \<noteq> s_room (heap w r)"
        using m True l that by auto
      then show ?thesis using True l ne j i unfolding mem m2 m1 by (auto simp: wf2(3))
    next
      case False
      then have "x \<noteq> r" if "mget (live w) v = Some x" using rooms_inv_uuid [OF inv that] by auto
      with False show ?thesis using m s2 unfolding mem m2 m1 by (auto simp: wf2(3))
    qed
  qed
  then have bc: "rooms_inv (broadcast ty p ex (set_room r i w2))" if "s_room (heap w r) \<noteq> i" for ty p ex
    using that by (intro rooms_inv_cong [OF goal]) (auto dest: rooms_invD(1,2) simp: rooms_wf_def)
  have "enter_room now r i ign reason w =
    (if s_room (heap w r) = i then (w, Inr i)
     else if \<not> ign \<and> rd_capacity (rm_def room) > 0
         \<and> int (length (rm_members room)) \<ge> rd_capacity (rm_def room) then (w, Inl RoomsFull)
     else (broadcast ''room.member_joined''
        (PRoomMember i (session_user (set_room r i w2) r) (if reason = ReasonMoved then reason else []))
        ?u (set_room r i w2), Inr i))"
    unfolding enter_room_def Let_def Some option.case w1_def [symmetric] h1 w2_def [symmetric] by (rule refl)
  then show ?thesis using inv bc by (simp split: if_splits)
qed

lemma rooms_inv_join:
  "rooms_inv w \<Longrightarrow> mget (live w) (s_uuid (heap w r)) = Some r \<Longrightarrow> rooms_inv (fst (join_room now r i pw w))"
  by (simp add: join_room_def Let_def rooms_inv_enter_room split: option.split)

lemma rooms_inv_force:
  "rooms_inv w \<Longrightarrow> mget (live w) (s_uuid (heap w r)) = Some r \<Longrightarrow> rooms_inv (fst (force_room now r i w))"
  by (simp add: force_room_def rooms_inv_enter_room split: option.split)

lemma rooms_inv_leave:
  "rooms_inv w \<Longrightarrow> mget (live w) (s_uuid (heap w r)) = Some r \<Longrightarrow> rooms_inv (fst (leave now r w))"
  by (simp add: leave_def Let_def rooms_inv_leave_room)

section \<open>Connecting and disconnecting\<close>

text \<open>What the gateway does with the registry and the rooms when a client completes a handshake
  and when its connection ends (\<open>gateway.handshake\<close> and \<open>gateway.leave\<close>).\<close>

definition connect :: "int \<Rightarrow> session \<Rightarrow> server \<Rightarrow> server \<times> (session_error + sref \<times> sref option)" where
  "connect max_users s w =
     (let (w1, r) = alloc s w in
      case add_session max_users r w1 of
        (w2, Inl err) \<Rightarrow> (w2, Inl err)
      | (w2, Inr None) \<Rightarrow> (w2, Inr (r, None))
      | (w2, Inr (Some old)) \<Rightarrow> (fst (transfer_membership old r w2), Inr (r, Some old)))"

definition hang_up :: "int \<Rightarrow> sref \<Rightarrow> server \<Rightarrow> server \<times> bool" where
  "hang_up now r w =
     (case remove_session r w of
        (w1, False) \<Rightarrow> (w1, False)
      | (w1, True) \<Rightarrow> (disconnect now r w1, True))"

lemma alloc_server:
  assumes "alloc s w = (w1, r)"
  shows "r = next_ref w" "live w1 = live w" "core w1 = core w" "rooms w1 = rooms w"
    "heap w1 = (heap w)(r := s)"
  using assms by (auto simp: alloc_def core_def get_room_def fun_eq_iff)

lemma rooms_inv_alloc:
  assumes "rooms_inv w" "alloc s w = (w1, r)" "s_out s = []"
  shows "rooms_inv w1"
proof (rule rooms_inv_cong [OF assms(1)])
  note a = alloc_server [OF assms(2)]
  show "wf_net w1" using wf_net_alloc assms rooms_invD(1) by blast
  show "wf_map (rooms w1)" using rooms_invD(2) [OF assms(1)] a by (simp add: rooms_wf_def)
  fix u x assume "mget (live w) u = Some x"
  then have "x \<noteq> r" using wf_net_live [OF rooms_invD(1) [OF assms(1)]] a(1) by fastforce
  then show "s_room (heap w1 x) = s_room (heap w x)" using a by simp
qed (use alloc_server [OF assms(2)] in auto)

lemma rooms_inv_connect:
  assumes inv: "rooms_inv w" and s: "s_room s = []" "s_out s = []"
  shows "rooms_inv (fst (connect m s w))"
proof -
  obtain w1 r where a: "alloc s w = (w1, r)" by fastforce
  note al = alloc_server [OF a]
  have inv1: "rooms_inv w1" by (rule rooms_inv_alloc [OF inv a s(2)])
  have hr: "heap w1 r = s" using al by simp
  have rnew: "r < next_ref w1" using a by (auto simp: alloc_def)
  let ?u = "s_uuid s"
  show ?thesis
  proof (cases "mget (live w1) ?u")
    case None
    let ?w2 = "w1\<lparr>live := mput ?u r (live w1)\<rparr>"
    have "rooms_inv ?w2"
    proof (rule rooms_invI)
      show "wf_net ?w2" using wf_net_mput [OF rooms_invD(1) [OF inv1] rnew] hr by simp
      show "rooms_wf ?w2" using rooms_invD(2) [OF inv1] by (simp add: rooms_wf_def get_room_def)
      fix i :: string and u x assume i: "i \<noteq> []"
      have "member ?w2 i u x \<longleftrightarrow> member w1 i u x" by (simp add: member_def get_room_def)
      then show "member ?w2 i u x \<longleftrightarrow> mget (live ?w2) u = Some x \<and> s_room (heap ?w2 x) = i"
        using rooms_invD(4) [OF inv1 i, of u x] None hr s i by auto
    qed
    with None a inv1 hr show ?thesis by (auto simp: connect_def add_session_def Let_def)
  next
    case (Some old)
    define w2 where "w2 = (close_session old ReasonReplaced w1)\<lparr>live := mput ?u r (live w1)\<rparr>"
    have old: "s_uuid (heap w1 old) = ?u" "old \<noteq> r"
      using rooms_inv_uuid [OF inv1 Some] al wf_net_live [OF rooms_invD(1) [OF inv]] Some by auto
    have add: "add_session m r w1 = (w2, Inr (Some old))"
      using Some hr by (simp add: add_session_def Let_def w2_def)
    have h2: "s_room (heap w2 x) = s_room (heap w1 x)" "s_uuid (heap w2 x) = s_uuid (heap w1 x)"
      "live w2 = mput ?u r (live w1)" for x
      by (simp_all add: w2_def close_session_def heap_at_session)
    have g2: "get_room w2 = get_room w1" "rooms w2 = rooms w1"
      by (simp_all add: w2_def close_session_def get_room_def fun_eq_iff)
    have wf2: "wf_net w2" using wf_net_add [OF rooms_invD(1) [OF inv1] add rnew] .
    have conn: "fst (connect m s w) = fst (transfer_membership old r w2)"
      by (simp add: connect_def a add)
    let ?p = "s_room (heap w1 old)"
    show ?thesis
    proof (cases "?p = []")
      case True
      have "rooms_inv w2"
      proof (rule rooms_invI)
        show "wf_net w2" by (rule wf2)
        show "rooms_wf w2" using rooms_invD(2) [OF inv1] by (simp add: rooms_wf_def g2)
        fix i :: string and u x assume i: "i \<noteq> []"
        have "member w2 i u x \<longleftrightarrow> member w1 i u x" by (simp add: member_def g2)
        then show "member w2 i u x \<longleftrightarrow> mget (live w2) u = Some x \<and> s_room (heap w2 x) = i"
          using rooms_invD(4) [OF inv1 i, of u x] Some True hr s i by (auto simp: h2)
      qed
      then show ?thesis using True by (simp add: conn transfer_membership_def Let_def h2)
    next
      case False
      from rooms_invD(4) [OF inv1 False, of ?u old] Some obtain room where
        room: "get_room w1 ?p = Some room" "mget (rm_members room) ?u = Some old" by (auto simp: member_def)
      define w3 where "w3 = on_room ?p (\<lambda>x. x\<lparr>rm_members := mput ?u r (rm_members x), rm_purge := None\<rparr>) w2"
      have tr: "fst (transfer_membership old r w2) = set_room r ?p (set_room old [] w3)"
        using False room old hr by (simp add: transfer_membership_def Let_def h2 g2 w3_def)
      have m3: "member w3 i u x \<longleftrightarrow> (if i = ?p \<and> u = ?u then x = r else member w1 i u x)" for i u x
        using room by (auto simp: w3_def member_def g2)
      have "rooms_inv (set_room r ?p (set_room old [] w3))"
      proof (rule rooms_invI)
        show "wf_net (set_room r ?p (set_room old [] w3))" using wf2 by (simp add: w3_def)
        have wfw: "rooms_wf w1" by (rule rooms_invD(2) [OF inv1])
        then have "j \<noteq> [] \<and> rd_id (rm_def x) = j \<and> wf_map (rm_members x)" if "get_room w3 j = Some x" for j x
          using that room False by (cases "j = ?p") (auto simp: w3_def rooms_wf_def g2)
        moreover have "wf_map (rooms w3)" using wfw by (simp add: w3_def rooms_wf_def g2)
        ultimately show "rooms_wf (set_room r ?p (set_room old [] w3))" by (simp add: rooms_wf_def)
        fix i :: string and u x assume i: "i \<noteq> []"
        note m = rooms_invD(4) [OF inv1 i, of u x]
        have mem: "member (set_room r ?p (set_room old [] w3)) i u x \<longleftrightarrow> member w3 i u x"
          by (simp add: member_core)
        show "member (set_room r ?p (set_room old [] w3)) i u x
          \<longleftrightarrow> mget (live (set_room r ?p (set_room old [] w3))) u = Some x
            \<and> s_room (heap (set_room r ?p (set_room old [] w3)) x) = i"
        proof (cases "u = ?u")
          case True
          then show ?thesis using m Some i old unfolding mem m3
            by (auto simp: w3_def h2)
        next
          case False
          then have "x \<noteq> old \<and> x \<noteq> r" if "mget (live w1) u = Some x"
            using rooms_inv_uuid [OF inv1 that] old hr by auto
          with False m show ?thesis unfolding mem m3 by (auto simp: w3_def h2)
        qed
      qed
      then show ?thesis by (simp add: conn tr)
    qed
  qed
qed

lemma rooms_inv_hang_up:
  assumes inv: "rooms_inv w"
  shows "rooms_inv (fst (hang_up now r w))"
proof (cases "mget (live w) (s_uuid (heap w r)) = Some r")
  case False
  with inv show ?thesis by (simp add: hang_up_def remove_session_def Let_def)
next
  case True
  let ?u = "s_uuid (heap w r)" and ?p = "s_room (heap w r)"
  define w1 where "w1 = w\<lparr>live := mdel ?u (live w)\<rparr>"
  have h1: "heap w1 = heap w" "live w1 = mdel ?u (live w)" by (simp_all add: w1_def)
  have g1: "get_room w1 = get_room w" "rooms w1 = rooms w" by (simp_all add: w1_def get_room_def fun_eq_iff)
  have eq: "fst (hang_up now r w) = disconnect now r w1"
    using True by (simp add: hang_up_def remove_session_def Let_def w1_def)
  have wf1: "wf_net w1" "rooms_wf w1"
    using rooms_invD(1,2) [OF inv] wf_net_mdel by (auto simp: w1_def rooms_wf_def get_room_def)
  have m1: "member w1 i u x \<longleftrightarrow> member w i u x" for i u x by (simp add: member_def g1)
  have other: "x \<noteq> r" if "mget (live w) u = Some x" "u \<noteq> ?u" for u x
    using rooms_inv_uuid [OF inv that(1)] that(2) by auto
  show ?thesis
  proof (cases "?p = []")
    case p: True
    have "rooms_inv w1"
    proof (rule rooms_invI)
      fix i :: string and u x assume i: "i \<noteq> []"
      show "member w1 i u x \<longleftrightarrow> mget (live w1) u = Some x \<and> s_room (heap w1 x) = i"
        using rooms_invD(4) [OF inv i, of u x] True p i by (auto simp: m1 h1)
    qed (use wf1 in auto)
    with p show ?thesis by (simp add: eq disconnect_def Let_def h1)
  next
    case p: False
    let ?w = "leave_room now r ?p ReasonDisconnected w1"
    have "rooms_inv ?w"
    proof (rule rooms_invI)
      show "wf_net ?w" "rooms_wf ?w" using wf1 by (simp_all add: rooms_wf_leave_room)
      fix i :: string and u x assume i: "i \<noteq> []"
      note m = rooms_invD(4) [OF inv i, of u x]
      show "member ?w i u x \<longleftrightarrow> mget (live ?w) u = Some x \<and> s_room (heap ?w x) = i"
      proof (cases "u = ?u")
        case u: True
        then show ?thesis using m True by (auto simp: member_leave_room m1 h1)
      next
        case u: False
        have "s_room (heap ?w x) = s_room (heap w x)" if "x \<noteq> r"
          using that by (simp add: s_room_leave_room h1)
        then show ?thesis using m u other [of u x] by (auto simp: member_leave_room m1 h1)
      qed
    qed
    with p show ?thesis by (simp add: eq disconnect_def Let_def h1)
  qed
qed

section \<open>Purging and changing definitions\<close>

lemma rooms_inv_purge: "rooms_inv w \<Longrightarrow> rooms_inv (purge i w)"
  by (rule rooms_inv_cong) (auto dest: rooms_invD(1,2) simp: rooms_wf_def)

lemma rooms_inv_broadcast: "rooms_inv w \<Longrightarrow> rooms_inv (broadcast ty p ex w)"
  by (rule rooms_inv_cong) (auto dest: rooms_invD(1,2) simp: rooms_wf_def)

lemma rooms_inv_at_session:
  assumes "rooms_inv w" "\<And>s. s_uuid (f s) = s_uuid s" "\<And>s. s_room (f s) = s_room s"
    "\<And>s. queue_ok s \<Longrightarrow> queue_ok (f s)"
  shows "rooms_inv (at_session r f w)"
proof (rule rooms_inv_cong [OF assms(1)])
  show "wf_net (at_session r f w)" by (rule wf_net_at_session) (use assms rooms_invD(1) in auto)
qed (use assms rooms_invD(2) [OF assms(1)] in \<open>auto simp: rooms_wf_def heap_at_session\<close>)

lemma rooms_inv_acc: "rooms_inv (w\<lparr>acc := a\<rparr>) = rooms_inv w"
  by (simp add: rooms_inv_def wf_net_def rooms_wf_def get_room_def member_def)

lemma rooms_inv_set_db [simp]: "rooms_inv (set_db d w) = rooms_inv w"
  by (simp add: set_db_def rooms_inv_acc)

lemma new_room_fields [simp]:
  "rm_def (new_room d) = d" "rm_members (new_room d) = []" "rm_ephemerals (new_room d) = []"
  "rm_purge (new_room d) = None"
  by (simp_all add: new_room_def)

lemma get_room_set_db [simp]: "get_room (set_db d w) = get_room w"
  by (simp add: set_db_def get_room_def fun_eq_iff)

lemma new_room_redefine [simp]: "(new_room d)\<lparr>rm_def := e\<rparr> = new_room e"
  by (simp add: new_room_def)

text \<open>A new, empty room.\<close>

lemma rooms_inv_add_room:
  assumes inv: "rooms_inv w" and "get_room w i = None" "i \<noteq> []" "rd_id d = i"
  shows "rooms_inv (w\<lparr>rooms := mput i (new_room d) (rooms w)\<rparr>)" (is "rooms_inv ?w")
proof (rule rooms_invI)
  have g: "get_room ?w j = (if j = i then Some (new_room d) else get_room w j)" for j
    by (simp add: get_room_def)
  show "wf_net ?w" using rooms_invD(1) [OF inv] by (simp add: wf_net_def)
  show "rooms_wf ?w" unfolding rooms_wf_def g
    using rooms_invD(2) [OF inv] assms(3,4) by (auto simp: rooms_wf_def)
  fix j :: string and u x assume j: "j \<noteq> []"
  have "member ?w j u x \<longleftrightarrow> member w j u x" using assms(2) unfolding member_def g by auto
  with rooms_invD(4) [OF inv j, of u x]
  show "member ?w j u x \<longleftrightarrow> mget (live ?w) u = Some x \<and> s_room (heap ?w x) = j" by simp
qed

lemma rooms_inv_create_step:
  assumes inv: "rooms_inv w" and fresh: "i \<noteq> []" "get_room w i = None" and d: "rd_id r = i"
  shows "rooms_inv (broadcast ty p ex (set_db d w\<lparr>rooms := mput i (new_room r) (rooms (set_db d w))\<rparr>))"
proof (rule rooms_inv_broadcast, rule rooms_inv_add_room)
  show "rooms_inv (set_db d w)" using inv by simp
  show "get_room (set_db d w) i = None" using fresh(2) by simp
qed (fact fresh(1), fact d)

lemma create_room_cases:
  obtains (refused) err where "create_room e lower actor req w = (w, Inl err)"
  | (created) d db' p where "rd_id d = new_uuid e" "db_create_room e d (db_of w) = Inr db'"
      "create_room e lower actor req w =
         (broadcast ''room.created'' p actor (set_db db' w\<lparr>rooms := mput (new_uuid e) (new_room d) (rooms (set_db db' w))\<rparr>),
          Inr (new_uuid e))"
proof (cases "normalize_room_name (rc_name req)")
  case (Inl err)
  then show ?thesis by (intro refused [of err]) (simp add: create_room_def)
next
  case (Inr name)
  define cap where "cap = (if rc_capacity req \<le> 0 then cfg_int (cfg w) KeyRoomsDefaultMaxUsers else rc_capacity req)"
  show ?thesis
  proof (cases "(cfg_int (cfg w) KeyRoomsMaxPerServer > 0
      \<and> int (length (rooms w)) \<ge> cfg_int (cfg w) KeyRoomsMaxPerServer) \<or> name_taken lower w name []
      \<or> (rc_required_role req \<noteq> [] \<and> \<not> role_exists (acc w) (rc_required_role req))
      \<or> (\<exists>err. db_next_room_position e (db_of w) = Inl err)")
    case True
    then have "\<exists>err. create_room e lower actor req w = (w, Inl err)"
      unfolding create_room_def Let_def Inr by (auto split: sum.split)
    then show ?thesis using refused by blast
  next
    case False
    then obtain pos where pos: "db_next_room_position e (db_of w) = Inr pos"
      by (cases "db_next_room_position e (db_of w)") auto
    define d where "d = \<lparr>rd_id = new_uuid e, rd_name = name, rd_password = trim_space (rc_password req),
        rd_capacity = cap, rd_position = pos, rd_required_role = rc_required_role req,
        rd_created_at = 0, rd_updated_at = 0\<rparr>"
    have d: "rd_id d = new_uuid e" by (simp add: d_def)
    have c: "(cfg_int (cfg w) KeyRoomsMaxPerServer > 0
        \<and> int (length (rooms w)) \<ge> cfg_int (cfg w) KeyRoomsMaxPerServer) = False"
      "name_taken lower w name [] = False"
      "(rc_required_role req \<noteq> [] \<and> \<not> role_exists (acc w) (rc_required_role req)) = False"
      using False by blast+
    have eq: "create_room e lower actor req w =
      (case db_create_room e d (db_of w) of
         Inl RoomNameTaken \<Rightarrow> (w, Inl RoomsNameTaken)
       | Inl _ \<Rightarrow> (w, Inl RoomsStore)
       | Inr d' \<Rightarrow>
           (let w1 = set_db d' w; w2 = w1\<lparr>rooms := mput (rd_id d) (new_room d) (rooms w1)\<rparr> in
            (broadcast ''room.created'' (PRoom (view_room lower (heap w2) False (new_room d))) actor w2,
             Inr (rd_id d))))"
      unfolding create_room_def Let_def Inr sum.case pos c if_False d_def cap_def by (rule refl)
    show ?thesis
    proof (cases "db_create_room e d (db_of w)")
      case (Inl err)
      then have "\<exists>err. create_room e lower actor req w = (w, Inl err)"
        unfolding eq by (cases err) auto
      then show ?thesis using refused by blast
    next
      case (Inr db')
      then show ?thesis
        by (intro created [OF d Inr, of "PRoom (view_room lower
          (heap (set_db db' w\<lparr>rooms := mput (rd_id d) (new_room d) (rooms (set_db db' w))\<rparr>)) False (new_room d))"])
          (simp only: eq Inr sum.case Let_def d)
    qed
  qed
qed

lemma rooms_inv_create:
  assumes inv: "rooms_inv w" and fresh: "new_uuid e \<noteq> []" "get_room w (new_uuid e) = None"
  shows "rooms_inv (fst (create_room e lower actor req w))"
proof (cases rule: create_room_cases [of e lower actor req w])
  case (created d db' p)
  then show ?thesis using rooms_inv_create_step [OF inv fresh created(1)] by simp
qed (use inv in simp)

lemma apply_room_update_id: "apply_room_update lower w req d = Inr d' \<Longrightarrow> rd_id d' = rd_id d"
  by (auto simp: apply_room_update_def split: option.splits sum.splits if_splits)

text \<open>A new definition for a room that stays.\<close>

lemma rooms_inv_redefine:
  assumes inv: "rooms_inv w" and "rd_id d = i"
  shows "rooms_inv (on_room i (\<lambda>r. r\<lparr>rm_def := d\<rparr>) w)" (is "rooms_inv ?w")
proof (rule rooms_invI)
  show "wf_net ?w" using rooms_invD(1) [OF inv] by simp
  show "rooms_wf ?w" using rooms_invD(2) [OF inv] assms(2) by (auto simp: rooms_wf_def)
  fix j :: string and u x assume j: "j \<noteq> []"
  have "member ?w j u x \<longleftrightarrow> member w j u x" by (auto simp: member_def)
  with rooms_invD(4) [OF inv j, of u x]
  show "member ?w j u x \<longleftrightarrow> mget (live ?w) u = Some x \<and> s_room (heap ?w x) = j" by simp
qed

lemma rooms_inv_update:
  assumes inv: "rooms_inv w"
  shows "rooms_inv (fst (update_room e lower actor req w))"
proof -
  have "rooms_inv (broadcast ty p ex (on_room (ru_room_id req) (\<lambda>r. r\<lparr>rm_def := d\<rparr>) (set_db d' w)))"
    if "get_room w (ru_room_id req) = Some room" "apply_room_update lower w req (rm_def room) = Inr d" for ty p ex room d d'
  proof -
    have "rd_id d = ru_room_id req"
      using that apply_room_update_id rooms_invD(2) [OF inv] by (metis rooms_wf_def)
    then show ?thesis using inv by (intro rooms_inv_broadcast rooms_inv_redefine) simp_all
  qed
  then show ?thesis using inv
    by (auto simp: update_room_def Let_def split: option.split sum.split store_error.split)
qed

section \<open>Removing rooms\<close>

lemma eject_frame [simp, net_frame]:
  "live (eject i b m w) = live w" "next_ref (eject i b m w) = next_ref w" "rooms (eject i b m w) = rooms w"
  "cfg (eject i b m w) = cfg w" "acc (eject i b m w) = acc w" "get_room (eject i b m w) = get_room w"
  "s_uuid (heap (eject i b m w) x) = s_uuid (heap w x)"
  "s_room (heap (eject i b m w) x) = (if x = snd m then [] else s_room (heap w x))"
  by (simp_all add: eject_def Let_def send_message_def)

lemma wf_net_eject [simp]: "wf_net w \<Longrightarrow> wf_net (eject i b m w)"
  by (simp add: eject_def Let_def send_message_def)

lemma fold_eject [simp]:
  "live (fold (eject i b) ms w) = live w" "next_ref (fold (eject i b) ms w) = next_ref w"
  "rooms (fold (eject i b) ms w) = rooms w" "cfg (fold (eject i b) ms w) = cfg w"
  "acc (fold (eject i b) ms w) = acc w" "get_room (fold (eject i b) ms w) = get_room w"
  "s_uuid (heap (fold (eject i b) ms w) x) = s_uuid (heap w x)"
  by (induction ms arbitrary: w) simp_all

lemma s_room_fold_eject:
  "s_room (heap (fold (eject i b) ms w) x) = (if x \<in> snd ` set ms then [] else s_room (heap w x))"
  by (induction ms arbitrary: w) auto

lemma wf_net_fold_eject [simp]: "wf_net w \<Longrightarrow> wf_net (fold (eject i b) ms w)"
  by (induction ms arbitrary: w) simp_all

lemma on_delete_frame [simp, net_frame]:
  "live (on_delete i w) = live w" "next_ref (on_delete i w) = next_ref w" "rooms (on_delete i w) = rooms w"
  "heap (on_delete i w) = heap w" "cfg (on_delete i w) = cfg w" "acc (on_delete i w) = acc w"
  "get_room (on_delete i w) = get_room w"
  by (simp_all add: on_delete_def Let_def get_room_def fun_eq_iff split: option.split)

lemma wf_net_on_delete [simp]: "wf_net (on_delete i w) = wf_net w"
  by (rule wf_net_cong) simp_all

text \<open>Taking rooms out of the map and their members out of the rooms keeps the invariant.\<close>

lemma rooms_inv_without:
  assumes inv: "rooms_inv w" and wf: "wf_net w'" and l: "live w' = live w"
    and wm: "wf_map (rooms w')"
    and g: "\<And>i. get_room w' i = (if P i then None else get_room w i)"
    and s: "\<And>u r. mget (live w) u = Some r \<Longrightarrow>
        s_room (heap w' r) = (if P (s_room (heap w r)) then [] else s_room (heap w r))"
  shows "rooms_inv w'"
proof (rule rooms_invI)
  show "wf_net w'" by fact
  show "rooms_wf w'" using rooms_invD(2) [OF inv] wm by (auto simp: rooms_wf_def g split: if_splits)
  fix i :: string and u r assume i: "i \<noteq> []"
  note m = rooms_invD(4) [OF inv i, of u r]
  show "member w' i u r \<longleftrightarrow> mget (live w') u = Some r \<and> s_room (heap w' r) = i"
    using m s i by (auto simp: member_def g l split: if_splits)
qed

lemma live_in_room:
  assumes "rooms_inv w" "get_room w i = Some room" "mget (live w) u = Some r"
  shows "r \<in> snd ` set (rm_members room) \<longleftrightarrow> s_room (heap w r) = i"
proof -
  have i: "i \<noteq> []" using assms(2) rooms_invD(3) [OF assms(1)] by auto
  have wf: "wf_map (rm_members room)" using rooms_invD(2) [OF assms(1)] assms(2) by (simp add: rooms_wf_def)
  have m: "mget (rm_members room) v = Some r \<longleftrightarrow> mget (live w) v = Some r \<and> s_room (heap w r) = i" for v
    using rooms_invD(4) [OF assms(1) i, of v r] assms(2) by (simp add: member_def)
  show ?thesis unfolding vals_wf [OF wf] m using assms(3) by blast
qed

lemma rooms_inv_delete:
  assumes inv: "rooms_inv w"
  shows "rooms_inv (fst (delete_room e actor i w))"
proof -
  have "rooms_inv (broadcast ty p ex (clear_content i room (fold (eject i False) (rm_members room)
      (on_delete i (set_db d w\<lparr>rooms := mdel i (rooms (set_db d w))\<rparr>)))))" (is "rooms_inv (broadcast ty p ex ?w)")
    if "get_room w i = Some room" for ty p ex room d
  proof (rule rooms_inv_broadcast, rule rooms_inv_without [OF inv, where P = "\<lambda>j. j = i"])
    have "wf_net (set_db d w\<lparr>rooms := mdel i (rooms (set_db d w))\<rparr>)"
      using rooms_invD(1) [OF inv] by (simp add: wf_net_def set_db_def)
    then show "wf_net ?w" by simp
    show "get_room ?w j = (if j = i then None else get_room w j)" for j
      by (simp add: get_room_def set_db_def)
    show "s_room (heap ?w r) = (if s_room (heap w r) = i then [] else s_room (heap w r))"
      if "mget (live w) u = Some r" for u r
      using live_in_room [OF inv \<open>get_room w i = Some room\<close> that]
      by (auto simp: s_room_fold_eject set_db_def)
  qed (use rooms_invD(2) [OF inv] in \<open>auto simp: rooms_wf_def set_db_def\<close>)
  then show ?thesis using inv
    by (auto simp: delete_room_def Let_def split: option.split sum.split store_error.split)
qed

section \<open>Reloading\<close>

definition same_members :: "(string, room) gomap \<Rightarrow> (string, room) gomap \<Rightarrow> bool" where
  "same_members rs rs' \<longleftrightarrow>
     (\<forall>i. case mget rs i of
        Some r \<Rightarrow> \<exists>d. mget rs' i = Some (r\<lparr>rm_def := d\<rparr>) \<and> rd_id d = rd_id (rm_def r)
      | None \<Rightarrow> (case mget rs' i of None \<Rightarrow> True | Some r \<Rightarrow> \<exists>d. r = new_room d \<and> rd_id d = i \<and> i \<noteq> []))"

definition ids_ok :: "(string, room) gomap \<Rightarrow> bool" where
  "ids_ok rs \<longleftrightarrow> (\<forall>i r. mget rs i = Some r \<longrightarrow> rd_id (rm_def r) = i)"

lemma same_members_refl: "same_members rs rs"
proof -
  have "\<exists>d. r = r\<lparr>rm_def := d\<rparr> \<and> rd_id d = rd_id (rm_def r)" for r :: room
    by (rule exI [of _ "rm_def r"]) simp
  then show ?thesis by (auto simp: same_members_def split: option.split)
qed

lemma merge_defs_members:
  "merge_defs ds rs = (rs', cr, up) \<Longrightarrow> ids_ok rs \<Longrightarrow> \<forall>d \<in> set ds. rd_id d \<noteq> [] \<Longrightarrow>
     same_members rs rs' \<and> ids_ok rs' \<and> (wf_map rs \<longrightarrow> wf_map rs') \<and> (\<forall>d \<in> set ds. mget rs' (rd_id d) \<noteq> None)"
proof (induction ds arbitrary: rs cr up)
  case Nil
  then show ?case by (simp add: same_members_refl)
next
  case (Cons d ds)
  let ?i = "rd_id d"
  show ?case
  proof (cases "mget rs ?i")
    case None
    let ?rs = "mput ?i (new_room d) rs"
    obtain cr1 where m: "merge_defs ds ?rs = (rs', cr1, up)"
      using Cons.prems(1) None by (auto split: prod.splits)
    have ok: "ids_ok ?rs" using Cons.prems(2) by (auto simp: ids_ok_def)
    from Cons.IH [OF m ok] Cons.prems(3)
    have IH: "same_members ?rs rs'" "ids_ok rs'" "wf_map ?rs \<longrightarrow> wf_map rs'" "\<forall>d \<in> set ds. mget rs' (rd_id d) \<noteq> None"
      by auto
    from IH(1) have at: "\<exists>e. mget rs' ?i = Some (new_room e) \<and> rd_id e = ?i"
      by (auto simp: same_members_def new_room_def dest: spec [of _ ?i])
    have "same_members rs rs'"
      unfolding same_members_def
    proof
      fix i
      have "case mget ?rs i of Some r \<Rightarrow> \<exists>d. mget rs' i = Some (r\<lparr>rm_def := d\<rparr>) \<and> rd_id d = rd_id (rm_def r)
        | None \<Rightarrow> (case mget rs' i of None \<Rightarrow> True | Some r \<Rightarrow> \<exists>d. r = new_room d \<and> rd_id d = i \<and> i \<noteq> [])"
        using IH(1) unfolding same_members_def by (rule spec)
      then show "case mget rs i of Some r \<Rightarrow> \<exists>d. mget rs' i = Some (r\<lparr>rm_def := d\<rparr>) \<and> rd_id d = rd_id (rm_def r)
        | None \<Rightarrow> (case mget rs' i of None \<Rightarrow> True | Some r \<Rightarrow> \<exists>d. r = new_room d \<and> rd_id d = i \<and> i \<noteq> [])"
        using at None Cons.prems(3) by (cases "i = ?i") auto
    qed
    with IH at show ?thesis by auto
  next
    case (Some r)
    define r1 where "r1 = (if room_changed (rm_def r) d then r\<lparr>rm_def := d\<rparr> else r)"
    let ?rs = "mput ?i r1 rs"
    have rid: "rd_id (rm_def r) = ?i" "rd_id (rm_def r1) = ?i"
      using Cons.prems(2) Some by (auto simp: ids_ok_def r1_def)
    have "\<exists>up1. merge_defs ds (if room_changed (rm_def r) d then ?rs else rs) = (rs', cr, up1)"
      using Cons.prems(1) Some by (auto simp: r1_def split: prod.splits if_splits)
    then obtain up1 rs1 where m: "merge_defs ds rs1 = (rs', cr, up1)"
      and rs1: "rs1 = (if room_changed (rm_def r) d then ?rs else rs)" by blast
    have g1: "mget rs1 i = (if i = ?i then Some r1 else mget rs i)" for i
      using Some by (auto simp: rs1 r1_def)
    have ok: "ids_ok rs1" using Cons.prems(2) rid by (auto simp: ids_ok_def g1)
    from Cons.IH [OF m ok] Cons.prems(3)
    have IH: "same_members rs1 rs'" "ids_ok rs'" "wf_map rs1 \<longrightarrow> wf_map rs'" "\<forall>d \<in> set ds. mget rs' (rd_id d) \<noteq> None"
      by auto
    have at: "\<exists>e. mget rs' ?i = Some (r\<lparr>rm_def := e\<rparr>) \<and> rd_id e = ?i"
    proof -
      have "\<exists>e. mget rs' ?i = Some (r1\<lparr>rm_def := e\<rparr>) \<and> rd_id e = rd_id (rm_def r1)"
        using IH(1) g1 [of ?i] by (auto simp: same_members_def dest: spec [of _ ?i])
      then show ?thesis using rid by (auto simp: r1_def)
    qed
    have "same_members rs rs'"
      unfolding same_members_def
    proof
      fix i
      have "case mget rs1 i of Some r \<Rightarrow> \<exists>d. mget rs' i = Some (r\<lparr>rm_def := d\<rparr>) \<and> rd_id d = rd_id (rm_def r)
        | None \<Rightarrow> (case mget rs' i of None \<Rightarrow> True | Some r \<Rightarrow> \<exists>d. r = new_room d \<and> rd_id d = i \<and> i \<noteq> [])"
        using IH(1) unfolding same_members_def by (rule spec)
      then show "case mget rs i of Some r \<Rightarrow> \<exists>d. mget rs' i = Some (r\<lparr>rm_def := d\<rparr>) \<and> rd_id d = rd_id (rm_def r)
        | None \<Rightarrow> (case mget rs' i of None \<Rightarrow> True | Some r \<Rightarrow> \<exists>d. r = new_room d \<and> rd_id d = i \<and> i \<noteq> [])"
        using at Some rid by (cases "i = ?i") (auto simp: g1)
    qed
    with IH at show ?thesis by (auto simp: rs1 split: if_splits)
  qed
qed

lemma announce_frame [simp]:
  "live (announce_room lower ty i w) = live w" "rooms (announce_room lower ty i w) = rooms w"
  "next_ref (announce_room lower ty i w) = next_ref w" "acc (announce_room lower ty i w) = acc w"
  "cfg (announce_room lower ty i w) = cfg w"
  "s_room (heap (announce_room lower ty i w) x) = s_room (heap w x)"
  "s_uuid (heap (announce_room lower ty i w) x) = s_uuid (heap w x)"
  by (simp_all add: announce_room_def split: option.split)

lemma wf_net_announce [simp]: "wf_net w \<Longrightarrow> wf_net (announce_room lower ty i w)"
  by (simp add: announce_room_def split: option.split)

lemma fold_announce [simp]:
  "live (fold (announce_room lower ty) is w) = live w" "rooms (fold (announce_room lower ty) is w) = rooms w"
  "next_ref (fold (announce_room lower ty) is w) = next_ref w" "acc (fold (announce_room lower ty) is w) = acc w"
  "cfg (fold (announce_room lower ty) is w) = cfg w"
  "s_room (heap (fold (announce_room lower ty) is w) x) = s_room (heap w x)"
  by (induction "is" arbitrary: w) simp_all

lemma wf_net_fold_announce [simp]: "wf_net w \<Longrightarrow> wf_net (fold (announce_room lower ty) is w)"
  by (induction "is" arbitrary: w) simp_all

lemma drop_removed_frame [simp]:
  "live (drop_removed ir w) = live w" "rooms (drop_removed ir w) = rooms w" "acc (drop_removed ir w) = acc w"
  "next_ref (drop_removed ir w) = next_ref w" "cfg (drop_removed ir w) = cfg w"
  "s_room (heap (drop_removed ir w) x) = (if x \<in> snd ` set (rm_members (snd ir)) then [] else s_room (heap w x))"
  by (simp_all add: drop_removed_def evict_def s_room_fold_eject)

lemma wf_net_drop_removed [simp]: "wf_net w \<Longrightarrow> wf_net (drop_removed ir w)"
  by (simp add: drop_removed_def evict_def)

lemma fold_drop_removed [simp]:
  "live (fold drop_removed irs w) = live w" "rooms (fold drop_removed irs w) = rooms w"
  "acc (fold drop_removed irs w) = acc w" "cfg (fold drop_removed irs w) = cfg w"
  "s_room (heap (fold drop_removed irs w) x) =
     (if \<exists>ir \<in> set irs. x \<in> snd ` set (rm_members (snd ir)) then [] else s_room (heap w x))"
  by (induction irs arbitrary: w) auto

lemma wf_net_fold_drop_removed [simp]: "wf_net w \<Longrightarrow> wf_net (fold drop_removed irs w)"
  by (induction irs arbitrary: w) simp_all

lemma rooms_inv_merged:
  assumes inv: "rooms_inv w" and sm: "same_members (rooms w) rs" and "ids_ok rs" "wf_map rs"
  shows "rooms_inv (w\<lparr>rooms := rs\<rparr>)" (is "rooms_inv ?w")
proof (rule rooms_invI)
  have g: "get_room ?w i = mget rs i" for i by (simp add: get_room_def)
  have at: "case get_room w i of Some r \<Rightarrow> \<exists>d. mget rs i = Some (r\<lparr>rm_def := d\<rparr>) \<and> rd_id d = rd_id (rm_def r)
        | None \<Rightarrow> (case mget rs i of None \<Rightarrow> True | Some r \<Rightarrow> \<exists>d. r = new_room d \<and> rd_id d = i \<and> i \<noteq> [])" for i
    using sm unfolding same_members_def get_room_def by (rule spec)
  show "wf_net ?w" using rooms_invD(1) [OF inv] by (simp add: wf_net_def)
  have "i \<noteq> [] \<and> rd_id (rm_def r) = i \<and> wf_map (rm_members r)" if "mget rs i = Some r" for i r
    using at [of i] that rooms_invD(2) [OF inv] by (cases "get_room w i") (auto simp: rooms_wf_def)
  then show "rooms_wf ?w" using assms(4) by (simp add: rooms_wf_def g)
  fix i :: string and u x assume i: "i \<noteq> []"
  have "member ?w i u x \<longleftrightarrow> member w i u x"
    using at [of i] by (cases "get_room w i") (auto simp: member_def g split: option.splits)
  with rooms_invD(4) [OF inv i, of u x]
  show "member ?w i u x \<longleftrightarrow> mget (live ?w) u = Some x \<and> s_room (heap ?w x) = i" by simp
qed

lemma rooms_inv_reload:
  assumes inv: "rooms_inv w" and ids: "\<forall>d \<in> set (t_rooms (db_of w)). rd_id d \<noteq> []"
  shows "rooms_inv (fst (reload_rooms e lower w))"
proof (cases "db_list_rooms e (db_of w)")
  case (Inl err)
  with inv show ?thesis by (simp add: reload_rooms_def)
next
  case (Inr ds)
  then have ds: "\<forall>d \<in> set ds. rd_id d \<noteq> []" using ids by (auto simp: db_list_rooms_def split: if_splits)
  obtain rs cr up where m: "merge_defs ds (rooms w) = (rs, cr, up)" by (metis prod_cases3)
  have wfw: "wf_map (rooms w)" "ids_ok (rooms w)"
    using rooms_invD(2) [OF inv] by (auto simp: rooms_wf_def ids_ok_def get_room_def)
  from merge_defs_members [OF m wfw(2) ds] wfw(1)
  have rs: "same_members (rooms w) rs" "ids_ok rs" "wf_map rs" by auto
  let ?wm = "w\<lparr>rooms := rs\<rparr>"
  note invm = rooms_inv_merged [OF inv rs]
  define seen where "seen = (\<lambda>ir::string \<times> room. fst ir \<in> set (map rd_id ds))"
  define P where "P = (\<lambda>i. i \<notin> set (map rd_id ds))"
  define w3 where "w3 = fold (announce_room lower ''room.updated'') up
      (fold (announce_room lower ''room.created'') cr (w\<lparr>rooms := filter seen rs\<rparr>))"
  define w4 where "w4 = fold drop_removed (filter (\<lambda>ir. \<not> seen ir) rs) w3"
  have eq: "fst (reload_rooms e lower w) = w4"
    by (simp add: reload_rooms_def Inr m Let_def seen_def w3_def w4_def)
  have "rooms_inv w4"
  proof (rule rooms_inv_without [OF invm, where P = P])
    have "wf_net (w\<lparr>rooms := filter seen rs\<rparr>)" using rooms_invD(1) [OF inv] by (simp add: wf_net_def)
    then show "wf_net w4" by (simp add: w4_def w3_def)
    show "live w4 = live ?wm" by (simp add: w4_def w3_def)
    show "wf_map (rooms w4)" using rs(3) by (simp add: w4_def w3_def)
    show "get_room w4 i = (if P i then None else get_room ?wm i)" for i
      by (simp add: w4_def w3_def get_room_def mget_filter [OF rs(3)] seen_def P_def split: option.split)
    fix u r assume l: "mget (live ?wm) u = Some r"
    have "(\<exists>ir \<in> set (filter (\<lambda>ir. \<not> seen ir) rs). r \<in> snd ` set (rm_members (snd ir))) \<longleftrightarrow>
      (\<exists>i room. get_room ?wm i = Some room \<and> P i \<and> r \<in> snd ` set (rm_members room))"
      using set_wf_map [OF rs(3)] by (auto simp: get_room_def seen_def P_def)
    also have "\<dots> \<longleftrightarrow> (\<exists>i room. get_room ?wm i = Some room \<and> P i \<and> s_room (heap w r) = i)"
      using live_in_room [OF invm _ l] by fastforce
    finally have ex: "(\<exists>ir \<in> set (filter (\<lambda>ir. \<not> seen ir) rs). r \<in> snd ` set (rm_members (snd ir))) \<longleftrightarrow>
      (\<exists>room. get_room ?wm (s_room (heap w r)) = Some room \<and> P (s_room (heap w r)))" by blast
    have "get_room ?wm (s_room (heap w r)) \<noteq> None" if "s_room (heap w r) \<noteq> []"
      using rooms_invD(4) [OF invm that, of u r] l by (auto simp: member_def)
    then show "s_room (heap w4 r) = (if P (s_room (heap ?wm r)) then [] else s_room (heap ?wm r))"
      unfolding w4_def fold_drop_removed ex
      by (cases "s_room (heap w r) = []") (auto simp: w3_def)
  qed
  then show ?thesis by (simp add: eq)
qed

end
