(* ===== verification/Demo.thy ===== *)
theory Demo
  imports Rooms_Correct
begin

text \<open>
  A small running server the witnesses are evaluated on: two clients, Ann (an administrator) and Bob
  (who holds the default role only), in the room \<open>hall\<close>, with one-megabyte files and quota, and rooms
  that are emptied at once.
\<close>

definition demo_cfg :: config where
  "demo_cfg = [(KeyUploadsEnabled, runes ''true''), (KeyUploadsMaxSizeMB, runes ''1''),
     (KeyUploadsRoomQuotaMB, runes ''1''), (KeyUploadsDir, runes ''up''), (KeyUploadsTokenTTLSec, runes ''300''),
     (KeyRoomsPurgeOnEmpty, runes ''true''), (KeyRoomsPurgeGraceSec, runes ''0''),
     (KeyRoomsHistoryLimit, runes ''10''), (KeyServerMaxUsers, runes ''5''),
     (KeyUsernameMinLen, runes ''1''), (KeyUsernameMaxLen, runes ''20'')]"

lemma demo_cfg_int [simp]:
  "cfg_int demo_cfg KeyUploadsMaxSizeMB = 1" "cfg_int demo_cfg KeyUploadsRoomQuotaMB = 1"
  "cfg_int demo_cfg KeyUploadsTokenTTLSec = 300" "cfg_int demo_cfg KeyRoomsPurgeGraceSec = 0"
  "cfg_int demo_cfg KeyRoomsHistoryLimit = 10" "cfg_int demo_cfg KeyServerMaxUsers = 5"
  "cfg_int demo_cfg KeyUsernameMinLen = 1" "cfg_int demo_cfg KeyUsernameMaxLen = 20"
  by (simp_all add: cfg_int_def cfg_string_def demo_cfg_def runes_def trim_space_def trim_by_def
    is_space_def atoi_def digits_val_def is_digit_def)

lemma demo_cfg_bool [simp]:
  "cfg_bool demo_cfg KeyUploadsEnabled" "cfg_bool demo_cfg KeyRoomsPurgeOnEmpty"
  by (simp_all add: cfg_bool_def cfg_string_def demo_cfg_def runes_def parse_bool_def trim_space_def
    trim_by_def is_space_def lower_ascii_def)

definition demo_role :: "string \<Rightarrow> int \<Rightarrow> 64 word \<Rightarrow> role" where
  "demo_role i p m = \<lparr>role_id = i, role_name = runes i, role_permissions = m, role_priority = p,
     role_color = [], role_tag_style = [], role_is_default = (i = role_id_default), role_created_at = 0\<rparr>"

definition demo_acc :: access where
  "demo_acc = \<lparr>store = empty_db,
     roles = [(role_id_admin, demo_role role_id_admin 1000 everything),
              (role_id_default, demo_role role_id_default 0 (perm_send_messages OR perm_upload_files))],
     assignments = [(''ann'', [(role_id_admin, True)])], sanctions = []\<rparr>"

definition demo_person :: "uuid \<Rightarrow> string \<Rightarrow> session" where
  "demo_person u i = (new_session u u (runes u) [] 0)\<lparr>s_room := i\<rparr>"

definition hall :: string where "hall = ''hall''"

definition demo_hall :: room_def where
  "demo_hall = \<lparr>rd_id = hall, rd_name = runes ''Hall'', rd_password = [], rd_capacity = 2, rd_position = 0,
     rd_required_role = [], rd_created_at = 0, rd_updated_at = 0\<rparr>"

definition demo_server :: server where
  "demo_server = \<lparr>heap = (\<lambda>_. demo_person [] [])(0 := demo_person ''ann'' hall, 1 := demo_person ''bob'' hall),
     next_ref = 2, live = [(''ann'', 0), (''bob'', 1)], cfg = demo_cfg, acc = demo_acc,
     rooms = [(hall, (new_room demo_hall)\<lparr>rm_members := [(''ann'', 0), (''bob'', 1)]\<rparr>)],
     buffers = [], boards = [], stores = [], disk = [], tickets = [], grants = [],
     send_rate = [], type_rate = [], draw_rate = [], hooks = []\<rparr>"

lemmas demo_defs = demo_server_def demo_acc_def demo_person_def new_session_def demo_hall_def hall_def

lemma demo_fields [simp]:
  "cfg demo_server = demo_cfg" "acc demo_server = demo_acc" "stores demo_server = []" "disk demo_server = []"
  "tickets demo_server = []" "grants demo_server = []" "buffers demo_server = []" "boards demo_server = []"
  "next_ref demo_server = 2" "live demo_server = [(''ann'', 0), (''bob'', 1)]"
  by (simp_all add: demo_server_def)

lemma demo_sessions [simp]:
  "s_uuid (heap demo_server 0) = ''ann''" "s_uuid (heap demo_server 1) = ''bob''"
  "s_room (heap demo_server 0) = hall" "s_room (heap demo_server 1) = hall" "hall \<noteq> []"
  by (simp_all add: demo_defs)

lemmas demo_sessions_Suc [simp] = demo_sessions(2,4) [unfolded One_nat_def]

lemma demo_room [simp]:
  "get_room demo_server hall = Some ((new_room demo_hall)\<lparr>rm_members := [(''ann'', 0), (''bob'', 1)]\<rparr>)"
  by (simp add: demo_server_def get_room_def)

lemma demo_can [simp]:
  "permissions demo_acc ''ann'' = everything OR perm_send_messages OR perm_upload_files"
  "permissions demo_acc ''bob'' = perm_send_messages OR perm_upload_files"
  by (simp_all add: permissions_def roles_of_def granted_def demo_acc_def demo_role_def mget2_def
    role_id_admin_def role_id_default_def or.assoc)

lemma rooms_inv_demo: "rooms_inv demo_server"
proof (rule rooms_invI)
  show "wf_net demo_server"
    by (simp add: wf_net_def wf_map_def demo_defs queue_ok_def)
  show "rooms_wf demo_server"
    by (auto simp: rooms_wf_def get_room_def demo_defs wf_map_def new_room_def)
  show "member demo_server i u r \<longleftrightarrow> mget (live demo_server) u = Some r \<and> s_room (heap demo_server r) = i"
    if "i \<noteq> []" for i u r
    using that by (auto simp: member_def get_room_def demo_defs new_room_def split: if_splits)
qed

end
