(* ===== verification/Media.thy ===== *)
theory Media
  imports Demo
begin

text \<open>
  The media manager, \<open>internal/media/manager.go\<close> and \<open>token.go\<close>: who may publish what in a room's
  voice session, and the token that says so to the LiveKit server. Signing is \<open>sign secret claims\<close>,
  a parameter; the calls to LiveKit's API are the hooks the callers record. \<open>livekit_allows\<close> is how
  LiveKit reads a token: a participant who may publish may publish the listed sources, or every
  source when the list is left out.
\<close>

section \<open>Rights\<close>

definition media_enabled :: "config \<Rightarrow> bool" where
  "media_enabled c \<longleftrightarrow> cfg_bool c KeyLiveKitEnabled \<and> trim_space (cfg_string c KeyLiveKitURL) \<noteq> []
     \<and> trim_space (cfg_string c KeyLiveKitAPIKey) \<noteq> [] \<and> trim_space (cfg_string c KeyLiveKitAPISecret) \<noteq> []"

record rights =
  rt_speak :: bool
  rt_video :: bool
  rt_screen :: bool

definition no_rights :: rights where
  "no_rights = \<lparr>rt_speak = False, rt_video = False, rt_screen = False\<rparr>"

definition rights_of :: "int \<Rightarrow> access \<Rightarrow> uuid \<Rightarrow> rights" where
  "rights_of now m u =
     (if is_muted now m u then no_rights
      else \<lparr>rt_speak = can m u perm_speak, rt_video = can m u perm_publish_video,
            rt_screen = can m u perm_share_screen\<rparr>)"

definition can_publish_anything :: "rights \<Rightarrow> bool" where
  "can_publish_anything r \<longleftrightarrow> rt_speak r \<or> rt_video r \<or> rt_screen r"

definition sources :: "rights \<Rightarrow> string list" where
  "sources r =
     (if rt_speak r then [''microphone''] else []) @ (if rt_video r then [''camera''] else [])
     @ (if rt_screen r then [''screen_share'', ''screen_share_audio''] else [])"

section \<open>Tokens\<close>

record video_grant =
  vg_room :: string
  vg_room_join :: bool
  vg_room_admin :: bool
  vg_room_create :: bool
  vg_room_list :: bool
  vg_can_publish :: "bool option"
  vg_can_subscribe :: "bool option"
  vg_can_publish_data :: "bool option"
  vg_sources :: "string list"

record claims =
  cl_issuer :: ustring
  cl_subject :: string
  cl_name :: ustring
  cl_not_before :: int
  cl_expiry :: int
  cl_jti :: string
  cl_video :: video_grant

definition second :: int where "second = 1000000000"

definition join_claims ::
  "env \<Rightarrow> ustring \<Rightarrow> string \<Rightarrow> string \<Rightarrow> ustring \<Rightarrow> rights \<Rightarrow> int \<Rightarrow> claims" where
  "join_claims e api_key room identity name r ttl =
     \<lparr>cl_issuer = api_key, cl_subject = identity, cl_name = name,
      cl_not_before = unix (clock e - 30 * second), cl_expiry = unix (clock e + ttl), cl_jti = new_uuid e,
      cl_video = \<lparr>vg_room = room, vg_room_join = True, vg_room_admin = False, vg_room_create = False,
        vg_room_list = False, vg_can_publish = Some (can_publish_anything r), vg_can_subscribe = Some True,
        vg_can_publish_data = Some False, vg_sources = (if can_publish_anything r then sources r else [])\<rparr>\<rparr>"

definition bot_claims :: "env \<Rightarrow> ustring \<Rightarrow> string \<Rightarrow> string \<Rightarrow> ustring \<Rightarrow> int \<Rightarrow> claims" where
  "bot_claims e api_key room identity name ttl =
     \<lparr>cl_issuer = api_key, cl_subject = identity, cl_name = name,
      cl_not_before = unix (clock e - 30 * second), cl_expiry = unix (clock e + ttl), cl_jti = new_uuid e,
      cl_video = \<lparr>vg_room = room, vg_room_join = True, vg_room_admin = False, vg_room_create = False,
        vg_room_list = False, vg_can_publish = Some True, vg_can_subscribe = Some False,
        vg_can_publish_data = Some False, vg_sources = [''microphone'']\<rparr>\<rparr>"

definition admin_claims :: "env \<Rightarrow> ustring \<Rightarrow> claims" where
  "admin_claims e api_key =
     \<lparr>cl_issuer = api_key, cl_subject = ''tamizchat-server'', cl_name = [],
      cl_not_before = unix (clock e - 30 * second), cl_expiry = unix (clock e + 2 * 60 * second),
      cl_jti = new_uuid e,
      cl_video = \<lparr>vg_room = [], vg_room_join = False, vg_room_admin = True, vg_room_create = True,
        vg_room_list = True, vg_can_publish = None, vg_can_subscribe = None, vg_can_publish_data = None,
        vg_sources = []\<rparr>\<rparr>"

section \<open>Issuing\<close>

datatype media_error = MediaDisabled | MediaNotInRoom

definition token_ttl :: int where "token_ttl = 15 * 60 * second"
definition bot_token_ttl :: int where "bot_token_ttl = 12 * 3600 * second"

definition issue_token ::
  "(ustring \<Rightarrow> claims \<Rightarrow> string) \<Rightarrow> env \<Rightarrow> sref \<Rightarrow> server \<Rightarrow> media_error + media_token" where
  "issue_token sign e r w =
     (if \<not> media_enabled (cfg w) then Inl MediaDisabled
      else
        (let s = heap w r; i = s_room s in
         if i = [] then Inl MediaNotInRoom
         else
           (let rt = rights_of (clock e) (acc w) (s_uuid s);
                c = join_claims e (cfg_string (cfg w) KeyLiveKitAPIKey) i (s_uuid s) (s_username s) rt token_ttl in
            Inr \<lparr>mt_url = cfg_string (cfg w) KeyLiveKitURL,
                 mt_token = sign (cfg_string (cfg w) KeyLiveKitAPISecret) c,
                 mt_room = i, mt_identity = s_uuid s,
                 mt_expires_at = unix (clock e + token_ttl), mt_can_speak = rt_speak rt,
                 mt_can_publish_video = rt_video rt, mt_can_share_screen = rt_screen rt\<rparr>)))"

definition has_prefix :: "string \<Rightarrow> ustring \<Rightarrow> bool" where
  "has_prefix p s \<longleftrightarrow> take (length p) s = runes p"

definition http_base :: "ustring \<Rightarrow> ustring" where
  "http_base raw =
     (let url = trim_space raw in
      if has_prefix ''wss://'' url then runes ''https://'' @ drop 6 url
      else if has_prefix ''ws://'' url then runes ''http://'' @ drop 5 url
      else if url = [] then []
      else if has_prefix ''http://'' url \<or> has_prefix ''https://'' url then url
      else runes ''http://'' @ url)"

definition media_base :: "config \<Rightarrow> ustring" where
  "media_base c =
     (let api = trim_space (cfg_string c KeyLiveKitAPIURL) in
      if api \<noteq> [] then http_base api else http_base (cfg_string c KeyLiveKitURL))"

record bot_credentials =
  bc_url :: ustring
  bc_token :: string
  bc_room :: string
  bc_identity :: string

definition issue_bot_token ::
  "(ustring \<Rightarrow> claims \<Rightarrow> string) \<Rightarrow> env \<Rightarrow> config \<Rightarrow> string \<Rightarrow> string \<Rightarrow> ustring \<Rightarrow> media_error + bot_credentials" where
  "issue_bot_token sign e c room identity name =
     (if \<not> media_enabled c then Inl MediaDisabled
      else if room = [] then Inl MediaNotInRoom
      else
        (let url = trim_space (cfg_string c KeyLiveKitAPIURL) in
         Inr \<lparr>bc_url = (if url = [] then cfg_string c KeyLiveKitURL else url),
              bc_token = sign (cfg_string c KeyLiveKitAPISecret)
                (bot_claims e (cfg_string c KeyLiveKitAPIKey) room identity name bot_token_ttl),
              bc_room = room, bc_identity = identity\<rparr>))"

section \<open>What a token allows\<close>

definition livekit_allows :: "video_grant \<Rightarrow> string \<Rightarrow> bool" where
  "livekit_allows g src \<longleftrightarrow> vg_room_join g \<and> vg_can_publish g = Some True
     \<and> (vg_sources g = [] \<or> src \<in> set (vg_sources g))"

lemma sources_nonempty: "can_publish_anything r \<Longrightarrow> sources r \<noteq> []"
  by (auto simp: can_publish_anything_def sources_def)

lemma mem_sources:
  "''microphone'' \<in> set (sources r) \<longleftrightarrow> rt_speak r" "''camera'' \<in> set (sources r) \<longleftrightarrow> rt_video r"
  "''screen_share'' \<in> set (sources r) \<longleftrightarrow> rt_screen r"
  by (simp_all add: sources_def)

lemma sources_none: "\<not> can_publish_anything r \<Longrightarrow> sources r = []"
  by (simp add: can_publish_anything_def sources_def)

lemma allows_join:
  "livekit_allows (cl_video (join_claims e k room i n r ttl)) src \<longleftrightarrow> src \<in> set (sources r)"
  using sources_nonempty [of r] sources_none [of r] by (auto simp: livekit_allows_def join_claims_def)

lemma rights_of_fields:
  "rt_speak (rights_of now m u) \<longleftrightarrow> can m u perm_speak \<and> \<not> is_muted now m u"
  "rt_video (rights_of now m u) \<longleftrightarrow> can m u perm_publish_video \<and> \<not> is_muted now m u"
  "rt_screen (rights_of now m u) \<longleftrightarrow> can m u perm_share_screen \<and> \<not> is_muted now m u"
  by (simp_all add: rights_of_def no_rights_def)

text \<open>C21. The token a user is given lets them publish their microphone, camera and screen exactly when
  their roles allow each and they are not muted; the flags sent along say the same; and the token is
  good for the room they are in and for nothing else.\<close>

theorem token_grants_what_roles_allow:
  assumes "issue_token sign e r w = Inr t" and "u = s_uuid (heap w r)"
  shows "\<exists>c. mt_token t = sign (cfg_string (cfg w) KeyLiveKitAPISecret) c \<and> cl_subject c = u
    \<and> vg_room (cl_video c) = s_room (heap w r) \<and> s_room (heap w r) \<noteq> [] \<and> \<not> vg_room_admin (cl_video c)
    \<and> (livekit_allows (cl_video c) ''microphone'' \<longleftrightarrow> can (acc w) u perm_speak \<and> \<not> is_muted (clock e) (acc w) u)
    \<and> (livekit_allows (cl_video c) ''camera'' \<longleftrightarrow> can (acc w) u perm_publish_video \<and> \<not> is_muted (clock e) (acc w) u)
    \<and> (livekit_allows (cl_video c) ''screen_share'' \<longleftrightarrow> can (acc w) u perm_share_screen \<and> \<not> is_muted (clock e) (acc w) u)
    \<and> mt_can_speak t = livekit_allows (cl_video c) ''microphone''
    \<and> mt_can_publish_video t = livekit_allows (cl_video c) ''camera''
    \<and> mt_can_share_screen t = livekit_allows (cl_video c) ''screen_share''"
proof -
  let ?rt = "rights_of (clock e) (acc w) u"
  define c where "c = join_claims e (cfg_string (cfg w) KeyLiveKitAPIKey) (s_room (heap w r)) u
    (s_username (heap w r)) ?rt token_ttl"
  from assms have t: "s_room (heap w r) \<noteq> []" "mt_token t = sign (cfg_string (cfg w) KeyLiveKitAPISecret) c"
    "mt_can_speak t = rt_speak ?rt" "mt_can_publish_video t = rt_video ?rt" "mt_can_share_screen t = rt_screen ?rt"
    unfolding issue_token_def Let_def c_def by (simp_all split: if_split_asm) (metis media_token.select_convs)+
  have a: "livekit_allows (cl_video c) src \<longleftrightarrow> src \<in> set (sources ?rt)" for src
    unfolding c_def by (rule allows_join)
  have c: "cl_subject c = u" "vg_room (cl_video c) = s_room (heap w r)" "\<not> vg_room_admin (cl_video c)"
    by (simp_all add: c_def join_claims_def)
  show ?thesis
    by (rule exI [of _ c]) (simp add: a t c mem_sources rights_of_fields)
qed

definition media_cfg :: config where
  "media_cfg = [(KeyLiveKitEnabled, runes ''true''), (KeyLiveKitURL, runes ''ws://a''),
     (KeyLiveKitAPIKey, runes ''k''), (KeyLiveKitAPISecret, runes ''s'')]"

lemma media_cfg_enabled: "media_enabled media_cfg"
  by (simp add: media_enabled_def cfg_bool_def cfg_string_def media_cfg_def runes_def parse_bool_def
    trim_space_def trim_by_def is_space_def lower_ascii_def)

theorem token_grants_what_roles_allow_witness:
  "\<exists>t. issue_token (\<lambda>_. cl_subject) (quiet_env ''j'' 0) 1 (demo_server\<lparr>cfg := media_cfg\<rparr>) = Inr t
     \<and> mt_token t = ''bob'' \<and> \<not> mt_can_speak t"
proof -
  let ?w = "demo_server\<lparr>cfg := media_cfg\<rparr>"
  obtain t where t: "issue_token (\<lambda>_. cl_subject) (quiet_env ''j'' 0) 1 ?w = Inr t"
    by (simp add: issue_token_def media_cfg_enabled Let_def)
  have "\<not> can demo_acc ''bob'' perm_speak"
    by (simp add: can_def perm_speak_def perm_send_messages_def perm_upload_files_def)
  with token_grants_what_roles_allow [OF t refl] t show ?thesis by auto
qed

end
