(* ===== verification/Chat.thy ===== *)
theory Chat
  imports Rooms
begin

text \<open>
  The chat manager, \<open>internal/chat/manager.go\<close>: who may post, edit, delete and be seen typing in the
  room they are in, with the rate limits per user. Each operation takes the environment of the call,
  the session that makes it and the decoded request.
\<close>

definition current_room :: "server \<Rightarrow> sref \<Rightarrow> string option" where
  "current_room w r =
     (let i = s_room (heap w r) in
      if i = [] then None else (case get_room w i of None \<Rightarrow> None | Some _ \<Rightarrow> Some i))"

text \<open>The first use of a room makes its history and registers it with the room.\<close>

definition buffer_for :: "string \<Rightarrow> server \<Rightarrow> server" where
  "buffer_for i w =
     (if mget (buffers w) i \<noteq> None then w
      else add_ephemeral i EphChat (w\<lparr>buffers := mput i (new_buffer i) (buffers w)\<rparr>))"

definition on_buffer :: "string \<Rightarrow> (buffer \<Rightarrow> buffer \<times> 'r) \<Rightarrow> server \<Rightarrow> server \<times> 'r" where
  "on_buffer i f w =
     (let w1 = buffer_for i w;
          b = (case mget (buffers w1) i of Some b \<Rightarrow> b | None \<Rightarrow> new_buffer i);
          (b', res) = f b in
      (w1\<lparr>buffers := mput i b' (buffers w1)\<rparr>, res))"

definition allow_send :: "int \<Rightarrow> uuid \<Rightarrow> server \<Rightarrow> server \<times> bool" where
  "allow_send now u w =
     (let b = (case mget (send_rate w) u of Some b \<Rightarrow> b | None \<Rightarrow> new_bucket);
          (b', ok) = allow_at now (cfg_int (cfg w) KeyChatRateBurst)
            (fl64 (fl64 (of_int (cfg_int (cfg w) KeyChatRatePerMinute)) / 60)) b in
      (w\<lparr>send_rate := mput u b' (send_rate w)\<rparr>, ok))"

definition allow_typing :: "int \<Rightarrow> uuid \<Rightarrow> server \<Rightarrow> server \<times> bool" where
  "allow_typing now u w =
     (let b = (case mget (type_rate w) u of Some b \<Rightarrow> b | None \<Rightarrow> new_bucket);
          (b', ok) = allow_at now 5 1 b in
      (w\<lparr>type_rate := mput u b' (type_rate w)\<rparr>, ok))"

definition sticker_char :: "rune \<Rightarrow> bool" where
  "sticker_char c \<longleftrightarrow> (65 \<le> c \<and> c \<le> 90) \<or> (97 \<le> c \<and> c \<le> 122) \<or> (48 \<le> c \<and> c \<le> 57)
     \<or> c = 46 \<or> c = 95 \<or> c = 58 \<or> c = 45"

definition sticker_pattern :: "ustring \<Rightarrow> bool" where
  "sticker_pattern s \<longleftrightarrow> 1 \<le> length s \<and> length s \<le> 64 \<and> list_all sticker_char s"

text \<open>A message before it is stored.\<close>

definition draft :: "env \<Rightarrow> sref \<Rightarrow> server \<Rightarrow> message" where
  "draft e r w = \<lparr>ms_id = [], ms_seq = 0, ms_room_id = [], ms_author = session_user w r,
     ms_kind = MessageText, ms_text = [], ms_sticker = [], ms_attachment = None,
     ms_created_at = unix (clock e), ms_edited_at = 0\<rparr>"

definition compose :: "env \<Rightarrow> sref \<Rightarrow> chat_send \<Rightarrow> server \<Rightarrow> chat_error + message" where
  "compose e r req w =
     (let sticker = trim_space (cs_sticker req) in
      if sticker \<noteq> [] then
        (if \<not> cfg_bool (cfg w) KeyChatStickersEnabled then Inl StickersDisabled
         else if \<not> sticker_pattern sticker then Inl InvalidSticker
         else Inr ((draft e r w)\<lparr>ms_kind := MessageSticker, ms_sticker := sticker\<rparr>))
      else
        (case normalize_message (cs_text req) (cfg_int (cfg w) KeyChatMaxMessageLen) of
           Inl err \<Rightarrow> Inl (InvalidText err)
         | Inr t \<Rightarrow> Inr ((draft e r w)\<lparr>ms_text := t\<rparr>)))"

definition chat_send_msg :: "env \<Rightarrow> sref \<Rightarrow> chat_send \<Rightarrow> server \<Rightarrow> server \<times> (chat_error + message)" where
  "chat_send_msg e r req w =
     (let u = s_uuid (heap w r) in
      case current_room w r of
        None \<Rightarrow> (w, Inl ChatNotInRoom)
      | Some i \<Rightarrow>
          if \<not> can (acc w) u perm_send_messages then (w, Inl ChatNotAllowed)
          else if is_muted (clock e) (acc w) u then (w, Inl ChatMuted)
          else
            (case compose e r req w of
               Inl err \<Rightarrow> (w, Inl err)
             | Inr msg \<Rightarrow>
                 (case allow_send (clock e) u w of
                    (w1, False) \<Rightarrow> (w1, Inl ChatRateLimited)
                  | (w1, True) \<Rightarrow>
                      (let (w2, stored) = on_buffer i
                             (buf_append (new_uuid e) (cfg_int (cfg w1) KeyRoomsHistoryLimit) msg) w1 in
                       (room_broadcast i ''chat.message'' (PMessage stored) u w2, Inr stored)))))"

definition post_attachment :: "env \<Rightarrow> sref \<Rightarrow> attachment \<Rightarrow> server \<Rightarrow> server \<times> (chat_error + message)" where
  "post_attachment e r a w =
     (case current_room w r of
        None \<Rightarrow> (w, Inl ChatNotInRoom)
      | Some i \<Rightarrow>
          if is_muted (clock e) (acc w) (s_uuid (heap w r)) then (w, Inl ChatMuted)
          else
            (let (w1, stored) = on_buffer i (buf_append (new_uuid e) (cfg_int (cfg w) KeyRoomsHistoryLimit)
                   ((draft e r w)\<lparr>ms_kind := MessageFile, ms_attachment := Some a\<rparr>)) w in
             (room_broadcast i ''chat.message'' (PMessage stored) [] w1, Inr stored)))"

definition chat_history ::
  "sref \<Rightarrow> chat_history_request \<Rightarrow> server \<Rightarrow> server \<times> (chat_error + string \<times> message list \<times> bool)" where
  "chat_history r req w =
     (case current_room w r of
        None \<Rightarrow> (w, Inl ChatNotInRoom)
      | Some i \<Rightarrow>
          (let limit = (if hr_limit req \<le> 0 then 50 else hr_limit req);
               max_limit = cfg_int (cfg w) KeyRoomsHistoryLimit;
               limit = (if limit > max_limit then max_limit else limit);
               (w1, page, older) = on_buffer i (\<lambda>b. (b, buf_history (hr_before req) limit b)) w in
           (w1, Inr (i, page, older))))"

definition edit_check :: "env \<Rightarrow> uuid \<Rightarrow> ustring \<Rightarrow> message \<Rightarrow> chat_error + message" where
  "edit_check e u txt m =
     (if u_uuid (ms_author m) \<noteq> u then Inl ChatForbidden
      else if ms_kind m \<noteq> MessageText then Inl NotEditable
      else Inr (m\<lparr>ms_text := txt, ms_edited_at := unix (clock e)\<rparr>))"

definition chat_edit_msg :: "env \<Rightarrow> sref \<Rightarrow> chat_edit \<Rightarrow> server \<Rightarrow> server \<times> (chat_error + message)" where
  "chat_edit_msg e r req w =
     (let u = s_uuid (heap w r) in
      case current_room w r of
        None \<Rightarrow> (w, Inl ChatNotInRoom)
      | Some i \<Rightarrow>
          if is_muted (clock e) (acc w) u then (w, Inl ChatMuted)
          else
            (case normalize_message (ce_text req) (cfg_int (cfg w) KeyChatMaxMessageLen) of
               Inl err \<Rightarrow> (w, Inl (InvalidText err))
             | Inr t \<Rightarrow>
                 (case on_buffer i (buf_edit (ce_message req) (edit_check e u t)) w of
                    (w1, Inl err) \<Rightarrow> (w1, Inl err)
                  | (w1, Inr updated) \<Rightarrow>
                      (room_broadcast i ''chat.updated'' (PMessage updated) u w1, Inr updated))))"

definition delete_check :: "access \<Rightarrow> uuid \<Rightarrow> message \<Rightarrow> chat_error option" where
  "delete_check m u msg =
     (if u_uuid (ms_author msg) = u then None
      else if \<not> can m u perm_moderate_chat then Some ChatForbidden else None)"

text \<open>The result is the event: the room, the message id and the moderator who removed somebody
  else's message.\<close>

definition chat_delete_msg ::
  "sref \<Rightarrow> string \<Rightarrow> server \<Rightarrow> server \<times> (chat_error + string \<times> string \<times> uuid)" where
  "chat_delete_msg r mid w =
     (let u = s_uuid (heap w r) in
      case current_room w r of
        None \<Rightarrow> (w, Inl ChatNotInRoom)
      | Some i \<Rightarrow>
          (case on_buffer i (buf_delete mid (delete_check (acc w) u)) w of
             (w1, Inl err) \<Rightarrow> (w1, Inl err)
           | (w1, Inr removed) \<Rightarrow>
               (let by_mod = (if u_uuid (ms_author removed) = u then [] else u) in
                (room_broadcast i ''chat.deleted'' (PChatDeleted i (ms_id removed) by_mod) u w1,
                 Inr (i, ms_id removed, by_mod)))))"

definition chat_typing :: "env \<Rightarrow> sref \<Rightarrow> bool \<Rightarrow> server \<Rightarrow> server \<times> chat_error option" where
  "chat_typing e r typing w =
     (let u = s_uuid (heap w r) in
      case current_room w r of
        None \<Rightarrow> (w, Some ChatNotInRoom)
      | Some i \<Rightarrow>
          if is_muted (clock e) (acc w) u then (w, Some ChatMuted)
          else
            (case allow_typing (clock e) u w of
               (w1, False) \<Rightarrow> (w1, Some ChatRateLimited)
             | (w1, True) \<Rightarrow>
                 (room_broadcast i ''chat.typing'' (PChatTyping i u (s_username (heap w r)) typing) u w1, None)))"

definition chat_forget :: "uuid \<Rightarrow> server \<Rightarrow> server" where
  "chat_forget u w = w\<lparr>send_rate := mdel u (send_rate w), type_rate := mdel u (type_rate w)\<rparr>"

end
