(* ===== verification/Paint.thy ===== *)
theory Paint
  imports Chat
begin

text \<open>
  The paint manager, \<open>internal/paint/manager.go\<close>: who may draw on the board of the room they are in,
  the shape of a stroke, and the rate limit of drawing.
\<close>

datatype paint_error =
    PaintDisabled | PaintForbidden | PaintNotInRoom | PaintRateLimited | PaintMuted
  | PaintBoard board_error | PaintBadTool | PaintColorTooLong | PaintBadColor | PaintBadScope

definition board_for :: "string \<Rightarrow> server \<Rightarrow> server" where
  "board_for i w =
     (if mget (boards w) i \<noteq> None then w
      else add_ephemeral i EphPaint (w\<lparr>boards := mput i (new_board i) (boards w)\<rparr>))"

definition on_board :: "string \<Rightarrow> (board \<Rightarrow> board \<times> 'r) \<Rightarrow> server \<Rightarrow> server \<times> 'r" where
  "on_board i f w =
     (let w1 = board_for i w;
          b = (case mget (boards w1) i of Some b \<Rightarrow> b | None \<Rightarrow> new_board i);
          (b', res) = f b in
      (w1\<lparr>boards := mput i b' (boards w1)\<rparr>, res))"

definition allow_draw :: "int \<Rightarrow> uuid \<Rightarrow> server \<Rightarrow> server \<times> bool" where
  "allow_draw now u w =
     (let b = (case mget (draw_rate w) u of Some b \<Rightarrow> b | None \<Rightarrow> new_bucket);
          (b', ok) = allow_at now (cfg_int (cfg w) KeyPaintRateBurst)
            (fl64 (of_int (cfg_int (cfg w) KeyPaintRatePerSecond))) b in
      (w\<lparr>draw_rate := mput u b' (draw_rate w)\<rparr>, ok))"

definition drawable_room :: "env \<Rightarrow> sref \<Rightarrow> server \<Rightarrow> paint_error + string" where
  "drawable_room e r w =
     (if \<not> cfg_bool (cfg w) KeyPaintEnabled then Inl PaintDisabled
      else
        (case current_room w r of
           None \<Rightarrow> Inl PaintNotInRoom
         | Some i \<Rightarrow>
             if \<not> can (acc w) (s_uuid (heap w r)) perm_paint then Inl PaintForbidden
             else if is_muted (clock e) (acc w) (s_uuid (heap w r)) then Inl PaintMuted
             else Inr i))"

definition tools :: "string list" where
  "tools = [''pen'', ''eraser'', ''line'', ''rect'', ''ellipse'']"

definition clamp_width :: "float64 \<Rightarrow> float64" where
  "clamp_width v =
     (let v1 = (case v of Fin x \<Rightarrow> if x \<le> 0 then Fin (fl64 (4 / 1000)) else v | _ \<Rightarrow> Fin (fl64 (4 / 1000))) in
      case v1 of Fin x \<Rightarrow> if x > 1 / 2 then Fin (1 / 2) else v1 | _ \<Rightarrow> v1)"

definition validate_begin :: "paint_begin \<Rightarrow> paint_error + paint_begin" where
  "validate_begin req =
     (let tool = (if pb_tool req = [] then ''pen'' else pb_tool req);
          color = trim_space (pb_color req) in
      if tool \<notin> set tools then Inl PaintBadTool
      else if length color > 32 then Inl PaintColorTooLong
      else if \<exists>c \<in> set color. c < 0x20 \<or> c = 0x7f then Inl PaintBadColor
      else Inr (req\<lparr>pb_tool := tool, pb_color := color, pb_width := clamp_width (pb_width req)\<rparr>))"

definition paint_begin_stroke :: "env \<Rightarrow> sref \<Rightarrow> paint_begin \<Rightarrow> server \<Rightarrow> server \<times> (paint_error + stroke)" where
  "paint_begin_stroke e r req w =
     (let u = s_uuid (heap w r) in
      case drawable_room e r w of
        Inl err \<Rightarrow> (w, Inl err)
      | Inr i \<Rightarrow>
          (case validate_begin req of
             Inl err \<Rightarrow> (w, Inl err)
           | Inr req \<Rightarrow>
               (case allow_draw (clock e) u w of
                  (w1, False) \<Rightarrow> (w1, Inl PaintRateLimited)
                | (w1, True) \<Rightarrow>
                    (case on_board i (board_begin (new_uuid e) (cfg_int (cfg w1) KeyPaintMaxStrokes) u req) w1 of
                       (w2, Inl err) \<Rightarrow> (w2, Inl (PaintBoard err))
                     | (w2, Inr s) \<Rightarrow> (room_broadcast i ''paint.begin'' (PStroke s) u w2, Inr s)))))"

definition paint_append :: "env \<Rightarrow> sref \<Rightarrow> string \<Rightarrow> point list \<Rightarrow> server \<Rightarrow> server \<times> paint_error option" where
  "paint_append e r sid ps w =
     (let u = s_uuid (heap w r) in
      case drawable_room e r w of
        Inl err \<Rightarrow> (w, Some err)
      | Inr i \<Rightarrow>
          (case allow_draw (clock e) u w of
             (w1, False) \<Rightarrow> (w1, Some PaintRateLimited)
           | (w1, True) \<Rightarrow>
               (case on_board i (board_append u sid ps) w1 of
                  (w2, Inl err) \<Rightarrow> (w2, Some (PaintBoard err))
                | (w2, Inr stored) \<Rightarrow>
                    if stored = [] then (w2, None)
                    else (room_broadcast i ''paint.append'' (PPaintAppend sid stored) u w2, None))))"

definition paint_end :: "env \<Rightarrow> sref \<Rightarrow> string \<Rightarrow> server \<Rightarrow> server \<times> paint_error option" where
  "paint_end e r sid w =
     (let u = s_uuid (heap w r) in
      case drawable_room e r w of
        Inl err \<Rightarrow> (w, Some err)
      | Inr i \<Rightarrow>
          (case on_board i (board_end u sid) w of
             (w1, Some err) \<Rightarrow> (w1, Some (PaintBoard err))
           | (w1, None) \<Rightarrow> (room_broadcast i ''paint.end'' (PPaintEnd sid) u w1, None)))"

definition paint_undo :: "env \<Rightarrow> sref \<Rightarrow> server \<Rightarrow> server \<times> (paint_error + string \<times> string)" where
  "paint_undo e r w =
     (let u = s_uuid (heap w r) in
      case drawable_room e r w of
        Inl err \<Rightarrow> (w, Inl err)
      | Inr i \<Rightarrow>
          (case on_board i (board_undo u) w of
             (w1, Inl err) \<Rightarrow> (w1, Inl (PaintBoard err))
           | (w1, Inr sid) \<Rightarrow> (room_broadcast i ''paint.undo'' (PPaintUndo sid i) u w1, Inr (sid, i))))"

definition paint_clear :: "env \<Rightarrow> sref \<Rightarrow> ustring \<Rightarrow> server \<Rightarrow> server \<times> (paint_error + string \<times> string \<times> uuid)" where
  "paint_clear e r raw_scope w =
     (let u = s_uuid (heap w r) in
      case drawable_room e r w of
        Inl err \<Rightarrow> (w, Inl err)
      | Inr i \<Rightarrow>
          (let scope = (if trim_space raw_scope = [] then runes ''mine'' else trim_space raw_scope);
               w0 = board_for i w in
           if scope = runes ''mine'' then
             (let (w1, _) = on_board i (\<lambda>b. (board_clear_author u b, ())) w0 in
              (room_broadcast i ''paint.clear'' (PPaintCleared i ''mine'' u) u w1, Inr (i, ''mine'', u)))
           else if scope = runes ''all'' then
             (if \<not> can (acc w) u perm_moderate_chat then (w0, Inl PaintForbidden)
              else
                (let (w1, _) = on_board i (\<lambda>b. (board_clear_all b, ())) w0 in
                 (room_broadcast i ''paint.clear'' (PPaintCleared i ''all'' u) u w1, Inr (i, ''all'', u))))
           else (w0, Inl PaintBadScope)))"

definition paint_state :: "sref \<Rightarrow> server \<Rightarrow> server \<times> (paint_error + string \<times> stroke list \<times> int)" where
  "paint_state r w =
     (if \<not> cfg_bool (cfg w) KeyPaintEnabled then (w, Inl PaintDisabled)
      else
        (case current_room w r of
           None \<Rightarrow> (w, Inl PaintNotInRoom)
         | Some i \<Rightarrow>
             (let (w1, ss) = on_board i (\<lambda>b. (b, board_snapshot b)) w in
              (w1, Inr (i, ss, cfg_int (cfg w) KeyPaintMaxStrokes)))))"

definition paint_forget :: "uuid \<Rightarrow> server \<Rightarrow> server" where
  "paint_forget u w = w\<lparr>draw_rate := mdel u (draw_rate w)\<rparr>"

end
