(* ===== verification/Files.thy ===== *)
theory Files
  imports Rooms_Correct Chat
begin

text \<open>
  The files people share in a room, \<open>internal/files/manager.go\<close>: an upload is asked for over the
  socket, which hands out a ticket, and sent over HTTP with it; a download link is asked for over
  the socket and followed over HTTP.

  \<open>Upload\<close> streams for as long as the client takes, without a lock, so it is three steps here:
  \<open>upload_begin\<close> uses up the ticket and finds the room, \<open>upload_write\<close> writes the bytes and compares
  them with the quota, \<open>upload_add\<close> enters the file; \<open>upload\<close> is the three in a row. What arrives is
  an \<open>upload_io\<close>: how many bytes, whether the disk or the connection failed, and what sniffing the
  first bytes and decoding the image gave. The disk maps a path to the size stored there.
\<close>

datatype files_error =
    FilesDisabled | FilesForbidden | FilesNotInRoom | FilesTooLarge | FilesQuotaFull | FilesNotFound
  | FilesBadTicket | FilesBadToken | FilesEmpty | FilesNameRequired | FilesIO

definition max_file_size :: "config \<Rightarrow> int" where
  "max_file_size c = cfg_int c KeyUploadsMaxSizeMB * 2 ^ 20"

definition room_quota :: "config \<Rightarrow> int" where
  "room_quota c = cfg_int c KeyUploadsRoomQuotaMB * 2 ^ 20"

section \<open>Names\<close>

abbreviation slash :: rune where "slash \<equiv> 47"
abbreviation backslash :: rune where "backslash \<equiv> 92"
abbreviation full_stop :: rune where "full_stop \<equiv> 46"

text \<open>\<open>filepath.Base\<close>: the last element of the path; an empty path is \<open>.\<close> and one of slashes only
  is \<open>/\<close>. \<open>filepath.Ext\<close>: from the last dot of the last element on.\<close>

definition path_base :: "ustring \<Rightarrow> ustring" where
  "path_base p =
     (if p = [] then [full_stop]
      else
        (let q = rev (dropWhile (\<lambda>c. c = slash) (rev p)) in
         if q = [] then [slash] else rev (takeWhile (\<lambda>c. c \<noteq> slash) (rev q))))"

definition path_ext :: "ustring \<Rightarrow> ustring" where
  "path_ext p =
     (let q = takeWhile (\<lambda>c. c \<noteq> full_stop \<and> c \<noteq> slash) (rev p) in
      if length q < length p \<and> rev p ! length q = full_stop then full_stop # rev q else [])"

definition max_name_len :: nat where "max_name_len = 120"

definition cut_name :: "ustring \<Rightarrow> ustring" where
  "cut_name name =
     (if length name > max_name_len then
        (let ext = path_ext name in
         if int max_name_len - int (length ext) < 1 then take max_name_len name
         else take (max_name_len - length ext) name @ ext)
      else name)"

definition sanitize_name :: "ustring \<Rightarrow> files_error + ustring" where
  "sanitize_name raw =
     (let name = trim_space raw;
          name = map (\<lambda>c. if c = backslash then slash else c) name;
          name = trim_space (path_base name) in
      if name = [] \<or> name = [full_stop] \<or> name = [full_stop, full_stop] \<or> name = [slash]
        then Inl FilesNameRequired
      else
        (let name = trim_space (filter (\<lambda>c. \<not> is_control c \<and> c \<noteq> slash \<and> c \<noteq> 0) name) in
         if name = [] then Inl FilesNameRequired else Inr (cut_name name)))"

section \<open>Tickets\<close>

definition store_for :: "string \<Rightarrow> server \<Rightarrow> server" where
  "store_for i w =
     (if mget (stores w) i \<noteq> None then w
      else add_ephemeral i EphFiles
        (w\<lparr>stores := mput i (new_file_store i (cfg_string (cfg w) KeyUploadsDir @ slash # runes i)) (stores w)\<rparr>))"

definition room_usage :: "server \<Rightarrow> string \<Rightarrow> int" where
  "room_usage w i = (case mget (stores w) i of None \<Rightarrow> 0 | Some s \<Rightarrow> fs_total s)"

definition sweep_tickets :: "int \<Rightarrow> server \<Rightarrow> server" where
  "sweep_tickets now w =
     w\<lparr>tickets := filter (\<lambda>(_, t). now \<le> tk_expires t) (tickets w),
       grants := filter (\<lambda>(_, g). now \<le> gr_expires g) (grants w)\<rparr>"

definition ticket_ttl :: int where "ticket_ttl = 2 * 60 * 1000000000"

definition request_upload ::
  "env \<Rightarrow> string \<Rightarrow> sref \<Rightarrow> ustring \<Rightarrow> int \<Rightarrow> server \<Rightarrow> server \<times> (files_error + ticket)" where
  "request_upload e token r raw sz w =
     (let u = s_uuid (heap w r) in
      if \<not> cfg_bool (cfg w) KeyUploadsEnabled then (w, Inl FilesDisabled)
      else if \<not> can (acc w) u perm_upload_files then (w, Inl FilesForbidden)
      else
        (case current_room w r of
           None \<Rightarrow> (w, Inl FilesNotInRoom)
         | Some i \<Rightarrow>
             (case sanitize_name raw of
                Inl err \<Rightarrow> (w, Inl err)
              | Inr name \<Rightarrow>
                  if sz > max_file_size (cfg w) then (w, Inl FilesTooLarge)
                  else
                    (let w1 = (if sz > 0 then store_for i w else w) in
                     if sz > 0 \<and> room_usage w1 i + sz > room_quota (cfg w1) then (w1, Inl FilesQuotaFull)
                     else
                       (let t = \<lparr>tk_id = new_uuid e, tk_room = i, tk_client = u, tk_name = name,
                                 tk_max = max_file_size (cfg w), tk_expires = clock e + ticket_ttl\<rparr>;
                            w2 = sweep_tickets (clock e) w1 in
                        (w2\<lparr>tickets := mput token t (tickets w2)\<rparr>, Inr t))))))"

section \<open>Uploads\<close>

record upload_io =
  up_size :: nat
  up_fails :: bool
  up_mime :: string
  up_thumb :: "int \<times> int \<times> bool"

text \<open>An upload under way: the ticket it used up, the session that announces it, the file's id.\<close>

record started =
  sd_ticket :: ticket
  sd_session :: sref
  sd_file :: string
  sd_path :: ustring

definition upload_begin :: "env \<Rightarrow> string \<Rightarrow> server \<Rightarrow> server \<times> (files_error + started)" where
  "upload_begin e token w =
     (let w1 = sweep_tickets (clock e) w; found = mget (tickets w1) token;
          w2 = w1\<lparr>tickets := mdel token (tickets w1)\<rparr> in
      case found of
        None \<Rightarrow> (w2, Inl FilesBadTicket)
      | Some t \<Rightarrow>
          if clock e > tk_expires t then (w2, Inl FilesBadTicket)
          else
            (case get_session w2 (tk_client t) of
               None \<Rightarrow> (w2, Inl FilesNotInRoom)
             | Some r \<Rightarrow>
                 if s_room (heap w2 r) \<noteq> tk_room t \<or> get_room w2 (tk_room t) = None
                   then (w2, Inl FilesNotInRoom)
                 else
                   (let w3 = store_for (tk_room t) w2 in
                    (w3, Inr \<lparr>sd_ticket = t, sd_session = r, sd_file = new_uuid e,
                       sd_path = (case mget (stores w3) (tk_room t) of None \<Rightarrow> [] | Some s \<Rightarrow> fs_dir s)
                                 @ slash # runes (new_uuid e)\<rparr>))))"

definition write_limited :: "ustring \<Rightarrow> upload_io \<Rightarrow> int \<Rightarrow> disk \<Rightarrow> disk \<times> (files_error + int)" where
  "write_limited path io limit d =
     (let written = min (int (up_size io)) (max 0 (limit + 1)); d' = mput path written d in
      if up_fails io then (d', Inl FilesIO)
      else if written > limit then (d', Inl FilesTooLarge)
      else if written = 0 then (d', Inl FilesEmpty)
      else (d', Inr written))"

definition is_image_mime :: "string \<Rightarrow> bool" where
  "is_image_mime m \<longleftrightarrow> take 6 m = ''image/''"

definition upload_write :: "env \<Rightarrow> started \<Rightarrow> upload_io \<Rightarrow> server \<Rightarrow> server \<times> (files_error + stored_file)" where
  "upload_write e st io w =
     (let t = sd_ticket st; path = sd_path st in
      case write_limited path io (tk_max t) (disk w) of
        (d, Inl err) \<Rightarrow> (w\<lparr>disk := remove_quietly path d\<rparr>, Inl err)
      | (d, Inr n) \<Rightarrow>
          if n > room_quota (cfg w) - room_usage w (tk_room t)
            then (w\<lparr>disk := remove_quietly path d\<rparr>, Inl FilesQuotaFull)
          else
            (let image = is_image_mime (up_mime io); (wd, ht, thumbed) = up_thumb io;
                 f = \<lparr>fl_id = sd_file st, fl_room = tk_room t, fl_name = tk_name t, fl_size = n,
                      fl_mime = up_mime io, fl_kind = (if image then AttachmentImage else AttachmentFile),
                      fl_width = (if image then wd else 0), fl_height = (if image then ht else 0),
                      fl_has_thumb = (image \<and> thumbed), fl_owner = tk_client t,
                      fl_created_at = unix (clock e), fl_path = path,
                      fl_thumb_path = (if image \<and> thumbed then path @ runes ''.thumb'' else [])\<rparr> in
             (w\<lparr>disk := (if image \<and> thumbed then mput (path @ runes ''.thumb'') 0 d else d)\<rparr>, Inr f)))"

text \<open>A store that was dropped with its room is out of reach: the file stays on disk only.\<close>

definition upload_add :: "stored_file \<Rightarrow> server \<Rightarrow> server" where
  "upload_add f w = w\<lparr>stores := madjust (fl_room f) (store_add f) (stores w)\<rparr>"

definition upload :: "env \<Rightarrow> string \<Rightarrow> upload_io \<Rightarrow> server \<Rightarrow> server \<times> (files_error + stored_file \<times> sref)" where
  "upload e token io w =
     (case upload_begin e token w of
        (w1, Inl err) \<Rightarrow> (w1, Inl err)
      | (w1, Inr st) \<Rightarrow>
          (case upload_write e st io w1 of
             (w2, Inl err) \<Rightarrow> (w2, Inl err)
           | (w2, Inr f) \<Rightarrow> (upload_add f w2, Inr (f, sd_session st))))"

section \<open>Downloads\<close>

definition issue_download ::
  "env \<Rightarrow> string \<Rightarrow> sref \<Rightarrow> string \<Rightarrow> server \<Rightarrow> server \<times> (files_error + download_grant \<times> bool)" where
  "issue_download e token r fid w =
     (let i = s_room (heap w r) in
      if i = [] then (w, Inl FilesNotInRoom)
      else
        (let w1 = store_for i w in
         case Option.bind (mget (stores w1) i) (\<lambda>s. store_get s fid) of
           None \<Rightarrow> (w1, Inl FilesNotFound)
         | Some f \<Rightarrow>
             (let g = \<lparr>gr_file = fid, gr_room = i,
                       gr_expires = clock e + cfg_int (cfg w1) KeyUploadsTokenTTLSec * 1000000000\<rparr>;
                  w2 = sweep_tickets (clock e) w1 in
              (w2\<lparr>grants := mput token g (grants w2)\<rparr>, Inr (g, fl_has_thumb f)))))"

text \<open>The result is the file and the path that is served.\<close>

definition open_file ::
  "int \<Rightarrow> string \<Rightarrow> string \<Rightarrow> bool \<Rightarrow> server \<Rightarrow> server \<times> (files_error + stored_file \<times> ustring)" where
  "open_file now fid token thumb w =
     (let w1 = sweep_tickets now w in
      case mget (grants w1) token of
        None \<Rightarrow> (w1, Inl FilesBadToken)
      | Some g \<Rightarrow>
          if gr_file g \<noteq> fid \<or> now > gr_expires g then (w1, Inl FilesBadToken)
          else
            (let w2 = store_for (gr_room g) w1 in
             case Option.bind (mget (stores w2) (gr_room g)) (\<lambda>s. store_get s fid) of
               None \<Rightarrow> (w2, Inl FilesNotFound)
             | Some f \<Rightarrow>
                 if thumb \<and> \<not> fl_has_thumb f then (w2, Inl FilesNotFound)
                 else
                   (let path = (if thumb then fl_thumb_path f else fl_path f) in
                    if mget (disk w2) path = None then (w2, Inl FilesNotFound) else (w2, Inr (f, path)))))"

text \<open>Starting up empties the upload directory, which holds every stored file.\<close>

definition start_files :: "server \<Rightarrow> server" where
  "start_files w = w\<lparr>disk := [], stores := [], tickets := [], grants := []\<rparr>"

end
