(* ===== verification/Moderation.thy ===== *)
theory Moderation
  imports Media Paint Files
begin

text \<open>
  The requests of administrators, \<open>internal/gateway/admin.go\<close> and \<open>roles.go\<close>: kick, ban, mute, move and
  their opposites, and the roles. A handler takes the outside of the call (\<open>call\<close>: the environment, the
  case folding of names, the random token and the media signature), the session that sent the request,
  the request id and the decoded payload, \<open>None\<close> when it did not decode. The goroutines that tell the
  media server are hooks.
\<close>

record call =
  cx_env :: env
  cx_lower :: "ustring \<Rightarrow> ustring"
  cx_token :: string
  cx_sign :: "ustring \<Rightarrow> claims \<Rightarrow> string"

section \<open>Replies\<close>

abbreviation bad_request :: string where "bad_request \<equiv> ''bad_request''"
abbreviation forbidden :: string where "forbidden \<equiv> ''forbidden''"
abbreviation outranked :: string where "outranked \<equiv> ''outranked''"
abbreviation user_not_found :: string where "user_not_found \<equiv> ''user_not_found''"
abbreviation invalid_input :: string where "invalid_input \<equiv> ''invalid_input''"
abbreviation internal_error :: string where "internal_error \<equiv> ''internal_error''"
abbreviation not_in_a_room :: string where "not_in_a_room \<equiv> ''not_in_a_room''"

definition set_acc :: "access \<Rightarrow> server \<Rightarrow> server" where
  "set_acc a w = w\<lparr>acc := a\<rparr>"

definition broadcast_except :: "string \<Rightarrow> payload \<Rightarrow> uuid list \<Rightarrow> server \<Rightarrow> server" where
  "broadcast_except ty p exclude w =
     w\<lparr>heap := push_all (\<lambda>r. s_uuid (heap w r) \<in> set exclude) (encode ty [] p) (vals (live w)) (heap w)\<rparr>"

definition require :: "sref \<Rightarrow> string \<Rightarrow> perm \<Rightarrow> (server \<Rightarrow> server) \<Rightarrow> server \<Rightarrow> server" where
  "require r i perm k w = (if can (acc w) (s_uuid (heap w r)) perm then k w else send_error r i forbidden w)"

definition decoded :: "sref \<Rightarrow> string \<Rightarrow> 'p option \<Rightarrow> ('p \<Rightarrow> server \<Rightarrow> server) \<Rightarrow> server \<Rightarrow> server" where
  "decoded r i p k w = (case p of None \<Rightarrow> send_error r i bad_request w | Some x \<Rightarrow> k x w)"

definition with_target ::
  "sref \<Rightarrow> string \<Rightarrow> admin_target option \<Rightarrow> (admin_target \<Rightarrow> sref \<Rightarrow> server \<Rightarrow> server) \<Rightarrow> server \<Rightarrow> server" where
  "with_target r i p k =
     decoded r i p (\<lambda>req w.
       case get_session w (at_uuid req) of
         None \<Rightarrow> send_error r i user_not_found w
       | Some v \<Rightarrow> k req v w)"

fun access_code :: "access_error \<Rightarrow> string" where
  "access_code ErrOutranked = outranked"
| "access_code ErrRoleNotFound = ''role_not_found''"
| "access_code ErrRoleNameTaken = ''role_name_taken''"
| "access_code ErrRoleProtected = ''role_protected''"
| "access_code ErrYourself = invalid_input"
| "access_code ErrRoleNameRequired = invalid_input"
| "access_code (ErrBadRoleName _) = invalid_input"
| "access_code ErrStore = internal_error"

fun room_code :: "rooms_error \<Rightarrow> string" where
  "room_code RoomsNotFound = ''room_not_found''"
| "room_code RoomsNameTaken = ''room_name_taken''"
| "room_code RoomsBadPassword = ''room_bad_password''"
| "room_code RoomsFull = ''room_full''"
| "room_code RoomsLimit = ''room_limit_reached''"
| "room_code RoomsNotInRoom = not_in_a_room"
| "room_code RoomsRoleRequired = ''room_role_required''"
| "room_code RoomsRoleUnknown = ''role_not_found''"
| "room_code (RoomsBadName _) = ''room_invalid_name''"
| "room_code RoomsBadCapacity = ''room_invalid_name''"
| "room_code RoomsStore = internal_error"

definition log_action :: "env \<Rightarrow> sref \<Rightarrow> string \<Rightarrow> uuid \<Rightarrow> ustring \<Rightarrow> ustring \<Rightarrow> server \<Rightarrow> server" where
  "log_action e r action target target_name detail w =
     set_acc (log_mod e \<lparr>me_at = 0, me_actor_uuid = s_uuid (heap w r), me_actor_name = s_username (heap w r),
       me_action = action, me_target_uuid = target, me_target_name = target_name, me_detail = detail\<rparr> (acc w)) w"

text \<open>A sanction's length: \<open>time.Duration(seconds) * time.Second\<close> on 64 bits.\<close>

definition duration :: "int \<Rightarrow> int" where
  "duration sec = sint ((word_of_int sec :: 64 word) * 1000000000)"

section \<open>The media session of a user\<close>

definition sync_media :: "uuid \<Rightarrow> server \<Rightarrow> server" where
  "sync_media u w =
     (if \<not> media_enabled (cfg w) then w
      else
        (case get_session w u of
           None \<Rightarrow> w
         | Some s \<Rightarrow> if s_room (heap w s) = [] then w
                     else w\<lparr>hooks := hooks w @ [MediaSyncRights u (s_room (heap w s))]\<rparr>))"

definition drop_from_media :: "sref \<Rightarrow> server \<Rightarrow> server" where
  "drop_from_media v w =
     (if \<not> media_enabled (cfg w) \<or> s_room (heap w v) = [] then w
      else w\<lparr>hooks := hooks w @ [MediaDisconnect (s_uuid (heap w v)) (s_room (heap w v))]\<rparr>)"

section \<open>Kick, ban, mute\<close>

definition moderation_of :: "sref \<Rightarrow> sref \<Rightarrow> ustring \<Rightarrow> int \<Rightarrow> server \<Rightarrow> moderation" where
  "moderation_of r v reason expires w =
     \<lparr>mo_uuid = s_uuid (heap w v), mo_username = s_username (heap w v), mo_by_uuid = s_uuid (heap w r),
      mo_by_username = s_username (heap w r), mo_reason = reason, mo_expires_at = expires\<rparr>"

text \<open>Telling the victim, then everybody else, is the same for every action.\<close>

definition tell :: "string \<Rightarrow> moderation \<Rightarrow> sref \<Rightarrow> sref \<Rightarrow> server \<Rightarrow> server" where
  "tell ty ev r v w =
     broadcast_except ty (PModeration ev) [s_uuid (heap w v), s_uuid (heap w r)]
       (send_message v ty [] (PModeration ev) w)"

definition handle_kick :: "call \<Rightarrow> sref \<Rightarrow> string \<Rightarrow> admin_target option \<Rightarrow> server \<Rightarrow> server" where
  "handle_kick c r i p =
     require r i perm_kick (with_target r i p (\<lambda>req v w.
       if s_uuid (heap w v) = s_uuid (heap w r) then send_error r i invalid_input w
       else if outranks_or_equal (acc w) (s_uuid (heap w r)) (s_uuid (heap w v)) then send_error r i outranked w
       else
         (let ev = moderation_of r v (at_reason req) 0 w;
              w1 = tell ''user.kicked'' ev r v (drop_from_media v w);
              w2 = close_session v ReasonKicked w1;
              w3 = log_action (cx_env c) r ''kick'' (s_uuid (heap w2 v)) (s_username (heap w2 v)) (at_reason req) w2 in
          send_message r ''admin.ok'' i (PModeration ev) w3)))"

definition handle_ban :: "call \<Rightarrow> sref \<Rightarrow> string \<Rightarrow> admin_target option \<Rightarrow> server \<Rightarrow> server" where
  "handle_ban c r i p =
     require r i perm_ban (with_target r i p (\<lambda>req v w.
       case ban (cx_env c) (s_uuid (heap w r)) (s_uuid (heap w v)) (s_username (heap w v)) (at_reason req)
              (duration (at_duration req)) (acc w) of
         (a, Inl err) \<Rightarrow> send_error r i (access_code err) (set_acc a w)
       | (a, Inr s) \<Rightarrow>
           (let w0 = set_acc a w; ev = moderation_of r v (at_reason req) (sa_expires_at s) w0;
                w1 = tell ''user.banned'' ev r v (drop_from_media v w0);
                w2 = close_session v ReasonBanned w1;
                w3 = log_action (cx_env c) r ''ban'' (s_uuid (heap w2 v)) (s_username (heap w2 v)) (at_reason req) w2 in
            send_message r ''admin.ok'' i (PModeration ev) w3)))"

definition handle_mute :: "call \<Rightarrow> sref \<Rightarrow> string \<Rightarrow> admin_target option \<Rightarrow> server \<Rightarrow> server" where
  "handle_mute c r i p =
     require r i perm_mute (with_target r i p (\<lambda>req v w.
       case mute (cx_env c) (s_uuid (heap w r)) (s_uuid (heap w v)) (s_username (heap w v)) (at_reason req)
              (duration (at_duration req)) (acc w) of
         (a, Inl err) \<Rightarrow> send_error r i (access_code err) (set_acc a w)
       | (a, Inr s) \<Rightarrow>
           (let w0 = sync_media (s_uuid (heap w v)) (set_muted v True (set_acc a w));
                ev = moderation_of r v (at_reason req) (sa_expires_at s) w0;
                w1 = tell ''user.muted'' ev r v w0;
                w2 = log_action (cx_env c) r ''mute'' (s_uuid (heap w1 v)) (s_username (heap w1 v)) (at_reason req) w1 in
            send_message r ''admin.ok'' i (PModeration ev) w2)))"

section \<open>Lifting\<close>

definition announce_unmute :: "sref \<Rightarrow> uuid \<Rightarrow> server \<Rightarrow> server" where
  "announce_unmute r u w =
     (let ev = \<lparr>mo_uuid = u, mo_username = [], mo_by_uuid = s_uuid (heap w r),
                mo_by_username = s_username (heap w r), mo_reason = [], mo_expires_at = 0\<rparr> in
      case get_session w u of
        None \<Rightarrow> broadcast_except ''user.unmuted'' (PModeration ev) [u, s_uuid (heap w r)] w
      | Some v \<Rightarrow>
          (let w1 = set_muted v False w; ev1 = ev\<lparr>mo_username := s_username (heap w1 v)\<rparr> in
           broadcast_except ''user.unmuted'' (PModeration ev1) [u, s_uuid (heap w r)]
             (send_message v ''user.unmuted'' [] (PModeration ev1) w1)))"

definition lift_sanction ::
  "call \<Rightarrow> string \<Rightarrow> perm \<Rightarrow> sref \<Rightarrow> string \<Rightarrow> admin_target option \<Rightarrow> server \<Rightarrow> server" where
  "lift_sanction c kind perm r i p =
     require r i perm (decoded r i p (\<lambda>req w.
       case lift (cx_env c) kind (at_uuid req) (acc w) of
         (a, Inl err) \<Rightarrow> send_error r i (access_code err) (set_acc a w)
       | (a, Inr removed) \<Rightarrow>
           (let w0 = set_acc a w in
            if \<not> removed then send_error r i user_not_found w0
            else
              (let w1 = log_action (cx_env c) r (if kind = sanction_mute then ''unmute'' else ''unban'')
                          (at_uuid req) [] [] w0;
                   w2 = (if kind = sanction_mute then announce_unmute r (at_uuid req) w1 else w1) in
               send_message r ''admin.ok'' i (PAdminTarget (at_uuid req)) w2))))"

definition handle_unban where "handle_unban c = lift_sanction c sanction_ban perm_ban"
definition handle_unmute where "handle_unmute c = lift_sanction c sanction_mute perm_mute"

section \<open>Moving\<close>

definition handle_move :: "call \<Rightarrow> sref \<Rightarrow> string \<Rightarrow> (uuid \<times> string) option \<Rightarrow> server \<Rightarrow> server" where
  "handle_move c r i p =
     require r i perm_move_users (decoded r i p (\<lambda>(target, room) w.
       case get_session w target of
         None \<Rightarrow> send_error r i user_not_found w
       | Some v \<Rightarrow>
           (let now = clock (cx_env c) in
            if s_uuid (heap w v) \<noteq> s_uuid (heap w r)
                \<and> outranks_or_equal (acc w) (s_uuid (heap w r)) (s_uuid (heap w v))
              then send_error r i outranked w
            else if room = [] then
              (case leave now v w of
                 (w1, Inl err) \<Rightarrow> send_error r i (room_code err) w1
               | (w1, Inr _) \<Rightarrow>
                   send_message r ''admin.ok'' i (PAdminMove target room)
                     (send_message v ''room.left'' [] (PRoomLeft [] ReasonMoved) w1))
            else
              (case force_room now v room w of
                 (w1, Inl err) \<Rightarrow> send_error r i (room_code err) w1
               | (w1, Inr j) \<Rightarrow>
                   (case get_room w1 j of
                      None \<Rightarrow> w1
                    | Some x \<Rightarrow>
                        (let w2 = send_message v ''room.joined'' []
                                    (PRoomJoined (view_room (cx_lower c) (heap w1) True x) ReasonMoved) w1;
                             w3 = log_action (cx_env c) r ''move'' (s_uuid (heap w2 v)) (s_username (heap w2 v))
                                    (rd_name (rm_def x)) w2 in
                         send_message r ''admin.ok'' i (PAdminMove target room) w3))))))"

definition sanction_view :: "sanction_row \<Rightarrow> wire_sanction" where
  "sanction_view s = \<lparr>wn_uuid = sn_client s, wn_username = sn_username s, wn_kind = sn_kind s,
     wn_reason = sn_reason s, wn_created_by = sn_created_by s, wn_created_at = sn_created_at s,
     wn_expires_at = sn_expires_at s\<rparr>"

definition handle_sanctions :: "call \<Rightarrow> sref \<Rightarrow> string \<Rightarrow> server \<Rightarrow> server" where
  "handle_sanctions c r i w =
     (let u = s_uuid (heap w r) in
      if \<not> can (acc w) u perm_ban \<and> \<not> can (acc w) u perm_mute then send_error r i forbidden w
      else send_message r ''admin.sanctions'' i
             (PSanctions (map sanction_view (active_sanctions (clock (cx_env c)) (acc w)))) w)"

section \<open>Roles\<close>

definition view_role :: "role \<Rightarrow> role_view" where
  "view_role x = \<lparr>ro_id = role_id x, ro_name = role_name x, ro_permissions = perm_keys (role_permissions x),
     ro_priority = role_priority x, ro_color = role_color x, ro_tag_style = role_tag_style x,
     ro_is_default = role_is_default x\<rparr>"

definition role_views :: "call \<Rightarrow> server \<Rightarrow> role_view list" where
  "role_views c w = map view_role (all_roles (cx_lower c) (acc w))"

definition permissions_of :: "server \<Rightarrow> uuid \<Rightarrow> perm" where
  "permissions_of w = permissions_via (can (acc w))"

definition role_ids :: "call \<Rightarrow> server \<Rightarrow> uuid \<Rightarrow> string list" where
  "role_ids c w u = map role_id (user_roles (cx_lower c) (acc w) u)"

definition apply_roles :: "call \<Rightarrow> sref \<Rightarrow> server \<Rightarrow> server" where
  "apply_roles c r w =
     (let u = s_uuid (heap w r) in
      set_muted r (is_muted (clock (cx_env c)) (acc w) u) (set_roles r (role_ids c w u) w))"

definition refresh_roles :: "call \<Rightarrow> server \<Rightarrow> server" where
  "refresh_roles c w = fold (apply_roles c) (vals (live w)) w"

definition announce_roles :: "call \<Rightarrow> uuid \<Rightarrow> server \<Rightarrow> server" where
  "announce_roles c u w =
     (let ids = role_ids c w u; keys = perm_keys (permissions_of w u) in
      case get_session w u of
        None \<Rightarrow> w
      | Some v \<Rightarrow>
          (let w1 = set_roles v ids w;
               w2 = send_message v ''user.roles_changed'' [] (PUserRoles u ids keys) w1;
               w3 = broadcast ''user.updated'' (PUser (session_user w2 v)) u w2 in
           sync_media u w3))"

definition decode_spec :: "wire_role_spec \<Rightarrow> role_spec" where
  "decode_spec q = \<lparr>sp_name = ws_name q, sp_permissions = map_option perm_mask (ws_permissions q),
     sp_priority = ws_priority q, sp_color = ws_color q, sp_tag_style = ws_tag_style q\<rparr>"

text \<open>The refusal, if there is one.\<close>

definition role_within_reach :: "server \<Rightarrow> uuid \<Rightarrow> role_spec \<Rightarrow> string option" where
  "role_within_reach w u sp =
     (if (case sp_priority sp of None \<Rightarrow> False | Some p \<Rightarrow> p \<ge> priority (acc w) u) then Some outranked
      else if (case sp_permissions sp of None \<Rightarrow> False | Some m \<Rightarrow> m AND NOT (permissions_of w u) \<noteq> 0)
        then Some forbidden
      else None)"

definition handle_role_list :: "call \<Rightarrow> sref \<Rightarrow> string \<Rightarrow> server \<Rightarrow> server" where
  "handle_role_list c r i w = send_message r ''admin.role.list'' i (PRoles (role_views c w)) w"

definition publish_role :: "sref \<Rightarrow> string \<Rightarrow> role \<Rightarrow> server \<Rightarrow> server" where
  "publish_role r i x w =
     send_message r ''admin.role'' i (PRole (view_role x))
       (broadcast ''admin.role'' (PRole (view_role x)) (s_uuid (heap w r)) w)"

definition handle_role_create :: "call \<Rightarrow> sref \<Rightarrow> string \<Rightarrow> wire_role_spec option \<Rightarrow> server \<Rightarrow> server" where
  "handle_role_create c r i p =
     require r i perm_manage_roles (decoded r i p (\<lambda>q w.
       case role_within_reach w (s_uuid (heap w r)) (decode_spec q) of
         Some code \<Rightarrow> send_error r i code w
       | None \<Rightarrow>
           (case create_role (cx_env c) (decode_spec q) (acc w) of
              (a, Inl err) \<Rightarrow> send_error r i (access_code err) (set_acc a w)
            | (a, Inr x) \<Rightarrow> publish_role r i x (set_acc a w))))"

definition handle_role_update :: "call \<Rightarrow> sref \<Rightarrow> string \<Rightarrow> wire_role_spec option \<Rightarrow> server \<Rightarrow> server" where
  "handle_role_update c r i p =
     require r i perm_manage_roles (decoded r i p (\<lambda>q w.
       case role_within_reach w (s_uuid (heap w r)) (decode_spec q) of
         Some code \<Rightarrow> send_error r i code w
       | None \<Rightarrow>
           (case update_role (cx_env c) (ws_role_id q) (decode_spec q) (acc w) of
              (a, Inl err) \<Rightarrow> send_error r i (access_code err) (set_acc a w)
            | (a, Inr x) \<Rightarrow> refresh_roles c (publish_role r i x (set_acc a w)))))"

definition handle_role_delete :: "call \<Rightarrow> sref \<Rightarrow> string \<Rightarrow> string option \<Rightarrow> server \<Rightarrow> server" where
  "handle_role_delete c r i p =
     require r i perm_manage_roles (decoded r i p (\<lambda>x w.
       case delete_role (cx_env c) x (acc w) of
         (a, Some err) \<Rightarrow> send_error r i (access_code err) (set_acc a w)
       | (a, None) \<Rightarrow>
           (let w1 = broadcast ''admin.role.deleted'' (PRoleRef x) (s_uuid (heap w r)) (set_acc a w) in
            refresh_roles c (send_message r ''admin.role.deleted'' i (PRoleRef x) w1))))"

definition change_assignment ::
  "call \<Rightarrow> bool \<Rightarrow> sref \<Rightarrow> string \<Rightarrow> (uuid \<times> string) option \<Rightarrow> server \<Rightarrow> server" where
  "change_assignment c granting r i p =
     require r i perm_manage_roles (decoded r i p (\<lambda>(target, x) w.
       case (if granting then grant (cx_env c) (s_uuid (heap w r)) target x (acc w)
             else revoke (cx_env c) (s_uuid (heap w r)) target x (acc w)) of
         (a, Some err) \<Rightarrow> send_error r i (access_code err) (set_acc a w)
       | (a, None) \<Rightarrow>
           (let w1 = log_action (cx_env c) r (if granting then ''role_grant'' else ''role_revoke'')
                       target [] (runes x) (set_acc a w) in
            send_message r ''admin.ok'' i (PRoleAssignment target x) (announce_roles c target w1))))"

end
