(* ===== verification/Gateway.thy ===== *)
theory Gateway
  imports Moderation
begin

text \<open>
  The gateway, \<open>internal/gateway/gateway.go\<close>, \<open>pump.go\<close>, \<open>rooms.go\<close>, \<open>chat.go\<close>, \<open>files.go\<close>, \<open>media.go\<close> and
  \<open>paint.go\<close>: what happens between a client's first frame and its departure. \<open>handshake\<close> is the checks on
  the hello frame and the registration, \<open>dispatch\<close> routes a decoded request to its handler,
  \<open>client_left\<close> is the end of a connection. Requests about bots and avatars are not part of \<open>request\<close>.
\<close>

section \<open>Room requests\<close>

definition reply_view :: "call \<Rightarrow> sref \<Rightarrow> string \<Rightarrow> string \<Rightarrow> bool \<Rightarrow> (room_view \<Rightarrow> payload) \<Rightarrow> string \<Rightarrow> server \<Rightarrow> server" where
  "reply_view c r ty i full mk j w =
     (case get_room w j of None \<Rightarrow> w | Some x \<Rightarrow> send_message r ty i (mk (view_room (cx_lower c) (heap w) full x)) w)"

definition handle_room_list :: "call \<Rightarrow> sref \<Rightarrow> string \<Rightarrow> server \<Rightarrow> server" where
  "handle_room_list c r i w = send_message r ''room.list'' i (PRoomList (room_views (cx_lower c) w)) w"

definition handle_room_join :: "call \<Rightarrow> sref \<Rightarrow> string \<Rightarrow> room_join option \<Rightarrow> server \<Rightarrow> server" where
  "handle_room_join c r i p =
     decoded r i p (\<lambda>q w.
       case join_room (clock (cx_env c)) r (rj_room_id q) (rj_password q) w of
         (w1, Inl err) \<Rightarrow> send_error r i (room_code err) w1
       | (w1, Inr j) \<Rightarrow> reply_view c r ''room.joined'' i True (\<lambda>v. PRoomJoined v []) j w1)"

definition handle_room_leave :: "call \<Rightarrow> sref \<Rightarrow> string \<Rightarrow> server \<Rightarrow> server" where
  "handle_room_leave c r i w =
     (case leave (clock (cx_env c)) r w of
        (w1, Inl err) \<Rightarrow> send_error r i (room_code err) w1
      | (w1, Inr j) \<Rightarrow> send_message r ''room.left'' i (PRoomLeft j ReasonLeftVoluntarily) w1)"

definition handle_room_create :: "call \<Rightarrow> sref \<Rightarrow> string \<Rightarrow> room_create option \<Rightarrow> server \<Rightarrow> server" where
  "handle_room_create c r i p =
     require r i perm_manage_rooms (decoded r i p (\<lambda>q w.
       case create_room (cx_env c) (cx_lower c) (s_uuid (heap w r)) q w of
         (w1, Inl err) \<Rightarrow> send_error r i (room_code err) w1
       | (w1, Inr j) \<Rightarrow> reply_view c r ''room.created'' i False PRoom j w1))"

definition handle_room_update :: "call \<Rightarrow> sref \<Rightarrow> string \<Rightarrow> room_update option \<Rightarrow> server \<Rightarrow> server" where
  "handle_room_update c r i p =
     require r i perm_manage_rooms (decoded r i p (\<lambda>q w.
       case update_room (cx_env c) (cx_lower c) (s_uuid (heap w r)) q w of
         (w1, Inl err) \<Rightarrow> send_error r i (room_code err) w1
       | (w1, Inr j) \<Rightarrow> reply_view c r ''room.updated'' i False PRoom j w1))"

definition handle_room_delete :: "call \<Rightarrow> sref \<Rightarrow> string \<Rightarrow> string option \<Rightarrow> server \<Rightarrow> server" where
  "handle_room_delete c r i p =
     require r i perm_manage_rooms (decoded r i p (\<lambda>j w.
       case delete_room (cx_env c) (s_uuid (heap w r)) j w of
         (w1, Some err) \<Rightarrow> send_error r i (room_code err) w1
       | (w1, None) \<Rightarrow> send_message r ''room.deleted'' i (PRoomRef j) w1))"

section \<open>Chat requests\<close>

fun chat_code :: "chat_error \<Rightarrow> string" where
  "chat_code ChatNotInRoom = not_in_a_room"
| "chat_code ChatRateLimited = ''rate_limited''"
| "chat_code ChatForbidden = forbidden"
| "chat_code ChatNotAllowed = forbidden"
| "chat_code ChatMuted = ''muted''"
| "chat_code StickersDisabled = ''stickers_disabled''"
| "chat_code MessageNotFound = ''message_not_found''"
| "chat_code (InvalidText _) = ''message_invalid''"
| "chat_code InvalidSticker = ''message_invalid''"
| "chat_code NotEditable = ''message_invalid''"

definition handle_chat_send :: "call \<Rightarrow> sref \<Rightarrow> string \<Rightarrow> chat_send option \<Rightarrow> server \<Rightarrow> server" where
  "handle_chat_send c r i p =
     decoded r i p (\<lambda>q w.
       case chat_send_msg (cx_env c) r q w of
         (w1, Inl err) \<Rightarrow> send_error r i (chat_code err) w1
       | (w1, Inr m) \<Rightarrow> send_message r ''chat.message'' i (PMessage m) w1)"

text \<open>A request without a payload asks for the newest messages.\<close>

definition handle_chat_history :: "call \<Rightarrow> sref \<Rightarrow> string \<Rightarrow> chat_history_request option \<Rightarrow> server \<Rightarrow> server" where
  "handle_chat_history c r i p =
     decoded r i p (\<lambda>q w.
       case chat_history r q w of
         (w1, Inl err) \<Rightarrow> send_error r i (chat_code err) w1
       | (w1, Inr (j, page, older)) \<Rightarrow> send_message r ''chat.history'' i (PChatHistory j page older) w1)"

definition handle_chat_edit :: "call \<Rightarrow> sref \<Rightarrow> string \<Rightarrow> chat_edit option \<Rightarrow> server \<Rightarrow> server" where
  "handle_chat_edit c r i p =
     decoded r i p (\<lambda>q w.
       case chat_edit_msg (cx_env c) r q w of
         (w1, Inl err) \<Rightarrow> send_error r i (chat_code err) w1
       | (w1, Inr m) \<Rightarrow> send_message r ''chat.updated'' i (PMessage m) w1)"

definition handle_chat_delete :: "call \<Rightarrow> sref \<Rightarrow> string \<Rightarrow> string option \<Rightarrow> server \<Rightarrow> server" where
  "handle_chat_delete c r i p =
     decoded r i p (\<lambda>q w.
       case chat_delete_msg r q w of
         (w1, Inl err) \<Rightarrow> send_error r i (chat_code err) w1
       | (w1, Inr (j, m, by_mod)) \<Rightarrow> send_message r ''chat.deleted'' i (PChatDeleted j m by_mod) w1)"

definition handle_chat_typing :: "call \<Rightarrow> sref \<Rightarrow> string \<Rightarrow> bool option \<Rightarrow> server \<Rightarrow> server" where
  "handle_chat_typing c r i p =
     decoded r i p (\<lambda>q w.
       case chat_typing (cx_env c) r q w of
         (w1, None) \<Rightarrow> w1
       | (w1, Some err) \<Rightarrow>
           if err = ChatRateLimited \<or> err = ChatNotInRoom \<or> err = ChatMuted then w1
           else send_error r i (chat_code err) w1)"

section \<open>Files and media\<close>

fun files_code :: "files_error \<Rightarrow> string" where
  "files_code FilesDisabled = ''uploads_disabled''"
| "files_code FilesForbidden = forbidden"
| "files_code FilesNotInRoom = not_in_a_room"
| "files_code FilesTooLarge = ''file_too_large''"
| "files_code FilesQuotaFull = ''room_quota_exceeded''"
| "files_code FilesNotFound = ''file_not_found''"
| "files_code FilesNameRequired = ''file_invalid''"
| "files_code FilesBadTicket = internal_error"
| "files_code FilesBadToken = internal_error"
| "files_code FilesEmpty = internal_error"
| "files_code FilesIO = internal_error"

definition handle_upload_request :: "call \<Rightarrow> sref \<Rightarrow> string \<Rightarrow> (ustring \<times> int) option \<Rightarrow> server \<Rightarrow> server" where
  "handle_upload_request c r i p =
     decoded r i p (\<lambda>(name, sz) w.
       case request_upload (cx_env c) (cx_token c) r name sz w of
         (w1, Inl err) \<Rightarrow> send_error r i (files_code err) w1
       | (w1, Inr t) \<Rightarrow>
           send_message r ''file.upload_ticket'' i (PUploadTicket (tk_id t) (cx_token c) (unix (tk_expires t)) (tk_max t)) w1)"

definition handle_download_token :: "call \<Rightarrow> sref \<Rightarrow> string \<Rightarrow> string option \<Rightarrow> server \<Rightarrow> server" where
  "handle_download_token c r i p =
     decoded r i p (\<lambda>fid w.
       case issue_download (cx_env c) (cx_token c) r fid w of
         (w1, Inl err) \<Rightarrow> send_error r i (files_code err) w1
       | (w1, Inr (g, thumb)) \<Rightarrow>
           send_message r ''file.download'' i (PDownload fid (cx_token c) (unix (gr_expires g)) thumb) w1)"

text \<open>The HTTP upload handler posts a finished upload in the room.\<close>

definition announce_upload :: "env \<Rightarrow> sref \<Rightarrow> stored_file \<Rightarrow> server \<Rightarrow> server" where
  "announce_upload e r f w = fst (post_attachment e r (attachment_of f) w)"

fun media_code :: "media_error \<Rightarrow> string" where
  "media_code MediaDisabled = ''media_disabled''"
| "media_code MediaNotInRoom = not_in_a_room"

definition handle_media_token :: "call \<Rightarrow> sref \<Rightarrow> string \<Rightarrow> server \<Rightarrow> server" where
  "handle_media_token c r i w =
     (case issue_token (cx_sign c) (cx_env c) r w of
        Inl err \<Rightarrow> send_error r i (media_code err) w
      | Inr t \<Rightarrow> send_message r ''media.token'' i (PMediaToken t) w)"

definition handle_media_state :: "call \<Rightarrow> sref \<Rightarrow> string \<Rightarrow> media_state option \<Rightarrow> server \<Rightarrow> server" where
  "handle_media_state c r i p =
     decoded r i p (\<lambda>q w.
       let j = s_room (heap w r); u = s_uuid (heap w r) in
       if j = [] then send_error r i not_in_a_room w
       else send_message r ''media.state'' i (PMediaState u j q)
              (broadcast ''media.state'' (PMediaState u j q) u (set_media r q w)))"

section \<open>The paint board\<close>

fun paint_code :: "paint_error \<Rightarrow> string" where
  "paint_code PaintDisabled = ''paint_disabled''"
| "paint_code PaintNotInRoom = not_in_a_room"
| "paint_code PaintForbidden = forbidden"
| "paint_code PaintMuted = ''muted''"
| "paint_code PaintRateLimited = ''rate_limited''"
| "paint_code (PaintBoard BoardFull) = ''paint_board_full''"
| "paint_code (PaintBoard StrokeNotFound) = ''paint_stroke_not_found''"
| "paint_code (PaintBoard NotYours) = ''paint_stroke_not_found''"
| "paint_code PaintBadTool = ''paint_invalid''"
| "paint_code PaintColorTooLong = ''paint_invalid''"
| "paint_code PaintBadColor = ''paint_invalid''"
| "paint_code PaintBadScope = ''paint_invalid''"

definition handle_paint_begin :: "call \<Rightarrow> sref \<Rightarrow> string \<Rightarrow> paint_begin option \<Rightarrow> server \<Rightarrow> server" where
  "handle_paint_begin c r i p =
     decoded r i p (\<lambda>q w.
       case paint_begin_stroke (cx_env c) r q w of
         (w1, Inl err) \<Rightarrow> send_error r i (paint_code err) w1
       | (w1, Inr s) \<Rightarrow> send_message r ''paint.begin'' i (PStroke s) w1)"

definition handle_paint_append :: "call \<Rightarrow> sref \<Rightarrow> string \<Rightarrow> (string \<times> point list) option \<Rightarrow> server \<Rightarrow> server" where
  "handle_paint_append c r i p =
     decoded r i p (\<lambda>(sid, ps) w.
       case paint_append (cx_env c) r sid ps w of
         (w1, None) \<Rightarrow> w1
       | (w1, Some err) \<Rightarrow>
           if err = PaintRateLimited \<or> err = PaintBoard StrokeNotFound then w1
           else send_error r i (paint_code err) w1)"

definition handle_paint_end :: "call \<Rightarrow> sref \<Rightarrow> string \<Rightarrow> string option \<Rightarrow> server \<Rightarrow> server" where
  "handle_paint_end c r i p =
     decoded r i p (\<lambda>sid w.
       case paint_end (cx_env c) r sid w of
         (w1, None) \<Rightarrow> w1
       | (w1, Some err) \<Rightarrow> send_error r i (paint_code err) w1)"

definition handle_paint_undo :: "call \<Rightarrow> sref \<Rightarrow> string \<Rightarrow> server \<Rightarrow> server" where
  "handle_paint_undo c r i w =
     (case paint_undo (cx_env c) r w of
        (w1, Inl err) \<Rightarrow> send_error r i (paint_code err) w1
      | (w1, Inr (sid, j)) \<Rightarrow> send_message r ''paint.undo'' i (PPaintUndo sid j) w1)"

definition handle_paint_clear :: "call \<Rightarrow> sref \<Rightarrow> string \<Rightarrow> ustring option \<Rightarrow> server \<Rightarrow> server" where
  "handle_paint_clear c r i p =
     decoded r i p (\<lambda>scope w.
       case paint_clear (cx_env c) r scope w of
         (w1, Inl err) \<Rightarrow> send_error r i (paint_code err) w1
       | (w1, Inr (j, sc, u)) \<Rightarrow> send_message r ''paint.clear'' i (PPaintCleared j sc u) w1)"

definition handle_paint_state :: "call \<Rightarrow> sref \<Rightarrow> string \<Rightarrow> server \<Rightarrow> server" where
  "handle_paint_state c r i w =
     (case paint_state r w of
        (w1, Inl err) \<Rightarrow> send_error r i (paint_code err) w1
      | (w1, Inr (j, ss, n)) \<Rightarrow> send_message r ''paint.state'' i (PPaintState j ss n) w1)"

section \<open>Coming and going\<close>

definition set_users :: "(db \<Rightarrow> store_error + db) \<Rightarrow> server \<Rightarrow> server" where
  "set_users f w = (case f (db_of w) of Inl _ \<Rightarrow> w | Inr d \<Rightarrow> set_db d w)"

datatype first_frame = Malformed | NotHello | BadHello | HelloFrame hello

definition protocol_version :: int where "protocol_version = 1"

text \<open>The checks on the first frame in the order of the code: the client id and name to use, or the
  code of the rejection.\<close>

definition check_hello :: "call \<Rightarrow> first_frame \<Rightarrow> server \<Rightarrow> string + uuid \<times> ustring" where
  "check_hello c fr w =
     (case fr of
        Malformed \<Rightarrow> Inl bad_request
      | NotHello \<Rightarrow> Inl ''handshake_required''
      | BadHello \<Rightarrow> Inl bad_request
      | HelloFrame h \<Rightarrow>
          if hl_protocol h \<noteq> 0 \<and> hl_protocol h \<noteq> protocol_version then Inl ''unsupported_protocol''
          else
            (case normalize_client_uuid (hl_uuid h) of
               Inl _ \<Rightarrow> Inl ''invalid_client_uuid''
             | Inr canonical \<Rightarrow>
                 (let u = map char_of canonical in
                  case normalize_username (hl_username h) (fst (username_limits (cfg w))) (snd (username_limits (cfg w))) of
                    Inl _ \<Rightarrow> Inl ''invalid_username''
                  | Inr name \<Rightarrow>
                      if is_banned (clock (cx_env c)) (acc w) u then Inl ''banned''
                      else if cfg_string (cfg w) KeyServerPassword \<noteq> []
                          \<and> cfg_string (cfg w) KeyServerPassword \<noteq> hl_password h then Inl ''bad_password''
                      else if username_taken (cx_lower c) w name u then Inl ''username_taken''
                      else Inr (u, name))))"

definition welcome_for :: "call \<Rightarrow> string \<Rightarrow> bot_view list \<Rightarrow> sref \<Rightarrow> server \<Rightarrow> welcome_msg" where
  "welcome_for c server_uuid bots r w =
     (let s = heap w r; g = cfg w in
      \<lparr>wl_session_id = s_id s, wl_server_uuid = server_uuid,
       wl_server_name = cfg_string g KeyServerName, wl_message = cfg_string g KeyServerWelcome,
       wl_heartbeat = cfg_int g KeyHeartbeatSec, wl_you = session_user w r,
       wl_users = all_users (cx_lower c) w, wl_rooms = room_views (cx_lower c) w,
       wl_roles = role_views c w, wl_bots = bots,
       wl_limits = \<lparr>ul_username_min = fst (username_limits g), ul_username_max = snd (username_limits g),
         ul_max_users = cfg_int g KeyServerMaxUsers, ul_message_max = cfg_int g KeyChatMaxMessageLen,
         ul_history_limit = cfg_int g KeyRoomsHistoryLimit, ul_stickers = cfg_bool g KeyChatStickersEnabled,
         ul_media = media_enabled g, ul_paint = cfg_bool g KeyPaintEnabled\<rparr>,
       wl_permissions = perm_keys (permissions_of w (s_uuid s))\<rparr>)"

text \<open>The registration of a client whose hello passed the checks.\<close>

definition admit_client ::
  "call \<Rightarrow> string \<Rightarrow> bot_view list \<Rightarrow> string \<Rightarrow> ustring \<Rightarrow> string \<Rightarrow> uuid \<times> ustring \<Rightarrow> server \<Rightarrow> server \<times> (string + sref)" where
  "admit_client c server_uuid bots avatar remote i who w =
     (let (u, name) = who;
          (w1, r) = alloc (new_session (new_uuid (cx_env c)) u name remote (clock (cx_env c))) w;
          w2 = set_avatar r avatar (apply_roles c r w1) in
      case add_session (cfg_int (cfg w2) KeyServerMaxUsers) r w2 of
        (w3, Inl _) \<Rightarrow> (w3, Inl ''server_full'')
      | (w3, Inr replaced) \<Rightarrow>
          (let w4 = set_users (db_touch_user (cx_env c) u name) w3;
               w5 = (case replaced of None \<Rightarrow> w4 | Some old \<Rightarrow> fst (transfer_membership old r w4)) in
           if \<not> accepts (heap w5 r) then (fst (remove_session r w5), Inl [])
           else
             (let w6 = send_message r ''welcome'' i (PWelcome (welcome_for c server_uuid bots r w5)) w5 in
              (if replaced = None then broadcast ''user.joined'' (PUser (session_user w6 r)) u w6 else w6,
               Inr r))))"

definition handshake ::
  "call \<Rightarrow> string \<Rightarrow> bot_view list \<Rightarrow> string \<Rightarrow> ustring \<Rightarrow> string \<Rightarrow> first_frame \<Rightarrow> server \<Rightarrow> server \<times> (string + sref)" where
  "handshake c server_uuid bots avatar remote i fr w =
     (case check_hello c fr w of
        Inl code \<Rightarrow> (w, Inl code)
      | Inr who \<Rightarrow> admit_client c server_uuid bots avatar remote i who w)"

definition leave_server :: "call \<Rightarrow> sref \<Rightarrow> server \<Rightarrow> server" where
  "leave_server c r w =
     (case remove_session r w of
        (w1, False) \<Rightarrow> w1
      | (w1, True) \<Rightarrow>
          (let u = s_uuid (heap w1 r);
               w2 = paint_forget u (chat_forget u (disconnect (clock (cx_env c)) r w1));
               w3 = broadcast ''user.left''
                      (PUserLeft u (s_username (heap w2 r)) (s_reason (heap w2 r))) u w2 in
           set_users (db_mark_user_seen (cx_env c) u) w3))"

definition client_left :: "call \<Rightarrow> sref \<Rightarrow> server \<Rightarrow> server" where
  "client_left c r w = leave_server c r (close_session r ReasonClientLeft w)"

text \<open>A rename asks for the name and sets it in two steps, with no lock held in between. The check answers
  \<open>None\<close> for the name the session has.\<close>

definition rename_check :: "call \<Rightarrow> sref \<Rightarrow> ustring \<Rightarrow> server \<Rightarrow> string + ustring option" where
  "rename_check c r raw w =
     (case normalize_username raw (fst (username_limits (cfg w))) (snd (username_limits (cfg w))) of
        Inl _ \<Rightarrow> Inl ''invalid_username''
      | Inr name \<Rightarrow>
          if name = s_username (heap w r) then Inr None
          else if username_taken (cx_lower c) w name (s_uuid (heap w r)) then Inl ''username_taken''
          else Inr (Some name))"

definition rename_to :: "call \<Rightarrow> sref \<Rightarrow> string \<Rightarrow> ustring \<Rightarrow> server \<Rightarrow> server" where
  "rename_to c r i name w =
     (let w1 = set_users (db_update_username (cx_env c) (s_uuid (heap w r)) name) (set_username r name w) in
      broadcast ''user.updated'' (PUser (session_user w1 r)) (s_uuid (heap w r))
        (send_message r ''user.updated'' i (PUser (session_user w1 r)) w1))"

definition handle_rename :: "call \<Rightarrow> sref \<Rightarrow> string \<Rightarrow> ustring option \<Rightarrow> server \<Rightarrow> server" where
  "handle_rename c r i p =
     decoded r i p (\<lambda>raw w.
       case rename_check c r raw w of
         Inl code \<Rightarrow> send_error r i code w
       | Inr None \<Rightarrow> send_message r ''user.updated'' i (PUser (session_user w r)) w
       | Inr (Some name) \<Rightarrow> rename_to c r i name w)"

section \<open>Dispatch\<close>

datatype request =
    RqMalformed | RqUnknown | RqHello | RqPing
  | RqRename "ustring option"
  | RqRoomList | RqRoomJoin "room_join option" | RqRoomLeave
  | RqRoomCreate "room_create option" | RqRoomUpdate "room_update option" | RqRoomDelete "string option"
  | RqChatSend "chat_send option" | RqChatHistory "chat_history_request option"
  | RqChatEdit "chat_edit option" | RqChatDelete "string option" | RqChatTyping "bool option"
  | RqKick "admin_target option" | RqBan "admin_target option" | RqUnban "admin_target option"
  | RqMute "admin_target option" | RqUnmute "admin_target option" | RqMove "(uuid \<times> string) option"
  | RqSanctions
  | RqRoleList | RqRoleCreate "wire_role_spec option" | RqRoleUpdate "wire_role_spec option"
  | RqRoleDelete "string option" | RqRoleGrant "(uuid \<times> string) option" | RqRoleRevoke "(uuid \<times> string) option"
  | RqUpload "(ustring \<times> int) option" | RqDownload "string option"
  | RqMediaToken | RqMediaState "media_state option"
  | RqPaintBegin "paint_begin option" | RqPaintAppend "(string \<times> point list) option"
  | RqPaintEnd "string option" | RqPaintUndo | RqPaintClear "ustring option" | RqPaintState

fun dispatch :: "call \<Rightarrow> sref \<Rightarrow> string \<Rightarrow> request \<Rightarrow> server \<Rightarrow> server" where
  "dispatch c r i RqMalformed w = send_error r [] bad_request w"
| "dispatch c r i RqUnknown w = send_error r i bad_request w"
| "dispatch c r i RqHello w = send_error r i bad_request w"
| "dispatch c r i RqPing w = send_message r ''pong'' i PNone w"
| "dispatch c r i (RqRename p) w = handle_rename c r i p w"
| "dispatch c r i RqRoomList w = handle_room_list c r i w"
| "dispatch c r i (RqRoomJoin p) w = handle_room_join c r i p w"
| "dispatch c r i RqRoomLeave w = handle_room_leave c r i w"
| "dispatch c r i (RqRoomCreate p) w = handle_room_create c r i p w"
| "dispatch c r i (RqRoomUpdate p) w = handle_room_update c r i p w"
| "dispatch c r i (RqRoomDelete p) w = handle_room_delete c r i p w"
| "dispatch c r i (RqChatSend p) w = handle_chat_send c r i p w"
| "dispatch c r i (RqChatHistory p) w = handle_chat_history c r i p w"
| "dispatch c r i (RqChatEdit p) w = handle_chat_edit c r i p w"
| "dispatch c r i (RqChatDelete p) w = handle_chat_delete c r i p w"
| "dispatch c r i (RqChatTyping p) w = handle_chat_typing c r i p w"
| "dispatch c r i (RqKick p) w = handle_kick c r i p w"
| "dispatch c r i (RqBan p) w = handle_ban c r i p w"
| "dispatch c r i (RqUnban p) w = handle_unban c r i p w"
| "dispatch c r i (RqMute p) w = handle_mute c r i p w"
| "dispatch c r i (RqUnmute p) w = handle_unmute c r i p w"
| "dispatch c r i (RqMove p) w = handle_move c r i p w"
| "dispatch c r i RqSanctions w = handle_sanctions c r i w"
| "dispatch c r i RqRoleList w = handle_role_list c r i w"
| "dispatch c r i (RqRoleCreate p) w = handle_role_create c r i p w"
| "dispatch c r i (RqRoleUpdate p) w = handle_role_update c r i p w"
| "dispatch c r i (RqRoleDelete p) w = handle_role_delete c r i p w"
| "dispatch c r i (RqRoleGrant p) w = change_assignment c True r i p w"
| "dispatch c r i (RqRoleRevoke p) w = change_assignment c False r i p w"
| "dispatch c r i (RqUpload p) w = handle_upload_request c r i p w"
| "dispatch c r i (RqDownload p) w = handle_download_token c r i p w"
| "dispatch c r i RqMediaToken w = handle_media_token c r i w"
| "dispatch c r i (RqMediaState p) w = handle_media_state c r i p w"
| "dispatch c r i (RqPaintBegin p) w = handle_paint_begin c r i p w"
| "dispatch c r i (RqPaintAppend p) w = handle_paint_append c r i p w"
| "dispatch c r i (RqPaintEnd p) w = handle_paint_end c r i p w"
| "dispatch c r i RqPaintUndo w = handle_paint_undo c r i w"
| "dispatch c r i (RqPaintClear p) w = handle_paint_clear c r i p w"
| "dispatch c r i RqPaintState w = handle_paint_state c r i w"

text \<open>The read pump drops the frames of a session that was closed.\<close>

definition read_frame :: "call \<Rightarrow> sref \<Rightarrow> string \<Rightarrow> request \<Rightarrow> server \<Rightarrow> server" where
  "read_frame c r i q w = (if s_closed (heap w r) then w else dispatch c r i q w)"

end
