(* ===== verification/Files_Correct.thy ===== *)
theory Files_Correct
  imports Files Demo
begin

text \<open>
  What holds of uploads and downloads: what a file name looks like once it is cleaned, who may use an
  upload ticket and how often, what the quota guarantees when uploads do not overlap and what it does
  not when they do, and what a download link opens.
\<close>

section \<open>Names\<close>

lemma length_path_ext: "length (path_ext p) \<le> length p"
proof -
  have "length (takeWhile (\<lambda>c. c \<noteq> full_stop \<and> c \<noteq> slash) (rev p)) \<le> length p"
    by (metis length_rev length_takeWhile_le)
  then show ?thesis by (auto simp: path_ext_def Let_def)
qed

lemma set_path_ext: "set (path_ext p) \<subseteq> insert full_stop (set p)"
  by (auto simp: path_ext_def Let_def dest: set_takeWhileD)

lemma set_cut_name: "set (cut_name n) \<subseteq> insert full_stop (set n)"
  using set_path_ext [of n] by (auto simp: cut_name_def Let_def dest: in_set_takeD)

lemma length_cut_name: "length (cut_name n) \<le> 120"
  using length_path_ext [of n] by (auto simp: cut_name_def max_name_len_def Let_def)

lemma cut_name_nonempty: "n \<noteq> [] \<Longrightarrow> cut_name n \<noteq> []"
  by (auto simp: cut_name_def max_name_len_def Let_def)

lemma set_path_base: "set (path_base p) \<subseteq> {full_stop, slash} \<union> set p"
  by (auto simp: path_base_def Let_def dest!: set_takeWhileD set_dropWhileD)

lemma set_trim_space: "set (trim_space s) \<subseteq> set s"
  unfolding trim_space_def by (rule set_trim_by)

text \<open>A file name that is accepted is not empty, has at most 120 characters, and holds no path
  separator of either kind and no control character, whatever the client sent.\<close>

theorem sanitized_name_is_safe:
  assumes "sanitize_name raw = Inr name"
  shows "name \<noteq> [] \<and> length name \<le> 120
    \<and> (\<forall>c \<in> set name. c \<noteq> slash \<and> c \<noteq> backslash \<and> \<not> is_control c)"
proof -
  obtain b f where b: "b = trim_space (path_base (map (\<lambda>c. if c = backslash then slash else c) (trim_space raw)))"
    and f: "f = trim_space (filter (\<lambda>c. \<not> is_control c \<and> c \<noteq> slash \<and> c \<noteq> 0) b)" by blast
  have name: "f \<noteq> []" "name = cut_name f"
    using assms unfolding sanitize_name_def Let_def b [symmetric] f [symmetric]
    by (simp_all split: if_split_asm)
  have "set b \<subseteq> {full_stop, slash} \<union> set (map (\<lambda>c. if c = backslash then slash else c) (trim_space raw))"
    unfolding b by (rule order_trans [OF set_trim_space set_path_base])
  then have nb: "backslash \<notin> set b" by auto
  have "set f \<subseteq> set (filter (\<lambda>c. \<not> is_control c \<and> c \<noteq> slash \<and> c \<noteq> 0) b)"
    unfolding f by (rule set_trim_space)
  with nb have "\<forall>c \<in> set f. c \<noteq> slash \<and> c \<noteq> backslash \<and> \<not> is_control c" by auto
  moreover have "\<not> is_control full_stop" by (simp add: is_control_def)
  ultimately have "\<forall>c \<in> set name. c \<noteq> slash \<and> c \<noteq> backslash \<and> \<not> is_control c"
    unfolding name(2) using set_cut_name [of f] by auto
  with name show ?thesis
    using length_cut_name [of f] cut_name_nonempty by simp
qed

theorem sanitized_name_is_safe_witness:
  "sanitize_name (runes ''../a/b.txt '') = Inr (runes ''b.txt'') \<and> slash \<notin> set (runes ''b.txt'')"
proof -
  have "sanitize_name (runes ''../a/b.txt '') = Inr (runes ''b.txt'')"
    by (simp add: sanitize_name_def runes_def trim_space_def trim_by_def is_space_def path_base_def
      is_control_def cut_name_def max_name_len_def Let_def)
  with sanitized_name_is_safe [OF this] show ?thesis by blast
qed

text \<open>The names of the directory itself and its parent are refused before control characters are
  dropped, not after, so a name of two dots around a control character is stored as two dots.\<close>

theorem sanitized_name_can_be_dots:
  "sanitize_name [full_stop, 1, full_stop] = Inr [full_stop, full_stop]"
  by (simp add: sanitize_name_def trim_space_def trim_by_def is_space_def path_base_def
      is_control_def cut_name_def max_name_len_def Let_def)

section \<open>Tickets\<close>

lemma mget_sweep [simp]:
  assumes "wf_map (tickets w)"
  shows "mget (tickets (sweep_tickets now w)) k =
    (case mget (tickets w) k of None \<Rightarrow> None | Some t \<Rightarrow> if now \<le> tk_expires t then Some t else None)"
  using assms by (simp add: sweep_tickets_def mget_filter split: option.split)

lemma mget_sweep_grants [simp]:
  assumes "wf_map (grants w)"
  shows "mget (grants (sweep_tickets now w)) k =
    (case mget (grants w) k of None \<Rightarrow> None | Some t \<Rightarrow> if now \<le> gr_expires t then Some t else None)"
  using assms by (simp add: sweep_tickets_def mget_filter split: option.split)

lemma sweep_frame [simp, net_frame]:
  "heap (sweep_tickets now w) = heap w" "live (sweep_tickets now w) = live w"
  "rooms (sweep_tickets now w) = rooms w" "cfg (sweep_tickets now w) = cfg w" "acc (sweep_tickets now w) = acc w"
  "stores (sweep_tickets now w) = stores w" "disk (sweep_tickets now w) = disk w"
  "next_ref (sweep_tickets now w) = next_ref w" "hooks (sweep_tickets now w) = hooks w"
  "get_room (sweep_tickets now w) = get_room w" "buffers (sweep_tickets now w) = buffers w"
  "boards (sweep_tickets now w) = boards w"
  by (simp_all add: sweep_tickets_def get_room_def fun_eq_iff)

lemma add_ephemeral_frame [simp, net_frame]:
  "heap (add_ephemeral i x w) = heap w" "live (add_ephemeral i x w) = live w"
  "next_ref (add_ephemeral i x w) = next_ref w" "cfg (add_ephemeral i x w) = cfg w"
  "acc (add_ephemeral i x w) = acc w" "stores (add_ephemeral i x w) = stores w"
  "disk (add_ephemeral i x w) = disk w" "tickets (add_ephemeral i x w) = tickets w"
  "grants (add_ephemeral i x w) = grants w" "hooks (add_ephemeral i x w) = hooks w"
  "buffers (add_ephemeral i x w) = buffers w" "boards (add_ephemeral i x w) = boards w"
  "core (add_ephemeral i x w) = core w"
  by (simp_all add: add_ephemeral_def on_room_def core_def get_room_def fun_eq_iff
      map_option.compositionality comp_def)

lemma core_stores [simp]: "core (w\<lparr>stores := x\<rparr>) = core w"
  by (rule ext) (simp add: core_def get_room_def)

lemma store_for_frame [simp, net_frame]:
  "heap (store_for i w) = heap w" "live (store_for i w) = live w" "next_ref (store_for i w) = next_ref w"
  "cfg (store_for i w) = cfg w" "acc (store_for i w) = acc w" "disk (store_for i w) = disk w"
  "tickets (store_for i w) = tickets w" "grants (store_for i w) = grants w" "hooks (store_for i w) = hooks w"
  "buffers (store_for i w) = buffers w" "boards (store_for i w) = boards w"
  "core (store_for i w) = core w"
  by (simp_all add: store_for_def)

lemma mget_store_for:
  "mget (stores (store_for i w)) j =
     (if j = i \<and> mget (stores w) i = None
      then Some (new_file_store i (cfg_string (cfg w) KeyUploadsDir @ slash # runes i)) else mget (stores w) j)"
  by (simp add: store_for_def)

lemma usage_store_for [simp]: "room_usage (store_for i w) j = room_usage w j"
  by (auto simp: room_usage_def mget_store_for new_file_store_def split: option.split)

lemma upload_begin_cases:
  assumes "upload_begin e token w = (w', Inr st)" "wf_map (tickets w)"
  obtains t r where "mget (tickets w) token = Some t" "clock e \<le> tk_expires t"
    "mget (live w) (tk_client t) = Some r" "s_room (heap w r) = tk_room t" "get_room w (tk_room t) \<noteq> None"
    "sd_ticket st = t" "sd_session st = r" "sd_file st = new_uuid e"
    "w' = store_for (tk_room t) ((sweep_tickets (clock e) w)\<lparr>tickets := mdel token (tickets (sweep_tickets (clock e) w))\<rparr>)"
  using assms
  by (auto simp: upload_begin_def Let_def get_session_def get_room_def split: option.splits if_splits)

text \<open>An upload is accepted only with a ticket that was handed out, has not expired and whose owner
  is connected and still in the room it was handed out for; and the ticket is then used up: a second
  upload with it is refused.\<close>

theorem upload_ticket_single_use:
  assumes "wf_map (tickets w)" "upload_begin e token w = (w', Inr st)"
  shows "(\<exists>t r. mget (tickets w) token = Some t \<and> sd_ticket st = t \<and> clock e \<le> tk_expires t
       \<and> mget (live w) (tk_client t) = Some r \<and> s_room (heap w r) = tk_room t \<and> get_room w (tk_room t) \<noteq> None)
    \<and> snd (upload_begin e' token w') = Inl FilesBadTicket"
proof -
  obtain t r where t: "mget (tickets w) token = Some t" "clock e \<le> tk_expires t"
    "mget (live w) (tk_client t) = Some r" "s_room (heap w r) = tk_room t" "get_room w (tk_room t) \<noteq> None"
    "sd_ticket st = t"
    and w': "w' = store_for (tk_room t) ((sweep_tickets (clock e) w)\<lparr>tickets := mdel token (tickets (sweep_tickets (clock e) w))\<rparr>)"
    using upload_begin_cases [OF assms(2,1)] by metis
  have wf: "wf_map (tickets w')" unfolding w' using assms(1) by (simp add: sweep_tickets_def)
  have "mget (tickets w') token = None" unfolding w' by simp
  then have "mget (tickets (sweep_tickets (clock e') w')) token = None" using wf by simp
  then have "snd (upload_begin e' token w') = Inl FilesBadTicket"
    by (simp add: upload_begin_def Let_def)
  with t show ?thesis by blast
qed

lemma usage_add:
  "mget (stores w) (fl_room f) \<noteq> None \<Longrightarrow>
   room_usage (upload_add f w) i = room_usage w i + (if i = fl_room f then fl_size f else 0)"
  by (auto simp: upload_add_def room_usage_def store_add_def)

lemma upload_write_facts:
  assumes "upload_write e st io w = (w', res)" "sd_path st \<noteq> []"
  shows "room_usage w' i = room_usage w i" "stores w' = stores w"
    "case res of
       Inl _ \<Rightarrow> \<forall>p. mget (disk w') p \<in> {None, mget (disk w) p}
     | Inr f \<Rightarrow> fl_room f = tk_room (sd_ticket st) \<and> fl_owner f = tk_client (sd_ticket st) \<and> 0 < fl_size f
         \<and> fl_size f = int (up_size io) \<and> fl_size f \<le> tk_max (sd_ticket st)
         \<and> fl_size f \<le> room_quota (cfg w) - room_usage w (fl_room f) \<and> mget (disk w') (fl_path f) = Some (fl_size f)"
proof -
  show st: "stores w' = stores w"
    using assms(1) by (auto simp: upload_write_def Let_def split: prod.splits sum.splits if_splits)
  then show "room_usage w' i = room_usage w i" by (simp add: room_usage_def)
  show "case res of
       Inl _ \<Rightarrow> \<forall>p. mget (disk w') p \<in> {None, mget (disk w) p}
     | Inr f \<Rightarrow> fl_room f = tk_room (sd_ticket st) \<and> fl_owner f = tk_client (sd_ticket st) \<and> 0 < fl_size f
         \<and> fl_size f = int (up_size io) \<and> fl_size f \<le> tk_max (sd_ticket st)
         \<and> fl_size f \<le> room_quota (cfg w) - room_usage w (fl_room f) \<and> mget (disk w') (fl_path f) = Some (fl_size f)"
    using assms
    by (auto simp: upload_write_def write_limited_def Let_def remove_quietly_def runes_def split: prod.splits sum.splits if_splits)
qed

text \<open>C20. The limits of an upload whose three stages - the ticket, the writing, the entry in the room - run without
  another upload between them. What is stored has used a ticket that had not expired, in that ticket's room and
  for its user; it is not empty, is the whole of what was sent, is within the size the ticket allows, is on disk
  with that size, and is within what was left of the room's quota, which its size is added to; no other room's
  usage changes. A refused upload leaves every room's usage as it was and no new or changed file on disk.\<close>

theorem upload_within_limits:
  assumes "upload e token io w = (w', res)" "wf_map (tickets w)"
  shows "case res of
      Inl _ \<Rightarrow> (\<forall>i. room_usage w' i = room_usage w i) \<and> (\<forall>p. mget (disk w') p \<in> {None, mget (disk w) p})
    | Inr (f, r) \<Rightarrow>
        (\<exists>t. mget (tickets w) token = Some t \<and> clock e \<le> tk_expires t \<and> fl_room f = tk_room t
           \<and> fl_owner f = tk_client t \<and> fl_size f \<le> tk_max t)
        \<and> 0 < fl_size f \<and> fl_size f = int (up_size io) \<and> mget (disk w') (fl_path f) = Some (fl_size f)
        \<and> room_usage w' (fl_room f) = room_usage w (fl_room f) + fl_size f
        \<and> room_usage w' (fl_room f) \<le> room_quota (cfg w)
        \<and> (\<forall>i. i = fl_room f \<or> room_usage w' i = room_usage w i)"
proof -
  obtain w1 b where b: "upload_begin e token w = (w1, b)" by fastforce
  have u1: "room_usage w1 i = room_usage w i" "cfg w1 = cfg w" "disk w1 = disk w" for i
    using b by (auto simp: upload_begin_def Let_def room_usage_def mget_store_for new_file_store_def
      split: option.splits if_splits)
  show ?thesis
  proof (cases b)
    case (Inl err)
    with assms(1) b u1 show ?thesis by (auto simp: upload_def)
  next
    case (Inr st)
    obtain t where t: "mget (tickets w) token = Some t" "clock e \<le> tk_expires t" "sd_ticket st = t"
      and s1: "mget (stores w1) (tk_room t) \<noteq> None"
      using upload_begin_cases [OF b [unfolded Inr] assms(2)] by (metis mget_store_for option.distinct(1))
    have p: "sd_path st \<noteq> []"
      using b Inr by (auto simp: upload_begin_def Let_def split: option.splits if_splits)
    obtain w2 c where c: "upload_write e st io w1 = (w2, c)" by fastforce
    note u2 = upload_write_facts [OF c p]
    show ?thesis
    proof (cases c)
      case (Inl err)
      then have "w' = w2" "res = Inl err" using assms(1) b c \<open>b = Inr st\<close> by (simp_all add: upload_def)
      then show ?thesis using u1 u2(1) u2(3) [unfolded Inl] by simp
    next
      case (Inr f)
      have w': "w' = upload_add f w2" "res = Inr (f, sd_session st)"
        using assms(1) b c Inr \<open>b = Inr st\<close> by (simp_all add: upload_def)
      have f: "fl_room f = tk_room t" "fl_owner f = tk_client t" "0 < fl_size f" "fl_size f = int (up_size io)"
        "fl_size f \<le> tk_max t" "fl_size f \<le> room_quota (cfg w) - room_usage w (fl_room f)"
        "mget (disk w2) (fl_path f) = Some (fl_size f)"
        using u2(3) [unfolded Inr sum.case u1(1,2) t(3)] by blast+
      obtain s where "mget (stores w2) (fl_room f) = Some s" using s1 u2(2) f(1) by auto
      then have "room_usage w' i = room_usage w i + (if i = fl_room f then fl_size f else 0)" for i
        using u1 u2(1) by (simp add: w' usage_add)
      moreover have "disk w' = disk w2" by (simp add: w' upload_add_def)
      ultimately show ?thesis using f t(1,2) by (auto simp: w')
    qed
  qed
qed

section \<open>Witnesses and overlapping uploads\<close>

definition small :: "nat \<Rightarrow> upload_io" where
  "small n = \<lparr>up_size = n, up_fails = False, up_mime = ''text/plain'', up_thumb = (0, 0, False)\<rparr>"

definition ticket_of :: "string \<Rightarrow> uuid \<Rightarrow> ticket" where
  "ticket_of i u = \<lparr>tk_id = ''t'', tk_room = i, tk_client = u, tk_name = runes ''a.txt'', tk_max = 2 ^ 20,
     tk_expires = 100\<rparr>"

text \<open>Ann and Bob have each asked for an upload.\<close>

definition two_tickets :: server where
  "two_tickets = demo_server\<lparr>tickets := [(''A'', ticket_of hall ''ann''), (''B'', ticket_of hall ''bob'')]\<rparr>"

lemma two_tickets_fields [simp]:
  "heap two_tickets = heap demo_server" "live two_tickets = live demo_server" "cfg two_tickets = demo_cfg"
  "get_room two_tickets = get_room demo_server" "stores two_tickets = []" "disk two_tickets = []"
  "grants two_tickets = []" "rooms two_tickets = rooms demo_server"
  "tickets two_tickets = [(''A'', ticket_of hall ''ann''), (''B'', ticket_of hall ''bob'')]"
  by (simp_all add: two_tickets_def get_room_def fun_eq_iff)

lemma ticket_of_fields [simp]:
  "tk_room (ticket_of i u) = i" "tk_client (ticket_of i u) = u" "tk_max (ticket_of i u) = 2 ^ 20"
  "tk_expires (ticket_of i u) = 100"
  by (simp_all add: ticket_of_def)

definition ready :: "int \<Rightarrow> string \<Rightarrow> server \<Rightarrow> bool" where
  "ready now token w \<longleftrightarrow> wf_map (tickets w)
     \<and> (\<exists>t r. mget (tickets w) token = Some t \<and> now \<le> tk_expires t \<and> mget (live w) (tk_client t) = Some r
           \<and> s_room (heap w r) = tk_room t \<and> get_room w (tk_room t) \<noteq> None)"

lemma upload_begin_ready:
  assumes "ready (clock e) token w"
  obtains t r st where "mget (tickets w) token = Some t" "sd_ticket st = t"
    "upload_begin e token w =
       (store_for (tk_room t) ((sweep_tickets (clock e) w)\<lparr>tickets := mdel token (tickets (sweep_tickets (clock e) w))\<rparr>),
        Inr st)"
  using assms by (fastforce simp: ready_def upload_begin_def Let_def get_session_def get_room_def)

lemma get_room_store_for: "get_room (store_for i w) j = None \<longleftrightarrow> get_room w j = None"
  by (auto simp: store_for_def add_ephemeral_def get_room_def on_room_def)

lemma ready_store_for [simp]: "ready now token (store_for i w) = ready now token w"
  by (simp add: ready_def get_room_store_for)

lemma ready_other:
  assumes "ready now token w" "token' \<noteq> token" "now' \<le> now" "now' \<le> now"
  shows "ready now token ((sweep_tickets now' w)\<lparr>tickets := mdel token' (tickets (sweep_tickets now' w))\<rparr>)"
  using assms by (auto simp: ready_def sweep_tickets_def get_room_def mget_filter)

lemma upload_write_ok:
  assumes "0 < up_size io" "\<not> up_fails io" "int (up_size io) \<le> tk_max (sd_ticket st)"
    and "int (up_size io) \<le> room_quota (cfg w) - room_usage w (tk_room (sd_ticket st))"
  obtains w' f where "upload_write e st io w = (w', Inr f)" "fl_size f = int (up_size io)"
    "fl_room f = tk_room (sd_ticket st)" "stores w' = stores w" "cfg w' = cfg w" "rooms w' = rooms w"
  using assms by (cases "up_thumb io") (simp add: upload_write_def write_limited_def Let_def)

lemma upload_small:
  assumes "sd_ticket st = ticket_of i u" "0 < n" "n \<le> 2 ^ 20" "int n \<le> room_quota (cfg w) - room_usage w i"
  obtains w' f where "upload_write e st (small n) w = (w', Inr f)" "fl_size f = int n" "fl_room f = i"
    "stores w' = stores w" "cfg w' = cfg w" "rooms w' = rooms w"
proof (rule upload_write_ok [of "small n" st w e])
  show "int (up_size (small n)) \<le> tk_max (sd_ticket st)"
    using assms(1) of_nat_mono [OF assms(3), where ?'a = int] by (simp add: small_def)
qed (use assms that in \<open>simp_all add: small_def\<close>)

lemma stores_add: "mget (stores (upload_add f w)) i = None \<longleftrightarrow> mget (stores w) i = None"
  by (simp add: upload_add_def)

lemma ready_demo: "ready 10 ''A'' two_tickets" "ready 11 ''B'' two_tickets"
  by (simp_all add: ready_def wf_map_def)

lemma clock_quiet [simp]: "clock (quiet_env u now) = now"
  by (simp add: quiet_env_def)

lemma begin_A:
  obtains w1 st where "upload_begin (quiet_env ''f1'' 10) ''A'' two_tickets = (w1, Inr st)"
    "sd_ticket st = ticket_of hall ''ann''" "cfg w1 = demo_cfg" "room_usage w1 hall = 0"
    "mget (stores w1) hall \<noteq> None" "heap w1 = heap demo_server" "live w1 = live demo_server"
    "core w1 = core demo_server"
proof -
  have "ready (clock (quiet_env ''f1'' 10)) ''A'' two_tickets" using ready_demo by simp
  then obtain t st where t: "mget (tickets two_tickets) ''A'' = Some t" "sd_ticket st = t"
    and b: "upload_begin (quiet_env ''f1'' 10) ''A'' two_tickets =
      (store_for (tk_room t) ((sweep_tickets 10 two_tickets)\<lparr>tickets := mdel ''A'' (tickets (sweep_tickets 10 two_tickets))\<rparr>), Inr st)"
    by (rule upload_begin_ready) simp
  have c: "core ((sweep_tickets 10 two_tickets)\<lparr>tickets := x\<rparr>) = core demo_server" for x
    by (rule core_cong) (simp add: sweep_tickets_def get_room_def two_tickets_def fun_eq_iff)
  show ?thesis
    by (rule that [OF b]) (use t in \<open>auto simp: room_usage_def mget_store_for new_file_store_def c\<close>)
qed

theorem upload_ticket_single_use_witness:
  "\<exists>w. snd (upload_begin (quiet_env ''f2'' 11) ''A'' w) = Inl FilesBadTicket"
proof -
  obtain w st where "upload_begin (quiet_env ''f1'' 10) ''A'' two_tickets = (w, Inr st)" by (rule begin_A)
  moreover have "wf_map (tickets two_tickets)" by (simp add: wf_map_def)
  ultimately show ?thesis using upload_ticket_single_use by blast
qed

text \<open>The quota is compared before the file is entered, so two uploads that overlap can each pass the
  comparison and together exceed the room's quota: here a quota of one megabyte is passed by two files
  of 700,000 bytes.\<close>

theorem overlapping_uploads_exceed_quota:
  "\<exists>w1 s1 w2 s2 w3 f1 w4 f2.
     upload_begin (quiet_env ''f1'' 10) ''A'' two_tickets = (w1, Inr s1)
   \<and> upload_begin (quiet_env ''f2'' 11) ''B'' w1 = (w2, Inr s2)
   \<and> upload_write (quiet_env [] 12) s1 (small 700000) w2 = (w3, Inr f1)
   \<and> upload_write (quiet_env [] 13) s2 (small 700000) w3 = (w4, Inr f2)
   \<and> room_quota (cfg w4) < room_usage (upload_add f2 (upload_add f1 w4)) hall"
proof -
  let ?e1 = "quiet_env ''f1'' 10" and ?e2 = "quiet_env ''f2'' 11"
  let ?drop = "\<lambda>now tok w. (sweep_tickets now w)\<lparr>tickets := mdel tok (tickets (sweep_tickets now w))\<rparr>"
  have "ready (clock ?e1) ''A'' two_tickets" using ready_demo by simp
  then obtain t1 s1 where t1: "mget (tickets two_tickets) ''A'' = Some t1" "sd_ticket s1 = t1"
    and b1: "upload_begin ?e1 ''A'' two_tickets = (store_for (tk_room t1) (?drop (clock ?e1) ''A'' two_tickets), Inr s1)"
    by (rule upload_begin_ready)
  define w1 where "w1 = store_for hall (?drop 10 ''A'' two_tickets)"
  have s1: "sd_ticket s1 = ticket_of hall ''ann''" "tk_room t1 = hall" using t1 by auto
  have "ready (clock ?e2) ''B'' w1"
    unfolding w1_def using ready_other [OF ready_demo(2), of "''A''" 10] by simp
  then obtain t2 s2 where t2: "mget (tickets w1) ''B'' = Some t2" "sd_ticket s2 = t2"
    and b2: "upload_begin ?e2 ''B'' w1 = (store_for (tk_room t2) (?drop (clock ?e2) ''B'' w1), Inr s2)"
    by (rule upload_begin_ready)
  have s2: "sd_ticket s2 = ticket_of hall ''bob''" "tk_room t2 = hall"
    using t2 by (auto simp: w1_def sweep_tickets_def)
  define w2 where w2: "w2 = store_for hall (?drop 11 ''B'' w1)"
  have cfg2: "cfg w2 = demo_cfg" "room_usage w2 hall = 0" "mget (stores w2) hall \<noteq> None"
    unfolding w2 w1_def by (simp_all add: room_usage_def mget_store_for new_file_store_def)
  have q: "room_quota demo_cfg = 2 ^ 20" by (simp add: room_quota_def)
  obtain w3 f1 where w3: "upload_write (quiet_env [] 12) s1 (small 700000) w2 = (w3, Inr f1)"
    "fl_size f1 = 700000" "fl_room f1 = hall" "stores w3 = stores w2" "cfg w3 = cfg w2"
    by (rule upload_small [OF s1(1), of 700000 w2 "quiet_env [] 12"]) (simp_all add: cfg2 q)
  have u3: "room_usage w3 hall = 0" using w3(4) cfg2 by (simp add: room_usage_def)
  obtain w4 f2 where w4: "upload_write (quiet_env [] 13) s2 (small 700000) w3 = (w4, Inr f2)"
    "fl_size f2 = 700000" "fl_room f2 = hall" "stores w4 = stores w3" "cfg w4 = cfg w3"
    by (rule upload_small [OF s2(1), of 700000 w3 "quiet_env [] 13"]) (simp_all add: cfg2 w3(5) u3 q)
  have "room_usage (upload_add f2 (upload_add f1 w4)) hall = 1400000"
    using w3 w4 cfg2 by (simp add: usage_add stores_add) (simp add: room_usage_def)
  then have "room_quota (cfg w4) < room_usage (upload_add f2 (upload_add f1 w4)) hall"
    using w3 w4 cfg2 q by simp
  with b1 b2 s1(2) s2(2) w3(1) w4(1) show ?thesis by (auto simp: w1_def w2)
qed

theorem upload_within_limits_witness:
  "\<exists>w' f r. upload (quiet_env ''f1'' 10) ''A'' (small 5) two_tickets = (w', Inr (f, r))
     \<and> fl_room f = hall \<and> room_usage w' hall = 5 \<and> fl_size f \<le> 2 ^ 20 \<and> mget (disk w') (fl_path f) = Some 5"
proof -
  let ?e = "quiet_env ''f1'' 10"
  obtain w1 st where w1: "upload_begin ?e ''A'' two_tickets = (w1, Inr st)" "room_usage w1 hall = 0"
    "cfg w1 = demo_cfg" and s: "sd_ticket st = ticket_of hall ''ann''" by (rule begin_A)
  have q: "int 5 \<le> room_quota (cfg w1) - room_usage w1 hall" by (simp add: room_quota_def w1)
  obtain w2 f where w2: "upload_write ?e st (small 5) w1 = (w2, Inr f)" "fl_size f = int 5" "fl_room f = hall"
    by (rule upload_small [OF s _ _ q, of ?e]) auto
  have u: "upload ?e ''A'' (small 5) two_tickets = (upload_add f w2, Inr (f, sd_session st))"
    by (simp add: upload_def w1 w2)
  have "wf_map (tickets two_tickets)" by (simp add: wf_map_def)
  from upload_within_limits [OF u this] w2
  have l: "room_usage (upload_add f w2) hall = room_usage two_tickets hall + 5" "fl_size f \<le> 2 ^ 20"
    "mget (disk (upload_add f w2)) (fl_path f) = Some 5"
    by auto
  moreover have "room_usage two_tickets hall = 0" by (simp add: room_usage_def)
  ultimately show ?thesis using u w2(3) by auto
qed

section \<open>Uploads and emptying\<close>

lemma stores_clear_eph: "mget (stores (clear_eph j x w)) i = None \<longleftrightarrow> mget (stores w) i = None"
  by (auto simp: clear_eph_def split: eph.split option.split)

lemma stores_fold_clear: "mget (stores (fold (clear_eph j) es w)) i = None \<longleftrightarrow> mget (stores w) i = None"
  by (induction es arbitrary: w) (simp_all add: stores_clear_eph)

lemma stores_on_room [simp]: "stores (on_room i f w) = stores w"
  by (simp add: on_room_def)

lemma stores_purge: "mget (stores (purge j w)) i = None \<longleftrightarrow> mget (stores w) i = None"
  by (simp add: purge_def Let_def clear_content_def stores_fold_clear split: option.split)

lemma stores_leave_room: "mget (stores (leave_room now r j reason w)) i = None \<longleftrightarrow> mget (stores w) i = None"
  by (simp add: leave_room_def Let_def schedule_purge_def stores_purge split: option.split)

lemma usage_clear_eph: "room_usage w i = 0 \<Longrightarrow> room_usage (clear_eph j x w) i = 0"
  by (auto simp: clear_eph_def room_usage_def store_clear_def store_reset_def split: eph.split option.split)

lemma usage_fold_clear: "room_usage w i = 0 \<Longrightarrow> room_usage (fold (clear_eph j) es w) i = 0"
  by (induction es arbitrary: w) (simp_all add: usage_clear_eph)

lemma usage_cong: "stores w' = stores w \<Longrightarrow> room_usage w' = room_usage w"
  by (simp add: room_usage_def fun_eq_iff)

lemma usage_leave_room: "room_usage w i = 0 \<Longrightarrow> room_usage (leave_room now r j reason w) i = 0"
proof -
  assume 0: "room_usage w i = 0"
  have p: "room_usage (purge j x) i = 0" if "room_usage x i = 0" for x
    using that by (simp add: purge_def Let_def clear_content_def usage_fold_clear usage_cong [of "broadcast _ _ _ _"]
        usage_cong [of "on_room _ _ _"] split: option.split)
  have s: "room_usage (schedule_purge now j x) i = 0" if "room_usage x i = 0" for x
    using that by (simp add: schedule_purge_def Let_def p usage_cong [of "on_room _ _ _"])
  have st: "stores (x\<lparr>hooks := h\<rparr>) = stores x" for x :: server and h by simp
  show ?thesis
    using 0 by (simp add: leave_room_def Let_def split: option.split)
      (simp add: room_usage_def s [unfolded room_usage_def])
qed

text \<open>The room is looked up before the bytes are read and not again afterwards: an upload that is
  still running when the last member leaves is entered into the room after it was emptied, and an
  empty room holds a file.\<close>

theorem upload_outlives_emptying:
  "\<exists>w1 st w2 w3 f. upload_begin (quiet_env ''f1'' 10) ''A'' two_tickets = (w1, Inr st)
     \<and> w2 = fst (leave 12 1 (fst (leave 11 0 w1)))
     \<and> upload_write (quiet_env [] 13) st (small 5) w2 = (w3, Inr f)
     \<and> core (upload_add f w3) hall = Some (demo_hall, [])
     \<and> store_get (the (mget (stores (upload_add f w3)) hall)) (fl_id f) = Some f"
proof -
  let ?e = "quiet_env ''f1'' 10" and ?left = ReasonLeftVoluntarily
  obtain w1 st where w1: "upload_begin ?e ''A'' two_tickets = (w1, Inr st)" "sd_ticket st = ticket_of hall ''ann''"
    "cfg w1 = demo_cfg" "mget (stores w1) hall \<noteq> None" "heap w1 = heap demo_server" "core w1 = core demo_server"
    "room_usage w1 hall = 0"
    by (rule begin_A)
  define w2 where "w2 = leave_room 12 1 hall ?left (leave_room 11 0 hall ?left w1)"
  have l: "fst (leave 12 1 (fst (leave 11 0 w1))) = w2"
    by (simp add: leave_def w2_def w1 s_room_leave_room Let_def)
  have c2: "core w2 hall = Some (demo_hall, [])"
    by (simp add: w2_def core_leave_room w1) (simp add: core_def new_room_def)
  have s2: "mget (stores w2) hall \<noteq> None" "cfg w2 = demo_cfg"
    by (simp_all add: w2_def stores_leave_room w1)
  have u2: "room_usage w2 hall = 0"
    unfolding w2_def by (intro usage_leave_room w1)
  have q: "int 5 \<le> room_quota (cfg w2) - room_usage w2 hall" by (simp add: room_quota_def s2 u2)
  obtain w3 f where w3: "upload_write (quiet_env [] 13) st (small 5) w2 = (w3, Inr f)"
    "fl_room f = hall" "stores w3 = stores w2" "rooms w3 = rooms w2"
    by (rule upload_small [OF w1(2) _ _ q]) auto
  have "core (upload_add f w3) = core w3" by (simp add: upload_add_def)
  moreover have "core w3 = core w2" using w3(4) by (intro core_cong) (simp add: get_room_def fun_eq_iff)
  ultimately have "core (upload_add f w3) hall = Some (demo_hall, [])" using c2 by simp
  moreover have "store_get (the (mget (stores (upload_add f w3)) hall)) (fl_id f) = Some f"
    using s2(1) w3(2,3) by (auto simp: upload_add_def store_get_def store_add_def)
  ultimately show ?thesis using w1(1) l w3(1) by blast
qed

section \<open>Downloads\<close>

text \<open>A download link opens exactly the file it was issued for, for as long as it lasts and the file is
  in the room it was asked from; it opens no other file, and nothing once it has expired.\<close>

theorem download_link_opens_its_file:
  assumes "issue_download e token r fid w = (w', Inr (g, th))" and "wf_map (grants w)"
  shows "(\<exists>s f. mget (stores w) (s_room (heap w r)) = Some s \<and> store_get s fid = Some f
       \<and> (now \<le> gr_expires g \<and> mget (disk w) (fl_path f) \<noteq> None \<longrightarrow>
            snd (open_file now fid token False w') = Inr (f, fl_path f)))
    \<and> gr_expires g = clock e + cfg_int (cfg w) KeyUploadsTokenTTLSec * 1000000000
    \<and> (fid' \<noteq> fid \<or> now > gr_expires g \<longrightarrow> snd (open_file now fid' token th' w') = Inl FilesBadToken)"
proof -
  let ?i = "s_room (heap w r)"
  from assms(1) obtain s f where s: "mget (stores w) ?i = Some s" "store_get s fid = Some f"
    and g: "g = \<lparr>gr_file = fid, gr_room = ?i, gr_expires = clock e + cfg_int (cfg w) KeyUploadsTokenTTLSec * 1000000000\<rparr>"
    and w': "w' = (sweep_tickets (clock e) w)\<lparr>grants := mput token g (grants (sweep_tickets (clock e) w))\<rparr>"
    by (auto simp: issue_download_def Let_def store_for_def new_file_store_def store_get_def bind_eq_Some_conv
        split: option.splits if_splits)
  have wf: "wf_map (grants w')" using assms(2) by (simp add: w' sweep_tickets_def)
  have get: "mget (grants w') token = Some g" by (simp add: w')
  have st: "stores w' = stores w" "disk w' = disk w" by (simp_all add: w')
  have i: "gr_room g = ?i" "gr_file g = fid" by (simp_all add: g)
  have "snd (open_file now fid token False w') = Inr (f, fl_path f)"
    if "now \<le> gr_expires g" "mget (disk w) (fl_path f) \<noteq> None"
    using that wf get st s i by (simp add: open_file_def Let_def mget_store_for)
  moreover have "snd (open_file now fid' token th' w') = Inl FilesBadToken" if "fid' \<noteq> fid \<or> now > gr_expires g"
    using that wf get i by (auto simp: open_file_def Let_def split: option.split)
  moreover have "gr_expires g = clock e + cfg_int (cfg w) KeyUploadsTokenTTLSec * 1000000000" by (simp add: g)
  ultimately show ?thesis using s by blast
qed

theorem download_link_opens_its_file_witness:
  "\<exists>w f. snd (open_file 20 ''f'' ''k'' False w) = Inr (f, fl_path f) \<and> fl_id f = ''f''
     \<and> snd (open_file 300000000011 ''f'' ''k'' False w) = Inl FilesBadToken"
proof -
  define f where "f = \<lparr>fl_id = ''f'', fl_room = hall, fl_name = runes ''a'', fl_size = 1, fl_mime = [],
    fl_kind = AttachmentFile, fl_width = 0, fl_height = 0, fl_has_thumb = False, fl_owner = ''ann'',
    fl_created_at = 0, fl_path = runes ''p'', fl_thumb_path = []\<rparr>"
  define w where "w = demo_server\<lparr>stores := [(hall, store_add f (new_file_store hall []))], disk := [(runes ''p'', 1)]\<rparr>"
  have f: "fl_id f = ''f''" "fl_path f = runes ''p''" by (simp_all add: f_def)
  have w: "wf_map (grants w)" "s_room (heap w 0) = hall" "mget (disk w) (runes ''p'') \<noteq> None"
    "mget (stores w) hall = Some (store_add f (new_file_store hall []))" "cfg w = demo_cfg"
    by (simp_all add: w_def)
  have sf: "store_get (store_add f (new_file_store hall [])) ''f'' = Some f"
    by (simp add: store_get_def store_add_def new_file_store_def f_def)
  obtain w' g th where i: "issue_download (quiet_env [] 10) ''k'' 0 ''f'' w = (w', Inr (g, th))"
    using w sf by (fastforce simp: issue_download_def Let_def mget_store_for)
  have x: "gr_expires g = 300000000010"
    using download_link_opens_its_file [OF i w(1)] w by simp
  then have "snd (open_file 20 ''f'' ''k'' False w') = Inr (f, fl_path f)"
    using download_link_opens_its_file [OF i w(1), of 20] w sf f by auto
  moreover have "snd (open_file 300000000011 ''f'' ''k'' False w') = Inl FilesBadToken"
    using download_link_opens_its_file [OF i w(1), of 300000000011 "''f''" False] x by simp
  ultimately show ?thesis using f(1) by blast
qed

end
