(* ===== verification/Gateway_Calm.thy ===== *)
theory Gateway_Calm
  imports Gateway Files_Correct
begin

text \<open>
  Most of what a request does changes neither who is connected nor who is in which room: frames are
  queued, sessions are closed or relabelled, messages, strokes, files and sanctions come and go.
  \<open>calm w w'\<close> says that a step is of this kind, and \<open>calm_intros\<close> collects that each operation is, so
  that the invariants of the registry and of the rooms are carried over a handler in one step.
\<close>

named_theorems calm_intros "operations that keep the registry and the memberships"

definition calm :: "server \<Rightarrow> server \<Rightarrow> bool" where
  "calm w w' \<longleftrightarrow> live w' = live w \<and> next_ref w' = next_ref w \<and> core w' = core w
     \<and> (wf_map (rooms w) \<longrightarrow> wf_map (rooms w'))
     \<and> (\<forall>x. s_uuid (heap w' x) = s_uuid (heap w x) \<and> s_room (heap w' x) = s_room (heap w x)
          \<and> s_username (heap w' x) = s_username (heap w x) \<and> (queue_ok (heap w x) \<longrightarrow> queue_ok (heap w' x)))"

lemma calm_refl [intro!, simp]: "calm w w"
  by (simp add: calm_def)

lemma calm_trans [trans]: "calm w w1 \<Longrightarrow> calm w1 w2 \<Longrightarrow> calm w w2"
  by (simp add: calm_def)

lemma rooms_inv_calm: "rooms_inv w \<Longrightarrow> calm w w' \<Longrightarrow> rooms_inv w'"
proof -
  assume inv: "rooms_inv w" and c: "calm w w'"
  note d = rooms_invD [OF inv]
  have "wf_net w'" using d(1) c by (simp add: wf_net_def calm_def)
  then show "rooms_inv w'"
    using c d(2) by (intro rooms_inv_cong [OF inv]) (auto simp: calm_def rooms_wf_def)
qed

section \<open>Operations\<close>

lemma core_fields [simp]:
  "core (w\<lparr>heap := h\<rparr>) = core w" "core (w\<lparr>acc := a\<rparr>) = core w" "core (w\<lparr>buffers := b\<rparr>) = core w"
  "core (w\<lparr>boards := d\<rparr>) = core w" "core (w\<lparr>disk := k\<rparr>) = core w" "core (w\<lparr>tickets := t\<rparr>) = core w"
  "core (w\<lparr>grants := g\<rparr>) = core w" "core (w\<lparr>send_rate := sr\<rparr>) = core w"
  "core (w\<lparr>type_rate := tr\<rparr>) = core w" "core (w\<lparr>draw_rate := dr\<rparr>) = core w"
  "core (w\<lparr>live := l\<rparr>) = core w" "core (w\<lparr>next_ref := n\<rparr>) = core w"
  by (simp_all add: core_def get_room_def fun_eq_iff)

lemma calm_same:
  assumes "heap w' = heap w" "live w' = live w" "next_ref w' = next_ref w" "core w' = core w"
    "wf_map (rooms w) \<Longrightarrow> wf_map (rooms w')"
  shows "calm w w'"
  using assms by (simp add: calm_def)

lemma calm_at_session:
  assumes "calm w w1" "\<And>s. s_uuid (f s) = s_uuid s" "\<And>s. s_room (f s) = s_room s"
    "\<And>s. s_username (f s) = s_username s" "\<And>s. queue_ok s \<Longrightarrow> queue_ok (f s)"
  shows "calm w (at_session r f w1)"
  using assms by (simp add: calm_def heap_at_session)

lemma calm_send [calm_intros]: "calm w w1 \<Longrightarrow> calm w (send r f w1)"
  unfolding send_def by (rule calm_at_session) simp_all

lemma calm_send_message [calm_intros]: "calm w w1 \<Longrightarrow> calm w (send_message r ty i p w1)"
  by (simp add: send_message_def calm_send)

lemma calm_send_error [calm_intros]: "calm w w1 \<Longrightarrow> calm w (send_error r i code w1)"
  by (simp add: send_error_def calm_send_message)

lemma calm_close [calm_intros]: "calm w w1 \<Longrightarrow> calm w (close_session r reason w1)"
  unfolding close_session_def by (rule calm_at_session) simp_all

lemma calm_set [calm_intros]:
  assumes "calm w w1"
  shows "calm w (set_muted r b w1)" "calm w (set_roles r ids w1)" "calm w (set_media r m w1)"
    "calm w (set_avatar r t w1)"
  using assms unfolding set_muted_def set_roles_def set_media_def set_avatar_def
  by (auto intro!: calm_at_session simp: queue_ok_def)

lemma queue_ok_on_heap: "queue_ok (h x) \<Longrightarrow> queue_ok (on_heap a (push f) h x)"
  by (auto simp: on_heap_apply)

lemma queue_ok_pushed: "queue_ok (h x) \<Longrightarrow> queue_ok (push_all skip f rs h x)"
proof -
  have "queue_ok (h x) \<Longrightarrow> queue_ok (fold (\<lambda>r h. if skip r then h else on_heap r (push f) h) rs h x)"
    by (induction rs arbitrary: h) (simp_all add: queue_ok_on_heap)
  then show "queue_ok (h x) \<Longrightarrow> queue_ok (push_all skip f rs h x)" by (simp add: push_all_def)
qed

lemma calm_heap_push:
  assumes "calm w w1" shows "calm w (w1\<lparr>heap := push_all skip f rs (heap w1)\<rparr>)"
  using assms unfolding calm_def by (simp add: queue_ok_pushed)

lemma calm_broadcast [calm_intros]: "calm w w1 \<Longrightarrow> calm w (broadcast ty p ex w1)"
  unfolding broadcast_def by (rule calm_heap_push)

lemma calm_broadcast_except [calm_intros]: "calm w w1 \<Longrightarrow> calm w (broadcast_except ty p ex w1)"
  unfolding broadcast_except_def by (rule calm_heap_push)

lemma calm_room_broadcast [calm_intros]: "calm w w1 \<Longrightarrow> calm w (room_broadcast i ty p ex w1)"
  unfolding room_broadcast_def by (auto intro: calm_heap_push split: option.split)

lemma calm_fields [calm_intros]:
  assumes "calm w w1"
  shows "calm w (w1\<lparr>acc := a\<rparr>)" "calm w (w1\<lparr>hooks := h\<rparr>)" "calm w (w1\<lparr>buffers := b\<rparr>)"
    "calm w (w1\<lparr>boards := d\<rparr>)" "calm w (w1\<lparr>stores := x\<rparr>)" "calm w (w1\<lparr>disk := k\<rparr>)"
    "calm w (w1\<lparr>tickets := t\<rparr>)" "calm w (w1\<lparr>grants := g\<rparr>)" "calm w (w1\<lparr>send_rate := sr\<rparr>)"
    "calm w (w1\<lparr>type_rate := tr\<rparr>)" "calm w (w1\<lparr>draw_rate := dr\<rparr>)"
  using assms by (simp_all add: calm_def)

lemma calm_set_acc [calm_intros]: "calm w w1 \<Longrightarrow> calm w (set_acc a w1)"
  by (simp add: set_acc_def calm_intros)

lemma calm_set_users [calm_intros]: "calm w w1 \<Longrightarrow> calm w (set_users f w1)"
  by (simp add: set_users_def set_db_def calm_intros split: sum.split)

lemma calm_log [calm_intros]: "calm w w1 \<Longrightarrow> calm w (log_action e r a t n d w1)"
  by (simp add: log_action_def calm_set_acc)

lemma calm_sync [calm_intros]: "calm w w1 \<Longrightarrow> calm w (sync_media u w1)"
  by (simp add: sync_media_def calm_intros split: option.split)

lemma calm_drop [calm_intros]: "calm w w1 \<Longrightarrow> calm w (drop_from_media v w1)"
  by (simp add: drop_from_media_def calm_intros)

lemma calm_tell [calm_intros]: "calm w w1 \<Longrightarrow> calm w (tell ty ev r v w1)"
  by (simp add: tell_def calm_intros)

lemma calm_add_ephemeral [calm_intros]: "calm w w1 \<Longrightarrow> calm w (add_ephemeral i x w1)"
  by (simp add: calm_def) (simp add: add_ephemeral_def on_room_def)

lemma calm_buffer_for [calm_intros]: "calm w w1 \<Longrightarrow> calm w (buffer_for i w1)"
  by (simp add: buffer_for_def calm_intros)

lemma calm_board_for [calm_intros]: "calm w w1 \<Longrightarrow> calm w (board_for i w1)"
  by (simp add: board_for_def calm_intros)

lemma calm_store_for [calm_intros]: "calm w w1 \<Longrightarrow> calm w (store_for i w1)"
  by (simp add: store_for_def calm_intros)

lemma calm_sweep [calm_intros]: "calm w w1 \<Longrightarrow> calm w (sweep_tickets now w1)"
  by (simp add: sweep_tickets_def calm_intros)

lemma calm_on_buffer: "calm w w1 \<Longrightarrow> on_buffer i f w1 = (w2, x) \<Longrightarrow> calm w w2"
  by (auto simp: on_buffer_def Let_def calm_intros split: prod.splits)

lemma calm_on_board: "calm w w1 \<Longrightarrow> on_board i g w1 = (w2, x) \<Longrightarrow> calm w w2"
  by (auto simp: on_board_def Let_def calm_intros split: prod.splits)

lemma calm_allow:
  "calm w w1 \<Longrightarrow> allow_send now u w1 = (w2, b) \<Longrightarrow> calm w w2"
  "calm w w1 \<Longrightarrow> allow_typing now u w1 = (w2, b) \<Longrightarrow> calm w w2"
  "calm w w1 \<Longrightarrow> allow_draw now u w1 = (w2, b) \<Longrightarrow> calm w w2"
  by (auto simp: allow_send_def allow_typing_def allow_draw_def calm_intros split: prod.splits)

lemma calm_apply_roles [calm_intros]: "calm w w1 \<Longrightarrow> calm w (apply_roles c r w1)"
  by (simp add: apply_roles_def calm_intros Let_def)

lemma calm_refresh [calm_intros]: "calm w w1 \<Longrightarrow> calm w (refresh_roles c w1)"
proof -
  have "calm w w1 \<Longrightarrow> calm w (fold (apply_roles c) rs w1)" for rs
    by (induction rs arbitrary: w1) (simp_all add: calm_apply_roles)
  then show "calm w w1 \<Longrightarrow> calm w (refresh_roles c w1)" by (simp add: refresh_roles_def)
qed

lemma calm_announce_roles [calm_intros]: "calm w w1 \<Longrightarrow> calm w (announce_roles c u w1)"
  by (simp add: announce_roles_def Let_def calm_intros split: option.split)

lemma calm_announce_unmute [calm_intros]: "calm w w1 \<Longrightarrow> calm w (announce_unmute r u w1)"
  by (simp add: announce_unmute_def Let_def calm_intros split: option.split)

lemma calm_require: "calm w (k w) \<Longrightarrow> calm w (require r i p k w)"
  by (simp add: require_def calm_intros)

lemma calm_decoded: "(\<And>x. p = Some x \<Longrightarrow> calm w (k x w)) \<Longrightarrow> calm w (decoded r i p k w)"
  by (simp add: decoded_def calm_intros split: option.split)

lemma calm_target: "(\<And>q v. calm w (k q v w)) \<Longrightarrow> calm w (with_target r i p k w)"
  unfolding with_target_def by (rule calm_decoded) (simp add: calm_intros split: option.split)

section \<open>Handlers\<close>

lemma calm_chat_send: "chat_send_msg e r q w = (w', res) \<Longrightarrow> calm w w'"
  unfolding chat_send_msg_def Let_def
  by (auto split: option.splits if_splits sum.splits prod.splits bool.splits
      intro!: calm_room_broadcast intro: calm_refl calm_on_buffer calm_allow)

lemma calm_post_attachment: "post_attachment e r a w = (w', res) \<Longrightarrow> calm w w'"
  unfolding post_attachment_def Let_def
  by (auto split: option.splits if_splits prod.splits intro!: calm_room_broadcast intro: calm_refl calm_on_buffer)

lemma calm_chat_history: "chat_history r q w = (w', res) \<Longrightarrow> calm w w'"
  unfolding chat_history_def Let_def
  by (auto split: option.splits if_splits prod.splits intro: calm_refl calm_on_buffer)

lemma calm_chat_edit: "chat_edit_msg e r q w = (w', res) \<Longrightarrow> calm w w'"
  unfolding chat_edit_msg_def Let_def
  by (auto split: option.splits if_splits sum.splits prod.splits intro!: calm_room_broadcast
      intro: calm_refl calm_on_buffer)

lemma calm_chat_delete: "chat_delete_msg r q w = (w', res) \<Longrightarrow> calm w w'"
  unfolding chat_delete_msg_def Let_def
  by (auto split: option.splits if_splits sum.splits prod.splits intro!: calm_room_broadcast
      intro: calm_refl calm_on_buffer)

lemma calm_chat_typing: "chat_typing e r q w = (w', res) \<Longrightarrow> calm w w'"
  unfolding chat_typing_def Let_def
  by (auto split: option.splits if_splits prod.splits bool.splits intro!: calm_room_broadcast
      intro: calm_refl calm_allow)

lemma calm_paint_begin: "paint_begin_stroke e r q w = (w', res) \<Longrightarrow> calm w w'"
  unfolding paint_begin_stroke_def Let_def
  by (auto split: option.splits if_splits sum.splits prod.splits bool.splits
      intro!: calm_room_broadcast intro: calm_refl calm_on_board calm_allow)

lemma calm_paint_append: "paint_append e r sid ps w = (w', res) \<Longrightarrow> calm w w'"
  unfolding paint_append_def Let_def
  by (auto split: option.splits if_splits sum.splits prod.splits bool.splits
      intro!: calm_room_broadcast intro: calm_refl calm_on_board calm_allow)

lemma calm_paint_end: "paint_end e r sid w = (w', res) \<Longrightarrow> calm w w'"
  unfolding paint_end_def Let_def
  by (auto split: option.splits if_splits sum.splits prod.splits
      intro!: calm_room_broadcast intro: calm_refl calm_on_board)

lemma calm_paint_undo: "paint_undo e r w = (w', res) \<Longrightarrow> calm w w'"
  unfolding paint_undo_def Let_def
  by (auto split: option.splits if_splits sum.splits prod.splits
      intro!: calm_room_broadcast intro: calm_refl calm_on_board)

lemma calm_paint_clear: "paint_clear e r sc w = (w', res) \<Longrightarrow> calm w w'"
  unfolding paint_clear_def Let_def
  by (auto split: option.splits if_splits sum.splits prod.splits
      intro!: calm_room_broadcast intro: calm_refl calm_on_board calm_board_for)

lemma calm_paint_state: "paint_state r w = (w', res) \<Longrightarrow> calm w w'"
  unfolding paint_state_def Let_def
  by (auto split: option.splits if_splits sum.splits prod.splits intro: calm_refl calm_on_board)

lemma calm_request_upload: "request_upload e tok r name sz w = (w', res) \<Longrightarrow> calm w w'"
  unfolding request_upload_def Let_def
  by (auto split: option.splits if_splits sum.splits intro!: calm_intros)

lemma calm_issue_download: "issue_download e tok r fid w = (w', res) \<Longrightarrow> calm w w'"
  unfolding issue_download_def Let_def
  by (auto split: option.splits if_splits intro!: calm_intros)

lemmas calm_results = calm_chat_send calm_chat_history calm_chat_edit calm_chat_delete calm_chat_typing
  calm_paint_begin calm_paint_append calm_paint_end calm_paint_undo calm_paint_clear calm_paint_state
  calm_request_upload calm_issue_download

lemma calm_chat_handlers:
  "calm w (handle_chat_send c r i p1 w)" "calm w (handle_chat_history c r i p2 w)"
  "calm w (handle_chat_edit c r i p3 w)" "calm w (handle_chat_delete c r i p4 w)"
  "calm w (handle_chat_typing c r i p5 w)"
  unfolding handle_chat_send_def handle_chat_history_def handle_chat_edit_def handle_chat_delete_def
    handle_chat_typing_def
  by (rule calm_decoded, auto split: prod.splits sum.splits option.splits
      intro!: calm_send_error calm_send_message dest: calm_results)+

lemma calm_paint_handlers:
  "calm w (handle_paint_begin c r i p1 w)" "calm w (handle_paint_append c r i p2 w)"
  "calm w (handle_paint_end c r i p3 w)" "calm w (handle_paint_clear c r i p4 w)"
  unfolding handle_paint_begin_def handle_paint_append_def handle_paint_end_def handle_paint_clear_def
  by (rule calm_decoded, auto split: prod.splits sum.splits option.splits
      intro!: calm_send_error calm_send_message dest: calm_results)+

lemma calm_paint_handlers_plain:
  "calm w (handle_paint_undo c r i w)" "calm w (handle_paint_state c r i w)"
  unfolding handle_paint_undo_def handle_paint_state_def
  by (auto split: prod.splits sum.splits intro!: calm_send_error calm_send_message dest: calm_results)

lemma calm_file_handlers:
  "calm w (handle_upload_request c r i p1 w)" "calm w (handle_download_token c r i p2 w)"
  unfolding handle_upload_request_def handle_download_token_def
  by (rule calm_decoded, auto split: prod.splits sum.splits
      intro!: calm_send_error calm_send_message dest: calm_results)+

lemma calm_media_handlers:
  "calm w (handle_media_token c r i w)" "calm w (handle_media_state c r i p w)"
  unfolding handle_media_token_def handle_media_state_def
  by (auto split: sum.splits intro!: calm_decoded calm_intros simp: Let_def)

lemma calm_kick: "calm w (handle_kick c r i p w)"
  unfolding handle_kick_def by (rule calm_require, rule calm_target) (simp add: Let_def calm_intros)

lemma calm_ban: "calm w (handle_ban c r i p w)"
  unfolding handle_ban_def
  by (rule calm_require, rule calm_target) (simp add: Let_def calm_intros split: prod.split sum.split)

lemma calm_mute: "calm w (handle_mute c r i p w)"
  unfolding handle_mute_def
  by (rule calm_require, rule calm_target) (simp add: Let_def calm_intros split: prod.split sum.split)

lemma calm_lift: "calm w (lift_sanction c k m r i p w)"
  unfolding lift_sanction_def
  by (rule calm_require, rule calm_decoded) (simp add: Let_def calm_intros split: prod.split sum.split)

lemma calm_sanctions: "calm w (handle_sanctions c r i w)"
  by (simp add: handle_sanctions_def Let_def calm_intros)

lemma calm_publish [calm_intros]: "calm w w1 \<Longrightarrow> calm w (publish_role r i x w1)"
  by (simp add: publish_role_def calm_intros)

lemma calm_role_handlers:
  "calm w (handle_role_create c r i p w)" "calm w (handle_role_update c r i p w)"
  "calm w (handle_role_delete c r i q w)" "calm w (change_assignment c g r i a w)"
  unfolding handle_role_create_def handle_role_update_def handle_role_delete_def change_assignment_def
  by (rule calm_require, rule calm_decoded,
      simp add: Let_def calm_intros split: prod.split sum.split option.split)+

end
