(* ===== verification/Gateway_Correct.thy ===== *)
theory Gateway_Correct
  imports Gateway_Calm
begin

text \<open>
  The running server as a state machine: \<open>gate_step lower\<close> is one thing that happens (a frame is read, a
  client arrives or leaves, a purge timer fires, an upload or a download proceeds, the panel reloads),
  \<open>gate_reachable\<close> what a server can get to from its start. The invariants of the memberships and of the
  names are carried over every step; then what the handlers guarantee one by one.
\<close>

section \<open>Who is connected, under which name\<close>

named_theorems people_intros "operations that keep the registry and the names"

definition people :: "server \<Rightarrow> server \<Rightarrow> bool" where
  "people w w' \<longleftrightarrow> live w' = live w
     \<and> (\<forall>x. s_uuid (heap w' x) = s_uuid (heap w x) \<and> s_username (heap w' x) = s_username (heap w x))"

lemma people_refl [intro!, simp]: "people w w"
  by (simp add: people_def)

lemma people_trans [trans]: "people w w1 \<Longrightarrow> people w1 w2 \<Longrightarrow> people w w2"
  by (simp add: people_def)

lemma people_calm: "calm w w' \<Longrightarrow> people w w'"
  by (simp add: people_def calm_def)

lemma people_set_room [people_intros]: "people w w1 \<Longrightarrow> people w (set_room r i w1)"
  by (simp add: people_def set_room_def heap_at_session)

lemma people_on_room [people_intros]: "people w w1 \<Longrightarrow> people w (on_room i f w1)"
  by (simp add: people_def)

lemma people_fields [people_intros]:
  "people w w1 \<Longrightarrow> people w (w1\<lparr>rooms := x\<rparr>)" "people w w1 \<Longrightarrow> people w (w1\<lparr>hooks := h\<rparr>)"
  "people w w1 \<Longrightarrow> people w (w1\<lparr>stores := st\<rparr>)" "people w w1 \<Longrightarrow> people w (w1\<lparr>disk := d\<rparr>)"
  "people w w1 \<Longrightarrow> people w (w1\<lparr>buffers := b\<rparr>)" "people w w1 \<Longrightarrow> people w (w1\<lparr>boards := bd\<rparr>)"
  "people w w1 \<Longrightarrow> people w (w1\<lparr>acc := a\<rparr>)"
  by (simp_all add: people_def)

lemma people_of_calm [people_intros]:
  "people w w1 \<Longrightarrow> people w (broadcast ty p ex w1)" "people w w1 \<Longrightarrow> people w (set_media r m w1)"
  "people w w1 \<Longrightarrow> people w (send_message r ty i p w1)"
  by (blast intro: people_trans people_calm calm_intros calm_refl)+

lemma people_set_db [people_intros]: "people w w1 \<Longrightarrow> people w (set_db d w1)"
  by (simp add: set_db_def people_intros)

lemma people_clear [people_intros]: "people w w1 \<Longrightarrow> people w (clear_content i r w1)"
  by (simp add: people_def)

lemma people_purge [people_intros]: "people w w1 \<Longrightarrow> people w (purge i w1)"
  by (simp add: purge_def Let_def people_intros split: option.split)

lemma people_schedule [people_intros]: "people w w1 \<Longrightarrow> people w (schedule_purge now i w1)"
  by (simp add: schedule_purge_def Let_def people_intros)

lemma people_leave_room [people_intros]: "people w w1 \<Longrightarrow> people w (leave_room now r i reason w1)"
  by (simp add: leave_room_def Let_def people_intros split: option.split)

lemma people_enter: "people w (fst (enter_room now r i ign reason w))"
  by (simp add: enter_room_def Let_def people_intros split: option.split)

lemma people_join: "people w (fst (join_room now r i pw w))"
  by (simp add: join_room_def Let_def people_enter split: option.split)

lemma people_force: "people w (fst (force_room now r i w))"
  by (simp add: force_room_def people_enter split: option.split)

lemma people_leave: "people w (fst (leave now r w))"
  by (simp add: leave_def Let_def people_intros)

lemma people_create: "people w (fst (create_room e lower actor q w))"
proof (cases rule: create_room_cases [of e lower actor q w])
  case (created d db' p)
  have "people w (broadcast ty p ex (set_db db' w\<lparr>rooms := x\<rparr>))" for ty ex x
    by (intro people_intros people_refl)
  with created show ?thesis by simp
qed simp

lemma people_update: "people w (fst (update_room e lower actor q w))"
proof -
  have "people w (broadcast ty p ex (on_room i f (set_db d' w)))" for ty p ex i f d'
    by (intro people_intros people_refl)
  then show ?thesis
    by (auto simp: update_room_def Let_def split: option.split sum.split store_error.split)
qed

lemma people_fold: "(\<And>x w1. people w w1 \<Longrightarrow> people w (f x w1)) \<Longrightarrow> people w w1 \<Longrightarrow> people w (fold f xs w1)"
  by (induction xs arbitrary: w1) simp_all

lemma people_eject [people_intros]: "people w w1 \<Longrightarrow> people w (eject i b m w1)"
  by (simp add: eject_def Let_def people_intros)

lemma people_on_delete [people_intros]: "people w w1 \<Longrightarrow> people w (on_delete i w1)"
  by (simp add: on_delete_def Let_def people_intros split: option.split)

lemma people_delete: "people w (fst (delete_room e actor i w))"
proof -
  have "people w (broadcast ty p ex (clear_content i room (fold (eject i False) ms (on_delete i (set_db d w\<lparr>rooms := x\<rparr>)))))"
    for ty p ex room ms d x
    by (intro people_intros people_fold people_refl)
  then show ?thesis
    unfolding delete_room_def Let_def by (auto split: option.split sum.split store_error.split)
qed

lemma people_reload: "people w (fst (reload_rooms e lower w))"
proof -
  have a: "people w w1 \<Longrightarrow> people w (announce_room lower ty i w1)" for w1 ty i
    by (auto simp: announce_room_def intro: people_of_calm(1) split: option.split)
  have d: "people w w1 \<Longrightarrow> people w (drop_removed ir w1)" for w1 ir
    unfolding drop_removed_def evict_def by (intro people_intros people_fold)
  have "people w (fold drop_removed xs (fold (announce_room lower t1) ks (fold (announce_room lower t2) js (w\<lparr>rooms := r\<rparr>))))"
    for xs t1 ks t2 js r
    by (intro people_fold a d people_intros people_refl)
  then show ?thesis
    unfolding reload_rooms_def Let_def by (auto split: sum.split prod.split)
qed

section \<open>Requests\<close>

definition fresh :: "env \<Rightarrow> server \<Rightarrow> bool" where
  "fresh e w \<longleftrightarrow> new_uuid e \<noteq> [] \<and> get_room w (new_uuid e) = None"

lemma rooms_inv_then: "rooms_inv w1 \<Longrightarrow> calm w1 w2 \<Longrightarrow> rooms_inv w2"
  by (rule rooms_inv_calm)

lemma calm_reply_view: "calm w (reply_view c r ty i full mk j w)"
  by (simp add: reply_view_def calm_intros split: option.split)

text \<open>The requests that change who is in which room, or the rooms.\<close>

fun room_request :: "request \<Rightarrow> bool" where
  "room_request (RqRoomJoin _) = True"
| "room_request RqRoomLeave = True"
| "room_request (RqRoomCreate _) = True"
| "room_request (RqRoomUpdate _) = True"
| "room_request (RqRoomDelete _) = True"
| "room_request (RqMove _) = True"
| "room_request _ = False"

fun rename_request :: "request \<Rightarrow> bool" where
  "rename_request (RqRename _) = True"
| "rename_request _ = False"

lemma calm_dispatch: "\<not> room_request q \<Longrightarrow> \<not> rename_request q \<Longrightarrow> calm w (dispatch c r i q w)"
  by (cases q) (simp_all add: calm_intros calm_chat_handlers calm_paint_handlers calm_paint_handlers_plain
    calm_file_handlers calm_media_handlers calm_kick calm_ban calm_mute calm_lift calm_sanctions
    calm_role_handlers handle_room_list_def handle_role_list_def handle_unban_def handle_unmute_def)

text \<open>The handlers of the room requests, each as an operation of the room manager and a calm rest.\<close>

lemma then_calm:
  assumes "\<And>x. calm (fst a) (f (fst a) x)"
  shows "calm (fst a) (case a of (w1, x) \<Rightarrow> f w1 x)"
  using assms by (cases a) simp

lemma calm_room_results:
  "calm (fst a) (case a of (w1, Inl err) \<Rightarrow> send_error r i (room_code err) w1
     | (w1, Inr j) \<Rightarrow> reply_view c r ty i full mk j w1)"
  "calm (fst b) (case b of (w1, Inl err) \<Rightarrow> send_error r i (room_code err) w1
     | (w1, Inr j) \<Rightarrow> send_message r ty i (g j) w1)"
  "calm (fst d) (case d of (w1, Some err) \<Rightarrow> send_error r i (room_code err) w1
     | (w1, None) \<Rightarrow> send_message r ty i p w1)"
  by (auto intro: calm_intros calm_reply_view split: prod.split sum.split option.split)

text \<open>What a request can do to the server, up to a calm rest: nothing, or one operation of the room
  manager.\<close>

inductive room_op :: "call \<Rightarrow> server \<Rightarrow> server \<Rightarrow> bool" for c w where
  same: "room_op c w w"
| joins: "mget (live w) (s_uuid (heap w r)) = Some r \<Longrightarrow> room_op c w (fst (join_room now r i pw w))"
| leaves: "mget (live w) (s_uuid (heap w r)) = Some r \<Longrightarrow> room_op c w (fst (leave now r w))"
| moved: "mget (live w) (s_uuid (heap w r)) = Some r \<Longrightarrow> room_op c w (fst (force_room now r i w))"
| creates: "room_op c w (fst (create_room (cx_env c) (cx_lower c) u q w))"
| updates: "room_op c w (fst (update_room (cx_env c) (cx_lower c) u q w))"
| deletes: "room_op c w (fst (delete_room (cx_env c) u i w))"

definition one_op :: "call \<Rightarrow> server \<Rightarrow> server \<Rightarrow> bool" where
  "one_op c w w' \<longleftrightarrow> (\<exists>w1. room_op c w w1 \<and> calm w1 w')"

lemma one_op_calm: "calm w w' \<Longrightarrow> one_op c w w'"
  using one_op_def room_op.same by blast

lemma one_op_require: "one_op c w (k w) \<Longrightarrow> one_op c w (require r i p k w)"
  by (simp add: require_def one_op_calm calm_intros)

lemma one_op_decoded: "(\<And>x. one_op c w (k x w)) \<Longrightarrow> one_op c w (decoded r i p k w)"
  by (simp add: decoded_def one_op_calm calm_intros split: option.split)

lemma one_op_by: "room_op c w (fst a) \<Longrightarrow> calm (fst a) w' \<Longrightarrow> one_op c w w'"
  using one_op_def by blast

lemma one_op_move:
  assumes "wf_net w"
  shows "one_op c w (handle_move c r i p w)"
proof -
  let ?now = "clock (cx_env c)"
  have l: "mget (live w) (s_uuid (heap w v)) = Some v" if "get_session w t = Some v" for t v
    using that wf_net_live [OF assms] by (simp add: get_session_def)
  have left: "one_op c w (case x of Inl err \<Rightarrow> send_error r i (room_code err) w1
      | Inr y \<Rightarrow> send_message r t1 i pl (send_message v t2 [] pl' w1))"
    if "get_session w t = Some v" "leave ?now v w = (w1, x)" for t v pl pl' w1 x t1 t2
    using room_op.leaves [OF l [OF that(1)], of c ?now] that(2)
    by (intro one_op_by [of c w "(w1, x)"]) (auto intro: calm_intros split: sum.split)
  have forced: "one_op c w (case x of Inl err \<Rightarrow> send_error r i (room_code err) w1
      | Inr j \<Rightarrow> (case get_room w1 j of None \<Rightarrow> w1 | Some y \<Rightarrow> g y))"
    if "get_session w t = Some v" "force_room ?now v room w = (w1, x)" "\<And>y. calm w1 (g y)" for t v room w1 x g
    using room_op.moved [OF l [OF that(1)], of c ?now room] that(2,3)
    by (intro one_op_by [of c w "(w1, x)"]) (auto intro: calm_intros split: sum.split option.split)
  show ?thesis
    unfolding handle_move_def
    by (rule one_op_require, rule one_op_decoded)
      (auto simp: Let_def intro!: one_op_calm [OF calm_send_error] left forced calm_send_message calm_log
        split: option.split prod.split)
qed

lemma one_op_room_handlers:
  assumes "mget (live w) (s_uuid (heap w r)) = Some r"
  shows "one_op c w (handle_room_join c r i p1 w)" "one_op c w (handle_room_leave c r i w)"
    "one_op c w (handle_room_create c r i p2 w)" "one_op c w (handle_room_update c r i p3 w)"
    "one_op c w (handle_room_delete c r i p4 w)"
proof -
  show "one_op c w (handle_room_join c r i p1 w)"
    unfolding handle_room_join_def
    by (rule one_op_decoded, rule one_op_by [OF room_op.joins [OF assms]], rule calm_room_results)
  show "one_op c w (handle_room_leave c r i w)"
    unfolding handle_room_leave_def
    by (rule one_op_by [OF room_op.leaves [OF assms]], rule calm_room_results)
  show "one_op c w (handle_room_create c r i p2 w)"
    unfolding handle_room_create_def
    by (rule one_op_require, rule one_op_decoded, rule one_op_by [OF room_op.creates], rule calm_room_results)
  show "one_op c w (handle_room_update c r i p3 w)"
    unfolding handle_room_update_def
    by (rule one_op_require, rule one_op_decoded, rule one_op_by [OF room_op.updates], rule calm_room_results)
  show "one_op c w (handle_room_delete c r i p4 w)"
    unfolding handle_room_delete_def
    by (rule one_op_require, rule one_op_decoded, rule one_op_by [OF room_op.deletes], rule calm_room_results)
qed

lemma one_op_dispatch:
  assumes "wf_net w" "mget (live w) (s_uuid (heap w r)) = Some r" "\<not> rename_request q"
  shows "one_op c w (dispatch c r i q w)"
proof (cases "room_request q")
  case True
  then show ?thesis
    by (cases q) (simp_all add: one_op_room_handlers [OF assms(2)] one_op_move [OF assms(1)])
qed (use assms(3) in \<open>simp add: one_op_calm calm_dispatch\<close>)

lemma rooms_inv_op: "room_op c w w' \<Longrightarrow> rooms_inv w \<Longrightarrow> fresh (cx_env c) w \<Longrightarrow> rooms_inv w'"
  by (induction rule: room_op.induct)
    (auto simp: fresh_def intro: rooms_inv_join rooms_inv_leave rooms_inv_force rooms_inv_create rooms_inv_update
      rooms_inv_delete)

lemma people_op: "room_op c w w' \<Longrightarrow> people w w'"
  by (induction rule: room_op.induct)
    (simp_all add: people_join people_leave people_force people_create people_update people_delete)

lemma rooms_inv_set_username: "rooms_inv w \<Longrightarrow> rooms_inv (set_username r n w)"
  unfolding set_username_def by (rule rooms_inv_at_session) (simp_all add: queue_ok_def)

lemma rename_cases:
  obtains (calm) "calm w (handle_rename c r i p w)"
  | (renamed) name where "\<not> username_taken (cx_lower c) w name (s_uuid (heap w r))"
      "calm (set_username r name w) (handle_rename c r i p w)"
proof (cases p)
  case None
  then show ?thesis by (intro calm) (simp add: handle_rename_def rename_check_def rename_to_def decoded_def calm_intros)
next
  case (Some raw)
  show ?thesis
  proof (cases "normalize_username raw (fst (username_limits (cfg w))) (snd (username_limits (cfg w)))")
    case (Inr name)
    show ?thesis
    proof (cases "name = s_username (heap w r) \<or> username_taken (cx_lower c) w name (s_uuid (heap w r))")
      case True
      with Some Inr show ?thesis
        by (intro calm) (auto simp: handle_rename_def rename_check_def rename_to_def decoded_def calm_intros)
    next
      case False
      with Some Inr show ?thesis
        by (intro renamed [of name]) (simp_all add: handle_rename_def rename_check_def rename_to_def decoded_def calm_intros Let_def)
    qed
  qed (use Some in \<open>intro calm; simp add: handle_rename_def rename_check_def rename_to_def decoded_def calm_intros\<close>)
qed

section \<open>Arrivals and departures\<close>

lemma at_alloc: "at_session (next_ref w) f (fst (alloc s w)) = fst (alloc (f s) w)"
  by (simp add: alloc_def at_session_def on_heap_def)

lemma set_users_acc: obtains a where "set_users f w = w\<lparr>acc := a\<rparr>"
proof (cases "f (db_of w)")
  case (Inl err)
  then have "set_users f w = w\<lparr>acc := acc w\<rparr>" by (simp add: set_users_def)
  then show ?thesis by (rule that)
qed (simp add: set_users_def set_db_def that)

lemma transfer_acc:
  "fst (transfer_membership old r (w\<lparr>acc := a\<rparr>)) = (fst (transfer_membership old r w))\<lparr>acc := a\<rparr>"
  by (simp add: transfer_membership_def Let_def get_room_def set_room_def at_session_def on_room_def split: option.split)

lemma transfer_frame:
  "live (fst (transfer_membership old r w)) = live w" "next_ref (fst (transfer_membership old r w)) = next_ref w"
  "s_username (heap (fst (transfer_membership old r w)) x) = s_username (heap w x)"
  "s_closed (heap (fst (transfer_membership old r w)) x) = s_closed (heap w x)"
  "s_out (heap (fst (transfer_membership old r w)) x) = s_out (heap w x)"
  by (simp_all add: transfer_membership_def Let_def heap_set_room split: option.split)

definition arrival :: "call \<Rightarrow> string \<Rightarrow> ustring \<Rightarrow> uuid \<Rightarrow> ustring \<Rightarrow> server \<Rightarrow> session" where
  "arrival c avatar remote u name w =
     (new_session (new_uuid (cx_env c)) u name remote (clock (cx_env c)))
       \<lparr>s_roles := role_ids c w u, s_muted := is_muted (clock (cx_env c)) (acc w) u, s_avatar := avatar\<rparr>"

lemma arrival_fields [simp]:
  "s_uuid (arrival c av rm u n w) = u" "s_username (arrival c av rm u n w) = n" "s_room (arrival c av rm u n w) = []"
  "s_out (arrival c av rm u n w) = []" "\<not> s_closed (arrival c av rm u n w)"
  by (simp_all add: arrival_def new_session_def)

lemma apply_roles_alloc:
  assumes "alloc (new_session (new_uuid (cx_env c)) u name remote (clock (cx_env c))) w = (w1, r)"
  shows "set_avatar r avatar (apply_roles c r w1) = fst (alloc (arrival c avatar remote u name w) w)"
    and "r = next_ref w"
proof -
  let ?s = "new_session (new_uuid (cx_env c)) u name remote (clock (cx_env c))"
  have r: "r = snd (alloc ?s w)" "w1 = fst (alloc ?s w)" using assms by simp_all
  have sn: "snd (alloc s w) = next_ref w" for s by (simp add: alloc_def)
  have a: "acc w1 = acc w" "s_uuid (heap w1 r) = u" "role_ids c w1 u = role_ids c w u"
    using r by (simp_all add: alloc_def new_session_def role_ids_def)
  show "r = next_ref w" using r sn by simp
  show "set_avatar r avatar (apply_roles c r w1) = fst (alloc (arrival c avatar remote u name w) w)"
    unfolding apply_roles_def Let_def a
    unfolding set_avatar_def set_muted_def set_roles_def r
    by (simp add: sn at_alloc arrival_def)
qed

lemma add_session_effect:
  assumes "add_session m r w = (w1, Inr replaced)" "\<And>v x. mget (live w) v = Some x \<Longrightarrow> x < r"
  shows "live w1 = mput (s_uuid (heap w r)) r (live w)" "next_ref w1 = next_ref w"
    "s_username (heap w1 x) = s_username (heap w x)"
    "s_out (heap w1 r) = s_out (heap w r)" "s_closed (heap w1 r) = s_closed (heap w r)"
proof -
  consider "w1 = w\<lparr>live := mput (s_uuid (heap w r)) r (live w)\<rparr>"
    | old where "old < r" "w1 = (close_session old ReasonReplaced w)\<lparr>live := mput (s_uuid (heap w r)) r (live w)\<rparr>"
  proof (cases "mget (live w) (s_uuid (heap w r))")
    case None
    then show ?thesis using assms(1) that(1) by (simp add: add_session_def split: if_splits)
  next
    case (Some old)
    then show ?thesis using assms(1) that(2) [of old] assms(2) [OF Some] by (simp add: add_session_def)
  qed
  then show "live w1 = mput (s_uuid (heap w r)) r (live w)" "next_ref w1 = next_ref w"
    "s_username (heap w1 x) = s_username (heap w x)"
    "s_out (heap w1 r) = s_out (heap w r)" "s_closed (heap w1 r) = s_closed (heap w r)"
    by (cases; simp add: close_session_def heap_at_session)+
qed

text \<open>What a completed registration leaves behind; \<open>connect\<close> is the registry's and the rooms' part of it.\<close>

lemma admit_client_cases:
  assumes inv: "rooms_inv w"
  obtains (full) w1 where "admit_client c su bots av rm i (u, name) w = (w1, Inl ''server_full'')" "rooms_inv w1"
      "live w1 = live w" "\<And>x. x < next_ref w \<Longrightarrow> s_username (heap w1 x) = s_username (heap w x)"
      "\<exists>b. calm ((fst (connect (cfg_int (cfg w) KeyServerMaxUsers) (arrival c av rm u name w) w))\<lparr>acc := b\<rparr>) w1"
  | (admitted) w1 where "admit_client c su bots av rm i (u, name) w = (w1, Inr (next_ref w))" "rooms_inv w1"
      "live w1 = mput u (next_ref w) (live w)" "s_username (heap w1 (next_ref w)) = name"
      "\<And>x. x < next_ref w \<Longrightarrow> s_username (heap w1 x) = s_username (heap w x)"
      "\<exists>b. calm ((fst (connect (cfg_int (cfg w) KeyServerMaxUsers) (arrival c av rm u name w) w))\<lparr>acc := b\<rparr>) w1"
proof -
  let ?s = "arrival c av rm u name w" and ?r = "next_ref w"
  obtain w2 where a: "alloc ?s w = (w2, ?r)" by (simp add: alloc_def)
  obtain w1 where al: "alloc (new_session (new_uuid (cx_env c)) u name rm (clock (cx_env c))) w = (w1, ?r)"
    by (simp add: alloc_def)
  have w2: "set_avatar ?r av (apply_roles c ?r w1) = w2" using apply_roles_alloc(1) [OF al, of av] a by simp
  have wf: "wf_net w" using rooms_invD(1) [OF inv] .
  note h = alloc_server(2-5) [OF a]
  have cfg2: "cfg w2 = cfg w" using a by (auto simp: alloc_def)
  let ?m = "cfg_int (cfg w) KeyServerMaxUsers"
  have con: "rooms_inv (fst (connect ?m ?s w))" by (rule rooms_inv_connect [OF inv]) simp_all
  have uname: "s_username (heap w2 x) = (if x = ?r then name else s_username (heap w x))" for x
    by (simp add: h)
  have uuid: "s_uuid (heap w2 ?r) = u" by (simp add: h)
  have w2live: "\<And>v x. mget (live w2) v = Some x \<Longrightarrow> x < ?r" using wf_net_live [OF wf] h by simp
  have out2: "s_out (heap w2 ?r) = []" "\<not> s_closed (heap w2 ?r)" by (simp_all add: h)
  have a2: "next_ref w2 = Suc ?r" using a by (auto simp: alloc_def)
  obtain w3 res where ad: "add_session ?m ?r w2 = (w3, res)" by fastforce
  show ?thesis
  proof (cases res)
    case (Inl err)
    then have "w3 = w2" using ad by (auto simp: add_session_def Let_def split: option.splits if_splits)
    moreover have cw: "connect ?m ?s w = (w2, Inl err)" using ad Inl \<open>w3 = w2\<close> by (simp add: connect_def a)
    moreover have "\<exists>b. calm ((fst (connect ?m ?s w))\<lparr>acc := b\<rparr>) w2"
      by (rule exI [of _ "acc w2"]) (simp add: cw)
    moreover have "admit_client c su bots av rm i (u, name) w = (w2, Inl ''server_full'')"
      using ad Inl \<open>w3 = w2\<close> unfolding admit_client_def by (simp add: al w2 cfg2)
    ultimately show ?thesis using con h uname by (intro full [of w2]) (simp_all only: fst_conv, simp_all)
  next
    case (Inr replaced)
    have w3: "live w3 = mput u ?r (live w)" "next_ref w3 = Suc ?r"
      "s_username (heap w3 x) = s_username (heap w2 x)" "s_out (heap w3 ?r) = []" "\<not> s_closed (heap w3 ?r)" for x
      using add_session_effect [OF ad [unfolded Inr] w2live] out2 by (simp_all add: h uuid a2)
    obtain b where b: "set_users (db_touch_user (cx_env c) u name) w3 = w3\<lparr>acc := b\<rparr>" by (rule set_users_acc)
    define w5 where "w5 = (case replaced of None \<Rightarrow> w3\<lparr>acc := b\<rparr> | Some old \<Rightarrow> fst (transfer_membership old ?r (w3\<lparr>acc := b\<rparr>)))"
    have w5c: "w5 = (fst (connect ?m ?s w))\<lparr>acc := b\<rparr>"
      using ad Inr by (simp add: w5_def connect_def a transfer_acc split: option.split)
    then have inv5: "rooms_inv w5" using con by (simp add: rooms_inv_acc)
    have w5: "live w5 = mput u ?r (live w)" "s_username (heap w5 x) = s_username (heap w2 x)"
      "accepts (heap w5 ?r)" for x
      using w3 by (simp_all add: w5_def transfer_frame accepts_def outbound_buffer_def split: option.split)
    define w6 where "w6 = fst (admit_client c su bots av rm i (u, name) w)"
    have "admit_client c su bots av rm i (u, name) w = (w6, Inr ?r) \<and> calm w5 w6"
      using ad Inr w5(3) unfolding w6_def admit_client_def
      by (cases replaced) (simp_all add: al w2 cfg2 b Let_def w5_def calm_intros)
    then have ad6: "admit_client c su bots av rm i (u, name) w = (w6, Inr ?r)" and c6: "calm w5 w6" by simp_all
    then have "\<exists>b. calm ((fst (connect ?m ?s w))\<lparr>acc := b\<rparr>) w6" using w5c by auto
    then show ?thesis
      using ad6 rooms_inv_calm [OF inv5 c6] w5 uname c6 by (intro admitted [of w6]) (simp_all only: calm_def, simp_all)
  qed
qed

definition names_distinct :: "(ustring \<Rightarrow> ustring) \<Rightarrow> server \<Rightarrow> bool" where
  "names_distinct lower w \<longleftrightarrow> (\<forall>u r v x. mget (live w) u = Some r \<longrightarrow> mget (live w) v = Some x \<longrightarrow> u \<noteq> v
     \<longrightarrow> lower (s_username (heap w r)) \<noteq> lower (s_username (heap w x)))"

lemma names_people: "people w w' \<Longrightarrow> names_distinct lower w \<Longrightarrow> names_distinct lower w'"
  by (simp add: names_distinct_def people_def)

lemma not_taken:
  assumes "\<not> username_taken lower w n u" "mget (live w) v = Some x" "v \<noteq> u"
  shows "lower (s_username (heap w x)) \<noteq> lower n"
  using assms map_of_SomeD [OF assms(2)] by (auto simp: username_taken_def list_ex_iff)

lemma names_rename:
  assumes n: "names_distinct lower w" and inv: "wf_net w" and l: "mget (live w) (s_uuid (heap w r)) = Some r"
    and free: "\<not> username_taken lower w n (s_uuid (heap w r))"
  shows "names_distinct lower (set_username r n w)"
proof -
  have h: "s_username (heap (set_username r n w) x) = (if x = r then n else s_username (heap w x))"
    "live (set_username r n w) = live w" for x
    by (simp_all add: set_username_def heap_at_session)
  have "u = s_uuid (heap w r)" if "mget (live w) u = Some r" for u
    using that wf_net_live [OF inv] by simp
  then have u: "u = s_uuid (heap w r)" if "mget (live w) u = Some r" for u using that by blast
  have other: "lower (s_username (heap w x)) \<noteq> lower n" if "mget (live w) v = Some x" "x \<noteq> r" for v x
  proof -
    have "v \<noteq> s_uuid (heap w r)" using that l by (metis option.inject)
    then show ?thesis using not_taken [OF free that(1)] by blast
  qed
  show ?thesis
    unfolding names_distinct_def h
  proof (intro allI impI)
    fix v x v' x'
    assume a: "mget (live w) v = Some x" "mget (live w) v' = Some x'" "v \<noteq> v'"
    then have "x \<noteq> r \<or> x' \<noteq> r" using u by blast
    moreover have "lower (s_username (heap w x)) \<noteq> lower (s_username (heap w x'))"
      using n a unfolding names_distinct_def by blast
    ultimately show "lower (if x = r then n else s_username (heap w x)) \<noteq> lower (if x' = r then n else s_username (heap w x'))"
      using other [OF a(1)] other [OF a(2)] by auto
  qed
qed

lemma names_admit:
  assumes n: "names_distinct lower w" and wf: "wf_net w" and free: "\<not> username_taken lower w name u"
    and l: "live w' = mput u (next_ref w) (live w)" "s_username (heap w' (next_ref w)) = name"
      "\<And>x. x < next_ref w \<Longrightarrow> s_username (heap w' x) = s_username (heap w x)"
  shows "names_distinct lower w'"
proof -
  have old: "s_username (heap w' x) = s_username (heap w x)" if "mget (live w) v = Some x" for v x
    using that wf_net_live [OF wf] l(3) by blast
  show ?thesis
    using n not_taken [OF free] not_taken [OF free, THEN not_sym] unfolding names_distinct_def l(1)
    by (auto simp: l(2) old split: if_splits)
qed

lemma names_sub:
  assumes "names_distinct lower w" "\<And>u r. mget (live w') u = Some r \<Longrightarrow>
      mget (live w) u = Some r \<and> s_username (heap w' r) = s_username (heap w r)"
  shows "names_distinct lower w'"
  using assms unfolding names_distinct_def by metis

lemma rooms_inv_client_left:
  assumes "rooms_inv w"
  shows "rooms_inv (client_left c r w)"
proof -
  define w0 where "w0 = close_session r ReasonClientLeft w"
  have inv: "rooms_inv w0" unfolding w0_def by (intro rooms_inv_calm [OF assms] calm_intros calm_refl)
  have h: "rooms_inv (fst (hang_up (clock (cx_env c)) r w0))" by (rule rooms_inv_hang_up [OF inv])
  have "calm (fst (hang_up (clock (cx_env c)) r w0)) (leave_server c r w0)"
    by (simp add: hang_up_def leave_server_def Let_def chat_forget_def paint_forget_def calm_intros
        split: prod.split bool.split)
  then show ?thesis unfolding client_left_def w0_def [symmetric] by (rule rooms_inv_calm [OF h])
qed

lemma people_client_left:
  "(mget (live (client_left c r w)) u = Some x \<longrightarrow> mget (live w) u = Some x)
    \<and> s_username (heap (client_left c r w) x) = s_username (heap w x)"
proof -
  define w0 where "w0 = close_session r ReasonClientLeft w"
  have 0: "people w w0" unfolding w0_def by (intro people_calm calm_intros calm_refl)
  obtain w1 b where r: "remove_session r w0 = (w1, b)" by fastforce
  have 1: "mget (live w1) u = Some x \<Longrightarrow> mget (live w0) u = Some x" "heap w1 = heap w0" for u
    using r by (auto simp: remove_session_def Let_def split: if_splits)
  have d: "people w1 (disconnect now r w1)" for now
    by (simp add: disconnect_def Let_def people_intros)
  have "calm (disconnect (clock (cx_env c)) r w1) (leave_server c r w0)" if b
    using that r by (simp add: leave_server_def Let_def chat_forget_def paint_forget_def calm_intros)
  then have "people w1 (leave_server c r w0)"
    using r d [of "clock (cx_env c)"] by (cases b) (auto simp: leave_server_def intro: people_trans people_calm)
  then show ?thesis
    using 0 1 unfolding client_left_def w0_def [symmetric] by (auto simp: people_def)
qed

section \<open>Everything that happens\<close>

inductive gate_step :: "(ustring \<Rightarrow> ustring) \<Rightarrow> server \<Rightarrow> server \<Rightarrow> bool" for lower where
  request: "mget (live w) (s_uuid (heap w r)) = Some r \<Longrightarrow> cx_lower c = lower \<Longrightarrow> fresh (cx_env c) w \<Longrightarrow>
    gate_step lower w (read_frame c r i q w)"
| arrives: "cx_lower c = lower \<Longrightarrow> gate_step lower w (fst (handshake c su bots av rm i fr w))"
| departs: "gate_step lower w (client_left c r w)"
| written: "pump_one r w = (w', f) \<Longrightarrow> gate_step lower w w'"
| shutdown: "gate_step lower w (close_all reason w)"
| timer: "get_room w i = Some x \<Longrightarrow> rm_purge x = Some t \<Longrightarrow> t \<le> now \<Longrightarrow> gate_step lower w (purge i w)"
| upload_starts: "gate_step lower w (fst (upload_begin e token w))"
| upload_arrives: "gate_step lower w (fst (upload_write e st io w))"
| upload_ends: "gate_step lower w (announce_upload e r f (upload_add f w))"
| download: "gate_step lower w (fst (open_file now fid token thumb w))"
| rooms_reloaded: "\<forall>d \<in> set (t_rooms (db_of w)). rd_id d \<noteq> [] \<Longrightarrow> gate_step lower w (fst (reload_rooms e lower w))"
| access_reloaded: "cx_lower c = lower \<Longrightarrow> gate_step lower w (refresh_roles c (set_acc (fst (Reload e (acc w))) w))"
| config_reloaded: "gate_step lower w (w\<lparr>cfg := g\<rparr>)"

text \<open>A server starts with its rooms loaded, all of them empty, and nobody connected.\<close>

definition starting :: "server \<Rightarrow> bool" where
  "starting w \<longleftrightarrow> live w = [] \<and> buffers w = [] \<and> boards w = [] \<and> (\<forall>r. s_out (heap w r) = [] \<and> s_room (heap w r) = []) \<and> wf_map (rooms w)
     \<and> (\<forall>i x. get_room w i = Some x \<longrightarrow> i \<noteq> [] \<and> x = new_room (rm_def x) \<and> rd_id (rm_def x) = i)"

inductive gate_reachable :: "(ustring \<Rightarrow> ustring) \<Rightarrow> server \<Rightarrow> bool" for lower where
  start: "starting w \<Longrightarrow> gate_reachable lower w"
| step: "gate_reachable lower w \<Longrightarrow> gate_step lower w w' \<Longrightarrow> gate_reachable lower w'"

section \<open>The invariant\<close>

definition server_ok :: "(ustring \<Rightarrow> ustring) \<Rightarrow> server \<Rightarrow> bool" where
  "server_ok lower w \<longleftrightarrow> rooms_inv w \<and> names_distinct lower w"

lemma ok_calm: "server_ok lower w \<Longrightarrow> calm w w' \<Longrightarrow> server_ok lower w'"
  unfolding server_ok_def using rooms_inv_calm names_people people_calm by blast

lemma check_hello_ok:
  assumes "check_hello c fr w = Inr (u, name)"
  shows "\<not> username_taken (cx_lower c) w name u" "\<not> is_banned (clock (cx_env c)) (acc w) u"
  using assms by (auto simp: check_hello_def Let_def split: first_frame.splits if_splits sum.splits)

lemma ok_handshake:
  assumes "server_ok (cx_lower c) w"
  shows "server_ok (cx_lower c) (fst (handshake c su bots av rm i fr w))"
proof (cases "check_hello c fr w")
  case (Inr who)
  obtain u name where who: "who = (u, name)" by fastforce
  have inv: "rooms_inv w" and n: "names_distinct (cx_lower c) w" using assms by (auto simp: server_ok_def)
  have free: "\<not> username_taken (cx_lower c) w name u" using check_hello_ok Inr who by blast
  have wf: "wf_net w" using rooms_invD(1) [OF inv] .
  have "server_ok (cx_lower c) (fst (admit_client c su bots av rm i (u, name) w))"
  proof (rule admit_client_cases [OF inv, of c su bots av rm i u name])
    fix w1
    assume full: "admit_client c su bots av rm i (u, name) w = (w1, Inl ''server_full'')" "rooms_inv w1"
      "live w1 = live w" "\<And>x. x < next_ref w \<Longrightarrow> s_username (heap w1 x) = s_username (heap w x)"
    have "names_distinct (cx_lower c) w1"
      using full(3,4) wf_net_live [OF wf] by (intro names_sub [OF n]) simp
    with full show ?thesis by (simp add: server_ok_def)
  next
    fix w1
    assume adm: "admit_client c su bots av rm i (u, name) w = (w1, Inr (next_ref w))" "rooms_inv w1"
      "live w1 = mput u (next_ref w) (live w)" "s_username (heap w1 (next_ref w)) = name"
      "\<And>x. x < next_ref w \<Longrightarrow> s_username (heap w1 x) = s_username (heap w x)"
    with names_admit [OF n wf free adm(3,4)] show ?thesis by (simp add: server_ok_def)
  qed
  with Inr who show ?thesis by (simp add: handshake_def)
qed (use assms in \<open>simp add: handshake_def\<close>)

lemma ok_read_frame:
  assumes ok: "server_ok (cx_lower c) w" and l: "mget (live w) (s_uuid (heap w r)) = Some r" and f: "fresh (cx_env c) w"
  shows "server_ok (cx_lower c) (read_frame c r i q w)"
proof -
  have inv: "rooms_inv w" and n: "names_distinct (cx_lower c) w" using ok by (auto simp: server_ok_def)
  have wf: "wf_net w" using rooms_invD(1) [OF inv] .
  have "server_ok (cx_lower c) (dispatch c r i q w)"
  proof (cases "rename_request q")
    case True
    then obtain p where q: "q = RqRename p" by (cases q) auto
    show ?thesis
    proof (cases rule: rename_cases [of w c r i p])
      case calm
      then show ?thesis using ok_calm [OF ok] q by simp
    next
      case (renamed name)
      have "server_ok (cx_lower c) (set_username r name w)"
        unfolding server_ok_def using rooms_inv_set_username [OF inv] names_rename [OF n wf l renamed(1)] by blast
      then show ?thesis using ok_calm renamed(2) q by simp
    qed
  next
    case False
    then obtain w1 where "room_op c w w1" "calm w1 (dispatch c r i q w)"
      using one_op_dispatch [OF wf l] one_op_def by blast
    moreover have "server_ok (cx_lower c) w1"
      unfolding server_ok_def
      using rooms_inv_op [OF \<open>room_op c w w1\<close> inv f] names_people [OF people_op [OF \<open>room_op c w w1\<close>] n] by blast
    ultimately show ?thesis using ok_calm by blast
  qed
  with ok show ?thesis by (simp add: read_frame_def)
qed

lemma calm_background:
  "pump_one r w = (w', f) \<Longrightarrow> calm w w'" "calm w (close_all reason w)"
  "calm w (fst (upload_begin e token w))" "calm w (fst (upload_write e st io w))"
  "calm w (announce_upload e r fl (upload_add fl w))" "calm w (fst (open_file now fid token thumb w))"
  "calm w (refresh_roles c (set_acc a w))" "calm w (w\<lparr>cfg := g\<rparr>)"
proof -
  show "calm w w'" if "pump_one r w = (w', f)"
    using that by (cases "s_out (heap w r)") (auto simp: pump_one_def calm_def heap_at_session queue_ok_def)
  show "calm w (close_all reason w)"
  proof -
    have "calm w (w\<lparr>heap := fold (\<lambda>r. on_heap r (close_with reason)) rs (heap w)\<rparr>)" for rs
      unfolding calm_def by (simp add: fold_close_at)
    then show ?thesis by (simp add: close_all_def)
  qed
  show "calm w (fst (upload_begin e token w))"
    by (simp add: upload_begin_def Let_def calm_intros split: option.split)
  show "calm w (fst (upload_write e st io w))"
    by (simp add: upload_write_def Let_def calm_intros split: prod.split sum.split)
  show "calm w (announce_upload e r fl (upload_add fl w))"
    unfolding announce_upload_def upload_add_def
    by (metis calm_fields(5) calm_post_attachment calm_refl calm_trans prod.collapse)
  show "calm w (fst (open_file now fid token thumb w))"
    by (simp add: open_file_def Let_def calm_intros split: option.split)
  show "calm w (refresh_roles c (set_acc a w))" by (intro calm_intros calm_refl)
  show "calm w (w\<lparr>cfg := g\<rparr>)"
    by (simp add: calm_def core_def get_room_def fun_eq_iff)
qed

lemma ok_step: "gate_step lower w w' \<Longrightarrow> server_ok lower w \<Longrightarrow> server_ok lower w'"
proof (induction rule: gate_step.induct)
  case (request w r c i q)
  then show ?case using ok_read_frame [of c w r] by simp
next
  case (arrives c w su bots av rm i fr)
  then show ?case using ok_handshake [of c w] by simp
next
  case (departs w c r)
  have "names_distinct lower (client_left c r w)"
  proof (rule names_sub [of lower w])
    show "names_distinct lower w" using departs by (simp add: server_ok_def)
  qed (use people_client_left in blast)
  then show ?case using departs rooms_inv_client_left by (simp add: server_ok_def)
next
  case (written r w w' f)
  show ?case by (rule ok_calm [OF written(2) calm_background(1) [OF written(1)]])
next
  case (timer w i x t now)
  then have "rooms_inv (purge i w)" "names_distinct lower (purge i w)"
    using rooms_inv_purge names_people [OF people_purge [OF people_refl], of lower w i]
    unfolding server_ok_def by blast+
  then show ?case by (simp add: server_ok_def)
next
  case (rooms_reloaded w e)
  then have "rooms_inv (fst (reload_rooms e lower w))" "names_distinct lower (fst (reload_rooms e lower w))"
    using rooms_inv_reload [OF _ rooms_reloaded(1)] names_people [OF people_reload, of lower w e lower]
    unfolding server_ok_def by blast+
  then show ?case by (simp add: server_ok_def)
qed (erule ok_calm, rule calm_background(2-))+

lemma ok_starting: "starting w \<Longrightarrow> server_ok lower w"
proof -
  assume s: "starting w"
  have m: "\<not> member w i u r" for i u r
  proof
    assume "member w i u r"
    then obtain x where "get_room w i = Some x" "mget (rm_members x) u = Some r" by (auto simp: member_def)
    moreover from this s have "rm_members x = []" unfolding starting_def by (metis new_room_fields(2))
    ultimately show False by simp
  qed
  have "wf_net w" using s by (simp add: wf_net_def starting_def queue_ok_def)
  moreover have "rooms_wf w" using s unfolding rooms_wf_def starting_def by (metis new_room_fields(2) wf_map_Nil)
  ultimately show "server_ok lower w"
    using s m by (auto simp: server_ok_def names_distinct_def starting_def intro!: rooms_invI)
qed

lemma gate_reachable_ok: "gate_reachable lower w \<Longrightarrow> server_ok lower w"
  by (induction rule: gate_reachable.induct) (auto intro: ok_starting ok_step)

end
