(* ===== verification/Gateway_Safety.thy ===== *)
theory Gateway_Safety
  imports Gateway_Correct
begin

text \<open>
  What the gateway guarantees at every moment and request by request: the memberships in every
  reachable state, who is let in, who may enter a room, who may moderate, and where a message goes. The
  witnesses run on a server that starts empty and is joined by one client.
\<close>

section \<open>A server with one client in one room\<close>

definition demo_start :: server where
  "demo_start = demo_server\<lparr>heap := \<lambda>_. demo_person [] [], live := [], next_ref := 0, rooms := [(hall, new_room demo_hall)]\<rparr>"

definition demo_call :: call where
  "demo_call = \<lparr>cx_env = quiet_env ''s'' 5000000000, cx_lower = map lower_ascii, cx_token = ''t'', cx_sign = \<lambda>_ _. []\<rparr>"

definition client_id :: string where "client_id = ''0a000000-0000-4000-8000-00000000000f''"

definition demo_hello :: first_frame where
  "demo_hello = HelloFrame \<lparr>hl_protocol = 1, hl_uuid = runes client_id, hl_username = runes ''Ann'', hl_password = []\<rparr>"

lemma starting_demo: "starting demo_start"
  by (simp add: starting_def demo_start_def demo_person_def new_session_def get_room_def wf_map_def hall_def
      demo_hall_def new_room_def)

lemma demo_call_fields [simp]:
  "cx_env demo_call = quiet_env ''s'' 5000000000" "cx_lower demo_call = map lower_ascii"
  by (simp_all add: demo_call_def)

lemma quiet_env_fields [simp]: "new_uuid (quiet_env u t) = u" "clock (quiet_env u t) = t" "\<not> fails (quiet_env u t) x"
  by (simp_all add: quiet_env_def)

lemma demo_password [simp]: "cfg_string demo_cfg KeyServerPassword = []"
  by (simp add: cfg_string_def demo_cfg_def registry_def)

lemma demo_uuid: "normalize_client_uuid (runes client_id) = Inr (runes client_id)"
  by (simp add: normalize_client_uuid_def client_id_def runes_def trim_space_def trim_by_def is_space_def
        lower_ascii_def match_uuid_def uuid_pattern_eval is_hex_def)

lemma demo_name: "normalize_username (runes ''Ann'') 1 20 = Inr (runes ''Ann'')"
  by (simp add: normalize_username_def name_eval runes_def)

lemma chars_of_runes [simp]: "map char_of (runes s) = s"
  by (simp add: runes_def comp_def)

lemma demo_admissible: "check_hello demo_call demo_hello demo_start = Inr (client_id, runes ''Ann'')"
  by (simp add: check_hello_def demo_hello_def demo_uuid demo_name Let_def demo_start_def protocol_version_def
      username_limits_def is_banned_def ban_of_def active_sanction_def sanction_of_def demo_acc_def mget2_def
      username_taken_def)


section \<open>Admission\<close>

lemma add_session_full: "add_session m r w = (w', Inl err) \<Longrightarrow>
    w' = w \<and> 0 < m \<and> m \<le> int (length (live w)) \<and> mget (live w) (s_uuid (heap w r)) = None"
  by (auto simp: add_session_def Let_def split: option.splits if_splits)

lemma live_apply_roles: "live (set_avatar r a (apply_roles c r w)) = live w" "cfg (set_avatar r a (apply_roles c r w)) = cfg w"
  "s_uuid (heap (set_avatar r a (apply_roles c r w)) r) = s_uuid (heap w r)"
  by (simp_all add: apply_roles_def Let_def set_avatar_def set_muted_def set_roles_def heap_at_session)

lemma admit_full:
  assumes "admit_client c su bots av rm i (u, name) w = (w', Inl ''server_full'')"
  shows "0 < cfg_int (cfg w) KeyServerMaxUsers" "cfg_int (cfg w) KeyServerMaxUsers \<le> int (length (live w))"
    "mget (live w) u = None"
proof -
  let ?s = "new_session (new_uuid (cx_env c)) u name rm (clock (cx_env c))"
  obtain w1 r where a: "alloc ?s w = (w1, r)" by fastforce
  then have w1: "live w1 = live w" "cfg w1 = cfg w" "s_uuid (heap w1 r) = u"
    by (auto simp: alloc_def new_session_def)
  let ?w2 = "set_avatar r av (apply_roles c r w1)"
  obtain w3 res where ad: "add_session (cfg_int (cfg ?w2) KeyServerMaxUsers) r ?w2 = (w3, res)" by fastforce
  from assms a ad obtain err where "res = Inl err"
    by (cases res) (auto simp: admit_client_def Let_def split: if_splits)
  with ad add_session_full [of _ r ?w2 w3 err] w1
  show "0 < cfg_int (cfg w) KeyServerMaxUsers" "cfg_int (cfg w) KeyServerMaxUsers \<le> int (length (live w))"
    "mget (live w) u = None"
    by (simp_all add: live_apply_roles)
qed

lemma admitted_hello:
  assumes "check_hello c fr w = Inr (u, name)"
  obtains h canonical where "fr = HelloFrame h" "hl_protocol h = 0 \<or> hl_protocol h = protocol_version"
    "normalize_client_uuid (hl_uuid h) = Inr canonical" "u = map char_of canonical"
    "normalize_username (hl_username h) (fst (username_limits (cfg w))) (snd (username_limits (cfg w))) = Inr name"
    "\<not> is_banned (clock (cx_env c)) (acc w) u"
    "cfg_string (cfg w) KeyServerPassword = [] \<or> hl_password h = cfg_string (cfg w) KeyServerPassword"
    "\<not> username_taken (cx_lower c) w name u"
proof (cases fr)
  case (HelloFrame h)
  with assms obtain canonical where "normalize_client_uuid (hl_uuid h) = Inr canonical"
    by (cases "normalize_client_uuid (hl_uuid h)") (auto simp: check_hello_def split: if_splits)
  with assms HelloFrame show ?thesis
    by (intro that [of h canonical]) (auto simp: check_hello_def Let_def split: if_splits sum.splits)
qed (use assms in \<open>simp_all add: check_hello_def\<close>)

definition demo_arrived :: server where
  "demo_arrived = fst (handshake demo_call [] [] [] [] [] demo_hello demo_start)"

lemma core_alloc: "alloc s w = (w', r) \<Longrightarrow> core w' = core w \<and> cfg w' = cfg w"
  by (auto simp: alloc_def)

lemma core_apply_roles: "core (set_avatar r a (apply_roles c r w)) = core w"
  by (simp add: apply_roles_def Let_def set_avatar_def set_muted_def set_roles_def)

lemma push_all_other: "r \<notin> set rs \<or> skip r \<Longrightarrow> push_all skip f rs h r = h r"
  unfolding push_all_def by (induction rs arbitrary: h) (auto simp: on_heap_apply)

lemma broadcast_other:
  "s_uuid (heap w r) = ex \<Longrightarrow> heap (broadcast ty p ex w) r = heap w r"
  by (simp add: broadcast_def push_all_other)

lemma accepts_sent: "accepts (heap w r) \<Longrightarrow> \<not> s_closed (heap (send r f w) r)"
  by (simp add: send_def heap_at_session push_def accepts_def)

lemma sanctions_frame [simp]:
  "sanctions (acc (set_users f w)) = sanctions (acc w)"
  "acc (set_avatar r a (apply_roles c r w)) = acc w"
  by (simp_all add: set_users_def set_db_def apply_roles_def Let_def set_avatar_def set_muted_def set_roles_def split: sum.split)

lemma admit_new:
  assumes "mget (live w) u = None"
    and "cfg_int (cfg w) KeyServerMaxUsers \<le> 0 \<or> int (length (live w)) < cfg_int (cfg w) KeyServerMaxUsers"
  obtains w' where "admit_client c su bots av rm i (u, name) w = (w', Inr (next_ref w))"
    "live w' = mput u (next_ref w) (live w)" "core w' = core w" "cfg w' = cfg w" "\<not> s_closed (heap w' (next_ref w))" "next_ref w' = Suc (next_ref w)"
    "sanctions (acc w') = sanctions (acc w)" "s_username (heap w' (next_ref w)) = name"
    "s_room (heap w' (next_ref w)) = []"
proof -
  let ?r = "next_ref w"
  obtain w1 where a: "alloc (new_session (new_uuid (cx_env c)) u name rm (clock (cx_env c))) w = (w1, ?r)"
    by (simp add: alloc_def)
  define w2 where "w2 = set_avatar ?r av (apply_roles c ?r w1)"
  have w1: "live w1 = live w" "cfg w1 = cfg w" "s_uuid (heap w1 ?r) = u" "core w1 = core w" "next_ref w1 = Suc ?r" "acc w1 = acc w"
    using a by (auto simp: alloc_def new_session_def)
  have acc: "accepts (heap w2 ?r)"
    using apply_roles_alloc(1) [OF a, of av] unfolding w2_def
    by (simp add: alloc_def accepts_def outbound_buffer_def)
  have w2: "live w2 = live w" "cfg w2 = cfg w" "core w2 = core w" "s_uuid (heap w2 ?r) = u" "next_ref w2 = Suc ?r" "acc w2 = acc w"
    "s_username (heap w2 ?r) = name" "s_room (heap w2 ?r) = []"
    unfolding w2_def using apply_roles_alloc(1) [OF a, of av]
    by (simp_all add: live_apply_roles core_apply_roles w1) (simp_all add: alloc_def)
  then have ad: "add_session (cfg_int (cfg w) KeyServerMaxUsers) ?r w2
      = (w2\<lparr>live := mput u ?r (live w)\<rparr>, Inr None)"
    using assms by (auto simp: add_session_def)
  obtain b where b: "set_users (db_touch_user (cx_env c) u name) (w2\<lparr>live := mput u ?r (live w)\<rparr>)
      = w2\<lparr>live := mput u ?r (live w), acc := b\<rparr>"
    using set_users_acc by blast
  have sb: "sanctions b = sanctions (acc w)"
    using sanctions_frame(1) [of "db_touch_user (cx_env c) u name" "w2\<lparr>live := mput u ?r (live w)\<rparr>"] by (simp add: b w2)
  show ?thesis
    by (rule that [of "fst (admit_client c su bots av rm i (u, name) w)"])
      (use acc in \<open>simp_all add: admit_client_def a w2_def [symmetric] ad b w2 send_message_def Let_def
        broadcast_other accepts_sent sb\<close>)
qed

lemma demo_start_fields [simp]:
  "live demo_start = []" "next_ref demo_start = 0" "cfg demo_start = demo_cfg" "acc demo_start = demo_acc"
  "core demo_start hall = Some (demo_hall, [])"
  by (simp_all add: demo_start_def core_def get_room_def new_room_def)

lemma demo_arrived_facts:
  "handshake demo_call [] [] [] [] [] demo_hello demo_start = (demo_arrived, Inr 0)"
  "live demo_arrived = [(client_id, 0)]" "core demo_arrived = core demo_start" "cfg demo_arrived = demo_cfg" "\<not> s_closed (heap demo_arrived 0)"
  "next_ref demo_arrived = 1" "sanctions (acc demo_arrived) = []" "s_username (heap demo_arrived 0) = runes ''Ann''"
proof -
  have n: "mget (live demo_start) client_id = None"
    "cfg_int (cfg demo_start) KeyServerMaxUsers \<le> 0 \<or> int (length (live demo_start)) < cfg_int (cfg demo_start) KeyServerMaxUsers"
    by simp_all
  obtain w' where "admit_client demo_call [] [] [] [] [] (client_id, runes ''Ann'') demo_start = (w', Inr 0)"
    "live w' = [(client_id, 0)]" "core w' = core demo_start" "cfg w' = demo_cfg" "\<not> s_closed (heap w' 0)"
    "next_ref w' = 1" "sanctions (acc w') = []" "s_username (heap w' 0) = runes ''Ann''"
    by (rule admit_new [OF n, of demo_call "[]" "[]" "[]" "[]" "[]" "runes ''Ann''"]) (simp add: demo_acc_def)
  then show "handshake demo_call [] [] [] [] [] demo_hello demo_start = (demo_arrived, Inr 0)"
    "live demo_arrived = [(client_id, 0)]" "core demo_arrived = core demo_start" "cfg demo_arrived = demo_cfg" "\<not> s_closed (heap demo_arrived 0)"
    "next_ref demo_arrived = 1" "sanctions (acc demo_arrived) = []" "s_username (heap demo_arrived 0) = runes ''Ann''"
    by (simp_all add: demo_arrived_def handshake_def demo_admissible)
qed

lemma demo_arrived_reachable: "gate_reachable (map lower_ascii) demo_arrived"
  unfolding demo_arrived_def
  by (rule gate_reachable.step [OF gate_reachable.start [OF starting_demo] gate_step.arrives]) simp


section \<open>Memberships and names\<close>

lemma reachable_inv: "gate_reachable lower w \<Longrightarrow> rooms_inv w" "gate_reachable lower w \<Longrightarrow> names_distinct lower w"
  using gate_reachable_ok server_ok_def by blast+

lemma enter_room_room: "enter_room now r i ign reason w = (w', Inr j) \<Longrightarrow> j = i \<and> s_room (heap w' r) = i"
  by (auto simp: enter_room_def Let_def heap_set_room split: option.splits if_splits)

lemma join_room_room:
  assumes "join_room now r i pw w = (w', Inr j)" "rooms_inv w" "mget (live w) (s_uuid (heap w r)) = Some r"
  shows "j = i \<and> s_room (heap w' r) = i \<and> s_uuid (heap w' r) = s_uuid (heap w r)
    \<and> member w' i (s_uuid (heap w r)) r \<and> rooms_inv w'"
proof -
  have inv: "rooms_inv w'" using rooms_inv_join [OF assms(2,3), of now i pw] assms(1) by simp
  have p: "people w w'" using people_join [of w now r i pw] assms(1) by simp
  obtain room where g: "get_room w i = Some room" using assms(1) by (auto simp: join_room_def split: option.splits)
  then have e: "j = i" "s_room (heap w' r) = i" and ne: "i \<noteq> []"
    using assms(1) enter_room_room [of now r i] rooms_invD(3) [OF assms(2)]
    by (auto simp: join_room_def Let_def split: if_splits)
  have "mget (live w') (s_uuid (heap w r)) = Some r" using p assms(3) by (simp add: people_def)
  then have "member w' i (s_uuid (heap w r)) r" using rooms_invD(4) [OF inv ne] e by blast
  with e p inv show ?thesis by (simp add: people_def)
qed

text \<open>The client of the demo server enters the room.\<close>

definition demo_joined :: server where
  "demo_joined = dispatch demo_call 0 [] (RqRoomJoin (Some \<lparr>rj_room_id = hall, rj_password = []\<rparr>)) demo_arrived"

lemma demo_arrived_uuid: "s_uuid (heap demo_arrived 0) = client_id"
  using wf_net_live [OF rooms_invD(1) [OF reachable_inv(1) [OF demo_arrived_reachable]]] demo_arrived_facts(2) by simp

lemma demo_step: "fresh (cx_env demo_call) demo_arrived" "mget (live demo_arrived) (s_uuid (heap demo_arrived 0)) = Some 0"
proof -
  have "core demo_arrived ''s'' = None"
    by (simp add: demo_arrived_facts(3)) (simp add: core_def demo_start_def get_room_def hall_def)
  then show "fresh (cx_env demo_call) demo_arrived" by (simp add: fresh_def core_def)
  show "mget (live demo_arrived) (s_uuid (heap demo_arrived 0)) = Some 0"
    by (simp add: demo_arrived_uuid demo_arrived_facts(2))
qed

lemma demo_enters: obtains w where "join_room (clock (cx_env demo_call)) 0 hall [] demo_arrived = (w, Inr hall)"
proof -
  have "core demo_arrived hall = Some (demo_hall, [])" by (simp add: demo_arrived_facts(3))
  then obtain room where g: "get_room demo_arrived hall = Some room" "rm_def room = demo_hall" "rm_members room = []"
    by (auto simp: core_Some)
  then show ?thesis
    by (intro that [of "fst (join_room (clock (cx_env demo_call)) 0 hall [] demo_arrived)"])
      (simp add: join_room_def enter_room_def Let_def demo_hall_def)
qed

lemma demo_joined_facts:
  "gate_reachable (map lower_ascii) demo_joined" "mget (live demo_joined) client_id = Some 0"
  "s_room (heap demo_joined 0) = hall" "s_uuid (heap demo_joined 0) = client_id"
proof -
  let ?q = "RqRoomJoin (Some \<lparr>rj_room_id = hall, rj_password = []\<rparr>)"
  have "gate_step (map lower_ascii) demo_arrived (read_frame demo_call 0 [] ?q demo_arrived)"
    by (rule gate_step.request [OF demo_step(2) _ demo_step(1)]) simp
  then show r: "gate_reachable (map lower_ascii) demo_joined"
    using gate_reachable.step [OF demo_arrived_reachable] demo_arrived_facts(5) by (simp add: read_frame_def demo_joined_def)
  obtain w1 where j: "join_room (clock (cx_env demo_call)) 0 hall [] demo_arrived = (w1, Inr hall)" by (rule demo_enters)
  have c: "calm w1 demo_joined"
    using j calm_reply_view by (simp add: demo_joined_def handle_room_join_def decoded_def)
  have w1: "s_room (heap w1 0) = hall" "s_uuid (heap w1 0) = client_id"
    using join_room_room [OF j reachable_inv(1) [OF demo_arrived_reachable] demo_step(2)] demo_arrived_uuid by simp_all
  have p: "live w1 = live demo_arrived"
    using people_join [of demo_arrived "clock (cx_env demo_call)" 0 hall "[]"] j by (simp add: people_def)
  show "mget (live demo_joined) client_id = Some 0" "s_room (heap demo_joined 0) = hall" "s_uuid (heap demo_joined 0) = client_id"
    using c w1 p by (simp_all add: calm_def demo_arrived_facts(2))
qed


text \<open>C2. Whatever happens to a running server, the member list of every room and the room each session
  believes to be in say the same: a session is listed in a room exactly when it is the registered session
  of its user and its own room is that room. Nobody is ever in two rooms, and no ghost is left behind.\<close>

theorem membership_invariant:
  assumes "gate_reachable lower w" "i \<noteq> []"
  shows "member w i u r \<longleftrightarrow> get_session w u = Some r \<and> s_room (heap w r) = i"
  using rooms_invD(4) [OF reachable_inv(1) [OF assms(1)] assms(2)] by (simp add: get_session_def)

theorem membership_invariant_witness:
  "\<exists>w. member w hall client_id 0 \<and> get_session w client_id = Some 0 \<and> s_room (heap w 0) = hall"
proof -
  have "hall \<noteq> []" by simp
  from membership_invariant [OF demo_joined_facts(1) this, of client_id 0] demo_joined_facts
  show ?thesis by (auto simp: get_session_def)
qed

text \<open>A second client, who is let in after the first.\<close>

definition other_id :: string where "other_id = ''0b000000-0000-4000-8000-00000000000f''"

definition other_hello :: first_frame where
  "other_hello = HelloFrame \<lparr>hl_protocol = 0, hl_uuid = runes other_id, hl_username = runes ''Bob'', hl_password = []\<rparr>"

lemma other_admissible: "check_hello demo_call other_hello demo_arrived = Inr (other_id, runes ''Bob'')"
proof -
  have "normalize_client_uuid (runes other_id) = Inr (runes other_id)"
    by (simp add: normalize_client_uuid_def other_id_def runes_def trim_space_def trim_by_def is_space_def
        lower_ascii_def match_uuid_def uuid_pattern_eval is_hex_def)
  moreover have "normalize_username (runes ''Bob'') 1 20 = Inr (runes ''Bob'')"
    by (simp add: normalize_username_def name_eval runes_def)
  moreover have "\<not> username_taken (map lower_ascii) demo_arrived (runes ''Bob'') other_id"
    by (simp add: username_taken_def demo_arrived_facts(2,8)) (simp add: runes_def lower_ascii_def)
  ultimately show ?thesis
    by (simp add: check_hello_def other_hello_def Let_def username_limits_def is_banned_def ban_of_def
        active_sanction_def sanction_of_def mget2_def demo_arrived_facts(4,7))
qed

lemma demo_two:
  obtains w where "gate_reachable (map lower_ascii) w" "get_session w client_id = Some 0" "get_session w other_id = Some 1"
    "s_room (heap w 1) = []"
proof -
  have d: "client_id \<noteq> other_id" by (simp add: client_id_def other_id_def)
  have n: "mget (live demo_arrived) other_id = None"
    "cfg_int (cfg demo_arrived) KeyServerMaxUsers \<le> 0 \<or> int (length (live demo_arrived)) < cfg_int (cfg demo_arrived) KeyServerMaxUsers"
    using d by (simp_all add: demo_arrived_facts(2,4))
  obtain w where w: "admit_client demo_call [] [] [] [] [] (other_id, runes ''Bob'') demo_arrived = (w, Inr 1)"
    "live w = mput other_id 1 (live demo_arrived)" "s_room (heap w 1) = []"
    by (rule admit_new [OF n, of demo_call "[]" "[]" "[]" "[]" "[]" "runes ''Bob''"]) (simp add: demo_arrived_facts)
  have "gate_step (map lower_ascii) demo_arrived (fst (handshake demo_call [] [] [] [] [] other_hello demo_arrived))"
    by (rule gate_step.arrives) simp
  then have "gate_reachable (map lower_ascii) w"
    using gate_reachable.step [OF demo_arrived_reachable] w(1) other_admissible by (simp add: handshake_def)
  then show ?thesis
    using w(2,3) d by (intro that [of w]) (simp_all add: get_session_def demo_arrived_facts(2))
qed

text \<open>C4. A connection becomes a client only with a hello of a known protocol, a well-formed client id, an
  acceptable name nobody else has, the server password when there is one, and only for a user who is not
  banned; it is then registered under exactly that id and name. A refusal for one of these reasons leaves
  the server untouched, and a full server refuses newcomers only.\<close>

theorem handshake_admits:
  assumes "gate_reachable (cx_lower c) w" "handshake c su bots av rm i fr w = (w', res)"
  shows "(case res of
      Inr r \<Rightarrow> \<exists>h canonical u name. fr = HelloFrame h \<and> hl_protocol h \<in> {0, protocol_version}
        \<and> normalize_client_uuid (hl_uuid h) = Inr canonical \<and> u = map char_of canonical
        \<and> normalize_username (hl_username h) (fst (username_limits (cfg w))) (snd (username_limits (cfg w))) = Inr name
        \<and> \<not> is_banned (clock (cx_env c)) (acc w) u
        \<and> (cfg_string (cfg w) KeyServerPassword = [] \<or> hl_password h = cfg_string (cfg w) KeyServerPassword)
        \<and> \<not> username_taken (cx_lower c) w name u
        \<and> live w' = mput u r (live w) \<and> s_uuid (heap w' r) = u \<and> s_username (heap w' r) = name
    | Inl code \<Rightarrow> w' = w \<or> code = ''server_full'' \<and> live w' = live w
        \<and> 0 < cfg_int (cfg w) KeyServerMaxUsers
        \<and> cfg_int (cfg w) KeyServerMaxUsers \<le> int (length (live w)))"
proof (cases "check_hello c fr w")
  case (Inl code)
  with assms(2) show ?thesis by (auto simp: handshake_def)
next
  case (Inr who)
  obtain u name where who: "who = (u, name)" by fastforce
  then have ch: "check_hello c fr w = Inr (u, name)" using Inr by simp
  have ad: "admit_client c su bots av rm i (u, name) w = (w', res)" using assms(2) ch by (simp add: handshake_def)
  have inv: "rooms_inv w" by (rule reachable_inv(1) [OF assms(1)])
  show ?thesis
  proof (rule admit_client_cases [OF inv, of c su bots av rm i u name])
    fix w1
    assume "admit_client c su bots av rm i (u, name) w = (w1, Inl ''server_full'')" "live w1 = live w"
    then show ?thesis using ad admit_full [of c su bots av rm i u name w w1] by simp
  next
    fix w1
    assume a: "admit_client c su bots av rm i (u, name) w = (w1, Inr (next_ref w))" "rooms_inv w1"
      "live w1 = mput u (next_ref w) (live w)" "s_username (heap w1 (next_ref w)) = name"
    then have "s_uuid (heap w1 (next_ref w)) = u" using wf_net_live [OF rooms_invD(1), of w1 u] by simp
    moreover obtain h canonical where "fr = HelloFrame h" "hl_protocol h = 0 \<or> hl_protocol h = protocol_version"
      "normalize_client_uuid (hl_uuid h) = Inr canonical" "u = map char_of canonical"
      "normalize_username (hl_username h) (fst (username_limits (cfg w))) (snd (username_limits (cfg w))) = Inr name"
      "\<not> is_banned (clock (cx_env c)) (acc w) u"
      "cfg_string (cfg w) KeyServerPassword = [] \<or> hl_password h = cfg_string (cfg w) KeyServerPassword"
      "\<not> username_taken (cx_lower c) w name u"
      by (rule admitted_hello [OF ch])
    ultimately show ?thesis using ad a by auto
  qed
qed

theorem handshake_admits_witness:
  "\<exists>w' r. handshake demo_call [] [] [] [] [] demo_hello demo_start = (w', Inr r) \<and> get_session w' client_id = Some r
     \<and> s_uuid (heap w' r) = client_id"
proof -
  have g: "gate_reachable (cx_lower demo_call) demo_start" by (rule gate_reachable.start [OF starting_demo])
  have "s_uuid (heap demo_arrived 0) = client_id"
    using handshake_admits [OF g demo_arrived_facts(1)] demo_arrived_facts(2) by auto
  then show ?thesis using demo_arrived_facts(1,2) by (auto simp: get_session_def)
qed


section \<open>Rooms\<close>

text \<open>C12. Joining a room succeeds only for who holds the role it asks for and knows its password (or may do
  without), and, unless they are in it already, only while it has a place left; afterwards they are in that
  room, listed there and nowhere else. A refused join changes nothing at all.\<close>

theorem room_entry:
  assumes "gate_reachable lower w" "get_session w (s_uuid (heap w r)) = Some r" "join_room now r i pw w = (w', res)"
  shows "(case res of
      Inl _ \<Rightarrow> w' = w
    | Inr j \<Rightarrow> j = i \<and> (\<exists>room. get_room w i = Some room
        \<and> (rd_required_role (rm_def room) = [] \<or> can_enter_restricted (acc w) (s_uuid (heap w r)) (rd_required_role (rm_def room)))
        \<and> (rd_password (rm_def room) = [] \<or> can_bypass_password (acc w) (s_uuid (heap w r)) \<or> rd_password (rm_def room) = pw)
        \<and> (s_room (heap w r) = i \<or> rd_capacity (rm_def room) \<le> 0
            \<or> int (length (rm_members room)) < rd_capacity (rm_def room)))
      \<and> (\<forall>k. k = [] \<or> (member w' k (s_uuid (heap w r)) r \<longleftrightarrow> k = i)))"
proof (cases "get_room w i")
  case None
  then show ?thesis using assms(3) by (auto simp: join_room_def)
next
  case (Some room)
  show ?thesis
  proof (cases res)
    case (Inl err)
    then show ?thesis using assms(3) Some by (auto simp: join_room_def enter_room_def Let_def split: if_splits)
  next
    case (Inr j)
    have l: "mget (live w) (s_uuid (heap w r)) = Some r" using assms(2) by (simp add: get_session_def)
    note jr = join_room_room [OF assms(3) [unfolded Inr] reachable_inv(1) [OF assms(1)] l]
    have k: "member w' k (s_uuid (heap w r)) r \<longleftrightarrow> k = i" if "k \<noteq> []" for k
    proof -
      from jr have inv: "rooms_inv w'" and m: "member w' i (s_uuid (heap w r)) r" "s_room (heap w' r) = i" by auto
      then have "i \<noteq> []" using rooms_invD(3) [OF inv] by (auto simp: member_def)
      then have l': "mget (live w') (s_uuid (heap w r)) = Some r" using rooms_invD(4) [OF inv] m(1) by blast
      show ?thesis unfolding rooms_invD(4) [OF inv that] l' m(2) by blast
    qed
    have "(rd_required_role (rm_def room) = [] \<or> can_enter_restricted (acc w) (s_uuid (heap w r)) (rd_required_role (rm_def room)))
        \<and> (rd_password (rm_def room) = [] \<or> can_bypass_password (acc w) (s_uuid (heap w r)) \<or> rd_password (rm_def room) = pw)
        \<and> (s_room (heap w r) = i \<or> rd_capacity (rm_def room) \<le> 0 \<or> int (length (rm_members room)) < rd_capacity (rm_def room))"
      using assms(3) Some Inr by (auto simp: join_room_def enter_room_def Let_def split: if_splits)
    moreover have "j = i" using jr by blast
    moreover have "\<forall>k. k = [] \<or> (member w' k (s_uuid (heap w r)) r \<longleftrightarrow> k = i)" using k by blast
    ultimately show ?thesis using Inr Some by simp
  qed
qed

theorem room_entry_witness:
  "\<exists>w'. join_room 5000000000 0 hall [] demo_arrived = (w', Inr hall) \<and> member w' hall client_id 0"
proof -
  obtain w1 where j: "join_room 5000000000 0 hall [] demo_arrived = (w1, Inr hall)"
    by (rule demo_enters) simp
  have s: "get_session demo_arrived (s_uuid (heap demo_arrived 0)) = Some 0"
    using demo_step(2) by (simp add: get_session_def)
  have "hall = [] \<or> (member w1 hall client_id 0 \<longleftrightarrow> hall = hall)"
    using room_entry [OF demo_arrived_reachable s j] unfolding demo_arrived_uuid sum.case by blast
  then have "member w1 hall client_id 0" by simp
  with j show ?thesis by blast
qed

section \<open>Permissions\<close>

text \<open>What a request needs: one of the permissions listed.\<close>

fun needed :: "request \<Rightarrow> perm list" where
  "needed (RqRoomCreate _) = [perm_manage_rooms]"
| "needed (RqRoomUpdate _) = [perm_manage_rooms]"
| "needed (RqRoomDelete _) = [perm_manage_rooms]"
| "needed (RqKick _) = [perm_kick]"
| "needed (RqBan _) = [perm_ban]"
| "needed (RqUnban _) = [perm_ban]"
| "needed (RqMute _) = [perm_mute]"
| "needed (RqUnmute _) = [perm_mute]"
| "needed (RqMove _) = [perm_move_users]"
| "needed RqSanctions = [perm_ban, perm_mute]"
| "needed (RqRoleCreate _) = [perm_manage_roles]"
| "needed (RqRoleUpdate _) = [perm_manage_roles]"
| "needed (RqRoleDelete _) = [perm_manage_roles]"
| "needed (RqRoleGrant _) = [perm_manage_roles]"
| "needed (RqRoleRevoke _) = [perm_manage_roles]"
| "needed _ = []"

text \<open>C9. A client that lacks the permission a guarded request needs gets one \<open>forbidden\<close> back and
  nothing else happens: the answer is the same whatever the payload says, and whether or not its target
  exists.\<close>

theorem guarded_requests_refused:
  assumes "needed q \<noteq> []" "\<forall>p \<in> set (needed q). \<not> can (acc w) (s_uuid (heap w r)) p" "\<not> s_closed (heap w r)"
  shows "read_frame c r i q w = send_error r i forbidden w"
  using assms
  by (cases q) (simp_all add: read_frame_def handle_room_create_def handle_room_update_def handle_room_delete_def
    handle_kick_def handle_ban_def handle_mute_def handle_unban_def handle_unmute_def lift_sanction_def
    handle_move_def handle_sanctions_def Let_def handle_role_create_def handle_role_update_def
    handle_role_delete_def change_assignment_def require_def)

theorem guarded_requests_refused_witness:
  "read_frame demo_call 1 ''i'' (RqRoomDelete (Some hall)) demo_server = send_error 1 ''i'' forbidden demo_server"
proof (rule guarded_requests_refused)
  show "\<forall>p \<in> set (needed (RqRoomDelete (Some hall))). \<not> can (acc demo_server) (s_uuid (heap demo_server 1)) p"
    by (simp add: can_def perm_manage_rooms_def perm_send_messages_def perm_upload_files_def)
  show "\<not> s_closed (heap demo_server 1)" by (simp add: demo_defs)
qed simp


section \<open>Moderation\<close>

text \<open>A step that closes nobody but the sessions that are too slow to be told.\<close>

definition spares :: "server \<Rightarrow> server \<Rightarrow> bool" where
  "spares w w' \<longleftrightarrow> (\<forall>x. if s_closed (heap w x) then s_closed (heap w' x) \<and> s_reason (heap w' x) = s_reason (heap w x)
     else s_closed (heap w' x) \<longrightarrow> s_reason (heap w' x) = ReasonSlow)"

named_theorems spares_intros "operations that close slow sessions at most"

lemma spares_refl [intro!, simp]: "spares w w"
  by (simp add: spares_def)

lemma spares_trans: "spares w w1 \<Longrightarrow> spares w1 w2 \<Longrightarrow> spares w w2"
  unfolding spares_def by metis

lemma push_spares:
  "s_closed s \<Longrightarrow> push f s = s" "s_closed (push f s) \<Longrightarrow> \<not> s_closed s \<Longrightarrow> s_reason (push f s) = ReasonSlow"
  by (auto simp: push_def close_with_def split: if_splits)

lemma push_all_spares:
  "\<not> s_closed (h x) \<Longrightarrow> s_closed (push_all skip f rs h x) \<Longrightarrow> s_reason (push_all skip f rs h x) = ReasonSlow"
proof (induction rs arbitrary: h)
  case (Cons a rs)
  let ?h = "if skip a then h else on_heap a (push f) h"
  have e: "push_all skip f (a # rs) h = push_all skip f rs ?h" by (simp add: push_all_def)
  show ?case
  proof (cases "s_closed (?h x)")
    case True
    then have "s_reason (?h x) = ReasonSlow"
      using Cons.prems(1) push_spares by (auto simp: on_heap_apply split: if_splits)
    with True show ?thesis unfolding e by (simp add: push_all_closed)
  qed (use Cons.IH [of ?h] Cons.prems(2) e in simp)
qed (simp add: push_all_def)

lemma spares_ops [spares_intros]:
  "spares w w1 \<Longrightarrow> spares w (send_message r ty i p w1)" "spares w w1 \<Longrightarrow> spares w (broadcast_except ty p ex w1)"
  "spares w w1 \<Longrightarrow> spares w (set_acc a w1)" "spares w w1 \<Longrightarrow> spares w (w1\<lparr>hooks := hs\<rparr>)"
proof -
  have "spares w1 (send_message r ty i p w1)" for w1
    by (auto simp: spares_def send_message_def send_def heap_at_session push_spares)
  then show "spares w w1 \<Longrightarrow> spares w (send_message r ty i p w1)" by (blast intro: spares_trans)
  have "spares w1 (broadcast_except ty p ex w1)" for w1
    by (auto simp: spares_def broadcast_except_def push_all_spares push_all_closed)
  then show "spares w w1 \<Longrightarrow> spares w (broadcast_except ty p ex w1)" by (blast intro: spares_trans)
qed (simp_all add: spares_def set_acc_def)

lemma spares_kick_parts [spares_intros]:
  "spares w w1 \<Longrightarrow> spares w (log_action e r act t n d w1)" "spares w w1 \<Longrightarrow> spares w (drop_from_media v w1)"
  "spares w w1 \<Longrightarrow> spares w (tell ty ev r v w1)" "spares w w1 \<Longrightarrow> spares w (send_error r i code w1)"
  by (simp_all add: log_action_def drop_from_media_def tell_def send_error_def spares_intros)

definition kick_target :: "sref \<Rightarrow> admin_target option \<Rightarrow> server \<Rightarrow> sref option" where
  "kick_target r p w =
     (case p of None \<Rightarrow> None
      | Some q \<Rightarrow>
          (case get_session w (at_uuid q) of None \<Rightarrow> None
           | Some v \<Rightarrow>
               if can (acc w) (s_uuid (heap w r)) perm_kick \<and> s_uuid (heap w v) \<noteq> s_uuid (heap w r)
                   \<and> priority (acc w) (s_uuid (heap w v)) < priority (acc w) (s_uuid (heap w r))
                 then Some v else None))"

text \<open>C8. A kick throws out the user it names and nobody else, and only when the sender may kick and ranks
  strictly above them; the victim is always disconnected, and by the end of it no session is left open for
  them. Nobody can kick themselves.\<close>

theorem kick_hits_its_target:
  assumes "w' = dispatch c r i (RqKick p) w"
  shows "(case kick_target r p w of None \<Rightarrow> True | Some v \<Rightarrow> s_closed (heap w' v))
    \<and> (s_closed (heap w' x) \<longrightarrow> s_closed (heap w x) \<or> s_reason (heap w' x) = ReasonSlow
        \<or> kick_target r p w = Some x \<and> s_reason (heap w' x) = ReasonKicked)"
proof (cases "kick_target r p w")
  case None
  then have "\<exists>code. w' = send_error r i code w"
    unfolding assms
    by (auto simp: kick_target_def handle_kick_def require_def with_target_def decoded_def outranks_or_equal_def
        split: option.splits if_splits)
  then obtain code where "w' = send_error r i code w" by blast
  then have "spares w w'" by (simp add: spares_intros)
  then have "s_closed (heap w' x) \<longrightarrow> s_closed (heap w x) \<or> s_reason (heap w' x) = ReasonSlow"
    unfolding spares_def by metis
  with None show ?thesis by simp
next
  case (Some v)
  then obtain q where q: "p = Some q" "get_session w (at_uuid q) = Some v"
    and ok: "can (acc w) (s_uuid (heap w r)) perm_kick" "s_uuid (heap w v) \<noteq> s_uuid (heap w r)"
      "priority (acc w) (s_uuid (heap w v)) < priority (acc w) (s_uuid (heap w r))"
    by (auto simp: kick_target_def split: option.splits if_splits)
  let ?ev = "moderation_of r v (at_reason q) 0 w"
  define w1 where "w1 = tell ''user.kicked'' ?ev r v (drop_from_media v w)"
  define w2 where "w2 = close_session v ReasonKicked w1"
  have s1: "spares w w1" unfolding w1_def by (intro spares_intros spares_refl)
  have w': "w' = send_message r ''admin.ok'' i (PModeration ?ev) (log_action (cx_env c) r ''kick'' (s_uuid (heap w2 v))
      (s_username (heap w2 v)) (at_reason q) w2)"
    using assms q ok
    by (simp add: handle_kick_def require_def with_target_def decoded_def outranks_or_equal_def Let_def w2_def w1_def)
  then have s2: "spares w2 w'" by (simp add: spares_intros)
  have h2: "heap w2 x = (if x = v then close_with ReasonKicked (heap w1 v) else heap w1 x)" for x
    by (simp add: w2_def close_session_def heap_at_session)
  have c2: "s_closed (heap w2 v)" by (simp add: h2)
  then have "s_closed (heap w' v)" using s2 unfolding spares_def by metis
  moreover have "s_closed (heap w x) \<or> s_reason (heap w' x) = ReasonSlow \<or> x = v \<and> s_reason (heap w' x) = ReasonKicked"
    if "s_closed (heap w' x)"
  proof (cases "s_closed (heap w2 x)")
    case False
    then show ?thesis using s2 that unfolding spares_def by metis
  next
    case c: True
    then have r: "s_reason (heap w' x) = s_reason (heap w2 x)" using s2 unfolding spares_def by metis
    show ?thesis
    proof (cases "s_closed (heap w1 x)")
      case True
      then have "heap w2 x = heap w1 x" by (auto simp: h2 close_with_def)
      then show ?thesis using s1 True r unfolding spares_def by metis
    next
      case False
      then have "x = v" using c h2 by (auto split: if_splits)
      then show ?thesis using False r by (simp add: h2 close_with_def)
    qed
  qed
  ultimately show ?thesis using Some by auto
qed

lemma demo_store: "t_sanctions (store demo_acc) = []"
  by (simp add: demo_acc_def empty_db_def)

lemma demo_ranks [simp]: "priority demo_acc ''ann'' = 1000" "priority demo_acc ''bob'' = 0"
  by (simp_all add: priority_def roles_of_def granted_def demo_acc_def demo_role_def mget2_def
    role_id_admin_def role_id_default_def)

theorem kick_hits_its_target_witness:
  "s_closed (heap (dispatch demo_call 0 [] (RqKick (Some \<lparr>at_uuid = ''bob'', at_reason = [], at_duration = 0\<rparr>)) demo_server) 1)"
proof -
  let ?q = "\<lparr>at_uuid = ''bob'', at_reason = [], at_duration = 0\<rparr>"
  have "can demo_acc ''ann'' perm_kick" by (simp add: can_def perm_defs everything_def all_perms_def)
  then have "kick_target 0 (Some ?q) demo_server = Some 1"
    by (simp add: kick_target_def get_session_def)
  then show ?thesis
    using kick_hits_its_target [OF refl, where r = 0 and p = "Some ?q" and w = demo_server and c = demo_call and i = "[]"] by simp
qed


lemma sanctions_ops [simp]:
  "sanctions (acc (log_action e r act t n d w)) = sanctions (acc w)" "acc (send_message r ty i p w) = acc w"
  "acc (close_session v reason w) = acc w" "acc (tell ty ev r v w) = acc w" "acc (drop_from_media v w) = acc w"
  "acc (set_acc a w) = a"
  by (simp_all add: log_action_def set_acc_def log_mod_def tell_def broadcast_except_def drop_from_media_def
    send_message_def close_session_def split: sum.split)

text \<open>The length of a ban is multiplied into nanoseconds on 64 bits: a ban for 18446744074 seconds, 584
  years, is accepted and is over within the second.\<close>

theorem ban_of_584_years_ends_at_once:
  "duration 18446744074 = 290448384
   \<and> (let req = \<lparr>at_uuid = ''bob'', at_reason = [], at_duration = 18446744074\<rparr>;
          w = dispatch demo_call 0 [] (RqBan (Some req)) demo_server in
      sanctions (acc w) \<noteq> [] \<and> \<not> is_banned (clock (cx_env demo_call) + 1000000000) (acc w) ''bob'')"
proof -
  have d: "duration 18446744074 = 290448384" by (simp add: duration_def)
  have "can demo_acc ''ann'' perm_ban" by (simp add: can_def perm_defs everything_def all_perms_def)
  moreover obtain a s where b: "ban (quiet_env ''s'' 5000000000) ''ann'' ''bob'' (s_username (heap demo_server (Suc 0))) []
      290448384 demo_acc = (a, Inr s)"
    by (simp add: ban_def apply_sanction_def outranks_or_equal_def Let_def db_put_sanction_def demo_store)
  moreover have "\<exists>row. mget2 (sanctions a) ''bob'' sanction_ban = Some row \<and> sn_expires_at row = 5"
    using b by (auto simp: ban_def apply_sanction_def Let_def unix_def split: if_splits sum.splits)
  ultimately show ?thesis using d
    by (auto simp: handle_ban_def require_def with_target_def decoded_def get_session_def Let_def is_banned_def
        ban_of_def active_sanction_def sanction_of_def active_def unix_def mget2_def)
qed


text \<open>A server where Bob may manage roles but ranks far below Ann.\<close>

definition low_roles :: "role list" where
  "low_roles = [demo_role role_id_admin 1000 everything,
     demo_role role_id_default 0 (perm_send_messages OR perm_upload_files), demo_role ''low'' 10 perm_manage_roles]"

definition low_acc :: access where
  "low_acc = \<lparr>store = empty_db\<lparr>t_roles := low_roles\<rparr>, roles = map (\<lambda>x. (role_id x, x)) low_roles,
     assignments = [(''ann'', [(role_id_admin, True)]), (''bob'', [(''low'', True)])], sanctions = []\<rparr>"

definition strip_admin :: wire_role_spec where
  "strip_admin = \<lparr>ws_role_id = role_id_admin, ws_name = None, ws_permissions = Some [], ws_priority = None,
     ws_color = None, ws_tag_style = None\<rparr>"

lemma low_acc_facts:
  "priority low_acc ''ann'' = 1000" "priority low_acc ''bob'' = 10" "can low_acc ''ann'' perm_ban"
  "can low_acc ''bob'' perm_manage_roles"
  by (simp_all add: priority_def roles_of_def granted_def low_acc_def low_roles_def demo_role_def mget2_def
    role_id_admin_def role_id_default_def can_def permissions_def)
    (simp_all add: perm_defs everything_def all_perms_def)

lemma acc_ops [simp]: "acc (publish_role r i x w) = acc w" "acc (refresh_roles c w) = acc w"
proof -
  show "acc (publish_role r i x w) = acc w" by (simp add: publish_role_def send_message_def)
  have "acc (fold (apply_roles c) rs w) = acc w" for rs
    by (induction rs arbitrary: w) (simp_all add: apply_roles_def Let_def set_muted_def set_roles_def)
  then show "acc (refresh_roles c w) = acc w" by (simp add: refresh_roles_def)
qed

lemma strip_admin_applies:
  assumes "\<not> fails e UpdateRole"
  obtains a x where "update_role e role_id_admin (decode_spec strip_admin) low_acc = (a, Inr x)"
    "\<not> can a ''ann'' perm_ban"
proof -
  let ?x = "(demo_role role_id_admin 1000 everything)\<lparr>role_permissions := 0\<rparr>"
  let ?a = "fst (update_role e role_id_admin (decode_spec strip_admin) low_acc)"
  have sp: "apply_spec (decode_spec strip_admin) (demo_role role_id_admin 1000 everything) = ?x"
    by (simp add: apply_spec_def decode_spec_def strip_admin_def perm_mask_def demo_role_def)
  have n: "sp_name (decode_spec strip_admin) = None" by (simp add: decode_spec_def strip_admin_def)
  have g: "mget (roles low_acc) role_id_admin = Some (demo_role role_id_admin 1000 everything)"
    by (simp add: low_acc_def low_roles_def demo_role_def)
  have r: "(demo_role role_id_admin 1000 everything)\<lparr>role_name := role_name (demo_role role_id_admin 1000 everything)\<rparr>
      = demo_role role_id_admin 1000 everything" by simp
  obtain d where d: "db_update_role e ?x (store low_acc) = Inr d"
    using assms by (simp add: db_update_role_def low_acc_def low_roles_def demo_role_def nocase_def runes_def
      role_id_admin_def role_id_default_def)
  have u: "update_role e role_id_admin (decode_spec strip_admin) low_acc
      = (low_acc\<lparr>store := d, roles := mput role_id_admin ?x (roles low_acc)\<rparr>, Inr ?x)"
    by (simp add: update_role_def g n sp d Let_def)
  have "\<not> can (low_acc\<lparr>store := d, roles := mput role_id_admin ?x (roles low_acc)\<rparr>) ''ann'' perm_ban"
    by (simp add: can_def permissions_def roles_of_def granted_def low_acc_def low_roles_def demo_role_def mget2_def
      role_id_admin_def role_id_default_def) (simp add: perm_defs)
  with u show ?thesis by (rule that)
qed

text \<open>Editing a role is checked against what the edit asks for, never against the rank of the role that
  is edited: a user who may manage roles but ranks below the administrators takes every permission away
  from the administrators' role.\<close>

theorem low_rank_strips_administrators:
  "let w = demo_server\<lparr>acc := low_acc\<rparr>; w' = dispatch demo_call 1 [] (RqRoleUpdate (Some strip_admin)) w in
     priority (acc w) ''bob'' < priority (acc w) ''ann'' \<and> can (acc w) ''ann'' perm_ban \<and> \<not> can (acc w') ''ann'' perm_ban"
proof -
  obtain a x where a: "update_role (quiet_env ''s'' 5000000000) role_id_admin (decode_spec strip_admin) low_acc = (a, Inr x)"
    "\<not> can a ''ann'' perm_ban"
    by (rule strip_admin_applies [of "quiet_env ''s'' 5000000000"]) simp
  have "role_within_reach (demo_server\<lparr>acc := low_acc\<rparr>) ''bob'' (decode_spec strip_admin) = None"
    by (simp add: role_within_reach_def decode_spec_def strip_admin_def perm_mask_def)
  moreover have r: "ws_role_id strip_admin = role_id_admin" by (simp add: strip_admin_def)
  ultimately show ?thesis
    using a low_acc_facts
    by (simp add: handle_role_update_def require_def decoded_def r)
qed


section \<open>Who hears of it\<close>

text \<open>The requests about the content of a room.\<close>

fun room_local :: "request \<Rightarrow> bool" where
  "room_local (RqChatSend _) = True"
| "room_local (RqChatHistory _) = True"
| "room_local (RqChatEdit _) = True"
| "room_local (RqChatDelete _) = True"
| "room_local (RqChatTyping _) = True"
| "room_local (RqPaintBegin _) = True"
| "room_local (RqPaintAppend _) = True"
| "room_local (RqPaintEnd _) = True"
| "room_local RqPaintUndo = True"
| "room_local (RqPaintClear _) = True"
| "room_local RqPaintState = True"
| "room_local _ = False"

definition quiet_for :: "sref \<Rightarrow> server \<Rightarrow> server \<Rightarrow> bool" where
  "quiet_for x w w' \<longleftrightarrow> heap w' x = heap w x \<and> core w' = core w"

named_theorems quiet_intros "operations a session outside the room hears nothing of"

lemma quiet_refl [intro!, simp]: "quiet_for x w w"
  by (simp add: quiet_for_def)

lemma quiet_send [quiet_intros]:
  "x \<noteq> r \<Longrightarrow> quiet_for x w w1 \<Longrightarrow> quiet_for x w (send_message r ty i p w1)"
  "x \<noteq> r \<Longrightarrow> quiet_for x w w1 \<Longrightarrow> quiet_for x w (send_error r i code w1)"
  by (simp_all add: quiet_for_def send_error_def send_message_def send_def heap_at_session)

lemma quiet_fields [quiet_intros]:
  "quiet_for x w w1 \<Longrightarrow> quiet_for x w (w1\<lparr>buffers := b\<rparr>)" "quiet_for x w w1 \<Longrightarrow> quiet_for x w (w1\<lparr>boards := d\<rparr>)"
  "quiet_for x w w1 \<Longrightarrow> quiet_for x w (w1\<lparr>send_rate := t\<rparr>)" "quiet_for x w w1 \<Longrightarrow> quiet_for x w (w1\<lparr>type_rate := t\<rparr>)"
  "quiet_for x w w1 \<Longrightarrow> quiet_for x w (w1\<lparr>draw_rate := t\<rparr>)"
  "quiet_for x w w1 \<Longrightarrow> quiet_for x w (add_ephemeral i e w1)"
  by (simp_all add: quiet_for_def add_ephemeral_def core_on_room_same)

definition outsider :: "sref \<Rightarrow> string \<Rightarrow> server \<Rightarrow> bool" where
  "outsider x i w \<longleftrightarrow> (\<forall>d ms. core w i = Some (d, ms) \<longrightarrow> x \<notin> snd ` set ms)"

lemma quiet_room_broadcast [quiet_intros]:
  assumes "outsider x i w" "quiet_for x w w1"
  shows "quiet_for x w (room_broadcast i ty p ex w1)"
proof (cases "get_room w1 i")
  case (Some room)
  then have "core w i = Some (rm_def room, rm_members room)" using assms(2) by (metis core_Some quiet_for_def)
  then have "x \<notin> snd ` set (rm_members room)" using assms(1) by (simp add: outsider_def)
  then show ?thesis using Some assms(2) by (simp add: room_broadcast_def quiet_for_def push_all_other)
qed (use assms in \<open>simp add: room_broadcast_def\<close>)

lemma quiet_buffer_for [quiet_intros]: "quiet_for x w w1 \<Longrightarrow> quiet_for x w (buffer_for i w1)"
  by (simp add: buffer_for_def quiet_intros)

lemma quiet_board_for [quiet_intros]: "quiet_for x w w1 \<Longrightarrow> quiet_for x w (board_for i w1)"
  by (simp add: board_for_def quiet_intros)

lemma quiet_on [quiet_intros]:
  "quiet_for x w w1 \<Longrightarrow> quiet_for x w (fst (on_buffer i f w1))" "quiet_for x w w1 \<Longrightarrow> quiet_for x w (fst (on_board i g w1))"
  by (simp_all add: on_buffer_def on_board_def Let_def quiet_intros split: prod.split)

lemma quiet_allow [quiet_intros]:
  "quiet_for x w w1 \<Longrightarrow> quiet_for x w (fst (allow_send now u w1))"
  "quiet_for x w w1 \<Longrightarrow> quiet_for x w (fst (allow_typing now u w1))"
  "quiet_for x w w1 \<Longrightarrow> quiet_for x w (fst (allow_draw now u w1))"
  by (simp_all add: allow_send_def allow_typing_def allow_draw_def Let_def quiet_intros split: prod.split)

lemma quiet_on' [quiet_intros]:
  "on_buffer i f w1 = (w2, x1) \<Longrightarrow> quiet_for x w w1 \<Longrightarrow> quiet_for x w w2"
  "on_board i g w1 = (w2, x2) \<Longrightarrow> quiet_for x w w1 \<Longrightarrow> quiet_for x w w2"
  "allow_send now u w1 = (w2, b) \<Longrightarrow> quiet_for x w w1 \<Longrightarrow> quiet_for x w w2"
  "allow_typing now u w1 = (w2, b) \<Longrightarrow> quiet_for x w w1 \<Longrightarrow> quiet_for x w w2"
  "allow_draw now u w1 = (w2, b) \<Longrightarrow> quiet_for x w w1 \<Longrightarrow> quiet_for x w w2"
  using quiet_on [of x w w1] quiet_allow [of x w w1] by (metis fst_conv)+


lemma room_of_request:
  "current_room w r = Some i \<Longrightarrow> i = s_room (heap w r)" "drawable_room e r w = Inr i \<Longrightarrow> i = s_room (heap w r)"
  by (auto simp: current_room_def drawable_room_def Let_def split: if_splits option.splits)

lemma quiet_chat:
  assumes "outsider x (s_room (heap w r)) w"
  shows "chat_send_msg e r q1 w = (w', x1) \<Longrightarrow> quiet_for x w w'"
    "chat_history r q2 w = (w', x2) \<Longrightarrow> quiet_for x w w'"
    "chat_edit_msg e r q3 w = (w', x3) \<Longrightarrow> quiet_for x w w'"
    "chat_delete_msg r q4 w = (w', x4) \<Longrightarrow> quiet_for x w w'"
    "chat_typing e r q5 w = (w', x5) \<Longrightarrow> quiet_for x w w'"
  using assms
  unfolding chat_send_msg_def chat_history_def chat_edit_msg_def chat_delete_msg_def chat_typing_def Let_def
  by (auto split: option.splits if_splits sum.splits prod.splits bool.splits dest!: room_of_request
      intro!: quiet_room_broadcast intro: quiet_refl quiet_on')

lemma quiet_paint:
  assumes "outsider x (s_room (heap w r)) w"
  shows "paint_begin_stroke e r q1 w = (w', x1) \<Longrightarrow> quiet_for x w w'"
    "paint_append e r sid ps w = (w', x2) \<Longrightarrow> quiet_for x w w'"
    "paint_end e r sid w = (w', x2) \<Longrightarrow> quiet_for x w w'"
    "paint_undo e r w = (w', x4) \<Longrightarrow> quiet_for x w w'"
    "paint_clear e r sc w = (w', x5) \<Longrightarrow> quiet_for x w w'"
    "paint_state r w = (w', x6) \<Longrightarrow> quiet_for x w w'"
  using assms
  unfolding paint_begin_stroke_def paint_append_def paint_end_def paint_undo_def paint_clear_def paint_state_def Let_def
  by (auto split: option.splits if_splits sum.splits prod.splits bool.splits dest!: room_of_request
      intro!: quiet_room_broadcast intro: quiet_refl quiet_on' quiet_board_for)

lemma quiet_room_local:
  assumes "outsider x (s_room (heap w r)) w" "x \<noteq> r" "room_local q"
  shows "quiet_for x w (dispatch c r i q w)"
  using assms(2,3) quiet_chat [OF assms(1)] quiet_paint [OF assms(1)]
  by (cases q) (auto simp: decoded_def handle_chat_send_def handle_chat_history_def handle_chat_edit_def
      handle_chat_delete_def handle_chat_typing_def handle_paint_begin_def handle_paint_append_def
      handle_paint_end_def handle_paint_undo_def handle_paint_clear_def handle_paint_state_def
      intro!: quiet_send quiet_refl split: option.splits prod.splits sum.splits)

text \<open>C5. What is said and drawn in a room stays in it: a chat or paint request queues nothing for, and
  changes nothing of, any connected user but the sender and those who are in the sender's room at that
  moment.\<close>

theorem content_stays_in_room:
  assumes "gate_reachable lower w" "room_local q" "get_session w u = Some x" "x \<noteq> r"
    and "s_room (heap w x) \<noteq> s_room (heap w r) \<or> s_room (heap w x) = []"
  shows "heap (dispatch c r i q w) x = heap w x"
proof -
  have inv: "rooms_inv w" by (rule reachable_inv(1) [OF assms(1)])
  have "outsider x (s_room (heap w r)) w"
    unfolding outsider_def
  proof (intro allI impI notI)
    fix d ms
    assume c: "core w (s_room (heap w r)) = Some (d, ms)" and "x \<in> snd ` set ms"
    then obtain v where v: "(v, x) \<in> set ms" by auto
    from c obtain room where g: "get_room w (s_room (heap w r)) = Some room" "ms = rm_members room" by (auto simp: core_Some)
    then have "wf_map ms" using rooms_invD(2) [OF inv] by (auto simp: rooms_wf_def)
    then have "member w (s_room (heap w r)) v x" using v g by (auto simp: member_def wf_map_def)
    moreover have "s_room (heap w r) \<noteq> []" using g rooms_invD(3) [OF inv] by auto
    ultimately show False using rooms_invD(4) [OF inv] assms(5) by metis
  qed
  from quiet_room_local [OF this assms(4,2)] show ?thesis by (simp add: quiet_for_def)
qed


theorem content_stays_in_room_witness:
  "\<exists>w. get_session w other_id = Some 1
     \<and> heap (dispatch demo_call 0 [] (RqChatSend (Some \<lparr>cs_text = runes ''hi'', cs_sticker = []\<rparr>)) w) 1 = heap w 1"
proof -
  obtain w where w: "gate_reachable (map lower_ascii) w" "get_session w other_id = Some 1" "s_room (heap w 1) = []"
    by (rule demo_two)
  have q: "room_local (RqChatSend (Some \<lparr>cs_text = runes ''hi'', cs_sticker = []\<rparr>))" "(1::sref) \<noteq> 0" by simp_all
  show ?thesis
    by (intro exI [of _ w] conjI w(2) content_stays_in_room [OF w(1) q(1) w(2) q(2)] disjI2 w(3))
qed

end
