(* ===== verification/Gateway_Privacy.thy ===== *)
theory Gateway_Privacy
  imports Gateway_Safety
begin

text \<open>
  The promise the rooms are built on: what was said and drawn in a room is gone once the room has been
  empty for the grace period. \<open>sealed\<close> states it of one room, its chat history and its board;
  \<open>forgetful w\<close> of all of them. Frames, sanctions, roles, files and media do not touch these, so
  \<open>forgetful\<close> rewrites through them; chat and paint add content only to a room that has a member.
\<close>

section \<open>Rooms that keep nothing once empty\<close>

definition sealed :: "room option \<Rightarrow> buffer option \<Rightarrow> board option \<Rightarrow> bool" where
  "sealed room b d \<longleftrightarrow>
     (b \<noteq> None \<longrightarrow> (\<exists>x. room = Some x \<and> EphChat \<in> set (rm_ephemerals x)))
   \<and> (d \<noteq> None \<longrightarrow> (\<exists>x. room = Some x \<and> EphPaint \<in> set (rm_ephemerals x)))
   \<and> (\<forall>x. room = Some x \<and> rm_members x = [] \<and> rm_purge x = None \<longrightarrow>
        (\<forall>y. b = Some y \<longrightarrow> bf_messages y = []) \<and> (\<forall>y. d = Some y \<longrightarrow> bd_strokes y = []))"

definition forgetful :: "server \<Rightarrow> bool" where
  "forgetful w \<longleftrightarrow> cfg_bool (cfg w) KeyRoomsPurgeOnEmpty
     \<and> (\<forall>i. sealed (get_room w i) (mget (buffers w) i) (mget (boards w) i))"

lemma forgetful_cong:
  "get_room w' = get_room w \<Longrightarrow> buffers w' = buffers w \<Longrightarrow> boards w' = boards w \<Longrightarrow> cfg w' = cfg w
    \<Longrightarrow> forgetful w' = forgetful w"
  by (simp add: forgetful_def)

lemma forgetful_sessions [simp]:
  "forgetful (broadcast ty p ex w) = forgetful w" "forgetful (at_session r f w) = forgetful w"
  "forgetful (send r g w) = forgetful w"
  by (rule forgetful_cong; simp)+

lemma forgetful_net [simp]:
  "forgetful (send_message r ty i p w) = forgetful w"
  "forgetful (send_error r i code w) = forgetful w" "forgetful (close_session r reason w) = forgetful w"
  "forgetful (set_username r n w) = forgetful w" "forgetful (set_avatar r a w) = forgetful w"
  "forgetful (set_room r i w) = forgetful w" "forgetful (set_roles r ids w) = forgetful w"
  "forgetful (set_muted r b w) = forgetful w" "forgetful (set_media r m w) = forgetful w"
  by (simp_all add: send_message_def send_error_def close_session_def set_username_def set_avatar_def
    set_room_def set_roles_def set_muted_def set_media_def)

lemma forgetful_fields [simp]:
  "forgetful (w\<lparr>acc := a\<rparr>) = forgetful w" "forgetful (w\<lparr>heap := h\<rparr>) = forgetful w" "forgetful (w\<lparr>live := l\<rparr>) = forgetful w"
  "forgetful (w\<lparr>next_ref := n\<rparr>) = forgetful w" "forgetful (w\<lparr>hooks := hs\<rparr>) = forgetful w" "forgetful (w\<lparr>stores := st\<rparr>) = forgetful w"
  "forgetful (w\<lparr>disk := dk\<rparr>) = forgetful w" "forgetful (w\<lparr>tickets := t\<rparr>) = forgetful w" "forgetful (w\<lparr>grants := g\<rparr>) = forgetful w"
  "forgetful (w\<lparr>send_rate := sr\<rparr>) = forgetful w" "forgetful (w\<lparr>type_rate := tr\<rparr>) = forgetful w"
  "forgetful (w\<lparr>draw_rate := dr\<rparr>) = forgetful w"
  by (rule forgetful_cong; simp add: get_room_def fun_eq_iff)+

lemma forgetful_users [simp]:
  "forgetful (set_db d w) = forgetful w" "forgetful (set_acc a w) = forgetful w" "forgetful (set_users f w) = forgetful w"
  "forgetful (broadcast_except ty p ex w) = forgetful w" "forgetful (room_broadcast i ty p e w) = forgetful w"
  "forgetful (log_action en r act t n dt w) = forgetful w" "forgetful (sync_media u w) = forgetful w"
  "forgetful (drop_from_media v w) = forgetful w" "forgetful (tell ty ev r v w) = forgetful w"
  "forgetful (apply_roles c r w) = forgetful w" "forgetful (announce_roles c u w) = forgetful w"
  "forgetful (announce_unmute r u w) = forgetful w" "forgetful (publish_role r i x w) = forgetful w"
  "forgetful (sweep_tickets now w) = forgetful w" "forgetful (fst (alloc s w)) = forgetful w"
  by (simp_all add: set_db_def set_acc_def set_users_def broadcast_except_def room_broadcast_def log_action_def
    sync_media_def drop_from_media_def tell_def apply_roles_def announce_roles_def announce_unmute_def
    publish_role_def sweep_tickets_def alloc_def Let_def split: option.split sum.split)

lemma forgetful_refresh [simp]: "forgetful (refresh_roles c w) = forgetful w"
proof -
  have "forgetful (fold (apply_roles c) rs w) = forgetful w" for rs by (induction rs arbitrary: w) simp_all
  then show ?thesis by (simp add: refresh_roles_def)
qed

lemma forgetful_on_room:
  assumes "forgetful w" "\<And>x. get_room w i = Some x \<Longrightarrow> set (rm_ephemerals x) \<subseteq> set (rm_ephemerals (f x))"
    and "\<And>x. get_room w i = Some x \<Longrightarrow> rm_members (f x) \<noteq> [] \<or> rm_purge (f x) \<noteq> None
      \<or> rm_members x = [] \<and> rm_purge x = None"
  shows "forgetful (on_room i f w)"
  unfolding forgetful_def
proof (intro conjI allI)
  fix j
  have s: "sealed (get_room w j) (mget (buffers w) j) (mget (boards w) j)" using assms(1) by (simp add: forgetful_def)
  show "sealed (get_room (on_room i f w) j) (mget (buffers (on_room i f w)) j) (mget (boards (on_room i f w)) j)"
  proof (cases "j = i")
    case True
    then show ?thesis
      using s assms(2,3) by (cases "get_room w i") (force simp: sealed_def)+
  qed (use s in simp)
qed (use assms(1) in \<open>simp add: forgetful_def\<close>)

section \<open>Purging\<close>

lemma clear_eph_at:
  "mget (buffers (clear_eph i e w)) j = (if j = i \<and> e = EphChat then map_option buf_clear (mget (buffers w) i) else mget (buffers w) j)"
  "mget (boards (clear_eph i e w)) j = (if j = i \<and> e = EphPaint then map_option board_clear_all (mget (boards w) i) else mget (boards w) j)"
  by (cases e; simp add: clear_eph_def split: option.split)+

lemma clear_content_at:
  "mget (buffers (clear_content i room w)) j =
     (if j = i \<and> EphChat \<in> set (rm_ephemerals room) then map_option buf_clear (mget (buffers w) i) else mget (buffers w) j)"
  "mget (boards (clear_content i room w)) j =
     (if j = i \<and> EphPaint \<in> set (rm_ephemerals room) then map_option board_clear_all (mget (boards w) i) else mget (boards w) j)"
proof -
  have idem: "buf_clear (buf_clear b) = buf_clear b" "board_clear_all (board_clear_all d) = board_clear_all d" for b d
    by (simp_all add: buf_clear_def board_clear_all_def)
  have "mget (buffers (fold (clear_eph i) es w)) j =
     (if j = i \<and> EphChat \<in> set es then map_option buf_clear (mget (buffers w) i) else mget (buffers w) j)
   \<and> mget (boards (fold (clear_eph i) es w)) j =
     (if j = i \<and> EphPaint \<in> set es then map_option board_clear_all (mget (boards w) i) else mget (boards w) j)" for es
    by (induction es arbitrary: w) (auto simp: clear_eph_at idem option.map_comp comp_def)
  then show
    "mget (buffers (clear_content i room w)) j =
     (if j = i \<and> EphChat \<in> set (rm_ephemerals room) then map_option buf_clear (mget (buffers w) i) else mget (buffers w) j)"
    "mget (boards (clear_content i room w)) j =
     (if j = i \<and> EphPaint \<in> set (rm_ephemerals room) then map_option board_clear_all (mget (boards w) i) else mget (boards w) j)"
    by (simp_all add: clear_content_def)
qed

lemma sealed_cleared:
  assumes "sealed (Some x) b d" "set (rm_ephemerals x) \<subseteq> set (rm_ephemerals y)"
  shows "sealed (Some y) (if EphChat \<in> set (rm_ephemerals x) then map_option buf_clear b else b)
    (if EphPaint \<in> set (rm_ephemerals x) then map_option board_clear_all d else d)"
  using assms by (cases b; cases d) (auto simp: sealed_def buf_clear_def board_clear_all_def)

text \<open>A purge seals a room whatever was pending for it.\<close>

lemma forgetful_purge_pending:
  assumes p: "forgetful (on_room i (\<lambda>r. r\<lparr>rm_purge := Some t\<rparr>) w)"
  shows "forgetful (purge i w)"
proof (cases "get_room w i")
  case None
  then have "get_room (on_room i (\<lambda>r. r\<lparr>rm_purge := Some t\<rparr>) w) = get_room w" by (simp add: fun_eq_iff)
  then show ?thesis using p None by (simp add: purge_def forgetful_def)
next
  case (Some x)
  let ?w1 = "on_room i (\<lambda>r. r\<lparr>rm_purge := None\<rparr>) w"
  have sj: "sealed (get_room (on_room i (\<lambda>r. r\<lparr>rm_purge := Some t\<rparr>) w) j) (mget (buffers w) j) (mget (boards w) j)" for j
    using p unfolding forgetful_def on_room_frame by blast
  have o: "sealed (get_room w j) (mget (buffers w) j) (mget (boards w) j)" if "j \<noteq> i" for j
    using sj [of j] that by simp
  have s: "sealed (Some (x\<lparr>rm_purge := Some t\<rparr>)) (mget (buffers w) i) (mget (boards w) i)"
    using sj [of i] Some by simp
  have flag: "cfg_bool (cfg w) KeyRoomsPurgeOnEmpty" using p by (simp add: forgetful_def)
  show ?thesis
  proof (cases "rm_members x = []")
    case False
    then have "sealed (Some (x\<lparr>rm_purge := None\<rparr>)) (mget (buffers w) i) (mget (boards w) i)"
      using s by (simp add: sealed_def)
    then have "forgetful ?w1" using o flag Some by (simp add: forgetful_def)
    with False Some show ?thesis by (simp add: purge_def Let_def)
  next
    case True
    have "sealed (get_room (clear_content i x ?w1) j) (mget (buffers (clear_content i x ?w1)) j)
        (mget (boards (clear_content i x ?w1)) j)" for j
    proof (cases "j = i")
      case True
      then show ?thesis using sealed_cleared [OF s, of "x\<lparr>rm_purge := None\<rparr>"] Some by (simp add: clear_content_at split: if_splits)
    qed (use o in \<open>simp add: clear_content_at\<close>)
    then have "forgetful (clear_content i x ?w1)" using flag by (simp add: forgetful_def)
    with True Some show ?thesis by (simp add: purge_def Let_def)
  qed
qed

lemma forgetful_purge: "forgetful w \<Longrightarrow> forgetful (purge i w)"
  by (rule forgetful_purge_pending [where t = 0]) (rule forgetful_on_room; simp)

lemma forgetful_leave_room:
  assumes "forgetful w"
  shows "forgetful (leave_room now r i reason w)"
proof (cases "get_room w i")
  case (Some x)
  let ?u = "s_uuid (heap w r)"
  show ?thesis
  proof (cases "mget (rm_members x) ?u")
    case None
    with Some assms show ?thesis by (simp add: leave_room_def)
  next
    case (Some y)
    let ?w1 = "on_room i (\<lambda>x. x\<lparr>rm_members := mdel ?u (rm_members x)\<rparr>) w"
    define w5 where "w5 = (let w2 = (if s_room (heap ?w1 r) = i then set_room r [] ?w1 else ?w1);
          w3 = set_media r no_media w2;
          w4 = broadcast ''room.member_left'' (PRoomMember i (session_user w3 r) reason) ?u w3
        in w4\<lparr>hooks := hooks w4 @ [MediaDisconnect ?u i]\<rparr>)"
    have e: "leave_room now r i reason w = (if mdel ?u (rm_members x) = [] then schedule_purge now i w5 else w5)"
      using \<open>get_room w i = Some x\<close> Some by (simp add: leave_room_def Let_def w5_def)
    have r5: "get_room w5 = get_room ?w1" "buffers w5 = buffers w" "boards w5 = boards w" "cfg w5 = cfg w"
      by (auto simp: w5_def Let_def get_room_def fun_eq_iff)
    show ?thesis
    proof (cases "mdel ?u (rm_members x) = []")
      case False
      then have "forgetful ?w1" using assms \<open>get_room w i = Some x\<close> by (intro forgetful_on_room) auto
      then have "forgetful w5" by (simp add: w5_def Let_def)
      with e False show ?thesis by simp
    next
      case True
      have flag: "cfg_bool (cfg w5) KeyRoomsPurgeOnEmpty" using assms r5 by (simp add: forgetful_def)
      let ?g = "cfg_int (cfg w5) KeyRoomsPurgeGraceSec * 1000000000"
      have p: "forgetful (on_room i (\<lambda>r. r\<lparr>rm_purge := Some t\<rparr>) w5)" for t
      proof -
        have "forgetful (on_room i (\<lambda>x. x\<lparr>rm_members := mdel ?u (rm_members x), rm_purge := Some t\<rparr>) w)"
          using assms by (intro forgetful_on_room) auto
        moreover have "get_room (on_room i (\<lambda>r. r\<lparr>rm_purge := Some t\<rparr>) w5)
            = get_room (on_room i (\<lambda>x. x\<lparr>rm_members := mdel ?u (rm_members x), rm_purge := Some t\<rparr>) w)"
          by (simp add: fun_eq_iff r5(1) option.map_comp comp_def)
        ultimately show ?thesis by (simp add: forgetful_def r5)
      qed
      then have "forgetful (purge i w5)" by (rule forgetful_purge_pending)
      then show ?thesis using e True p flag by (simp add: schedule_purge_def Let_def)
    qed
  qed
qed (use assms in \<open>simp add: leave_room_def\<close>)


section \<open>The operations of the room manager\<close>

lemma forgetful_enter: "forgetful w \<Longrightarrow> forgetful (fst (enter_room now r i ign reason w))"
proof -
  assume p: "forgetful w"
  have "forgetful (on_room i (\<lambda>x. x\<lparr>rm_purge := None, rm_members := mput u r (rm_members x)\<rparr>) w)" for u
    by (rule forgetful_on_room [OF p]) (simp_all add: update_nonempty)
  then show ?thesis
    using p by (simp add: enter_room_def Let_def forgetful_leave_room split: option.split)
qed

lemma forgetful_join: "forgetful w \<Longrightarrow> forgetful (fst (join_room now r i pw w))"
  by (simp add: join_room_def Let_def forgetful_enter split: option.split)

lemma forgetful_force: "forgetful w \<Longrightarrow> forgetful (fst (force_room now r i w))"
  by (simp add: force_room_def forgetful_enter split: option.split)

lemma forgetful_leave: "forgetful w \<Longrightarrow> forgetful (fst (leave now r w))"
  by (simp add: leave_def Let_def forgetful_leave_room)

lemma forgetful_disconnect: "forgetful w \<Longrightarrow> forgetful (disconnect now r w)"
  by (simp add: disconnect_def Let_def forgetful_leave_room)

lemma forgetful_transfer: "forgetful w \<Longrightarrow> forgetful (fst (transfer_membership old new w))"
proof -
  assume p: "forgetful w"
  have "forgetful (on_room i (\<lambda>x. x\<lparr>rm_members := mput u new (rm_members x), rm_purge := None\<rparr>) w)" for i u
    by (rule forgetful_on_room [OF p]) (simp_all add: update_nonempty)
  then show ?thesis using p by (simp add: transfer_membership_def Let_def split: option.split)
qed

lemma sealed_absent: "forgetful w \<Longrightarrow> get_room w i = None \<Longrightarrow> mget (buffers w) i = None \<and> mget (boards w) i = None"
  unfolding forgetful_def sealed_def by (metis option.distinct(1))

lemma forgetful_add_room:
  assumes "forgetful w" "get_room w i = None"
  shows "forgetful (w\<lparr>rooms := mput i (new_room d) (rooms w)\<rparr>)"
proof -
  have g: "get_room (w\<lparr>rooms := mput i (new_room d) (rooms w)\<rparr>) j = (if j = i then Some (new_room d) else get_room w j)" for j
    by (simp add: get_room_def)
  show ?thesis
    unfolding forgetful_def g using assms sealed_absent [OF assms] by (auto simp: forgetful_def sealed_def)
qed

lemma forgetful_create:
  assumes "forgetful w" "fresh e w"
  shows "forgetful (fst (create_room e lower actor q w))"
proof (cases rule: create_room_cases [of e lower actor q w])
  case (created d db' p)
  have "get_room (set_db db' w) (rd_id d) = None" using created assms(2) by (simp add: fresh_def)
  then have "forgetful ((set_db db' w)\<lparr>rooms := mput (rd_id d) (new_room d) (rooms (set_db db' w))\<rparr>)"
    using assms(1) by (intro forgetful_add_room) simp_all
  with created show ?thesis by simp
qed (use assms in simp)

lemma forgetful_update: "forgetful w \<Longrightarrow> forgetful (fst (update_room e lower actor q w))"
proof -
  assume p: "forgetful w"
  have "forgetful (on_room i (\<lambda>r. r\<lparr>rm_def := d\<rparr>) (set_db d' w))" for i d d'
    by (rule forgetful_on_room) (use p in auto)
  with p show ?thesis
    by (auto simp: update_room_def Let_def split: option.split sum.split store_error.split)
qed

lemma on_delete_at:
  "mget (buffers (on_delete i w)) j = (if j = i then None else mget (buffers w) j)"
  "mget (boards (on_delete i w)) j = (if j = i then None else mget (boards w) j)"
  by (simp_all add: on_delete_def Let_def split: option.split)

lemma eject_content: "buffers (fold (eject i b) ms w) = buffers w" "boards (fold (eject i b) ms w) = boards w"
  by (induction ms arbitrary: w) (simp_all add: eject_def Let_def send_message_def)

lemma forgetful_delete: "forgetful w \<Longrightarrow> forgetful (fst (delete_room e actor i w))"
proof -
  assume p: "forgetful w"
  have "forgetful (clear_content i room (fold (eject i False) ms (on_delete i ((set_db d w)\<lparr>rooms := mdel i (rooms (set_db d w))\<rparr>))))"
    (is "forgetful (clear_content i room (fold _ ms ?w1))") for room ms d
  proof -
    have g: "get_room ?w1 j = (if j = i then None else get_room w j)" for j
      by (simp add: get_room_def set_db_def)
    have b: "mget (buffers (clear_content i room (fold (eject i False) ms ?w1))) j = (if j = i then None else mget (buffers w) j)"
      "mget (boards (clear_content i room (fold (eject i False) ms ?w1))) j = (if j = i then None else mget (boards w) j)" for j
      by (simp_all add: clear_content_at eject_content on_delete_at set_db_def)
    have cf: "cfg (set_db d w) = cfg w" by (simp add: set_db_def)
    have "sealed (if j = i then None else get_room w j) (if j = i then None else mget (buffers w) j)
        (if j = i then None else mget (boards w) j)" for j
      using p by (auto simp: forgetful_def sealed_def)
    moreover have "cfg_bool (cfg w) KeyRoomsPurgeOnEmpty" using p by (simp add: forgetful_def)
    ultimately show ?thesis
      unfolding forgetful_def b by (simp only: clear_content_frame fold_eject g) (simp add: cf)
  qed
  with p show ?thesis
    by (auto simp: delete_room_def Let_def split: option.split sum.split store_error.split)
qed


lemma sealed_redefine: "sealed (Some (x\<lparr>rm_def := d\<rparr>)) b e = sealed (Some x) b e"
  by (simp add: sealed_def)

lemma announce_content [simp]:
  "buffers (fold (announce_room lower ty) js w) = buffers w" "boards (fold (announce_room lower ty) js w) = boards w"
  by (induction js arbitrary: w) (simp_all add: announce_room_def split: option.split)

lemma drop_removed_at:
  "mget (buffers (fold drop_removed irs w)) j = (if j \<in> fst ` set irs then None else mget (buffers w) j)"
  "mget (boards (fold drop_removed irs w)) j = (if j \<in> fst ` set irs then None else mget (boards w) j)"
  by (induction irs arbitrary: w)
    (auto simp: drop_removed_def evict_def on_delete_at clear_content_at eject_content)

lemma forgetful_reload:
  assumes inv: "rooms_inv w" and ids: "\<forall>d \<in> set (t_rooms (db_of w)). rd_id d \<noteq> []" and p: "forgetful w"
  shows "forgetful (fst (reload_rooms e lower w))"
proof (cases "db_list_rooms e (db_of w)")
  case (Inl err)
  with p show ?thesis by (simp add: reload_rooms_def)
next
  case (Inr ds)
  then have ds: "\<forall>d \<in> set ds. rd_id d \<noteq> []" using ids by (auto simp: db_list_rooms_def split: if_splits)
  obtain rs cr up where m: "merge_defs ds (rooms w) = (rs, cr, up)" by (metis prod_cases3)
  have wfw: "wf_map (rooms w)" "ids_ok (rooms w)"
    using rooms_invD(2) [OF inv] by (auto simp: rooms_wf_def ids_ok_def get_room_def)
  from merge_defs_members [OF m wfw(2) ds] wfw(1)
  have rs: "same_members (rooms w) rs" "wf_map rs" by auto
  define seen where "seen = (\<lambda>ir::string \<times> room. fst ir \<in> set (map rd_id ds))"
  define gone where "gone = filter (\<lambda>ir. \<not> seen ir) rs"
  define w3 where "w3 = fold (announce_room lower ''room.updated'') up
      (fold (announce_room lower ''room.created'') cr (w\<lparr>rooms := filter seen rs\<rparr>))"
  have eq: "fst (reload_rooms e lower w) = fold drop_removed gone w3"
    by (simp add: reload_rooms_def Inr m Let_def seen_def w3_def gone_def)
  have at: "case get_room w j of Some r \<Rightarrow> \<exists>d. mget rs j = Some (r\<lparr>rm_def := d\<rparr>)
        | None \<Rightarrow> (case mget rs j of None \<Rightarrow> True | Some r \<Rightarrow> \<exists>d. r = new_room d)" for j
    using rs(1) [unfolded same_members_def, THEN spec, of j] unfolding get_room_def
    by (auto split: option.splits)
  have sl: "sealed (mget rs j) (mget (buffers w) j) (mget (boards w) j)" for j
  proof (cases "get_room w j")
    case None
    then show ?thesis using sealed_absent [OF p None] by (simp add: sealed_def)
  next
    case (Some r)
    moreover from this obtain d where "mget rs j = Some (r\<lparr>rm_def := d\<rparr>)" using at [of j] by auto
    ultimately show ?thesis using p sealed_redefine unfolding forgetful_def by metis
  qed
  have "sealed (if j \<in> fst ` set gone then None else get_room w3 j) (if j \<in> fst ` set gone then None else mget (buffers w) j)
      (if j \<in> fst ` set gone then None else mget (boards w) j)" for j
  proof (cases "j \<in> fst ` set gone \<or> j \<in> set (map rd_id ds)")
    case True
    then show ?thesis using sl [of j]
      by (auto simp: w3_def get_room_def mget_filter [OF rs(2)] seen_def gone_def sealed_def split: option.splits)
  next
    case False
    then have "(j, x) \<notin> set rs" for x by (auto simp: gone_def seen_def image_iff)
    then have "mget rs j = None" by (cases "mget rs j") (auto dest: map_of_SomeD)
    then have "get_room w j = None" using at [of j] by (auto split: option.splits)
    then show ?thesis using False sealed_absent [OF p] by (auto simp: sealed_def)
  qed
  moreover have "(if j \<in> fst ` set gone then None else get_room w3 j) = get_room w3 j" for j
    by (auto simp: w3_def get_room_def mget_filter [OF rs(2)] seen_def gone_def split: option.splits)
  moreover have "get_room (fold drop_removed gone w3) = get_room w3" "buffers w3 = buffers w" "boards w3 = boards w"
    "cfg w3 = cfg w" by (simp_all add: get_room_def fun_eq_iff w3_def)
  moreover have "cfg_bool (cfg w) KeyRoomsPurgeOnEmpty" using p by (simp add: forgetful_def)
  ultimately show ?thesis
    unfolding eq forgetful_def drop_removed_at fold_drop_removed by (simp only: simp_thms)
qed


section \<open>Chat and paint\<close>

definition attended :: "string \<Rightarrow> server \<Rightarrow> bool" where
  "attended i w \<longleftrightarrow> (\<exists>x. get_room w i = Some x \<and> rm_members x \<noteq> [])"

lemma attended_core: "attended i w \<longleftrightarrow> (\<exists>d ms. core w i = Some (d, ms) \<and> ms \<noteq> [])"
  by (auto simp: attended_def core_def)

lemma sealed_attended:
  assumes "rm_members x \<noteq> []" "b \<noteq> None \<longrightarrow> EphChat \<in> set (rm_ephemerals x)" "d \<noteq> None \<longrightarrow> EphPaint \<in> set (rm_ephemerals x)"
  shows "sealed (Some x) b d"
  using assms by (auto simp: sealed_def)

lemma sealed_ephemerals:
  "sealed (Some x) b d \<Longrightarrow> (b \<noteq> None \<longrightarrow> EphChat \<in> set (rm_ephemerals x)) \<and> (d \<noteq> None \<longrightarrow> EphPaint \<in> set (rm_ephemerals x))"
  by (auto simp: sealed_def)

lemma forgetful_at:
  assumes "forgetful w" "get_room w' i = Some x'" "rm_members x' \<noteq> []"
    "mget (buffers w') i \<noteq> None \<longrightarrow> EphChat \<in> set (rm_ephemerals x')"
    "mget (boards w') i \<noteq> None \<longrightarrow> EphPaint \<in> set (rm_ephemerals x')"
    "\<And>j. j \<noteq> i \<Longrightarrow> get_room w' j = get_room w j \<and> mget (buffers w') j = mget (buffers w) j \<and> mget (boards w') j = mget (boards w) j"
    "cfg w' = cfg w"
  shows "forgetful w'"
  unfolding forgetful_def
proof (intro conjI allI)
  fix j
  show "sealed (get_room w' j) (mget (buffers w') j) (mget (boards w') j)"
    by (cases "j = i") (use assms in \<open>auto simp: forgetful_def intro!: sealed_attended\<close>)
qed (use assms in \<open>simp add: forgetful_def\<close>)

lemma forgetful_on_buffer:
  assumes p: "forgetful w" and "attended i w"
  shows "forgetful (fst (on_buffer i f w))" "core (fst (on_buffer i f w)) = core w"
proof -
  obtain x where x: "get_room w i = Some x" "rm_members x \<noteq> []" using assms(2) by (auto simp: attended_def)
  have e: "(mget (buffers w) i \<noteq> None \<longrightarrow> EphChat \<in> set (rm_ephemerals x)) \<and> (mget (boards w) i \<noteq> None \<longrightarrow> EphPaint \<in> set (rm_ephemerals x))"
    using p x sealed_ephemerals unfolding forgetful_def by metis
  obtain b where w': "fst (on_buffer i f w) = (buffer_for i w)\<lparr>buffers := mput i b (buffers (buffer_for i w))\<rparr>"
    by (simp add: on_buffer_def Let_def case_prod_beta)
  have g: "get_room (w\<lparr>buffers := bs\<rparr>) = get_room w" for w :: server and bs by (simp add: get_room_def fun_eq_iff)
  show "forgetful (fst (on_buffer i f w))"
  proof (rule forgetful_at [OF p, of _ i "if mget (buffers w) i = None then x\<lparr>rm_ephemerals := rm_ephemerals x @ [EphChat]\<rparr> else x"])
    show "get_room (fst (on_buffer i f w)) i = Some (if mget (buffers w) i = None then x\<lparr>rm_ephemerals := rm_ephemerals x @ [EphChat]\<rparr> else x)"
      using x by (simp add: w' buffer_for_def add_ephemeral_def g)
    fix j assume "j \<noteq> i"
    then show "get_room (fst (on_buffer i f w)) j = get_room w j
        \<and> mget (buffers (fst (on_buffer i f w))) j = mget (buffers w) j \<and> mget (boards (fst (on_buffer i f w))) j = mget (boards w) j"
      by (simp add: w' buffer_for_def add_ephemeral_def g)
  qed (use x e in \<open>auto simp: w' buffer_for_def add_ephemeral_def\<close>)
  show "core (fst (on_buffer i f w)) = core w"
    by (simp add: w' buffer_for_def add_ephemeral_def core_on_room_same)
qed

lemma forgetful_board_for:
  assumes p: "forgetful w" and "attended i w"
  shows "forgetful (board_for i w)" "attended i (board_for i w)"
proof -
  obtain x where x: "get_room w i = Some x" "rm_members x \<noteq> []" using assms(2) by (auto simp: attended_def)
  have e: "(mget (buffers w) i \<noteq> None \<longrightarrow> EphChat \<in> set (rm_ephemerals x)) \<and> (mget (boards w) i \<noteq> None \<longrightarrow> EphPaint \<in> set (rm_ephemerals x))"
    using p x sealed_ephemerals unfolding forgetful_def by metis
  have g: "get_room (w\<lparr>boards := bs\<rparr>) = get_room w" for bs by (simp add: get_room_def fun_eq_iff)
  show "attended i (board_for i w)"
    using assms(2) by (simp add: attended_core board_for_def add_ephemeral_def core_on_room_same)
  show "forgetful (board_for i w)"
  proof (cases "mget (boards w) i")
    case None
    show ?thesis
    proof (rule forgetful_at [OF p, of _ i "x\<lparr>rm_ephemerals := rm_ephemerals x @ [EphPaint]\<rparr>"])
      show "get_room (board_for i w) i = Some (x\<lparr>rm_ephemerals := rm_ephemerals x @ [EphPaint]\<rparr>)"
        using x None by (simp add: board_for_def add_ephemeral_def g)
      fix j assume "j \<noteq> i"
      then show "get_room (board_for i w) j = get_room w j
          \<and> mget (buffers (board_for i w)) j = mget (buffers w) j \<and> mget (boards (board_for i w)) j = mget (boards w) j"
        by (simp add: board_for_def add_ephemeral_def g)
    qed (use x e None in \<open>auto simp: board_for_def add_ephemeral_def\<close>)
  qed (use p in \<open>simp add: board_for_def\<close>)
qed

lemma forgetful_on_board:
  assumes p: "forgetful w" and a: "attended i w"
  shows "forgetful (fst (on_board i f w))"
proof -
  obtain x where x: "get_room (board_for i w) i = Some x" "rm_members x \<noteq> []"
    using forgetful_board_for(2) [OF assms] by (auto simp: attended_def)
  have e: "(mget (buffers (board_for i w)) i \<noteq> None \<longrightarrow> EphChat \<in> set (rm_ephemerals x))
      \<and> (mget (boards (board_for i w)) i \<noteq> None \<longrightarrow> EphPaint \<in> set (rm_ephemerals x))"
    using forgetful_board_for(1) [OF assms] x sealed_ephemerals unfolding forgetful_def by metis
  have b: "mget (boards (board_for i w)) i \<noteq> None" by (simp add: board_for_def add_ephemeral_def)
  obtain d where w': "fst (on_board i f w) = (board_for i w)\<lparr>boards := mput i d (boards (board_for i w))\<rparr>"
    by (simp add: on_board_def Let_def case_prod_beta)
  have g: "get_room (w\<lparr>boards := bs\<rparr>) = get_room w" for w :: server and bs by (simp add: get_room_def fun_eq_iff)
  show ?thesis
    by (rule forgetful_at [OF forgetful_board_for(1) [OF assms], of _ i x]) (use x e b in \<open>auto simp: w' g\<close>)
qed


lemma attended_frame [simp]:
  "attended i (w\<lparr>send_rate := sr\<rparr>) = attended i w" "attended i (w\<lparr>type_rate := tr\<rparr>) = attended i w"
  "attended i (w\<lparr>draw_rate := dr\<rparr>) = attended i w"
  by (simp_all add: attended_core)

lemma forgetful_allow:
  "allow_send now u w = (w1, b) \<Longrightarrow> (forgetful w \<longrightarrow> forgetful w1) \<and> (\<forall>i. attended i w \<longrightarrow> attended i w1)"
  "allow_typing now u w = (w1, b) \<Longrightarrow> (forgetful w \<longrightarrow> forgetful w1) \<and> (\<forall>i. attended i w \<longrightarrow> attended i w1)"
  "allow_draw now u w = (w1, b) \<Longrightarrow> (forgetful w \<longrightarrow> forgetful w1) \<and> (\<forall>i. attended i w \<longrightarrow> attended i w1)"
  by (auto simp: allow_send_def allow_typing_def allow_draw_def Let_def split: prod.splits)

lemma forgetful_on:
  "on_buffer i f w = (w1, x1) \<Longrightarrow> forgetful w \<Longrightarrow> attended i w \<Longrightarrow> forgetful w1"
  "on_board i g w = (w1, x2) \<Longrightarrow> forgetful w \<Longrightarrow> attended i w \<Longrightarrow> forgetful w1"
  using forgetful_on_buffer(1) [of w i f] forgetful_on_board [of w i g] by auto

text \<open>Whoever believes to be in a room is not alone in thinking so.\<close>

definition seated :: "sref \<Rightarrow> server \<Rightarrow> bool" where
  "seated r w \<longleftrightarrow> (\<forall>x. get_room w (s_room (heap w r)) = Some x \<longrightarrow> rm_members x \<noteq> [])"

lemma seated_room:
  assumes "seated r w"
  shows "\<forall>i. current_room w r = Some i \<longrightarrow> attended i w" "\<forall>i. drawable_room e r w = Inr i \<longrightarrow> attended i w"
  using assms
  by (simp_all add: seated_def attended_def current_room_def drawable_room_def Let_def split: option.splits)

lemma forgetful_chat:
  assumes "forgetful w" "seated r w"
  shows "chat_send_msg e r q1 w = (w', x1) \<Longrightarrow> forgetful w'"
    "chat_history r q2 w = (w', x2) \<Longrightarrow> forgetful w'"
    "chat_edit_msg e r q3 w = (w', x3) \<Longrightarrow> forgetful w'"
    "chat_delete_msg r q4 w = (w', x4) \<Longrightarrow> forgetful w'"
    "chat_typing e r q5 w = (w', x5) \<Longrightarrow> forgetful w'"
    "post_attachment e r att w = (w', x6) \<Longrightarrow> forgetful w'"
  using assms(1) seated_room(1) [OF assms(2)]
  unfolding chat_send_msg_def chat_history_def chat_edit_msg_def chat_delete_msg_def chat_typing_def post_attachment_def Let_def
  by (auto split: option.splits if_splits sum.splits prod.splits bool.splits dest!: forgetful_allow
      intro: forgetful_on) (blast intro: forgetful_on)


lemma forgetful_draw:
  assumes "forgetful w" "seated r w" "drawable_room e r w = Inr i"
  shows "on_board i f w = (w1, x1) \<Longrightarrow> forgetful w1"
    "allow_draw now u w = (w2, b) \<Longrightarrow> forgetful w2"
    "allow_draw now u w = (w2, b) \<Longrightarrow> on_board i g w2 = (w3, x3) \<Longrightarrow> forgetful w3"
    "forgetful (board_for i w)" "on_board i h (board_for i w) = (w4, x4) \<Longrightarrow> forgetful w4"
proof -
  have a: "attended i w" using seated_room(2) [OF assms(2)] assms(3) by blast
  show "on_board i f w = (w1, x1) \<Longrightarrow> forgetful w1" by (rule forgetful_on(2) [OF _ assms(1) a])
  show al: "allow_draw now u w = (w2, b) \<Longrightarrow> forgetful w2" using forgetful_allow(3) assms(1) by blast
  show "allow_draw now u w = (w2, b) \<Longrightarrow> on_board i g w2 = (w3, x3) \<Longrightarrow> forgetful w3"
    using al forgetful_allow(3) a by (intro forgetful_on(2) [of i g w2 w3 x3]) blast+
  show "forgetful (board_for i w)" by (rule forgetful_board_for(1) [OF assms(1) a])
  show "on_board i h (board_for i w) = (w4, x4) \<Longrightarrow> forgetful w4"
    by (rule forgetful_on(2) [OF _ forgetful_board_for [OF assms(1) a]])
qed

lemma forgetful_paint:
  assumes "forgetful w" "seated r w"
  shows "paint_begin_stroke e r q1 w = (w', x1) \<Longrightarrow> forgetful w'"
    "paint_append e r sid ps w = (w', x2) \<Longrightarrow> forgetful w'"
    "paint_end e r sid w = (w', x2) \<Longrightarrow> forgetful w'"
    "paint_undo e r w = (w', x4) \<Longrightarrow> forgetful w'"
    "paint_clear e r sc w = (w', x5) \<Longrightarrow> forgetful w'"
    "paint_state r w = (w', x6) \<Longrightarrow> forgetful w'"
proof -
  note d = forgetful_draw [OF assms]
  show "paint_begin_stroke e r q1 w = (w', x1) \<Longrightarrow> forgetful w'" "paint_append e r sid ps w = (w', x2) \<Longrightarrow> forgetful w'"
    "paint_end e r sid w = (w', x2) \<Longrightarrow> forgetful w'" "paint_undo e r w = (w', x4) \<Longrightarrow> forgetful w'"
    "paint_clear e r sc w = (w', x5) \<Longrightarrow> forgetful w'"
    unfolding paint_begin_stroke_def paint_append_def paint_end_def paint_undo_def paint_clear_def Let_def
    using assms(1) by (auto split: if_splits sum.splits option.splits prod.splits bool.splits dest: d)
  show "paint_state r w = (w', x6) \<Longrightarrow> forgetful w'"
    unfolding paint_state_def Let_def
    using assms(1) seated_room(1) [OF assms(2)] by (auto split: if_splits option.splits prod.splits intro: forgetful_on)
qed


section \<open>Nobody is seated who is not connected\<close>

definition ghostless :: "server \<Rightarrow> bool" where
  "ghostless w \<longleftrightarrow> (\<forall>r. s_room (heap w r) \<noteq> [] \<longrightarrow> mget (live w) (s_uuid (heap w r)) = Some r)"

lemma ghostless_seated:
  assumes "rooms_inv w" "ghostless w"
  shows "seated r w"
  unfolding seated_def
proof (intro allI impI)
  fix x assume g: "get_room w (s_room (heap w r)) = Some x"
  then have ne: "s_room (heap w r) \<noteq> []" using rooms_invD(3) [OF assms(1)] by auto
  then have "member w (s_room (heap w r)) (s_uuid (heap w r)) r"
    using assms(2) rooms_invD(4) [OF assms(1) ne] unfolding ghostless_def by blast
  then show "rm_members x \<noteq> []" using g by (auto simp: member_def)
qed

lemma ghostless_people:
  assumes "ghostless w" "people w w'"
    "\<And>x. s_room (heap w' x) \<noteq> [] \<Longrightarrow> s_room (heap w x) \<noteq> [] \<or> mget (live w) (s_uuid (heap w x)) = Some x"
  shows "ghostless w'"
  using assms unfolding ghostless_def people_def by metis

lemma ghostless_calm: "ghostless w \<Longrightarrow> calm w w' \<Longrightarrow> ghostless w'"
  unfolding ghostless_def calm_def by metis

lemma s_room_enter: "s_room (heap (fst (enter_room now r i ign reason w)) x) \<noteq> [] \<Longrightarrow> s_room (heap w x) \<noteq> [] \<or> x = r"
  by (auto simp: enter_room_def Let_def s_room_leave_room split: option.splits if_splits)

lemma ghostless_op:
  assumes "room_op c w w'" "ghostless w"
  shows "ghostless w'"
proof (rule ghostless_people [OF assms(2) people_op [OF assms(1)]])
  fix x assume "s_room (heap w' x) \<noteq> []"
  with assms(1) show "s_room (heap w x) \<noteq> [] \<or> mget (live w) (s_uuid (heap w x)) = Some x"
  proof (induction rule: room_op.induct)
    case (joins r now i pw)
    then show ?case using s_room_enter [of now r i False ReasonSwitchedRoom w x]
      by (auto simp: join_room_def Let_def split: option.splits if_splits)
  next
    case (moved r now i)
    then show ?case using s_room_enter [of now r i True ReasonMoved w x]
      by (auto simp: force_room_def split: option.splits)
  next
    case (leaves r now)
    then show ?case by (auto simp: leave_def Let_def s_room_leave_room split: if_splits)
  next
    case (creates u q)
    show ?case
      using creates by (cases rule: create_room_cases [of "cx_env c" "cx_lower c" u q w]) (auto simp: set_db_def)
  next
    case (updates u q)
    then show ?case
      by (auto simp: update_room_def Let_def set_db_def split: option.splits sum.splits store_error.splits)
  next
    case (deletes u i)
    then show ?case
      by (auto simp: delete_room_def Let_def s_room_fold_eject set_db_def
          split: option.splits sum.splits store_error.splits if_splits)
  qed simp
qed

lemma ghostless_reload: "ghostless w \<Longrightarrow> ghostless (fst (reload_rooms e lower w))"
  by (rule ghostless_people [OF _ people_reload])
    (auto simp: reload_rooms_def Let_def split: sum.splits prod.splits if_splits)

lemma ghostless_connect:
  assumes inv: "rooms_inv w" and g: "ghostless w" and s: "s_room s = []"
  shows "ghostless (fst (connect m s w))"
proof -
  obtain w1 r where a: "alloc s w = (w1, r)" by fastforce
  note al = alloc_server [OF a]
  have h1: "s_room (heap w1 x) \<noteq> [] \<Longrightarrow> x \<noteq> r \<and> mget (live w1) (s_uuid (heap w1 x)) = Some x" for x
    using g s al by (auto simp: ghostless_def split: if_splits)
  have hr: "heap w1 r = s" using al by simp
  let ?u = "s_uuid s"
  show ?thesis
  proof (cases "mget (live w1) ?u")
    case None
    have full: "ghostless w1" using h1 by (simp add: ghostless_def)
    have "mget (mput ?u r (live w1)) (s_uuid (heap w1 x)) = Some x" if "s_room (heap w1 x) \<noteq> []" for x
      using h1 [OF that] None by auto
    then have "ghostless (w1\<lparr>live := mput ?u r (live w1)\<rparr>)" by (simp add: ghostless_def)
    with full None hr show ?thesis by (simp add: connect_def a add_session_def Let_def)
  next
    case (Some old)
    define w2 where "w2 = (close_session old ReasonReplaced w1)\<lparr>live := mput ?u r (live w1)\<rparr>"
    have add: "add_session m r w1 = (w2, Inr (Some old))"
      using Some hr by (simp add: add_session_def Let_def w2_def)
    have h2: "s_room (heap w2 x) = s_room (heap w1 x)" "s_uuid (heap w2 x) = s_uuid (heap w1 x)"
      "live w2 = mput ?u r (live w1)" "get_room w2 = get_room w" for x
      using al by (simp_all add: w2_def close_session_def heap_at_session get_room_def fun_eq_iff)
    have conn: "fst (connect m s w) = fst (transfer_membership old r w2)" by (simp add: connect_def a add)
    have other: "x = old \<or> x \<noteq> r \<and> mget (live w2) (s_uuid (heap w2 x)) = Some x" if "s_room (heap w2 x) \<noteq> []" for x
      using h1 [of x] that Some by (auto simp: h2)
    have old: "old \<noteq> r" "s_uuid (heap w old) = ?u" "heap w1 old = heap w old"
      using Some al wf_net_live [OF rooms_invD(1) [OF inv]] by auto
    let ?p = "s_room (heap w old)"
    show ?thesis
    proof (cases "?p = []")
      case True
      have "x \<noteq> old" if "s_room (heap w2 x) \<noteq> []" for x using that True old by (auto simp: h2)
      then have "ghostless w2" using other unfolding ghostless_def by metis
      then show ?thesis using True old by (simp add: conn transfer_membership_def Let_def h2)
    next
      case False
      then obtain room where room: "get_room w ?p = Some room" "mget (rm_members room) ?u = Some old"
        using rooms_invD(4) [OF inv False, of ?u old] Some al by (auto simp: member_def)
      have tr: "fst (transfer_membership old r w2) = set_room r ?p (set_room old []
          (on_room ?p (\<lambda>x. x\<lparr>rm_members := mput ?u r (rm_members x), rm_purge := None\<rparr>) w2))"
        using False room old hr by (simp add: transfer_membership_def Let_def h2)
      show ?thesis
        unfolding conn tr ghostless_def
      proof (intro allI impI)
        fix x
        let ?w = "set_room r ?p (set_room old [] (on_room ?p (\<lambda>x. x\<lparr>rm_members := mput ?u r (rm_members x), rm_purge := None\<rparr>) w2))"
        assume "s_room (heap ?w x) \<noteq> []"
        then have "x = r \<or> x \<noteq> old \<and> s_room (heap w2 x) \<noteq> []" by (auto split: if_splits)
        then have "x = r \<or> mget (live w2) (s_uuid (heap w2 x)) = Some x" using other by blast
        moreover have "mget (live w2) (s_uuid (heap w2 r)) = Some r" using h2 hr by simp
        ultimately show "mget (live ?w) (s_uuid (heap ?w x)) = Some x" by auto
      qed
    qed
  qed
qed

lemma ghostless_hang_up:
  assumes inv: "rooms_inv w" and g: "ghostless w"
  shows "ghostless (fst (hang_up now r w))"
proof (cases "mget (live w) (s_uuid (heap w r)) = Some r")
  case False
  with g show ?thesis by (simp add: hang_up_def remove_session_def Let_def)
next
  case True
  let ?u = "s_uuid (heap w r)" and ?p = "s_room (heap w r)"
  define w1 where "w1 = w\<lparr>live := mdel ?u (live w)\<rparr>"
  have h1: "heap w1 = heap w" by (simp add: w1_def)
  have eq: "fst (hang_up now r w) = disconnect now r w1"
    using True by (simp add: hang_up_def remove_session_def Let_def w1_def)
  have other: "mget (live w1) (s_uuid (heap w1 x)) = Some x" if "s_room (heap w x) \<noteq> []" "x \<noteq> r" for x
    using g that True by (auto simp: ghostless_def w1_def)
  show ?thesis
  proof (cases "?p = []")
    case True
    then have "ghostless w1" using other unfolding ghostless_def by (metis h1)
    with True show ?thesis by (simp add: eq disconnect_def Let_def h1)
  next
    case False
    have "member w ?p ?u r" using rooms_invD(4) [OF inv False] True by blast
    then have rf: "removed_from w1 r ?p" by (auto simp: removed_from_def member_def w1_def get_room_def)
    let ?w = "leave_room now r ?p ReasonDisconnected w1"
    have "ghostless ?w"
      unfolding ghostless_def
    proof (intro allI impI)
      fix x assume "s_room (heap ?w x) \<noteq> []"
      then have "x \<noteq> r" "s_room (heap w x) \<noteq> []" using rf by (auto simp: s_room_leave_room h1 split: if_splits)
      then show "mget (live ?w) (s_uuid (heap ?w x)) = Some x" using other by simp
    qed
    then show ?thesis using False by (simp add: eq disconnect_def Let_def h1)
  qed
qed


section \<open>Requests\<close>

lemma forgetful_store_for: "forgetful w \<Longrightarrow> forgetful (store_for i w)"
proof -
  assume p: "forgetful w"
  have "forgetful (add_ephemeral i EphFiles (w\<lparr>stores := st\<rparr>))" for st
    unfolding add_ephemeral_def by (rule forgetful_on_room) (use p in auto)
  with p show ?thesis by (simp add: store_for_def)
qed

lemma forgetful_files:
  assumes "forgetful w"
  shows "forgetful (fst (request_upload e tok r name sz w))" "forgetful (fst (issue_download e tok r fid w))"
    "forgetful (fst (upload_begin e tok w))" "forgetful (fst (upload_write e st io w))"
    "forgetful (upload_add f w)" "forgetful (fst (open_file now fid tok th w))"
  using assms
  by (simp_all add: request_upload_def issue_download_def upload_begin_def upload_write_def upload_add_def open_file_def
    Let_def forgetful_store_for split: option.split sum.split prod.split)

lemma forgetful_require: "forgetful w \<Longrightarrow> forgetful (k w) \<Longrightarrow> forgetful (require r i p k w)"
  by (simp add: require_def)

lemma forgetful_decoded: "forgetful w \<Longrightarrow> (\<And>x. forgetful (k x w)) \<Longrightarrow> forgetful (decoded r i p k w)"
  by (simp add: decoded_def split: option.split)

lemma forgetful_target: "forgetful w \<Longrightarrow> (\<And>q v. forgetful (k q v w)) \<Longrightarrow> forgetful (with_target r i p k w)"
  unfolding with_target_def by (rule forgetful_decoded) (simp_all split: option.split)

lemma forgetful_reply [simp]: "forgetful (reply_view c r ty i full mk j w) = forgetful w"
  by (simp add: reply_view_def split: option.split)

lemma forgetful_fst: "f w = (w1, x) \<Longrightarrow> forgetful (fst (f w)) \<Longrightarrow> forgetful w1"
  by simp

lemma forgetful_file_handlers:
  assumes "forgetful w"
  shows "forgetful (handle_upload_request c r i p1 w)" "forgetful (handle_download_token c r i p2 w)"
    "forgetful (handle_media_token c r i w)" "forgetful (handle_media_state c r i p3 w)"
proof -
  show "forgetful (handle_upload_request c r i p1 w)" "forgetful (handle_download_token c r i p2 w)"
    unfolding handle_upload_request_def handle_download_token_def
    by (rule forgetful_decoded [OF assms],
        auto split: prod.splits sum.splits dest: forgetful_fst simp: forgetful_files [OF assms])+
  show "forgetful (handle_media_token c r i w)" "forgetful (handle_media_state c r i p3 w)"
    unfolding handle_media_token_def handle_media_state_def
    by (auto split: sum.splits intro!: forgetful_decoded simp: Let_def assms)
qed


lemma forgetful_moderation:
  assumes "forgetful w"
  shows "forgetful (handle_kick c r i p w)" "forgetful (handle_ban c r i p w)" "forgetful (handle_mute c r i p w)"
    "forgetful (lift_sanction c kd pm r i p w)" "forgetful (handle_sanctions c r i w)"
proof -
  show "forgetful (handle_kick c r i p w)" "forgetful (handle_ban c r i p w)" "forgetful (handle_mute c r i p w)"
    unfolding handle_kick_def handle_ban_def handle_mute_def
    by (rule forgetful_require [OF assms], rule forgetful_target [OF assms],
        simp add: Let_def assms split: prod.split sum.split)+
  show "forgetful (lift_sanction c kd pm r i p w)"
    unfolding lift_sanction_def
    by (rule forgetful_require [OF assms], rule forgetful_decoded [OF assms])
      (simp add: Let_def assms split: prod.split sum.split)
  show "forgetful (handle_sanctions c r i w)" by (simp add: handle_sanctions_def Let_def assms)
qed

lemma forgetful_roles:
  assumes "forgetful w"
  shows "forgetful (handle_role_create c r i p w)" "forgetful (handle_role_update c r i p w)"
    "forgetful (handle_role_delete c r i q w)" "forgetful (change_assignment c g r i a w)"
    "forgetful (handle_role_list c r i w)"
proof -
  show "forgetful (handle_role_create c r i p w)" "forgetful (handle_role_update c r i p w)"
    "forgetful (handle_role_delete c r i q w)" "forgetful (change_assignment c g r i a w)"
    unfolding handle_role_create_def handle_role_update_def handle_role_delete_def change_assignment_def
    by (rule forgetful_require [OF assms], rule forgetful_decoded [OF assms],
        simp add: Let_def assms split: prod.split sum.split option.split)+
  show "forgetful (handle_role_list c r i w)" by (simp add: handle_role_list_def assms)
qed

lemma forgetful_rename: "forgetful w \<Longrightarrow> forgetful (handle_rename c r i p w)"
  unfolding handle_rename_def rename_check_def rename_to_def
  by (rule forgetful_decoded) (simp_all add: Let_def split: sum.split option.split)

lemma forgetful_room_handlers:
  assumes "forgetful w" "fresh (cx_env c) w"
  shows "forgetful (handle_room_list c r i w)" "forgetful (handle_room_join c r i p1 w)"
    "forgetful (handle_room_leave c r i w)" "forgetful (handle_room_create c r i p2 w)"
    "forgetful (handle_room_update c r i p3 w)" "forgetful (handle_room_delete c r i p4 w)"
    "forgetful (handle_move c r i p5 w)"
proof -
  show "forgetful (handle_room_list c r i w)" by (simp add: handle_room_list_def assms)
  show "forgetful (handle_room_join c r i p1 w)"
    unfolding handle_room_join_def
    by (rule forgetful_decoded [OF assms(1)]) (auto split: prod.splits sum.splits dest: forgetful_fst
      simp: forgetful_join [OF assms(1)])
  show "forgetful (handle_room_leave c r i w)"
    unfolding handle_room_leave_def
    by (auto split: prod.splits sum.splits dest: forgetful_fst simp: forgetful_leave [OF assms(1)])
  show "forgetful (handle_room_create c r i p2 w)"
    unfolding handle_room_create_def
    by (rule forgetful_require [OF assms(1)], rule forgetful_decoded [OF assms(1)])
      (auto split: prod.splits sum.splits dest: forgetful_fst simp: forgetful_create [OF assms])
  show "forgetful (handle_room_update c r i p3 w)"
    unfolding handle_room_update_def
    by (rule forgetful_require [OF assms(1)], rule forgetful_decoded [OF assms(1)])
      (auto split: prod.splits sum.splits dest: forgetful_fst simp: forgetful_update [OF assms(1)])
  show "forgetful (handle_room_delete c r i p4 w)"
    unfolding handle_room_delete_def
    by (rule forgetful_require [OF assms(1)], rule forgetful_decoded [OF assms(1)])
      (auto split: prod.splits option.splits dest: forgetful_fst simp: forgetful_delete [OF assms(1)])
  show "forgetful (handle_move c r i p5 w)"
    unfolding handle_move_def
    by (rule forgetful_require [OF assms(1)], rule forgetful_decoded [OF assms(1)])
      (auto simp: Let_def assms forgetful_leave forgetful_force dest: forgetful_fst
        split: option.split prod.splits sum.splits)
qed

lemma forgetful_content_handlers:
  assumes "forgetful w" "seated r w"
  shows "forgetful (handle_chat_send c r i p1 w)" "forgetful (handle_chat_history c r i p2 w)"
    "forgetful (handle_chat_edit c r i p3 w)" "forgetful (handle_chat_delete c r i p4 w)"
    "forgetful (handle_chat_typing c r i p5 w)" "forgetful (handle_paint_begin c r i p6 w)"
    "forgetful (handle_paint_append c r i p7 w)" "forgetful (handle_paint_end c r i p8 w)"
    "forgetful (handle_paint_undo c r i w)" "forgetful (handle_paint_clear c r i p9 w)"
    "forgetful (handle_paint_state c r i w)"
  unfolding handle_chat_send_def handle_chat_history_def handle_chat_edit_def handle_chat_delete_def
    handle_chat_typing_def handle_paint_begin_def handle_paint_append_def handle_paint_end_def
    handle_paint_undo_def handle_paint_clear_def handle_paint_state_def
  by ((rule forgetful_decoded [OF assms(1)])?,
      auto split: prod.splits sum.splits option.splits dest: forgetful_chat [OF assms] forgetful_paint [OF assms])+

lemma forgetful_dispatch:
  assumes "forgetful w" "seated r w" "fresh (cx_env c) w"
  shows "forgetful (dispatch c r i q w)"
  by (cases q) (simp_all add: assms(1) forgetful_rename forgetful_room_handlers [OF assms(1,3)]
    forgetful_content_handlers [OF assms(1,2)] forgetful_moderation forgetful_roles forgetful_file_handlers
    handle_unban_def handle_unmute_def)


section \<open>Everything that happens\<close>

lemma forgetful_add_session: "forgetful w \<Longrightarrow> forgetful (fst (add_session m r w))"
  by (simp add: add_session_def Let_def split: option.split)

lemma forgetful_remove: "forgetful w \<Longrightarrow> forgetful (fst (remove_session r w))"
  by (simp add: remove_session_def Let_def)

lemma forgetful_admit: "forgetful w \<Longrightarrow> forgetful (fst (admit_client c su bots av rm i who w))"
proof -
  assume p: "forgetful w"
  obtain u name where who: "who = (u, name)" by fastforce
  obtain w1 r where a: "alloc (new_session (new_uuid (cx_env c)) u name rm (clock (cx_env c))) w = (w1, r)" by fastforce
  then have "forgetful w1" using p forgetful_users by (metis fst_conv)
  then have p2: "forgetful (set_avatar r av (apply_roles c r w1))" by simp
  obtain w3 res where ad: "add_session (cfg_int (cfg (set_avatar r av (apply_roles c r w1))) KeyServerMaxUsers) r
      (set_avatar r av (apply_roles c r w1)) = (w3, res)" by fastforce
  then have p3: "forgetful w3" using forgetful_add_session [OF p2] by (metis fst_conv)
  then have p5: "forgetful (case replaced of None \<Rightarrow> set_users f w3 | Some old \<Rightarrow> fst (transfer_membership old r (set_users f w3)))"
    for replaced f by (simp add: forgetful_transfer split: option.split)
  have fin: "forgetful (if replaced = None then broadcast ty p ex w6 else w6)" if "forgetful w6" for replaced ty p ex w6
    using that by simp
  show ?thesis
    unfolding who admit_client_def by (simp add: a Let_def ad p3 p5 forgetful_remove split: sum.split)
qed

lemma forgetful_leave_server: "forgetful w \<Longrightarrow> forgetful (client_left c r w)"
proof -
  assume p: "forgetful w"
  then have "forgetful (close_session r ReasonClientLeft w)" by simp
  then show ?thesis
    unfolding client_left_def leave_server_def
    by (auto simp: Let_def chat_forget_def paint_forget_def forgetful_disconnect split: prod.split bool.split
        dest: forgetful_fst [where f = "remove_session r"] simp: forgetful_remove)
qed

lemma ghostless_step:
  assumes "gate_step lower w w'" "server_ok lower w" "ghostless w"
  shows "ghostless w'"
  using assms
proof (induction rule: gate_step.induct)
  case (request w r c i q)
  then have inv: "rooms_inv w" by (simp add: server_ok_def)
  have "ghostless (dispatch c r i q w)"
  proof (cases "rename_request q")
    case True
    then obtain p where q: "q = RqRename p" by (cases q) auto
    show ?thesis
    proof (cases rule: rename_cases [of w c r i p])
      case calm
      then show ?thesis using ghostless_calm [OF request(5)] q by simp
    next
      case (renamed name)
      have "ghostless (set_username r name w)"
        using request(5) by (simp add: ghostless_def set_username_def heap_at_session)
      then show ?thesis using ghostless_calm renamed(2) q by simp
    qed
  next
    case False
    then obtain w1 where "room_op c w w1" "calm w1 (dispatch c r i q w)"
      using one_op_dispatch [OF rooms_invD(1) [OF inv] request(1)] one_op_def by blast
    then show ?thesis using ghostless_op ghostless_calm request(5) by blast
  qed
  with request show ?case by (simp add: read_frame_def)
next
  case (arrives c w su bots av rm i fr)
  then have inv: "rooms_inv w" by (simp add: server_ok_def)
  show ?case
  proof (cases "check_hello c fr w")
    case (Inr who)
    obtain u name where who: "who = (u, name)" by fastforce
    have g: "ghostless ((fst (connect m (arrival c av rm u name w) w))\<lparr>acc := b\<rparr>)" for m b
      using ghostless_connect [OF inv arrives(3), of "arrival c av rm u name w" m] by (simp add: ghostless_def)
    have "ghostless (fst (admit_client c su bots av rm i (u, name) w))"
      by (rule admit_client_cases [OF inv, of c su bots av rm i u name]; metis ghostless_calm g fst_conv)
    then show ?thesis using Inr who by (simp add: handshake_def)
  qed (use arrives in \<open>simp add: handshake_def\<close>)
next
  case (departs w c r)
  define w0 where "w0 = close_session r ReasonClientLeft w"
  have inv: "rooms_inv w0" "ghostless w0"
    unfolding w0_def using departs rooms_inv_calm ghostless_calm calm_close [OF calm_refl] by (auto simp: server_ok_def)
  have "calm (fst (hang_up (clock (cx_env c)) r w0)) (leave_server c r w0)"
    by (simp add: hang_up_def leave_server_def Let_def chat_forget_def paint_forget_def calm_intros
        split: prod.split bool.split)
  then show ?case
    unfolding client_left_def w0_def [symmetric] by (rule ghostless_calm [OF ghostless_hang_up [OF inv]])
next
  case (written r w w' f)
  show ?case by (rule ghostless_calm [OF written(3) calm_background(1) [OF written(1)]])
next
  case (timer w i x t now)
  then show ?case by (simp add: ghostless_def)
next
  case (rooms_reloaded w e)
  then show ?case by (simp add: ghostless_reload)
qed (erule ghostless_calm, rule calm_background(2-))+

lemma forgetful_step:
  assumes "gate_step lower w w'" "server_ok lower w" "ghostless w" "forgetful w" "cfg_bool (cfg w') KeyRoomsPurgeOnEmpty"
  shows "forgetful w'"
  using assms
proof (induction rule: gate_step.induct)
  case (request w r c i q)
  then have "seated r w" using ghostless_seated by (simp add: server_ok_def)
  with request show ?case by (simp add: read_frame_def forgetful_dispatch)
next
  case (arrives c w su bots av rm i fr)
  then show ?case by (simp add: handshake_def forgetful_admit split: sum.split)
next
  case (written r w w' f)
  then show ?case by (auto simp: pump_one_def split: list.splits)
next
  case (upload_ends w e r f)
  have "seated r (upload_add f w)"
    using ghostless_seated [of w r] upload_ends by (simp add: server_ok_def seated_def upload_add_def get_room_def)
  moreover have "forgetful (upload_add f w)" using upload_ends forgetful_files(5) by blast
  ultimately show ?case
    unfolding announce_upload_def using forgetful_chat(6) by (metis prod.collapse)
next
  case (rooms_reloaded w e)
  then show ?case using forgetful_reload [of w e lower] by (simp add: server_ok_def)
next
  case (config_reloaded w g)
  then show ?case by (simp add: forgetful_def get_room_def)
next
  case (shutdown w reason)
  then show ?case by (simp add: close_all_def)
qed (simp_all add: forgetful_leave_server forgetful_purge forgetful_files)


text \<open>What a server can get to while rooms are set to be purged when they empty.\<close>

inductive purging_reachable :: "(ustring \<Rightarrow> ustring) \<Rightarrow> server \<Rightarrow> bool" for lower where
  start: "starting w \<Longrightarrow> cfg_bool (cfg w) KeyRoomsPurgeOnEmpty \<Longrightarrow> purging_reachable lower w"
| step: "purging_reachable lower w \<Longrightarrow> gate_step lower w w' \<Longrightarrow> cfg_bool (cfg w') KeyRoomsPurgeOnEmpty
    \<Longrightarrow> purging_reachable lower w'"

lemma purging_invariant:
  "purging_reachable lower w \<Longrightarrow> server_ok lower w \<and> ghostless w \<and> forgetful w"
proof (induction rule: purging_reachable.induct)
  case (start w)
  then show ?case using ok_starting by (auto simp: starting_def ghostless_def forgetful_def sealed_def)
next
  case (step w w')
  then show ?case using ok_step ghostless_step forgetful_step by blast
qed

definition silent :: "server \<Rightarrow> string \<Rightarrow> bool" where
  "silent w i \<longleftrightarrow> (case mget (buffers w) i of None \<Rightarrow> True | Some b \<Rightarrow> bf_messages b = [])
     \<and> (case mget (boards w) i of None \<Rightarrow> True | Some d \<Rightarrow> bd_strokes d = [])"

lemma forgetful_silent:
  "forgetful w \<Longrightarrow> get_room w i = Some x \<Longrightarrow> rm_members x = [] \<Longrightarrow> rm_purge x = None \<Longrightarrow> silent w i"
  unfolding forgetful_def sealed_def silent_def by (auto split: option.split)

text \<open>C1. Nothing said or drawn outlives the room being empty. At every moment a room without members either
  holds no message and no stroke, or its purge is pending; and the purge that finds the room empty leaves
  nothing behind.\<close>

theorem empty_rooms_keep_nothing:
  assumes "purging_reachable lower w" "get_room w i = Some x" "rm_members x = []"
  shows "silent (case rm_purge x of None \<Rightarrow> w | Some _ \<Rightarrow> purge i w) i"
proof -
  have f: "forgetful w" using purging_invariant [OF assms(1)] by blast
  have "silent (purge i w) i"
  proof (rule forgetful_silent [OF forgetful_purge [OF f]])
    show "get_room (purge i w) i = Some (x\<lparr>rm_purge := None\<rparr>)"
      using assms by (simp add: purge_def Let_def)
  qed (use assms in simp_all)
  then show ?thesis using forgetful_silent [OF f assms(2,3)] by (simp split: option.split)
qed


theorem empty_rooms_keep_nothing_witness:
  "\<exists>x. get_room demo_arrived hall = Some x \<and> rm_members x = []
     \<and> silent (case rm_purge x of None \<Rightarrow> demo_arrived | Some _ \<Rightarrow> purge hall demo_arrived) hall"
proof -
  have s: "purging_reachable (map lower_ascii) demo_start" by (rule purging_reachable.start [OF starting_demo]) simp
  have "gate_step (map lower_ascii) demo_start demo_arrived"
    unfolding demo_arrived_def by (rule gate_step.arrives) simp
  then have r: "purging_reachable (map lower_ascii) demo_arrived"
    by (rule purging_reachable.step [OF s]) (simp add: demo_arrived_facts(4))
  have "core demo_arrived hall = Some (demo_hall, [])" by (simp add: demo_arrived_facts(3))
  then obtain x where x: "get_room demo_arrived hall = Some x" "rm_members x = []" by (auto simp: core_Some)
  from empty_rooms_keep_nothing [OF r x] x show ?thesis by blast
qed

end
