(* ===== verification/Paths.thy ===== *)
theory Paths
  imports Files "HOL-Library.List_Lexorder" "HOL-Library.Sublist"
begin

text \<open>
  The functions of \<open>path/filepath\<close> the bots call, on Unix, and the part of the disk they work on. A path is
  a string as in the code; the disk is keyed by what a path resolves to, the list of its elements from
  the root. \<open>cwd\<close> is the working directory, an absolute path. Symbolic links are not modelled, and every
  entry of a directory can be read.
\<close>

section \<open>Paths\<close>

abbreviation dotdot :: ustring where "dotdot \<equiv> [full_stop, full_stop]"

definition rooted :: "ustring \<Rightarrow> bool" where
  "rooted s \<longleftrightarrow> s \<noteq> [] \<and> hd s = slash"

text \<open>\<open>filepath.Clean\<close> goes through the elements with a stack: it drops empty ones and dots, and a
  \<open>..\<close> removes the element before it, or is dropped at the root.\<close>

definition clean_step :: "bool \<Rightarrow> ustring list \<Rightarrow> ustring \<Rightarrow> ustring list" where
  "clean_step rt st e =
     (if e = [] \<or> e = [full_stop] then st
      else if e \<noteq> dotdot then st @ [e]
      else if st \<noteq> [] \<and> last st \<noteq> dotdot then butlast st
      else if rt then st else st @ [e])"

definition clean_elems :: "bool \<Rightarrow> ustring list \<Rightarrow> ustring list \<Rightarrow> ustring list" where
  "clean_elems rt = foldl (clean_step rt)"

definition render :: "bool \<Rightarrow> ustring list \<Rightarrow> ustring" where
  "render rt es =
     (if rt then slash # join [slash] es else if es = [] then [full_stop] else join [slash] es)"

definition path_clean :: "ustring \<Rightarrow> ustring" where
  "path_clean s = render (rooted s) (clean_elems (rooted s) [] (split_on slash s))"

definition path_join :: "ustring \<Rightarrow> ustring \<Rightarrow> ustring" where
  "path_join a b =
     (if a = [] then (if b = [] then [] else path_clean b)
      else if b = [] then path_clean a
      else path_clean (a @ slash # b))"

definition path_dir :: "ustring \<Rightarrow> ustring" where
  "path_dir s = path_clean (rev (dropWhile (\<lambda>c. c \<noteq> slash) (rev s)))"

text \<open>\<open>filepath.Abs\<close>, split into its elements: what the operating system opens.\<close>

definition resolve :: "ustring \<Rightarrow> ustring \<Rightarrow> ustring list" where
  "resolve cwd s = clean_elems True [] (split_on slash (if rooted s then s else cwd @ slash # s))"

text \<open>\<open>filepath.Rel\<close> of two absolute paths, as its elements.\<close>

fun rel_elems :: "ustring list \<Rightarrow> ustring list \<Rightarrow> ustring list" where
  "rel_elems (b # bs) (t # ts) = (if b = t then rel_elems bs ts else map (\<lambda>_. dotdot) (b # bs) @ t # ts)"
| "rel_elems bs ts = map (\<lambda>_. dotdot) bs @ ts"

definition within_root :: "ustring \<Rightarrow> ustring \<Rightarrow> ustring \<Rightarrow> bool" where
  "within_root cwd rt path =
     (case rel_elems (resolve cwd rt) (resolve cwd path) of [] \<Rightarrow> True | e # _ \<Rightarrow> e \<noteq> dotdot)"

section \<open>The disk\<close>

record tree =
  dk_dirs :: "ustring list list"
  dk_files :: "(ustring list, nat) gomap"

definition is_dir :: "tree \<Rightarrow> ustring list \<Rightarrow> bool" where
  "is_dir t p \<longleftrightarrow> p = [] \<or> p \<in> set (dk_dirs t)"

definition is_file :: "tree \<Rightarrow> ustring list \<Rightarrow> bool" where
  "is_file t p \<longleftrightarrow> mget (dk_files t) p \<noteq> None"

definition mkdir_all :: "ustring list \<Rightarrow> tree \<Rightarrow> tree option" where
  "mkdir_all p t =
     (if \<exists>q \<in> set (prefixes p). is_file t q then None
      else Some (t\<lparr>dk_dirs := dk_dirs t @ filter (\<lambda>q. \<not> is_dir t q) (prefixes p)\<rparr>))"

definition remove_all :: "ustring list \<Rightarrow> tree \<Rightarrow> tree" where
  "remove_all p t =
     \<lparr>dk_dirs = filter (\<lambda>q. \<not> prefix p q) (dk_dirs t), dk_files = filter (\<lambda>(q, _). \<not> prefix p q) (dk_files t)\<rparr>"

definition remove_file :: "ustring list \<Rightarrow> tree \<Rightarrow> tree" where
  "remove_file p t = t\<lparr>dk_files := mdel p (dk_files t)\<rparr>"

definition write_file :: "ustring list \<Rightarrow> nat \<Rightarrow> tree \<Rightarrow> tree" where
  "write_file p n t = t\<lparr>dk_files := mput p n (dk_files t)\<rparr>"

text \<open>\<open>filepath.WalkDir\<close> visits the files below a directory in the order of their elements.\<close>

definition walk :: "tree \<Rightarrow> ustring list \<Rightarrow> (ustring list \<times> nat) list" where
  "walk t rt = sort_key fst (filter (\<lambda>(p, _). strict_prefix rt p) (dk_files t))"

definition wf_tree :: "tree \<Rightarrow> bool" where
  "wf_tree t \<longleftrightarrow> wf_map (dk_files t)"

section \<open>One element of a path\<close>

definition plain :: "ustring \<Rightarrow> bool" where
  "plain e \<longleftrightarrow> e \<noteq> [] \<and> e \<noteq> [full_stop] \<and> e \<noteq> dotdot \<and> slash \<notin> set e"

lemma clean_step_plain [simp]: "plain e \<Longrightarrow> clean_step rt st e = st @ [e]"
  by (simp add: clean_step_def plain_def)

lemma split_on_no_sep: "c \<notin> set s \<Longrightarrow> split_on c s = [s]"
  by (induction s) auto

lemma split_on_Nil [simp]: "split_on c s \<noteq> []"
  by (induction s) (auto split: list.split)

lemma split_on_append: "split_on c (s @ c # t) = split_on c s @ split_on c t"
proof (induction s)
  case (Cons x s)
  then show ?case by (cases "split_on c s") auto
qed simp

lemma split_on_elems: "e \<in> set (split_on c s) \<Longrightarrow> c \<notin> set e"
proof (induction s arbitrary: e)
  case (Cons x s)
  then show ?case by (cases "split_on c s") (auto split: if_splits)
qed simp

lemma split_on_join: "\<forall>e \<in> set es. c \<notin> set e \<Longrightarrow> es \<noteq> [] \<Longrightarrow> split_on c (join [c] es) = es"
proof (induction es)
  case (Cons e es)
  then show ?case
    by (cases "es = []") (simp_all add: join_Cons split_on_no_sep split_on_append)
qed simp

section \<open>Cleaned paths\<close>

definition elem_ok :: "ustring \<Rightarrow> bool" where
  "elem_ok e \<longleftrightarrow> e = dotdot \<or> plain e"

lemma elem_ok_no_slash: "elem_ok e \<Longrightarrow> slash \<notin> set e"
  by (auto simp: elem_ok_def plain_def)

lemma clean_step_ok:
  "\<forall>x \<in> set st. elem_ok x \<Longrightarrow> slash \<notin> set e \<Longrightarrow> \<forall>x \<in> set (clean_step rt st e). elem_ok x"
  by (auto simp: clean_step_def elem_ok_def plain_def dest: in_set_butlastD)

lemma clean_elems_ok:
  "\<forall>x \<in> set st. elem_ok x \<Longrightarrow> \<forall>e \<in> set es. slash \<notin> set e \<Longrightarrow> \<forall>x \<in> set (clean_elems rt st es). elem_ok x"
proof (induction es arbitrary: st)
  case (Cons e es)
  then show ?case using clean_step_ok [of st e rt] by (simp add: clean_elems_def)
qed (simp add: clean_elems_def)

lemma clean_elems_append: "clean_elems rt st (es @ fs) = clean_elems rt (clean_elems rt st es) fs"
  by (simp add: clean_elems_def)

lemma clean_elems_plain:
  "\<forall>x \<in> set st. plain x \<Longrightarrow> \<forall>e \<in> set es. slash \<notin> set e \<Longrightarrow> \<forall>x \<in> set (clean_elems True st es). plain x"
proof (induction es arbitrary: st)
  case (Cons e es)
  have "slash \<notin> set e" using Cons.prems(2) by simp
  then have "e = [] \<or> e = [full_stop] \<or> e = dotdot \<or> plain e" by (auto simp: plain_def)
  then have "\<forall>x \<in> set (clean_step True st e). plain x"
    using Cons.prems(1) by (auto simp: clean_step_def dest: in_set_butlastD)
  moreover have "\<forall>e \<in> set es. slash \<notin> set e" using Cons.prems(2) by simp
  ultimately have "\<forall>x \<in> set (clean_elems True (clean_step True st e) es). plain x"
    by (rule Cons.IH)
  then show ?case by (simp add: clean_elems_def)
qed (simp add: clean_elems_def)

lemma resolve_plain: "e \<in> set (resolve cwd s) \<Longrightarrow> plain e"
  unfolding resolve_def using clean_elems_plain [of "[]"] split_on_elems by fastforce

text \<open>Resolving a cleaned path is resolving the path: what \<open>Clean\<close> cancelled cancels again.\<close>

lemma clean_elems_twice:
  assumes "\<forall>x \<in> set c. plain x" "\<forall>e \<in> set es. slash \<notin> set e"
  shows "clean_elems True c (clean_elems rt [] es) = (if rt then c @ clean_elems rt [] es else clean_elems True c es)"
proof (cases rt)
  case True
  then have "\<forall>x \<in> set (clean_elems rt [] es). plain x"
    using clean_elems_plain [of "[]" es] assms(2) by simp
  moreover have "\<forall>x \<in> set ps. plain x \<Longrightarrow> clean_elems True c ps = c @ ps" for ps
    by (induction ps arbitrary: c) (simp_all add: clean_elems_def)
  ultimately show ?thesis using True by simp
next
  case False
  have "clean_elems True c (clean_elems False [] es) = clean_elems True c es"
    using assms(2)
  proof (induction es rule: rev_induct)
    case (snoc e es)
    let ?F = "clean_elems False [] es" and ?R = "clean_elems True c es"
    have IH: "foldl (clean_step True) c ?F = ?R"
      using snoc by (simp add: clean_elems_def)
    have ok: "\<forall>x \<in> set ?F. elem_ok x"
      using clean_elems_ok [of "[]" es False] snoc.prems by simp
    have snocs: "clean_elems True c (?F @ [x]) = clean_step True ?R x" for x
      using IH by (simp add: clean_elems_def)
    have lhs: "clean_elems False [] (es @ [e]) = clean_step False ?F e"
      and rhs: "clean_elems True c (es @ [e]) = clean_step True ?R e"
      by (simp_all add: clean_elems_def)
    show ?case
    proof (cases "e = dotdot \<and> ?F \<noteq> [] \<and> last ?F \<noteq> dotdot")
      case True
      then obtain G x where G: "?F = G @ [x]" by (metis append_butlast_last_id)
      then have x: "plain x" using ok True by (auto simp: elem_ok_def)
      have "?R = clean_elems True c (G @ [x])"
        using IH by (metis G clean_elems_def)
      also have "\<dots> = clean_elems True c G @ [x]"
        using x by (simp add: clean_elems_def)
      finally have "?R = clean_elems True c G @ [x]" .
      moreover have "x \<noteq> dotdot" using True G by simp
      ultimately show ?thesis
        using True unfolding lhs rhs by (simp add: G clean_step_def)
    next
      case False
      then show ?thesis
        unfolding lhs rhs using snocs [of e] IH
        by (auto simp: clean_step_def clean_elems_def)
    qed
  qed (simp add: clean_elems_def)
  with False show ?thesis by simp
qed

lemma rooted_clean [simp]: "rooted (path_clean s) = rooted s"
proof -
  let ?es = "clean_elems (rooted s) [] (split_on slash s)"
  have ok: "\<forall>x \<in> set ?es. elem_ok x"
    using clean_elems_ok [of "[]" "split_on slash s" "rooted s"] split_on_elems by fastforce
  show ?thesis
  proof (cases "rooted s")
    case False
    have "\<not> rooted (join [slash] (e # es))" if "elem_ok e" for e es
      using that elem_ok_no_slash [OF that]
      by (cases e) (auto simp: join_Cons rooted_def elem_ok_def plain_def)
    then show ?thesis using False ok
      by (cases ?es) (auto simp: path_clean_def render_def rooted_def)
  qed (simp add: path_clean_def render_def rooted_def)
qed

lemma path_clean_nonempty [simp]: "path_clean s \<noteq> []"
proof -
  let ?es = "clean_elems (rooted s) [] (split_on slash s)"
  have "\<forall>x \<in> set ?es. elem_ok x"
    using clean_elems_ok [of "[]" "split_on slash s" "rooted s"] split_on_elems by fastforce
  then show ?thesis
    by (cases ?es) (auto simp: path_clean_def render_def join_Cons elem_ok_def plain_def)
qed

lemma split_render:
  "\<forall>x \<in> set es. slash \<notin> set x \<Longrightarrow>
   split_on slash (render rt es) =
     (if rt then [] # (if es = [] then [[]] else es) else if es = [] then [[full_stop]] else es)"
  by (simp add: render_def split_on_join)

lemma rooted_render [simp]: "rooted (render True es)"
  by (simp add: render_def rooted_def)

lemma clean_elems_skip [simp]:
  "clean_elems rt st ([] # es) = clean_elems rt st es"
  "clean_elems rt st ([full_stop] # es) = clean_elems rt st es"
  "clean_elems rt st [] = st"
  by (simp_all add: clean_elems_def clean_step_def)

lemma resolve_clean [simp]: "resolve cwd (path_clean s) = resolve cwd s"
proof -
  let ?es = "clean_elems (rooted s) [] (split_on slash s)"
  have sep: "\<forall>e \<in> set (split_on slash s). slash \<notin> set e" using split_on_elems by blast
  have ok: "\<forall>x \<in> set ?es. slash \<notin> set x"
    using clean_elems_ok [of "[]" "split_on slash s" "rooted s"] sep elem_ok_no_slash by fastforce
  have twice: "clean_elems True c ?es
      = (if rooted s then c @ ?es else clean_elems True c (split_on slash s))"
    if "\<forall>x \<in> set c. plain x" for c
    using clean_elems_twice [OF that sep] by simp
  have cwd: "\<forall>x \<in> set (clean_elems True [] (split_on slash cwd)). plain x"
    using clean_elems_plain [of "[]" "split_on slash cwd"] split_on_elems by fastforce
  show ?thesis
  proof (cases "rooted s")
    case True
    then show ?thesis using twice [of "[]"] split_render [OF ok, of True]
      by (cases "?es = []") (simp_all add: resolve_def path_clean_def)
  next
    case False
    then have "rooted (path_clean s) = False" by simp
    with False show ?thesis using twice [OF cwd] split_render [OF ok, of False]
      by (cases "?es = []")
        (simp_all add: resolve_def split_on_append clean_elems_append path_clean_def [of s])
  qed
qed

text \<open>A plain name joined to a directory is that entry of the directory.\<close>

lemma plain_facts: "plain e \<Longrightarrow> e \<noteq> [] \<and> slash \<notin> set e"
  by (simp add: plain_def)

lemma resolve_join [simp]:
  assumes "d \<noteq> []" "plain e"
  shows "resolve cwd (path_join d e) = resolve cwd d @ [e]"
proof -
  have rt: "rooted (d @ slash # e) = rooted d"
    using assms(1) by (cases d) (auto simp: rooted_def)
  have "split_on slash e = [e]"
    using plain_facts [OF assms(2)] by (simp add: split_on_no_sep)
  moreover have "resolve cwd (path_join d e) = resolve cwd (d @ slash # e)"
    using assms plain_facts [OF assms(2)] by (simp add: path_join_def)
  ultimately show ?thesis
    using rt assms(2)
    by (simp add: resolve_def split_on_append clean_elems_append)
      (simp add: clean_elems_def)
qed

lemma path_join_nonempty [simp]: "a \<noteq> [] \<Longrightarrow> path_join a b \<noteq> []"
  by (simp add: path_join_def)

lemma rel_elems_prefix:
  "dotdot \<notin> set ts \<Longrightarrow>
   (case rel_elems bs ts of [] \<Rightarrow> True | e # _ \<Rightarrow> e \<noteq> dotdot) \<longleftrightarrow> prefix bs ts"
  by (induction bs ts rule: rel_elems.induct) (auto split: list.splits)

lemma within_root_prefix: "within_root cwd rt path \<longleftrightarrow> prefix (resolve cwd rt) (resolve cwd path)"
proof -
  have "dotdot \<notin> set (resolve cwd path)" using resolve_plain by (force simp: plain_def)
  then show ?thesis by (simp add: within_root_def rel_elems_prefix)
qed

section \<open>Files after an operation\<close>

named_theorems disk_simps "which files are there after an operation on the disk"

lemma files_mkdir [disk_simps]: "mkdir_all p t = Some t' \<Longrightarrow> dk_files t' = dk_files t"
  by (auto simp: mkdir_all_def split: if_splits)

lemma files_remove_all [disk_simps]:
  "wf_tree t \<Longrightarrow> mget (dk_files (remove_all p t)) q = (if prefix p q then None else mget (dk_files t) q)"
  by (auto simp: remove_all_def wf_tree_def mget_filter split: option.splits)

lemma files_remove [disk_simps]:
  "mget (dk_files (remove_file p t)) q = (if q = p then None else mget (dk_files t) q)"
  by (simp add: remove_file_def)

lemma files_write [disk_simps]:
  "mget (dk_files (write_file p n t)) q = (if q = p then Some n else mget (dk_files t) q)"
  by (simp add: write_file_def)

lemma wf_tree_ops [simp]:
  "wf_tree t \<Longrightarrow> wf_tree (remove_all p t)" "wf_tree t \<Longrightarrow> wf_tree (remove_file p t)"
  "wf_tree t \<Longrightarrow> wf_tree (write_file p n t)" "wf_tree t \<Longrightarrow> mkdir_all p t = Some t' \<Longrightarrow> wf_tree t'"
  by (auto simp: wf_tree_def remove_all_def remove_file_def write_file_def disk_simps)

lemma set_walk: "wf_tree t \<Longrightarrow> (p, n) \<in> set (walk t rt) \<longleftrightarrow> strict_prefix rt p \<and> mget (dk_files t) p = Some n"
  by (auto simp: walk_def wf_tree_def set_wf_map)

end
