(* ===== verification/Bot_Storage.thy ===== *)
theory Bot_Storage
  imports Storage "HOL-Library.List_Lexorder"
begin

text \<open>
  The tables \<open>bots\<close> and \<open>bot_playlists\<close> and the statements of \<open>internal/storage/bots.go\<close> and
  \<open>playlists.go\<close> on them. A bot's name is unique on the server, a playlist's among those of its bot, both
  without case. There is no foreign key between the two tables.
\<close>

record bot_def =
  bd_id :: string
  bd_name :: ustring
  bd_kind :: string
  bd_folder :: ustring
  bd_color :: ustring
  bd_loop :: bool
  bd_shuffle :: bool
  bd_enabled :: bool
  bd_playlist :: string
  bd_created_at :: int

record playlist =
  pl_id :: string
  pl_bot :: string
  pl_name :: ustring
  pl_created_at :: int

record bot_db =
  t_bots :: "bot_def list"
  t_playlists :: "playlist list"

datatype bot_store_error =
    BotDbError | BotRowNotFound | BotRowNameTaken | PlaylistRowNotFound | PlaylistRowNameTaken

section \<open>Bots\<close>

definition db_create_bot :: "env \<Rightarrow> bot_def \<Rightarrow> bot_db \<Rightarrow> bot_store_error + bot_db" where
  "db_create_bot e b d =
     (if fails e CreateBot then Inl BotDbError
      else if bd_id b \<in> set (map bd_id (t_bots d))
          \<or> nocase (bd_name b) \<in> set (map (nocase \<circ> bd_name) (t_bots d)) then Inl BotRowNameTaken
      else Inr (d\<lparr>t_bots := t_bots d @ [b\<lparr>bd_created_at := unix (clock e)\<rparr>]\<rparr>))"

text \<open>The kind and the creation time are left alone.\<close>

definition db_update_bot :: "env \<Rightarrow> bot_def \<Rightarrow> bot_db \<Rightarrow> bot_store_error + bot_db" where
  "db_update_bot e b d =
     (if fails e UpdateBot then Inl BotDbError
      else if bd_id b \<in> set (map bd_id (t_bots d))
          \<and> (\<exists>x \<in> set (t_bots d). bd_id x \<noteq> bd_id b \<and> nocase (bd_name x) = nocase (bd_name b))
        then Inl BotRowNameTaken
      else if bd_id b \<notin> set (map bd_id (t_bots d)) then Inl BotRowNotFound
      else Inr (d\<lparr>t_bots := map (\<lambda>x. if bd_id x = bd_id b
               then b\<lparr>bd_kind := bd_kind x, bd_created_at := bd_created_at x\<rparr> else x) (t_bots d)\<rparr>))"

definition db_delete_bot :: "env \<Rightarrow> string \<Rightarrow> bot_db \<Rightarrow> bot_store_error + bot_db" where
  "db_delete_bot e i d =
     (if fails e DeleteBot then Inl BotDbError
      else if i \<notin> set (map bd_id (t_bots d)) then Inl BotRowNotFound
      else Inr (d\<lparr>t_bots := filter (\<lambda>b. bd_id b \<noteq> i) (t_bots d)\<rparr>))"

definition db_get_bot :: "env \<Rightarrow> string \<Rightarrow> bot_db \<Rightarrow> bot_store_error + bot_def" where
  "db_get_bot e i d =
     (if fails e GetBot then Inl BotDbError
      else (case find_by bd_id i (t_bots d) of None \<Rightarrow> Inl BotRowNotFound | Some b \<Rightarrow> Inr b))"

definition db_list_bots :: "env \<Rightarrow> bot_db \<Rightarrow> bot_store_error + bot_def list" where
  "db_list_bots e d =
     (if fails e ListBots then Inl BotDbError else Inr (sort_key bd_created_at (t_bots d)))"

section \<open>Playlists\<close>

definition db_create_playlist :: "env \<Rightarrow> playlist \<Rightarrow> bot_db \<Rightarrow> bot_store_error + bot_db" where
  "db_create_playlist e p d =
     (if fails e CreatePlaylist then Inl BotDbError
      else if pl_id p \<in> set (map pl_id (t_playlists d))
          \<or> (pl_bot p, nocase (pl_name p)) \<in> set (map (\<lambda>x. (pl_bot x, nocase (pl_name x))) (t_playlists d))
        then Inl PlaylistRowNameTaken
      else Inr (d\<lparr>t_playlists := t_playlists d @ [p\<lparr>pl_created_at := unix (clock e)\<rparr>]\<rparr>))"

definition db_rename_playlist :: "env \<Rightarrow> string \<Rightarrow> ustring \<Rightarrow> bot_db \<Rightarrow> bot_store_error + bot_db" where
  "db_rename_playlist e i name d =
     (if fails e RenamePlaylist then Inl BotDbError
      else
        (case find_by pl_id i (t_playlists d) of
           None \<Rightarrow> Inl PlaylistRowNotFound
         | Some p \<Rightarrow>
             if \<exists>x \<in> set (t_playlists d). pl_id x \<noteq> i \<and> pl_bot x = pl_bot p \<and> nocase (pl_name x) = nocase name
               then Inl PlaylistRowNameTaken
             else Inr (d\<lparr>t_playlists :=
                 map (\<lambda>x. if pl_id x = i then x\<lparr>pl_name := name\<rparr> else x) (t_playlists d)\<rparr>)))"

definition db_delete_playlist :: "env \<Rightarrow> string \<Rightarrow> bot_db \<Rightarrow> bot_store_error + bot_db" where
  "db_delete_playlist e i d =
     (if fails e DeletePlaylist then Inl BotDbError
      else if i \<notin> set (map pl_id (t_playlists d)) then Inl PlaylistRowNotFound
      else Inr (d\<lparr>t_playlists := filter (\<lambda>p. pl_id p \<noteq> i) (t_playlists d)\<rparr>))"

definition db_delete_playlists_of_bot :: "env \<Rightarrow> string \<Rightarrow> bot_db \<Rightarrow> bot_store_error + bot_db" where
  "db_delete_playlists_of_bot e i d =
     (if fails e DeletePlaylistsOfBot then Inl BotDbError
      else Inr (d\<lparr>t_playlists := filter (\<lambda>p. pl_bot p \<noteq> i) (t_playlists d)\<rparr>))"

definition db_get_playlist :: "env \<Rightarrow> string \<Rightarrow> bot_db \<Rightarrow> bot_store_error + playlist" where
  "db_get_playlist e i d =
     (if fails e GetPlaylist then Inl BotDbError
      else (case find_by pl_id i (t_playlists d) of None \<Rightarrow> Inl PlaylistRowNotFound | Some p \<Rightarrow> Inr p))"

text \<open>\<open>ORDER BY bot_id, created_at\<close>.\<close>

definition db_list_playlists :: "env \<Rightarrow> bot_db \<Rightarrow> bot_store_error + playlist list" where
  "db_list_playlists e d =
     (if fails e ListPlaylists then Inl BotDbError
      else Inr (sort_key (\<lambda>p. runes (pl_bot p)) (sort_key pl_created_at (t_playlists d))))"

text \<open>What the schema enforces.\<close>

definition wf_bot_db :: "bot_db \<Rightarrow> bool" where
  "wf_bot_db d \<longleftrightarrow> distinct (map bd_id (t_bots d)) \<and> distinct (map (nocase \<circ> bd_name) (t_bots d))
     \<and> distinct (map pl_id (t_playlists d)) \<and> distinct (map (\<lambda>p. (pl_bot p, nocase (pl_name p))) (t_playlists d))"

end
