(* ===== verification/Bots.thy ===== *)
theory Bots
  imports Paths Bot_Storage Gateway
begin

text \<open>
  The bots, \<open>internal/bots/library.go\<close>, \<open>publisher.go\<close> and \<open>manager.go\<close>: what a bot can play, its
  presence in the media session, its queue.

  \<open>site\<close> is the running server together with the bot manager, the publisher and the music on disk.
  A \<open>*bot\<close> is shared by pointer: a bot that left the map while an operation still holds it is kept in
  \<open>gone\<close>. \<open>links\<close> are the publisher's live connections; \<open>callbacks\<close> are the completion callbacks handed to
  the LiveKit library, with the bot and the generation each was made for. The library's answers are
  fields of \<open>bot_call\<close>: whether a connection is up, whether connecting, opening a track and publishing it
  works, what the random numbers are, which disk operations fail.

  Starting a track releases the lock around the calls to LiveKit, so \<open>play\<close> is two steps, \<open>play_begin\<close> and
  \<open>play_end\<close>. A Go panic is the error \<open>BotsPanic\<close>; \<open>BotsHangs\<close> stands for a call that does not return.
\<close>

section \<open>State\<close>

record track =
  tr_title :: ustring
  tr_path :: ustring
  tr_size :: nat

abbreviation BotIdle :: string where "BotIdle \<equiv> ''idle''"
abbreviation BotStopped :: string where "BotStopped \<equiv> ''stopped''"
abbreviation BotPlaying :: string where "BotPlaying \<equiv> ''playing''"

record bot =
  b_def :: bot_def
  b_tracks :: "track list"
  b_room :: string
  b_state :: string
  b_index :: int

record publishing =
  pu_room :: string
  pu_playing :: "ustring option"
  pu_generation :: nat

record track_ticket =
  tt_bot :: string
  tt_client :: uuid
  tt_playlist :: string
  tt_name :: ustring
  tt_max :: int
  tt_expires :: int

record site =
  srv :: server
  bdb :: bot_db
  bots :: "(string, bot) gomap"
  gone :: "(string, bot) gomap"
  lists :: "(string, playlist) gomap"
  uploads :: "(string, track_ticket) gomap"
  links :: "(string, publishing) gomap"
  callbacks :: "(string \<times> nat) list"
  music :: tree
  workdir :: ustring
  db_path :: ustring

datatype disk_call = MkDir | CreateFile | WriteFile | RemoveFile | RemoveTree

record bot_call =
  bx :: call
  bx_connected :: "string \<Rightarrow> bool"
  bx_connects :: bool
  bx_opens :: bool
  bx_publishes :: bool
  bx_draws :: "nat \<Rightarrow> nat"
  bx_fails :: "disk_call \<Rightarrow> bool"

datatype bots_error =
    BotsNotFound | BotsDisabled | BotsEmptyQueue | BotsBadAction | BotsNoRoom | BotsNoMedia
  | BotsInvalid | BotsTooMany | BotsNameTaken
  | BotsPlaylistNotFound | BotsPlaylistTaken | BotsTooManyPlaylists | BotsTrackNotFound
  | BotsTooLarge | BotsQuotaFull | BotsBadTicket | BotsEmptyUpload | BotsNotOpus
  | BotsStore | BotsIO | BotsLiveKit | BotsPanic | BotsHangs

definition set_bot :: "string \<Rightarrow> bot \<Rightarrow> site \<Rightarrow> site" where
  "set_bot i b w = w\<lparr>bots := mput i b (bots w)\<rparr>"

section \<open>Insertion sort\<close>

text \<open>The sorts of this package are the same loop: the element at \<open>i\<close> moves left past every element it
  comes before. The sorted prefix is held with its last element first.\<close>

fun sink_by :: "('a \<Rightarrow> 'a \<Rightarrow> bool) \<Rightarrow> 'a \<Rightarrow> 'a list \<Rightarrow> 'a list" where
  "sink_by after x [] = [x]"
| "sink_by after x (y # ys) = (if after y x then y # sink_by after x ys else x # y # ys)"

definition insertion_sort :: "('a \<Rightarrow> 'a \<Rightarrow> bool) \<Rightarrow> 'a list \<Rightarrow> 'a list" where
  "insertion_sort after xs = rev (foldl (\<lambda>ys x. sink_by after x ys) [] xs)"

section \<open>The library\<close>

definition max_tracks :: nat where "max_tracks = 5000"

text \<open>No rune outside ASCII has a letter of these extensions as its lower case.\<close>

definition audio_extension :: "ustring \<Rightarrow> bool" where
  "audio_extension x \<longleftrightarrow> map lower_ascii x = runes ''.ogg'' \<or> map lower_ascii x = runes ''.opus''"

definition trim_suffix :: "ustring \<Rightarrow> ustring \<Rightarrow> ustring" where
  "trim_suffix s x = (if length x \<le> length s \<and> drop (length s - length x) s = x then take (length s - length x) s else s)"

definition track_of :: "ustring list \<times> nat \<Rightarrow> track" where
  "track_of = (\<lambda>(p, n).
     \<lparr>tr_title = trim_suffix (path_base (render True p)) (path_ext (render True p)),
      tr_path = render True p, tr_size = n\<rparr>)"

definition playable :: "ustring list \<Rightarrow> bool" where
  "playable p \<longleftrightarrow> audio_extension (path_ext (render True p))"

text \<open>A folder that cannot be read is \<open>None\<close>. \<open>sort.Slice\<close> leaves open how equal keys are ordered; here
  they stay in the order of the walk.\<close>

definition scan_folder :: "(ustring \<Rightarrow> ustring) \<Rightarrow> ustring \<Rightarrow> tree \<Rightarrow> ustring \<Rightarrow> track list option" where
  "scan_folder lower cwd t folder =
     (let rt = trim_space folder in
      if rt = [] then None
      else if \<not> is_dir t (resolve cwd rt) then None
      else Some (sort_key (\<lambda>x. lower (tr_path x))
             (take max_tracks (map track_of (filter (\<lambda>(p, _). playable p) (walk t (resolve cwd rt)))))))"

definition count_playable :: "(ustring \<Rightarrow> ustring) \<Rightarrow> ustring \<Rightarrow> tree \<Rightarrow> ustring \<Rightarrow> nat option" where
  "count_playable lower cwd t folder = map_option length (scan_folder lower cwd t folder)"

section \<open>Folders\<close>

definition storage_root :: "site \<Rightarrow> ustring" where
  "storage_root w =
     (let dir = trim_space (cfg_string (cfg (srv w)) KeyBotsDir); dir = (if dir = [] then runes ''bots'' else dir) in
      if rooted dir then dir else path_join (path_dir (db_path w)) dir)"

definition managed_folder :: "site \<Rightarrow> string \<Rightarrow> ustring" where
  "managed_folder w i = path_join (storage_root w) (runes i)"

definition library_folder :: "site \<Rightarrow> string \<Rightarrow> ustring" where
  "library_folder w i = path_join (managed_folder w i) (runes ''default'')"

definition playlist_dir :: "site \<Rightarrow> string \<Rightarrow> string \<Rightarrow> ustring" where
  "playlist_dir w i p = path_join (managed_folder w i) (runes p)"

text \<open>The admin panel works the same folder out without a manager.\<close>

definition playlist_folder :: "ustring \<Rightarrow> ustring \<Rightarrow> string \<Rightarrow> string \<Rightarrow> ustring" where
  "playlist_folder dir db i p =
     (let dir = (if trim_space dir = [] then runes ''bots'' else dir);
          dir = (if rooted dir then dir else path_join (path_dir db) dir) in
      path_join (path_join dir (runes i)) (runes p))"

definition source_dir :: "site \<Rightarrow> bot \<Rightarrow> ustring" where
  "source_dir w b =
     (if bd_playlist (b_def b) \<noteq> [] then playlist_dir w (bd_id (b_def b)) (bd_playlist (b_def b))
      else bd_folder (b_def b))"

definition rescan :: "(ustring \<Rightarrow> ustring) \<Rightarrow> site \<Rightarrow> bot \<Rightarrow> bot" where
  "rescan lower w b =
     (let ts = (case scan_folder lower (workdir w) (music w) (source_dir w b) of None \<Rightarrow> [] | Some ts \<Rightarrow> ts) in
      b\<lparr>b_tracks := ts, b_index := (if b_index b \<ge> int (length ts) then 0 else b_index b)\<rparr>)"

section \<open>The publisher\<close>

definition bot_identity :: "string \<Rightarrow> string" where
  "bot_identity i = ''bot-'' @ i"

definition audio_enabled :: "site \<Rightarrow> bool" where
  "audio_enabled w \<longleftrightarrow> media_enabled (cfg (srv w))"

definition audio_leave :: "string \<Rightarrow> site \<Rightarrow> site" where
  "audio_leave i w = w\<lparr>links := mdel i (links w)\<rparr>"

definition audio_join :: "bot_call \<Rightarrow> string \<Rightarrow> string \<Rightarrow> ustring \<Rightarrow> site \<Rightarrow> site \<times> bots_error option" where
  "audio_join c i room name w =
     (if (case mget (links w) i of None \<Rightarrow> False | Some l \<Rightarrow> pu_room l = room \<and> bx_connected c i) then (w, None)
      else
        (let w1 = audio_leave i w in
         case issue_bot_token (cx_sign (bx c)) (cx_env (bx c)) (cfg (srv w)) room (bot_identity i) name of
           Inl _ \<Rightarrow> (w1, Some BotsLiveKit)
         | Inr _ \<Rightarrow>
             if \<not> bx_connects c then (w1, Some BotsLiveKit)
             else (w1\<lparr>links := mput i \<lparr>pu_room = room, pu_playing = None, pu_generation = 0\<rparr> (links w1)\<rparr>, None)))"

text \<open>Publishing replaces what was playing; the generation makes the callbacks of earlier tracks stale.\<close>

definition audio_play :: "bot_call \<Rightarrow> string \<Rightarrow> ustring \<Rightarrow> site \<Rightarrow> site \<times> bots_error option" where
  "audio_play c i path w =
     (case mget (links w) i of
        None \<Rightarrow> (w, Some BotsNoRoom)
      | Some l \<Rightarrow>
          (let g = Suc (pu_generation l); l1 = l\<lparr>pu_playing := None, pu_generation := g\<rparr>;
               w1 = w\<lparr>links := mput i l1 (links w)\<rparr> in
           if \<not> bx_opens c then (w1, Some BotsLiveKit)
           else
             (let w2 = w1\<lparr>callbacks := (i, g) # callbacks w1\<rparr> in
              if \<not> bx_publishes c then (w2, Some BotsLiveKit)
              else (w2\<lparr>links := mput i (l1\<lparr>pu_playing := Some path\<rparr>) (links w2)\<rparr>, None))))"

definition audio_stop :: "string \<Rightarrow> site \<Rightarrow> site" where
  "audio_stop i w =
     w\<lparr>links := madjust i (\<lambda>l. l\<lparr>pu_playing := None, pu_generation := Suc (pu_generation l)\<rparr>) (links w)\<rparr>"

definition stale :: "site \<Rightarrow> string \<Rightarrow> nat \<Rightarrow> bool" where
  "stale w i g \<longleftrightarrow> (case mget (links w) i of None \<Rightarrow> True | Some l \<Rightarrow> pu_generation l \<noteq> g)"

section \<open>Views\<close>

definition view_bot :: "site \<Rightarrow> bot \<Rightarrow> bot_view" where
  "view_bot w b =
     (let d = b_def b in
      \<lparr>bv_id = bd_id d, bv_name = bd_name d, bv_kind = bd_kind d, bv_color = bd_color d,
       bv_room = b_room b, bv_state = b_state b,
       bv_track = (if 0 \<le> b_index b \<and> b_index b < int (length (b_tracks b))
                   then Some \<lparr>bt_index = b_index b, bt_title = tr_title (b_tracks b ! nat (b_index b))\<rparr> else None),
       bv_track_count = length (b_tracks b), bv_playlist_id = bd_playlist d,
       bv_playlist_name = (if bd_playlist d = [] then []
                           else case mget (lists w) (bd_playlist d) of None \<Rightarrow> [] | Some p \<Rightarrow> pl_name p),
       bv_loop = bd_loop d, bv_shuffle = bd_shuffle d, bv_enabled = bd_enabled d\<rparr>)"

definition bot_after :: "(ustring \<Rightarrow> ustring) \<Rightarrow> bot_view \<Rightarrow> bot_view \<Rightarrow> bool" where
  "bot_after lower x y \<longleftrightarrow> lower (bv_name x) > lower (bv_name y)"

definition sort_bots :: "(ustring \<Rightarrow> ustring) \<Rightarrow> bot_view list \<Rightarrow> bot_view list" where
  "sort_bots lower = insertion_sort (bot_after lower)"

definition bot_views :: "(ustring \<Rightarrow> ustring) \<Rightarrow> site \<Rightarrow> bot_view list" where
  "bot_views lower w = sort_bots lower (map (view_bot w) (vals (bots w)))"

definition number_tracks :: "track list \<Rightarrow> bot_track list" where
  "number_tracks ts = map (\<lambda>(k, t). \<lparr>bt_index = int k, bt_title = tr_title t\<rparr>) (zip [0..<length ts] ts)"

definition queue_of :: "site \<Rightarrow> string \<Rightarrow> bots_error + bot_track list" where
  "queue_of w i =
     (case mget (bots w) i of None \<Rightarrow> Inl BotsNotFound | Some b \<Rightarrow> Inr (number_tracks (b_tracks b)))"

definition announce_bot :: "uuid \<Rightarrow> bot_view \<Rightarrow> site \<Rightarrow> site" where
  "announce_bot actor v w = w\<lparr>srv := broadcast ''bot.state'' (PBot v) actor (srv w)\<rparr>"

section \<open>Moving\<close>

definition move_bot ::
  "bot_call \<Rightarrow> uuid \<Rightarrow> string \<Rightarrow> string \<Rightarrow> site \<Rightarrow> site \<times> (bots_error + bot_view)" where
  "move_bot c actor i room w =
     (if room \<noteq> [] \<and> get_room (srv w) room = None then (w, Inl BotsNoRoom)
      else
        (case mget (bots w) i of
           None \<Rightarrow> (w, Inl BotsNotFound)
         | Some b \<Rightarrow>
             if \<not> bd_enabled (b_def b) then (w, Inl BotsDisabled)
             else
               (let b1 = b\<lparr>b_room := room, b_state := (if room \<noteq> [] then BotStopped else BotIdle)\<rparr>;
                    w1 = set_bot i b1 w; v = view_bot w1 b1;
                    w2 = (if room = [] then audio_leave i w1
                          else if audio_enabled w1 then fst (audio_join c i room (bd_name (b_def b1)) w1)
                          else w1) in
                (announce_bot actor v w2, Inr v))))"

section \<open>The queue\<close>

text \<open>\<open>draws k mod n\<close> is what the \<open>k\<close>-th call of \<open>rand.IntN(n)\<close> yields.\<close>

partial_function (option) draw_other :: "(nat \<Rightarrow> nat) \<Rightarrow> nat \<Rightarrow> int \<Rightarrow> nat \<Rightarrow> int option" where
  "draw_other draws n cur k =
     (let x = int (draws k mod n) in if x \<noteq> cur then Some x else draw_other draws n cur (Suc k))"

definition step_index :: "bool \<Rightarrow> int \<Rightarrow> int \<Rightarrow> int \<Rightarrow> int" where
  "step_index loops n step cur =
     (let k = cur + step in
      if k < 0 then (if loops then n - 1 else 0)
      else if k \<ge> n then (if loops then 0 else n - 1)
      else k)"

definition advance :: "(nat \<Rightarrow> nat) \<Rightarrow> int \<Rightarrow> bot \<Rightarrow> bot option" where
  "advance draws step b =
     (let n = length (b_tracks b) in
      if n = 0 then Some b
      else if bd_shuffle (b_def b) \<and> n > 1
        then map_option (\<lambda>k. b\<lparr>b_index := k\<rparr>) (draw_other draws n (b_index b) 0)
      else Some (b\<lparr>b_index := step_index (bd_loop (b_def b)) (int n) step (b_index b)\<rparr>))"

record play_job =
  pj_bot :: string
  pj_room :: string
  pj_name :: ustring
  pj_path :: ustring

definition play_begin :: "bot_call \<Rightarrow> string \<Rightarrow> int \<Rightarrow> bool \<Rightarrow> site \<Rightarrow> site \<times> (bots_error + play_job)" where
  "play_begin c i step mv w =
     (if \<not> audio_enabled w then (w, Inl BotsNoMedia)
      else
        (case mget (bots w) i of
           None \<Rightarrow> (w, Inl BotsNotFound)
         | Some b \<Rightarrow>
             if \<not> bd_enabled (b_def b) then (w, Inl BotsDisabled)
             else if b_room b = [] then (w, Inl BotsNoRoom)
             else if b_tracks b = [] then (w, Inl BotsEmptyQueue)
             else
               (case (if mv then advance (bx_draws c) step b else Some b) of
                  None \<Rightarrow> (w, Inl BotsHangs)
                | Some b1 \<Rightarrow>
                    if b_index b1 < 0 \<or> b_index b1 \<ge> int (length (b_tracks b1)) then (set_bot i b1 w, Inl BotsPanic)
                    else (set_bot i b1 w,
                          Inr \<lparr>pj_bot = i, pj_room = b_room b1, pj_name = bd_name (b_def b1),
                               pj_path = tr_path (b_tracks b1 ! nat (b_index b1))\<rparr>))))"

text \<open>The pointer taken by \<open>play_begin\<close>: it still reads the bot after the map has dropped it.\<close>

definition held_bot :: "site \<Rightarrow> string \<Rightarrow> bot option" where
  "held_bot w i = (case mget (bots w) i of Some b \<Rightarrow> Some b | None \<Rightarrow> mget (gone w) i)"

definition set_held :: "string \<Rightarrow> bot \<Rightarrow> site \<Rightarrow> site" where
  "set_held i b w = (if mget (bots w) i \<noteq> None then set_bot i b w else w\<lparr>gone := mput i b (gone w)\<rparr>)"

definition play_end :: "bot_call \<Rightarrow> uuid \<Rightarrow> play_job \<Rightarrow> site \<Rightarrow> site \<times> (bots_error + bot_view)" where
  "play_end c actor j w =
     (case audio_join c (pj_bot j) (pj_room j) (pj_name j) w of
        (w1, Some err) \<Rightarrow> (w1, Inl err)
      | (w1, None) \<Rightarrow>
          (case audio_play c (pj_bot j) (pj_path j) w1 of
             (w2, Some err) \<Rightarrow> (w2, Inl err)
           | (w2, None) \<Rightarrow>
               (case held_bot w2 (pj_bot j) of
                  None \<Rightarrow> (w2, Inl BotsPanic)
                | Some b \<Rightarrow>
                    (let b1 = b\<lparr>b_state := BotPlaying\<rparr>; w3 = set_held (pj_bot j) b1 w2; v = view_bot w3 b1 in
                     (announce_bot actor v w3, Inr v)))))"

definition play :: "bot_call \<Rightarrow> uuid \<Rightarrow> string \<Rightarrow> int \<Rightarrow> bool \<Rightarrow> site \<Rightarrow> site \<times> (bots_error + bot_view)" where
  "play c actor i step mv w =
     (case play_begin c i step mv w of
        (w1, Inl err) \<Rightarrow> (w1, Inl err)
      | (w1, Inr j) \<Rightarrow> play_end c actor j w1)"

definition stop_bot :: "uuid \<Rightarrow> string \<Rightarrow> site \<Rightarrow> site \<times> (bots_error + bot_view)" where
  "stop_bot actor i w =
     (case mget (bots w) i of
        None \<Rightarrow> (w, Inl BotsNotFound)
      | Some b \<Rightarrow>
          (let b1 = b\<lparr>b_state := (if b_room b \<noteq> [] then BotStopped else BotIdle)\<rparr>;
               w1 = set_bot i b1 w; v = view_bot w1 b1 in
           (announce_bot actor v (audio_stop i w1), Inr v)))"

definition select_index :: "string \<Rightarrow> int \<Rightarrow> site \<Rightarrow> site \<times> bots_error option" where
  "select_index i k w =
     (case mget (bots w) i of
        None \<Rightarrow> (w, Some BotsNotFound)
      | Some b \<Rightarrow>
          if k < 0 \<or> k \<ge> int (length (b_tracks b)) then (w, Some BotsInvalid)
          else (set_bot i (b\<lparr>b_index := k\<rparr>) w, None))"

definition select_track :: "bot_call \<Rightarrow> uuid \<Rightarrow> string \<Rightarrow> int \<Rightarrow> site \<Rightarrow> site \<times> (bots_error + bot_view)" where
  "select_track c actor i k w =
     (case select_index i k w of
        (w1, Some err) \<Rightarrow> (w1, Inl err)
      | (w1, None) \<Rightarrow> play c actor i 0 False w1)"

definition control :: "bot_call \<Rightarrow> uuid \<Rightarrow> bot_control \<Rightarrow> site \<Rightarrow> site \<times> (bots_error + bot_view)" where
  "control c actor q w =
     (if bc_action q = ''stop'' then stop_bot actor (bc_bot q) w
      else if bc_action q = ''play'' then play c actor (bc_bot q) 0 False w
      else if bc_action q = ''next'' then play c actor (bc_bot q) 1 True w
      else if bc_action q = ''prev'' then play c actor (bc_bot q) (-1) True w
      else if bc_action q = ''select'' then select_track c actor (bc_bot q) (bc_track q) w
      else (w, Inl BotsBadAction))"

section \<open>Callbacks\<close>

definition at_queue_end :: "bot \<Rightarrow> bool" where
  "at_queue_end b \<longleftrightarrow> \<not> bd_loop (b_def b) \<and> \<not> bd_shuffle (b_def b) \<and> b_index b \<ge> int (length (b_tracks b)) - 1"

definition track_finished :: "bot_call \<Rightarrow> string \<Rightarrow> site \<Rightarrow> site" where
  "track_finished c i w =
     (case mget (bots w) i of
        None \<Rightarrow> w
      | Some b \<Rightarrow> if at_queue_end b then fst (stop_bot [] i w) else fst (play c [] i 1 True w))"

text \<open>The LiveKit library reports that the track published with generation \<open>g\<close> is over.\<close>

definition track_over :: "bot_call \<Rightarrow> string \<Rightarrow> nat \<Rightarrow> site \<Rightarrow> site" where
  "track_over c i g w = (if stale w i g then w else track_finished c i w)"

definition bots_in :: "string \<Rightarrow> site \<Rightarrow> string list" where
  "bots_in room w = map fst (filter (\<lambda>(_, b). b_room b = room) (bots w))"

definition room_gone :: "bot_call \<Rightarrow> string \<Rightarrow> site \<Rightarrow> site" where
  "room_gone c room w = fold (\<lambda>i w. fst (move_bot c [] i [] w)) (bots_in room w) w"

section \<open>Loading\<close>

definition idle_bot :: "bot_def \<Rightarrow> bot" where
  "idle_bot d = \<lparr>b_def = d, b_tracks = [], b_room = [], b_state = BotIdle, b_index = 0\<rparr>"

definition load_bots :: "bot_call \<Rightarrow> site \<Rightarrow> site \<times> bots_error option" where
  "load_bots c w =
     (case db_list_bots (cx_env (bx c)) (bdb w) of
        Inl _ \<Rightarrow> (w, Some BotsStore)
      | Inr defs \<Rightarrow>
          (case db_list_playlists (cx_env (bx c)) (bdb w) of
             Inl _ \<Rightarrow> (w, Some BotsStore)
           | Inr ps \<Rightarrow>
               (let w1 = w\<lparr>bots := [], gone := [], lists := load_map pl_id ps, uploads := [], links := [], callbacks := []\<rparr> in
                (w1\<lparr>bots := fold (\<lambda>d m. mput (bd_id d) (rescan (cx_lower (bx c)) w1 (idle_bot d)) m) defs []\<rparr>, None))))"

definition reload_bots :: "bot_call \<Rightarrow> site \<Rightarrow> site \<times> bots_error option" where
  "reload_bots c w =
     (case db_list_bots (cx_env (bx c)) (bdb w) of
        Inl _ \<Rightarrow> (w, Some BotsStore)
      | Inr defs \<Rightarrow>
          (case db_list_playlists (cx_env (bx c)) (bdb w) of
             Inl _ \<Rightarrow> (w, Some BotsStore)
           | Inr ps \<Rightarrow>
               (let w1 = w\<lparr>lists := load_map pl_id ps\<rparr>;
                    refreshed = fold (\<lambda>d m.
                      mput (bd_id d)
                        (rescan (cx_lower (bx c)) w1
                          ((case mget m (bd_id d) of None \<Rightarrow> idle_bot d | Some b \<Rightarrow> b)\<lparr>b_def := d\<rparr>)) m)
                      defs (bots w1);
                    seen = (\<lambda>(i, _). i \<in> set (map bd_id defs)) in
                (w1\<lparr>bots := filter seen refreshed,
                    gone := fold (\<lambda>(i, b) m. mput i b m) (filter (\<lambda>x. \<not> seen x) refreshed) (gone w1)\<rparr>, None))))"

end
