(* ===== verification/Bot_Playlists.thy ===== *)
theory Bot_Playlists
  imports Bots
begin

text \<open>
  Defining bots and filling their playlists, \<open>internal/bots/lifecycle.go\<close> and \<open>playlists.go\<close>. The music
  of a bot created from a client lives in its managed folder: its own library in \<open>default\<close>, every
  playlist in a folder named after its id.

  An upload holds no lock, so it is two steps: \<open>track_begin\<close> uses up the ticket and chooses the file name,
  \<open>track_store\<close> writes the file, compares the folder with the quota and refreshes the queue.
\<close>

section \<open>Bots\<close>

definition max_bots :: nat where "max_bots = 64"

definition utf8_len :: "ustring \<Rightarrow> nat" where
  "utf8_len s = sum_list (map (\<lambda>r. if r < 0x80 then 1 else if r < 0x800 then 2 else if r < 0x10000 then 3 else 4) s)"

definition normalize_color :: "ustring option \<Rightarrow> bots_error + ustring" where
  "normalize_color color =
     (case color of
        None \<Rightarrow> Inr []
      | Some x \<Rightarrow> if utf8_len (trim_space x) > 32 then Inl BotsInvalid else Inr (trim_space x))"

definition make_dir :: "bot_call \<Rightarrow> ustring \<Rightarrow> site \<Rightarrow> site option" where
  "make_dir c path w =
     (if bx_fails c MkDir then None
      else map_option (\<lambda>t. w\<lparr>music := t\<rparr>) (mkdir_all (resolve (workdir w) path) (music w)))"

fun bot_store_error :: "bot_store_error \<Rightarrow> bots_error" where
  "bot_store_error BotRowNameTaken = BotsNameTaken"
| "bot_store_error BotRowNotFound = BotsNotFound"
| "bot_store_error _ = BotsStore"

definition the_or :: "'a \<Rightarrow> 'a option \<Rightarrow> 'a" where
  "the_or d x = (case x of None \<Rightarrow> d | Some v \<Rightarrow> v)"

definition create_bot :: "bot_call \<Rightarrow> uuid \<Rightarrow> bot_spec \<Rightarrow> site \<Rightarrow> site \<times> (bots_error + bot_view)" where
  "create_bot c actor q w =
     (case bs_name q of
        None \<Rightarrow> (w, Inl BotsInvalid)
      | Some raw \<Rightarrow>
          (case normalize_name raw ''bot name'' 1 32 of
             Inl _ \<Rightarrow> (w, Inl BotsInvalid)
           | Inr name \<Rightarrow>
               (case normalize_color (bs_color q) of
                  Inl err \<Rightarrow> (w, Inl err)
                | Inr color \<Rightarrow>
                    if length (bots w) \<ge> max_bots then (w, Inl BotsTooMany)
                    else
                      (let i = new_uuid (cx_env (bx c));
                           d = \<lparr>bd_id = i, bd_name = name, bd_kind = ''music'', bd_folder = library_folder w i,
                                bd_color = color, bd_loop = the_or True (bs_loop q),
                                bd_shuffle = the_or False (bs_shuffle q), bd_enabled = the_or True (bs_enabled q),
                                bd_playlist = [], bd_created_at = 0\<rparr> in
                       case make_dir c (bd_folder d) w of
                         None \<Rightarrow> (w, Inl BotsIO)
                       | Some w1 \<Rightarrow>
                           (case db_create_bot (cx_env (bx c)) d (bdb w1) of
                              Inl err \<Rightarrow> (w1, Inl (bot_store_error err))
                            | Inr db \<Rightarrow>
                                (let w2 = set_bot i (idle_bot d) (w1\<lparr>bdb := db\<rparr>); v = view_bot w2 (idle_bot d) in
                                 (announce_bot actor v w2, Inr v)))))))"

definition apply_bot_spec :: "bot_spec \<Rightarrow> bot_def \<Rightarrow> bots_error + bot_def" where
  "apply_bot_spec q d =
     (case (case bs_name q of None \<Rightarrow> Inr (bd_name d) | Some raw \<Rightarrow> normalize_name raw ''bot name'' 1 32) of
        Inl _ \<Rightarrow> Inl BotsInvalid
      | Inr name \<Rightarrow>
          (case (case bs_color q of None \<Rightarrow> Inr (bd_color d) | Some _ \<Rightarrow> normalize_color (bs_color q)) of
             Inl err \<Rightarrow> Inl err
           | Inr color \<Rightarrow>
               Inr (d\<lparr>bd_name := name, bd_color := color, bd_loop := the_or (bd_loop d) (bs_loop q),
                     bd_shuffle := the_or (bd_shuffle d) (bs_shuffle q),
                     bd_enabled := the_or (bd_enabled d) (bs_enabled q)\<rparr>)))"

definition update_bot :: "bot_call \<Rightarrow> uuid \<Rightarrow> bot_spec \<Rightarrow> site \<Rightarrow> site \<times> (bots_error + bot_view)" where
  "update_bot c actor q w =
     (case mget (bots w) (bs_bot q) of
        None \<Rightarrow> (w, Inl BotsNotFound)
      | Some b \<Rightarrow>
          (case apply_bot_spec q (b_def b) of
             Inl err \<Rightarrow> (w, Inl err)
           | Inr d \<Rightarrow>
               (case db_update_bot (cx_env (bx c)) d (bdb w) of
                  Inl err \<Rightarrow> (w, Inl (bot_store_error err))
                | Inr db \<Rightarrow>
                    (let b1 = b\<lparr>b_def := d\<rparr>; w1 = set_bot (bs_bot q) b1 (w\<lparr>bdb := db\<rparr>) in
                     if \<not> bd_enabled d then stop_bot actor (bd_id d) w1
                     else (announce_bot actor (view_bot w1 b1) w1, Inr (view_bot w1 b1))))))"

definition drop_bot :: "string \<Rightarrow> site \<Rightarrow> site" where
  "drop_bot i w =
     w\<lparr>bots := mdel i (bots w), gone := (case mget (bots w) i of None \<Rightarrow> gone w | Some b \<Rightarrow> mput i b (gone w)),
       lists := filter (\<lambda>(_, p). pl_bot p \<noteq> i) (lists w)\<rparr>"

definition remove_tree :: "bot_call \<Rightarrow> ustring \<Rightarrow> site \<Rightarrow> site" where
  "remove_tree c path w =
     (if bx_fails c RemoveTree then w else w\<lparr>music := remove_all (resolve (workdir w) path) (music w)\<rparr>)"

text \<open>A row that is already gone does not stop a deletion.\<close>

definition delete_bot :: "bot_call \<Rightarrow> string \<Rightarrow> site \<Rightarrow> site \<times> bots_error option" where
  "delete_bot c i w =
     (if mget (bots w) i = None then (w, Some BotsNotFound)
      else
        (case (case db_delete_bot (cx_env (bx c)) i (bdb w) of
                 Inl BotRowNotFound \<Rightarrow> Inr (bdb w) | r \<Rightarrow> r) of
           Inl _ \<Rightarrow> (w, Some BotsStore)
         | Inr db \<Rightarrow>
             (let w1 = w\<lparr>bdb := db\<rparr> in
              case db_delete_playlists_of_bot (cx_env (bx c)) i db of
                Inl _ \<Rightarrow> (w1, Some BotsStore)
              | Inr db2 \<Rightarrow>
                  (let w2 = audio_leave i (drop_bot i (w1\<lparr>bdb := db2\<rparr>)) in
                   (remove_tree c (managed_folder w2 i) w2, None)))))"

section \<open>Playlists\<close>

definition max_playlists :: nat where "max_playlists = 32"

definition playlist_after :: "playlist \<Rightarrow> playlist \<Rightarrow> bool" where
  "playlist_after x y \<longleftrightarrow> pl_created_at x > pl_created_at y"

definition sort_playlists :: "playlist list \<Rightarrow> playlist list" where
  "sort_playlists = insertion_sort playlist_after"

definition playlists_of :: "site \<Rightarrow> string \<Rightarrow> playlist list" where
  "playlists_of w i = sort_playlists (filter (\<lambda>p. pl_bot p = i) (vals (lists w)))"

definition playlist_of :: "site \<Rightarrow> string \<Rightarrow> string \<Rightarrow> bots_error + playlist" where
  "playlist_of w i p =
     (if mget (bots w) i = None then Inl BotsNotFound
      else
        (case mget (lists w) p of
           None \<Rightarrow> Inl BotsPlaylistNotFound
         | Some x \<Rightarrow> if pl_bot x \<noteq> i then Inl BotsPlaylistNotFound else Inr x))"

definition tracks_in :: "bot_call \<Rightarrow> site \<Rightarrow> ustring \<Rightarrow> track list option" where
  "tracks_in c w = scan_folder (cx_lower (bx c)) (workdir w) (music w)"

definition count_tracks :: "bot_call \<Rightarrow> site \<Rightarrow> playlist \<Rightarrow> nat" where
  "count_tracks c w p =
     the_or 0 (count_playable (cx_lower (bx c)) (workdir w) (music w) (playlist_dir w (pl_bot p) (pl_id p)))"

definition view_playlist :: "playlist \<Rightarrow> nat \<Rightarrow> bot_playlist" where
  "view_playlist p n = \<lparr>bp_id = pl_id p, bp_bot = pl_bot p, bp_name = pl_name p, bp_track_count = n\<rparr>"

definition bot_playlists :: "bot_call \<Rightarrow> string \<Rightarrow> site \<Rightarrow> bots_error + bot_playlist list \<times> string" where
  "bot_playlists c i w =
     (case mget (bots w) i of
        None \<Rightarrow> Inl BotsNotFound
      | Some b \<Rightarrow>
          Inr (map (\<lambda>p. view_playlist p (count_tracks c w p)) (playlists_of w i),
               bd_playlist (b_def b)))"

fun playlist_store_error :: "bot_store_error \<Rightarrow> bots_error" where
  "playlist_store_error PlaylistRowNameTaken = BotsPlaylistTaken"
| "playlist_store_error PlaylistRowNotFound = BotsPlaylistNotFound"
| "playlist_store_error _ = BotsStore"

definition create_playlist :: "bot_call \<Rightarrow> bot_playlist_spec \<Rightarrow> site \<Rightarrow> site \<times> (bots_error + bot_playlist)" where
  "create_playlist c q w =
     (case normalize_name (ps_name q) ''playlist name'' 1 48 of
        Inl _ \<Rightarrow> (w, Inl BotsInvalid)
      | Inr name \<Rightarrow>
          if mget (bots w) (ps_bot q) = None then (w, Inl BotsNotFound)
          else if length (playlists_of w (ps_bot q)) \<ge> max_playlists then (w, Inl BotsTooManyPlaylists)
          else
            (let p = \<lparr>pl_id = new_uuid (cx_env (bx c)), pl_bot = ps_bot q, pl_name = name, pl_created_at = 0\<rparr> in
             case make_dir c (playlist_dir w (pl_bot p) (pl_id p)) w of
               None \<Rightarrow> (w, Inl BotsIO)
             | Some w1 \<Rightarrow>
                 (case db_create_playlist (cx_env (bx c)) p (bdb w1) of
                    Inl err \<Rightarrow> (w1, Inl (playlist_store_error err))
                  | Inr db \<Rightarrow>
                      (w1\<lparr>bdb := db, lists := mput (pl_id p) p (lists w1)\<rparr>, Inr (view_playlist p 0)))))"

definition rename_playlist :: "bot_call \<Rightarrow> bot_playlist_spec \<Rightarrow> site \<Rightarrow> site \<times> (bots_error + bot_playlist)" where
  "rename_playlist c q w =
     (case normalize_name (ps_name q) ''playlist name'' 1 48 of
        Inl _ \<Rightarrow> (w, Inl BotsInvalid)
      | Inr name \<Rightarrow>
          (case playlist_of w (ps_bot q) (ps_playlist q) of
             Inl err \<Rightarrow> (w, Inl err)
           | Inr p \<Rightarrow>
               (case db_rename_playlist (cx_env (bx c)) (pl_id p) name (bdb w) of
                  Inl err \<Rightarrow> (w, Inl (playlist_store_error err))
                | Inr db \<Rightarrow>
                    (let p1 = p\<lparr>pl_name := name\<rparr>; w1 = w\<lparr>bdb := db, lists := mput (pl_id p1) p1 (lists w)\<rparr>;
                         w2 = (case mget (bots w1) (pl_bot p1) of
                                 None \<Rightarrow> w1
                               | Some b \<Rightarrow> if bd_playlist (b_def b) = pl_id p1
                                           then announce_bot [] (view_bot w1 b) w1 else w1) in
                     (w2, Inr (view_playlist p1 (count_tracks c w p1)))))))"

definition refused :: "'e + 'a \<Rightarrow> 'e option" where
  "refused r = (case r of Inl err \<Rightarrow> Some err | Inr _ \<Rightarrow> None)"

definition select_playlist ::
  "bot_call \<Rightarrow> uuid \<Rightarrow> bot_playlist_spec \<Rightarrow> site \<Rightarrow> site \<times> (bots_error + bot_view)" where
  "select_playlist c actor q w =
     (case (if ps_playlist q \<noteq> [] then refused (playlist_of w (ps_bot q) (ps_playlist q)) else None) of
        Some err \<Rightarrow> (w, Inl err)
      | None \<Rightarrow>
          (case mget (bots w) (ps_bot q) of
             None \<Rightarrow> (w, Inl BotsNotFound)
           | Some b \<Rightarrow>
               (let d = (b_def b)\<lparr>bd_playlist := ps_playlist q\<rparr> in
                case db_update_bot (cx_env (bx c)) d (bdb w) of
                  Inl BotRowNotFound \<Rightarrow> (w, Inl BotsNotFound)
                | Inl _ \<Rightarrow> (w, Inl BotsStore)
                | Inr db \<Rightarrow>
                    (let w1 = w\<lparr>bdb := db\<rparr> in
                     stop_bot actor (ps_bot q)
                       (set_bot (ps_bot q) (rescan (cx_lower (bx c)) w1 (b\<lparr>b_def := d, b_index := 0\<rparr>)) w1)))))"

definition delete_playlist :: "bot_call \<Rightarrow> uuid \<Rightarrow> bot_playlist_spec \<Rightarrow> site \<Rightarrow> site \<times> bots_error option" where
  "delete_playlist c actor q w =
     (case playlist_of w (ps_bot q) (ps_playlist q) of
        Inl err \<Rightarrow> (w, Some err)
      | Inr p \<Rightarrow>
          (let active = (case mget (bots w) (pl_bot p) of
                           None \<Rightarrow> False | Some b \<Rightarrow> bd_playlist (b_def b) = pl_id p) in
           case (if active then apsnd refused (select_playlist c actor \<lparr>ps_bot = pl_bot p, ps_playlist = [], ps_name = []\<rparr> w)
                 else (w, None)) of
             (w1, Some err) \<Rightarrow> (w1, Some err)
           | (w1, None) \<Rightarrow>
               (case db_delete_playlist (cx_env (bx c)) (pl_id p) (bdb w1) of
                  Inl err \<Rightarrow> (w1, Some (playlist_store_error err))
                | Inr db \<Rightarrow>
                    (let w2 = w1\<lparr>bdb := db, lists := mdel (pl_id p) (lists w1)\<rparr> in
                     (remove_tree c (playlist_dir w2 (pl_bot p) (pl_id p)) w2, None)))))"

definition playlist_queue :: "bot_call \<Rightarrow> string \<Rightarrow> string \<Rightarrow> site \<Rightarrow> bots_error + bot_track list" where
  "playlist_queue c i p w =
     (case playlist_of w i p of
        Inl err \<Rightarrow> Inl err
      | Inr x \<Rightarrow>
          (case tracks_in c w (playlist_dir w (pl_bot x) (pl_id x)) of
             None \<Rightarrow> Inr [] | Some ts \<Rightarrow> Inr (number_tracks ts)))"

definition refresh_queue :: "bot_call \<Rightarrow> uuid \<Rightarrow> string \<Rightarrow> site \<Rightarrow> site \<times> (bots_error + bot_view)" where
  "refresh_queue c actor i w =
     (case mget (bots w) i of
        None \<Rightarrow> (w, Inl BotsNotFound)
      | Some b \<Rightarrow>
          (let b1 = rescan (cx_lower (bx c)) w b; w1 = set_bot i b1 w; v = view_bot w1 b1 in
           (announce_bot actor v w1, Inr v)))"

section \<open>Track names\<close>

text \<open>The characters the name may not hold: \<open>/\<close>, the backslash and \<open>: * ? " < > |\<close>.\<close>

definition bad_name_rune :: "rune \<Rightarrow> bool" where
  "bad_name_rune r \<longleftrightarrow> r < 0x20 \<or> r = 0x7f \<or> r \<in> set [slash, backslash, 58, 42, 63, 34, 60, 62, 124]"

definition track_file_name :: "ustring \<Rightarrow> bots_error + ustring" where
  "track_file_name raw =
     (let name = map (\<lambda>r. if r = backslash then slash else r) (trim_space raw);
          name = trim_space (path_base name);
          name = trim_by (\<lambda>r. r = 0x20 \<or> r = full_stop) (filter (\<lambda>r. \<not> bad_name_rune r) name) in
      if name = [] \<or> name = [full_stop] \<or> name = dotdot then Inl BotsInvalid
      else if length name > 120 \<and> 120 < length (path_ext name) then Inl BotsPanic
      else
        (let name = (if length name > 120 then take (120 - length (path_ext name)) name @ path_ext name else name) in
         if \<not> audio_extension (path_ext name) then Inl BotsNotOpus else Inr name))"

fun decimal :: "nat \<Rightarrow> ustring" where
  "decimal n = (if n < 10 then [48 + n] else decimal (n div 10) @ [48 + n mod 10])"

definition name_candidate :: "ustring \<Rightarrow> nat \<Rightarrow> ustring" where
  "name_candidate name k =
     (if k = 0 then name
      else trim_suffix name (path_ext name) @ runes '' ('' @ decimal (k + 1) @ runes '')'' @ path_ext name)"

definition path_exists :: "site \<Rightarrow> ustring \<Rightarrow> bool" where
  "path_exists w path \<longleftrightarrow> is_dir (music w) (resolve (workdir w) path) \<or> is_file (music w) (resolve (workdir w) path)"

definition free_name :: "site \<Rightarrow> ustring \<Rightarrow> ustring \<Rightarrow> bots_error + ustring" where
  "free_name w dir name =
     (case find (\<lambda>k. \<not> path_exists w (path_join dir (name_candidate name k))) [0..<100] of
        None \<Rightarrow> Inl BotsInvalid
      | Some k \<Rightarrow> Inr (path_join dir (name_candidate name k)))"

section \<open>Uploading tracks\<close>

definition max_track_size :: "site \<Rightarrow> int" where
  "max_track_size w = cfg_int (cfg (srv w)) KeyBotsMaxTrackMB * 2 ^ 20"

definition bot_quota :: "site \<Rightarrow> int" where
  "bot_quota w = cfg_int (cfg (srv w)) KeyBotsQuotaMB * 2 ^ 20"

definition bot_usage :: "site \<Rightarrow> string \<Rightarrow> int" where
  "bot_usage w i = int (sum_list (map snd (walk (music w) (resolve (workdir w) (managed_folder w i)))))"

definition sweep_uploads :: "int \<Rightarrow> site \<Rightarrow> site" where
  "sweep_uploads now w = w\<lparr>uploads := filter (\<lambda>(_, t). \<not> now > tt_expires t) (uploads w)\<rparr>"

definition track_ticket_ttl :: int where "track_ticket_ttl = 2 * 60 * 1000000000"

definition request_track_upload ::
  "bot_call \<Rightarrow> uuid \<Rightarrow> bot_track_upload \<Rightarrow> site \<Rightarrow> site \<times> (bots_error + track_ticket)" where
  "request_track_upload c client q w =
     (case playlist_of w (bu_bot q) (bu_playlist q) of
        Inl err \<Rightarrow> (w, Inl err)
      | Inr p \<Rightarrow>
          (case track_file_name (bu_name q) of
             Inl err \<Rightarrow> (w, Inl err)
           | Inr name \<Rightarrow>
               if bu_size q > max_track_size w then (w, Inl BotsTooLarge)
               else if bu_size q > 0 \<and> bot_usage w (pl_bot p) + bu_size q > bot_quota w then (w, Inl BotsQuotaFull)
               else
                 (let now = clock (cx_env (bx c));
                      t = \<lparr>tt_bot = pl_bot p, tt_client = client, tt_playlist = pl_id p, tt_name = name,
                           tt_max = max_track_size w, tt_expires = now + track_ticket_ttl\<rparr>;
                      w1 = sweep_uploads now w in
                  (w1\<lparr>uploads := mput (cx_token (bx c)) t (uploads w1)\<rparr>, Inr t))))"

record track_job =
  tj_ticket :: track_ticket
  tj_path :: ustring

definition track_begin :: "bot_call \<Rightarrow> string \<Rightarrow> site \<Rightarrow> site \<times> (bots_error + track_job)" where
  "track_begin c token w =
     (let now = clock (cx_env (bx c)); w1 = sweep_uploads now w; found = mget (uploads w1) token;
          w2 = w1\<lparr>uploads := mdel token (uploads w1)\<rparr> in
      case found of
        None \<Rightarrow> (w2, Inl BotsBadTicket)
      | Some t \<Rightarrow>
          if now > tt_expires t then (w2, Inl BotsBadTicket)
          else
            (case playlist_of w2 (tt_bot t) (tt_playlist t) of
               Inl err \<Rightarrow> (w2, Inl err)
             | Inr _ \<Rightarrow>
                 (let dir = playlist_dir w2 (tt_bot t) (tt_playlist t) in
                  case make_dir c dir w2 of
                    None \<Rightarrow> (w2, Inl BotsIO)
                  | Some w3 \<Rightarrow>
                      (case free_name w3 dir (tt_name t) of
                         Inl err \<Rightarrow> (w3, Inl err)
                       | Inr path \<Rightarrow>
                           if \<not> within_root (workdir w3) dir path then (w3, Inl BotsNotOpus)
                           else (w3, Inr \<lparr>tj_ticket = t, tj_path = path\<rparr>)))))"

definition remove_track :: "bot_call \<Rightarrow> ustring \<Rightarrow> site \<Rightarrow> site" where
  "remove_track c path w =
     (if bx_fails c RemoveFile then w else w\<lparr>music := remove_file (resolve (workdir w) path) (music w)\<rparr>)"

text \<open>\<open>O_CREATE|O_EXCL\<close>: the file must not exist and its folder must.\<close>

definition store_limited :: "bot_call \<Rightarrow> ustring \<Rightarrow> upload_io \<Rightarrow> int \<Rightarrow> site \<Rightarrow> site \<times> bots_error option" where
  "store_limited c path io limit w =
     (let p = resolve (workdir w) path in
      if bx_fails c CreateFile \<or> path_exists w path \<or> \<not> is_dir (music w) (butlast p) then (w, Some BotsIO)
      else
        (let written = min (int (up_size io)) (max 0 (limit + 1));
             w1 = w\<lparr>music := write_file p (nat written) (music w)\<rparr> in
         if up_fails io \<or> bx_fails c WriteFile then (w1, Some BotsIO)
         else if written > limit then (w1, Some BotsTooLarge)
         else if written = 0 then (w1, Some BotsEmptyUpload)
         else (w1, None)))"

definition track_store :: "bot_call \<Rightarrow> track_job \<Rightarrow> upload_io \<Rightarrow> site \<Rightarrow> site \<times> (bots_error + bot_view)" where
  "track_store c j io w =
     (let t = tj_ticket j in
      case store_limited c (tj_path j) io (tt_max t) w of
        (w1, Some err) \<Rightarrow> (remove_track c (tj_path j) w1, Inl err)
      | (w1, None) \<Rightarrow>
          if bot_usage w1 (tt_bot t) > bot_quota w1 then (remove_track c (tj_path j) w1, Inl BotsQuotaFull)
          else refresh_queue c (tt_client t) (tt_bot t) w1)"

definition upload_track :: "bot_call \<Rightarrow> string \<Rightarrow> upload_io \<Rightarrow> site \<Rightarrow> site \<times> (bots_error + bot_view)" where
  "upload_track c token io w =
     (case track_begin c token w of
        (w1, Inl err) \<Rightarrow> (w1, Inl err)
      | (w1, Inr j) \<Rightarrow> track_store c j io w1)"

definition delete_track :: "bot_call \<Rightarrow> uuid \<Rightarrow> bot_track_ref \<Rightarrow> site \<Rightarrow> site \<times> (bots_error + bot_view)" where
  "delete_track c actor q w =
     (case playlist_of w (bf_bot q) (bf_playlist q) of
        Inl err \<Rightarrow> (w, Inl err)
      | Inr p \<Rightarrow>
          (let dir = playlist_dir w (pl_bot p) (pl_id p) in
           case tracks_in c w dir of
             None \<Rightarrow> (w, Inl BotsTrackNotFound)
           | Some ts \<Rightarrow>
               if bf_index q < 0 \<or> bf_index q \<ge> int (length ts) then (w, Inl BotsTrackNotFound)
               else
                 (let path = tr_path (ts ! nat (bf_index q)) in
                  if \<not> within_root (workdir w) dir path then (w, Inl BotsTrackNotFound)
                  else if bx_fails c RemoveFile then (w, Inl BotsIO)
                  else refresh_queue c actor (pl_bot p)
                         (w\<lparr>music := remove_file (resolve (workdir w) path) (music w)\<rparr>))))"

end
