(* ===== verification/Bots_Correct.thy ===== *)
theory Bots_Correct
  imports Bot_Playlists "HOL-Library.Multiset"
begin

text \<open>
  The bot manager as a state machine: \<open>bot_step\<close> is one thing that happens to it, \<open>bots_ok\<close> the
  invariant of what is reachable. The sorts of the package are stable sorts.
\<close>

section \<open>The sorts\<close>

lemma mset_sink_by [simp]: "mset (sink_by after x ys) = add_mset x (mset ys)"
  by (induction ys) auto

lemma set_sink_by [simp]: "set (sink_by after x ys) = insert x (set ys)"
  by (metis mset_sink_by set_mset_add_mset_insert set_mset_mset)

lemma filter_sink_by:
  assumes after: "\<And>x y. after x y \<longleftrightarrow> key x > key y"
  shows "filter (\<lambda>y. key y = k) (sink_by after x ys)
    = (if key x = k then [x] else []) @ filter (\<lambda>y. key y = (k :: 'b :: linorder)) ys"
  by (induction ys) (auto simp: after)

lemma sorted_sink_by:
  assumes after: "\<And>x y. after x y \<longleftrightarrow> key x > (key y :: 'b :: linorder)"
  shows "sorted_wrt (\<lambda>x y. key x \<ge> key y) ys \<Longrightarrow> sorted_wrt (\<lambda>x y. key x \<ge> key y) (sink_by after x ys)"
  by (induction ys) (auto simp: after)

theorem insertion_sort_stable:
  assumes after: "\<And>x y. after x y \<longleftrightarrow> key x > (key y :: 'b :: linorder)"
  shows "insertion_sort after xs = sort_key key xs"
proof -
  define loop where "loop = foldl (\<lambda>ys x. sink_by after x ys) ([] :: 'a list)"
  have loop_snoc: "loop (xs @ [x]) = sink_by after x (loop xs)" for xs x by (simp add: loop_def)
  have "mset (loop xs) = mset xs \<and> sorted_wrt (\<lambda>x y. key x \<ge> key y) (loop xs)
      \<and> (\<forall>k. filter (\<lambda>y. key y = k) (loop xs) = rev (filter (\<lambda>y. key y = k) xs))" for xs
  proof (induction xs rule: rev_induct)
    case (snoc x xs)
    then show ?case
      by (simp add: loop_snoc sorted_sink_by [OF after] filter_sink_by [OF after])
  qed (simp add: loop_def)
  note facts = this [of xs]
  have "sort_key key xs = rev (loop xs)"
  proof (rule properties_for_sort_key)
    show "sorted (map key (rev (loop xs)))"
      using facts by (simp add: sorted_wrt_rev rev_map sorted_wrt_map flip: rev_map)
    show "filter (\<lambda>x. key k = key x) (rev (loop xs)) = filter (\<lambda>x. key k = key x) xs" for k
    proof -
      have "filter (\<lambda>x. key k = key x) zs = filter (\<lambda>x. key x = key k) zs" for zs
        by (rule filter_cong) auto
      then show ?thesis using facts by (simp flip: rev_filter)
    qed
  qed (use facts in simp)
  then show ?thesis by (simp add: insertion_sort_def loop_def)
qed

lemma sort_bots_eq: "sort_bots lower vs = sort_key (\<lambda>v. lower (bv_name v)) vs"
  unfolding sort_bots_def by (rule insertion_sort_stable) (simp add: bot_after_def)

lemma sort_playlists_eq: "sort_playlists ps = sort_key pl_created_at ps"
  unfolding sort_playlists_def by (rule insertion_sort_stable) (simp add: playlist_after_def)

section \<open>The parts of the state an operation leaves alone\<close>

lemma audio_join_frame [simp]:
  "bots (fst (audio_join c i r n w)) = bots w" "lists (fst (audio_join c i r n w)) = lists w"
  "bdb (fst (audio_join c i r n w)) = bdb w" "music (fst (audio_join c i r n w)) = music w"
  "uploads (fst (audio_join c i r n w)) = uploads w" "gone (fst (audio_join c i r n w)) = gone w"
  "srv (fst (audio_join c i r n w)) = srv w" "workdir (fst (audio_join c i r n w)) = workdir w"
  "db_path (fst (audio_join c i r n w)) = db_path w"
  by (auto simp: audio_join_def audio_leave_def Let_def split: sum.split)

lemma audio_play_frame [simp]:
  "bots (fst (audio_play c i p w)) = bots w" "lists (fst (audio_play c i p w)) = lists w"
  "bdb (fst (audio_play c i p w)) = bdb w" "music (fst (audio_play c i p w)) = music w"
  "uploads (fst (audio_play c i p w)) = uploads w" "gone (fst (audio_play c i p w)) = gone w"
  "srv (fst (audio_play c i p w)) = srv w" "workdir (fst (audio_play c i p w)) = workdir w"
  "db_path (fst (audio_play c i p w)) = db_path w"
  by (auto simp: audio_play_def Let_def split: option.split)

lemma audio_stop_frame [simp]:
  "bots (audio_stop i w) = bots w" "lists (audio_stop i w) = lists w" "bdb (audio_stop i w) = bdb w"
  "music (audio_stop i w) = music w" "uploads (audio_stop i w) = uploads w" "gone (audio_stop i w) = gone w"
  "srv (audio_stop i w) = srv w" "workdir (audio_stop i w) = workdir w" "db_path (audio_stop i w) = db_path w"
  by (simp_all add: audio_stop_def)

lemma audio_leave_frame [simp]:
  "bots (audio_leave i w) = bots w" "lists (audio_leave i w) = lists w" "bdb (audio_leave i w) = bdb w"
  "music (audio_leave i w) = music w" "uploads (audio_leave i w) = uploads w" "gone (audio_leave i w) = gone w"
  "srv (audio_leave i w) = srv w" "workdir (audio_leave i w) = workdir w" "db_path (audio_leave i w) = db_path w"
  by (simp_all add: audio_leave_def)

lemma bot_announce_frame [simp]:
  "bots (announce_bot a v w) = bots w" "lists (announce_bot a v w) = lists w"
  "bdb (announce_bot a v w) = bdb w" "music (announce_bot a v w) = music w"
  "uploads (announce_bot a v w) = uploads w" "gone (announce_bot a v w) = gone w"
  "links (announce_bot a v w) = links w" "callbacks (announce_bot a v w) = callbacks w"
  "workdir (announce_bot a v w) = workdir w" "db_path (announce_bot a v w) = db_path w"
  "cfg (srv (announce_bot a v w)) = cfg (srv w)"
  by (simp_all add: announce_bot_def broadcast_def)

lemma set_bot_frame [simp]:
  "bots (set_bot i b w) = mput i b (bots w)" "lists (set_bot i b w) = lists w" "bdb (set_bot i b w) = bdb w"
  "music (set_bot i b w) = music w" "uploads (set_bot i b w) = uploads w" "gone (set_bot i b w) = gone w"
  "links (set_bot i b w) = links w" "callbacks (set_bot i b w) = callbacks w" "srv (set_bot i b w) = srv w"
  "workdir (set_bot i b w) = workdir w" "db_path (set_bot i b w) = db_path w"
  by (simp_all add: set_bot_def)

lemma view_bot_cong: "lists w = lists w' \<Longrightarrow> view_bot w b = view_bot w' b"
  unfolding view_bot_def by (simp only:)

section \<open>The invariant\<close>

definition index_ok :: "bot \<Rightarrow> bool" where
  "index_ok b \<longleftrightarrow> 0 \<le> b_index b \<and> (b_index b = 0 \<or> b_index b < int (length (b_tracks b)))"

definition bots_ok :: "site \<Rightarrow> bool" where
  "bots_ok w \<longleftrightarrow> wf_map (bots w) \<and> wf_map (lists w) \<and> wf_tree (music w)
     \<and> (\<forall>i b. mget (bots w) i = Some b \<longrightarrow> bd_id (b_def b) = i \<and> index_ok b)
     \<and> (\<forall>i p. mget (lists w) i = Some p \<longrightarrow> pl_id p = i)"

lemma bots_ok_cong:
  "bots w' = bots w \<Longrightarrow> lists w' = lists w \<Longrightarrow> music w' = music w \<Longrightarrow> bots_ok w' = bots_ok w"
  by (simp add: bots_ok_def)

lemma bots_ok_frame [simp]:
  "bots_ok (fst (audio_join c i r n w)) = bots_ok w" "bots_ok (fst (audio_play c i p w)) = bots_ok w"
  "bots_ok (audio_stop i w) = bots_ok w" "bots_ok (audio_leave i w) = bots_ok w"
  "bots_ok (announce_bot a v w) = bots_ok w"
  unfolding bots_ok_def by simp_all

lemma bots_ok_fields [simp]:
  "bots_ok (w\<lparr>bdb := d\<rparr>) = bots_ok w" "bots_ok (w\<lparr>srv := s\<rparr>) = bots_ok w"
  "bots_ok (w\<lparr>uploads := u\<rparr>) = bots_ok w" "bots_ok (w\<lparr>gone := g\<rparr>) = bots_ok w"
  "bots_ok (sweep_uploads now w) = bots_ok w"
  by (simp_all add: bots_ok_def sweep_uploads_def)

lemma bots_ok_get: "bots_ok w \<Longrightarrow> mget (bots w) i = Some b \<Longrightarrow> bd_id (b_def b) = i \<and> index_ok b"
  by (simp add: bots_ok_def)

lemma bots_ok_set_bot:
  "bots_ok w \<Longrightarrow> bd_id (b_def b) = i \<Longrightarrow> index_ok b \<Longrightarrow> bots_ok (set_bot i b w)"
  by (simp add: bots_ok_def)

lemma bots_ok_put_list: "bots_ok w \<Longrightarrow> pl_id p = i \<Longrightarrow> bots_ok (w\<lparr>bdb := d, lists := mput i p (lists w)\<rparr>)"
  by (simp add: bots_ok_def)

lemma bots_ok_music: "bots_ok w \<Longrightarrow> wf_tree t \<Longrightarrow> bots_ok (w\<lparr>music := t\<rparr>)"
  by (simp add: bots_ok_def)

lemma bots_ok_wf_tree: "bots_ok w \<Longrightarrow> wf_tree (music w)"
  by (simp add: bots_ok_def)

lemma index_ok_updates [simp]:
  "index_ok (b\<lparr>b_def := d\<rparr>) = index_ok b" "index_ok (b\<lparr>b_state := s\<rparr>) = index_ok b"
  "index_ok (b\<lparr>b_room := r\<rparr>) = index_ok b" "index_ok (idle_bot d)"
  by (simp_all add: index_ok_def idle_bot_def)

lemma rescan_facts [simp]: "b_def (rescan lower w b) = b_def b" "b_room (rescan lower w b) = b_room b"
  by (simp_all add: rescan_def Let_def)

lemma index_ok_rescan: "0 \<le> b_index b \<Longrightarrow> index_ok (rescan lower w b)"
  by (auto simp: rescan_def index_ok_def Let_def)

lemma step_index_range: "0 < n \<Longrightarrow> 0 \<le> step_index l n s k \<and> step_index l n s k < n"
  by (simp add: step_index_def Let_def)

lemma draw_other_sound:
  assumes "draw_other draws n cur k = Some x"
  shows "x \<noteq> cur \<and> (\<exists>j \<ge> k. x = int (draws j mod n))"
  using assms
proof (rule draw_other.raw_induct [rotated])
  fix rec :: "(nat \<Rightarrow> nat) \<Rightarrow> nat \<Rightarrow> int \<Rightarrow> nat \<Rightarrow> int option" and draws n cur k x
  assume IH: "\<And>draws n cur k x. rec draws n cur k = Some x \<Longrightarrow> x \<noteq> cur \<and> (\<exists>j \<ge> k. x = int (draws j mod n))"
    and step: "(let x = int (draws k mod n) in if x \<noteq> cur then Some x else rec draws n cur (Suc k)) = Some x"
  show "x \<noteq> cur \<and> (\<exists>j \<ge> k. x = int (draws j mod n))"
  proof (cases "int (draws k mod n) = cur")
    case True
    then have "rec draws n cur (Suc k) = Some x" using step by simp
    then show ?thesis using IH Suc_leD by blast
  qed (use step in auto)
qed

lemma draw_other_complete:
  "int (draws j mod n) \<noteq> cur \<Longrightarrow> k \<le> j \<Longrightarrow> draw_other draws n cur k \<noteq> None"
proof (induction "j - k" arbitrary: k)
  case (Suc m)
  then have "draw_other draws n cur (Suc k) \<noteq> None" by simp
  then show ?case by (subst draw_other.simps) (simp add: Let_def)
qed (subst draw_other.simps, simp add: Let_def)

lemma draw_other_range: "draw_other draws n cur k = Some x \<Longrightarrow> 0 < n \<Longrightarrow> 0 \<le> x \<and> x < int n \<and> x \<noteq> cur"
  by (auto dest!: draw_other_sound)

lemma advance_facts:
  "advance draws s b = Some b' \<Longrightarrow>
   b_def b' = b_def b \<and> b_tracks b' = b_tracks b \<and> b_room b' = b_room b \<and> b_state b' = b_state b
   \<and> (if b_tracks b = [] then b' = b else 0 \<le> b_index b' \<and> b_index b' < int (length (b_tracks b)))"
  using step_index_range [of "int (length (b_tracks b))"]
  by (auto simp: advance_def Let_def dest: draw_other_range split: if_splits)


section \<open>Every operation keeps it\<close>

lemma bots_ok_play_begin: "bots_ok w \<Longrightarrow> bots_ok (fst (play_begin c i s mv w))"
  using bots_ok_get [of w i]
  by (auto simp: play_begin_def index_ok_def intro!: bots_ok_set_bot dest!: advance_facts
      split: option.split if_splits)

lemma play_begin_no_panic:
  "bots_ok w \<Longrightarrow> snd (play_begin c i s mv w) \<noteq> Inl BotsPanic"
  using bots_ok_get [of w i]
  by (auto simp: play_begin_def index_ok_def dest!: advance_facts split: option.split if_splits)

lemma held_bot_frame:
  "bots w' = bots w \<Longrightarrow> gone w' = gone w \<Longrightarrow> held_bot w' i = held_bot w i"
  by (simp add: held_bot_def split: option.split)

lemma bots_ok_play_end: "bots_ok w \<Longrightarrow> bots_ok (fst (play_end c a j w))"
proof -
  assume ok: "bots_ok w"
  obtain w1 r1 where j: "audio_join c (pj_bot j) (pj_room j) (pj_name j) w = (w1, r1)" by force
  obtain w2 r2 where p: "audio_play c (pj_bot j) (pj_path j) w1 = (w2, r2)" by force
  have ok2: "bots_ok w1" "bots_ok w2"
    using ok bots_ok_frame(1) [of c "pj_bot j" "pj_room j" "pj_name j" w]
      bots_ok_frame(2) [of c "pj_bot j" "pj_path j" w1] by (simp_all add: j p)
  have "bots_ok (set_held (pj_bot j) (b\<lparr>b_state := BotPlaying\<rparr>) w2)"
    if "held_bot w2 (pj_bot j) = Some b" for b
    using that ok2 bots_ok_get [OF ok2(2), of "pj_bot j"]
    by (auto simp: held_bot_def set_held_def intro!: bots_ok_set_bot split: option.splits)
  then show ?thesis using ok2
    by (auto simp: play_end_def j p Let_def split: option.split)
qed

lemma bots_ok_play: "bots_ok w \<Longrightarrow> bots_ok (fst (play c a i s mv w))"
  using bots_ok_play_begin [of w c i s mv] bots_ok_play_end
  by (auto simp: play_def split: prod.split sum.split)

lemma bots_ok_stop: "bots_ok w \<Longrightarrow> bots_ok (fst (stop_bot a i w))"
  using bots_ok_get [of w i]
  by (auto simp: stop_bot_def Let_def intro!: bots_ok_set_bot split: option.split)

lemma bots_ok_select_index: "bots_ok w \<Longrightarrow> bots_ok (fst (select_index i k w))"
  using bots_ok_get [of w i]
  by (auto simp: select_index_def index_ok_def intro!: bots_ok_set_bot split: option.split)

lemma bots_ok_select: "bots_ok w \<Longrightarrow> bots_ok (fst (select_track c a i k w))"
  using bots_ok_select_index [of w i k] bots_ok_play
  by (auto simp: select_track_def split: prod.split option.split)

lemma bots_ok_control: "bots_ok w \<Longrightarrow> bots_ok (fst (control c a q w))"
  by (simp add: control_def bots_ok_stop bots_ok_play bots_ok_select)

lemma bots_ok_move: "bots_ok w \<Longrightarrow> bots_ok (fst (move_bot c a i r w))"
  using bots_ok_get [of w i]
  by (auto simp: move_bot_def Let_def intro!: bots_ok_set_bot split: option.split)

lemma bots_ok_track_over: "bots_ok w \<Longrightarrow> bots_ok (track_over c i g w)"
  by (simp add: track_over_def track_finished_def bots_ok_stop bots_ok_play split: option.split)

lemma bots_ok_room_gone: "bots_ok w \<Longrightarrow> bots_ok (room_gone c r w)"
proof -
  have "bots_ok w \<Longrightarrow> bots_ok (fold (\<lambda>i w. fst (move_bot c [] i [] w)) is w)" for "is" w
    by (induction "is" arbitrary: w) (simp_all add: bots_ok_move)
  then show "bots_ok w \<Longrightarrow> bots_ok (room_gone c r w)" by (simp add: room_gone_def)
qed

lemma load_map_key: "mget (load_map key rows) k = Some r \<Longrightarrow> key r = k"
proof -
  have "\<forall>k r. mget (load_map key rows) k = Some r \<longrightarrow> key r = k"
    unfolding load_map_def by (rule fold_invariant [where Q = "\<lambda>_. True"]) auto
  then show "mget (load_map key rows) k = Some r \<Longrightarrow> key r = k" by blast
qed

definition bots_map_ok :: "(string, bot) gomap \<Rightarrow> bool" where
  "bots_map_ok m \<longleftrightarrow> wf_map m \<and> (\<forall>i b. mget m i = Some b \<longrightarrow> bd_id (b_def b) = i \<and> index_ok b)"

lemma bots_ok_alt:
  "bots_ok w \<longleftrightarrow> bots_map_ok (bots w) \<and> wf_map (lists w) \<and> wf_tree (music w)
     \<and> (\<forall>i p. mget (lists w) i = Some p \<longrightarrow> pl_id p = i)"
  by (auto simp: bots_ok_def bots_map_ok_def)

lemma bots_map_ok_put: "bots_map_ok m \<Longrightarrow> bd_id (b_def b) = i \<Longrightarrow> index_ok b \<Longrightarrow> bots_map_ok (mput i b m)"
  by (simp add: bots_map_ok_def)

lemma bots_map_ok_filter: "bots_map_ok m \<Longrightarrow> bots_map_ok (filter P m)"
  by (auto simp: bots_map_ok_def mget_filter split: option.splits if_splits)

lemma bots_map_ok_index: "bots_map_ok m \<Longrightarrow> mget m i = Some b \<Longrightarrow> 0 \<le> b_index b"
  by (auto simp: bots_map_ok_def index_ok_def)

lemma bots_ok_reload: "bots_ok w \<Longrightarrow> bots_ok (fst (reload_bots c w))"
proof -
  assume ok: "bots_ok w"
  have "bots_map_ok (fold (\<lambda>d m. mput (bd_id d) (rescan lower w1
      ((case mget m (bd_id d) of None \<Rightarrow> idle_bot d | Some b \<Rightarrow> b)\<lparr>b_def := d\<rparr>)) m) defs (bots w))"
    for lower w1 defs
  proof (rule fold_invariant [where Q = "\<lambda>_. True"])
    fix d m
    assume "bots_map_ok m"
    then show "bots_map_ok (mput (bd_id d) (rescan lower w1
        ((case mget m (bd_id d) of None \<Rightarrow> idle_bot d | Some b \<Rightarrow> b)\<lparr>b_def := d\<rparr>)) m)"
      by (intro bots_map_ok_put index_ok_rescan)
        (auto dest: bots_map_ok_index simp: idle_bot_def split: option.split)
  qed (use ok in \<open>auto simp: bots_ok_alt\<close>)
  then show ?thesis
    using ok by (auto simp: reload_bots_def Let_def bots_ok_alt bots_map_ok_filter wf_load_map
        dest: load_map_key split: sum.split)
qed

lemma bots_ok_load: "wf_tree (music w) \<Longrightarrow> load_bots c w = (w', None) \<Longrightarrow> bots_ok w'"
proof -
  assume tree: "wf_tree (music w)" and load: "load_bots c w = (w', None)"
  have "bots_map_ok (fold (\<lambda>d m. mput (bd_id d) (rescan lower w1 (idle_bot d)) m) defs [])" for lower w1 defs
  proof (rule fold_invariant [where Q = "\<lambda>_. True"])
    show "bots_map_ok []" by (simp add: bots_map_ok_def)
  qed (auto intro!: bots_map_ok_put index_ok_rescan simp: idle_bot_def)
  then show ?thesis
    using tree load by (auto simp: load_bots_def Let_def bots_ok_alt wf_load_map
        dest: load_map_key split: sum.splits)
qed

lemma make_dir_facts:
  "make_dir c path w = Some w' \<Longrightarrow> \<exists>t. w' = w\<lparr>music := t\<rparr> \<and> mkdir_all (resolve (workdir w) path) (music w) = Some t"
  by (auto simp: make_dir_def split: if_splits)

lemma bots_ok_make_dir: "bots_ok w \<Longrightarrow> make_dir c path w = Some w' \<Longrightarrow> bots_ok w'"
  by (auto dest!: make_dir_facts intro!: bots_ok_music dest: bots_ok_wf_tree)

lemma bots_ok_create: "bots_ok w \<Longrightarrow> bots_ok (fst (create_bot c a q w))"
  by (auto simp: create_bot_def Let_def intro!: bots_ok_set_bot dest: bots_ok_make_dir
      split: option.split sum.split) (auto simp: idle_bot_def)

lemma bots_ok_update: "bots_ok w \<Longrightarrow> bots_ok (fst (update_bot c a q w))"
proof -
  assume ok: "bots_ok w"
  have same_id: "bd_id d = bd_id d0" if "apply_bot_spec q d0 = Inr d" for d d0
    using that by (auto simp: apply_bot_spec_def split: sum.splits)
  show ?thesis
    using ok bots_ok_get [OF ok, of "bs_bot q"]
    by (auto simp: update_bot_def Let_def same_id intro!: bots_ok_stop bots_ok_set_bot
        split: option.split sum.split)
qed

lemma bots_ok_drop: "bots_ok w \<Longrightarrow> bots_ok (drop_bot i w)"
  by (auto simp: drop_bot_def bots_ok_def mget_filter split: option.splits if_splits)

lemma bots_ok_remove_tree: "bots_ok w \<Longrightarrow> bots_ok (remove_tree c path w)"
  by (auto simp: remove_tree_def intro!: bots_ok_music dest: bots_ok_wf_tree)

lemma bots_ok_remove_track: "bots_ok w \<Longrightarrow> bots_ok (remove_track c path w)"
  by (auto simp: remove_track_def intro!: bots_ok_music dest: bots_ok_wf_tree)

lemma bots_ok_delete: "bots_ok w \<Longrightarrow> bots_ok (fst (delete_bot c i w))"
  by (auto simp: delete_bot_def Let_def intro!: bots_ok_remove_tree bots_ok_drop split: sum.split)

lemma bots_ok_create_playlist: "bots_ok w \<Longrightarrow> bots_ok (fst (create_playlist c q w))"
  by (auto simp: create_playlist_def Let_def intro!: bots_ok_put_list dest: bots_ok_make_dir
      split: option.split sum.split)

lemma playlist_of_Inr:
  "playlist_of w i p = Inr x \<longleftrightarrow> mget (bots w) i \<noteq> None \<and> mget (lists w) p = Some x \<and> pl_bot x = i"
  by (auto simp: playlist_of_def split: option.splits)

lemma bots_ok_rename_playlist: "bots_ok w \<Longrightarrow> bots_ok (fst (rename_playlist c q w))"
  by (auto simp: rename_playlist_def Let_def intro!: bots_ok_put_list split: option.split sum.split)

lemma bots_ok_select_playlist: "bots_ok w \<Longrightarrow> bots_ok (fst (select_playlist c a q w))"
  using bots_ok_get [of w "ps_bot q"]
  by (auto simp: select_playlist_def Let_def intro!: bots_ok_stop bots_ok_set_bot index_ok_rescan
      split: option.split sum.split bot_store_error.split)

lemma bots_ok_fst: "f = (w', r) \<Longrightarrow> bots_ok (fst f) \<Longrightarrow> bots_ok w'"
  by simp

lemma bots_ok_apsnd: "apsnd h f = (w', r) \<Longrightarrow> bots_ok (fst f) \<Longrightarrow> bots_ok w'"
  by (cases f) simp

lemma bots_ok_del_list: "bots_ok w \<Longrightarrow> bots_ok (w\<lparr>bdb := d, lists := mdel i (lists w)\<rparr>)"
  by (simp add: bots_ok_def)

lemma bots_ok_delete_playlist: "bots_ok w \<Longrightarrow> bots_ok (fst (delete_playlist c a q w))"
  by (auto simp: delete_playlist_def Let_def intro!: bots_ok_remove_tree bots_ok_del_list
      intro: bots_ok_apsnd [OF _ bots_ok_select_playlist] split: sum.split option.splits prod.split if_splits)

lemma bots_ok_refresh: "bots_ok w \<Longrightarrow> bots_ok (fst (refresh_queue c a i w))"
  using bots_ok_get [of w i]
  by (auto simp: refresh_queue_def Let_def index_ok_def intro!: bots_ok_set_bot index_ok_rescan split: option.split)

lemma bots_ok_request_track: "bots_ok w \<Longrightarrow> bots_ok (fst (request_track_upload c a q w))"
  by (auto simp: request_track_upload_def Let_def split: sum.split)

lemma bots_ok_track_begin: "bots_ok w \<Longrightarrow> bots_ok (fst (track_begin c token w))"
  by (auto simp: track_begin_def Let_def intro: bots_ok_make_dir [rotated] split: option.split sum.split)

lemma bots_ok_store_limited: "bots_ok w \<Longrightarrow> bots_ok (fst (store_limited c path io l w))"
  by (auto simp: store_limited_def Let_def intro!: bots_ok_music dest: bots_ok_wf_tree)

lemma bots_ok_track_store: "bots_ok w \<Longrightarrow> bots_ok (fst (track_store c j io w))"
  by (auto simp: track_store_def Let_def intro!: bots_ok_remove_track bots_ok_refresh
      intro: bots_ok_fst [OF _ bots_ok_store_limited] split: prod.split option.split)

lemma bots_ok_delete_track: "bots_ok w \<Longrightarrow> bots_ok (fst (delete_track c a q w))"
  by (auto simp: delete_track_def Let_def intro!: bots_ok_refresh bots_ok_music dest: bots_ok_wf_tree
      split: option.split sum.split)


section \<open>What can happen to the bots\<close>

text \<open>One step of the manager, from whatever caller. \<open>played\<close> covers the second half of a playback that
  began at any earlier time. The rest of the server may change in any way in between, and so may the disk.
  With \<open>panel\<close>, the admin panel may also edit the tables behind the manager's back.\<close>

inductive bot_step :: "bool \<Rightarrow> site \<Rightarrow> site \<Rightarrow> bool" for panel where
  server: "bot_step panel w (w\<lparr>srv := s\<rparr>)"
| disk: "wf_tree t \<Longrightarrow> bot_step panel w (w\<lparr>music := t\<rparr>)"
| edited: "panel \<Longrightarrow> bot_step panel w (w\<lparr>bdb := d\<rparr>)"
| reloaded: "bot_step panel w (fst (reload_bots c w))"
| created: "bot_step panel w (fst (create_bot c a q w))"
| updated: "bot_step panel w (fst (update_bot c a q w))"
| deleted: "bot_step panel w (fst (delete_bot c i w))"
| moved: "bot_step panel w (fst (move_bot c a i r w))"
| controlled: "bot_step panel w (fst (control c a q w))"
| starts: "bot_step panel w (fst (play_begin c i s mv w))"
| played: "bot_step panel w (fst (play_end c a j w))"
| over: "bot_step panel w (track_over c i g w)"
| room_closed: "bot_step panel w (room_gone c r w)"
| list_created: "bot_step panel w (fst (create_playlist c p w))"
| list_renamed: "bot_step panel w (fst (rename_playlist c p w))"
| list_selected: "bot_step panel w (fst (select_playlist c a p w))"
| list_deleted: "bot_step panel w (fst (delete_playlist c a p w))"
| requested: "bot_step panel w (fst (request_track_upload c a u w))"
| begun: "bot_step panel w (fst (track_begin c token w))"
| stored: "bot_step panel w (fst (track_store c k io w))"
| removed: "bot_step panel w (fst (delete_track c a f w))"

inductive bots_reachable :: "bool \<Rightarrow> site \<Rightarrow> bool" for panel where
  boot: "wf_bot_db (bdb w) \<Longrightarrow> wf_tree (music w) \<Longrightarrow> load_bots c w = (w', None) \<Longrightarrow> bots_reachable panel w'"
| step: "bots_reachable panel w \<Longrightarrow> bot_step panel w w' \<Longrightarrow> bots_reachable panel w'"

lemmas bots_ok_ops = bots_ok_reload bots_ok_create bots_ok_update bots_ok_delete bots_ok_move bots_ok_control
  bots_ok_play_begin bots_ok_play_end bots_ok_track_over bots_ok_room_gone bots_ok_create_playlist
  bots_ok_rename_playlist bots_ok_select_playlist bots_ok_delete_playlist bots_ok_request_track
  bots_ok_track_begin bots_ok_track_store bots_ok_delete_track bots_ok_music

lemma bots_ok_step: "bot_step panel w w' \<Longrightarrow> bots_ok w \<Longrightarrow> bots_ok w'"
  by (induction rule: bot_step.induct) (simp_all add: bots_ok_ops)

lemma bots_ok_reachable: "bots_reachable panel w \<Longrightarrow> bots_ok w"
  by (induction rule: bots_reachable.induct) (auto intro: bots_ok_load bots_ok_step)

end
