(* ===== verification/Bots_Tables.thy ===== *)
theory Bots_Tables
  imports Bots_Correct
begin

text \<open>
  The bot manager's maps refine the tables: every row is in memory with the same definition, and the
  playlists in memory are exactly those of the table. The creation times differ: a bot or playlist made
  since the start has the time 0 in memory.
\<close>

definition untimed_bot :: "bot_def \<Rightarrow> bot_def" where
  "untimed_bot d = d\<lparr>bd_created_at := 0\<rparr>"

definition untimed_list :: "playlist \<Rightarrow> playlist" where
  "untimed_list p = p\<lparr>pl_created_at := 0\<rparr>"

definition bot_rows_held :: "bot_def list \<Rightarrow> (string, bot) gomap \<Rightarrow> bool" where
  "bot_rows_held rows m \<longleftrightarrow>
     (\<forall>r \<in> set rows. \<exists>b. mget m (bd_id r) = Some b \<and> untimed_bot (b_def b) = untimed_bot r)"

definition lists_held :: "playlist list \<Rightarrow> (string, playlist) gomap \<Rightarrow> bool" where
  "lists_held rows m \<longleftrightarrow>
     (\<forall>i. map_option untimed_list (mget m i) = map_option untimed_list (find_by pl_id i rows))"

definition tables_ok :: "site \<Rightarrow> bool" where
  "tables_ok w \<longleftrightarrow> wf_bot_db (bdb w) \<and> bot_rows_held (t_bots (bdb w)) (bots w)
     \<and> lists_held (t_playlists (bdb w)) (lists w)"

lemma tables_ok_frame [simp]:
  "tables_ok (fst (audio_join c i r n w)) = tables_ok w" "tables_ok (fst (audio_play c i p w)) = tables_ok w"
  "tables_ok (audio_stop i w) = tables_ok w" "tables_ok (audio_leave i w) = tables_ok w"
  "tables_ok (announce_bot a v w) = tables_ok w"
  unfolding tables_ok_def by simp_all

lemma tables_ok_fields [simp]:
  "tables_ok (w\<lparr>srv := s\<rparr>) = tables_ok w" "tables_ok (w\<lparr>uploads := u\<rparr>) = tables_ok w"
  "tables_ok (w\<lparr>gone := g\<rparr>) = tables_ok w" "tables_ok (w\<lparr>music := t\<rparr>) = tables_ok w"
  "tables_ok (sweep_uploads now w) = tables_ok w"
  by (simp_all add: tables_ok_def sweep_uploads_def)

lemma tables_ok_disk [simp]:
  "tables_ok (remove_tree c path w) = tables_ok w" "tables_ok (remove_track c path w) = tables_ok w"
  "tables_ok (fst (store_limited c path io l w)) = tables_ok w"
  by (simp_all add: remove_tree_def remove_track_def store_limited_def Let_def)

lemma bot_rows_held_put:
  "bot_rows_held rows m \<Longrightarrow> mget m i = Some b0 \<Longrightarrow> b_def b = b_def b0 \<Longrightarrow> bot_rows_held rows (mput i b m)"
  unfolding bot_rows_held_def by (metis mget_mput option.inject)

lemma tables_ok_set_bot:
  "tables_ok w \<Longrightarrow> mget (bots w) i = Some b0 \<Longrightarrow> b_def b = b_def b0 \<Longrightarrow> tables_ok (set_bot i b w)"
  by (auto simp: tables_ok_def intro: bot_rows_held_put)

lemma tables_ok_make_dir: "make_dir c path w = Some w' \<Longrightarrow> tables_ok w' = tables_ok w"
  by (auto dest!: make_dir_facts)

lemma tables_ok_fst: "f = (w', r) \<Longrightarrow> tables_ok (fst f) \<Longrightarrow> tables_ok w'"
  by simp

section \<open>Playing\<close>

lemma tables_ok_play_begin: "tables_ok w \<Longrightarrow> tables_ok (fst (play_begin c i s mv w))"
  by (auto simp: play_begin_def intro!: tables_ok_set_bot dest!: advance_facts split: option.split if_splits)

lemma tables_ok_set_held:
  "tables_ok w \<Longrightarrow> held_bot w i = Some b0 \<Longrightarrow> b_def b = b_def b0 \<Longrightarrow> tables_ok (set_held i b w)"
  by (auto simp: held_bot_def set_held_def intro!: tables_ok_set_bot split: option.splits)

lemma tables_ok_play_end: "tables_ok w \<Longrightarrow> tables_ok (fst (play_end c a j w))"
  by (auto simp: play_end_def Let_def intro!: tables_ok_set_held
      intro: tables_ok_fst [OF _ tables_ok_frame(1) [THEN iffD2]] tables_ok_fst [OF _ tables_ok_frame(2) [THEN iffD2]]
      split: prod.split option.split)

lemma tables_ok_play: "tables_ok w \<Longrightarrow> tables_ok (fst (play c a i s mv w))"
  using tables_ok_play_begin [of w c i s mv] tables_ok_play_end
  by (auto simp: play_def split: prod.split sum.split)

lemma tables_ok_stop: "tables_ok w \<Longrightarrow> tables_ok (fst (stop_bot a i w))"
  by (auto simp: stop_bot_def Let_def intro!: tables_ok_set_bot split: option.split)

lemma tables_ok_select_index: "tables_ok w \<Longrightarrow> tables_ok (fst (select_index i k w))"
  by (auto simp: select_index_def intro!: tables_ok_set_bot split: option.split)

lemma tables_ok_select: "tables_ok w \<Longrightarrow> tables_ok (fst (select_track c a i k w))"
  using tables_ok_select_index [of w i k] tables_ok_play
  by (auto simp: select_track_def split: prod.split option.split)

lemma tables_ok_control: "tables_ok w \<Longrightarrow> tables_ok (fst (control c a q w))"
  by (simp add: control_def tables_ok_stop tables_ok_play tables_ok_select)

lemma tables_ok_move: "tables_ok w \<Longrightarrow> tables_ok (fst (move_bot c a i r w))"
  by (auto simp: move_bot_def Let_def intro!: tables_ok_set_bot split: option.split)

lemma tables_ok_track_over: "tables_ok w \<Longrightarrow> tables_ok (track_over c i g w)"
  by (simp add: track_over_def track_finished_def tables_ok_stop tables_ok_play split: option.split)

lemma tables_ok_room_gone: "tables_ok w \<Longrightarrow> tables_ok (room_gone c r w)"
proof -
  have "tables_ok w \<Longrightarrow> tables_ok (fold (\<lambda>i w. fst (move_bot c [] i [] w)) is w)" for "is" w
    by (induction "is" arbitrary: w) (simp_all add: tables_ok_move)
  then show "tables_ok w \<Longrightarrow> tables_ok (room_gone c r w)" by (simp add: room_gone_def)
qed

lemma tables_ok_refresh: "tables_ok w \<Longrightarrow> tables_ok (fst (refresh_queue c a i w))"
  by (auto simp: refresh_queue_def Let_def intro!: tables_ok_set_bot split: option.split)

lemma tables_ok_request_track: "tables_ok w \<Longrightarrow> tables_ok (fst (request_track_upload c a q w))"
  by (auto simp: request_track_upload_def Let_def split: sum.split)

lemma tables_ok_track_begin: "tables_ok w \<Longrightarrow> tables_ok (fst (track_begin c token w))"
  by (auto simp: track_begin_def Let_def intro: tables_ok_make_dir [THEN iffD2] split: option.split sum.split)

lemma tables_ok_track_store: "tables_ok w \<Longrightarrow> tables_ok (fst (track_store c j io w))"
  by (auto simp: track_store_def Let_def intro!: tables_ok_refresh
      intro: tables_ok_fst [OF _ tables_ok_disk(3) [THEN iffD2]] split: prod.split option.split)

lemma tables_ok_delete_track: "tables_ok w \<Longrightarrow> tables_ok (fst (delete_track c a q w))"
  by (auto simp: delete_track_def Let_def intro!: tables_ok_refresh split: option.split sum.split)

section \<open>Rows\<close>

lemma untimed_eq:
  "untimed_bot d = untimed_bot r \<longleftrightarrow> d\<lparr>bd_created_at := 0\<rparr> = r\<lparr>bd_created_at := 0\<rparr>"
  by (simp add: untimed_bot_def)

lemma untimed_fields:
  "untimed_bot d = untimed_bot r \<Longrightarrow> bd_id d = bd_id r \<and> bd_kind d = bd_kind r \<and> bd_name d = bd_name r"
  by (cases d; cases r) (simp add: untimed_bot_def)

lemma db_create_bot_held:
  assumes "db_create_bot e d db = Inr db'" "wf_bot_db db" "bot_rows_held (t_bots db) m" "b_def b = d"
  shows "wf_bot_db db' \<and> t_playlists db' = t_playlists db \<and> bot_rows_held (t_bots db') (mput (bd_id d) b m)"
proof -
  have db': "db' = db\<lparr>t_bots := t_bots db @ [d\<lparr>bd_created_at := unix (clock e)\<rparr>]\<rparr>"
    and new: "\<And>r. r \<in> set (t_bots db) \<Longrightarrow> bd_id r \<noteq> bd_id d"
      "nocase (bd_name d) \<notin> set (map (nocase \<circ> bd_name) (t_bots db))"
    using assms(1) by (auto simp: db_create_bot_def image_iff split: if_splits)
  have "wf_bot_db db'" using assms(2) new by (force simp: db' wf_bot_db_def)
  moreover have "bot_rows_held (t_bots db') (mput (bd_id d) b m)"
    using assms(3,4) new(1) by (simp add: db' bot_rows_held_def untimed_bot_def)
  ultimately show ?thesis by (simp add: db')
qed

lemma db_update_bot_wf: "db_update_bot e d db = Inr db' \<Longrightarrow> wf_bot_db db \<Longrightarrow> wf_bot_db db'"
proof -
  assume u: "db_update_bot e d db = Inr db'" and wf: "wf_bot_db db"
  let ?f = "\<lambda>x. d\<lparr>bd_kind := bd_kind x, bd_created_at := bd_created_at x\<rparr>"
  have db': "db' = db\<lparr>t_bots := map (\<lambda>x. if bd_id x = bd_id d then ?f x else x) (t_bots db)\<rparr>"
    and names: "\<And>x. x \<in> set (t_bots db) \<Longrightarrow> bd_id x \<noteq> bd_id d \<Longrightarrow> nocase (bd_name x) \<noteq> nocase (bd_name d)"
    using u by (auto simp: db_update_bot_def split: if_splits)
  have "distinct (map bd_id (map (\<lambda>x. if bd_id x = bd_id d then ?f x else x) (t_bots db)))"
    using wf by (subst map_update_same) (auto simp: wf_bot_db_def)
  moreover have "distinct (map (nocase \<circ> bd_name) (map (\<lambda>x. if bd_id x = bd_id d then ?f x else x) (t_bots db)))"
    using wf names by (intro distinct_map_update_one [where v = "nocase (bd_name d)"]) (auto simp: wf_bot_db_def)
  ultimately show ?thesis using wf by (simp add: db' wf_bot_db_def)
qed

lemma db_update_bot_held:
  assumes u: "db_update_bot e d db = Inr db'" and held: "bot_rows_held (t_bots db) m"
    and b: "mget m (bd_id d) = Some b" "bd_kind d = bd_kind (b_def b)" "b_def b' = d"
  shows "t_playlists db' = t_playlists db \<and> bot_rows_held (t_bots db') (mput (bd_id d) b' m)"
proof -
  have "bd_kind x = bd_kind d" if "x \<in> set (t_bots db)" "bd_id x = bd_id d" for x
    using held that b untimed_fields [of "b_def b" x] by (auto simp: bot_rows_held_def)
  then have "untimed_bot d = untimed_bot (d\<lparr>bd_kind := bd_kind x, bd_created_at := bd_created_at x\<rparr>)"
    if "x \<in> set (t_bots db)" "bd_id x = bd_id d" for x
    using that by (cases d) (simp add: untimed_bot_def)
  moreover have "db' = db\<lparr>t_bots := map (\<lambda>x. if bd_id x = bd_id d
      then d\<lparr>bd_kind := bd_kind x, bd_created_at := bd_created_at x\<rparr> else x) (t_bots db)\<rparr>"
    using u by (simp add: db_update_bot_def split: if_splits)
  ultimately show ?thesis
    using held b(3) by (auto simp: bot_rows_held_def)
qed

lemma lists_held_put:
  "lists_held rows m \<Longrightarrow> (\<And>i. map_option untimed_list (find_by pl_id i rows')
      = (if i = k then Some (untimed_list p) else map_option untimed_list (find_by pl_id i rows))) \<Longrightarrow>
   lists_held rows' (mput k p m)"
  by (simp add: lists_held_def)

lemma find_by_fresh: "k \<notin> key ` set rows \<Longrightarrow> find_by key k rows = None"
  by (simp add: find_by_None)

lemma db_create_playlist_held:
  assumes "db_create_playlist e p db = Inr db'" "wf_bot_db db" "lists_held (t_playlists db) m"
  shows "wf_bot_db db' \<and> t_bots db' = t_bots db \<and> lists_held (t_playlists db') (mput (pl_id p) p m)"
proof -
  have db': "db' = db\<lparr>t_playlists := t_playlists db @ [p\<lparr>pl_created_at := unix (clock e)\<rparr>]\<rparr>"
    and new: "pl_id p \<notin> pl_id ` set (t_playlists db)"
      "(pl_bot p, nocase (pl_name p)) \<notin> set (map (\<lambda>x. (pl_bot x, nocase (pl_name x))) (t_playlists db))"
    using assms(1) by (auto simp: db_create_playlist_def split: if_splits)
  have "lists_held (t_playlists db') (mput (pl_id p) p m)"
    by (rule lists_held_put [OF assms(3)])
      (use find_by_fresh [OF new(1)] in \<open>auto simp: db' find_by_append untimed_list_def split: option.split\<close>)
  then show ?thesis using assms(2) new by (auto simp: db' wf_bot_db_def)
qed

lemma db_rename_playlist_held:
  assumes "db_rename_playlist e (pl_id p) name db = Inr db'" "wf_bot_db db" "lists_held (t_playlists db) m"
    "mget m (pl_id p) = Some p"
  shows "wf_bot_db db' \<and> t_bots db' = t_bots db
    \<and> lists_held (t_playlists db') (mput (pl_id p) (p\<lparr>pl_name := name\<rparr>) m)"
proof -
  let ?rows = "t_playlists db" let ?f = "\<lambda>x. x\<lparr>pl_name := name\<rparr>"
  obtain r where r: "find_by pl_id (pl_id p) ?rows = Some r"
    and db': "db' = db\<lparr>t_playlists := map (\<lambda>x. if pl_id x = pl_id p then ?f x else x) ?rows\<rparr>"
    and names: "\<forall>x \<in> set ?rows. pl_id x \<noteq> pl_id p \<longrightarrow> pl_bot x = pl_bot r \<longrightarrow> nocase (pl_name x) \<noteq> nocase name"
    using assms(1) by (auto simp: db_rename_playlist_def split: if_splits option.splits)
  have "map_option untimed_list (mget m (pl_id p)) = map_option untimed_list (find_by pl_id (pl_id p) ?rows)"
    using assms(3) unfolding lists_held_def by (rule spec)
  then have same: "untimed_list p = untimed_list r"
    using assms(4) r by simp
  have r_mem: "r \<in> set ?rows" "pl_id r = pl_id p" using find_by_Some [OF r] by auto
  then have only: "x = r" if "x \<in> set ?rows" "pl_id x = pl_id p" for x
    using assms(2) r that find_by_Some_iff [of pl_id ?rows "pl_id p" x] by (simp add: wf_bot_db_def)
  have "distinct (map pl_id (map (\<lambda>x. if pl_id x = pl_id p then ?f x else x) ?rows))"
    using assms(2) by (subst map_update_same) (auto simp: wf_bot_db_def)
  moreover have "distinct (map (\<lambda>x. (pl_bot x, nocase (pl_name x)))
      (map (\<lambda>x. if pl_id x = pl_id p then ?f x else x) ?rows))"
    using assms(2) names only
    by (intro distinct_map_update_one [where v = "(pl_bot r, nocase name)"]) (auto simp: wf_bot_db_def)
  moreover have "lists_held (t_playlists db') (mput (pl_id p) (p\<lparr>pl_name := name\<rparr>) m)"
  proof (rule lists_held_put [OF assms(3)])
    show "map_option untimed_list (find_by pl_id i (t_playlists db'))
      = (if i = pl_id p then Some (untimed_list (p\<lparr>pl_name := name\<rparr>)) else map_option untimed_list (find_by pl_id i ?rows))" for i
    proof -
      have "untimed_list (p\<lparr>pl_name := name\<rparr>) = untimed_list (r\<lparr>pl_name := name\<rparr>)"
        using same by (cases p; cases r) (simp add: untimed_list_def)
      moreover have "find_by pl_id i (t_playlists db')
          = (if i = pl_id p then Some (r\<lparr>pl_name := name\<rparr>) else find_by pl_id i ?rows)"
        using r find_by_update [of pl_id "pl_id p" ?f i ?rows] by (simp add: db')
      ultimately show ?thesis by simp
    qed
  qed
  ultimately show ?thesis using assms(2) by (simp add: db' wf_bot_db_def)
qed

lemma lists_held_del:
  "lists_held rows m \<Longrightarrow> lists_held (filter (\<lambda>p. pl_id p \<noteq> k) rows) (mdel k m)"
  by (simp add: lists_held_def find_by_delete)

lemma lists_held_of_bot:
  assumes "lists_held rows m" "wf_map m" "distinct (map pl_id rows)"
  shows "lists_held (filter (\<lambda>p. pl_bot p \<noteq> i) rows) (filter (\<lambda>(_, p). pl_bot p \<noteq> i) m)"
  unfolding lists_held_def
proof
  fix k
  have same: "map_option untimed_list (mget m k) = map_option untimed_list (find_by pl_id k rows)"
    using assms(1) by (simp add: lists_held_def)
  show "map_option untimed_list (mget (filter (\<lambda>(_, p). pl_bot p \<noteq> i) m) k)
      = map_option untimed_list (find_by pl_id k (filter (\<lambda>p. pl_bot p \<noteq> i) rows))"
  proof (cases "mget m k")
    case None
    then show ?thesis using same assms(2,3) by (simp add: mget_filter find_by_filter)
  next
    case (Some p)
    then obtain r where r: "find_by pl_id k rows = Some r" "untimed_list p = untimed_list r"
      using same by (cases "find_by pl_id k rows") auto
    then have "pl_bot p = pl_bot r" by (cases p; cases r) (simp add: untimed_list_def)
    then show ?thesis using Some r assms(2,3) by (simp add: mget_filter find_by_filter)
  qed
qed

section \<open>Bots\<close>

lemma tables_ok_new_bot:
  "db_create_bot e d (bdb w1) = Inr db \<Longrightarrow> tables_ok w1 \<Longrightarrow> bd_id d = i \<Longrightarrow>
   tables_ok (set_bot i (idle_bot d) (w1\<lparr>bdb := db\<rparr>))"
  using db_create_bot_held [of e d "bdb w1" db "bots w1" "idle_bot d"]
  by (auto simp: tables_ok_def idle_bot_def)

lemma tables_ok_create: "tables_ok w \<Longrightarrow> tables_ok (fst (create_bot c a q w))"
  by (auto simp: create_bot_def Let_def intro: tables_ok_make_dir [THEN iffD2]
      intro!: tables_ok_new_bot split: option.split sum.split)

lemma apply_bot_spec_same: "apply_bot_spec q d0 = Inr d \<Longrightarrow> bd_id d = bd_id d0 \<and> bd_kind d = bd_kind d0"
  by (auto simp: apply_bot_spec_def split: sum.splits)

lemma tables_ok_new_def:
  assumes "tables_ok w" "db_update_bot e d (bdb w) = Inr db" "mget (bots w) i = Some b" "bd_id d = i"
    "bd_kind d = bd_kind (b_def b)" "b_def b' = d"
  shows "tables_ok (set_bot i b' (w\<lparr>bdb := db\<rparr>))"
  using assms db_update_bot_held [OF assms(2), of "bots w" b b'] db_update_bot_wf [OF assms(2)]
  by (simp add: tables_ok_def)

lemma tables_ok_update: "tables_ok w \<Longrightarrow> bots_ok w \<Longrightarrow> tables_ok (fst (update_bot c a q w))"
  using bots_ok_get [of w "bs_bot q"]
  by (auto simp: update_bot_def Let_def intro!: tables_ok_stop tables_ok_new_def
      dest!: apply_bot_spec_same split: option.split sum.split)


lemma bot_rows_held_sub:
  "bot_rows_held rows m \<Longrightarrow> set rows' \<subseteq> set rows \<Longrightarrow> bot_rows_held rows' m"
  unfolding bot_rows_held_def by blast

lemma bot_rows_held_drop:
  "bot_rows_held rows m \<Longrightarrow> set rows' \<subseteq> {r \<in> set rows. bd_id r \<noteq> i} \<Longrightarrow> bot_rows_held rows' (mdel i m)"
  by (auto simp: bot_rows_held_def subset_iff)

lemma db_delete_bot_rows:
  "(case db_delete_bot e i db of Inl BotRowNotFound \<Rightarrow> Inr db | r \<Rightarrow> r) = Inr db' \<Longrightarrow> wf_bot_db db \<Longrightarrow>
   wf_bot_db db' \<and> t_playlists db' = t_playlists db \<and> set (t_bots db') = {r \<in> set (t_bots db). bd_id r \<noteq> i}"
  by (auto simp: db_delete_bot_def wf_bot_db_def distinct_map_filter split: if_splits)

lemma tables_ok_delete: "tables_ok w \<Longrightarrow> bots_ok w \<Longrightarrow> tables_ok (fst (delete_bot c i w))"
proof (cases "mget (bots w) i = None \<or>
    (\<forall>db. (case db_delete_bot (cx_env (bx c)) i (bdb w) of Inl BotRowNotFound \<Rightarrow> Inr (bdb w) | r \<Rightarrow> r) \<noteq> Inr db)")
  case True
  moreover assume "tables_ok w"
  ultimately show ?thesis by (auto simp: delete_bot_def split: sum.split)
next
  case False
  assume ok: "tables_ok w" "bots_ok w"
  obtain db where db: "(case db_delete_bot (cx_env (bx c)) i (bdb w) of Inl BotRowNotFound \<Rightarrow> Inr (bdb w) | r \<Rightarrow> r) = Inr db"
    using False by blast
  note rows = db_delete_bot_rows [OF db]
  have "tables_ok (w\<lparr>bdb := db\<rparr>)"
    using ok(1) rows by (auto simp: tables_ok_def intro: bot_rows_held_sub)
  moreover have "tables_ok (drop_bot i (w\<lparr>bdb := db2\<rparr>))"
    if "db_delete_playlists_of_bot (cx_env (bx c)) i db = Inr db2" for db2
  proof -
    have db2: "db2 = db\<lparr>t_playlists := filter (\<lambda>p. pl_bot p \<noteq> i) (t_playlists db)\<rparr>"
      using that by (simp add: db_delete_playlists_of_bot_def split: if_splits)
    have "lists_held (t_playlists db2) (filter (\<lambda>(_, p). pl_bot p \<noteq> i) (lists w))"
      using ok rows lists_held_of_bot [of "t_playlists db" "lists w" i]
      by (simp add: db2 tables_ok_def wf_bot_db_def bots_ok_def)
    moreover have "wf_bot_db db2"
      using ok(1) rows by (simp add: db2 tables_ok_def wf_bot_db_def distinct_map_filter)
    moreover have "bot_rows_held (t_bots db2) (mdel i (bots w))"
      using ok(1) rows by (auto simp: db2 tables_ok_def intro: bot_rows_held_drop)
    ultimately show ?thesis by (simp add: tables_ok_def drop_bot_def)
  qed
  moreover obtain b where "mget (bots w) i = Some b" using False by auto
  ultimately show ?thesis using db by (simp add: delete_bot_def Let_def split: sum.split)
qed

section \<open>Playlists\<close>

lemma tables_ok_new_list:
  "db_create_playlist e p (bdb w1) = Inr db \<Longrightarrow> tables_ok w1 \<Longrightarrow> pl_id p = i \<Longrightarrow>
   tables_ok (w1\<lparr>bdb := db, lists := mput i p (lists w1)\<rparr>)"
  using db_create_playlist_held [of e p "bdb w1" db "lists w1"] by (auto simp: tables_ok_def)

lemma tables_ok_create_playlist: "tables_ok w \<Longrightarrow> tables_ok (fst (create_playlist c q w))"
  by (auto simp: create_playlist_def Let_def intro: tables_ok_make_dir [THEN iffD2]
      intro!: tables_ok_new_list split: option.split sum.split)

lemma tables_ok_rename_playlist: "tables_ok w \<Longrightarrow> bots_ok w \<Longrightarrow> tables_ok (fst (rename_playlist c q w))"
proof -
  assume ok: "tables_ok w" "bots_ok w"
  have "tables_ok (w\<lparr>bdb := db, lists := mput (pl_id p) (p\<lparr>pl_name := name\<rparr>) (lists w)\<rparr>)"
    if "db_rename_playlist e (pl_id p) name (bdb w) = Inr db" "playlist_of w i j = Inr p" for e p name db i j
  proof -
    have "mget (lists w) (pl_id p) = Some p"
      using that(2) ok(2) by (auto simp: playlist_of_Inr bots_ok_def)
    then show ?thesis
      using db_rename_playlist_held [OF that(1), of "lists w"] ok(1) by (simp add: tables_ok_def)
  qed
  then show ?thesis
    using ok by (auto simp: rename_playlist_def Let_def split: option.split sum.split)
qed

lemma tables_ok_select_playlist: "tables_ok w \<Longrightarrow> bots_ok w \<Longrightarrow> tables_ok (fst (select_playlist c a q w))"
  using bots_ok_get [of w "ps_bot q"]
  by (auto simp: select_playlist_def Let_def intro!: tables_ok_stop tables_ok_new_def
      split: option.split sum.split bot_store_error.split)

lemma tables_ok_apsnd: "apsnd h f = (w', r) \<Longrightarrow> tables_ok (fst f) \<Longrightarrow> tables_ok w'"
  by (cases f) simp

lemma tables_ok_del_list:
  "tables_ok w \<Longrightarrow> db_delete_playlist e i (bdb w) = Inr db \<Longrightarrow>
   tables_ok (w\<lparr>bdb := db, lists := mdel i (lists w)\<rparr>)"
  using lists_held_del [of "t_playlists (bdb w)" "lists w" i]
  by (auto simp: tables_ok_def db_delete_playlist_def wf_bot_db_def distinct_map_filter split: if_splits)

lemma tables_ok_delete_playlist: "tables_ok w \<Longrightarrow> bots_ok w \<Longrightarrow> tables_ok (fst (delete_playlist c a q w))"
  by (auto simp: delete_playlist_def Let_def intro: tables_ok_del_list
      intro: tables_ok_apsnd [OF _ tables_ok_select_playlist] split: sum.split option.splits prod.split if_splits)


section \<open>Loading\<close>

lemma untimed_list_id: "untimed_list p = untimed_list p' \<Longrightarrow> pl_id p = pl_id p'"
  by (cases p; cases p') (simp add: untimed_list_def)

lemma find_by_set_eq:
  assumes "set rows = set rows'" "distinct (map key rows)" "distinct (map key rows')"
  shows "find_by key k rows = find_by key k rows'"
proof -
  have "find_by key k rows = Some r \<longleftrightarrow> find_by key k rows' = Some r" for r
    by (simp add: find_by_Some_iff assms)
  then show ?thesis by (metis option.exhaust)
qed

lemma distinct_map_mset: "mset xs = mset ys \<Longrightarrow> distinct (map f xs) = distinct (map f ys)"
  by (metis mset_eq_imp_distinct_iff mset_map)

lemma db_list_playlists_mset: "db_list_playlists e d = Inr ps \<Longrightarrow> mset ps = mset (t_playlists d)"
  by (auto simp: db_list_playlists_def split: if_splits)

lemma db_list_bots_mset: "db_list_bots e d = Inr ds \<Longrightarrow> mset ds = mset (t_bots d)"
  by (auto simp: db_list_bots_def split: if_splits)

lemma lists_held_load:
  assumes "db_list_playlists e d = Inr ps" "wf_bot_db d"
  shows "lists_held (t_playlists d) (load_map pl_id ps)"
proof -
  note ms = db_list_playlists_mset [OF assms(1)]
  have dist: "distinct (map pl_id ps)"
    using assms(2) distinct_map_mset [OF ms, of pl_id] by (simp add: wf_bot_db_def)
  have "find_by pl_id k ps = find_by pl_id k (t_playlists d)" for k
    using assms(2) dist mset_eq_setD [OF ms] by (intro find_by_set_eq) (simp_all add: wf_bot_db_def)
  then show ?thesis by (simp add: lists_held_def mget_load_map [OF dist])
qed

lemma fold_put_defs:
  assumes "\<And>d m. b_def (f d m) = d"
  shows "distinct (map bd_id defs) \<Longrightarrow>
    (\<forall>d \<in> set defs. \<exists>b. mget (fold (\<lambda>d m. mput (bd_id d) (f d m) m) defs m) (bd_id d) = Some b \<and> b_def b = d)
    \<and> (\<forall>i. i \<notin> set (map bd_id defs) \<longrightarrow> mget (fold (\<lambda>d m. mput (bd_id d) (f d m) m) defs m) i = mget m i)"
proof (induction defs rule: rev_induct)
  case (snoc x defs)
  have "bd_id d \<noteq> bd_id x" if "d \<in> set defs" for d using snoc.prems that by (auto simp: image_iff)
  with snoc show ?case by (simp add: assms)
qed simp

lemma bot_rows_held_loaded:
  assumes "db_list_bots e d = Inr defs" "wf_bot_db d" "\<And>x m. b_def (f x m) = x"
  shows "bot_rows_held (t_bots d) (fold (\<lambda>x m. mput (bd_id x) (f x m) m) defs m)"
proof -
  note ms = db_list_bots_mset [OF assms(1)]
  have "distinct (map bd_id defs)" using assms(2) distinct_map_mset [OF ms, of bd_id] by (simp add: wf_bot_db_def)
  then show ?thesis
    using fold_put_defs [of f defs m, OF assms(3)] mset_eq_setD [OF ms]
    by (fastforce simp: bot_rows_held_def)
qed

lemma bot_rows_held_filter:
  "bot_rows_held rows m \<Longrightarrow> wf_map m \<Longrightarrow> (\<And>r b. r \<in> set rows \<Longrightarrow> P (bd_id r, b)) \<Longrightarrow> bot_rows_held rows (filter P m)"
  by (fastforce simp: bot_rows_held_def mget_filter)

lemma tables_ok_load: "wf_bot_db (bdb w) \<Longrightarrow> load_bots c w = (w', None) \<Longrightarrow> tables_ok w'"
  by (auto simp: load_bots_def Let_def tables_ok_def idle_bot_def
      intro!: lists_held_load bot_rows_held_loaded split: sum.splits)

lemma tables_ok_reload: "tables_ok w \<Longrightarrow> bots_ok w \<Longrightarrow> tables_ok (fst (reload_bots c w))"
proof -
  assume ok: "tables_ok w" "bots_ok w"
  let ?f = "\<lambda>w1 d m. rescan (cx_lower (bx c)) w1
    ((case mget m (bd_id d) of None \<Rightarrow> idle_bot d | Some b \<Rightarrow> b)\<lparr>b_def := d\<rparr>)"
  have wf: "wf_map (fold (\<lambda>d m. mput (bd_id d) (?f w1 d m) m) defs (bots w))" for w1 defs
    by (rule fold_invariant [where Q = "\<lambda>_. True"]) (use ok(2) in \<open>auto simp: bots_ok_def\<close>)
  have "bot_rows_held (t_bots (bdb w)) (filter (\<lambda>(i, _). i \<in> set (map bd_id defs))
      (fold (\<lambda>d m. mput (bd_id d) (?f w1 d m) m) defs (bots w)))"
    if "db_list_bots (cx_env (bx c)) (bdb w) = Inr defs" for defs w1
    using ok(1) mset_eq_setD [OF db_list_bots_mset [OF that]]
    by (intro bot_rows_held_filter wf bot_rows_held_loaded [OF that]) (auto simp: tables_ok_def)
  then show ?thesis
    using ok(1) by (auto simp: reload_bots_def Let_def tables_ok_def intro: lists_held_load split: sum.split)
qed

lemmas tables_ok_ops = tables_ok_reload tables_ok_create tables_ok_update tables_ok_delete tables_ok_move
  tables_ok_control tables_ok_play_begin tables_ok_play_end tables_ok_track_over tables_ok_room_gone
  tables_ok_create_playlist tables_ok_rename_playlist tables_ok_select_playlist tables_ok_delete_playlist
  tables_ok_request_track tables_ok_track_begin tables_ok_track_store tables_ok_delete_track

lemma tables_ok_step: "bot_step False w w' \<Longrightarrow> tables_ok w \<Longrightarrow> bots_ok w \<Longrightarrow> tables_ok w'"
  by (induction rule: bot_step.induct) (simp_all add: tables_ok_ops)

lemma tables_ok_reachable: "bots_reachable False w \<Longrightarrow> tables_ok w"
  by (induction rule: bots_reachable.induct) (auto intro: tables_ok_load tables_ok_step bots_ok_reachable)

end
