(* ===== verification/Bots_Demo.thy ===== *)
theory Bots_Demo
  imports Bots_Tables
begin

text \<open>
  A small site the witnesses are evaluated on: the server of \<open>Demo\<close> with a media server, one bot with two
  tracks in its library and one playlist with one track, and calls on which everything outside works.
\<close>

definition bot_cfg :: config where
  "bot_cfg = [(KeyLiveKitEnabled, runes ''true''), (KeyLiveKitURL, runes ''ws://a''),
     (KeyLiveKitAPIKey, runes ''k''), (KeyLiveKitAPISecret, runes ''s''),
     (KeyBotsDir, runes ''/m''), (KeyBotsMaxTrackMB, runes ''1''), (KeyBotsQuotaMB, runes ''1'')]"

lemma bot_cfg_facts [simp]:
  "media_enabled bot_cfg" "cfg_string bot_cfg KeyBotsDir = runes ''/m''"
  "cfg_int bot_cfg KeyBotsMaxTrackMB = 1" "cfg_int bot_cfg KeyBotsQuotaMB = 1"
  by (simp_all add: media_enabled_def cfg_bool_def cfg_int_def cfg_string_def bot_cfg_def runes_def parse_bool_def
    trim_space_def trim_by_def is_space_def lower_ascii_def atoi_def digits_val_def is_digit_def)

definition bot_call0 :: "string \<Rightarrow> string \<Rightarrow> bot_call" where
  "bot_call0 u t = \<lparr>bx = \<lparr>cx_env = quiet_env u 0, cx_lower = \<lambda>x. x, cx_token = t, cx_sign = \<lambda>_ _. []\<rparr>,
     bx_connected = \<lambda>_. True, bx_connects = True, bx_opens = True, bx_publishes = True,
     bx_draws = \<lambda>k. k, bx_fails = \<lambda>_. False\<rparr>"

lemma bot_call0_fields [simp]:
  "cx_env (bx (bot_call0 u t)) = quiet_env u 0" "cx_lower (bx (bot_call0 u t)) = (\<lambda>x. x)"
  "cx_token (bx (bot_call0 u t)) = t" "bx_connected (bot_call0 u t) i" "bx_connects (bot_call0 u t)"
  "bx_opens (bot_call0 u t)" "bx_publishes (bot_call0 u t)" "bx_draws (bot_call0 u t) k = k"
  "\<not> bx_fails (bot_call0 u t) d"
  by (simp_all add: bot_call0_def)

lemma quiet_call_fields [simp]: "new_uuid (quiet_env u t) = u" "clock (quiet_env u t) = t" "\<not> fails (quiet_env u t) x"
  by (simp_all add: quiet_env_def)

definition dj_row :: bot_def where
  "dj_row = \<lparr>bd_id = ''b'', bd_name = runes ''DJ'', bd_kind = ''music'', bd_folder = runes ''/m/b/default'',
     bd_color = [], bd_loop = True, bd_shuffle = False, bd_enabled = True, bd_playlist = [], bd_created_at = 5\<rparr>"

definition party_row :: playlist where
  "party_row = \<lparr>pl_id = ''p'', pl_bot = ''b'', pl_name = runes ''Party'', pl_created_at = 7\<rparr>"

definition music_dir :: "string list \<Rightarrow> ustring list" where
  "music_dir = map runes"

definition demo_music :: tree where
  "demo_music = \<lparr>dk_dirs = map music_dir [[''m''], [''m'', ''b''], [''m'', ''b'', ''default''], [''m'', ''b'', ''p'']],
          dk_files = [(music_dir [''m'', ''b'', ''default'', ''a.ogg''], 10),
                      (music_dir [''m'', ''b'', ''default'', ''b.ogg''], 20),
                      (music_dir [''m'', ''b'', ''default'', ''c.txt''], 30),
                      (music_dir [''m'', ''b'', ''p'', ''d.ogg''], 40)]\<rparr>"

definition bots_start :: site where
  "bots_start = \<lparr>srv = demo_server\<lparr>cfg := bot_cfg\<rparr>, bdb = \<lparr>t_bots = [dj_row], t_playlists = [party_row]\<rparr>,
     bots = [], gone = [], lists = [], uploads = [], links = [], callbacks = [],
     music = demo_music,
     workdir = runes ''/'', db_path = runes ''/m.db''\<rparr>"

definition demo_track :: "string \<Rightarrow> string \<Rightarrow> nat \<Rightarrow> track" where
  "demo_track folder name n =
     \<lparr>tr_title = runes name, tr_path = runes (''/m/b/'' @ folder @ ''/'' @ name @ ''.ogg''), tr_size = n\<rparr>"

definition dj :: bot where
  "dj = \<lparr>b_def = dj_row, b_tracks = [demo_track ''default'' ''a'' 10, demo_track ''default'' ''b'' 20],
     b_room = [], b_state = BotIdle, b_index = 0\<rparr>"

definition bots_site :: site where
  "bots_site = bots_start\<lparr>bots := [(''b'', dj)], lists := [(''p'', party_row)]\<rparr>"

lemmas path_eval = scan_folder_def trim_space_def trim_by_def is_space_def resolve_def rooted_def
  clean_elems_def clean_step_def runes_def music_dir_def is_dir_def walk_def strict_prefix_def prefix_code
  playable_def path_ext_def path_base_def render_def audio_extension_def lower_ascii_def track_of_def trim_suffix_def
  Let_def max_tracks_def

lemma dj_library:
  "scan_folder (\<lambda>x. x) (runes ''/'') demo_music (runes ''/m/b/default'') = Some (b_tracks dj)"
  by (simp add: path_eval demo_music_def dj_def demo_track_def)

lemma bots_start_fields [simp]:
  "srv bots_start = demo_server\<lparr>cfg := bot_cfg\<rparr>" "bdb bots_start = \<lparr>t_bots = [dj_row], t_playlists = [party_row]\<rparr>"
  "workdir bots_start = runes ''/''" "uploads bots_start = []" "links bots_start = []" "gone bots_start = []"
  "callbacks bots_start = []" "music bots_start = demo_music"
  by (simp_all add: bots_start_def)

lemma bots_site_fields [simp]:
  "srv bots_site = demo_server\<lparr>cfg := bot_cfg\<rparr>" "bots bots_site = [(''b'', dj)]" "lists bots_site = [(''p'', party_row)]"
  "bdb bots_site = \<lparr>t_bots = [dj_row], t_playlists = [party_row]\<rparr>" "workdir bots_site = runes ''/''"
  "music bots_site = demo_music" "uploads bots_site = []" "links bots_site = []" "gone bots_site = []"
  "callbacks bots_site = []"
  by (simp_all add: bots_site_def)

lemma dj_fields [simp]:
  "b_def dj = dj_row" "b_room dj = []" "b_state dj = BotIdle" "b_index dj = 0" "length (b_tracks dj) = 2"
  "b_tracks dj = [demo_track ''default'' ''a'' 10, demo_track ''default'' ''b'' 20]"
  by (simp_all add: dj_def)

lemma dj_row_fields [simp]:
  "bd_id dj_row = ''b''" "bd_name dj_row = runes ''DJ''" "bd_folder dj_row = runes ''/m/b/default''"
  "bd_loop dj_row" "\<not> bd_shuffle dj_row" "bd_enabled dj_row" "bd_playlist dj_row = []"
  by (simp_all add: dj_row_def)

lemma party_row_fields [simp]: "pl_id party_row = ''p''" "pl_bot party_row = ''b''" "pl_name party_row = runes ''Party''"
  by (simp_all add: party_row_def)

lemma bots_loaded: "load_bots (bot_call0 u t) bots_start = (bots_site, None)"
  by (simp add: load_bots_def db_list_bots_def db_list_playlists_def load_map_def rescan_def source_dir_def
      idle_bot_def dj_library bots_site_def Let_def)

lemma bots_site_reachable: "bots_reachable panel bots_site"
proof (rule bots_reachable.boot [OF _ _ bots_loaded])
  show "wf_bot_db (bdb bots_start)" by (simp add: wf_bot_db_def)
  show "wf_tree (music bots_start)"
    by (simp add: wf_tree_def wf_map_def demo_music_def music_dir_def runes_def)
qed

text \<open>The same site with the bot in the room \<open>hall\<close>.\<close>

definition dj_in_hall :: bot where
  "dj_in_hall = dj\<lparr>b_room := hall, b_state := BotStopped\<rparr>"

definition hall_site :: site where
  "hall_site = bots_site\<lparr>bots := [(''b'', dj_in_hall)],
     links := [(''b'', \<lparr>pu_room = hall, pu_playing = None, pu_generation = 0\<rparr>)]\<rparr>"

lemma dj_in_hall_fields [simp]:
  "b_def dj_in_hall = dj_row" "b_room dj_in_hall = hall" "b_state dj_in_hall = BotStopped" "b_index dj_in_hall = 0"
  "b_tracks dj_in_hall = [demo_track ''default'' ''a'' 10, demo_track ''default'' ''b'' 20]"
  by (simp_all add: dj_in_hall_def)

lemma hall_site_fields [simp]:
  "srv hall_site = demo_server\<lparr>cfg := bot_cfg\<rparr>" "bots hall_site = [(''b'', dj_in_hall)]"
  "lists hall_site = [(''p'', party_row)]" "bdb hall_site = \<lparr>t_bots = [dj_row], t_playlists = [party_row]\<rparr>"
  "workdir hall_site = runes ''/''" "music hall_site = demo_music" "uploads hall_site = []" "gone hall_site = []"
  "links hall_site = [(''b'', \<lparr>pu_room = hall, pu_playing = None, pu_generation = 0\<rparr>)]" "callbacks hall_site = []"
  by (simp_all add: hall_site_def)

lemma demo_music_wf [simp]: "wf_tree demo_music"
  by (simp add: wf_tree_def wf_map_def demo_music_def music_dir_def runes_def)

lemma hall_site_ok: "bots_ok hall_site"
  by (simp add: bots_ok_def wf_map_def index_ok_def)

lemma audio_enabled_demo [simp]: "cfg (srv w) = bot_cfg \<Longrightarrow> audio_enabled w"
  by (simp add: audio_enabled_def)

end
