(* ===== verification/Bots_Library.thy ===== *)
theory Bots_Library
  imports Bots_Demo Files_Correct
begin

text \<open>
  The music of the bots: names of tracks, listing a folder, uploads, and what an operation may change on disk.
\<close>

section \<open>Track names\<close>

text \<open>A track name the server accepts is one entry of a folder: no separator, no character a file
  system could trip over, not \<open>.\<close> or \<open>..\<close>, at most 120 runes, and with an extension the library plays.\<close>

theorem track_name_is_safe:
  assumes "track_file_name raw = Inr n"
  shows "plain n \<and> (\<forall>r \<in> set n. \<not> bad_name_rune r) \<and> length n \<le> 120 \<and> audio_extension (path_ext n)"
proof -
  define f where "f = trim_by (\<lambda>r. r = 0x20 \<or> r = full_stop) (filter (\<lambda>r. \<not> bad_name_rune r)
    (trim_space (path_base (map (\<lambda>r. if r = backslash then slash else r) (trim_space raw)))))"
  have f: "\<forall>r \<in> set f. \<not> bad_name_rune r"
    unfolding f_def using set_trim_by by fastforce
  define m where "m = (if length f > 120 then take (120 - length (path_ext f)) f @ path_ext f else f)"
  have "track_file_name raw =
     (if f = [] \<or> f = [full_stop] \<or> f = dotdot then Inl BotsInvalid
      else if length f > 120 \<and> 120 < length (path_ext f) then Inl BotsPanic
      else if \<not> audio_extension (path_ext m) then Inl BotsNotOpus else Inr m)"
    unfolding track_file_name_def Let_def f_def [symmetric] m_def [symmetric] ..
  then have ok: "\<not> (length f > 120 \<and> 120 < length (path_ext f))" "audio_extension (path_ext n)" and nm: "n = m"
    using assms by (simp_all split: if_split_asm)
  note n = nm [unfolded m_def]
  have dot: "\<not> bad_name_rune full_stop" by (simp add: bad_name_rune_def)
  have runes: "\<forall>r \<in> set n. \<not> bad_name_rune r"
  proof
    fix r
    assume "r \<in> set n"
    then have "r \<in> set f \<or> r \<in> set (path_ext f)" by (auto simp: n dest: in_set_takeD split: if_splits)
    then have "r \<in> set f \<or> r = full_stop" using set_path_ext [of f] by blast
    then show "\<not> bad_name_rune r" using f dot by blast
  qed
  then have "slash \<notin> set n" by (auto simp: bad_name_rune_def)
  moreover have "n \<noteq> []" "n \<noteq> [full_stop]" "n \<noteq> dotdot"
    using ok(2) by (auto simp: path_ext_def audio_extension_def runes_def lower_ascii_def)
  moreover have "length n \<le> 120" using ok(1) by (auto simp: n)
  ultimately show ?thesis using runes ok(2) by (simp add: plain_def)
qed

theorem track_name_is_safe_witness:
  "track_file_name (runes ''C:/music/a?.OGG '') = Inr (runes ''a.OGG'') \<and> plain (runes ''a.OGG'')"
proof -
  have h: "track_file_name (runes ''C:/music/a?.OGG '') = Inr (runes ''a.OGG'')"
    by (simp add: track_file_name_def path_base_def path_ext_def trim_space_def trim_by_def is_space_def
        bad_name_rune_def audio_extension_def lower_ascii_def runes_def Let_def)
  show ?thesis using h track_name_is_safe [OF h] by simp
qed

text \<open>The extension is kept when a long name is cut, whatever its length, so a name of one rune and an
  extension of more than 120 slices with a negative bound: the handler panics.\<close>

theorem long_extension_panics:
  assumes "120 \<le> n"
  shows "track_file_name (120 # full_stop # replicate n 97) = Inl BotsPanic"
proof -
  let ?name = "120 # full_stop # replicate n (97 :: nat)"
  have last: "last ?name = 97" using assms by simp
  have sp: "trim_space ?name = ?name" unfolding trim_space_def
    by (rule trim_by_id) (use last in \<open>simp add: is_space_def\<close>)
  have mp: "map (\<lambda>r. if r = backslash then slash else r) ?name = ?name" by simp
  have rv: "rev ?name = replicate n 97 @ [full_stop, 120]" by simp
  have base: "path_base ?name = ?name"
  proof -
    have "dropWhile (\<lambda>c. c = slash) (rev ?name) = rev ?name"
      using assms unfolding rv by (cases n) simp_all
    moreover have "takeWhile (\<lambda>c. c \<noteq> slash) (rev ?name) = rev ?name"
      by (simp add: takeWhile_eq_all_conv)
    moreover have "?name \<noteq> []" "rev ?name \<noteq> []" by simp_all
    ultimately show ?thesis unfolding path_base_def Let_def by (simp only: rev_rev_ident if_False)
  qed
  have flt: "filter (\<lambda>r. \<not> bad_name_rune r) ?name = ?name"
    by (simp add: bad_name_rune_def filter_replicate)
  have tr: "trim_by (\<lambda>r. r = 0x20 \<or> r = full_stop) ?name = ?name"
    by (rule trim_by_id) (use last in simp)
  have q: "takeWhile (\<lambda>c. c \<noteq> full_stop \<and> c \<noteq> slash) (replicate n 97 @ [full_stop, 120]) = replicate n 97"
    by (subst takeWhile_append2) auto
  have ext: "path_ext ?name = full_stop # replicate n 97"
    unfolding path_ext_def rv q Let_def by (simp add: nth_append)
  have "length ?name > 120 \<and> 120 < length (path_ext ?name)" using assms ext by simp
  then show ?thesis unfolding track_file_name_def sp mp base Let_def flt tr by simp
qed

section \<open>Listing a folder\<close>

lemma scan_folder_Some:
  "scan_folder lower cwd t folder = Some ts \<longleftrightarrow>
     trim_space folder \<noteq> [] \<and> is_dir t (resolve cwd (trim_space folder))
     \<and> ts = sort_key (\<lambda>x. lower (tr_path x)) (take max_tracks
         (map track_of (filter (\<lambda>(p, _). playable p) (walk t (resolve cwd (trim_space folder))))))"
  by (auto simp: scan_folder_def Let_def)

text \<open>A listing holds at most 5000 tracks, in the order of their paths without case; every one is a
  playable file below the folder, with its size, and unless there are more than 5000 every playable file
  below the folder is in it exactly once.\<close>

theorem library_listing:
  assumes "scan_folder lower cwd t folder = Some ts" "wf_tree t"
  shows "length ts \<le> 5000 \<and> sorted (map (\<lambda>x. lower (tr_path x)) ts)
    \<and> (let files = filter (\<lambda>(p, _). strict_prefix (resolve cwd (trim_space folder)) p \<and> playable p) (dk_files t) in
       set ts \<subseteq> track_of ` set files \<and> (length files \<le> 5000 \<longrightarrow> mset ts = mset (map track_of files)))"
proof -
  let ?rt = "resolve cwd (trim_space folder)"
  let ?found = "filter (\<lambda>(p, _). playable p) (walk t ?rt)"
  let ?files = "filter (\<lambda>(p, _). strict_prefix ?rt p \<and> playable p) (dk_files t)"
  have ts: "ts = sort_key (\<lambda>x. lower (tr_path x)) (take max_tracks (map track_of ?found))"
    using assms(1) by (simp add: scan_folder_Some)
  have found: "mset ?found = mset ?files"
    by (simp add: walk_def mset_filter filter_filter_mset case_prod_unfold)
  have "set ts \<subseteq> track_of ` set ?found" using set_take_subset by (fastforce simp: ts)
  also have "set ?found = set ?files" using found by (rule mset_eq_setD)
  finally have sub: "set ts \<subseteq> track_of ` set ?files" .
  have len: "length ?found = length ?files" using found by (rule mset_eq_length)
  have "mset ts = mset (map track_of ?files)" if "length ?files \<le> 5000"
  proof -
    have "mset ts = mset (map track_of ?found)" using that len by (simp add: ts max_tracks_def)
    also have "\<dots> = mset (map track_of ?files)" by (simp only: mset_map found)
    finally show ?thesis .
  qed
  then show ?thesis using sub by (simp add: ts max_tracks_def Let_def)
qed

theorem library_listing_witness:
  "mset (b_tracks dj) = mset [demo_track ''default'' ''a'' 10, demo_track ''default'' ''b'' 20]
   \<and> sorted (map tr_path (b_tracks dj))"
  using library_listing [OF dj_library demo_music_wf] by simp

text \<open>The clients are shown the bots in the order a stable sort by lower-case name gives, and the
  playlists of a bot in that of their creation times: the hand-written loops are insertion sorts.\<close>

theorem lists_are_stably_sorted:
  "bot_views lower w = sort_key (\<lambda>v. lower (bv_name v)) (map (view_bot w) (vals (bots w)))
   \<and> playlists_of w i = sort_key pl_created_at (filter (\<lambda>p. pl_bot p = i) (vals (lists w)))"
  by (simp add: bot_views_def sort_bots_eq playlists_of_def sort_playlists_eq)

text \<open>A playlist made since the start has the creation time 0 in memory, so it is listed before all older
  ones until the next reload, not after them.\<close>

lemma sort_key_hd_min:
  assumes "x \<in> set xs" "\<And>y. y \<in> set xs \<Longrightarrow> y \<noteq> x \<Longrightarrow> f x < (f y :: 'k :: linorder)"
  shows "sort_key f xs \<noteq> [] \<and> hd (sort_key f xs) = x"
proof -
  have ne: "sort_key f xs \<noteq> []" using assms(1) by (metis empty_iff set_sort set_empty)
  then have "hd (sort_key f xs) \<in> set xs" by (metis hd_in_set set_sort)
  moreover have "f (hd (sort_key f xs)) \<le> f x"
  proof -
    have "sorted (map f (sort_key f xs))" by simp
    moreover have "x \<in> set (sort_key f xs)" using assms(1) by simp
    ultimately show ?thesis using ne by (cases "sort_key f xs") auto
  qed
  ultimately show ?thesis using assms(2) ne by fastforce
qed

theorem new_playlist_sorts_first:
  assumes "create_playlist c q w = (w', Inr v)" "wf_map (lists w)"
    and "\<And>p x. mget (lists w) p = Some x \<Longrightarrow> p \<noteq> bp_id v \<Longrightarrow> pl_created_at x > 0"
  shows "playlists_of w' (ps_bot q) \<noteq> [] \<and> pl_id (hd (playlists_of w' (ps_bot q))) = bp_id v"
proof -
  let ?x = "\<lambda>name. \<lparr>pl_id = new_uuid (cx_env (bx c)), pl_bot = ps_bot q, pl_name = name, pl_created_at = 0\<rparr>"
  obtain name where name: "lists w' = mput (pl_id (?x name)) (?x name) (lists w)" "v = view_playlist (?x name) 0"
  proof -
    have "\<exists>name. lists w' = mput (pl_id (?x name)) (?x name) (lists w) \<and> v = view_playlist (?x name) 0"
      using assms(1) by (cases "normalize_name (ps_name q) ''playlist name'' 1 48")
        (auto simp: create_playlist_def Let_def dest!: make_dir_facts split: sum.splits if_splits option.splits)
    then show thesis using that by blast
  qed
  define x where "x = ?x name"
  have x: "pl_created_at x = 0" "pl_bot x = ps_bot q" "pl_id x = bp_id v"
    and lists: "lists w' = mput (bp_id v) x (lists w)"
    using name by (simp_all add: x_def view_playlist_def)
  have wf: "wf_map (lists w')" using assms(2) by (simp add: lists)
  let ?mine = "filter (\<lambda>p. pl_bot p = ps_bot q) (vals (lists w'))"
  have "x \<in> snd ` set (lists w')" unfolding vals_wf [OF wf] by (simp add: lists exI [of _ "bp_id v"])
  then have "x \<in> set ?mine" using x(2) by simp
  moreover have "pl_created_at x < pl_created_at y" if "y \<in> set ?mine" "y \<noteq> x" for y
  proof -
    have "y \<in> snd ` set (lists w')" using that(1) by simp
    then obtain p where "mget (lists w') p = Some y" unfolding vals_wf [OF wf] ..
    then have "mget (lists w) p = Some y" "p \<noteq> bp_id v" using that(2) by (auto simp: lists split: if_splits)
    then show ?thesis using assms(3) x(1) by simp
  qed
  ultimately show ?thesis
    using sort_key_hd_min [of x ?mine pl_created_at] x(3) by (simp add: playlists_of_def sort_playlists_eq)
qed

section \<open>Memory and tables\<close>

text \<open>C22. As long as nobody edits the tables behind the manager's back, its maps refine them: every row of
  \<open>bots\<close> is held in memory with the same definition, and memory has exactly the playlists of the table, under
  the same names. The creation times alone may differ.\<close>

theorem memory_refines_tables:
  assumes "bots_reachable False w"
  shows "(\<forall>r \<in> set (t_bots (bdb w)). \<exists>b. mget (bots w) (bd_id r) = Some b
      \<and> (b_def b)\<lparr>bd_created_at := 0\<rparr> = r\<lparr>bd_created_at := 0\<rparr>)
    \<and> (\<forall>i. map_option (\<lambda>p. p\<lparr>pl_created_at := 0\<rparr>) (mget (lists w) i)
         = map_option (\<lambda>p. p\<lparr>pl_created_at := 0\<rparr>) (find_by pl_id i (t_playlists (bdb w))))"
  using tables_ok_reachable [OF assms]
  unfolding tables_ok_def bot_rows_held_def lists_held_def untimed_bot_def untimed_list_def by blast

theorem memory_refines_tables_witness:
  "\<exists>b. mget (bots bots_site) ''b'' = Some b \<and> (b_def b)\<lparr>bd_created_at := 0\<rparr> = dj_row\<lparr>bd_created_at := 0\<rparr>"
  using memory_refines_tables [OF bots_site_reachable] by simp

end
