(* ===== verification/Bots_Disk.thy ===== *)
theory Bots_Disk
  imports Bots_Demo
begin

text \<open>
  What the operations on bots change on disk: where an upload lands, what a deletion removes, and that no
  operation reaches outside the folder of the bot it is about.
\<close>

abbreviation files_at :: "site \<Rightarrow> ustring list \<Rightarrow> nat option" where
  "files_at w \<equiv> mget (dk_files (music w))"

definition folder_of :: "site \<Rightarrow> string \<Rightarrow> ustring list" where
  "folder_of w i = resolve (workdir w) (managed_folder w i)"

definition confined :: "site \<Rightarrow> site \<Rightarrow> string \<Rightarrow> bool" where
  "confined w w' i \<longleftrightarrow> (\<forall>p. \<not> prefix (folder_of w i) p \<longrightarrow> files_at w' p = files_at w p)"

lemma storage_root_nonempty [simp]: "storage_root w \<noteq> []"
proof -
  have "path_join (path_dir d) x \<noteq> []" for d x by (simp add: path_dir_def)
  then show ?thesis by (auto simp: storage_root_def Let_def rooted_def)
qed

lemma storage_root_cong: "cfg (srv w') = cfg (srv w) \<Longrightarrow> db_path w' = db_path w \<Longrightarrow> storage_root w' = storage_root w"
  unfolding storage_root_def by (simp only:)

lemma folder_of_plain: "plain (runes i) \<Longrightarrow> folder_of w i = resolve (workdir w) (storage_root w) @ [runes i]"
  by (simp add: folder_of_def managed_folder_def)

lemma runes_inject [simp]: "runes i = runes j \<longleftrightarrow> i = j"
  by (simp add: runes_def inj_map_eq_map inj_on_def)

lemma folders_apart:
  "plain (runes i) \<Longrightarrow> plain (runes j) \<Longrightarrow> i \<noteq> j \<Longrightarrow> prefix (folder_of w i) p \<Longrightarrow> \<not> prefix (folder_of w j) p"
  by (auto simp: folder_of_plain prefix_def)

lemma playlist_dir_inside: "plain (runes p) \<Longrightarrow> resolve (workdir w) (playlist_dir w i p) = folder_of w i @ [runes p]"
  by (simp add: playlist_dir_def managed_folder_def folder_of_def)

lemma same_folders:
  "cfg (srv w') = cfg (srv w) \<Longrightarrow> workdir w' = workdir w \<Longrightarrow> db_path w' = db_path w \<Longrightarrow>
   folder_of w' i = folder_of w i \<and> playlist_dir w' i p = playlist_dir w i p \<and> managed_folder w' i = managed_folder w i"
  using storage_root_cong [of w' w] by (simp add: folder_of_def managed_folder_def playlist_dir_def)

text \<open>The places an operation does not change.\<close>

definition same_place :: "site \<Rightarrow> site \<Rightarrow> bool" where
  "same_place w w' \<longleftrightarrow> cfg (srv w') = cfg (srv w) \<and> workdir w' = workdir w \<and> db_path w' = db_path w"

lemma same_place_refl [simp]: "same_place w w" by (simp add: same_place_def)

lemma same_place_stop [simp]: "same_place w (fst (stop_bot a i w)) \<and> music (fst (stop_bot a i w)) = music w"
  by (simp add: same_place_def stop_bot_def Let_def split: option.split)

lemma same_place_refresh [simp]: "same_place w (fst (refresh_queue c a i w)) \<and> music (fst (refresh_queue c a i w)) = music w"
  by (simp add: same_place_def refresh_queue_def Let_def split: option.split)

lemma same_place_select [simp]:
  "same_place w (fst (select_playlist c a q w)) \<and> music (fst (select_playlist c a q w)) = music w"
  using same_place_stop by (auto simp: same_place_def select_playlist_def Let_def split: option.split sum.split bot_store_error.split)

section \<open>Deleting a bot\<close>

lemma delete_bot_parts:
  assumes "delete_bot c i w = (w', None)"
  obtains db db2 w2 where
    "(case db_delete_bot (cx_env (bx c)) i (bdb w) of Inl BotRowNotFound \<Rightarrow> Inr (bdb w) | r \<Rightarrow> r) = Inr db"
    "db_delete_playlists_of_bot (cx_env (bx c)) i db = Inr db2"
    "w2 = audio_leave i (drop_bot i (w\<lparr>bdb := db2\<rparr>))" "w' = remove_tree c (managed_folder w i) w2"
proof -
  obtain db where db: "(case db_delete_bot (cx_env (bx c)) i (bdb w) of Inl BotRowNotFound \<Rightarrow> Inr (bdb w) | r \<Rightarrow> r) = Inr db"
    using assms by (auto simp: delete_bot_def split: if_splits sum.splits)
  then obtain db2 where db2: "db_delete_playlists_of_bot (cx_env (bx c)) i db = Inr db2"
    using assms by (auto simp: delete_bot_def Let_def split: if_splits sum.splits)
  define w2 where "w2 = audio_leave i (drop_bot i (w\<lparr>bdb := db2\<rparr>))"
  have "w' = remove_tree c (managed_folder w2 i) w2"
    using assms db db2 by (auto simp: delete_bot_def Let_def w2_def split: if_splits)
  moreover have "managed_folder w2 i = managed_folder w i"
    using same_folders [of w2 w] by (simp add: w2_def drop_bot_def)
  ultimately show thesis using that [OF db db2 w2_def] by simp
qed

lemma bot_files:
  assumes "bots_ok w" "delete_bot c i w = (w', None)"
  shows "files_at w' p = (if \<not> bx_fails c RemoveTree \<and> prefix (folder_of w i) p then None else files_at w p)"
proof -
  obtain db db2 w2 where w2: "w2 = audio_leave i (drop_bot i (w\<lparr>bdb := db2\<rparr>))" and w': "w' = remove_tree c (managed_folder w i) w2"
    using delete_bot_parts [OF assms(2)] by metis
  have "music w2 = music w" "workdir w2 = workdir w" by (simp_all add: w2 drop_bot_def)
  then show ?thesis using bots_ok_wf_tree [OF assms(1)]
    by (simp add: w' remove_tree_def folder_of_def files_remove_all)
qed

text \<open>C24. A successful deletion leaves nothing of the bot: not in memory, not in the tables, not in the media
  session, and, if the disk obeys, not in its folder; tickets for uploads to it run out by themselves. Every other bot, playlist, connection and file stays,
  the files of the other bots among them.\<close>

theorem bot_deletion_complete:
  assumes "bots_ok w" "delete_bot c i w = (w', None)" "plain (runes i)"
  shows "mget (bots w') i = None \<and> mget (links w') i = None \<and> i \<notin> pl_bot ` snd ` set (lists w')
    \<and> i \<notin> bd_id ` set (t_bots (bdb w')) \<and> i \<notin> pl_bot ` set (t_playlists (bdb w'))
    \<and> (\<forall>j. j \<noteq> i \<longrightarrow> mget (bots w') j = mget (bots w) j \<and> mget (links w') j = mget (links w) j)
    \<and> (\<forall>p. files_at w' p = (if \<not> bx_fails c RemoveTree \<and> prefix (folder_of w i) p then None else files_at w p))
    \<and> (\<forall>j p. j \<noteq> i \<and> plain (runes j) \<and> prefix (folder_of w j) p \<longrightarrow> files_at w' p = files_at w p)"
proof -
  obtain db db2 w2 where db: "(case db_delete_bot (cx_env (bx c)) i (bdb w) of Inl BotRowNotFound \<Rightarrow> Inr (bdb w) | r \<Rightarrow> r) = Inr db"
    and db2: "db_delete_playlists_of_bot (cx_env (bx c)) i db = Inr db2"
    and w2: "w2 = audio_leave i (drop_bot i (w\<lparr>bdb := db2\<rparr>))" and w': "w' = remove_tree c (managed_folder w i) w2"
    using delete_bot_parts [OF assms(2)] by metis
  have "t_bots db2 = t_bots db" "i \<notin> pl_bot ` set (t_playlists db2)"
    using db2 by (auto simp: db_delete_playlists_of_bot_def split: if_splits)
  moreover have "i \<notin> bd_id ` set (t_bots db)"
    using db by (auto simp: db_delete_bot_def split: if_splits)
  moreover have "mget (bots w') j = (if j = i then None else mget (bots w) j)"
    "mget (links w') j = (if j = i then None else mget (links w) j)" "bdb w' = db2"
    "i \<notin> pl_bot ` snd ` set (lists w')" for j
    by (auto simp: w' w2 remove_tree_def drop_bot_def audio_leave_def)
  ultimately show ?thesis
    using bot_files [OF assms(1,2)] folders_apart [OF assms(3)] by auto
qed

theorem bot_deletion_complete_witness:
  "\<exists>w'. delete_bot (bot_call0 ''u'' ''t'') ''b'' hall_site = (w', None) \<and> mget (bots w') ''b'' = None"
proof -
  let ?c = "bot_call0 ''u'' ''t''"
  obtain w' where d: "delete_bot ?c ''b'' hall_site = (w', None)"
    by (simp add: delete_bot_def db_delete_bot_def db_delete_playlists_of_bot_def Let_def)
  have "plain (runes ''b'')" by (simp add: plain_def runes_def)
  from bot_deletion_complete [OF hall_site_ok d this, THEN conjunct1] d show ?thesis by auto
qed

section \<open>Uploading a track\<close>

lemma make_dir_place: "make_dir c path w = Some w' \<Longrightarrow> \<exists>t. w' = w\<lparr>music := t\<rparr> \<and> dk_files t = dk_files (music w)"
  by (auto dest!: make_dir_facts simp: files_mkdir)

lemma free_name_fresh: "free_name w dir name = Inr path \<Longrightarrow> \<not> path_exists w path"
  by (auto simp: free_name_def find_Some_iff split: option.splits)

lemma path_exists_cong:
  "dk_files (music w') = dk_files (music w) \<Longrightarrow> dk_dirs (music w') = dk_dirs (music w) \<Longrightarrow> workdir w' = workdir w \<Longrightarrow>
   path_exists w' = path_exists w"
  by (rule ext) (simp add: path_exists_def is_dir_def is_file_def)

text \<open>What a successful first half of an upload has found out.\<close>

lemma track_begin_Inr:
  assumes "track_begin c token w = (w1, Inr j)"
  obtains t x tree where "(token, t) \<in> set (uploads w)" "clock (cx_env (bx c)) \<le> tt_expires t" "tj_ticket j = t"
    "playlist_of w (tt_bot t) (tt_playlist t) = Inr x" "\<not> path_exists w1 (tj_path j)"
    "prefix (resolve (workdir w) (playlist_dir w (tt_bot t) (tt_playlist t))) (resolve (workdir w) (tj_path j))"
    "w1 = w\<lparr>uploads := mdel token (uploads (sweep_uploads (clock (cx_env (bx c))) w)), music := tree\<rparr>"
    "mkdir_all (resolve (workdir w) (playlist_dir w (tt_bot t) (tt_playlist t))) (music w) = Some tree"
    "free_name w1 (playlist_dir w (tt_bot t) (tt_playlist t)) (tt_name t) = Inr (tj_path j)"
proof -
  define w2 where "w2 = w\<lparr>uploads := mdel token (uploads (sweep_uploads (clock (cx_env (bx c))) w))\<rparr>"
  have "(sweep_uploads (clock (cx_env (bx c))) w)\<lparr>uploads := mdel token (uploads (sweep_uploads (clock (cx_env (bx c))) w))\<rparr> = w2"
    by (simp add: sweep_uploads_def w2_def)
  note started = assms [unfolded track_begin_def Let_def this]
  have dir: "playlist_dir w2 i p = playlist_dir w i p" for i p
    using same_folders [of w2 w] by (simp add: w2_def)
  have "of": "playlist_of w2 i p = playlist_of w i p" for i p
    by (simp add: playlist_of_def w2_def)
  obtain t where t: "mget (uploads (sweep_uploads (clock (cx_env (bx c))) w)) token = Some t"
    "clock (cx_env (bx c)) \<le> tt_expires t"
    using started by (cases "mget (uploads (sweep_uploads (clock (cx_env (bx c))) w)) token") (auto split: if_splits)
  have mem: "(token, t) \<in> set (uploads w)"
    using map_of_SomeD [OF t(1)] by (simp add: sweep_uploads_def)
  obtain x where x: "playlist_of w (tt_bot t) (tt_playlist t) = Inr x"
    using started t by (cases "playlist_of w (tt_bot t) (tt_playlist t)") (simp_all add: "of")
  let ?dir = "playlist_dir w (tt_bot t) (tt_playlist t)"
  obtain w3 where w3: "make_dir c ?dir w2 = Some w3"
    using started t x by (cases "make_dir c ?dir w2") (simp_all add: "of" dir)
  then obtain tree where tree: "w3 = w2\<lparr>music := tree\<rparr>" "mkdir_all (resolve (workdir w) ?dir) (music w) = Some tree"
    using make_dir_facts [OF w3] by (auto simp: w2_def)
  obtain path where path: "free_name w3 ?dir (tt_name t) = Inr path" "within_root (workdir w3) ?dir path"
    "w1 = w3" "tj_ticket j = t" "tj_path j = path"
    using started t x w3 by (cases "free_name w3 ?dir (tt_name t)") (auto simp: "of" dir split: if_splits)
  have "workdir w3 = workdir w" by (simp add: tree(1) w2_def)
  then show thesis
    using mem t(2) x path free_name_fresh [OF path(1)] tree
    by (intro that [of t x tree]) (simp_all add: within_root_prefix w2_def)
qed

lemma refresh_queue_Inr:
  "refresh_queue c a i w = (w', Inr v) \<Longrightarrow>
   \<exists>b. mget (bots w) i = Some b \<and> mget (bots w') i = Some (rescan (cx_lower (bx c)) w b)
     \<and> v = view_bot w' (rescan (cx_lower (bx c)) w b)"
  by (auto simp: refresh_queue_def Let_def intro: view_bot_cong split: option.splits)

text \<open>C25. An upload that succeeds had a ticket that was still good, for a playlist the bot still has. It wrote
  exactly one file: a new one, inside the folder of that playlist, of the size that was sent, which is not
  empty and within the ticket's limit. The bot's folder is within its quota, the ticket is spent, and the
  bot's queue is what its folder now holds.\<close>

theorem track_upload_lands:
  assumes "upload_track c token io w = (w', Inr v)"
  shows "\<exists>t x p. (token, t) \<in> set (uploads w) \<and> clock (cx_env (bx c)) \<le> tt_expires t
    \<and> playlist_of w (tt_bot t) (tt_playlist t) = Inr x
    \<and> strict_prefix (resolve (workdir w) (playlist_dir w (tt_bot t) (tt_playlist t))) p
    \<and> files_at w p = None \<and> files_at w' = (files_at w)(p \<mapsto> up_size io)
    \<and> 0 < up_size io \<and> int (up_size io) \<le> tt_max t
    \<and> bot_usage w' (tt_bot t) \<le> bot_quota w' \<and> mget (uploads w') token = None
    \<and> v = view_bot w' (the (mget (bots w') (tt_bot t)))"
proof -
  obtain w1 j where started: "track_begin c token w = (w1, Inr j)" and st: "track_store c j io w1 = (w', Inr v)"
    using assms by (auto simp: upload_track_def split: prod.splits sum.splits)
  obtain t x tree where t: "(token, t) \<in> set (uploads w)" "clock (cx_env (bx c)) \<le> tt_expires t" "tj_ticket j = t"
    "playlist_of w (tt_bot t) (tt_playlist t) = Inr x" "\<not> path_exists w1 (tj_path j)"
    and inside: "prefix (resolve (workdir w) (playlist_dir w (tt_bot t) (tt_playlist t))) (resolve (workdir w) (tj_path j))"
    and w1: "w1 = w\<lparr>uploads := mdel token (uploads (sweep_uploads (clock (cx_env (bx c))) w)), music := tree\<rparr>"
    and tree: "mkdir_all (resolve (workdir w) (playlist_dir w (tt_bot t) (tt_playlist t))) (music w) = Some tree"
    using track_begin_Inr [OF started] by metis
  define p where "p = resolve (workdir w) (tj_path j)"
  have files1: "dk_files (music w1) = dk_files (music w)" using files_mkdir [OF tree] by (simp add: w1)
  have dir_there: "is_dir tree (resolve (workdir w) (playlist_dir w (tt_bot t) (tt_playlist t)))"
    using tree by (auto simp: mkdir_all_def is_dir_def split: if_splits)
  then have "p \<noteq> resolve (workdir w) (playlist_dir w (tt_bot t) (tt_playlist t))"
    using t(5) by (auto simp: path_exists_def p_def w1)
  with inside have below: "strict_prefix (resolve (workdir w) (playlist_dir w (tt_bot t) (tt_playlist t))) p"
    by (simp add: p_def strict_prefix_def)
  obtain w2 where lim: "store_limited c (tj_path j) io (tt_max t) w1 = (w2, None)"
    and quota: "bot_usage w2 (tt_bot t) \<le> bot_quota w2" and ref: "refresh_queue c (tt_client t) (tt_bot t) w2 = (w', Inr v)"
    using st by (auto simp: track_store_def t(3) Let_def split: prod.splits option.splits if_splits)
  have size: "0 < up_size io" "int (up_size io) \<le> tt_max t" and w2: "w2 = w1\<lparr>music := write_file p (up_size io) (music w1)\<rparr>"
    using lim by (auto simp: store_limited_def Let_def w1 p_def split: if_splits)
  have same: "music w' = music w2" "uploads w' = uploads w2" "cfg (srv w') = cfg (srv w2)" "workdir w' = workdir w2"
    "db_path w' = db_path w2"
    using ref by (auto simp: refresh_queue_def Let_def split: option.splits)
  have "bot_usage w' (tt_bot t) = bot_usage w2 (tt_bot t)" "bot_quota w' = bot_quota w2"
    using same same_folders [of w' w2] by (simp_all add: bot_usage_def bot_quota_def)
  moreover have "files_at w' = (files_at w)(p \<mapsto> up_size io)"
    by (rule ext) (simp add: same w2 files_write files1)
  moreover have "files_at w p = None" using t(5) files1 by (simp add: path_exists_def is_file_def p_def w1)
  moreover have "mget (uploads w') token = None" by (simp add: same w2 w1)
  moreover have "v = view_bot w' (the (mget (bots w') (tt_bot t)))" using refresh_queue_Inr [OF ref] by auto
  ultimately show ?thesis using t below size quota by metis
qed

lemma free_name_first:
  "\<not> path_exists w (path_join dir name) \<Longrightarrow> free_name w dir name = Inr (path_join dir name)"
  by (simp add: free_name_def name_candidate_def upt_conv_Cons)

definition demo_ticket :: "string \<Rightarrow> track_ticket" where
  "demo_ticket client = \<lparr>tt_bot = ''b'', tt_client = client, tt_playlist = ''p'', tt_name = runes ''n.ogg'',
     tt_max = 100, tt_expires = 9\<rparr>"

definition upload_site :: site where
  "upload_site = bots_site\<lparr>uploads := [(''k'', demo_ticket ''ann''), (''l'', demo_ticket ''bob'')]\<rparr>"

definition small_track :: "nat \<Rightarrow> upload_io" where
  "small_track n = \<lparr>up_size = n, up_fails = False, up_mime = [], up_thumb = (0, 0, False)\<rparr>"

lemma demo_ticket_fields [simp]:
  "tt_bot (demo_ticket u) = ''b''" "tt_playlist (demo_ticket u) = ''p''" "tt_name (demo_ticket u) = runes ''n.ogg''"
  "tt_max (demo_ticket u) = 100" "tt_expires (demo_ticket u) = 9"
  by (simp_all add: demo_ticket_def)

lemma small_track_fields [simp]: "up_size (small_track n) = n" "\<not> up_fails (small_track n)"
  by (simp_all add: small_track_def)

lemma upload_site_fields [simp]:
  "srv upload_site = demo_server\<lparr>cfg := bot_cfg\<rparr>" "bots upload_site = [(''b'', dj)]" "lists upload_site = [(''p'', party_row)]"
  "workdir upload_site = runes ''/''" "music upload_site = demo_music"
  "uploads upload_site = [(''k'', demo_ticket ''ann''), (''l'', demo_ticket ''bob'')]"
  by (simp_all add: upload_site_def)

lemma demo_root: "cfg (srv w) = bot_cfg \<Longrightarrow> storage_root w = runes ''/m''"
  by (simp add: storage_root_def trim_space_def trim_by_def is_space_def runes_def rooted_def)

lemma demo_folder: "cfg (srv w) = bot_cfg \<Longrightarrow> workdir w = runes ''/'' \<Longrightarrow>
    resolve (runes ''/'') (playlist_dir w ''b'' ''p'') = music_dir [''m'', ''b'', ''p'']
    \<and> resolve (runes ''/'') (path_join (playlist_dir w ''b'' ''p'') (runes ''n.ogg'')) = music_dir [''m'', ''b'', ''p'', ''n.ogg'']
    \<and> resolve (runes ''/'') (managed_folder w ''b'') = music_dir [''m'', ''b'']"
  by (simp add: playlist_dir_def managed_folder_def demo_root plain_def runes_def)
    (simp add: path_eval)

lemma demo_mkdir: "mkdir_all (music_dir [''m'', ''b'', ''p'']) demo_music = Some demo_music"
  by (simp add: mkdir_all_def is_file_def is_dir_def demo_music_def music_dir_def runes_def)

lemma demo_within: "cfg (srv w) = bot_cfg \<Longrightarrow> workdir w = runes ''/'' \<Longrightarrow>
    within_root (runes ''/'') (playlist_dir w ''b'' ''p'') (path_join (playlist_dir w ''b'' ''p'') (runes ''n.ogg''))"
  by (simp add: within_root_prefix demo_folder music_dir_def)

definition taken_by :: "string \<Rightarrow> site \<Rightarrow> track_job" where
  "taken_by client w = \<lparr>tj_ticket = demo_ticket client,
     tj_path = path_join (playlist_dir w ''b'' ''p'') (runes ''n.ogg'')\<rparr>"

lemma demo_begin:
  assumes "cfg (srv w) = bot_cfg" "workdir w = runes ''/''" "music w = demo_music" "bots w = [(''b'', dj)]"
    "lists w = [(''p'', party_row)]" "mget (uploads w) token = Some (demo_ticket client)"
    "\<And>k t. (k, t) \<in> set (uploads w) \<Longrightarrow> 0 \<le> tt_expires t"
  shows "track_begin (bot_call0 u s) token w = (w\<lparr>uploads := mdel token (uploads w)\<rparr>, Inr (taken_by client w))"
proof -
  have swept: "sweep_uploads 0 w = w"
  proof -
    have "filter (\<lambda>(_, t). \<not> 0 > tt_expires t) (uploads w) = uploads w"
      by (rule filter_True) (use assms(7) in \<open>force\<close>)
    then show ?thesis by (simp add: sweep_uploads_def)
  qed
  let ?w2 = "w\<lparr>uploads := mdel token (uploads w)\<rparr>"
  have dir: "playlist_dir ?w2 ''b'' ''p'' = playlist_dir w ''b'' ''p''"
    using same_folders [of ?w2 w] by simp
  have "make_dir (bot_call0 u s) (playlist_dir w ''b'' ''p'') ?w2 = Some ?w2"
    using assms(1-3) demo_folder [of w] by (simp add: make_dir_def demo_mkdir)
  moreover have "\<not> path_exists ?w2 (path_join (playlist_dir w ''b'' ''p'') (runes ''n.ogg''))"
    using assms(1-3) demo_folder [of w]
    by (simp add: path_exists_def is_dir_def is_file_def demo_music_def music_dir_def runes_def)
  ultimately show ?thesis
    using assms demo_within [of w]
    by (simp add: track_begin_def Let_def swept dir playlist_of_def free_name_first taken_by_def)
qed

lemma demo_stored:
  assumes "cfg (srv w) = bot_cfg" "workdir w = runes ''/''" "music w = demo_music" "bots w = [(''b'', dj)]" "0 < n" "n \<le> 100"
  shows "\<exists>v. snd (track_store (bot_call0 u s) (taken_by client w) (small_track n) w) = Inr v"
proof -
  let ?p = "music_dir [''m'', ''b'', ''p'', ''n.ogg'']"
  have path: "resolve (runes ''/'') (tj_path (taken_by client w)) = ?p"
    using assms(1,2) demo_folder [of w] by (simp add: taken_by_def)
  then have "\<not> path_exists w (tj_path (taken_by client w))" "is_dir (music w) (butlast ?p)"
    using assms(2,3) by (simp_all add: path_exists_def is_dir_def is_file_def demo_music_def music_dir_def runes_def)
  then have lim: "store_limited (bot_call0 u s) (tj_path (taken_by client w)) (small_track n) 100 w
      = (w\<lparr>music := write_file ?p n demo_music\<rparr>, None)"
    using assms path by (simp add: store_limited_def Let_def)
  let ?w1 = "w\<lparr>music := write_file ?p n demo_music\<rparr>"
  have "managed_folder ?w1 ''b'' = managed_folder w ''b''" using same_folders [of ?w1 w] by simp
  then have "bot_usage ?w1 ''b'' \<le> 1048576"
    using assms demo_folder [of w]
    by (simp add: bot_usage_def walk_def write_file_def demo_music_def music_dir_def runes_def strict_prefix_def)
  then show ?thesis
    using assms lim by (simp add: track_store_def taken_by_def bot_quota_def refresh_queue_def Let_def)
qed

theorem track_upload_lands_witness:
  "\<exists>w' v p. upload_track (bot_call0 ''u'' ''t'') ''k'' (small_track 7) upload_site = (w', Inr v) \<and> files_at w' p = Some 7"
proof -
  let ?w = "upload_site\<lparr>uploads := [(''l'', demo_ticket ''bob'')]\<rparr>"
  have begin_: "track_begin (bot_call0 ''u'' ''t'') ''k'' upload_site = (?w, Inr (taken_by ''ann'' upload_site))"
    by (subst demo_begin) auto
  have "taken_by ''ann'' ?w = taken_by ''ann'' upload_site"
    using same_folders [of ?w upload_site] by (simp add: taken_by_def)
  then have "\<exists>v. snd (track_store (bot_call0 ''u'' ''t'') (taken_by ''ann'' upload_site) (small_track 7) ?w) = Inr v"
    using demo_stored [of ?w 7 "''u''" "''t''" "''ann''"] by simp
  then obtain w' v where "track_store (bot_call0 ''u'' ''t'') (taken_by ''ann'' upload_site) (small_track 7) ?w = (w', Inr v)"
    by (cases "track_store (bot_call0 ''u'' ''t'') (taken_by ''ann'' upload_site) (small_track 7) ?w") auto
  then have up: "upload_track (bot_call0 ''u'' ''t'') ''k'' (small_track 7) upload_site = (w', Inr v)"
    by (simp add: upload_track_def begin_)
  obtain p where "files_at w' = (files_at upload_site)(p \<mapsto> 7)"
    using track_upload_lands [OF up] by auto
  then show ?thesis using up by auto
qed

section \<open>Uploads of the same name\<close>

lemma mkdir_all_again:
  assumes "mkdir_all p t = Some t'"
  shows "mkdir_all p t' = Some t'"
proof -
  have t': "t' = t\<lparr>dk_dirs := dk_dirs t @ filter (\<lambda>q. \<not> is_dir t q) (prefixes p)\<rparr>"
    and clear: "\<not> (\<exists>q \<in> set (prefixes p). is_file t q)"
    using assms by (auto simp: mkdir_all_def split: if_splits)
  have "filter (\<lambda>q. \<not> is_dir t' q) (prefixes p) = []"
    by (auto simp: filter_empty_conv t' is_dir_def)
  moreover have "\<not> (\<exists>q \<in> set (prefixes p). is_file t' q)"
    using clear by (simp add: t' is_file_def)
  ultimately show ?thesis by (simp add: mkdir_all_def)
qed

text \<open>Two uploads of one name to one playlist that overlap choose the same path. The second finds the
  file of the first in its way, fails, and removes it as its own leftover: the first was told its track is
  stored, and it is gone.\<close>

theorem overlapping_uploads_lose_a_track:
  assumes "track_begin c token w = (w1, Inr j)" "track_begin d token' w1 = (w2, Inr j')"
    and "tt_bot (tj_ticket j') = tt_bot (tj_ticket j)" "tt_playlist (tj_ticket j') = tt_playlist (tj_ticket j)"
      "tt_name (tj_ticket j') = tt_name (tj_ticket j)"
    and "track_store c j io w2 = (w3, Inr v)" "track_store d j' io' w3 = (w4, r)" "\<not> bx_fails d RemoveFile"
  shows "files_at w3 (resolve (workdir w) (tj_path j)) = Some (up_size io) \<and> r = Inl BotsIO
    \<and> files_at w4 (resolve (workdir w) (tj_path j)) = None"
proof -
  obtain t x tree where t: "tj_ticket j = t" and tree: "mkdir_all (resolve (workdir w) (playlist_dir w (tt_bot t) (tt_playlist t))) (music w) = Some tree"
    and w1: "w1 = w\<lparr>uploads := mdel token (uploads (sweep_uploads (clock (cx_env (bx c))) w)), music := tree\<rparr>"
    and free: "free_name w1 (playlist_dir w (tt_bot t) (tt_playlist t)) (tt_name t) = Inr (tj_path j)"
    using track_begin_Inr [OF assms(1)] by metis
  obtain t' x' tree' where t': "tj_ticket j' = t'"
    and tree': "mkdir_all (resolve (workdir w1) (playlist_dir w1 (tt_bot t') (tt_playlist t'))) (music w1) = Some tree'"
    and w2: "w2 = w1\<lparr>uploads := mdel token' (uploads (sweep_uploads (clock (cx_env (bx d))) w1)), music := tree'\<rparr>"
    and free': "free_name w2 (playlist_dir w1 (tt_bot t') (tt_playlist t')) (tt_name t') = Inr (tj_path j')"
    using track_begin_Inr [OF assms(2)] by metis
  have ts: "tt_bot t' = tt_bot t" "tt_playlist t' = tt_playlist t" "tt_name t' = tt_name t"
    using assms(3-5) t t' by simp_all
  have dir: "playlist_dir w1 b p = playlist_dir w b p" for b p
    using same_folders [of w1 w] by (simp add: w1)
  have "workdir w1 = workdir w" "music w1 = tree" by (simp_all add: w1)
  then have "tree' = tree"
    using mkdir_all_again [OF tree] tree' by (simp add: ts dir)
  then have "path_exists w2 = path_exists w1" by (intro path_exists_cong) (simp_all add: w1 w2)
  then have "free_name w2 = free_name w1" by (intro ext) (simp add: free_name_def)
  then have same: "tj_path j' = tj_path j" using free free' by (simp add: ts dir)
  have wd: "workdir w2 = workdir w" by (simp add: w1 w2)
  let ?p = "resolve (workdir w) (tj_path j)"
  obtain w5 where lim: "store_limited c (tj_path j) io (tt_max (tj_ticket j)) w2 = (w5, None)"
    and ref: "refresh_queue c (tt_client (tj_ticket j)) (tt_bot (tj_ticket j)) w5 = (w3, Inr v)"
    using assms(6) by (auto simp: track_store_def Let_def split: prod.splits option.splits if_splits)
  have w5: "w5 = w2\<lparr>music := write_file ?p (up_size io) (music w2)\<rparr>"
    using lim by (auto simp: store_limited_def Let_def wd split: if_splits)
  have w3: "music w3 = music w5" "workdir w3 = workdir w5"
    using same_place_refresh [of w5 c "tt_client (tj_ticket j)" "tt_bot (tj_ticket j)"] ref by (simp_all add: same_place_def)
  then have there: "files_at w3 ?p = Some (up_size io)" by (simp add: w5 files_write)
  then have "path_exists w3 (tj_path j')"
    using w3 by (simp add: path_exists_def is_file_def same w5 wd)
  then have "store_limited d (tj_path j') io' (tt_max (tj_ticket j')) w3 = (w3, Some BotsIO)"
    by (simp add: store_limited_def Let_def)
  then have "r = Inl BotsIO" "w4 = w3\<lparr>music := remove_file (resolve (workdir w3) (tj_path j')) (music w3)\<rparr>"
    using assms(7,8) by (simp_all add: track_store_def remove_track_def)
  then show ?thesis using there w3 by (simp add: files_remove same w5 wd)
qed

theorem overlapping_uploads_lose_a_track_witness:
  "\<exists>w1 j w2 j' w3 v w4. track_begin (bot_call0 ''u'' ''t'') ''k'' upload_site = (w1, Inr j)
     \<and> track_begin (bot_call0 ''u'' ''t'') ''l'' w1 = (w2, Inr j')
     \<and> track_store (bot_call0 ''u'' ''t'') j (small_track 7) w2 = (w3, Inr v)
     \<and> track_store (bot_call0 ''u'' ''t'') j' (small_track 9) w3 = (w4, Inl BotsIO)
     \<and> files_at w4 (resolve (workdir upload_site) (tj_path j)) = None"
proof -
  let ?c = "bot_call0 ''u'' ''t''"
  let ?w1 = "upload_site\<lparr>uploads := [(''l'', demo_ticket ''bob'')]\<rparr>"
  let ?w2 = "upload_site\<lparr>uploads := []\<rparr>"
  have b1: "track_begin ?c ''k'' upload_site = (?w1, Inr (taken_by ''ann'' upload_site))"
    by (subst demo_begin) auto
  have b2: "track_begin ?c ''l'' ?w1 = (?w2, Inr (taken_by ''bob'' ?w1))"
    by (subst demo_begin) auto
  have "taken_by ''ann'' ?w2 = taken_by ''ann'' upload_site"
    using same_folders [of ?w2 upload_site] by (simp add: taken_by_def)
  then have "\<exists>v. snd (track_store ?c (taken_by ''ann'' upload_site) (small_track 7) ?w2) = Inr v"
    using demo_stored [of ?w2 7 "''u''" "''t''" "''ann''"] by simp
  then obtain w3 v where s1: "track_store ?c (taken_by ''ann'' upload_site) (small_track 7) ?w2 = (w3, Inr v)"
    by (cases "track_store ?c (taken_by ''ann'' upload_site) (small_track 7) ?w2") auto
  obtain w4 r where s2: "track_store ?c (taken_by ''bob'' ?w1) (small_track 9) w3 = (w4, r)" by force
  have "r = Inl BotsIO" "files_at w4 (resolve (workdir upload_site) (tj_path (taken_by ''ann'' upload_site))) = None"
    using overlapping_uploads_lose_a_track [OF b1 b2 _ _ _ s1 s2] by (simp_all add: taken_by_def)
  then show ?thesis using b1 b2 s1 s2 by blast
qed

section \<open>Nothing outside the bot's folder\<close>

lemma track_begin_files: "dk_files (music (fst (track_begin c token w))) = dk_files (music w)
    \<and> same_place w (fst (track_begin c token w))"
  by (auto simp: track_begin_def Let_def sweep_uploads_def same_place_def dest!: make_dir_place split: option.split sum.split)

lemma track_store_files:
  assumes "q \<noteq> resolve (workdir w) (tj_path j)"
  shows "files_at (fst (track_store c j io w)) q = files_at w q"
proof -
  obtain w1 r where lim: "store_limited c (tj_path j) io (tt_max (tj_ticket j)) w = (w1, r)" by force
  have w1: "files_at w1 q = files_at w q" "workdir w1 = workdir w"
    using lim assms by (auto simp: store_limited_def Let_def files_write split: if_splits)
  have "files_at (remove_track c (tj_path j) w1) q = files_at w1 q"
    using assms by (simp add: remove_track_def files_remove w1(2))
  then show ?thesis using w1 by (auto simp: track_store_def lim Let_def split: option.split)
qed

lemma confined_dir:
  assumes "plain (runes p)" "\<And>q. \<not> prefix (resolve (workdir w) (playlist_dir w i p)) q \<Longrightarrow> files_at w' q = files_at w q"
  shows "confined w w' i"
  unfolding confined_def
proof (intro allI impI)
  fix q
  assume "\<not> prefix (folder_of w i) q"
  then have "\<not> prefix (resolve (workdir w) (playlist_dir w i p)) q"
    unfolding playlist_dir_inside [OF assms(1)] by (metis append_prefixD)
  then show "files_at w' q = files_at w q" by (rule assms(2))
qed

lemma confined_refl [simp]: "confined w w i"
  by (simp add: confined_def)

lemma confined_delete_playlist:
  assumes ok: "bots_ok w" and ids: "\<And>p x. mget (lists w) p = Some x \<Longrightarrow> plain (runes p)"
  shows "confined w (fst (delete_playlist c a q w)) (ps_bot q)"
proof (cases "playlist_of w (ps_bot q) (ps_playlist q)")
  case (Inr x)
  then have x: "mget (lists w) (ps_playlist q) = Some x" "pl_bot x = ps_bot q" "pl_id x = ps_playlist q"
    using ok by (auto simp: playlist_of_Inr bots_ok_def)
  let ?sel = "select_playlist c a \<lparr>ps_bot = pl_bot x, ps_playlist = [], ps_name = []\<rparr> w"
  let ?active = "case mget (bots w) (pl_bot x) of None \<Rightarrow> False | Some b \<Rightarrow> bd_playlist (b_def b) = pl_id x"
  obtain w1 r where w1: "(if ?active then apsnd refused ?sel else (w, None)) = (w1, r)" by force
  have place: "same_place w w1" "music w1 = music w"
    using w1 same_place_select [of w c a "\<lparr>ps_bot = pl_bot x, ps_playlist = [], ps_name = []\<rparr>"]
    by (cases ?sel; simp split: if_splits)+
  have removed: "files_at (remove_tree c (playlist_dir w2 (pl_bot x) (pl_id x)) w2) p = files_at w p"
    if "\<not> prefix (resolve (workdir w) (playlist_dir w (pl_bot x) (pl_id x))) p"
      "w2 = w1\<lparr>bdb := db, lists := m\<rparr>" for p w2 db m
  proof -
    have "playlist_dir w2 b p = playlist_dir w b p" "workdir w2 = workdir w" "music w2 = music w" for b p
      using place same_folders [of w2 w] by (simp_all add: that(2) same_place_def)
    then show ?thesis
      using that(1) bots_ok_wf_tree [OF ok] by (simp add: remove_tree_def files_remove_all)
  qed
  show ?thesis
  proof (rule confined_dir [OF ids [OF x(1)]])
    fix p
    assume "\<not> prefix (resolve (workdir w) (playlist_dir w (ps_bot q) (ps_playlist q))) p"
    then show "files_at (fst (delete_playlist c a q w)) p = files_at w p"
      using removed [of p _ _ _] place(2) x(2,3)
      unfolding delete_playlist_def Inr Let_def sum.case w1
      by (auto split: option.split sum.split)
  qed
qed (simp add: delete_playlist_def)

lemma confined_delete_track:
  assumes ok: "bots_ok w" and ids: "\<And>p x. mget (lists w) p = Some x \<Longrightarrow> plain (runes p)"
  shows "confined w (fst (delete_track c a f w)) (bf_bot f)"
proof (cases "playlist_of w (bf_bot f) (bf_playlist f)")
  case (Inr x)
  then have x: "mget (lists w) (bf_playlist f) = Some x" "pl_bot x = bf_bot f" "pl_id x = bf_playlist f"
    using ok by (auto simp: playlist_of_Inr bots_ok_def)
  show ?thesis
  proof (rule confined_dir [OF ids [OF x(1)]])
    fix p
    assume p: "\<not> prefix (resolve (workdir w) (playlist_dir w (bf_bot f) (bf_playlist f))) p"
    have "files_at (w\<lparr>music := remove_file (resolve (workdir w) path) (music w)\<rparr>) p = files_at w p"
      if "within_root (workdir w) (playlist_dir w (bf_bot f) (bf_playlist f)) path" for path
      using that p by (auto simp: within_root_prefix files_remove)
    then show "files_at (fst (delete_track c a f w)) p = files_at w p"
      by (auto simp: delete_track_def Inr x Let_def split: option.split)
  qed
qed (simp add: delete_track_def)

text \<open>C11. With ids that are single path elements, nothing that is done to one bot changes a file outside
  that bot's own folder: not deleting it, a playlist of it or a track, not an upload, whether it succeeds or
  fails half way, and creating or changing bots and playlists changes no file at all.\<close>

theorem bot_files_confined:
  assumes "bots_ok w" "plain (runes i)" "\<forall>p x. mget (lists w) p = Some x \<longrightarrow> plain (runes p)"
  shows "confined w (fst (delete_bot c i w)) i \<and> confined w (fst (delete_playlist c a q w)) (ps_bot q)
    \<and> confined w (fst (delete_track c a f w)) (bf_bot f)
    \<and> (\<forall>w1 j. track_begin c token w = (w1, Inr j) \<longrightarrow> confined w (fst (track_store c j io w1)) (tt_bot (tj_ticket j)))
    \<and> files_at (fst (create_bot c a s w)) = files_at w \<and> files_at (fst (update_bot c a s w)) = files_at w
    \<and> files_at (fst (create_playlist c q w)) = files_at w \<and> files_at (fst (rename_playlist c q w)) = files_at w
    \<and> files_at (fst (select_playlist c a q w)) = files_at w"
proof (intro conjI allI impI)
  show "confined w (fst (delete_bot c i w)) i"
  proof (cases "snd (delete_bot c i w)")
    case None
    then have "delete_bot c i w = (fst (delete_bot c i w), None)" by (metis prod.collapse)
    from bot_files [OF assms(1) this] show ?thesis by (simp add: confined_def)
  next
    case (Some err)
    then show ?thesis by (auto simp: delete_bot_def confined_def Let_def split: if_splits sum.splits)
  qed
  show "confined w (fst (delete_playlist c a q w)) (ps_bot q)" "confined w (fst (delete_track c a f w)) (bf_bot f)"
    using assms confined_delete_playlist confined_delete_track by blast+
  show "confined w (fst (track_store c j io w1)) (tt_bot (tj_ticket j))" if b: "track_begin c token w = (w1, Inr j)" for w1 j
  proof -
    obtain t x where t: "tj_ticket j = t" "playlist_of w (tt_bot t) (tt_playlist t) = Inr x"
      "prefix (resolve (workdir w) (playlist_dir w (tt_bot t) (tt_playlist t))) (resolve (workdir w) (tj_path j))"
      using track_begin_Inr [OF b] by metis
    have w1: "dk_files (music w1) = dk_files (music w)" "workdir w1 = workdir w"
      using track_begin_files [of c token w] b by (simp_all add: same_place_def)
    have "plain (runes (tt_playlist t))" using t(2) assms(3) by (auto simp: playlist_of_Inr)
    then show ?thesis
      using t(3) w1 unfolding t(1) by (elim confined_dir) (subst track_store_files, auto)
  qed
  show "files_at (fst (create_bot c a s w)) = files_at w"
    by (rule ext) (auto simp: create_bot_def Let_def dest!: make_dir_place split: option.split sum.split)
  show "files_at (fst (update_bot c a s w)) = files_at w"
    by (rule ext) (auto simp: update_bot_def Let_def same_place_stop [THEN conjunct2] split: option.split sum.split)
  show "files_at (fst (create_playlist c q w)) = files_at w"
    by (rule ext) (auto simp: create_playlist_def Let_def dest!: make_dir_place split: option.split sum.split)
  show "files_at (fst (rename_playlist c q w)) = files_at w"
    by (rule ext) (auto simp: rename_playlist_def Let_def split: option.split sum.split)
  show "files_at (fst (select_playlist c a q w)) = files_at w" by simp
qed

theorem bot_files_confined_witness:
  "confined bots_site (fst (delete_bot (bot_call0 ''u'' ''t'') ''b'' bots_site)) ''b''"
proof -
  have "bots_ok bots_site" using bots_site_reachable [of True] by (rule bots_ok_reachable)
  then show ?thesis
    using bot_files_confined [of bots_site "''b''"] by (simp add: plain_def runes_def)
qed

end
