(* ===== verification/Gateway_Names.thy ===== *)
theory Gateway_Names
  imports Gateway_Safety
begin

text \<open>
  Names under concurrency. A handshake asks \<open>UsernameTaken\<close> and registers later with \<open>Add\<close>, a rename asks and
  sets later, each without a lock over the two (\<open>gateway/gateway.go\<close>, \<open>pump.go\<close>). Here the two are separate steps
  and anything may come between them. What remains true is that a name is shared only when somebody took it
  between another's check and its use, and that does happen.
\<close>

section \<open>Checks under way\<close>

text \<open>A check that was passed and not yet used: whose it is, for which name, the session when it is a rename, and
  the names that were taken since, as they compare.\<close>

record waiting =
  wt_user :: uuid
  wt_name :: ustring
  wt_session :: "sref option"
  wt_since :: "ustring list"

text \<open>\<open>rc_clashes\<close> notes the names that were used after a check although they had been taken since it.\<close>

record race =
  rc_server :: server
  rc_waiting :: "waiting list"
  rc_clashes :: "ustring list"

text \<open>The names somebody has after a step and did not have before it.\<close>

definition taken_by_step :: "(ustring \<Rightarrow> ustring) \<Rightarrow> server \<Rightarrow> server \<Rightarrow> ustring list" where
  "taken_by_step lower w w' =
     map (\<lambda>(_, x). lower (s_username (heap w' x)))
       (filter (\<lambda>(v, x). \<not> (mget (live w) v = Some x \<and> s_username (heap w' x) = s_username (heap w x))) (live w'))"

definition note_taken :: "ustring list \<Rightarrow> waiting \<Rightarrow> waiting" where
  "note_taken ns e = e\<lparr>wt_since := wt_since e @ ns\<rparr>"

definition moved_on :: "(ustring \<Rightarrow> ustring) \<Rightarrow> server \<Rightarrow> race \<Rightarrow> race" where
  "moved_on lower w' s =
     s\<lparr>rc_server := w', rc_waiting := map (note_taken (taken_by_step lower (rc_server s) w')) (rc_waiting s)\<rparr>"

definition used :: "(ustring \<Rightarrow> ustring) \<Rightarrow> waiting \<Rightarrow> race \<Rightarrow> race" where
  "used lower e s =
     s\<lparr>rc_waiting := remove1 e (rc_waiting s),
       rc_clashes := (if lower (wt_name e) \<in> set (wt_since e) then lower (wt_name e) # rc_clashes s else rc_clashes s)\<rparr>"

inductive race_step :: "(ustring \<Rightarrow> ustring) \<Rightarrow> race \<Rightarrow> race \<Rightarrow> bool" for lower where
  whole: "gate_step lower (rc_server s) w' \<Longrightarrow> race_step lower s (moved_on lower w' s)"
| hello_checked: "check_hello c fr (rc_server s) = Inr (u, name) \<Longrightarrow> cx_lower c = lower \<Longrightarrow>
    race_step lower s (s\<lparr>rc_waiting := \<lparr>wt_user = u, wt_name = name, wt_session = None, wt_since = []\<rparr> # rc_waiting s\<rparr>)"
| registered: "e \<in> set (rc_waiting s) \<Longrightarrow> wt_session e = None \<Longrightarrow> cx_lower c = lower \<Longrightarrow>
    w' = fst (admit_client c su bots av rm i (wt_user e, wt_name e) (rc_server s)) \<Longrightarrow>
    race_step lower s (moved_on lower w' (used lower e s))"
| rename_checked: "mget (live (rc_server s)) (s_uuid (heap (rc_server s) r)) = Some r \<Longrightarrow>
    rename_check c r raw (rc_server s) = Inr (Some name) \<Longrightarrow> cx_lower c = lower \<Longrightarrow>
    race_step lower s (s\<lparr>rc_waiting := \<lparr>wt_user = s_uuid (heap (rc_server s) r), wt_name = name, wt_session = Some r,
      wt_since = []\<rparr> # rc_waiting s\<rparr>)"
| renamed: "e \<in> set (rc_waiting s) \<Longrightarrow> wt_session e = Some r \<Longrightarrow> cx_lower c = lower \<Longrightarrow>
    w' = rename_to c r i (wt_name e) (rc_server s) \<Longrightarrow>
    race_step lower s (moved_on lower w' (used lower e s))"

inductive race_reachable :: "(ustring \<Rightarrow> ustring) \<Rightarrow> race \<Rightarrow> bool" for lower where
  start: "starting w \<Longrightarrow> race_reachable lower \<lparr>rc_server = w, rc_waiting = [], rc_clashes = []\<rparr>"
| step: "race_reachable lower s \<Longrightarrow> race_step lower s s' \<Longrightarrow> race_reachable lower s'"

section \<open>What a step does to the names\<close>

text \<open>Who is registered afterwards was so before, with the same name, or is one of \<open>P\<close> and has the name \<open>name\<close>.\<close>

definition only_named :: "(uuid \<Rightarrow> sref \<Rightarrow> bool) \<Rightarrow> ustring \<Rightarrow> server \<Rightarrow> server \<Rightarrow> bool" where
  "only_named P name w w' \<longleftrightarrow> (\<forall>v x. mget (live w') v = Some x \<longrightarrow>
     (mget (live w) v = Some x \<and> s_username (heap w' x) = s_username (heap w x)) \<or> (P v x \<and> s_username (heap w' x) = name))"

lemma only_named_people: "people w w' \<Longrightarrow> only_named P name w w'"
  by (simp add: only_named_def people_def)

lemma only_named_then_calm: "only_named P name w w1 \<Longrightarrow> calm w1 w' \<Longrightarrow> only_named P name w w'"
  using people_calm [of w1 w'] by (simp add: only_named_def people_def)

lemma admit_names:
  assumes inv: "rooms_inv w"
  shows "rooms_inv (fst (admit_client c su bots av rm i (u, name) w))"
    "only_named (\<lambda>v x. v = u) name w (fst (admit_client c su bots av rm i (u, name) w))"
proof -
  have old: "x < next_ref w" if "mget (live w) v = Some x" for v x
    using that wf_net_live [OF rooms_invD(1) [OF inv]] by blast
  show "rooms_inv (fst (admit_client c su bots av rm i (u, name) w))"
    by (rule admit_client_cases [OF inv, of c su bots av rm i u name]) simp_all
  show "only_named (\<lambda>v x. v = u) name w (fst (admit_client c su bots av rm i (u, name) w))"
    by (rule admit_client_cases [OF inv, of c su bots av rm i u name])
      (auto simp: only_named_def dest: old split: if_splits)
qed

lemma rename_to_calm: "calm (set_username r name w) (rename_to c r i name w)"
  by (simp add: rename_to_def calm_intros Let_def)

lemma rename_names:
  assumes inv: "rooms_inv w"
  shows "rooms_inv (rename_to c r i name w)" "only_named (\<lambda>v x. x = r) name w (rename_to c r i name w)"
proof -
  show "rooms_inv (rename_to c r i name w)"
    by (rule rooms_inv_calm [OF rooms_inv_set_username [OF inv] rename_to_calm])
  have "only_named (\<lambda>v x. x = r) name w (set_username r name w)"
    by (simp add: only_named_def set_username_def heap_at_session)
  then show "only_named (\<lambda>v x. x = r) name w (rename_to c r i name w)"
    by (rule only_named_then_calm [OF _ rename_to_calm])
qed

text \<open>A whole request, handshake or other event gives at most one user a name, one that nobody else has.\<close>

definition fair :: "(ustring \<Rightarrow> ustring) \<Rightarrow> server \<Rightarrow> server \<Rightarrow> bool" where
  "fair lower w w' \<longleftrightarrow> rooms_inv w'
     \<and> (\<exists>u name. only_named (\<lambda>v x. v = u) name w w' \<and> ((\<forall>P n. only_named P n w w') \<or> \<not> username_taken lower w name u))"

lemma fair_people: "rooms_inv w' \<Longrightarrow> people w w' \<Longrightarrow> fair lower w w'"
  using only_named_people by (auto simp: fair_def)

lemma fair_calm: "rooms_inv w \<Longrightarrow> calm w w' \<Longrightarrow> fair lower w w'"
  by (rule fair_people [OF rooms_inv_calm people_calm])

lemma fair_refl: "rooms_inv w \<Longrightarrow> fair lower w w"
  by (rule fair_calm [OF _ calm_refl])

lemma fair_named:
  "rooms_inv w' \<Longrightarrow> only_named (\<lambda>v x. v = u) name w w' \<Longrightarrow> \<not> username_taken lower w name u \<Longrightarrow> fair lower w w'"
  unfolding fair_def by blast

lemma fair_request:
  assumes inv: "rooms_inv w" and l: "mget (live w) (s_uuid (heap w r)) = Some r" and f: "fresh (cx_env c) w"
  shows "fair (cx_lower c) w (read_frame c r i q w)"
proof -
  have wf: "wf_net w" using rooms_invD(1) [OF inv] .
  have "fair (cx_lower c) w (dispatch c r i q w)"
  proof (cases "rename_request q")
    case True
    then obtain p where q: "q = RqRename p" by (cases q) auto
    show ?thesis
    proof (cases rule: rename_cases [of w c r i p])
      case calm
      then show ?thesis unfolding q dispatch.simps by (rule fair_calm [OF inv])
    next
      case (renamed name)
      let ?u = "s_uuid (heap w r)"
      have mine: "v = ?u" if "mget (live w) v = Some r" for v
        using wf_net_live [OF wf that] by simp
      have "only_named (\<lambda>v x. v = ?u) name w (set_username r name w)"
        unfolding only_named_def set_username_def by (simp add: heap_at_session mine)
      then have n: "only_named (\<lambda>v x. v = ?u) name w (handle_rename c r i p w)"
        by (rule only_named_then_calm [OF _ renamed(2)])
      have inv': "rooms_inv (handle_rename c r i p w)"
        by (rule rooms_inv_calm [OF rooms_inv_set_username [OF inv] renamed(2)])
      show ?thesis unfolding q dispatch.simps by (rule fair_named [OF inv' n renamed(1)])
    qed
  next
    case False
    then obtain w1 where w1: "room_op c w w1" "calm w1 (dispatch c r i q w)"
      using one_op_dispatch [OF wf l] one_op_def by blast
    show ?thesis
      by (rule fair_people [OF rooms_inv_calm [OF rooms_inv_op [OF w1(1) inv f] w1(2)]
            people_trans [OF people_op [OF w1(1)] people_calm [OF w1(2)]]])
  qed
  then show ?thesis using fair_refl [OF inv] by (simp add: read_frame_def)
qed

lemma fair_handshake:
  assumes inv: "rooms_inv w"
  shows "fair (cx_lower c) w (fst (handshake c su bots av rm i fr w))"
proof (cases "check_hello c fr w")
  case (Inr who)
  obtain u name where who: "who = (u, name)" by fastforce
  have "\<not> username_taken (cx_lower c) w name u" using check_hello_ok Inr who by blast
  then show ?thesis
    using fair_named [OF admit_names [OF inv]] Inr who by (simp add: handshake_def)
qed (use fair_refl [OF inv] in \<open>simp add: handshake_def\<close>)

lemma fair_step: "gate_step lower w w' \<Longrightarrow> rooms_inv w \<Longrightarrow> fair lower w w'"
proof (induction rule: gate_step.induct)
  case (request w r c i q)
  then show ?case using fair_request [of w r c] by simp
next
  case (arrives c w su bots av rm i fr)
  then show ?case using fair_handshake [of w c] by simp
next
  case (departs w c r)
  have n: "only_named P n w (client_left c r w)" for P n
    unfolding only_named_def using people_client_left by blast
  then show ?case using rooms_inv_client_left [OF departs] unfolding fair_def by blast
next
  case (written r w w' f)
  show ?case by (rule fair_calm [OF written(2) calm_background(1) [OF written(1)]])
next
  case (timer w i x t now)
  then show ?case by (intro fair_people [OF rooms_inv_purge people_purge [OF people_refl]])
next
  case (rooms_reloaded w e)
  show ?case by (rule fair_people [OF rooms_inv_reload [OF rooms_reloaded(2,1)] people_reload])
qed (erule fair_calm, rule calm_background(2-))+

section \<open>Names are shared only after an overlap\<close>

text \<open>Whom a check does not look at: the user it is for, or the session that is renamed.\<close>

definition own :: "waiting \<Rightarrow> uuid \<Rightarrow> sref \<Rightarrow> bool" where
  "own e v x \<longleftrightarrow> (case wt_session e of None \<Rightarrow> v = wt_user e | Some r \<Rightarrow> x = r)"

definition shared_noted :: "(ustring \<Rightarrow> ustring) \<Rightarrow> ustring list \<Rightarrow> server \<Rightarrow> bool" where
  "shared_noted lower clashes w \<longleftrightarrow> (\<forall>u v r x. mget (live w) u = Some r \<longrightarrow> mget (live w) v = Some x \<longrightarrow> u \<noteq> v \<longrightarrow>
     lower (s_username (heap w r)) = lower (s_username (heap w x)) \<longrightarrow> lower (s_username (heap w r)) \<in> set clashes)"

definition check_stands :: "(ustring \<Rightarrow> ustring) \<Rightarrow> server \<Rightarrow> waiting \<Rightarrow> bool" where
  "check_stands lower w e \<longleftrightarrow> (\<forall>v x. mget (live w) v = Some x \<longrightarrow> \<not> own e v x \<longrightarrow>
     lower (s_username (heap w x)) = lower (wt_name e) \<longrightarrow> lower (wt_name e) \<in> set (wt_since e))"

definition race_ok :: "(ustring \<Rightarrow> ustring) \<Rightarrow> race \<Rightarrow> bool" where
  "race_ok lower s \<longleftrightarrow> rooms_inv (rc_server s) \<and> shared_noted lower (rc_clashes s) (rc_server s)
     \<and> (\<forall>e \<in> set (rc_waiting s). check_stands lower (rc_server s) e)"

lemma taken_by_step_mem:
  "mget (live w') v = Some x \<Longrightarrow> \<not> (mget (live w) v = Some x \<and> s_username (heap w' x) = s_username (heap w x)) \<Longrightarrow>
   lower (s_username (heap w' x)) \<in> set (taken_by_step lower w w')"
  by (force simp: taken_by_step_def dest: map_of_SomeD)

text \<open>A check that is carried over a step stands: who took its name is noted.\<close>

lemma check_moved:
  assumes "check_stands lower w e"
  shows "check_stands lower w' (note_taken (taken_by_step lower w w') e)"
  unfolding check_stands_def
proof (intro allI impI)
  fix v x
  let ?e = "note_taken (taken_by_step lower w w') e"
  assume x: "mget (live w') v = Some x" "\<not> own ?e v x" "lower (s_username (heap w' x)) = lower (wt_name ?e)"
  have same: "own ?e = own e" "wt_name ?e = wt_name e" "wt_since ?e = wt_since e @ taken_by_step lower w w'"
    by (simp_all add: note_taken_def own_def fun_eq_iff split: option.split)
  show "lower (wt_name ?e) \<in> set (wt_since ?e)"
  proof (cases "mget (live w) v = Some x \<and> s_username (heap w' x) = s_username (heap w x)")
    case True
    then show ?thesis using assms x unfolding check_stands_def same by auto
  next
    case False
    then show ?thesis using taken_by_step_mem [OF x(1) False, of lower] x(3) unfolding same by simp
  qed
qed

lemma shared_moved:
  assumes "shared_noted lower cl w" "only_named P n w w'" "set cl \<subseteq> set cl'"
    and free: "\<And>v x. mget (live w) v = Some x \<Longrightarrow> \<not> P v x \<Longrightarrow> lower (s_username (heap w x)) = lower n \<Longrightarrow> lower n \<in> set cl'"
    and one: "\<And>u v r x. mget (live w') u = Some r \<Longrightarrow> mget (live w') v = Some x \<Longrightarrow> P u r \<Longrightarrow> P v x \<Longrightarrow> u = v"
  shows "shared_noted lower cl' w'"
  unfolding shared_noted_def
proof (intro allI impI)
  fix u v r x
  assume h: "mget (live w') u = Some r" "mget (live w') v = Some x" "u \<noteq> v"
    "lower (s_username (heap w' r)) = lower (s_username (heap w' x))"
  let ?kept = "\<lambda>v x. mget (live w) v = Some x \<and> s_username (heap w' x) = s_username (heap w x)"
  have k: "?kept v x \<or> P v x \<and> s_username (heap w' x) = n" if "mget (live w') v = Some x" for v x
    using assms(2) that by (simp add: only_named_def)
  consider "?kept u r" "?kept v x" | "?kept u r" "P v x" "\<not> P u r" "s_username (heap w' x) = n"
    | "?kept v x" "P u r" "\<not> P v x" "s_username (heap w' r) = n"
    using k [OF h(1)] k [OF h(2)] one [OF h(1,2)] h(3) by blast
  then show "lower (s_username (heap w' r)) \<in> set cl'"
  proof cases
    case 1
    then show ?thesis using assms(1,3) h(3,4) unfolding shared_noted_def by fastforce
  next
    case 2
    then show ?thesis using free [of u r] h(4) by simp
  next
    case 3
    then show ?thesis using free [of v x] h(4) by simp
  qed
qed

lemma race_ok_moved:
  assumes "race_ok lower s" "rooms_inv w'" "shared_noted lower (rc_clashes s') w'"
    "set (rc_waiting s') \<subseteq> set (rc_waiting s)" "rc_server s' = rc_server s"
  shows "race_ok lower (moved_on lower w' s')"
  using assms check_moved [of lower "rc_server s" _ w'] by (auto simp: race_ok_def moved_on_def)

text \<open>The use of a check that stands: the name is noted as clashing when somebody else has it by now.\<close>

lemma race_ok_used:
  assumes "race_ok lower s" "e \<in> set (rc_waiting s)" "rooms_inv w'" "only_named (own e) (wt_name e) (rc_server s) w'"
  shows "race_ok lower (moved_on lower w' (used lower e s))"
proof (rule race_ok_moved [OF assms(1,3)])
  have st: "check_stands lower (rc_server s) e" "shared_noted lower (rc_clashes s) (rc_server s)"
    using assms(1,2) by (simp_all add: race_ok_def)
  show "shared_noted lower (rc_clashes (used lower e s)) w'"
  proof (rule shared_moved [OF st(2) assms(4)])
    show "set (rc_clashes s) \<subseteq> set (rc_clashes (used lower e s))" by (auto simp: used_def)
    show "lower (wt_name e) \<in> set (rc_clashes (used lower e s))"
      if "mget (live (rc_server s)) v = Some x" "\<not> own e v x" "lower (s_username (heap (rc_server s) x)) = lower (wt_name e)" for v x
      using st(1) that by (auto simp: check_stands_def used_def)
    show "u = v" if "mget (live w') u = Some r" "mget (live w') v = Some x" "own e u r" "own e v x" for u v r x
      using that wf_net_live [OF rooms_invD(1) [OF assms(3)]] by (auto simp: own_def split: option.splits)
  qed
  show "set (rc_waiting (used lower e s)) \<subseteq> set (rc_waiting s)" by (simp add: used_def set_remove1_subset)
qed (simp add: used_def)

lemma race_ok_whole:
  assumes ok: "race_ok lower s" and f: "fair lower (rc_server s) w'"
  shows "race_ok lower (moved_on lower w' s)"
proof -
  have sh: "shared_noted lower (rc_clashes s) (rc_server s)" using ok by (simp add: race_ok_def)
  obtain u name where n: "rooms_inv w'" "only_named (\<lambda>v x. v = u) name (rc_server s) w'"
    "(\<forall>P n. only_named P n (rc_server s) w') \<or> \<not> username_taken lower (rc_server s) name u"
    using f by (auto simp: fair_def)
  from n(3) have "shared_noted lower (rc_clashes s) w'"
  proof
    assume "\<forall>P n. only_named P n (rc_server s) w'"
    then have kept: "mget (live (rc_server s)) v = Some x" "s_username (heap w' x) = s_username (heap (rc_server s) x)"
      if "mget (live w') v = Some x" for v x
      using that unfolding only_named_def by blast+
    show ?thesis
      using sh kept unfolding shared_noted_def by metis
  next
    assume t: "\<not> username_taken lower (rc_server s) name u"
    show ?thesis by (rule shared_moved [OF sh n(2)]) (use not_taken [OF t] in auto)
  qed
  then show ?thesis by (intro race_ok_moved [OF ok n(1)]) simp_all
qed

lemma race_ok_step: "race_step lower s s' \<Longrightarrow> race_ok lower s \<Longrightarrow> race_ok lower s'"
proof (induction rule: race_step.induct)
  case (whole s w')
  then show ?case using race_ok_whole fair_step by (auto simp: race_ok_def)
next
  case (hello_checked c fr s u name)
  have "\<not> username_taken lower (rc_server s) name u" using check_hello_ok(1) [OF hello_checked(1)] hello_checked(2) by simp
  then have "check_stands lower (rc_server s) \<lparr>wt_user = u, wt_name = name, wt_session = None, wt_since = []\<rparr>"
    using not_taken by (fastforce simp: check_stands_def own_def)
  then show ?case using hello_checked(3) by (simp add: race_ok_def)
next
  case (registered e s c w' su bots av rm i)
  have inv: "rooms_inv (rc_server s)" using registered(5) by (simp add: race_ok_def)
  have o: "own e = (\<lambda>v x. v = wt_user e)" using registered(2) by (simp add: own_def fun_eq_iff)
  show ?case
    using race_ok_used [OF registered(5,1), of w'] admit_names [OF inv, where u = "wt_user e" and name = "wt_name e"]
    by (simp add: registered(4) o)
next
  case (rename_checked s r c raw name)
  let ?w = "rc_server s"
  have free: "\<not> username_taken lower ?w name (s_uuid (heap ?w r))"
    using rename_checked(2,3) by (auto simp: rename_check_def split: sum.splits if_splits)
  have "check_stands lower ?w \<lparr>wt_user = s_uuid (heap ?w r), wt_name = name, wt_session = Some r, wt_since = []\<rparr>"
    unfolding check_stands_def own_def
    using not_taken [OF free] rename_checked(1) by (auto, metis option.inject)
  then show ?case using rename_checked(4) by (simp add: race_ok_def)
next
  case (renamed e s r c w' i)
  have inv: "rooms_inv (rc_server s)" using renamed(5) by (simp add: race_ok_def)
  have o: "own e = (\<lambda>v x. x = r)" using renamed(2) by (simp add: own_def fun_eq_iff)
  show ?case
    using race_ok_used [OF renamed(5,1), of w'] rename_names [OF inv]
    by (simp add: renamed(4) o)
qed

lemma race_reachable_ok: "race_reachable lower s \<Longrightarrow> race_ok lower s"
proof (induction rule: race_reachable.induct)
  case (start w)
  then have "server_ok lower w" by (rule ok_starting)
  then show ?case by (auto simp: race_ok_def server_ok_def names_distinct_def shared_noted_def)
qed (rule race_ok_step)


section \<open>Two handshakes that overlap\<close>

definition hello_of :: "string \<Rightarrow> first_frame" where
  "hello_of name = HelloFrame \<lparr>hl_protocol = 0, hl_uuid = runes other_id, hl_username = runes name, hl_password = []\<rparr>"

lemma hello_passes:
  assumes "normalize_username (runes name) 1 20 = Inr (runes name)"
  shows "check_hello demo_call (hello_of name) demo_start = Inr (other_id, runes name)"
proof -
  have "normalize_client_uuid (runes other_id) = Inr (runes other_id)"
    by (simp add: normalize_client_uuid_def other_id_def runes_def trim_space_def trim_by_def is_space_def
        lower_ascii_def match_uuid_def uuid_pattern_eval is_hex_def)
  then show ?thesis
    using assms by (simp add: check_hello_def hello_of_def Let_def demo_start_def username_limits_def is_banned_def
        ban_of_def active_sanction_def sanction_of_def demo_acc_def mget2_def username_taken_def)
qed

text \<open>Both clients are checked on the empty server, then both are registered.\<close>

lemma two_checked_then_registered:
  assumes "normalize_username (runes name) 1 20 = Inr (runes name)"
  obtains s where "race_reachable (map lower_ascii) s"
    "get_session (rc_server s) client_id = Some 0" "get_session (rc_server s) other_id = Some 1"
    "s_username (heap (rc_server s) 0) = runes ''Ann''" "s_username (heap (rc_server s) 1) = runes name"
    "rc_clashes s = (if map lower_ascii (runes name) = map lower_ascii (runes ''Ann'') then [map lower_ascii (runes name)] else [])"
proof -
  let ?l = "map lower_ascii"
  define e1 where "e1 = \<lparr>wt_user = client_id, wt_name = runes ''Ann'', wt_session = None, wt_since = []\<rparr>"
  define e2 where "e2 = \<lparr>wt_user = other_id, wt_name = runes name, wt_session = None, wt_since = []\<rparr>"
  let ?s2 = "\<lparr>rc_server = demo_start, rc_waiting = [e2, e1], rc_clashes = []\<rparr>"
  have r0: "race_reachable ?l \<lparr>rc_server = demo_start, rc_waiting = [], rc_clashes = []\<rparr>"
    by (rule race_reachable.start [OF starting_demo])
  have "race_reachable ?l \<lparr>rc_server = demo_start, rc_waiting = [e1], rc_clashes = []\<rparr>"
    using race_reachable.step [OF r0 race_step.hello_checked [OF _ demo_call_fields(2), of demo_hello]] demo_admissible
    by (simp add: e1_def)
  from race_reachable.step [OF this race_step.hello_checked [OF _ demo_call_fields(2), of "hello_of name"]] hello_passes [OF assms]
  have r2: "race_reachable ?l ?s2" by (simp add: e2_def)
  have d: "client_id \<noteq> other_id" by (simp add: client_id_def other_id_def)
  have ne: "e1 \<noteq> e2" using d by (simp add: e1_def e2_def)
  obtain w1 where w1: "admit_client demo_call [] [] [] [] [] (client_id, runes ''Ann'') demo_start = (w1, Inr 0)"
    "live w1 = [(client_id, 0)]" "cfg w1 = demo_cfg" "next_ref w1 = 1" "s_username (heap w1 0) = runes ''Ann''"
    by (rule admit_new [of demo_start client_id demo_call "[]" "[]" "[]" "[]" "[]" "runes ''Ann''"]) simp_all
  let ?s3 = "moved_on ?l w1 (used ?l e1 ?s2)"
  have "race_step ?l ?s2 ?s3"
    by (rule race_step.registered [of e1 _ demo_call _ w1 "[]" "[]" "[]" "[]" "[]"]) (simp_all add: e1_def w1)
  then have r3: "race_reachable ?l ?s3" using race_reachable.step [OF r2] by blast
  define e3 where "e3 = e2\<lparr>wt_since := [?l (runes ''Ann'')]\<rparr>"
  have s3: "rc_server ?s3 = w1" "rc_waiting ?s3 = [e3]" "rc_clashes ?s3 = []"
    using ne w1 by (simp_all add: moved_on_def used_def e1_def e2_def e3_def note_taken_def taken_by_step_def demo_start_def)
  obtain w2 where w2: "admit_client demo_call [] [] [] [] [] (other_id, runes name) w1 = (w2, Inr 1)"
    "live w2 = mput other_id 1 (live w1)" "s_username (heap w2 1) = runes name"
    by (rule admit_new [of w1 other_id demo_call "[]" "[]" "[]" "[]" "[]" "runes name"]) (use d w1 in simp_all)
  have e3: "wt_user e3 = other_id" "wt_name e3 = runes name" "wt_session e3 = None" "wt_since e3 = [?l (runes ''Ann'')]"
    by (simp_all add: e3_def e2_def)
  let ?s4 = "moved_on ?l w2 (used ?l e3 ?s3)"
  have "e3 \<in> set (rc_waiting ?s3)" unfolding s3 by simp
  moreover have "w2 = fst (admit_client demo_call [] [] [] [] [] (wt_user e3, wt_name e3) (rc_server ?s3))"
    unfolding s3 e3 w2 by simp
  ultimately have "race_step ?l ?s3 ?s4"
    by (rule race_step.registered [OF _ e3(3) demo_call_fields(2)])
  then have r4: "race_reachable ?l ?s4" using race_reachable.step [OF r3] by blast
  have inv: "rooms_inv w1" using race_reachable_ok [OF r3] s3(1) by (simp add: race_ok_def)
  have on: "only_named (\<lambda>v x. v = other_id) (runes name) w1 w2"
    using admit_names(2) [OF inv, of other_id "runes name" demo_call "[]" "[]" "[]" "[]" "[]"] w2(1) by simp
  have "mget (live w2) client_id = Some 0" using w1(2) w2(2) d by simp
  then have ann: "s_username (heap w2 0) = runes ''Ann''"
    using on w1(5) d unfolding only_named_def by metis
  have s4: "rc_server ?s4 = w2" by (simp add: moved_on_def)
  have cl: "rc_clashes ?s4 = (if ?l (runes name) = ?l (runes ''Ann'') then [?l (runes name)] else [])"
    using s3(3) e3 by (simp add: moved_on_def used_def)
  show ?thesis
    by (rule that [OF r4 _ _ _ _ cl]) (simp_all only: s4 get_session_def ann w2(2,3) w1(2), use d in simp_all)
qed


text \<open>Both under one name: the second check was passed before the first client was registered.\<close>

lemma overlapping_handshakes_share_a_name:
  "\<exists>s. race_reachable (map lower_ascii) s \<and> get_session (rc_server s) client_id = Some 0
     \<and> get_session (rc_server s) other_id = Some 1
     \<and> s_username (heap (rc_server s) 0) = runes ''Ann'' \<and> s_username (heap (rc_server s) 1) = runes ''ANN''
     \<and> rc_clashes s = [runes ''ann'']"
proof -
  have "normalize_username (runes ''ANN'') 1 20 = Inr (runes ''ANN'')"
    by (simp add: normalize_username_def name_eval runes_def)
  then obtain s where "race_reachable (map lower_ascii) s"
    "get_session (rc_server s) client_id = Some 0" "get_session (rc_server s) other_id = Some 1"
    "s_username (heap (rc_server s) 0) = runes ''Ann''" "s_username (heap (rc_server s) 1) = runes ''ANN''"
    "rc_clashes s = [runes ''ann'']"
    by (rule two_checked_then_registered) (simp add: runes_def lower_ascii_def)
  then show ?thesis by blast
qed

end
