(* ===== verification/Pixels.thy ===== *)
theory Pixels
  imports Main "HOL-Library.Word"
begin

text \<open>
  Scaling pictures: the thumbnails of \<open>internal/files/thumbnail.go\<close> and the profile pictures of
  \<open>internal/avatars/image.go\<close>. A decoded image is its bounds and the function \<open>At(x, y).RGBA()\<close>, four
  16-bit channels in 32-bit words, premultiplied by alpha; decoding and JPEG encoding are the standard
  library's codecs, whose outcome is an input. The sums are 64-bit words and the stored channels 8-bit
  words, as in the code; the coordinates are far below the width of \<open>int\<close> for any image a decoder returns.
\<close>

section \<open>Images\<close>

record pixel =
  px_r :: "32 word"
  px_g :: "32 word"
  px_b :: "32 word"
  px_a :: "32 word"

record image =
  im_x :: int
  im_y :: int
  im_w :: int
  im_h :: int
  im_at :: "int \<Rightarrow> int \<Rightarrow> pixel"

record pixel8 =
  p8_r :: "8 word"
  p8_g :: "8 word"
  p8_b :: "8 word"
  p8_a :: "8 word"

abbreviation blank8 :: pixel8 where "blank8 \<equiv> \<lparr>p8_r = 0, p8_g = 0, p8_b = 0, p8_a = 0\<rparr>"

text \<open>The source rows (or columns) that destination row \<open>k\<close> of \<open>parts\<close> covers.\<close>

definition strip :: "int \<Rightarrow> int \<Rightarrow> int \<Rightarrow> int \<Rightarrow> int \<times> int" where
  "strip lo len parts k =
     (let a = lo + k * len div parts; b = lo + (k + 1) * len div parts in
      (a, if b \<le> a then a + 1 else b))"

definition box :: "int \<times> int \<Rightarrow> int \<times> int \<Rightarrow> (int \<times> int) list" where
  "box xs ys = [(x, y). y \<leftarrow> [fst ys..snd ys - 1], x \<leftarrow> [fst xs..snd xs - 1]]"

definition sum_channel :: "(pixel \<Rightarrow> 32 word) \<Rightarrow> image \<Rightarrow> (int \<times> int) list \<Rightarrow> 64 word" where
  "sum_channel ch im ps = fold (\<lambda>(x, y) s. s + ucast (ch (im_at im x y))) ps 0"

definition pixel_count :: "(int \<times> int) list \<Rightarrow> 64 word" where
  "pixel_count ps = fold (\<lambda>_ n. n + 1) ps 0"

definition mean :: "(pixel \<Rightarrow> 32 word) \<Rightarrow> image \<Rightarrow> (int \<times> int) list \<Rightarrow> 64 word" where
  "mean ch im ps = sum_channel ch im ps div pixel_count ps"

definition byte_of :: "64 word \<Rightarrow> 8 word" where
  "byte_of v = ucast (drop_bit 8 v)"

section \<open>Thumbnails\<close>

definition fit :: "int \<Rightarrow> int \<Rightarrow> int \<Rightarrow> int \<times> int" where
  "fit w h max_px =
     (if w \<le> max_px \<and> h \<le> max_px then (w, h)
      else if w \<ge> h then (max_px, max 1 (h * max_px div w))
      else (max 1 (w * max_px div h), max_px))"

definition thumb_pixel :: "image \<Rightarrow> (int \<times> int) list \<Rightarrow> pixel8" where
  "thumb_pixel im ps =
     (if pixel_count ps = 0 then blank8
      else \<lparr>p8_r = byte_of (mean px_r im ps), p8_g = byte_of (mean px_g im ps),
            p8_b = byte_of (mean px_b im ps), p8_a = byte_of (mean px_a im ps)\<rparr>)"

definition thumb_box :: "image \<Rightarrow> int \<Rightarrow> int \<Rightarrow> int \<Rightarrow> int \<Rightarrow> (int \<times> int) list" where
  "thumb_box im w h x y = box (strip (im_x im) (im_w im) w x) (strip (im_y im) (im_h im) h y)"

definition thumb_rows :: "image \<Rightarrow> int \<Rightarrow> int \<Rightarrow> pixel8 list list" where
  "thumb_rows im w h = map (\<lambda>y. map (\<lambda>x. thumb_pixel im (thumb_box im w h x y)) [0..w - 1]) [0..h - 1]"

text \<open>\<open>makeThumbnail\<close>: the image that was decoded, if any, and whether creating the file and encoding fail.
  The result is the size of the source, whether there is a thumbnail, and the file left on disk.\<close>

definition make_thumbnail ::
  "image option \<Rightarrow> int \<Rightarrow> bool \<Rightarrow> bool \<Rightarrow> (int \<times> int \<times> bool) \<times> pixel8 list list option" where
  "make_thumbnail decoded max_px create_fails encode_fails =
     (case decoded of
        None \<Rightarrow> ((0, 0, False), None)
      | Some im \<Rightarrow>
          if im_w im \<le> 0 \<or> im_h im \<le> 0 then ((0, 0, False), None)
          else
            (let (tw, th) = fit (im_w im) (im_h im) max_px in
             if create_fails \<or> encode_fails then ((im_w im, im_h im, False), None)
             else ((im_w im, im_h im, True), Some (thumb_rows im tw th))))"

section \<open>Profile pictures\<close>

definition picture_side :: int where "picture_side = 256"

definition full :: "64 word" where "full = 0xFFFF"

text \<open>What the alpha leaves is filled up with white.\<close>

definition face_pixel :: "image \<Rightarrow> (int \<times> int) list \<Rightarrow> pixel8" where
  "face_pixel im ps =
     (if pixel_count ps = 0 then blank8
      else
        (let clear = full - mean px_a im ps in
         \<lparr>p8_r = byte_of (mean px_r im ps + clear), p8_g = byte_of (mean px_g im ps + clear),
          p8_b = byte_of (mean px_b im ps + clear), p8_a = 0xFF\<rparr>))"

text \<open>The centre square, as its corner and its edge.\<close>

definition centre_square :: "image \<Rightarrow> int \<times> int \<times> int" where
  "centre_square im =
     (let edge = min (im_w im) (im_h im) in
      (im_x im + (im_w im - edge) div 2, im_y im + (im_h im - edge) div 2, edge))"

definition face_box :: "image \<Rightarrow> int \<Rightarrow> int \<Rightarrow> int \<Rightarrow> (int \<times> int) list" where
  "face_box im side x y =
     (let (x0, y0, edge) = centre_square im in box (strip x0 edge side x) (strip y0 edge side y))"

definition square_and_scale :: "image \<Rightarrow> int \<Rightarrow> pixel8 list list" where
  "square_and_scale im side =
     (if im_w im \<le> 0 \<or> im_h im \<le> 0 then replicate (nat side) (replicate (nat side) blank8)
      else map (\<lambda>y. map (\<lambda>x. face_pixel im (face_box im side x y)) [0..side - 1]) [0..side - 1])"

section \<open>Inside the image\<close>

definition inside :: "image \<Rightarrow> int \<times> int \<Rightarrow> bool" where
  "inside im p \<longleftrightarrow> im_x im \<le> fst p \<and> fst p < im_x im + im_w im \<and> im_y im \<le> snd p \<and> snd p < im_y im + im_h im"

lemma strip_inside:
  assumes "0 \<le> k" "k < parts" "0 < len"
  shows "lo \<le> fst (strip lo len parts k) \<and> fst (strip lo len parts k) < snd (strip lo len parts k)
    \<and> snd (strip lo len parts k) \<le> lo + len"
proof -
  have a: "k * len div parts < len"
  proof (rule ccontr)
    assume "\<not> k * len div parts < len"
    then have "len * parts \<le> (k * len div parts) * parts" using assms by (intro mult_right_mono) simp_all
    moreover have "(k * len div parts) * parts + k * len mod parts = k * len" by simp
    moreover have "0 \<le> k * len mod parts" using assms by simp
    moreover have "k * len < parts * len" using assms by simp
    ultimately show False unfolding mult.commute [of parts len] by linarith
  qed
  have "(k + 1) * len div parts \<le> parts * len div parts"
    using assms by (intro zdiv_mono1 mult_right_mono) simp_all
  then have b: "(k + 1) * len div parts \<le> len" using assms by simp
  have "0 \<le> k * len div parts" using assms by (simp add: pos_imp_zdiv_nonneg_iff)
  with a b show ?thesis by (simp add: strip_def Let_def)
qed

lemma strip_order: "fst (strip lo len parts k) < snd (strip lo len parts k)"
  by (simp add: strip_def Let_def)

lemma strip_whole: "0 < len \<Longrightarrow> strip lo len len k = (lo + k, lo + k + 1)"
  by (simp add: strip_def Let_def)

lemma set_box: "p \<in> set (box xs ys) \<longleftrightarrow> fst xs \<le> fst p \<and> fst p < snd xs \<and> fst ys \<le> snd p \<and> snd p < snd ys"
  by (cases p) (force simp: box_def)

lemma box_nonempty: "fst xs < snd xs \<Longrightarrow> fst ys < snd ys \<Longrightarrow> box xs ys \<noteq> []"
proof -
  assume "fst xs < snd xs" "fst ys < snd ys"
  then have "(fst xs, fst ys) \<in> set (box xs ys)" by (simp add: set_box)
  then show "box xs ys \<noteq> []" by (metis empty_iff empty_set)
qed

lemma length_box: "length (box xs ys) = nat (snd ys - fst ys) * nat (snd xs - fst xs)"
proof -
  have "length (concat (map (\<lambda>y. map (\<lambda>x. (x, y)) [a..b]) zs)) = length zs * nat (b - a + 1)" for a b :: int and zs :: "int list"
    by (induction zs) simp_all
  then show ?thesis by (simp add: box_def)
qed

section \<open>Averages\<close>

definition value_at :: "(pixel \<Rightarrow> 32 word) \<Rightarrow> image \<Rightarrow> int \<times> int \<Rightarrow> nat" where
  "value_at ch im p = unat (ch (im_at im (fst p) (snd p)))"

lemma unat_widened: "unat (ucast (v :: 32 word) :: 64 word) = unat v"
  by (simp add: unsigned_ucast_eq take_bit_nat_eq_self_iff order_less_trans [OF unsigned_less])

lemma unat_plus: "unat a + unat b < 2 ^ 64 \<Longrightarrow> unat (a + b :: 64 word) = unat a + unat b"
  by (simp add: unat_plus_if')

lemma sum_values_bound: "\<forall>p \<in> set ps. value_at ch im p \<le> m \<Longrightarrow> sum_list (map (value_at ch im) ps) \<le> m * length ps"
  by (induction ps) auto

lemma unat_sum_channel:
  assumes "\<forall>p \<in> set ps. value_at ch im p \<le> 0xFFFF" "length ps < 2 ^ 48"
  shows "unat (sum_channel ch im ps) = sum_list (map (value_at ch im) ps)"
proof -
  have "unat (fold (\<lambda>(x, y) s. s + ucast (ch (im_at im x y))) qs s) = unat s + sum_list (map (value_at ch im) qs)"
    if "\<forall>p \<in> set qs. value_at ch im p \<le> 0xFFFF" "unat s + 0xFFFF * length qs < 2 ^ 64" for qs and s :: "64 word"
    using that
  proof (induction qs arbitrary: s)
    case (Cons p qs)
    let ?u = "ucast (ch (im_at im (fst p) (snd p))) :: 64 word"
    have u: "unat ?u = value_at ch im p" by (simp add: unat_widened value_at_def)
    then have "unat (s + ?u) = unat s + value_at ch im p"
      using Cons.prems by (subst unat_plus) auto
    then show ?case using Cons by (simp add: case_prod_beta)
  qed simp
  then show ?thesis using assms by (simp add: sum_channel_def)
qed

lemma unat_pixel_count: "length ps < 2 ^ 48 \<Longrightarrow> unat (pixel_count ps) = length ps"
proof -
  have "unat n + length qs < 2 ^ 64 \<Longrightarrow> unat (fold (\<lambda>_ n. n + 1) qs n) = unat n + length qs" for qs :: "(int \<times> int) list" and n :: "64 word"
  proof (induction qs arbitrary: n)
    case (Cons q qs)
    have "unat (n + 1) = unat n + 1" using Cons.prems by (subst unat_plus) auto
    with Cons show ?case by simp
  qed simp
  from this [of 0 ps] show "length ps < 2 ^ 48 \<Longrightarrow> unat (pixel_count ps) = length ps" by (simp add: pixel_count_def)
qed

definition average :: "(pixel \<Rightarrow> 32 word) \<Rightarrow> image \<Rightarrow> (int \<times> int) list \<Rightarrow> nat" where
  "average ch im ps = sum_list (map (value_at ch im) ps) div length ps"

lemma unat_mean:
  "\<forall>p \<in> set ps. value_at ch im p \<le> 0xFFFF \<Longrightarrow> length ps < 2 ^ 48 \<Longrightarrow> unat (mean ch im ps) = average ch im ps"
  by (simp add: mean_def average_def unat_div_distrib unat_sum_channel unat_pixel_count)

lemma average_bound:
  assumes "\<forall>p \<in> set ps. value_at ch im p \<le> m"
  shows "average ch im ps \<le> m"
proof (cases "ps = []")
  case False
  have "average ch im ps \<le> m * length ps div length ps"
    unfolding average_def by (rule div_le_mono [OF sum_values_bound [OF assms]])
  with False show ?thesis by simp
qed (simp add: average_def)

lemma average_mono:
  assumes "\<forall>p \<in> set ps. value_at ch im p \<le> value_at ch' im p"
  shows "average ch im ps \<le> average ch' im ps"
proof -
  have "sum_list (map (value_at ch im) ps) \<le> sum_list (map (value_at ch' im) ps)"
    using assms by (intro sum_list_mono) auto
  then show ?thesis by (simp add: average_def div_le_mono)
qed

lemma unat_byte_of: "unat v \<le> 0xFFFF \<Longrightarrow> unat (byte_of v) = unat v div 256"
proof -
  assume "unat v \<le> 0xFFFF"
  then have "unat v div 256 < 256" by simp
  then show ?thesis
    by (simp add: byte_of_def unsigned_ucast_eq unat_drop_bit_eq drop_bit_nat_def take_bit_nat_eq_self)
qed

lemma unat_byte_of_mean:
  "\<forall>p \<in> set ps. value_at ch im p \<le> 0xFFFF \<Longrightarrow> length ps < 2 ^ 48 \<Longrightarrow>
   unat (byte_of (mean ch im ps)) = average ch im ps div 256"
  by (subst unat_byte_of) (simp_all only: unat_mean average_bound)

section \<open>Thumbnails lie inside their image\<close>

definition sane :: "image \<Rightarrow> bool" where
  "sane im \<longleftrightarrow> 0 < im_w im \<and> 0 < im_h im \<and> im_w im * im_h im < 2 ^ 48
     \<and> (\<forall>x y. let p = im_at im x y in
          unat (px_a p) \<le> 0xFFFF \<and> px_r p \<le> px_a p \<and> px_g p \<le> px_a p \<and> px_b p \<le> px_a p)"

lemma sane_values:
  "sane im \<Longrightarrow> value_at px_a im p \<le> 0xFFFF"
  "sane im \<Longrightarrow> ch \<in> {px_r, px_g, px_b} \<Longrightarrow> value_at ch im p \<le> value_at px_a im p"
  by (auto simp: sane_def Let_def value_at_def word_le_nat_alt)

lemma box_small:
  assumes "sane im" "im_x im \<le> fst xs" "snd xs \<le> im_x im + im_w im" "im_y im \<le> fst ys" "snd ys \<le> im_y im + im_h im"
  shows "length (box xs ys) < 2 ^ 48"
proof -
  have "length (box xs ys) \<le> nat (im_h im) * nat (im_w im)"
    unfolding length_box using assms by (intro mult_mono) auto
  also have "\<dots> = nat (im_w im * im_h im)" using assms(1) by (simp add: sane_def nat_mult_distrib mult.commute)
  also have "\<dots> < 2 ^ 48" 
    using assms(1) by (metis nat_less_numeral_power_cancel_iff of_nat_numeral of_nat_power sane_def)
  finally show ?thesis .
qed

lemma fit_bounds:
  assumes "0 < w" "0 < h" "0 < m" "fit w h m = (tw, th)"
  shows "1 \<le> tw \<and> tw \<le> w \<and> tw \<le> m \<and> 1 \<le> th \<and> th \<le> h \<and> th \<le> m"
proof -
  have "h * m div w \<le> m" if "w \<ge> h"
    using that assms by (metis nonzero_mult_div_cancel_left mult_right_mono order_less_imp_le order_less_imp_not_eq2 zdiv_mono1)
  moreover have "h * m div w \<le> h" if "m < w"
    using that assms by (metis nonzero_mult_div_cancel_right mult_left_mono order_less_imp_le order_less_imp_not_eq2 zdiv_mono1)
  moreover have "w * m div h \<le> m" if "w < h"
    using that assms by (metis nonzero_mult_div_cancel_left mult_right_mono order_less_imp_le order_less_imp_not_eq2 zdiv_mono1)
  moreover have "w * m div h \<le> w" if "m < h"
    using that assms by (metis nonzero_mult_div_cancel_right mult_left_mono order_less_imp_le order_less_imp_not_eq2 zdiv_mono1)
  ultimately show ?thesis using assms by (auto simp: fit_def split: if_splits)
qed

text \<open>A thumbnail is at most as large as the limit and as its image in both directions and never
  empty; each of its pixels averages at least one pixel of the image, reads no pixel outside it, and its
  channels are the averages of the covered pixels scaled to a byte, without wrapping around.\<close>

theorem thumbnail_averages_its_image:
  assumes "sane im" "0 < m" "fit (im_w im) (im_h im) m = (tw, th)"
    and "0 \<le> x" "x < tw" "0 \<le> y" "y < th"
  shows "1 \<le> tw \<and> tw \<le> im_w im \<and> tw \<le> m \<and> 1 \<le> th \<and> th \<le> im_h im \<and> th \<le> m
    \<and> thumb_box im tw th x y \<noteq> [] \<and> (\<forall>p \<in> set (thumb_box im tw th x y). inside im p)
    \<and> thumb_rows im tw th ! nat y ! nat x = thumb_pixel im (thumb_box im tw th x y)
    \<and> unat (p8_r (thumb_pixel im (thumb_box im tw th x y))) = average px_r im (thumb_box im tw th x y) div 256
    \<and> unat (p8_a (thumb_pixel im (thumb_box im tw th x y))) = average px_a im (thumb_box im tw th x y) div 256"
proof -
  let ?xs = "strip (im_x im) (im_w im) tw x" and ?ys = "strip (im_y im) (im_h im) th y"
  let ?ps = "thumb_box im tw th x y"
  have wh: "0 < im_w im" "0 < im_h im" using assms(1) by (simp_all add: sane_def)
  note xs = strip_inside [OF assms(4,5) wh(1), of "im_x im"] and ys = strip_inside [OF assms(6,7) wh(2), of "im_y im"]
  have ne: "?ps \<noteq> []" using xs ys by (simp add: thumb_box_def box_nonempty)
  have ins: "\<forall>p \<in> set ?ps. inside im p" using xs ys by (auto simp: thumb_box_def set_box inside_def)
  have small: "length ?ps < 2 ^ 48" unfolding thumb_box_def by (rule box_small [OF assms(1)]) (use xs ys in auto)
  have v: "\<forall>p \<in> set ?ps. value_at px_r im p \<le> 0xFFFF" "\<forall>p \<in> set ?ps. value_at px_a im p \<le> 0xFFFF"
    using sane_values(1) [OF assms(1)] sane_values(2) [OF assms(1), of px_r] order_trans by blast+
  have "pixel_count ?ps \<noteq> 0" using unat_pixel_count [OF small] ne by auto
  then have "unat (p8_r (thumb_pixel im ?ps)) = average px_r im ?ps div 256"
    "unat (p8_a (thumb_pixel im ?ps)) = average px_a im ?ps div 256"
    by (simp_all only: thumb_pixel_def if_False pixel8.select_convs unat_byte_of_mean [OF v(1) small]
        unat_byte_of_mean [OF v(2) small])
  moreover have "thumb_rows im tw th ! nat y ! nat x = thumb_pixel im ?ps"
    using assms(4-7) by (simp add: thumb_rows_def nth_upto)
  ultimately show ?thesis using fit_bounds [OF wh assms(2,3)] ne ins by blast
qed

definition grey :: image where
  "grey = \<lparr>im_x = 5, im_y = 0, im_w = 4, im_h = 2, im_at = \<lambda>_ _. \<lparr>px_r = 0x8000, px_g = 0x8000, px_b = 0x8000, px_a = 0xFFFF\<rparr>\<rparr>"

theorem thumbnail_averages_its_image_witness:
  "list_all (inside grey) (thumb_box grey 2 1 1 0)"
  using thumbnail_averages_its_image [of grey 2 2 1 1 0] by (simp add: grey_def sane_def fit_def list_all_iff)

section \<open>Profile pictures are opaque\<close>

lemma centre_square_inside:
  assumes "centre_square im = (x0, y0, edge)" "0 < im_w im" "0 < im_h im"
  shows "0 < edge \<and> im_x im \<le> x0 \<and> x0 + edge \<le> im_x im + im_w im \<and> im_y im \<le> y0 \<and> y0 + edge \<le> im_y im + im_h im
    \<and> edge = min (im_w im) (im_h im)"
proof -
  have "edge = min (im_w im) (im_h im)" "x0 = im_x im + (im_w im - edge) div 2" "y0 = im_y im + (im_h im - edge) div 2"
    using assms(1) by (auto simp: centre_square_def Let_def)
  then show ?thesis using assms(2,3) by (auto simp: min_def)
qed

text \<open>The stored picture is a square of the given side, whatever the shape of the upload; each pixel
  averages pixels of the centre square only, is opaque, and its channels are the averages laid over white,
  without wrapping around.\<close>

theorem picture_is_opaque_square:
  assumes "sane im" "0 \<le> x" "x < side" "0 \<le> y" "y < side"
  shows "length (square_and_scale im side) = nat side \<and> length (square_and_scale im side ! nat y) = nat side
    \<and> face_box im side x y \<noteq> [] \<and> (\<forall>p \<in> set (face_box im side x y). inside im p)
    \<and> square_and_scale im side ! nat y ! nat x = face_pixel im (face_box im side x y)
    \<and> p8_a (face_pixel im (face_box im side x y)) = 0xFF
    \<and> average px_r im (face_box im side x y) \<le> average px_a im (face_box im side x y)
    \<and> unat (p8_r (face_pixel im (face_box im side x y)))
        = (0xFFFF - (average px_a im (face_box im side x y) - average px_r im (face_box im side x y))) div 256"
proof -
  obtain x0 y0 edge where sq: "centre_square im = (x0, y0, edge)" by (metis prod_cases3)
  let ?xs = "strip x0 edge side x" and ?ys = "strip y0 edge side y"
  let ?ps = "face_box im side x y"
  have wh: "0 < im_w im" "0 < im_h im" using assms(1) by (simp_all add: sane_def)
  note c = centre_square_inside [OF sq wh]
  note xs = strip_inside [OF assms(2,3), of edge x0] and ys = strip_inside [OF assms(4,5), of edge y0]
  have ps: "?ps = box ?xs ?ys" by (simp add: face_box_def sq)
  have ne: "?ps \<noteq> []" using xs ys c by (simp add: ps box_nonempty)
  have ins: "\<forall>p \<in> set ?ps. inside im p" using xs ys c by (auto simp: ps set_box inside_def)
  have small: "length ?ps < 2 ^ 48" unfolding ps by (rule box_small [OF assms(1)]) (use xs ys c in auto)
  have va: "\<forall>p \<in> set ?ps. value_at px_a im p \<le> 0xFFFF" and vr: "\<forall>p \<in> set ?ps. value_at px_r im p \<le> 0xFFFF"
    and le: "\<forall>p \<in> set ?ps. value_at px_r im p \<le> value_at px_a im p"
    using sane_values(1) [OF assms(1)] sane_values(2) [OF assms(1), of px_r] order_trans by blast+
  let ?a = "average px_a im ?ps" and ?r = "average px_r im ?ps"
  have ar: "?r \<le> ?a" "?a \<le> 0xFFFF" using average_mono [OF le] average_bound [OF va] by simp_all
  have "unat (full - mean px_a im ?ps) = 0xFFFF - ?a"
    using ar(2) unat_mean [OF va small] by (simp add: full_def unat_sub word_le_nat_alt)
  then have sum: "unat (mean px_r im ?ps + (full - mean px_a im ?ps)) = 0xFFFF - (?a - ?r)"
    using ar unat_mean [OF vr small] by (subst unat_plus) auto
  have "pixel_count ?ps \<noteq> 0" using unat_pixel_count [OF small] ne by auto
  then have "p8_a (face_pixel im ?ps) = 0xFF" "unat (p8_r (face_pixel im ?ps)) = (0xFFFF - (?a - ?r)) div 256"
    by (simp_all add: face_pixel_def Let_def unat_byte_of sum)
  moreover have "length (square_and_scale im side) = nat side \<and> length (square_and_scale im side ! nat y) = nat side
      \<and> square_and_scale im side ! nat y ! nat x = face_pixel im ?ps"
    using assms(2-5) wh by (simp add: square_and_scale_def nth_upto)
  ultimately show ?thesis using ne ins ar(1) by blast
qed

theorem picture_is_opaque_square_witness:
  "p8_a (face_pixel grey (face_box grey 256 3 7)) = 0xFF"
  using picture_is_opaque_square [of grey 3 256 7] by (simp add: grey_def sane_def)

end
