(* ===== verification/Avatars.thy ===== *)
theory Avatars
  imports Gateway Paths Pixels
begin

text \<open>
  Profile pictures: \<open>internal/avatars/avatars.go\<close>, their requests in \<open>gateway/avatars.go\<close> and their two HTTP
  endpoints in \<open>httpapi/avatars.go\<close>. The folder is a map from resolved paths to files; a file has a number
  (its inode), so that a writer keeps writing to the file it opened when the name is renamed or taken.
  A file whose writing is not complete has no picture. The manager is \<open>None\<close> when pictures were disabled at
  the start.

  An upload holds no lock while it writes, so it is four steps: \<open>picture_begin\<close> uses up the ticket and decodes
  the body, \<open>picture_open\<close> creates or truncates the temporary file, \<open>picture_write\<close> encodes into it,
  \<open>picture_move\<close> renames it into place and records the version.
\<close>

section \<open>State\<close>

record picture =
  pc_file :: nat
  pc_rows :: "pixel8 list list option"
  pc_mtime :: int

record avatar_ticket =
  vt_client :: uuid
  vt_expires :: int

record avatars =
  av_dir :: ustring
  av_cwd :: ustring
  av_tickets :: "(string, avatar_ticket) gomap"
  av_versions :: "(ustring, string) gomap"
  av_files :: "(ustring list, picture) gomap"
  av_next :: nat

datatype avatar_error = AvatarBadToken | AvatarTooLarge | AvatarNotImage | AvatarNone | AvatarIO

definition max_picture :: nat where "max_picture = 8 * 2 ^ 20"

definition avatar_ttl :: int where "avatar_ttl = 2 * 60 * 1000000000"

section \<open>Versions\<close>

definition hex_digit :: "nat \<Rightarrow> char" where
  "hex_digit n = ''0123456789abcdef'' ! n"

fun hex :: "nat \<Rightarrow> string" where
  "hex n = (if n < 16 then [hex_digit n] else hex (n div 16) @ [hex_digit (n mod 16)])"

definition picture_tag :: "int \<Rightarrow> string" where
  "picture_tag t = (if t < 0 then ''-'' @ hex (nat (- t)) else hex (nat t))"

definition jpg :: ustring where "jpg = runes ''.jpg''"

definition picture_path :: "avatars \<Rightarrow> ustring \<Rightarrow> ustring" where
  "picture_path m u = path_join (av_dir m) (u @ jpg)"

definition place :: "avatars \<Rightarrow> ustring \<Rightarrow> ustring list" where
  "place m path = resolve (av_cwd m) path"

definition scan_pictures :: "avatars \<Rightarrow> avatars" where
  "scan_pictures m =
     m\<lparr>av_versions := fold (\<lambda>(p, f) vs.
         if p \<noteq> [] \<and> butlast p = place m (av_dir m) \<and> path_ext (last p) = jpg
         then mput (take (length (last p) - length jpg) (last p)) (picture_tag (pc_mtime f)) vs else vs)
       (av_files m) (av_versions m)\<rparr>"

definition new_avatars :: "bool \<Rightarrow> ustring \<Rightarrow> ustring \<Rightarrow> (ustring list, picture) gomap \<Rightarrow> nat \<Rightarrow> avatars option" where
  "new_avatars mkdir_fails cwd dir fs n =
     (if mkdir_fails then None
      else Some (scan_pictures \<lparr>av_dir = dir, av_cwd = cwd, av_tickets = [], av_versions = [], av_files = fs, av_next = n\<rparr>))"

definition picture_version :: "avatars \<Rightarrow> ustring \<Rightarrow> string" where
  "picture_version m u = (case mget (av_versions m) u of None \<Rightarrow> [] | Some v \<Rightarrow> v)"

section \<open>Uploading\<close>

definition avatar_ticket_for :: "int \<Rightarrow> string \<Rightarrow> uuid \<Rightarrow> avatars \<Rightarrow> avatars" where
  "avatar_ticket_for now token client m =
     m\<lparr>av_tickets := mput token \<lparr>vt_client = client, vt_expires = now + avatar_ttl\<rparr>
       (filter (\<lambda>(_, t). \<not> now > vt_expires t) (av_tickets m))\<rparr>"

record picture_io =
  pi_size :: nat
  pi_read_fails :: bool
  pi_image :: "image option"
  pi_create_fails :: bool
  pi_encode_fails :: bool
  pi_rename_fails :: bool
  pi_stamp_fails :: bool
  pi_written_at :: int
  pi_stamped_at :: int

record picture_job =
  pj_client :: uuid
  pj_rows :: "pixel8 list list"
  pj_file :: nat

definition picture_begin :: "int \<Rightarrow> string \<Rightarrow> picture_io \<Rightarrow> avatars \<Rightarrow> avatars \<times> (avatar_error + picture_job)" where
  "picture_begin now token io m =
     (let found = mget (av_tickets m) token; m1 = m\<lparr>av_tickets := mdel token (av_tickets m)\<rparr> in
      case found of
        None \<Rightarrow> (m1, Inl AvatarBadToken)
      | Some t \<Rightarrow>
          if now > vt_expires t then (m1, Inl AvatarBadToken)
          else if pi_read_fails io then (m1, Inl AvatarIO)
          else if pi_size io > max_picture then (m1, Inl AvatarTooLarge)
          else
            (case pi_image io of
               None \<Rightarrow> (m1, Inl AvatarNotImage)
             | Some im \<Rightarrow> (m1, Inr \<lparr>pj_client = vt_client t, pj_rows = square_and_scale im picture_side, pj_file = 0\<rparr>)))"

definition picture_final :: "avatars \<Rightarrow> picture_job \<Rightarrow> ustring list" where
  "picture_final m j = place m (picture_path m (runes (pj_client j)))"

definition picture_temp :: "avatars \<Rightarrow> picture_job \<Rightarrow> ustring list" where
  "picture_temp m j = place m (picture_path m (runes (pj_client j)) @ runes ''.tmp'')"

definition picture_open :: "picture_io \<Rightarrow> picture_job \<Rightarrow> avatars \<Rightarrow> avatars \<times> (avatar_error + picture_job)" where
  "picture_open io j m =
     (if pi_create_fails io then (m, Inl AvatarIO)
      else
        (case mget (av_files m) (picture_temp m j) of
           Some f \<Rightarrow> (m\<lparr>av_files := mput (picture_temp m j) (f\<lparr>pc_rows := None\<rparr>) (av_files m)\<rparr>, Inr (j\<lparr>pj_file := pc_file f\<rparr>))
         | None \<Rightarrow>
             (m\<lparr>av_files := mput (picture_temp m j) \<lparr>pc_file = av_next m, pc_rows = None, pc_mtime = 0\<rparr> (av_files m),
                av_next := Suc (av_next m)\<rparr>, Inr (j\<lparr>pj_file := av_next m\<rparr>))))"

definition drop_temp :: "picture_job \<Rightarrow> avatars \<Rightarrow> avatars" where
  "drop_temp j m = m\<lparr>av_files := mdel (picture_temp m j) (av_files m)\<rparr>"

text \<open>The writer holds the file, not its name.\<close>

definition picture_write :: "picture_io \<Rightarrow> picture_job \<Rightarrow> avatars \<Rightarrow> avatars \<times> avatar_error option" where
  "picture_write io j m =
     (if pi_encode_fails io then (drop_temp j m, Some AvatarIO)
      else (m\<lparr>av_files := map (\<lambda>(p, f). (p, if pc_file f = pj_file j
                then f\<lparr>pc_rows := Some (pj_rows j), pc_mtime := pi_written_at io\<rparr> else f)) (av_files m)\<rparr>, None))"

definition picture_move :: "picture_io \<Rightarrow> picture_job \<Rightarrow> avatars \<Rightarrow> avatars \<times> (avatar_error + uuid \<times> string)" where
  "picture_move io j m =
     (case (if pi_rename_fails io then None else mget (av_files m) (picture_temp m j)) of
        None \<Rightarrow> (drop_temp j m, Inl AvatarIO)
      | Some f \<Rightarrow>
          (let f1 = (if pi_stamp_fails io then f else f\<lparr>pc_mtime := pi_stamped_at io\<rparr>);
               version = picture_tag (pi_stamped_at io) in
           (m\<lparr>av_files := mput (picture_final m j) f1 (mdel (picture_temp m j) (av_files m)),
              av_versions := mput (runes (pj_client j)) version (av_versions m)\<rparr>,
            Inr (pj_client j, version))))"

definition store_picture :: "int \<Rightarrow> string \<Rightarrow> picture_io \<Rightarrow> avatars \<Rightarrow> avatars \<times> (avatar_error + uuid \<times> string)" where
  "store_picture now token io m =
     (case picture_begin now token io m of
        (m1, Inl err) \<Rightarrow> (m1, Inl err)
      | (m1, Inr j) \<Rightarrow>
          (case picture_open io j m1 of
             (m2, Inl err) \<Rightarrow> (m2, Inl err)
           | (m2, Inr j1) \<Rightarrow>
               (case picture_write io j1 m2 of
                  (m3, Some err) \<Rightarrow> (m3, Inl err)
                | (m3, None) \<Rightarrow> picture_move io j1 m3)))"

definition remove_picture :: "bool \<Rightarrow> ustring \<Rightarrow> avatars \<Rightarrow> avatars" where
  "remove_picture remove_fails u m =
     m\<lparr>av_files := (if remove_fails then av_files m else mdel (place m (picture_path m u)) (av_files m)),
       av_versions := mdel u (av_versions m)\<rparr>"

section \<open>Fetching\<close>

definition valid_uuid :: "ustring \<Rightarrow> bool" where
  "valid_uuid s \<longleftrightarrow> s \<noteq> [] \<and> length s \<le> 64
     \<and> (\<forall>r \<in> set s. (48 \<le> r \<and> r \<le> 57) \<or> (97 \<le> r \<and> r \<le> 102) \<or> (65 \<le> r \<and> r \<le> 70) \<or> r = 45)"

definition open_picture :: "avatars \<Rightarrow> ustring \<Rightarrow> avatar_error + picture \<times> string" where
  "open_picture m u =
     (if \<not> valid_uuid u then Inl AvatarNone
      else
        (case mget (av_files m) (place m (picture_path m u)) of
           None \<Rightarrow> Inl AvatarNone
         | Some f \<Rightarrow> Inr (f, picture_version m u)))"

section \<open>Requests\<close>

definition announce_avatar :: "uuid \<Rightarrow> string \<Rightarrow> server \<Rightarrow> server" where
  "announce_avatar u tag w =
     (case get_session w u of
        None \<Rightarrow> w
      | Some r \<Rightarrow>
          (let w1 = set_avatar r tag w in
           send_message r ''user.updated'' [] (PUser (session_user w1 r))
             (broadcast ''user.updated'' (PUser (session_user w1 r)) u w1)))"

definition handle_avatar_upload_request ::
  "call \<Rightarrow> sref \<Rightarrow> string \<Rightarrow> avatars option \<times> server \<Rightarrow> avatars option \<times> server" where
  "handle_avatar_upload_request c r i mw =
     (case fst mw of
        Some m \<Rightarrow>
          if cfg_bool (cfg (snd mw)) KeyAvatarsEnabled then
            (let now = clock (cx_env c) in
             (Some (avatar_ticket_for now (cx_token c) (s_uuid (heap (snd mw) r)) m),
              send_message r ''avatar.upload_ticket'' i
                (PAvatarTicket (cx_token c) (unix (now + avatar_ttl)) (int max_picture)) (snd mw)))
          else (Some m, send_error r i ''uploads_disabled'' (snd mw))
      | None \<Rightarrow> (None, send_error r i ''uploads_disabled'' (snd mw)))"

definition handle_avatar_clear ::
  "bool \<Rightarrow> sref \<Rightarrow> string \<Rightarrow> avatars option \<times> server \<Rightarrow> avatars option \<times> server" where
  "handle_avatar_clear remove_fails r i mw =
     (case fst mw of
        None \<Rightarrow> (None, send_error r i ''uploads_disabled'' (snd mw))
      | Some m \<Rightarrow>
          (let u = s_uuid (heap (snd mw) r); w1 = announce_avatar u [] (snd mw) in
           (Some (remove_picture remove_fails (runes u) m),
            send_message r ''user.updated'' i (PUser (session_user w1 r)) w1)))"

section \<open>Over HTTP\<close>

fun avatar_status :: "avatar_error \<Rightarrow> nat \<times> string" where
  "avatar_status AvatarBadToken = (403, forbidden)"
| "avatar_status AvatarTooLarge = (413, ''file_too_large'')"
| "avatar_status AvatarNotImage = (400, ''file_invalid'')"
| "avatar_status AvatarNone = (500, internal_error)"
| "avatar_status AvatarIO = (500, internal_error)"

text \<open>The ceiling on the request body is a megabyte above what \<open>Store\<close> reads at most, so it is never met.\<close>

definition http_avatar_upload ::
  "int \<Rightarrow> string \<Rightarrow> picture_io \<Rightarrow> avatars \<times> server \<Rightarrow> (avatars \<times> server) \<times> (nat \<times> string + uuid \<times> string)" where
  "http_avatar_upload now token io mw =
     (if token = [] then (mw, Inl (401, bad_request))
      else
        (case store_picture now token io (fst mw) of
           (m1, Inl err) \<Rightarrow> ((m1, snd mw), Inl (avatar_status err))
         | (m1, Inr (u, v)) \<Rightarrow> ((m1, announce_avatar u v (snd mw)), Inr (u, v))))"

datatype fetched = NoPicture | NotModified | Picture string picture

definition http_avatar_fetch :: "ustring \<Rightarrow> string \<Rightarrow> avatars \<Rightarrow> fetched" where
  "http_avatar_fetch u if_none_match m =
     (case open_picture m u of
        Inl _ \<Rightarrow> NoPicture
      | Inr (f, version) \<Rightarrow>
          (let etag = CHR 0x22 # version @ [CHR 0x22] in
           if if_none_match = etag then NotModified else Picture etag f))"

end
