(* ===== verification/Avatars_Correct.thy ===== *)
theory Avatars_Correct
  imports Avatars
begin

text \<open>
  What the profile pictures guarantee: an upload stores the caller's own picture and touches nothing else,
  the versions in memory are those of the folder at every moment, and a picture is only read from the
  folder. Two uploads of one user that overlap share the temporary file, with the result shown at the end.
\<close>

section \<open>Places\<close>

lemma jpg_facts [simp]: "jpg \<noteq> []" "length jpg = 4" "slash \<notin> set jpg" "[] \<noteq> jpg" "rev jpg = [103, 112, 106, 46]"
  by (auto simp: jpg_def runes_def)

lemma plain_jpg: "slash \<notin> set u \<Longrightarrow> plain (u @ jpg)"
proof -
  assume u: "slash \<notin> set u"
  have "length (u @ jpg) > 2" by simp
  then have "u @ jpg \<noteq> [full_stop]" "u @ jpg \<noteq> dotdot" by force+
  then show ?thesis using u by (simp add: plain_def)
qed

lemma place_picture:
  "av_dir m \<noteq> [] \<Longrightarrow> slash \<notin> set u \<Longrightarrow> place m (picture_path m u) = place m (av_dir m) @ [u @ jpg]"
  by (simp add: place_def picture_path_def plain_jpg)

lemma join_snoc_append: "join sep (es @ [e]) @ s = join sep (es @ [e @ s])"
  by (induction es) (simp_all add: join_Cons)

lemma path_join_append:
  assumes "d \<noteq> []" "plain e" "plain (e @ s)"
  shows "path_join d e @ s = path_join d (e @ s)"
proof -
  have e: "split_on slash e = [e]" "split_on slash (e @ s) = [e @ s]"
    using plain_facts [OF assms(2)] plain_facts [OF assms(3)] by (simp_all add: split_on_no_sep)
  have r: "rooted (d @ slash # x) = rooted d" for x using assms(1) by (cases d) (auto simp: rooted_def)
  have "render rt (es @ [e]) @ s = render rt (es @ [e @ s])" for rt es
    by (simp add: render_def join_snoc_append)
  moreover have "clean_elems rt [] (xs @ [y]) = clean_elems rt [] xs @ [y]" if "plain y" for rt xs y
    using that by (simp add: clean_elems_append) (simp add: clean_elems_def)
  ultimately show ?thesis
    using assms plain_facts [OF assms(2)] plain_facts [OF assms(3)]
    by (simp add: path_join_def path_clean_def r split_on_append e)
qed

lemma place_temp:
  assumes "av_dir m \<noteq> []" "slash \<notin> set (runes (pj_client j))"
  shows "picture_temp m j = place m (av_dir m) @ [runes (pj_client j) @ jpg @ runes ''.tmp'']"
proof -
  have "plain (u @ jpg @ runes ''.tmp'')" if "slash \<notin> set u" for u
  proof -
    have "length (u @ jpg @ runes ''.tmp'') > 2" by simp
    then have "u @ jpg @ runes ''.tmp'' \<noteq> [full_stop]" "u @ jpg @ runes ''.tmp'' \<noteq> dotdot" by force+
    then show ?thesis using that by (simp add: plain_def) (simp add: runes_def)
  qed
  then show ?thesis
    using assms path_join_append [of "av_dir m" "runes (pj_client j) @ jpg" "runes ''.tmp''"]
    by (simp add: picture_temp_def place_def picture_path_def plain_jpg)
qed

lemma temp_not_jpg: "u @ jpg @ runes ''.tmp'' \<noteq> v @ jpg"
proof
  assume "u @ jpg @ runes ''.tmp'' = v @ jpg"
  then have "last (u @ jpg @ runes ''.tmp'') = last (v @ jpg)" by simp
  then show False by (simp add: jpg_def runes_def)
qed

lemma path_ext_jpg: "path_ext (u @ jpg) = jpg"
  by (simp add: path_ext_def Let_def) (simp add: jpg_def runes_def)

lemma path_ext_jpgD: "path_ext n = jpg \<Longrightarrow> n = take (length n - length jpg) n @ jpg"
proof -
  define q where "q = takeWhile (\<lambda>c. c \<noteq> full_stop \<and> c \<noteq> slash) (rev n)"
  assume "path_ext n = jpg"
  then have q: "length q < length n" "rev n ! length q = full_stop" "full_stop # rev q = jpg"
    by (auto simp: path_ext_def Let_def q_def split: if_splits)
  have "rev n = q @ drop (length q) (rev n)"
    unfolding q_def by (metis dropWhile_eq_drop takeWhile_dropWhile_id)
  also have "drop (length q) (rev n) = rev n ! length q # drop (Suc (length q)) (rev n)"
    using q(1) by (simp add: Cons_nth_drop_Suc)
  finally have "n = rev (drop (Suc (length q)) (rev n)) @ full_stop # rev q"
    using q(2) by (metis append_Cons append_Nil append_assoc rev.simps(2) rev_append rev_rev_ident)
  then have "n = rev (drop (Suc (length q)) (rev n)) @ jpg" using q(3) by simp
  then show ?thesis by (metis append_eq_conv_conj diff_add_inverse2 length_append)
qed

section \<open>Version tags\<close>

lemma hex_digit_inj: "m < 16 \<Longrightarrow> n < 16 \<Longrightarrow> hex_digit m = hex_digit n \<longleftrightarrow> m = n"
proof -
  have "distinct ''0123456789abcdef''" by simp
  then show "m < 16 \<Longrightarrow> n < 16 \<Longrightarrow> hex_digit m = hex_digit n \<longleftrightarrow> m = n"
    unfolding hex_digit_def by (subst nth_eq_iff_index_eq) simp_all
qed

declare hex.simps [simp del]

lemma hex_nonempty [simp]: "hex n \<noteq> []" "[] \<noteq> hex n"
proof -
  show "hex n \<noteq> []" by (subst hex.simps) simp
  then show "[] \<noteq> hex n" by metis
qed

lemma hex_inj: "hex m = hex n \<Longrightarrow> m = n"
proof (induction m arbitrary: n rule: hex.induct)
  case (1 m)
  note eq = 1(2) [unfolded hex.simps [of m] hex.simps [of n]]
  show ?case
  proof (cases "m < 16 \<or> n < 16")
    case True
    then show ?thesis
      using eq by (auto simp: hex_digit_inj split: if_splits)
  next
    case False
    then have "hex (m div 16) = hex (n div 16)" "m mod 16 = n mod 16"
      using eq by (auto simp: hex_digit_inj)
    then have "m div 16 = n div 16" using 1(1) False by simp
    with \<open>m mod 16 = n mod 16\<close> show ?thesis by (metis div_mult_mod_eq)
  qed
qed

lemma hex_no_minus: "CHR 0x2D \<notin> set (hex n)"
proof (induction n rule: hex.induct)
  case (1 n)
  have "\<forall>k < 16. hex_digit k \<noteq> CHR 0x2D"
    unfolding hex_digit_def by (simp add: All_less_Suc eval_nat_numeral)
  then have d: "hex_digit (n mod 16) \<noteq> CHR 0x2D" "n < 16 \<longrightarrow> hex_digit n \<noteq> CHR 0x2D" by simp_all
  then show ?case using 1 by (subst hex.simps) auto
qed

lemma picture_tag_inj: "picture_tag s = picture_tag t \<longleftrightarrow> s = t"
proof
  have m: "hex n \<noteq> CHR 0x2D # xs" for n xs using hex_no_minus [of n] by auto
  assume "picture_tag s = picture_tag t"
  then show "s = t"
    using m by (auto simp: picture_tag_def dest!: hex_inj split: if_splits) (metis m)+
qed simp

section \<open>The folder\<close>

definition folder_ok :: "avatars \<Rightarrow> bool" where
  "folder_ok m \<longleftrightarrow> av_dir m \<noteq> [] \<and> wf_map (av_files m)
     \<and> (\<forall>p f. mget (av_files m) p = Some f \<longrightarrow> pc_file f < av_next m)
     \<and> (\<forall>p q f g. mget (av_files m) p = Some f \<longrightarrow> mget (av_files m) q = Some g \<longrightarrow> pc_file f = pc_file g \<longrightarrow> p = q)"

lemma folder_ok_one: "folder_ok m \<Longrightarrow> mget (av_files m) p = Some f \<Longrightarrow> mget (av_files m) q = Some g \<Longrightarrow> pc_file f = pc_file g \<Longrightarrow> p = q"
  by (simp add: folder_ok_def)

abbreviation picture_at :: "avatars \<Rightarrow> ustring \<Rightarrow> picture option" where
  "picture_at m u \<equiv> mget (av_files m) (place m (av_dir m) @ [u @ jpg])"

lemma folder_ok_put:
  assumes "folder_ok m" "mget (av_files m) p = Some f" "pc_file g = pc_file f"
  shows "folder_ok (m\<lparr>av_files := mput p g (av_files m)\<rparr>)"
  using assms unfolding folder_ok_def by (auto split: if_splits)

lemma folder_ok_new:
  assumes "folder_ok m" "mget (av_files m) p = None"
  shows "folder_ok (m\<lparr>av_files := mput p \<lparr>pc_file = av_next m, pc_rows = None, pc_mtime = 0\<rparr> (av_files m), av_next := Suc (av_next m)\<rparr>)"
proof -
  have new: "pc_file g \<noteq> av_next m" "av_next m \<noteq> pc_file g" "pc_file g < Suc (av_next m)"
    if "mget (av_files m) q = Some g" for q g
    using assms(1) that unfolding folder_ok_def by (auto simp: less_Suc_eq dest!: spec)
  show ?thesis using assms new unfolding folder_ok_def by (simp add: new)
qed

lemma open_effect:
  assumes "folder_ok m" "picture_open io j m = (m', Inr j')"
  shows "folder_ok m'" "\<exists>f. mget (av_files m') (picture_temp m j) = Some f \<and> pc_file f = pj_file j' \<and> pc_rows f = None"
    "\<And>p. p \<noteq> picture_temp m j \<Longrightarrow> mget (av_files m') p = mget (av_files m) p"
    "pj_client j' = pj_client j" "pj_rows j' = pj_rows j" "av_dir m' = av_dir m" "av_cwd m' = av_cwd m"
    "av_versions m' = av_versions m" "av_tickets m' = av_tickets m"
proof -
  show "folder_ok m'"
    using assms folder_ok_put [OF assms(1)] folder_ok_new [OF assms(1)]
    by (cases "mget (av_files m) (picture_temp m j)") (auto simp: picture_open_def split: if_splits)
qed (use assms in \<open>auto simp: picture_open_def split: if_splits option.splits\<close>)

lemma folder_ok_mono:
  assumes "av_next m' = av_next m" "av_dir m' = av_dir m" "wf_map (av_files m')"
    and sub: "\<And>q g'. mget (av_files m') q = Some g' \<Longrightarrow> \<exists>g. mget (av_files m) q = Some g \<and> pc_file g = pc_file g'"
    and ok: "folder_ok m"
  shows "folder_ok m'"
  unfolding folder_ok_def
proof (intro conjI allI impI)
  show "pc_file f < av_next m'" if "mget (av_files m') p = Some f" for p f
    using sub [OF that] ok assms(1) unfolding folder_ok_def by metis
  show "p = q" if "mget (av_files m') p = Some f" "mget (av_files m') q = Some g" "pc_file f = pc_file g" for p q f g
    using sub [OF that(1)] sub [OF that(2)] that(3) folder_ok_one [OF ok] by metis
qed (use assms ok in \<open>auto simp: folder_ok_def\<close>)

lemma write_effect:
  assumes "folder_ok m" "picture_write io j m = (m', None)" "mget (av_files m) (picture_temp m j) = Some f" "pc_file f = pj_file j"
  shows "folder_ok m'" "mget (av_files m') p = (if p = picture_temp m j
      then Some (f\<lparr>pc_rows := Some (pj_rows j), pc_mtime := pi_written_at io\<rparr>) else mget (av_files m) p)"
    "av_dir m' = av_dir m" "av_cwd m' = av_cwd m" "av_versions m' = av_versions m" "av_tickets m' = av_tickets m"
proof -
  have files: "av_files m' = map (\<lambda>(p, f). (p, if pc_file f = pj_file j
      then f\<lparr>pc_rows := Some (pj_rows j), pc_mtime := pi_written_at io\<rparr> else f)) (av_files m)"
    using assms(2) by (auto simp: picture_write_def split: if_splits)
  have same: "pc_file g = pj_file j \<longleftrightarrow> q = picture_temp m j" if "mget (av_files m) q = Some g" for q g
    using folder_ok_one [OF assms(1) that assms(3)] that assms(3,4) by auto
  show get: "mget (av_files m') p = (if p = picture_temp m j
      then Some (f\<lparr>pc_rows := Some (pj_rows j), pc_mtime := pi_written_at io\<rparr>) else mget (av_files m) p)" for p
    using same assms(3,4) by (cases "mget (av_files m) p") (auto simp: files mget_map_snd)
  have "av_next m' = av_next m" "av_dir m' = av_dir m" using assms(2) by (auto simp: picture_write_def split: if_splits)
  moreover have "wf_map (av_files m')" using assms(1) by (simp add: files folder_ok_def wf_map_map_snd)
  moreover have "\<exists>g. mget (av_files m) q = Some g \<and> pc_file g = pc_file g'" if "mget (av_files m') q = Some g'" for q g'
    using that get [of q] assms(3) by (auto split: if_splits)
  ultimately show "folder_ok m'" using assms(1) by (rule folder_ok_mono)
qed (use assms(2) in \<open>auto simp: picture_write_def split: if_splits\<close>)

lemma folder_ok_drop: "folder_ok m \<Longrightarrow> folder_ok (m\<lparr>av_files := mdel p (av_files m)\<rparr>)"
  by (auto simp: folder_ok_def)

lemma folder_ok_fields [simp]:
  "folder_ok (m\<lparr>av_tickets := t\<rparr>) = folder_ok m" "folder_ok (m\<lparr>av_versions := v\<rparr>) = folder_ok m"
  by (simp_all add: folder_ok_def)

lemma folder_ok_rename:
  assumes "folder_ok m" "mget (av_files m) p = Some f" "pc_file g = pc_file f"
  shows "folder_ok (m\<lparr>av_files := mput q g (mdel p (av_files m))\<rparr>)"
  using assms unfolding folder_ok_def by (auto split: if_splits)

lemma place_cong: "av_dir m' = av_dir m \<Longrightarrow> av_cwd m' = av_cwd m \<Longrightarrow> place m' = place m \<and> picture_path m' = picture_path m
    \<and> picture_temp m' = picture_temp m \<and> picture_final m' = picture_final m"
  by (auto simp: place_def picture_path_def picture_temp_def picture_final_def fun_eq_iff)

lemma begin_effect:
  assumes "picture_begin now token io m = (m', Inr j)"
  obtains t im where "mget (av_tickets m) token = Some t" "now \<le> vt_expires t" "pi_size io \<le> max_picture" "pi_image io = Some im"
    "j = \<lparr>pj_client = vt_client t, pj_rows = square_and_scale im picture_side, pj_file = 0\<rparr>"
    "m' = m\<lparr>av_tickets := mdel token (av_tickets m)\<rparr>"
proof -
  have s: "(if P then (a, Inl x) else r) = (b, Inr y) \<longleftrightarrow> \<not> P \<and> r = (b, Inr y)" for P a x r b and y :: picture_job
    by simp
  obtain tk where tk: "mget (av_tickets m) token = Some tk"
    using assms by (cases "mget (av_tickets m) token") (simp_all add: picture_begin_def)
  obtain im where im: "pi_image io = Some im"
    using assms by (cases "pi_image io") (simp_all add: picture_begin_def tk s Let_def)
  show thesis
    using assms by (intro that [OF tk _ _ im]) (simp_all add: picture_begin_def tk im s Let_def)
qed

lemma store_steps:
  assumes "store_picture now token io m = (m', Inr r)"
  obtains m1 j m2 j1 m3 where "picture_begin now token io m = (m1, Inr j)" "picture_open io j m1 = (m2, Inr j1)"
    "picture_write io j1 m2 = (m3, None)" "picture_move io j1 m3 = (m', Inr r)"
  using assms by (auto simp: store_picture_def split: sum.splits prod.splits option.splits)

lemma move_effect:
  assumes "folder_ok m" "picture_move io j m = (m', Inr (u, v))"
  obtains f g where "mget (av_files m) (picture_temp m j) = Some f" "g = (if pi_stamp_fails io then f else f\<lparr>pc_mtime := pi_stamped_at io\<rparr>)"
    "m' = m\<lparr>av_files := mput (picture_final m j) g (mdel (picture_temp m j) (av_files m)),
       av_versions := mput (runes (pj_client j)) (picture_tag (pi_stamped_at io)) (av_versions m)\<rparr>"
    "u = pj_client j" "v = picture_tag (pi_stamped_at io)" "folder_ok m'"
proof -
  let ?g = "\<lambda>f. if pi_stamp_fails io then f else f\<lparr>pc_mtime := pi_stamped_at io\<rparr>"
  obtain f where f: "mget (av_files m) (picture_temp m j) = Some f" and r: "\<not> pi_rename_fails io"
    using assms(2) by (cases "pi_rename_fails io"; cases "mget (av_files m) (picture_temp m j)") (simp_all add: picture_move_def)
  let ?m = "m\<lparr>av_files := mput (picture_final m j) (?g f) (mdel (picture_temp m j) (av_files m)),
       av_versions := mput (runes (pj_client j)) (picture_tag (pi_stamped_at io)) (av_versions m)\<rparr>"
  have "picture_move io j m = (?m, Inr (pj_client j, picture_tag (pi_stamped_at io)))"
    using f r unfolding picture_move_def by (simp only: if_False option.case Let_def)
  note raw = trans [OF assms(2) [symmetric] this, unfolded prod.inject sum.inject]
  note m' = raw [THEN conjunct1] and e = raw [THEN conjunct2, THEN conjunct1] raw [THEN conjunct2, THEN conjunct2]
  have "pc_file (?g f) = pc_file f" by simp
  then have "folder_ok (m\<lparr>av_files := mput (picture_final m j) (?g f) (mdel (picture_temp m j) (av_files m))\<rparr>)"
    by (rule folder_ok_rename [OF assms(1) f])
  then have "folder_ok m'" unfolding m' folder_ok_fields(2) .
  then show thesis by (rule that [OF f refl m' e])
qed

text \<open>A successful upload, all steps together.\<close>

definition job_of :: "uuid \<Rightarrow> picture_job" where
  "job_of u = \<lparr>pj_client = u, pj_rows = [], pj_file = 0\<rparr>"

lemma job_of_places:
  "pj_client j = u \<Longrightarrow> picture_temp m j = picture_temp m (job_of u)"
  "pj_client j = u \<Longrightarrow> picture_final m j = picture_final m (job_of u)"
  by (simp_all add: picture_temp_def picture_final_def job_of_def)

lemma store_cases:
  assumes ok: "folder_ok m" and s: "store_picture now token io m = (m', Inr (u, v))"
  obtains t im f where "mget (av_tickets m) token = Some t" "vt_client t = u" "now \<le> vt_expires t"
    "pi_image io = Some im" "pi_size io \<le> max_picture" "v = picture_tag (pi_stamped_at io)"
    "pc_rows f = Some (square_and_scale im picture_side)" "\<not> pi_stamp_fails io \<longrightarrow> pc_mtime f = pi_stamped_at io"
    "\<And>p. mget (av_files m') p = (if p = picture_final m (job_of u) then Some f
      else if p = picture_temp m (job_of u) then None else mget (av_files m) p)"
    "av_versions m' = mput (runes u) v (av_versions m)" "av_tickets m' = mdel token (av_tickets m)"
    "av_dir m' = av_dir m" "av_cwd m' = av_cwd m" "folder_ok m'"
proof -
  obtain m1 j m2 j1 m3 where b: "picture_begin now token io m = (m1, Inr j)" and o: "picture_open io j m1 = (m2, Inr j1)"
    and w: "picture_write io j1 m2 = (m3, None)" and mv: "picture_move io j1 m3 = (m', Inr (u, v))"
    using s by (rule store_steps)
  obtain t im where t: "mget (av_tickets m) token = Some t" "now \<le> vt_expires t" "pi_size io \<le> max_picture" "pi_image io = Some im"
    and j: "j = \<lparr>pj_client = vt_client t, pj_rows = square_and_scale im picture_side, pj_file = 0\<rparr>"
    and m1: "m1 = m\<lparr>av_tickets := mdel token (av_tickets m)\<rparr>"
    using b by (rule begin_effect)
  have ok1: "folder_ok m1" using ok by (simp add: m1)
  note oe = open_effect [OF ok1 o]
  have same1: "place m1 = place m" "picture_temp m1 = picture_temp m" "picture_final m1 = picture_final m"
    using place_cong [of m1 m] by (simp_all add: m1)
  have same2: "picture_temp m2 = picture_temp m" using place_cong [OF oe(6,7)] same1 by simp
  have jt: "picture_temp m j1 = picture_temp m j" using oe(4) by (simp add: picture_temp_def)
  obtain f0 where f0: "mget (av_files m2) (picture_temp m2 j1) = Some f0" "pc_file f0 = pj_file j1"
    using oe(2) jt by (auto simp: same1 same2)
  note we = write_effect [OF oe(1) w f0]
  have same3: "picture_temp m3 = picture_temp m" "picture_final m3 = picture_final m"
    using place_cong [OF we(3,4)] place_cong [OF oe(6,7)] same1 by simp_all
  obtain f g where f: "mget (av_files m3) (picture_temp m3 j1) = Some f"
    and g: "g = (if pi_stamp_fails io then f else f\<lparr>pc_mtime := pi_stamped_at io\<rparr>)"
    and m': "m' = m3\<lparr>av_files := mput (picture_final m3 j1) g (mdel (picture_temp m3 j1) (av_files m3)),
       av_versions := mput (runes (pj_client j1)) (picture_tag (pi_stamped_at io)) (av_versions m3)\<rparr>"
    and u: "u = pj_client j1" and v: "v = picture_tag (pi_stamped_at io)" and ok': "folder_ok m'"
    using we(1) mv by (rule move_effect)
  have jj: "picture_temp m j1 = picture_temp m (job_of u)" "picture_final m j1 = picture_final m (job_of u)"
    "picture_temp m j = picture_temp m (job_of u)"
    using job_of_places [of j1 u] job_of_places [of j u] u oe(4) by simp_all
  show thesis
  proof (rule that [of t im g])
    show "vt_client t = u" using oe(4) by (simp add: j u)
    show "pc_rows g = Some (square_and_scale im picture_side)"
      using f we(2) [of "picture_temp m3 j1"] oe(5) by (simp add: g j same2 same3)
    show "mget (av_files m') p = (if p = picture_final m (job_of u) then Some g
        else if p = picture_temp m (job_of u) then None else mget (av_files m) p)" for p
      using oe(3) [of p, unfolded same1 jj] we(2) [of p] by (simp add: m' m1 same2 same3 jj)
    show "av_versions m' = mput (runes u) v (av_versions m)" using m' u v we(5) oe(8) m1 by simp
    show "av_tickets m' = mdel token (av_tickets m)" using m' we(6) oe(9) m1 by simp
    show "av_dir m' = av_dir m" "av_cwd m' = av_cwd m" using m' we(3,4) oe(6,7) m1 by simp_all
    show "\<not> pi_stamp_fails io \<longrightarrow> pc_mtime g = pi_stamped_at io" by (simp add: g)
  qed (fact t v ok')+
qed


lemma open_succeeds: "\<not> pi_create_fails io \<Longrightarrow> \<exists>m' k. picture_open io j m = (m', Inr k)"
  by (cases "mget (av_files m) (picture_temp m j)") (simp_all add: picture_open_def)

lemma write_succeeds: "\<not> pi_encode_fails io \<Longrightarrow> \<exists>m'. picture_write io j m = (m', None)"
  by (simp add: picture_write_def)

lemma write_dirs: "picture_write io j m = (m', None) \<Longrightarrow> av_dir m' = av_dir m \<and> av_cwd m' = av_cwd m \<and> av_versions m' = av_versions m"
  by (auto simp: picture_write_def split: if_splits)

lemma move_succeeds:
  "mget (av_files m) (picture_temp m j) = Some f \<Longrightarrow> \<not> pi_rename_fails io \<Longrightarrow>
    \<exists>m'. picture_move io j m = (m', Inr (pj_client j, picture_tag (pi_stamped_at io)))"
  by (simp add: picture_move_def Let_def)

lemma temp_opened:
  assumes "folder_ok m" "picture_open io j m = (m', Inr k)"
  shows "\<exists>f. mget (av_files m') (picture_temp m' k) = Some f \<and> pc_file f = pj_file k \<and> pc_rows f = None"
proof -
  note oe = open_effect [OF assms]
  have "picture_temp m' k = picture_temp m j" using place_cong [OF oe(6,7)] oe(4) by (simp add: picture_temp_def)
  then show ?thesis using oe(2) by metis
qed

lemma store_succeeds:
  assumes ok: "folder_ok m" and tk: "mget (av_tickets m) token = Some tk" "now \<le> vt_expires tk"
    and io: "\<not> pi_read_fails io" "pi_size io \<le> max_picture" "pi_image io = Some im"
      "\<not> pi_create_fails io" "\<not> pi_encode_fails io" "\<not> pi_rename_fails io"
  shows "\<exists>m'. store_picture now token io m = (m', Inr (vt_client tk, picture_tag (pi_stamped_at io)))"
proof -
  let ?j = "\<lparr>pj_client = vt_client tk, pj_rows = square_and_scale im picture_side, pj_file = 0\<rparr>"
  let ?m1 = "m\<lparr>av_tickets := mdel token (av_tickets m)\<rparr>"
  have b: "picture_begin now token io m = (?m1, Inr ?j)"
    using tk io(1-3) by (simp add: picture_begin_def Let_def)
  obtain m2 j1 where o: "picture_open io ?j ?m1 = (m2, Inr j1)" using open_succeeds [OF io(4)] by blast
  have ok1: "folder_ok ?m1" using ok by simp
  note oe = open_effect [OF ok1 o]
  obtain f where f: "mget (av_files m2) (picture_temp m2 j1) = Some f" "pc_file f = pj_file j1"
    using temp_opened [OF ok1 o] by blast
  obtain m3 where w: "picture_write io j1 m2 = (m3, None)" using write_succeeds [OF io(5)] by blast
  note we = write_effect [OF oe(1) w f]
  have "mget (av_files m3) (picture_temp m3 j1) \<noteq> None"
    using we(2) [of "picture_temp m2 j1"] place_cong [OF we(3,4)] by simp
  then obtain g where "mget (av_files m3) (picture_temp m3 j1) = Some g" by blast
  from move_succeeds [OF this io(6)] show ?thesis using b o w oe(4) by (simp add: store_picture_def)
qed

lemma mdel_absent: "mget m k = None \<Longrightarrow> mdel k m = m"
  by (simp add: map_of_eq_None_iff AList.delete_eq) (rule filter_True, force)

section \<open>What an upload does\<close>

lemma valid_uuid_plain: "valid_uuid u \<Longrightarrow> slash \<notin> set u"
  by (auto simp: valid_uuid_def)

lemma folder_ok_dir: "folder_ok m \<Longrightarrow> av_dir m \<noteq> []"
  by (simp add: folder_ok_def)

lemma open_picture_at:
  "folder_ok m \<Longrightarrow> valid_uuid u \<Longrightarrow> open_picture m u =
    (case picture_at m u of None \<Rightarrow> Inl AvatarNone | Some f \<Rightarrow> Inr (f, picture_version m u))"
  by (simp add: open_picture_def place_picture folder_ok_dir valid_uuid_plain)

lemma place_final:
  "folder_ok m \<Longrightarrow> slash \<notin> set (runes u) \<Longrightarrow> picture_final m (job_of u) = place m (av_dir m) @ [runes u @ jpg]"
  by (simp add: picture_final_def job_of_def place_picture folder_ok_dir)

lemma place_temp_of:
  "folder_ok m \<Longrightarrow> slash \<notin> set (runes u) \<Longrightarrow> picture_temp m (job_of u) = place m (av_dir m) @ [runes u @ jpg @ runes ''.tmp'']"
  by (simp add: place_temp folder_ok_dir job_of_def)

lemma store_pictures:
  assumes ok: "folder_ok m" and s: "store_picture now token io m = (m', Inr (u, v))" and u: "valid_uuid (runes u)"
  obtains im f where "pi_image io = Some im" "pc_rows f = Some (square_and_scale im picture_side)"
    "\<not> pi_stamp_fails io \<longrightarrow> pc_mtime f = pi_stamped_at io"
    "\<And>w. picture_at m' w = (if w = runes u then Some f else picture_at m w)"
    "\<And>w. picture_version m' w = (if w = runes u then picture_tag (pi_stamped_at io) else picture_version m w)"
    "folder_ok m'" "place m' = place m" "av_dir m' = av_dir m"
proof -
  note fin = place_final [OF ok valid_uuid_plain [OF u]] and tmp = place_temp_of [OF ok valid_uuid_plain [OF u]]
  show thesis
  proof (rule store_cases [OF ok s])
    fix t im f
    assume c: "pi_image io = Some im" "pc_rows f = Some (square_and_scale im picture_side)"
        "\<not> pi_stamp_fails io \<longrightarrow> pc_mtime f = pi_stamped_at io"
      and files: "\<And>p. mget (av_files m') p = (if p = picture_final m (job_of u) then Some f
        else if p = picture_temp m (job_of u) then None else mget (av_files m) p)"
      and vs: "v = picture_tag (pi_stamped_at io)" "av_versions m' = mput (runes u) v (av_versions m)"
      and d: "av_dir m' = av_dir m" "av_cwd m' = av_cwd m" "folder_ok m'"
    have pl: "place m' = place m" using place_cong [OF d(1,2)] by simp
    have "picture_at m' w = (if w = runes u then Some f else picture_at m w)" for w
      using temp_not_jpg [of "runes u" w] by (auto simp: files fin tmp pl d)
    moreover have "picture_version m' w = (if w = runes u then picture_tag (pi_stamped_at io) else picture_version m w)" for w
      using vs by (simp add: picture_version_def)
    ultimately show thesis using that [OF c _ _ d(3) pl d(1)] by blast
  qed
qed

text \<open>C39. A ticket in time and a body that is an image of at most eight megabytes store the picture of the user
  the ticket was given to, and of nobody else: what is fetched for that user is the scaled centre square under
  the new version, and what is fetched for every other user is what it was. The new version differs from the
  old one unless the two have the same time stamp, and the ticket cannot be used again.\<close>

theorem upload_stores_the_callers_picture:
  assumes "folder_ok m" "mget (av_tickets m) token = Some tk" "now \<le> vt_expires tk" "valid_uuid (runes (vt_client tk))"
    and "\<not> pi_read_fails io" "pi_size io \<le> max_picture" "pi_image io = Some im"
    and "\<not> pi_create_fails io" "\<not> pi_encode_fails io" "\<not> pi_rename_fails io"
  shows "\<exists>m' f. store_picture now token io m = (m', Inr (vt_client tk, picture_tag (pi_stamped_at io)))
    \<and> open_picture m' (runes (vt_client tk)) = Inr (f, picture_tag (pi_stamped_at io))
    \<and> pc_rows f = Some (square_and_scale im picture_side)
    \<and> (\<forall>w. w \<noteq> runes (vt_client tk) \<longrightarrow> open_picture m' w = open_picture m w)
    \<and> (picture_version m (runes (vt_client tk)) = picture_tag old \<longrightarrow> old \<noteq> pi_stamped_at io
        \<longrightarrow> picture_version m' (runes (vt_client tk)) \<noteq> picture_version m (runes (vt_client tk)))
    \<and> store_picture later token io2 m' = (m', Inl AvatarBadToken)"
proof -
  let ?u = "runes (vt_client tk)"
  obtain m' where s: "store_picture now token io m = (m', Inr (vt_client tk, picture_tag (pi_stamped_at io)))"
    using store_succeeds [OF assms(1-3,5-10)] by blast
  obtain f where f: "pc_rows f = Some (square_and_scale im picture_side)"
    and pics: "\<And>w. picture_at m' w = (if w = ?u then Some f else picture_at m w)"
    and vers: "\<And>w. picture_version m' w = (if w = ?u then picture_tag (pi_stamped_at io) else picture_version m w)"
    and ok': "folder_ok m'"
    using store_pictures [OF assms(1) s assms(4)] assms(7) by (metis option.inject)
  have "mget (av_tickets m') token = None"
    using store_cases [OF assms(1) s] by (metis mget_mdel)
  then have "store_picture later token io2 m' = (m', Inl AvatarBadToken)"
    by (simp add: store_picture_def picture_begin_def mdel_absent)
  moreover have "open_picture m' w = open_picture m w" if "w \<noteq> ?u" for w
  proof (cases "valid_uuid w")
    case True
    show ?thesis
      unfolding open_picture_at [OF assms(1) True] open_picture_at [OF ok' True] pics vers using that by simp
  qed (simp add: open_picture_def)
  moreover have "open_picture m' ?u = Inr (f, picture_tag (pi_stamped_at io))"
    using open_picture_at [OF ok' assms(4)] pics vers by simp
  ultimately show ?thesis using s f vers by (auto simp: picture_tag_inj)
qed


definition lena :: image where
  "lena = \<lparr>im_x = 0, im_y = 0, im_w = 1, im_h = 1, im_at = (\<lambda>_ _. \<lparr>px_r = 0x8000, px_g = 0, px_b = 0, px_a = 0xFFFF\<rparr>)\<rparr>"

definition good_io :: "int \<Rightarrow> picture_io" where
  "good_io t = \<lparr>pi_size = 100, pi_read_fails = False, pi_image = Some lena, pi_create_fails = False,
     pi_encode_fails = False, pi_rename_fails = False, pi_stamp_fails = False, pi_written_at = t, pi_stamped_at = t\<rparr>"

definition gallery :: avatars where
  "gallery = \<lparr>av_dir = runes ''avatars'', av_cwd = runes ''/srv'', av_tickets = [(''t1'', \<lparr>vt_client = ''ab'', vt_expires = 50\<rparr>),
       (''t2'', \<lparr>vt_client = ''ab'', vt_expires = 60\<rparr>)], av_versions = [], av_files = [], av_next = 0\<rparr>"

lemma good_io_facts:
  "pi_size (good_io t) \<le> max_picture" "\<not> pi_read_fails (good_io t)" "pi_image (good_io t) = Some lena"
  "\<not> pi_create_fails (good_io t)" "\<not> pi_encode_fails (good_io t)" "\<not> pi_rename_fails (good_io t)"
  "\<not> pi_stamp_fails (good_io t)" "pi_stamped_at (good_io t) = t"
  by (simp_all add: good_io_def max_picture_def)

lemma gallery_ok: "folder_ok gallery"
  by (simp add: folder_ok_def gallery_def runes_def)

theorem upload_stores_the_callers_picture_witness:
  "\<exists>m' f. open_picture m' (runes ''ab'') = Inr (f, ''1f'') \<and> store_picture 31 ''t1'' (good_io 31) m' = (m', Inl AvatarBadToken)"
proof -
  have "valid_uuid (runes ''ab'')" by (simp add: valid_uuid_def runes_def)
  moreover have "picture_tag 31 = ''1f''" by (simp add: picture_tag_def hex.simps hex_digit_def)
  ultimately show ?thesis
    using upload_stores_the_callers_picture [OF gallery_ok, of "''t1''" "\<lparr>vt_client = ''ab'', vt_expires = 50\<rparr>" 31 "good_io 31" lena 0 31 "good_io 31"]
    by (auto simp: gallery_def good_io_def max_picture_def)
qed

section \<open>Versions survive a restart\<close>

text \<open>The life of the folder while uploads do not overlap, the clock of the disk included.\<close>

inductive pictures_step :: "avatars \<Rightarrow> avatars \<Rightarrow> bool" where
  Ticketed: "pictures_step m (avatar_ticket_for now token u m)"
| Stored: "store_picture now token io m = (m', r) \<Longrightarrow> \<not> pi_stamp_fails io \<Longrightarrow>
    (\<And>t. mget (av_tickets m) token = Some t \<Longrightarrow> valid_uuid (runes (vt_client t))) \<Longrightarrow> pictures_step m m'"
| Removed: "slash \<notin> set u \<Longrightarrow> pictures_step m (remove_picture False u m)"

inductive pictures_reachable :: "avatars \<Rightarrow> bool" where
  Opened: "new_avatars False cwd dir fs n = Some m \<Longrightarrow> folder_ok m \<Longrightarrow> pictures_reachable m"
| Stepped: "pictures_reachable m \<Longrightarrow> pictures_step m m' \<Longrightarrow> pictures_reachable m'"

lemma mget_scan:
  assumes "distinct (map fst fs)"
  shows "mget (fold (\<lambda>(p, f) vs.
         if p \<noteq> [] \<and> butlast p = d \<and> path_ext (last p) = jpg
         then mput (take (length (last p) - length jpg) (last p)) (picture_tag (pc_mtime f)) vs else vs) fs vs) u
    = (case mget fs (d @ [u @ jpg]) of None \<Rightarrow> mget vs u | Some f \<Rightarrow> Some (picture_tag (pc_mtime f)))"
  using assms
proof (induction fs arbitrary: vs)
  case (Cons e fs)
  obtain p f where e: "e = (p, f)" by fastforce
  let ?hit = "p \<noteq> [] \<and> butlast p = d \<and> path_ext (last p) = jpg"
  let ?n = "take (length (last p) - length jpg) (last p)"
  have new: "mget fs p = None" using Cons.prems by (simp add: e map_of_eq_None_iff)
  have "?hit \<and> ?n = u \<longleftrightarrow> p = d @ [u @ jpg]"
  proof
    assume h: "?hit \<and> ?n = u"
    then have "last p = u @ jpg" using path_ext_jpgD [of "last p"] by simp
    then show "p = d @ [u @ jpg]" using h append_butlast_last_id [of p] by metis
  qed (simp add: path_ext_jpg)
  then show ?case using Cons new by (auto simp: e split: option.split)
qed simp

definition versions_match :: "avatars \<Rightarrow> bool" where
  "versions_match m \<longleftrightarrow> (\<forall>u. valid_uuid u \<longrightarrow>
     picture_version m u = (case picture_at m u of None \<Rightarrow> [] | Some f \<Rightarrow> picture_tag (pc_mtime f)))"

lemma scan_version:
  assumes "wf_map (av_files m)"
  shows "picture_version (scan_pictures m) u = (case picture_at m u of None \<Rightarrow> picture_version m u | Some f \<Rightarrow> picture_tag (pc_mtime f))"
  using mget_scan [of "av_files m" "place m (av_dir m)" "av_versions m" u] assms
  by (simp add: picture_version_def scan_pictures_def wf_map_def split: option.split)

lemma write_fails: "picture_write io j m = (m', Some err) \<Longrightarrow> m' = drop_temp j m"
  by (simp add: picture_write_def split: if_splits)

lemma move_fails: "picture_move io j m = (m', Inl err) \<Longrightarrow> m' = drop_temp j m"
  by (simp add: picture_move_def Let_def split: option.splits if_splits)

lemma begin_fails: "picture_begin now token io m = (m', Inl err) \<Longrightarrow> m' = m\<lparr>av_tickets := mdel token (av_tickets m)\<rparr>"
  by (simp add: picture_begin_def Let_def split: option.splits if_splits)

lemma open_fails: "picture_open io j m = (m', Inl err) \<Longrightarrow> m' = m"
  by (simp add: picture_open_def split: option.splits if_splits)

text \<open>Two states with the same pictures and the same versions.\<close>

definition same_pictures :: "avatars \<Rightarrow> avatars \<Rightarrow> bool" where
  "same_pictures m' m \<longleftrightarrow> av_versions m' = av_versions m
     \<and> (\<forall>u. picture_at m' u = picture_at m u) \<and> (folder_ok m \<longrightarrow> folder_ok m')"

lemma same_pictures_trans: "same_pictures a b \<Longrightarrow> same_pictures b c \<Longrightarrow> same_pictures a c"
  by (auto simp: same_pictures_def)

lemma same_pictures_tickets: "same_pictures (m\<lparr>av_tickets := t\<rparr>) m"
  using place_cong [of "m\<lparr>av_tickets := t\<rparr>" m] by (simp add: same_pictures_def)

lemma temp_is_no_picture:
  "folder_ok m \<Longrightarrow> slash \<notin> set (runes (pj_client j)) \<Longrightarrow> place m (av_dir m) @ [u @ jpg] \<noteq> picture_temp m j"
  using temp_not_jpg [of "runes (pj_client j)" u] by (simp add: place_temp folder_ok_dir)

lemma same_pictures_drop:
  assumes "folder_ok m" "slash \<notin> set (runes (pj_client j))"
  shows "same_pictures (drop_temp j m) m"
  using temp_is_no_picture [OF assms] place_cong [of "drop_temp j m" m] folder_ok_drop [OF assms(1)]
  by (simp add: same_pictures_def drop_temp_def)

lemma same_pictures_open:
  assumes "folder_ok m" "slash \<notin> set (runes (pj_client j))" "picture_open io j m = (m', Inr k)"
  shows "same_pictures m' m"
  using open_effect [OF assms(1,3)] temp_is_no_picture [OF assms(1,2)] place_cong [of m' m]
  by (simp add: same_pictures_def)

lemma same_pictures_write:
  assumes "folder_ok m" "slash \<notin> set (runes (pj_client j))" "picture_write io j m = (m', None)"
    "mget (av_files m) (picture_temp m j) = Some f" "pc_file f = pj_file j"
  shows "same_pictures m' m"
  using write_effect [OF assms(1,3-5)] temp_is_no_picture [OF assms(1,2)] place_cong [of m' m]
  by (simp add: same_pictures_def)

lemma store_failed:
  assumes ok: "folder_ok m" and s: "store_picture now token io m = (m', Inl err)"
    and plain: "\<And>t. mget (av_tickets m) token = Some t \<Longrightarrow> slash \<notin> set (runes (vt_client t))"
  shows "same_pictures m' m"
proof -
  obtain m1 r1 where b: "picture_begin now token io m = (m1, r1)" by fastforce
  show ?thesis
  proof (cases r1)
    case (Inl x)
    then have "m' = m\<lparr>av_tickets := mdel token (av_tickets m)\<rparr>"
      using s b begin_fails [of now token io m m' err] by (simp add: store_picture_def)
    then show ?thesis using same_pictures_tickets by simp
  next
    case (Inr j)
    then obtain t where t: "mget (av_tickets m) token = Some t" "pj_client j = vt_client t" "m1 = m\<lparr>av_tickets := mdel token (av_tickets m)\<rparr>"
      using b by (auto elim: begin_effect)
    then have j: "slash \<notin> set (runes (pj_client j))" and same1: "same_pictures m1 m" and ok1: "folder_ok m1"
      using plain same_pictures_tickets ok by simp_all
    obtain m2 r2 where o: "picture_open io j m1 = (m2, r2)" by fastforce
    show ?thesis
    proof (cases r2)
      case (Inl x)
      then have "m' = m2" "m2 = m1" using s b Inr o open_fails [of io j m1 m2 x] by (simp_all add: store_picture_def)
      then show ?thesis using same1 by simp
    next
      case r2: (Inr k)
      note oe = open_effect [OF ok1 o [unfolded r2]]
      have same2: "same_pictures m2 m" using same_pictures_trans [OF same_pictures_open [OF ok1 j o [unfolded r2]] same1] .
      have k: "slash \<notin> set (runes (pj_client k))" using j oe(4) by simp
      obtain f where f: "mget (av_files m2) (picture_temp m2 k) = Some f" "pc_file f = pj_file k"
        using temp_opened [OF ok1 o [unfolded r2]] by blast
      obtain m3 r3 where w: "picture_write io k m2 = (m3, r3)" by fastforce
      show ?thesis
      proof (cases r3)
        case (Some x)
        then have "m' = m3" "m3 = drop_temp k m2"
          using s b Inr o r2 w write_fails [of io k m2 m3 x] by (simp_all add: store_picture_def)
        then show ?thesis using same_pictures_trans [OF same_pictures_drop [OF oe(1) k] same2] by simp
      next
        case None
        note w' = w [unfolded None]
        have "folder_ok m3" using write_effect(1) [OF oe(1) w' f] .
        have "picture_move io k m3 = (m', Inl err)" using s b Inr o r2 w' by (simp add: store_picture_def)
        then have "m' = drop_temp k m3" by (rule move_fails)
        then show ?thesis
          using same_pictures_trans [OF same_pictures_drop [OF \<open>folder_ok m3\<close> k]
              same_pictures_trans [OF same_pictures_write [OF oe(1) k w' f] same2]] by simp
      qed
    qed
  qed
qed

lemma same_pictures_match:
  assumes "same_pictures m' m" "folder_ok m \<and> versions_match m"
  shows "folder_ok m' \<and> versions_match m'"
proof -
  have p: "\<And>u. picture_at m' u = picture_at m u" "\<And>u. picture_version m' u = picture_version m u"
    using assms(1) by (simp_all add: same_pictures_def picture_version_def)
  show ?thesis using assms by (simp only: versions_match_def p) (simp add: same_pictures_def)
qed

lemma removed_match:
  assumes "folder_ok m \<and> versions_match m" "slash \<notin> set u"
  shows "folder_ok (remove_picture False u m) \<and> versions_match (remove_picture False u m)"
proof -
  have d: "av_dir m \<noteq> []" using assms(1) by (simp add: folder_ok_def)
  have "place (remove_picture False u m) = place m" by (simp add: place_def remove_picture_def fun_eq_iff)
  moreover have "folder_ok (remove_picture False u m)"
    using assms(1) by (auto simp: remove_picture_def folder_ok_def)
  ultimately show ?thesis
    using assms place_picture [OF d assms(2)] by (simp add: versions_match_def remove_picture_def picture_version_def)
qed

lemma step_match: "pictures_step m m' \<Longrightarrow> folder_ok m \<and> versions_match m \<Longrightarrow> folder_ok m' \<and> versions_match m'"
proof (induction rule: pictures_step.induct)
  case (Ticketed m now token u)
  then show ?case unfolding avatar_ticket_for_def by (rule same_pictures_match [OF same_pictures_tickets])
next
  case (Stored now token io m m' r)
  note ok = Stored.prems [THEN conjunct1] and match = Stored.prems [THEN conjunct2]
  show ?case
  proof (cases r)
    case (Inl err)
    then show ?thesis
      by (intro same_pictures_match [OF store_failed [OF ok] Stored.prems])
        (rule Stored.hyps(1) [unfolded Inl], rule valid_uuid_plain [OF Stored.hyps(3)])
  next
    case (Inr uv)
    obtain u v where s: "store_picture now token io m = (m', Inr (u, v))" using Stored.hyps(1) Inr by (cases uv) auto
    have u: "valid_uuid (runes u)"
      by (rule store_cases [OF ok s]) (use Stored.hyps(3) in blast)
    show ?thesis
    proof (rule store_pictures [OF ok s u])
      fix f
      assume "\<not> pi_stamp_fails io \<longrightarrow> pc_mtime f = pi_stamped_at io"
        and p: "\<And>w. picture_at m' w = (if w = runes u then Some f else picture_at m w)"
          "\<And>w. picture_version m' w = (if w = runes u then picture_tag (pi_stamped_at io) else picture_version m w)"
        and "folder_ok m'"
      then show "folder_ok m' \<and> versions_match m'"
        using Stored.hyps(2) match unfolding versions_match_def p by simp
    qed
  qed
next
  case (Removed u m)
  then show ?case by (rule removed_match [rotated])
qed

lemma reachable_match: "pictures_reachable m \<Longrightarrow> folder_ok m \<and> versions_match m"
proof (induction rule: pictures_reachable.induct)
  case (Opened cwd dir fs n m)
  let ?m = "\<lparr>av_dir = dir, av_cwd = cwd, av_tickets = [], av_versions = [], av_files = fs, av_next = n\<rparr>"
  have m: "m = scan_pictures ?m" using Opened by (simp add: new_avatars_def)
  have "wf_map fs" using Opened by (simp add: folder_ok_def m scan_pictures_def)
  moreover have "place m = place ?m" "av_dir m = dir" "av_files m = fs" by (simp_all add: m scan_pictures_def place_def fun_eq_iff)
  ultimately show ?case
    using Opened(2) scan_version [of ?m] by (simp add: versions_match_def m [symmetric]) (simp add: picture_version_def split: option.split)
qed (rule step_match)

text \<open>C40. Versions are kept in memory only, and yet a restart changes none: opening the folder again gives every
  user the version they had, after any sequence of tickets, uploads (failed ones included) and removals that
  do not overlap, provided the disk keeps the time stamps and removes the files it is asked to remove.\<close>

theorem versions_survive_restart:
  assumes "pictures_reachable m" "valid_uuid u"
  shows "\<exists>m'. new_avatars False (av_cwd m) (av_dir m) (av_files m) n = Some m' \<and> picture_version m' u = picture_version m u"
proof -
  let ?m = "\<lparr>av_dir = av_dir m, av_cwd = av_cwd m, av_tickets = [], av_versions = [], av_files = av_files m, av_next = n\<rparr>"
  have ok: "folder_ok m" "versions_match m" using reachable_match [OF assms(1)] by simp_all
  then have "wf_map (av_files ?m)" by (simp add: folder_ok_def)
  then have "picture_version (scan_pictures ?m) u = picture_version m u"
    using scan_version [of ?m u] ok(2) assms(2)
    by (simp add: versions_match_def place_def) (simp add: picture_version_def split: option.split)
  then show ?thesis by (simp add: new_avatars_def)
qed

theorem versions_survive_restart_witness:
  "\<exists>m m'. pictures_reachable m \<and> new_avatars False (av_cwd m) (av_dir m) (av_files m) 9 = Some m'
     \<and> picture_version m' (runes ''ab'') = picture_tag 31"
proof -
  define start where "start = scan_pictures (gallery\<lparr>av_tickets := []\<rparr>)"
  let ?m1 = "avatar_ticket_for 10 ''t'' ''ab'' start"
  have start: "new_avatars False (av_cwd gallery) (av_dir gallery) [] 0 = Some start"
    by (simp add: new_avatars_def start_def gallery_def)
  have ok: "folder_ok start" using gallery_ok by (simp add: start_def scan_pictures_def)
  have r1: "pictures_reachable ?m1" using Stepped [OF Opened [OF start ok] Ticketed] .
  have ok1: "folder_ok ?m1" using ok by (simp add: avatar_ticket_for_def)
  have tk: "mget (av_tickets ?m1) ''t'' = Some \<lparr>vt_client = ''ab'', vt_expires = 10 + avatar_ttl\<rparr>"
    by (simp add: avatar_ticket_for_def)
  have u: "valid_uuid (runes ''ab'')" by (simp add: valid_uuid_def runes_def)
  obtain m2 where s: "store_picture 31 ''t'' (good_io 31) ?m1 = (m2, Inr (''ab'', picture_tag 31))"
    using store_succeeds [OF ok1 tk, of 31 "good_io 31" lena] by (simp add: good_io_facts avatar_ttl_def) blast
  have "pictures_reachable m2"
    by (rule Stepped [OF r1 Stored [OF s]]) (use tk u in \<open>simp_all add: good_io_facts\<close>)
  moreover have "picture_version m2 (runes ''ab'') = picture_tag 31"
    by (rule store_pictures [OF ok1 s u]) (simp add: good_io_facts)
  ultimately show ?thesis using versions_survive_restart [OF _ u, of m2 9] by metis
qed

section \<open>Two uploads at once\<close>

lemma write_by_number:
  "picture_write io j m = (m', None) \<Longrightarrow> mget (av_files m') p = (case mget (av_files m) p of None \<Rightarrow> None
     | Some f \<Rightarrow> Some (if pc_file f = pj_file j then f\<lparr>pc_rows := Some (pj_rows j), pc_mtime := pi_written_at io\<rparr> else f))"
  by (auto simp: picture_write_def mget_map_snd split: if_splits option.split)

text \<open>Two uploads of one user that overlap: the second opens the temporary file while the first is about to
  move it, so what is moved into place and announced is the half-written picture of the second. The second
  writer then fills the published file in, under the version of the first, and is told that it failed.\<close>

theorem overlapping_uploads_publish_half_a_picture:
  assumes "folder_ok m" "valid_uuid (runes u)" "pj_client j1 = u" "pj_client j2 = u"
    and "picture_open io1 j1 m = (m1, Inr k1)" "picture_write io1 k1 m1 = (m2, None)"
    and "picture_open io2 j2 m2 = (m3, Inr k2)" "picture_move io1 k1 m3 = (m4, Inr (u, v))"
    and "picture_write io2 k2 m4 = (m5, None)"
  shows "\<exists>f g. open_picture m4 (runes u) = Inr (f, v) \<and> pc_rows f = None
    \<and> open_picture m5 (runes u) = Inr (g, v) \<and> pc_rows g = Some (pj_rows j2)
    \<and> snd (picture_move io2 k2 m5) = Inl AvatarIO"
proof -
  note plain = valid_uuid_plain [OF assms(2)]
  have pl: "slash \<notin> set (runes (pj_client j1))" "slash \<notin> set (runes (pj_client j2))" using plain assms(3,4) by simp_all
  note o1 = open_effect [OF assms(1,5)]
  have k1: "pj_client k1 = u" using o1(4) assms(3) by simp
  obtain f1 where f1: "mget (av_files m1) (picture_temp m1 k1) = Some f1" "pc_file f1 = pj_file k1"
    using temp_opened [OF assms(1,5)] by blast
  note w1 = write_effect [OF o1(1) assms(6) f1]
  note o2 = open_effect [OF w1(1) assms(7)]
  have k2: "pj_client k2 = u" "pj_rows k2 = pj_rows j2" using o2(4,5) assms(4) by simp_all
  have same3: "picture_temp m3 k = picture_temp m2 k" for k using place_cong [OF o2(6,7)] by simp
  have tt: "picture_temp m2 j2 = picture_temp m2 k1" using assms(4) k1 by (simp add: picture_temp_def)
  then obtain h where h: "mget (av_files m3) (picture_temp m3 k1) = Some h" "pc_file h = pj_file k2" "pc_rows h = None"
    using o2(2) same3 by metis
  obtain f g where f: "mget (av_files m3) (picture_temp m3 k1) = Some f"
    and g: "g = (if pi_stamp_fails io1 then f else f\<lparr>pc_mtime := pi_stamped_at io1\<rparr>)"
    and m4: "m4 = m3\<lparr>av_files := mput (picture_final m3 k1) g (mdel (picture_temp m3 k1) (av_files m3)),
       av_versions := mput (runes (pj_client k1)) (picture_tag (pi_stamped_at io1)) (av_versions m3)\<rparr>"
    and v: "v = picture_tag (pi_stamped_at io1)" and ok4: "folder_ok m4"
    using o2(1) assms(8) by (rule move_effect)
  have gh: "pc_file g = pj_file k2" "pc_rows g = None" using f h g by simp_all
  have ver: "picture_version m4 (runes u) = v" by (simp add: picture_version_def m4 k1 v)
  have d4: "av_dir m4 = av_dir m3" "av_cwd m4 = av_cwd m3" by (simp_all add: m4)
  note same4 = place_cong [OF d4]
  have f4: "av_files m4 = mput (picture_final m3 k1) g (mdel (picture_temp m3 k1) (av_files m3))" by (simp add: m4)
  have ok3: "folder_ok m3" by (rule o2(1))
  have fin: "picture_final m3 k1 = place m3 (av_dir m3) @ [runes u @ jpg]"
    using place_final [OF ok3 plain] job_of_places(2) [OF k1, of m3] by simp
  have tmp: "picture_temp m3 k1 = place m3 (av_dir m3) @ [runes u @ jpg @ runes ''.tmp'']"
    using place_temp_of [OF ok3 plain] job_of_places(1) [OF k1, of m3] by simp
  have pic4: "picture_at m4 (runes u) = Some g" by (simp add: f4 fin same4 d4)
  have no4: "mget (av_files m4) (picture_temp m4 k2) = None"
    using same4 tmp fin temp_not_jpg [of "runes u" "runes u"] job_of_places(1) [OF k2(1), of m3] job_of_places(1) [OF k1, of m3]
    by (simp add: f4)
  have m5: "av_dir m5 = av_dir m4" "av_cwd m5 = av_cwd m4" "av_versions m5 = av_versions m4"
    using write_dirs [OF assms(9)] by simp_all
  note same5 = place_cong [OF m5(1,2)]
  let ?g = "g\<lparr>pc_rows := Some (pj_rows k2), pc_mtime := pi_written_at io2\<rparr>"
  have pic5: "picture_at m5 (runes u) = Some ?g"
    using write_by_number [OF assms(9)] pic4 gh(1) same5 m5(1) by simp
  have "open_picture m4 (runes u) = Inr (g, v)" using open_picture_at [OF ok4 assms(2)] pic4 ver by simp
  moreover have "open_picture m5 (runes u) = Inr (?g, v)"
    using assms(2) pic5 ver m5(3) place_picture [of m5 "runes u"] folder_ok_dir [OF ok4] plain m5(1)
    by (simp add: open_picture_def picture_version_def)
  moreover have "mget (av_files m5) (picture_temp m5 k2) = None"
    using write_by_number [OF assms(9)] no4 same5 by simp
  then have "snd (picture_move io2 k2 m5) = Inl AvatarIO" by (simp add: picture_move_def)
  ultimately show ?thesis using gh(2) k2(2) by auto
qed

theorem overlapping_uploads_publish_half_a_picture_witness:
  "\<exists>m4 f v. open_picture m4 (runes ''ab'') = Inr (f, v) \<and> pc_rows f = None"
proof -
  let ?j = "\<lparr>pj_client = ''ab'', pj_rows = [], pj_file = 0\<rparr>"
  have free: "\<not> pi_create_fails (good_io t)" "\<not> pi_encode_fails (good_io t)" "\<not> pi_rename_fails (good_io t)" for t
    by (simp_all add: good_io_def)
  obtain m1 k1 where o1: "picture_open (good_io 1) ?j gallery = (m1, Inr k1)"
    using open_succeeds [OF free(1)] by blast
  obtain m2 where w1: "picture_write (good_io 1) k1 m1 = (m2, None)" using write_succeeds [OF free(2)] by blast
  obtain m3 k2 where o2: "picture_open (good_io 2) ?j m2 = (m3, Inr k2)" using open_succeeds [OF free(1)] by blast
  note e1 = open_effect [OF gallery_ok o1] and d1 = write_dirs [OF w1]
  obtain f1 where f1: "mget (av_files m1) (picture_temp m1 k1) = Some f1" "pc_file f1 = pj_file k1"
    using temp_opened [OF gallery_ok o1] by blast
  note e2 = open_effect [OF write_effect(1) [OF e1(1) w1 f1] o2]
  obtain f2 where "mget (av_files m3) (picture_temp m3 k2) = Some f2"
    using temp_opened [OF write_effect(1) [OF e1(1) w1 f1] o2] by blast
  then have "mget (av_files m3) (picture_temp m3 k1) = Some f2"
    using e1(4) e2(4) by (simp add: picture_temp_def)
  then obtain m4 where mv: "picture_move (good_io 1) k1 m3 = (m4, Inr (pj_client k1, picture_tag (pi_stamped_at (good_io 1))))"
    using move_succeeds [OF _ free(3)] by blast
  obtain m5 where w2: "picture_write (good_io 2) k2 m4 = (m5, None)" using write_succeeds [OF free(2)] by blast
  have "valid_uuid (runes ''ab'')" by (simp add: valid_uuid_def runes_def)
  with mv e1(4) show ?thesis
    using overlapping_uploads_publish_half_a_picture [OF gallery_ok _ _ _ o1 w1 o2 _ w2, of "''ab''"] by auto
qed

end
