(* ===== verification/Bots_Gateway.thy ===== *)
theory Bots_Gateway
  imports Bot_Playlists
begin

text \<open>
  The requests about bots, \<open>internal/gateway/bots.go\<close>, the track upload of \<open>internal/httpapi/bots.go\<close>, and
  the bots' part in the rest of the gateway: the bots a client is told of at the handshake, and what the
  deletion of a room does to the bots in it. A handler here works on the \<open>site\<close>; one that panics is stopped
  by the \<open>recover\<close> of \<open>dispatch\<close>, which answers without a request id.
\<close>

section \<open>Replies\<close>

definition on_srv :: "(server \<Rightarrow> server) \<Rightarrow> site \<Rightarrow> site" where
  "on_srv f w = w\<lparr>srv := f (srv w)\<rparr>"

definition site_require :: "sref \<Rightarrow> string \<Rightarrow> perm \<Rightarrow> (site \<Rightarrow> site) \<Rightarrow> site \<Rightarrow> site" where
  "site_require r i perm k w =
     (if can (acc (srv w)) (s_uuid (heap (srv w) r)) perm then k w else on_srv (send_error r i forbidden) w)"

definition site_decoded :: "sref \<Rightarrow> string \<Rightarrow> 'p option \<Rightarrow> ('p \<Rightarrow> site \<Rightarrow> site) \<Rightarrow> site \<Rightarrow> site" where
  "site_decoded r i p k w =
     (case p of None \<Rightarrow> on_srv (send_error r i bad_request) w | Some x \<Rightarrow> k x w)"

fun bots_code :: "bots_error \<Rightarrow> string" where
  "bots_code BotsNotFound = ''bot_not_found''"
| "bots_code BotsDisabled = ''bot_disabled''"
| "bots_code BotsEmptyQueue = ''bot_queue_empty''"
| "bots_code BotsBadAction = ''bot_bad_action''"
| "bots_code BotsPlaylistNotFound = ''playlist_not_found''"
| "bots_code BotsPlaylistTaken = ''playlist_name_taken''"
| "bots_code BotsTooManyPlaylists = ''playlist_limit_reached''"
| "bots_code BotsNotOpus = ''track_not_audio''"
| "bots_code BotsTrackNotFound = ''track_not_found''"
| "bots_code BotsTooLarge = ''file_too_large''"
| "bots_code BotsQuotaFull = ''room_quota_exceeded''"
| "bots_code BotsNameTaken = ''bot_name_taken''"
| "bots_code BotsTooMany = ''bot_limit_reached''"
| "bots_code BotsNoRoom = ''room_not_found''"
| "bots_code BotsNoMedia = ''media_disabled''"
| "bots_code BotsInvalid = invalid_input"
| "bots_code BotsBadTicket = internal_error"
| "bots_code BotsEmptyUpload = internal_error"
| "bots_code BotsStore = internal_error"
| "bots_code BotsIO = internal_error"
| "bots_code BotsLiveKit = internal_error"
| "bots_code BotsPanic = internal_error"
| "bots_code BotsHangs = []"

text \<open>A call that does not return never answers.\<close>

definition reply_bot_error :: "sref \<Rightarrow> string \<Rightarrow> bots_error \<Rightarrow> site \<Rightarrow> site" where
  "reply_bot_error r i err w =
     (if err = BotsHangs then w
      else on_srv (send_error r (if err = BotsPanic then [] else i) (bots_code err)) w)"

definition bot_reply :: "sref \<Rightarrow> string \<Rightarrow> ('a \<Rightarrow> site \<Rightarrow> site) \<Rightarrow> site \<times> (bots_error + 'a) \<Rightarrow> site" where
  "bot_reply r i k res =
     (case res of (w, Inl err) \<Rightarrow> reply_bot_error r i err w | (w, Inr x) \<Rightarrow> k x w)"

definition reply_state :: "sref \<Rightarrow> string \<Rightarrow> bot_view \<Rightarrow> site \<Rightarrow> site" where
  "reply_state r i v = on_srv (send_message r ''bot.state'' i (PBot v))"

definition log_bot :: "bot_call \<Rightarrow> sref \<Rightarrow> string \<Rightarrow> ustring \<Rightarrow> ustring \<Rightarrow> site \<Rightarrow> site" where
  "log_bot c r action name detail = on_srv (log_action (cx_env (bx c)) r action [] name detail)"

definition actor_of :: "sref \<Rightarrow> site \<Rightarrow> uuid" where
  "actor_of r w = s_uuid (heap (srv w) r)"

definition track_title :: "bot_view \<Rightarrow> ustring" where
  "track_title v = (case bv_track v of None \<Rightarrow> [] | Some t \<Rightarrow> bt_title t)"

section \<open>Driving a bot\<close>

definition handle_bot_list :: "bot_call \<Rightarrow> sref \<Rightarrow> string \<Rightarrow> site \<Rightarrow> site" where
  "handle_bot_list c r i w =
     on_srv (send_message r ''bot.list'' i (PBots (bot_views (cx_lower (bx c)) w))) w"

definition handle_bot_control :: "bot_call \<Rightarrow> sref \<Rightarrow> string \<Rightarrow> bot_control option \<Rightarrow> site \<Rightarrow> site" where
  "handle_bot_control c r i p =
     site_require r i perm_control_bots (site_decoded r i p (\<lambda>q w.
       bot_reply r i (\<lambda>v w1. reply_state r i v (log_bot c r (''bot_'' @ bc_action q) (bv_name v) (track_title v) w1))
         (control c (actor_of r w) q w)))"

definition handle_bot_move :: "bot_call \<Rightarrow> sref \<Rightarrow> string \<Rightarrow> (string \<times> string) option \<Rightarrow> site \<Rightarrow> site" where
  "handle_bot_move c r i p =
     site_require r i perm_control_bots (site_decoded r i p (\<lambda>(b, room) w.
       bot_reply r i (\<lambda>v w1. reply_state r i v (log_bot c r ''bot_move'' (bv_name v) (runes room) w1))
         (move_bot c (actor_of r w) b room w)))"

section \<open>Defining bots\<close>

definition handle_bot_create :: "bot_call \<Rightarrow> sref \<Rightarrow> string \<Rightarrow> bot_spec option \<Rightarrow> site \<Rightarrow> site" where
  "handle_bot_create c r i p =
     site_require r i perm_manage_bots (site_decoded r i p (\<lambda>q w.
       bot_reply r i (\<lambda>v w1. reply_state r i v (log_bot c r ''bot_create'' (bv_name v) [] w1))
         (create_bot c (actor_of r w) q w)))"

definition handle_bot_update :: "bot_call \<Rightarrow> sref \<Rightarrow> string \<Rightarrow> bot_spec option \<Rightarrow> site \<Rightarrow> site" where
  "handle_bot_update c r i p =
     site_require r i perm_manage_bots (site_decoded r i p (\<lambda>q w.
       bot_reply r i (\<lambda>v w1. reply_state r i v (log_bot c r ''bot_update'' (bv_name v) [] w1))
         (update_bot c (actor_of r w) q w)))"

definition handle_bot_delete :: "bot_call \<Rightarrow> sref \<Rightarrow> string \<Rightarrow> string option \<Rightarrow> site \<Rightarrow> site" where
  "handle_bot_delete c r i p =
     site_require r i perm_manage_bots (site_decoded r i p (\<lambda>b w.
       case delete_bot c b w of
         (w1, Some err) \<Rightarrow> reply_bot_error r i err w1
       | (w1, None) \<Rightarrow>
           on_srv (send_message r ''bot.removed'' i (PBotRef b))
             (on_srv (broadcast ''bot.removed'' (PBotRef b) (actor_of r w))
               (log_bot c r ''bot_delete'' (runes b) [] w1))))"

section \<open>Queues and playlists\<close>

text \<open>A bot's own queue is for everybody; a playlist's tracks are for those who manage bots.\<close>

definition handle_bot_queue :: "bot_call \<Rightarrow> sref \<Rightarrow> string \<Rightarrow> (string \<times> string) option \<Rightarrow> site \<Rightarrow> site" where
  "handle_bot_queue c r i p =
     site_decoded r i p (\<lambda>(b, pl) w.
       let answer = bot_reply r i (\<lambda>ts. on_srv (send_message r ''bot.queue'' i (PBotQueue b ts))) in
       if pl \<noteq> [] then
         site_require r i perm_manage_bots (\<lambda>w. answer (w, playlist_queue c b pl w)) w
       else answer (w, queue_of w b))"

definition handle_bot_playlist_list :: "bot_call \<Rightarrow> sref \<Rightarrow> string \<Rightarrow> string option \<Rightarrow> site \<Rightarrow> site" where
  "handle_bot_playlist_list c r i p =
     site_require r i perm_manage_bots (site_decoded r i p (\<lambda>b w.
       bot_reply r i (\<lambda>(ps, active). on_srv (send_message r ''bot.playlist.list'' i (PBotPlaylists b ps active)))
         (w, bot_playlists c b w)))"

text \<open>\<open>decodePlaylistSpec\<close>: the permission and the payload that every playlist request shares.\<close>

definition with_playlist_spec ::
  "sref \<Rightarrow> string \<Rightarrow> bot_playlist_spec option \<Rightarrow> (bot_playlist_spec \<Rightarrow> site \<Rightarrow> site) \<Rightarrow> site \<Rightarrow> site" where
  "with_playlist_spec r i p k = site_require r i perm_manage_bots (site_decoded r i p k)"

definition handle_bot_playlist_create :: "bot_call \<Rightarrow> sref \<Rightarrow> string \<Rightarrow> bot_playlist_spec option \<Rightarrow> site \<Rightarrow> site" where
  "handle_bot_playlist_create c r i p =
     with_playlist_spec r i p (\<lambda>q w.
       bot_reply r i (\<lambda>x. on_srv (send_message r ''bot.playlist'' i (PBotPlaylist x))) (create_playlist c q w))"

definition handle_bot_playlist_rename :: "bot_call \<Rightarrow> sref \<Rightarrow> string \<Rightarrow> bot_playlist_spec option \<Rightarrow> site \<Rightarrow> site" where
  "handle_bot_playlist_rename c r i p =
     with_playlist_spec r i p (\<lambda>q w.
       bot_reply r i (\<lambda>x. on_srv (send_message r ''bot.playlist'' i (PBotPlaylist x))) (rename_playlist c q w))"

definition handle_bot_playlist_delete :: "bot_call \<Rightarrow> sref \<Rightarrow> string \<Rightarrow> bot_playlist_spec option \<Rightarrow> site \<Rightarrow> site" where
  "handle_bot_playlist_delete c r i p =
     with_playlist_spec r i p (\<lambda>q w.
       case delete_playlist c (actor_of r w) q w of
         (w1, Some err) \<Rightarrow> reply_bot_error r i err w1
       | (w1, None) \<Rightarrow> on_srv (send_message r ''bot.playlist.deleted'' i (PBotPlaylistGone q)) w1)"

definition handle_bot_playlist_select :: "bot_call \<Rightarrow> sref \<Rightarrow> string \<Rightarrow> bot_playlist_spec option \<Rightarrow> site \<Rightarrow> site" where
  "handle_bot_playlist_select c r i p =
     with_playlist_spec r i p (\<lambda>q w.
       bot_reply r i (\<lambda>v w1. reply_state r i v (log_bot c r ''bot_playlist'' (bv_name v) (bv_playlist_name v) w1))
         (select_playlist c (actor_of r w) q w))"

section \<open>Tracks\<close>

definition handle_bot_track_upload :: "bot_call \<Rightarrow> sref \<Rightarrow> string \<Rightarrow> bot_track_upload option \<Rightarrow> site \<Rightarrow> site" where
  "handle_bot_track_upload c r i p =
     site_require r i perm_manage_bots (site_decoded r i p (\<lambda>q w.
       bot_reply r i (\<lambda>t. on_srv (send_message r ''bot.track.upload_ticket'' i
           (PTrackTicket (cx_token (bx c)) (unix (tt_expires t)) (tt_max t))))
         (request_track_upload c (actor_of r w) q w)))"

definition handle_bot_track_delete :: "bot_call \<Rightarrow> sref \<Rightarrow> string \<Rightarrow> bot_track_ref option \<Rightarrow> site \<Rightarrow> site" where
  "handle_bot_track_delete c r i p =
     site_require r i perm_manage_bots (site_decoded r i p (\<lambda>q w.
       bot_reply r i (reply_state r i) (delete_track c (actor_of r w) q w)))"

datatype bot_request =
    BqList | BqControl "bot_control option" | BqMove "(string \<times> string) option"
  | BqCreate "bot_spec option" | BqUpdate "bot_spec option" | BqDelete "string option"
  | BqQueue "(string \<times> string) option" | BqPlaylists "string option"
  | BqListCreate "bot_playlist_spec option" | BqListRename "bot_playlist_spec option"
  | BqListDelete "bot_playlist_spec option" | BqListSelect "bot_playlist_spec option"
  | BqTrackUpload "bot_track_upload option" | BqTrackDelete "bot_track_ref option"

fun dispatch_bot :: "bot_call \<Rightarrow> sref \<Rightarrow> string \<Rightarrow> bot_request \<Rightarrow> site \<Rightarrow> site" where
  "dispatch_bot c r i BqList w = handle_bot_list c r i w"
| "dispatch_bot c r i (BqControl p) w = handle_bot_control c r i p w"
| "dispatch_bot c r i (BqMove p) w = handle_bot_move c r i p w"
| "dispatch_bot c r i (BqCreate p) w = handle_bot_create c r i p w"
| "dispatch_bot c r i (BqUpdate p) w = handle_bot_update c r i p w"
| "dispatch_bot c r i (BqDelete p) w = handle_bot_delete c r i p w"
| "dispatch_bot c r i (BqQueue p) w = handle_bot_queue c r i p w"
| "dispatch_bot c r i (BqPlaylists p) w = handle_bot_playlist_list c r i p w"
| "dispatch_bot c r i (BqListCreate p) w = handle_bot_playlist_create c r i p w"
| "dispatch_bot c r i (BqListRename p) w = handle_bot_playlist_rename c r i p w"
| "dispatch_bot c r i (BqListDelete p) w = handle_bot_playlist_delete c r i p w"
| "dispatch_bot c r i (BqListSelect p) w = handle_bot_playlist_select c r i p w"
| "dispatch_bot c r i (BqTrackUpload p) w = handle_bot_track_upload c r i p w"
| "dispatch_bot c r i (BqTrackDelete p) w = handle_bot_track_delete c r i p w"

section \<open>Tracks over HTTP\<close>

fun track_upload_error :: "bots_error \<Rightarrow> nat \<times> string" where
  "track_upload_error BotsBadTicket = (403, forbidden)"
| "track_upload_error BotsTooLarge = (413, ''file_too_large'')"
| "track_upload_error BotsQuotaFull = (507, ''room_quota_exceeded'')"
| "track_upload_error BotsEmptyUpload = (400, ''file_invalid'')"
| "track_upload_error BotsNotFound = (404, ''playlist_not_found'')"
| "track_upload_error BotsPlaylistNotFound = (404, ''playlist_not_found'')"
| "track_upload_error BotsNotOpus = (400, ''track_not_audio'')"
| "track_upload_error _ = (500, internal_error)"

text \<open>\<open>MaxBytesReader\<close>: reading past \<open>n\<close> bytes fails. The ticket's own limit may stop the reading first.\<close>

definition cut_body :: "int \<Rightarrow> int \<Rightarrow> upload_io \<Rightarrow> upload_io" where
  "cut_body n limit io =
     (if int (up_size io) > n \<and> limit + 1 > n then io\<lparr>up_size := nat n, up_fails := True\<rparr> else io)"

definition http_bot_track_upload ::
  "bot_call \<Rightarrow> string \<Rightarrow> upload_io \<Rightarrow> site \<Rightarrow> site \<times> (nat \<times> string + bot_view)" where
  "http_bot_track_upload c token io w =
     (if token = [] then (w, Inl (401, bad_request))
      else
        (let limit = (case mget (uploads w) token of None \<Rightarrow> 0 | Some t \<Rightarrow> tt_max t) in
         case upload_track c token (cut_body (max_track_size w + 2 ^ 20) limit io) w of
           (w1, Inl err) \<Rightarrow> (w1, Inl (track_upload_error err))
         | (w1, Inr v) \<Rightarrow> (w1, Inr v)))"

section \<open>The bots in the rest of the gateway\<close>

definition site_handshake ::
  "bot_call \<Rightarrow> string \<Rightarrow> string \<Rightarrow> ustring \<Rightarrow> string \<Rightarrow> first_frame \<Rightarrow> site \<Rightarrow> site \<times> (string + sref)" where
  "site_handshake c server_uuid avatar remote i fr w =
     (case handshake (bx c) server_uuid (bot_views (cx_lower (bx c)) w) avatar remote i fr (srv w) of
        (s, res) \<Rightarrow> (w\<lparr>srv := s\<rparr>, res))"

text \<open>The callbacks of \<open>OnDelete\<close>, the bots' being the last of them.\<close>

definition site_on_delete :: "bot_call \<Rightarrow> string \<Rightarrow> site \<Rightarrow> site" where
  "site_on_delete c i w = room_gone c i (on_srv (on_delete i) w)"

definition site_delete_room :: "bot_call \<Rightarrow> uuid \<Rightarrow> string \<Rightarrow> site \<Rightarrow> site \<times> rooms_error option" where
  "site_delete_room c actor i w =
     (case get_room (srv w) i of
        None \<Rightarrow> (w, Some RoomsNotFound)
      | Some room \<Rightarrow>
          (case db_delete_room (cx_env (bx c)) i (db_of (srv w)) of
             Inl RoomNotFound \<Rightarrow> (w, Some RoomsNotFound)
           | Inl _ \<Rightarrow> (w, Some RoomsStore)
           | Inr d \<Rightarrow>
               (let w1 = on_srv (\<lambda>s. let s0 = set_db d s in s0\<lparr>rooms := mdel i (rooms s0)\<rparr>) w;
                    w2 = site_on_delete c i w1 in
                (on_srv (\<lambda>s. broadcast ''room.deleted'' (PRoomRef i) actor
                   (clear_content i room (fold (eject i False) (rm_members room) s))) w2, None))))"

definition site_room_delete :: "bot_call \<Rightarrow> sref \<Rightarrow> string \<Rightarrow> string option \<Rightarrow> site \<Rightarrow> site" where
  "site_room_delete c r i p =
     site_require r i perm_manage_rooms (site_decoded r i p (\<lambda>j w.
       case site_delete_room c (actor_of r w) j w of
         (w1, Some err) \<Rightarrow> on_srv (send_error r i (room_code err)) w1
       | (w1, None) \<Rightarrow> on_srv (send_message r ''room.deleted'' i (PRoomRef j)) w1))"

definition site_drop_removed :: "bot_call \<Rightarrow> string \<times> room \<Rightarrow> site \<Rightarrow> site" where
  "site_drop_removed c ir w =
     on_srv (broadcast ''room.deleted'' (PRoomRef (fst ir)) [])
       (site_on_delete c (fst ir) (on_srv (evict (fst ir) (snd ir)) w))"

definition site_reload_rooms :: "bot_call \<Rightarrow> site \<Rightarrow> site \<times> (rooms_error + nat)" where
  "site_reload_rooms c w =
     (case db_list_rooms (cx_env (bx c)) (db_of (srv w)) of
        Inl _ \<Rightarrow> (w, Inl RoomsStore)
      | Inr ds \<Rightarrow>
          (let (rs, created, updated) = merge_defs ds (rooms (srv w));
               seen = (\<lambda>ir. fst ir \<in> set (map rd_id ds));
               w1 = on_srv (\<lambda>s. s\<lparr>rooms := filter seen rs\<rparr>) w;
               w2 = on_srv (fold (announce_room (cx_lower (bx c)) ''room.created'') created) w1;
               w3 = on_srv (fold (announce_room (cx_lower (bx c)) ''room.updated'') updated) w2;
               w4 = fold (site_drop_removed c) (filter (\<lambda>ir. \<not> seen ir) rs) w3 in
           (w4, Inr (length ds))))"

datatype site_request = BotRequest bot_request | ServerRequest request

definition site_dispatch :: "bot_call \<Rightarrow> sref \<Rightarrow> string \<Rightarrow> site_request \<Rightarrow> site \<Rightarrow> site" where
  "site_dispatch c r i q w =
     (case q of
        BotRequest x \<Rightarrow> dispatch_bot c r i x w
      | ServerRequest (RqRoomDelete p) \<Rightarrow> site_room_delete c r i p w
      | ServerRequest x \<Rightarrow> on_srv (dispatch (bx c) r i x) w)"

definition site_read_frame :: "bot_call \<Rightarrow> sref \<Rightarrow> string \<Rightarrow> site_request \<Rightarrow> site \<Rightarrow> site" where
  "site_read_frame c r i q w = (if s_closed (heap (srv w) r) then w else site_dispatch c r i q w)"

end
