(* ===== verification/Control.thy ===== *)
theory Control
  imports Bots_Gateway
begin

text \<open>
  The control channel: \<open>internal/control/control.go\<close>, \<open>server.go\<close> and \<open>client.go\<close>, and what the server does for
  it, \<open>internal/app/control.go\<close>. The panel sends one command on a connection of its own, with the token of
  the file beside the database; \<open>serve_control\<close> is the whole of one connection. The arguments are what their
  JSON decodes to as each of the three kinds. Nothing the commands do to the rest of the server is stubbed:
  a reload is the reloads of settings, roles, rooms and bots one after the other.
\<close>

section \<open>Messages\<close>

record process =
  pr_version :: string
  pr_pid :: int
  pr_started :: int
  pr_goroutines :: nat
  pr_heap :: nat

record control_status =
  cs_version :: string
  cs_pid :: int
  cs_started_at :: int
  cs_uptime :: int
  cs_listen_addr :: ustring
  cs_server_name :: ustring
  cs_online :: nat
  cs_rooms :: nat
  cs_bots :: nat
  cs_playing :: nat
  cs_media_ok :: bool
  cs_goroutines :: nat
  cs_heap_mb :: nat

record online_user =
  ou_uuid :: uuid
  ou_username :: ustring
  ou_room_id :: string
  ou_room_name :: ustring
  ou_roles :: ustring
  ou_muted :: bool
  ou_remote :: ustring
  ou_online :: int

record kick_args =
  ka_client :: ustring
  ka_reason :: ustring

record reload_result =
  rr_settings :: nat
  rr_rooms :: nat
  rr_roles :: nat
  rr_bots :: nat

record raw_args =
  ra_empty :: bool
  ra_kick :: "kick_args option"
  ra_notice :: "ustring option"
  ra_stop :: "ustring option"

record control_request =
  cr_token :: string
  cr_command :: string
  cr_args :: raw_args

datatype control_error =
    CtlMalformed | CtlUnauthorized | CtlUnknown string | CtlNoArgs | CtlBadArgs
  | CtlSettings config_error | CtlRoles access_error | CtlRooms rooms_error | CtlBots bots_error
  | CtlNotOnline | CtlNoText

datatype control_data =
    CtlDone | CtlStatus control_status | CtlOnline "online_user list" | CtlReloaded reload_result

section \<open>What the server answers\<close>

text \<open>The monotonic clock never runs backwards, so rounding towards zero is \<open>div\<close>.\<close>

definition seconds_since :: "int \<Rightarrow> int \<Rightarrow> int" where
  "seconds_since now t = (now - t) div 1000000000"

definition playing :: "bot_view list \<Rightarrow> bot_view list" where
  "playing = filter (\<lambda>v. bv_state v = BotPlaying)"

definition ctl_status :: "process \<Rightarrow> bot_call \<Rightarrow> site \<Rightarrow> control_status" where
  "ctl_status pr c w =
     (let views = bot_views (cx_lower (bx c)) w; g = cfg (srv w) in
      \<lparr>cs_version = pr_version pr, cs_pid = pr_pid pr, cs_started_at = unix (pr_started pr),
       cs_uptime = seconds_since (clock (cx_env (bx c))) (pr_started pr),
       cs_listen_addr = cfg_string g KeyListenAddr, cs_server_name = cfg_string g KeyServerName,
       cs_online = length (live (srv w)), cs_rooms = length (rooms (srv w)), cs_bots = length views,
       cs_playing = length (playing views), cs_media_ok = media_enabled g,
       cs_goroutines = pr_goroutines pr, cs_heap_mb = pr_heap pr div 2 ^ 20\<rparr>)"

definition online_user :: "bot_call \<Rightarrow> server \<Rightarrow> sref \<Rightarrow> online_user" where
  "online_user c w r =
     (let s = heap w r; e = cx_env (bx c) in
      \<lparr>ou_uuid = s_uuid s, ou_username = s_username s, ou_room_id = s_room s,
       ou_room_name = (case get_room w (s_room s) of None \<Rightarrow> [] | Some x \<Rightarrow> rd_name (rm_def x)),
       ou_roles = join (runes '', '') (map role_name (user_roles (cx_lower (bx c)) (acc w) (s_uuid s))),
       ou_muted = s_muted s, ou_remote = s_remote s, ou_online = seconds_since (clock e) (s_joined s)\<rparr>)"

definition ctl_online :: "bot_call \<Rightarrow> site \<Rightarrow> online_user list" where
  "ctl_online c w = map (online_user c (srv w)) (vals (live (srv w)))"

definition ctl_reload :: "bot_call \<Rightarrow> (ustring \<Rightarrow> bool) \<Rightarrow> site \<Rightarrow> site \<times> (control_error + reload_result)" where
  "ctl_reload c vp w =
     (case reload_config (cx_env (bx c)) vp (db_of (srv w)) (cfg (srv w)) of
        (_, Inl err) \<Rightarrow> (w, Inl (CtlSettings err))
      | (g, Inr settings) \<Rightarrow>
          (let w1 = on_srv (\<lambda>s. s\<lparr>cfg := g\<rparr>) w in
           case Reload (cx_env (bx c)) (acc (srv w1)) of
             (m, Inl err) \<Rightarrow> (on_srv (set_acc m) w1, Inl (CtlRoles err))
           | (m, Inr nroles) \<Rightarrow>
               (case site_reload_rooms c (on_srv (set_acc m) w1) of
                  (w2, Inl err) \<Rightarrow> (w2, Inl (CtlRooms err))
                | (w2, Inr nrooms) \<Rightarrow>
                    (case reload_bots c w2 of
                       (w3, Some err) \<Rightarrow> (w3, Inl (CtlBots err))
                     | (w3, None) \<Rightarrow>
                         (on_srv (refresh_roles (bx c)) w3,
                          Inr \<lparr>rr_settings = settings, rr_rooms = nrooms, rr_roles = nroles,
                               rr_bots = length (bot_views (cx_lower (bx c)) w3)\<rparr>)))))"

definition panel_entry :: "string \<Rightarrow> uuid \<Rightarrow> ustring \<Rightarrow> ustring \<Rightarrow> mod_entry" where
  "panel_entry action target name detail =
     \<lparr>me_at = 0, me_actor_uuid = [], me_actor_name = runes ''panel'', me_action = action,
      me_target_uuid = target, me_target_name = name, me_detail = detail\<rparr>"

definition ctl_log :: "bot_call \<Rightarrow> mod_entry \<Rightarrow> server \<Rightarrow> server" where
  "ctl_log c entry w = set_acc (log_mod (cx_env (bx c)) entry (acc w)) w"

definition admin_panel :: ustring where "admin_panel = runes ''Admin panel''"

text \<open>The session of the client whose id is the given text.\<close>

definition session_named :: "server \<Rightarrow> ustring \<Rightarrow> sref option" where
  "session_named w u = mget (map (\<lambda>(i, r). (runes i, r)) (live w)) u"

definition ctl_kick :: "bot_call \<Rightarrow> kick_args \<Rightarrow> site \<Rightarrow> site \<times> control_error option" where
  "ctl_kick c a w =
     (case session_named (srv w) (trim_space (ka_client a)) of
        None \<Rightarrow> (w, Some CtlNotOnline)
      | Some r \<Rightarrow>
          (on_srv (\<lambda>s.
             let u = s_uuid (heap s r);
                 ev = PModeration \<lparr>mo_uuid = u, mo_username = s_username (heap s r), mo_by_uuid = [],
                        mo_by_username = admin_panel, mo_reason = ka_reason a, mo_expires_at = 0\<rparr>;
                 s1 = send_message r ''user.kicked'' [] ev s;
                 s2 = close_session r ReasonKicked (broadcast ''user.kicked'' ev u s1) in
             ctl_log c (panel_entry ''kick'' u (s_username (heap s2 r)) (ka_reason a)) s2) w, None))"

definition ctl_notice :: "bot_call \<Rightarrow> ustring \<Rightarrow> site \<Rightarrow> site \<times> control_error option" where
  "ctl_notice c txt w =
     (let t = trim_space txt in
      if t = [] then (w, Some CtlNoText)
      else (on_srv (\<lambda>s. ctl_log c (panel_entry ''notice'' [] [] t)
              (broadcast ''server.notice'' (PNotice t admin_panel) [] s)) w, None))"

definition stop_request :: "string \<Rightarrow> bot_control" where
  "stop_request i = \<lparr>bc_bot = i, bc_action = ''stop'', bc_track = 0\<rparr>"

fun stop_each :: "bot_call \<Rightarrow> string list \<Rightarrow> site \<Rightarrow> site \<times> control_error option" where
  "stop_each c [] w = (w, None)"
| "stop_each c (i # rest) w =
     (case control c [] (stop_request i) w of
        (w1, Inl err) \<Rightarrow> (w1, Some (CtlBots err))
      | (w1, Inr _) \<Rightarrow> stop_each c rest w1)"

text \<open>The id of a bot is text on the wire as well.\<close>

definition bot_named :: "site \<Rightarrow> ustring \<Rightarrow> string option" where
  "bot_named w u = find (\<lambda>i. runes i = u) (keys (bots w))"

definition ctl_stop_bots :: "bot_call \<Rightarrow> ustring \<Rightarrow> site \<Rightarrow> site \<times> control_error option" where
  "ctl_stop_bots c txt w =
     (let u = trim_space txt in
      if u = [] then stop_each c (map bv_id (playing (bot_views (cx_lower (bx c)) w))) w
      else
        (case bot_named w u of
           None \<Rightarrow> (w, Some (CtlBots BotsNotFound))
         | Some i \<Rightarrow> stop_each c [i] w))"

section \<open>One connection\<close>

definition decode_args :: "(raw_args \<Rightarrow> 'a option) \<Rightarrow> raw_args \<Rightarrow> control_error + 'a" where
  "decode_args f a =
     (if ra_empty a then Inl CtlNoArgs else (case f a of None \<Rightarrow> Inl CtlBadArgs | Some x \<Rightarrow> Inr x))"

definition with_args ::
  "(raw_args \<Rightarrow> 'a option) \<Rightarrow> raw_args \<Rightarrow> ('a \<Rightarrow> site \<Rightarrow> site \<times> control_error option) \<Rightarrow> site
     \<Rightarrow> site \<times> (control_error + control_data)" where
  "with_args f a k w =
     (case decode_args f a of
        Inl err \<Rightarrow> (w, Inl err)
      | Inr x \<Rightarrow> (case k x w of (w1, Some err) \<Rightarrow> (w1, Inl err) | (w1, None) \<Rightarrow> (w1, Inr CtlDone)))"

definition dispatch_control ::
  "process \<Rightarrow> bot_call \<Rightarrow> (ustring \<Rightarrow> bool) \<Rightarrow> control_request \<Rightarrow> site \<Rightarrow> site \<times> (control_error + control_data)" where
  "dispatch_control pr c vp q w =
     (if cr_command q = ''status'' then (w, Inr (CtlStatus (ctl_status pr c w)))
      else if cr_command q = ''online'' then (w, Inr (CtlOnline (ctl_online c w)))
      else if cr_command q = ''reload'' then
        (case ctl_reload c vp w of (w1, Inl err) \<Rightarrow> (w1, Inl err) | (w1, Inr res) \<Rightarrow> (w1, Inr (CtlReloaded res)))
      else if cr_command q = ''kick'' then with_args ra_kick (cr_args q) (ctl_kick c) w
      else if cr_command q = ''notice'' then with_args ra_notice (cr_args q) (ctl_notice c) w
      else if cr_command q = ''bot.stop'' then with_args ra_stop (cr_args q) (ctl_stop_bots c) w
      else (w, Inl (CtlUnknown (cr_command q))))"

text \<open>\<open>secret\<close> is the token the listener made up when it started; a request that is no JSON is \<open>None\<close>.\<close>

definition serve_control ::
  "string \<Rightarrow> process \<Rightarrow> bot_call \<Rightarrow> (ustring \<Rightarrow> bool) \<Rightarrow> control_request option \<Rightarrow> site
     \<Rightarrow> site \<times> (control_error + control_data)" where
  "serve_control secret pr c vp p w =
     (case p of
        None \<Rightarrow> (w, Inl CtlMalformed)
      | Some q \<Rightarrow> if cr_token q \<noteq> secret then (w, Inl CtlUnauthorized) else dispatch_control pr c vp q w)"

section \<open>The panel's side\<close>

record endpoint =
  ep_addr :: string
  ep_token :: string
  ep_pid :: int

datatype client_error =
    NotRunning | EndpointBroken | EndpointIncomplete | SendFailed | ReplyLost | Refused control_error

definition endpoint_path :: "ustring \<Rightarrow> ustring" where
  "endpoint_path db = path_join (path_dir db) (runes ''control.json'')"

text \<open>The endpoint file: absent, not JSON, or an endpoint.\<close>

datatype endpoint_file = NoFile | Unreadable | Endpoint endpoint

definition read_endpoint :: "endpoint_file \<Rightarrow> client_error + endpoint" where
  "read_endpoint f =
     (case f of
        NoFile \<Rightarrow> Inl NotRunning
      | Unreadable \<Rightarrow> Inl EndpointBroken
      | Endpoint e \<Rightarrow> if ep_addr e = [] \<or> ep_token e = [] then Inl EndpointIncomplete else Inr e)"

text \<open>\<open>listening\<close> says what, if anything, answers at an address: a control listener with its secret.\<close>

definition call_control ::
  "(string \<Rightarrow> string option) \<Rightarrow> endpoint_file \<Rightarrow> process \<Rightarrow> bot_call \<Rightarrow> (ustring \<Rightarrow> bool) \<Rightarrow> string \<Rightarrow> raw_args \<Rightarrow> site
     \<Rightarrow> site \<times> (client_error + control_data)" where
  "call_control listening f pr c vp command args w =
     (case read_endpoint f of
        Inl err \<Rightarrow> (w, Inl err)
      | Inr e \<Rightarrow>
          (case listening (ep_addr e) of
             None \<Rightarrow> (w, Inl NotRunning)
           | Some secret \<Rightarrow>
               (case serve_control secret pr c vp
                       (Some \<lparr>cr_token = ep_token e, cr_command = command, cr_args = args\<rparr>) w of
                  (w1, Inl err) \<Rightarrow> (w1, Inl (Refused err))
                | (w1, Inr d) \<Rightarrow> (w1, Inr d))))"

definition control_running :: "(string \<Rightarrow> string option) \<Rightarrow> endpoint_file \<Rightarrow> int option" where
  "control_running listening f =
     (case read_endpoint f of
        Inl _ \<Rightarrow> None
      | Inr e \<Rightarrow> (case listening (ep_addr e) of None \<Rightarrow> None | Some _ \<Rightarrow> Some (ep_pid e)))"

end
