(* ===== verification/Bots_Playback.thy ===== *)
theory Bots_Playback
  imports Bots_Demo
begin

text \<open>
  What a bot plays: the position in the queue, the order of the queue, what playing does, which callbacks
  count, and how a bot leaves a room that is gone.
\<close>

section \<open>The position\<close>

lemma play_begin_job: "play_begin c i s mv w = (w1, Inr j) \<Longrightarrow> pj_bot j = i \<and> mget (bots w1) i \<noteq> None"
  by (auto simp: play_begin_def split: if_splits option.splits)

lemma play_end_no_panic: "mget (bots w) (pj_bot j) \<noteq> None \<Longrightarrow> snd (play_end c a j w) \<noteq> Inl BotsPanic"
proof -
  assume held: "mget (bots w) (pj_bot j) \<noteq> None"
  obtain w1 r1 where j: "audio_join c (pj_bot j) (pj_room j) (pj_name j) w = (w1, r1)" by force
  obtain w2 r2 where p: "audio_play c (pj_bot j) (pj_path j) w1 = (w2, r2)" by force
  have "r1 \<noteq> Some BotsPanic"
    using j by (auto simp: audio_join_def Let_def split: if_splits sum.splits)
  moreover have "r2 \<noteq> Some BotsPanic"
    using p by (auto simp: audio_play_def Let_def split: if_splits option.splits)
  moreover have "bots w2 = bots w"
    using j p by (metis audio_join_frame(1) audio_play_frame(1) fst_conv)
  ultimately show ?thesis using held
    by (auto simp: play_end_def j p Let_def held_bot_def split: option.split)
qed

lemma play_no_panic: "bots_ok w \<Longrightarrow> snd (play c a i s mv w) \<noteq> Inl BotsPanic"
  using play_begin_no_panic [of w c i s mv] play_end_no_panic play_begin_job
  by (auto simp: play_def split: prod.split sum.split)

lemma select_no_panic: "bots_ok w \<Longrightarrow> snd (select_track c a i k w) \<noteq> Inl BotsPanic"
  using bots_ok_select_index [of w i k] play_no_panic
  by (auto simp: select_track_def select_index_def split: option.splits if_splits)

text \<open>C34. Whatever happened to the server, the bots and the disk, a bot's position is a track of its
  queue, or the start of an empty one, and each bot is filed under its own id. No playback command ever
  indexes the queue out of its bounds.\<close>

theorem queue_position_valid:
  assumes "bots_reachable True w" "mget (bots w) i = Some b"
  shows "bd_id (b_def b) = i \<and> 0 \<le> b_index b
    \<and> (if b_tracks b = [] then b_index b = 0 else b_index b < int (length (b_tracks b)))
    \<and> snd (control c a q w) \<noteq> Inl BotsPanic"
proof -
  have ok: "bots_ok w" using assms(1) by (rule bots_ok_reachable)
  have "snd (control c a q w) \<noteq> Inl BotsPanic"
    using play_no_panic [OF ok] select_no_panic [OF ok]
    by (auto simp: control_def stop_bot_def Let_def split: option.splits)
  with bots_ok_get [OF ok assms(2)] show ?thesis by (auto simp: index_ok_def)
qed

theorem queue_position_valid_witness:
  "snd (control (bot_call0 ''u'' ''t'') ''ann'' \<lparr>bc_bot = ''b'', bc_action = ''next'', bc_track = 0\<rparr> bots_site)
     \<noteq> Inl BotsPanic \<and> b_index dj < 2"
  using queue_position_valid [OF bots_site_reachable, of "''b''" dj] by simp

section \<open>The order of the queue\<close>

lemma step_index_next:
  "0 \<le> k \<Longrightarrow> k < n \<Longrightarrow> s = 1 \<or> s = -1 \<Longrightarrow>
   step_index l n s k = (if l then (k + s) mod n else max 0 (min (n - 1) (k + s)))"
proof -
  assume k: "0 \<le> k" "k < n" and s: "s = 1 \<or> s = -1"
  have "(k + s) mod n = (if k + s < 0 then n - 1 else if k + s \<ge> n then 0 else k + s)"
  proof -
    consider "k = 0" "s = -1" | "k + 1 = n" "s = 1" | "0 \<le> k + s" "k + s < n" using k s by force
    then show ?thesis using k by cases (simp_all add: zmod_minus1)
  qed
  then show ?thesis using k s by (auto simp: step_index_def Let_def)
qed

text \<open>Next and previous move by one: around the ends when the queue loops, stopping at them when it
  does not. With shuffle and more than one track, they go to a track other than the current one. Nothing
  else of the bot changes.\<close>

theorem queue_order:
  assumes "0 \<le> b_index b" "b_index b < int (length (b_tracks b))" "s = 1 \<or> s = -1"
    and "advance draws s b = Some b'"
  shows "b' = b\<lparr>b_index := b_index b'\<rparr> \<and> 0 \<le> b_index b' \<and> b_index b' < int (length (b_tracks b))
    \<and> (if bd_shuffle (b_def b) \<and> length (b_tracks b) > 1 then b_index b' \<noteq> b_index b
       else b_index b' = (if bd_loop (b_def b) then (b_index b + s) mod int (length (b_tracks b))
                          else max 0 (min (int (length (b_tracks b)) - 1) (b_index b + s))))"
proof -
  have ne: "b_tracks b \<noteq> []" using assms(1,2) by auto
  show ?thesis
  proof (cases "bd_shuffle (b_def b) \<and> length (b_tracks b) > 1")
    case True
    then obtain x where x: "draw_other draws (length (b_tracks b)) (b_index b) 0 = Some x" "b' = b\<lparr>b_index := x\<rparr>"
      using assms(4) ne by (auto simp: advance_def Let_def)
    moreover have "0 < length (b_tracks b)" using ne by simp
    ultimately show ?thesis using True draw_other_range [OF x(1)] by simp
  next
    case False
    then have "b' = b\<lparr>b_index := step_index (bd_loop (b_def b)) (int (length (b_tracks b))) s (b_index b)\<rparr>"
      using assms(4) ne by (auto simp: advance_def Let_def)
    moreover have "0 \<le> k \<and> k < int (length (b_tracks b))"
      if "k = step_index (bd_loop (b_def b)) (int (length (b_tracks b))) s (b_index b)" for k
      using ne step_index_range [of "int (length (b_tracks b))"] that by simp
    ultimately show ?thesis
      using False step_index_next [OF assms(1,2,3)] by auto
  qed
qed

theorem queue_order_witness:
  "b_index (the (advance (\<lambda>k. k) 1 (dj\<lparr>b_index := 1\<rparr>))) = 0"
proof -
  have a: "advance (\<lambda>k. k) 1 (dj\<lparr>b_index := 1\<rparr>) = Some (dj\<lparr>b_index := 0\<rparr>)"
    by (simp add: advance_def Let_def step_index_def)
  show ?thesis using queue_order [OF _ _ _ a] a by simp
qed

text \<open>C26. Drawing the next shuffled track ends exactly when the random numbers ever name another track
  than the current one: the only way for a bot to hang is a generator that never does.\<close>

theorem shuffle_terminates:
  "advance draws s b = None \<longleftrightarrow>
     bd_shuffle (b_def b) \<and> length (b_tracks b) > 1
     \<and> (\<lambda>j. int (draws j mod length (b_tracks b))) = (\<lambda>_. b_index b)"
proof -
  let ?n = "length (b_tracks b)"
  have "draw_other draws ?n (b_index b) 0 = None \<longleftrightarrow> (\<forall>j. int (draws j mod ?n) = b_index b)"
    using draw_other_complete [of draws _ ?n "b_index b" 0] draw_other_sound [of draws ?n "b_index b" 0]
    by (metis le0 not_None_eq)
  then show ?thesis by (auto simp: advance_def Let_def fun_eq_iff)
qed

section \<open>Playing\<close>

lemma audio_join_ok:
  assumes "audio_join c i room n w = (w', None)"
  shows "\<exists>l. mget (links w') i = Some l \<and> pu_room l = room"
    and "\<And>j. j \<noteq> i \<Longrightarrow> mget (links w') j = mget (links w) j"
  using assms by (auto simp: audio_join_def audio_leave_def Let_def split: if_splits sum.splits option.splits)

lemma audio_play_ok:
  assumes "audio_play c i path w = (w', None)"
  obtains l where "mget (links w) i = Some l"
    "mget (links w') i = Some \<lparr>pu_room = pu_room l, pu_playing = Some path, pu_generation = Suc (pu_generation l)\<rparr>"
    "\<And>j. j \<noteq> i \<Longrightarrow> mget (links w') j = mget (links w) j"
proof (cases "mget (links w) i")
  case (Some l)
  with assms show thesis
    by (intro that [of l]) (cases l, auto simp: audio_play_def Let_def split: if_splits)
qed (use assms in \<open>simp add: audio_play_def\<close>)

text \<open>C23. When a playback command succeeds, the bot was enabled, in a room and had tracks; it now counts as
  playing, and in the media session it is in its own room with the very track of its queue its position
  names. No other bot and no other connection is touched.\<close>

theorem playback_matches_queue:
  assumes "bots_ok w" "play c a i s mv w = (w', Inr v)"
  shows "\<exists>b b' l. mget (bots w) i = Some b \<and> bd_enabled (b_def b) \<and> b_room b \<noteq> [] \<and> b_tracks b \<noteq> []
    \<and> (if mv then map_option b_index (advance (bx_draws c) s b) else Some (b_index b)) = Some (b_index b')
    \<and> mget (bots w') i = Some b' \<and> b' = b\<lparr>b_state := BotPlaying, b_index := b_index b'\<rparr> \<and> v = view_bot w' b'
    \<and> mget (links w') i = Some l \<and> pu_room l = b_room b
    \<and> pu_playing l = Some (tr_path (b_tracks b ! nat (b_index b')))
    \<and> (\<forall>j. j \<noteq> i \<longrightarrow> mget (bots w') j = mget (bots w) j \<and> mget (links w') j = mget (links w) j)"
proof -
  obtain w1 jb where pb: "play_begin c i s mv w = (w1, Inr jb)" and pe: "play_end c a jb w1 = (w', Inr v)"
    using assms(2) by (auto simp: play_def split: prod.splits sum.splits)
  obtain b b1 where b: "mget (bots w) i = Some b" "bd_enabled (b_def b)" "b_room b \<noteq> []" "b_tracks b \<noteq> []"
    and adv: "(if mv then advance (bx_draws c) s b else Some b) = Some b1" and w1: "w1 = set_bot i b1 w"
    and jb: "jb = \<lparr>pj_bot = i, pj_room = b_room b1, pj_name = bd_name (b_def b1),
        pj_path = tr_path (b_tracks b1 ! nat (b_index b1))\<rparr>"
    using pb by (auto simp: play_begin_def split: if_splits option.splits)
  have b1: "b1 = b\<lparr>b_index := b_index b1\<rparr>"
    using adv advance_facts [of "bx_draws c" s b b1] b(4) by (cases b; cases b1) (auto split: if_splits)
  obtain w2 where join: "audio_join c i (b_room b1) (bd_name (b_def b1)) w1 = (w2, None)"
    using pe jb by (auto simp: play_end_def split: prod.splits option.splits)
  obtain w3 where play: "audio_play c i (pj_path jb) w2 = (w3, None)"
    using pe join jb by (auto simp: play_end_def split: prod.splits option.splits)
  have bots3: "bots w3 = mput i b1 (bots w)" "lists w3 = lists w"
    using join play w1 by (metis audio_join_frame(1,2) audio_play_frame(1,2) fst_conv set_bot_frame(1,2))+
  define b' where "b' = b1\<lparr>b_state := BotPlaying\<rparr>"
  have w': "w' = announce_bot a v (set_bot i b' w3)" and v: "v = view_bot (set_bot i b' w3) b'"
    using pe join play jb bots3 by (auto simp: play_end_def held_bot_def set_held_def Let_def b'_def)
  obtain l where l: "mget (links w2) i = Some l"
    "mget (links w3) i = Some \<lparr>pu_room = pu_room l, pu_playing = Some (pj_path jb), pu_generation = Suc (pu_generation l)\<rparr>"
    and others3: "\<And>j. j \<noteq> i \<Longrightarrow> mget (links w3) j = mget (links w2) j"
    using audio_play_ok [OF play] by metis
  have "links w1 = links w" using w1 by simp
  then have others: "mget (links w') j = mget (links w) j" if "j \<noteq> i" for j
    using others3 [OF that] audio_join_ok(2) [OF join that] by (simp add: w')
  have "view_bot w' b' = v" unfolding v by (rule view_bot_cong) (simp add: w')
  moreover have "(if mv then map_option b_index (advance (bx_draws c) s b) else Some (b_index b)) = Some (b_index b')"
    using adv by (simp add: b'_def split: if_splits)
  moreover have "b' = b\<lparr>b_state := BotPlaying, b_index := b_index b'\<rparr>"
    using b1 unfolding b'_def by (cases b; cases b1) simp
  moreover have "pu_room l = b_room b1" using audio_join_ok(1) [OF join] l(1) by auto
  moreover have "b_room b1 = b_room b" "b_tracks b1 = b_tracks b"
    using b1 by (metis bot.select_convs(2,3) bot.surjective bot.update_convs(5))+
  ultimately show ?thesis
    using b l(2) others
    by (intro exI [of _ b] exI [of _ b'] exI [of _ "\<lparr>pu_room = pu_room l, pu_playing = Some (pj_path jb), pu_generation = Suc (pu_generation l)\<rparr>"])
      (simp add: w' bots3 jb, simp add: b'_def)
qed

theorem playback_matches_queue_witness:
  "\<exists>w' v l. play (bot_call0 ''u'' ''t'') ''ann'' ''b'' 1 True hall_site = (w', Inr v)
     \<and> mget (links w') ''b'' = Some l \<and> pu_playing l = Some (runes ''/m/b/default/b.ogg'')"
proof -
  have b: "play_begin (bot_call0 ''u'' ''t'') ''b'' 1 True hall_site
      = (set_bot ''b'' (dj_in_hall\<lparr>b_index := 1\<rparr>) hall_site,
         Inr \<lparr>pj_bot = ''b'', pj_room = hall, pj_name = runes ''DJ'', pj_path = runes ''/m/b/default/b.ogg''\<rparr>)"
    by (simp add: play_begin_def advance_def step_index_def Let_def demo_track_def)
  then obtain w' v where p: "play (bot_call0 ''u'' ''t'') ''ann'' ''b'' 1 True hall_site = (w', Inr v)"
    by (auto simp: play_def play_end_def audio_join_def audio_play_def held_bot_def Let_def)
  from playback_matches_queue [OF hall_site_ok p] show ?thesis
    using p by (auto simp: advance_def step_index_def Let_def demo_track_def)
qed

section \<open>Callbacks\<close>

text \<open>Once a track has been replaced or stopped, or the bot has left, the completion callback of that
  track or of any earlier one on the connection does nothing: the queue is never advanced twice.\<close>

theorem skipped_track_cannot_advance:
  assumes "mget (links w) i = Some l" "g \<le> pu_generation l"
  shows "track_over c i g (fst (audio_play d i path w)) = fst (audio_play d i path w)
    \<and> track_over c i g (audio_stop i w) = audio_stop i w
    \<and> track_over c i g (audio_leave i w) = audio_leave i w"
  using assms by (auto simp: track_over_def stale_def audio_play_def audio_stop_def audio_leave_def Let_def)

theorem skipped_track_cannot_advance_witness:
  "track_over (bot_call0 ''u'' ''t'') ''b'' 0 (audio_stop ''b'' hall_site) = audio_stop ''b'' hall_site"
  using skipped_track_cannot_advance [of hall_site "''b''" _ 0] by simp

text \<open>A new connection counts its generations from 0 again, so the callback of the first track of the
  connection before it passes for that of the first track of this one.\<close>

theorem callback_survives_rejoin:
  assumes "(i, 1) \<in> set (callbacks w)" "audio_join c i room n (audio_leave i w) = (w1, None)"
    and "audio_play c i path w1 = (w2, None)"
  shows "(i, 1) \<in> set (callbacks w1) \<and> \<not> stale w2 i 1"
  using assms by (auto simp: audio_join_def audio_leave_def audio_play_def stale_def Let_def
      split: if_splits sum.splits option.splits)

section \<open>Rooms that go away\<close>

definition sent_out :: "bot \<Rightarrow> bot" where
  "sent_out b = (if bd_enabled (b_def b) then b\<lparr>b_room := [], b_state := BotIdle\<rparr> else b)"

lemma move_out:
  "mget (bots (fst (move_bot c [] i [] w))) j = (if j = i then map_option sent_out (mget (bots w) j) else mget (bots w) j)"
  "mget (links (fst (move_bot c [] i [] w))) j
     = (if j = i \<and> (\<exists>b. mget (bots w) i = Some b \<and> bd_enabled (b_def b)) then None else mget (links w) j)"
  by (auto simp: move_bot_def sent_out_def Let_def audio_leave_def split: option.split)

lemma move_out_fold:
  "mget (bots (fold (\<lambda>i w. fst (move_bot c [] i [] w)) is w)) j
     = (if j \<in> set is then map_option sent_out (mget (bots w) j) else mget (bots w) j)
   \<and> mget (links (fold (\<lambda>i w. fst (move_bot c [] i [] w)) is w)) j
     = (if j \<in> set is \<and> (\<exists>b. mget (bots w) j = Some b \<and> bd_enabled (b_def b)) then None else mget (links w) j)"
proof (induction "is" arbitrary: w)
  case (Cons i "is")
  have "map_option sent_out (map_option sent_out x) = map_option sent_out x" for x
    by (cases x) (simp_all add: sent_out_def)
  moreover have "(\<exists>b. map_option sent_out x = Some b \<and> bd_enabled (b_def b)) \<longleftrightarrow> (\<exists>b. x = Some b \<and> bd_enabled (b_def b))" for x
    by (cases x) (simp_all add: sent_out_def)
  ultimately show ?case
    using Cons.IH [of "fst (move_bot c [] i [] w)"] by (auto simp: move_out)
qed simp

lemma room_gone_at:
  assumes "bots_ok w"
  shows "mget (bots (room_gone c room w)) i = map_option (\<lambda>b. if b_room b = room then sent_out b else b) (mget (bots w) i)
    \<and> mget (links (room_gone c room w)) i
      = (if \<exists>b. mget (bots w) i = Some b \<and> b_room b = room \<and> bd_enabled (b_def b) then None else mget (links w) i)"
proof -
  have "i \<in> set (bots_in room w) \<longleftrightarrow> (\<exists>b. mget (bots w) i = Some b \<and> b_room b = room)"
    using assms by (force simp: bots_in_def bots_ok_def set_wf_map)
  then show ?thesis
    using move_out_fold [of c "bots_in room w" w i] by (cases "mget (bots w) i") (auto simp: room_gone_def)
qed

section \<open>Where state and sound part\<close>

text \<open>Moving a playing bot to the room it is already in shows it as stopped, but joining is a no-op there and
  the music goes on.\<close>

theorem moving_in_place_keeps_playing:
  assumes "mget (bots w) i = Some b" "bd_enabled (b_def b)" "b_room b = room" "room \<noteq> []"
    "get_room (srv w) room \<noteq> None" "mget (links w) i = Some l" "pu_room l = room" "bx_connected c i"
  shows "\<exists>w' v. move_bot c a i room w = (w', Inr v) \<and> bv_state v = BotStopped \<and> mget (links w') i = Some l"
  using assms by (auto simp: move_bot_def Let_def audio_join_def view_bot_def)

text \<open>Starting a track lets go of the lock before it joins the room, so a bot deleted in between joins
  again: it is gone from the manager and the tables but goes on playing in the room, and asking to delete it
  again is refused.\<close>

theorem deleted_bot_plays_on:
  assumes "play_begin c i s mv w = (w1, Inr j)" "delete_bot d i w1 = (w2, None)" "play_end c a j w2 = (w3, Inr v)"
  shows "mget (bots w3) i = None \<and> (\<exists>l. mget (links w3) i = Some l \<and> pu_playing l = Some (pj_path j))
    \<and> delete_bot d i w3 = (w3, Some BotsNotFound)"
proof -
  have j: "pj_bot j = i" using play_begin_job [OF assms(1)] by simp
  have none: "mget (bots w2) i = None"
    using assms(2) by (auto simp: delete_bot_def Let_def drop_bot_def remove_tree_def split: if_splits sum.splits)
  obtain w4 w5 where join: "audio_join c i (pj_room j) (pj_name j) w2 = (w4, None)"
    and play: "audio_play c i (pj_path j) w4 = (w5, None)"
    using assms(3) by (auto simp: play_end_def j split: prod.splits option.splits)
  have "bots w5 = bots w2"
    using join play by (metis audio_join_frame(1) audio_play_frame(1) fst_conv)
  moreover obtain l where "mget (links w5) i = Some l" "pu_playing l = Some (pj_path j)"
    using audio_play_ok [OF play] by (metis publishing.select_convs(2))
  ultimately have "mget (bots w3) i = None" "mget (links w3) i = Some l"
    using assms(3) none
    by (auto simp: play_end_def j join play held_bot_def set_held_def Let_def split: option.splits)
  then show ?thesis using \<open>pu_playing l = Some (pj_path j)\<close> by (simp add: delete_bot_def)
qed

theorem deleted_bot_plays_on_witness:
  "\<exists>w1 j w2 w3 v. play_begin (bot_call0 ''u'' ''t'') ''b'' 0 False hall_site = (w1, Inr j)
     \<and> delete_bot (bot_call0 ''u'' ''t'') ''b'' w1 = (w2, None)
     \<and> play_end (bot_call0 ''u'' ''t'') ''ann'' j w2 = (w3, Inr v) \<and> mget (bots w3) ''b'' = None
     \<and> mget (links w3) ''b'' \<noteq> None"
proof -
  let ?c = "bot_call0 ''u'' ''t''"
  obtain w1 j where b: "play_begin ?c ''b'' 0 False hall_site = (w1, Inr j)" "w1 = set_bot ''b'' dj_in_hall hall_site"
    "pj_room j = hall" "pj_bot j = ''b''"
    by (simp add: play_begin_def)
  then obtain w2 where d: "delete_bot ?c ''b'' w1 = (w2, None)" "mget (links w2) ''b'' = None" "cfg (srv w2) = bot_cfg"
      "mget (gone w2) ''b'' \<noteq> None" "mget (bots w2) ''b'' = None"
    by (auto simp: delete_bot_def db_delete_bot_def db_delete_playlists_of_bot_def remove_tree_def drop_bot_def
        audio_leave_def Let_def)
  then obtain w3 v where p: "play_end ?c ''ann'' j w2 = (w3, Inr v)"
    using b by (auto simp: play_end_def audio_join_def audio_play_def audio_leave_def issue_bot_token_def held_bot_def Let_def)
  from deleted_bot_plays_on [OF b(1) d(1) p] show ?thesis using b(1) d(1) p by blast
qed

end
