(* ===== verification/Bots_Site.thy ===== *)
theory Bots_Site
  imports Control Bots_Playback Gateway_Safety
begin

text \<open>
  The server and the bot manager together. \<open>site_step\<close> is one thing that happens to the process; its
  invariant is that of the server and that of the bots. Then what the gateway guarantees of the requests
  about bots, and what the deletion of a room does to the bots that sit in it.
\<close>

section \<open>The bots leave registry and memberships alone\<close>

lemma on_srv_frame [simp]:
  "srv (on_srv f w) = f (srv w)" "bots (on_srv f w) = bots w" "lists (on_srv f w) = lists w"
  "music (on_srv f w) = music w" "links (on_srv f w) = links w" "bots_ok (on_srv f w) = bots_ok w"
  by (simp_all add: on_srv_def)

definition srv_calm :: "site \<Rightarrow> site \<Rightarrow> bool" where
  "srv_calm w w' \<longleftrightarrow> calm (srv w) (srv w')"

lemma srv_calm_refl [intro!, simp]: "srv_calm w w"
  by (simp add: srv_calm_def)

lemma srv_calm_trans: "srv_calm w w1 \<Longrightarrow> srv_calm w1 w2 \<Longrightarrow> srv_calm w w2"
  unfolding srv_calm_def by (rule calm_trans)

lemma srv_calm_same: "srv w2 = srv w1 \<Longrightarrow> srv_calm w w2 = srv_calm w w1"
  by (simp add: srv_calm_def)

lemma srv_calm_frame [simp]:
  "srv_calm w (fst (audio_join c i r n w1)) = srv_calm w w1"
  "srv_calm w (fst (audio_play c i p w1)) = srv_calm w w1"
  "srv_calm w (audio_stop i w1) = srv_calm w w1" "srv_calm w (audio_leave i w1) = srv_calm w w1"
  "srv_calm w (set_bot i b w1) = srv_calm w w1" "srv_calm w (drop_bot i w1) = srv_calm w w1"
  "srv_calm w (w1\<lparr>bdb := d\<rparr>) = srv_calm w w1" "srv_calm w (w1\<lparr>bdb := d, lists := l\<rparr>) = srv_calm w w1"
  "srv_calm w (w1\<lparr>uploads := u\<rparr>) = srv_calm w w1" "srv_calm w (w1\<lparr>music := t\<rparr>) = srv_calm w w1"
  "srv_calm w (sweep_uploads now w1) = srv_calm w w1" "srv_calm w (remove_tree c path w1) = srv_calm w w1"
  "srv_calm w (remove_track c path w1) = srv_calm w w1" "srv_calm w (set_held i b w1) = srv_calm w w1"
  "srv_calm w (fst (store_limited c path io n1 w1)) = srv_calm w w1"
  by (rule srv_calm_same,
      simp add: drop_bot_def sweep_uploads_def remove_tree_def remove_track_def set_held_def store_limited_def Let_def)+

lemma srv_calm_announce [intro!]: "srv_calm w w1 \<Longrightarrow> srv_calm w (announce_bot a v w1)"
  by (simp add: srv_calm_def announce_bot_def calm_intros)

lemma srv_calm_fst: "f = (w', r) \<Longrightarrow> srv_calm w (fst f) \<Longrightarrow> srv_calm w w'"
  by simp

lemma srv_calm_make_dir: "make_dir c path w1 = Some w2 \<Longrightarrow> srv_calm w w2 = srv_calm w w1"
  by (auto dest!: make_dir_facts)

lemma srv_calm_move: "srv_calm w (fst (move_bot c a i r w))"
  by (auto simp: move_bot_def Let_def split: option.split)

lemma srv_calm_play_begin: "srv_calm w (fst (play_begin c i s mv w))"
  by (auto simp: play_begin_def split: option.split)

lemma audio_srv:
  "audio_join c i r n w1 = (w2, x) \<Longrightarrow> srv w2 = srv w1" "audio_play c i p w1 = (w2, y) \<Longrightarrow> srv w2 = srv w1"
  "store_limited c path io n1 w1 = (w2, z) \<Longrightarrow> srv w2 = srv w1"
  by (auto simp: audio_join_def audio_play_def audio_leave_def store_limited_def Let_def
      split: if_splits option.splits sum.splits)

lemmas audio_calm = audio_srv [THEN srv_calm_same, THEN iffD2]

lemma srv_calm_play_end: "srv_calm w (fst (play_end c a j w))"
  by (auto simp: play_end_def Let_def split: prod.split option.split
      intro: audio_calm(1) [OF _ srv_calm_refl] audio_calm(2) [OF _ audio_calm(1) [OF _ srv_calm_refl]])

lemma srv_calm_play: "srv_calm w (fst (play c a i s mv w))"
  using srv_calm_play_begin [of w c i s mv] srv_calm_play_end srv_calm_trans
  by (fastforce simp: play_def split: prod.split sum.split)

lemma srv_calm_stop: "srv_calm w (fst (stop_bot a i w))"
  by (auto simp: stop_bot_def Let_def split: option.split)

lemma srv_calm_select: "srv_calm w (fst (select_track c a i k w))"
proof -
  have "srv_calm w (fst (select_index i k w))" by (simp add: select_index_def split: option.split)
  then show ?thesis
    using srv_calm_play srv_calm_trans by (fastforce simp: select_track_def split: prod.split option.split)
qed

lemma srv_calm_control: "srv_calm w (fst (control c a q w))"
  by (simp add: control_def srv_calm_stop srv_calm_play srv_calm_select)

lemma srv_calm_over: "srv_calm w (track_over c i g w)"
  by (simp add: track_over_def track_finished_def srv_calm_stop srv_calm_play split: option.split)

lemma srv_calm_room_gone: "srv_calm w (room_gone c r w)"
proof -
  have "srv_calm w1 (fold (\<lambda>i w. fst (move_bot c [] i [] w)) is w1)" for "is" w1
    by (induction "is" arbitrary: w1) (auto intro: srv_calm_trans [OF srv_calm_move])
  then show ?thesis by (simp add: room_gone_def)
qed

lemma srv_calm_create: "srv_calm w (fst (create_bot c a q w))"
  by (auto simp: create_bot_def Let_def srv_calm_make_dir split: option.split sum.split)

lemma srv_calm_update: "srv_calm w (fst (update_bot c a q w))"
  by (auto simp: update_bot_def Let_def split: option.split sum.split
      intro: srv_calm_trans [OF _ srv_calm_stop])

lemma srv_calm_delete: "srv_calm w (fst (delete_bot c i w))"
  by (auto simp: delete_bot_def Let_def split: sum.split)

lemma srv_calm_create_playlist: "srv_calm w (fst (create_playlist c q w))"
  by (auto simp: create_playlist_def Let_def srv_calm_make_dir split: option.split sum.split)

lemma srv_calm_rename_playlist: "srv_calm w (fst (rename_playlist c q w))"
  by (auto simp: rename_playlist_def Let_def split: option.split sum.split)

lemma srv_calm_select_playlist: "srv_calm w (fst (select_playlist c a q w))"
  by (auto simp: select_playlist_def Let_def split: option.split sum.split bot_store_error.split
      intro: srv_calm_trans [OF _ srv_calm_stop])

lemma srv_calm_apsnd: "apsnd h f = (w', r) \<Longrightarrow> srv_calm w (fst f) \<Longrightarrow> srv_calm w w'"
  by (cases f) simp

lemma srv_calm_delete_playlist: "srv_calm w (fst (delete_playlist c a q w))"
  by (auto simp: delete_playlist_def Let_def split: sum.split option.splits prod.split if_splits
      intro: srv_calm_apsnd [OF _ srv_calm_select_playlist])

lemma srv_calm_refresh: "srv_calm w (fst (refresh_queue c a i w))"
  by (auto simp: refresh_queue_def Let_def split: option.split)

lemma srv_calm_request_track: "srv_calm w (fst (request_track_upload c a q w))"
  by (auto simp: request_track_upload_def Let_def split: sum.split)

lemma srv_calm_track_begin: "srv_calm w (fst (track_begin c token w))"
  by (auto simp: track_begin_def Let_def srv_calm_make_dir split: option.split sum.split)

lemma srv_calm_track_store: "srv_calm w (fst (track_store c j io w))"
  by (auto simp: track_store_def Let_def split: prod.split option.split
      intro: audio_calm(3) [OF _ srv_calm_refl]
        srv_calm_trans [OF audio_calm(3) [OF _ srv_calm_refl] srv_calm_refresh])

lemma srv_calm_delete_track: "srv_calm w (fst (delete_track c a q w))"
  by (auto simp: delete_track_def Let_def split: option.split sum.split
      intro: srv_calm_trans [OF _ srv_calm_refresh])

lemma srv_calm_reload: "srv_calm w (fst (reload_bots c w))"
  by (auto simp: reload_bots_def Let_def srv_calm_def split: sum.split)

lemmas srv_calm_ops = srv_calm_reload srv_calm_create srv_calm_update srv_calm_delete srv_calm_move srv_calm_control
  srv_calm_play_begin srv_calm_play_end srv_calm_over srv_calm_room_gone srv_calm_create_playlist
  srv_calm_rename_playlist srv_calm_select_playlist srv_calm_delete_playlist srv_calm_request_track
  srv_calm_track_begin srv_calm_track_store srv_calm_delete_track

section \<open>Requests about bots\<close>

lemma srv_calm_on: "(\<And>s. calm s (f s)) \<Longrightarrow> srv_calm w w1 \<Longrightarrow> srv_calm w (on_srv f w1)"
  by (auto simp: srv_calm_def intro: calm_trans)

lemma srv_calm_sends [intro!]:
  "srv_calm w w1 \<Longrightarrow> srv_calm w (on_srv (send_message r ty i p) w1)"
  "srv_calm w w1 \<Longrightarrow> srv_calm w (on_srv (send_error r i code) w1)"
  "srv_calm w w1 \<Longrightarrow> srv_calm w (on_srv (broadcast ty p ex) w1)"
  "srv_calm w w1 \<Longrightarrow> srv_calm w (log_bot c r act name detail w1)"
  "srv_calm w w1 \<Longrightarrow> srv_calm w (reply_bot_error r i err w1)"
  "srv_calm w w1 \<Longrightarrow> srv_calm w (reply_state r i v w1)"
  by (auto simp: log_bot_def reply_bot_error_def reply_state_def intro!: srv_calm_on calm_intros)

lemma srv_calm_require: "srv_calm w (k w) \<Longrightarrow> srv_calm w (site_require r i p k w)"
  by (auto simp: site_require_def)

lemma srv_calm_decoded: "(\<And>x. srv_calm w (k x w)) \<Longrightarrow> srv_calm w (site_decoded r i p k w)"
  by (auto simp: site_decoded_def split: option.split)

lemma srv_calm_reply:
  "srv_calm w (fst res) \<Longrightarrow> (\<And>x w1. srv_calm w w1 \<Longrightarrow> srv_calm w (k x w1)) \<Longrightarrow> srv_calm w (bot_reply r i k res)"
  by (auto simp: bot_reply_def split: prod.split sum.split)

lemma srv_calm_dispatch: "srv_calm w (dispatch_bot c r i q w)"
  by (cases q)
    (auto simp: handle_bot_list_def handle_bot_control_def handle_bot_move_def handle_bot_create_def
      handle_bot_update_def handle_bot_delete_def handle_bot_queue_def handle_bot_playlist_list_def
      handle_bot_playlist_create_def handle_bot_playlist_rename_def handle_bot_playlist_delete_def
      handle_bot_playlist_select_def handle_bot_track_upload_def handle_bot_track_delete_def
      with_playlist_spec_def Let_def srv_calm_ops
      intro!: srv_calm_require srv_calm_decoded srv_calm_reply
      intro: srv_calm_fst [OF _ srv_calm_delete] srv_calm_fst [OF _ srv_calm_delete_playlist]
      split: prod.split option.split)

lemma bots_ok_sends [simp]:
  "bots_ok (log_bot c r act name detail w1) = bots_ok w1"
  "bots_ok (reply_bot_error r i err w1) = bots_ok w1" "bots_ok (reply_state r i v w1) = bots_ok w1"
  by (simp_all add: log_bot_def reply_bot_error_def reply_state_def)

lemma bots_ok_require: "bots_ok w \<Longrightarrow> bots_ok (k w) \<Longrightarrow> bots_ok (site_require r i p k w)"
  by (simp add: site_require_def)

lemma bots_ok_decoded: "bots_ok w \<Longrightarrow> (\<And>x. bots_ok (k x w)) \<Longrightarrow> bots_ok (site_decoded r i p k w)"
  by (simp add: site_decoded_def split: option.split)

lemma bots_ok_reply:
  "bots_ok (fst res) \<Longrightarrow> (\<And>x w1. bots_ok w1 \<Longrightarrow> bots_ok (k x w1)) \<Longrightarrow> bots_ok (bot_reply r i k res)"
  by (auto simp: bot_reply_def split: prod.split sum.split)

lemma bots_ok_dispatch: "bots_ok w \<Longrightarrow> bots_ok (dispatch_bot c r i q w)"
  by (cases q)
    (auto simp: handle_bot_list_def handle_bot_control_def handle_bot_move_def handle_bot_create_def
      handle_bot_update_def handle_bot_delete_def handle_bot_queue_def handle_bot_playlist_list_def
      handle_bot_playlist_create_def handle_bot_playlist_rename_def handle_bot_playlist_delete_def
      handle_bot_playlist_select_def handle_bot_track_upload_def handle_bot_track_delete_def
      with_playlist_spec_def Let_def bots_ok_ops
      intro!: bots_ok_require bots_ok_decoded bots_ok_reply
      intro: bots_ok_fst [OF _ bots_ok_delete] bots_ok_fst [OF _ bots_ok_delete_playlist]
      split: prod.split option.split)

section \<open>A room goes\<close>

lemma calm_wf_net: "calm w w' \<Longrightarrow> wf_net w \<Longrightarrow> wf_net w'"
  by (simp add: wf_net_def calm_def)

lemma calm_wf_rooms: "calm w w' \<Longrightarrow> wf_map (rooms w) \<Longrightarrow> wf_map (rooms w')"
  by (simp add: calm_def)

lemma people_fold_eject: "people w (fold (eject i b) ms w)"
  by (intro people_fold people_eject people_refl)

text \<open>An operation whose effect on registry, names and memberships does not depend on the queued frames
  takes calm states to calm states.\<close>

lemma calm_both:
  assumes c: "calm s s'" and wf: "wf_net s" "wf_map (rooms s)"
    and F: "\<And>s. wf_net s \<Longrightarrow> wf_net (F s)" "\<And>s. wf_map (rooms s) \<Longrightarrow> wf_map (rooms (F s))"
      "\<And>s. people s (F s)" "\<And>s. next_ref (F s) = next_ref s" "\<And>s. core (F s) = core s"
      "\<And>s x. s_room (heap (F s) x) = H x (s_room (heap s x))"
  shows "calm (F s) (F s')"
proof -
  have "wf_net (F s')" "wf_map (rooms (F s'))"
    using F(1,2) calm_wf_net [OF c wf(1)] calm_wf_rooms [OF c wf(2)] by blast+
  then show ?thesis
    using c F(3) [of s] F(3) [of s'] by (simp add: calm_def people_def wf_net_def F(4-6))
qed

lemma calm_both_broadcast:
  "calm s s' \<Longrightarrow> wf_net s \<Longrightarrow> wf_map (rooms s) \<Longrightarrow> calm (broadcast ty p ex s) (broadcast ty p ex s')"
  by (rule calm_both [where H = "\<lambda>_ r. r"]) (simp_all add: people_of_calm)

lemma calm_both_ejected:
  "calm s s' \<Longrightarrow> wf_net s \<Longrightarrow> wf_map (rooms s) \<Longrightarrow>
   calm (clear_content i room (fold (eject j b) ms s)) (clear_content i room (fold (eject j b) ms s'))"
  by (rule calm_both [where F = "\<lambda>s. clear_content i room (fold (eject j b) ms s)"
        and H = "\<lambda>x r. if x \<in> snd ` set ms then [] else r"])
    (auto simp: s_room_fold_eject people_clear people_fold_eject intro: core_cong)

lemma calm_both_on_delete:
  "calm s s' \<Longrightarrow> calm (on_delete i s) (on_delete i s')"
  by (simp add: calm_def core_def fun_eq_iff)

lemma srv_on_delete: "calm (on_delete i (srv w)) (srv (site_on_delete c i w))"
  using srv_calm_room_gone [of "on_srv (on_delete i) w" c i] by (simp add: site_on_delete_def srv_calm_def)

lemma site_delete_calm:
  assumes "wf_net (srv w)" "wf_map (rooms (srv w))"
  shows "calm (fst (delete_room (cx_env (bx c)) a i (srv w))) (srv (fst (site_delete_room c a i w)))
       \<and> snd (site_delete_room c a i w) = snd (delete_room (cx_env (bx c)) a i (srv w))"
proof (cases "get_room (srv w) i")
  case (Some room)
  show ?thesis
  proof (cases "db_delete_room (cx_env (bx c)) i (db_of (srv w))")
    case (Inl err)
    with Some show ?thesis by (cases err) (simp_all add: delete_room_def site_delete_room_def)
  next
    case (Inr d)
    define s1 where "s1 = (set_db d (srv w))\<lparr>rooms := mdel i (rooms (set_db d (srv w)))\<rparr>"
    define w1 where "w1 = on_srv (\<lambda>s. let s0 = set_db d s in s0\<lparr>rooms := mdel i (rooms s0)\<rparr>) w"
    have s1: "srv w1 = s1" by (simp add: w1_def s1_def Let_def)
    have wf: "wf_net (on_delete i s1)" "wf_map (rooms (on_delete i s1))"
      using assms by (simp_all add: s1_def wf_net_def set_db_def)
    have c: "calm (on_delete i s1) (srv (site_on_delete c i w1))" using srv_on_delete [of i w1 c] s1 by simp
    have "calm (broadcast ''room.deleted'' (PRoomRef i) a
          (clear_content i room (fold (eject i False) (rm_members room) (on_delete i s1))))
        (broadcast ''room.deleted'' (PRoomRef i) a
          (clear_content i room (fold (eject i False) (rm_members room) (srv (site_on_delete c i w1)))))"
      using wf by (intro calm_both_broadcast calm_both_ejected [OF c wf]) simp_all
    then show ?thesis using Some Inr
      by (simp add: delete_room_def site_delete_room_def Let_def w1_def s1_def)
  qed
qed (simp add: delete_room_def site_delete_room_def)

lemma calm_drop_removed:
  assumes c: "calm s (srv w)" and wf: "wf_net s" "wf_map (rooms s)"
  shows "calm (drop_removed ir s) (srv (site_drop_removed c ir w))"
proof -
  have "calm (evict (fst ir) (snd ir) s) (evict (fst ir) (snd ir) (srv w))"
    unfolding evict_def by (rule calm_both_ejected [OF c wf])
  then have "calm (on_delete (fst ir) (evict (fst ir) (snd ir) s)) (srv (site_on_delete c (fst ir) (on_srv (evict (fst ir) (snd ir)) w)))"
    using calm_trans [OF calm_both_on_delete srv_on_delete [of "fst ir" "on_srv (evict (fst ir) (snd ir)) w" c]] by simp
  then show ?thesis
    unfolding drop_removed_def site_drop_removed_def using wf
    by (simp add: calm_both_broadcast evict_def)
qed

lemma calm_fold_drop_removed:
  "calm s (srv w) \<Longrightarrow> wf_net s \<Longrightarrow> wf_map (rooms s) \<Longrightarrow>
   calm (fold drop_removed irs s) (srv (fold (site_drop_removed c) irs w))"
  by (induction irs arbitrary: s w) (simp_all add: calm_drop_removed)

lemma site_reload_calm:
  assumes wf: "wf_net (srv w)" "wf_map (rooms (srv w))" and ids: "ids_ok (rooms (srv w))"
    "\<forall>d \<in> set (t_rooms (db_of (srv w))). rd_id d \<noteq> []"
  shows "calm (fst (reload_rooms (cx_env (bx c)) (cx_lower (bx c)) (srv w))) (srv (fst (site_reload_rooms c w)))"
proof (cases "db_list_rooms (cx_env (bx c)) (db_of (srv w))")
  case (Inr ds)
  obtain rs cr up where m: "merge_defs ds (rooms (srv w)) = (rs, cr, up)" by (metis prod_cases3)
  have ds: "\<forall>d \<in> set ds. rd_id d \<noteq> []" using Inr ids(2) by (auto simp: db_list_rooms_def split: if_splits)
  have "wf_map rs" using merge_defs_members [OF m ids(1) ds] wf(2) by blast
  moreover have "wf_net (srv w\<lparr>rooms := filter P rs\<rparr>)" for P using wf(1) by (simp add: wf_net_def)
  ultimately show ?thesis
    by (simp add: reload_rooms_def site_reload_rooms_def Inr m Let_def calm_fold_drop_removed)
qed (simp add: reload_rooms_def site_reload_rooms_def)

lemma bots_ok_drop_removed: "bots_ok w \<Longrightarrow> bots_ok (site_drop_removed c ir w)"
  by (simp add: site_drop_removed_def site_on_delete_def bots_ok_room_gone)

lemma bots_ok_site_rooms:
  "bots_ok w \<Longrightarrow> bots_ok (fst (site_delete_room c a i w))" "bots_ok w \<Longrightarrow> bots_ok (fst (site_reload_rooms c w))"
proof -
  have "bots_ok w \<Longrightarrow> bots_ok (fold (site_drop_removed c) irs w)" for irs w
    by (induction irs arbitrary: w) (simp_all add: bots_ok_drop_removed)
  then show "bots_ok w \<Longrightarrow> bots_ok (fst (site_reload_rooms c w))"
    by (simp add: site_reload_rooms_def Let_def split: sum.split prod.split)
  show "bots_ok w \<Longrightarrow> bots_ok (fst (site_delete_room c a i w))"
    by (simp add: site_delete_room_def site_on_delete_def Let_def bots_ok_room_gone
        split: sum.split option.split store_error.split)
qed

section \<open>The commands of the panel\<close>

lemma srv_calm_kick: "srv_calm w (fst (ctl_kick c a w))"
  by (auto simp: ctl_kick_def ctl_log_def Let_def split: option.split intro!: srv_calm_on calm_intros)

lemma srv_calm_notice: "srv_calm w (fst (ctl_notice c t w))"
  by (auto simp: ctl_notice_def ctl_log_def Let_def intro!: srv_calm_on calm_intros)

lemma srv_calm_stop_each: "srv_calm w (fst (stop_each c is w))"
proof (induction "is" arbitrary: w)
  case (Cons i "is")
  have "srv_calm w (fst (control c [] (stop_request i) w))" by (rule srv_calm_control)
  then show ?case using Cons srv_calm_trans by (fastforce split: prod.split sum.split)
qed simp

lemma srv_calm_stop_bots: "srv_calm w (fst (ctl_stop_bots c t w))"
  by (simp add: ctl_stop_bots_def srv_calm_stop_each Let_def del: stop_each.simps split: option.split)

lemma bots_ok_stop_each: "bots_ok w \<Longrightarrow> bots_ok (fst (stop_each c is w))"
proof (induction "is" arbitrary: w)
  case (Cons i "is")
  have "bots_ok (fst (control c [] (stop_request i) w))" using Cons.prems by (simp add: bots_ok_ops)
  then show ?case using Cons by (auto split: prod.split sum.split)
qed simp

lemma bots_ok_commands:
  "bots_ok w \<Longrightarrow> bots_ok (fst (ctl_kick c a w))" "bots_ok w \<Longrightarrow> bots_ok (fst (ctl_notice c t w))"
  "bots_ok w \<Longrightarrow> bots_ok (fst (ctl_stop_bots c t w))"
  by (simp_all add: ctl_kick_def ctl_notice_def ctl_stop_bots_def bots_ok_stop_each Let_def del: stop_each.simps
      split: option.split)

lemma Reload_rooms: "t_rooms (store (fst (Reload e m))) = t_rooms (store m)"
  by (auto simp: Reload_def reload_def db_purge_sanctions_def Let_def split: sum.splits)

section \<open>Everything that happens\<close>

inductive site_step :: "(ustring \<Rightarrow> ustring) \<Rightarrow> site \<Rightarrow> site \<Rightarrow> bool" for lower where
  request: "mget (live (srv w)) (s_uuid (heap (srv w) r)) = Some r \<Longrightarrow> cx_lower (bx c) = lower \<Longrightarrow>
    fresh (cx_env (bx c)) (srv w) \<Longrightarrow> site_step lower w (site_read_frame c r i q w)"
| arrives: "cx_lower (bx c) = lower \<Longrightarrow> site_step lower w (fst (site_handshake c su av rm i fr w))"
| rooms_reloaded: "cx_lower (bx c) = lower \<Longrightarrow> \<forall>d \<in> set (t_rooms (db_of (srv w))). rd_id d \<noteq> [] \<Longrightarrow>
    site_step lower w (fst (site_reload_rooms c w))"
| bots_reloaded: "site_step lower w (fst (reload_bots c w))"
| panel: "cx_lower (bx c) = lower \<Longrightarrow> \<forall>d \<in> set (t_rooms (db_of (srv w))). rd_id d \<noteq> [] \<Longrightarrow>
    site_step lower w (fst (serve_control secret pr c vp p w))"
| playback_starts: "site_step lower w (fst (play_begin c i s mv w))"
| playback_joins: "site_step lower w (fst (play_end c a j w))"
| track_over: "site_step lower w (track_over c i g w)"
| upload_starts: "site_step lower w (fst (track_begin c token w))"
| upload_ends: "site_step lower w (fst (track_store c k io w))"
| disk: "wf_tree t \<Longrightarrow> site_step lower w (w\<lparr>music := t\<rparr>)"
| elsewhere: "gate_step lower (srv w) s \<Longrightarrow> site_step lower w (w\<lparr>srv := s\<rparr>)"

inductive site_reachable :: "(ustring \<Rightarrow> ustring) \<Rightarrow> site \<Rightarrow> bool" for lower where
  start: "starting (srv w) \<Longrightarrow> wf_tree (music w) \<Longrightarrow> load_bots c w = (w', None) \<Longrightarrow> site_reachable lower w'"
| step: "site_reachable lower w \<Longrightarrow> site_step lower w w' \<Longrightarrow> site_reachable lower w'"

definition site_ok :: "(ustring \<Rightarrow> ustring) \<Rightarrow> site \<Rightarrow> bool" where
  "site_ok lower w \<longleftrightarrow> server_ok lower (srv w) \<and> bots_ok w"

lemma site_ok_calm: "site_ok lower w \<Longrightarrow> srv_calm w w' \<Longrightarrow> bots_ok w' \<Longrightarrow> site_ok lower w'"
  unfolding site_ok_def srv_calm_def using ok_calm by blast

lemma server_ok_wf: "server_ok lower s \<Longrightarrow> wf_net s \<and> wf_map (rooms s) \<and> ids_ok (rooms s)"
  using rooms_invD(1,2) [of s] unfolding server_ok_def rooms_wf_def ids_ok_def get_room_def by blast

lemma ok_delete_room: "server_ok lower s \<Longrightarrow> server_ok lower (fst (delete_room e a i s))"
  using rooms_inv_delete names_people [OF people_delete] by (simp add: server_ok_def)

lemma site_ok_delete: "site_ok lower w \<Longrightarrow> site_ok lower (fst (site_delete_room c a i w))"
  using site_delete_calm [of w c a i] server_ok_wf [of lower "srv w"] ok_delete_room ok_calm bots_ok_site_rooms(1)
  unfolding site_ok_def by blast

lemma site_ok_sends:
  "site_ok lower w \<Longrightarrow> site_ok lower (on_srv (send_message r ty i p) w)"
  "site_ok lower w \<Longrightarrow> site_ok lower (on_srv (send_error r i code) w)"
  by (rule site_ok_calm, assumption, intro srv_calm_sends srv_calm_refl, simp add: site_ok_def)+

lemma site_ok_room_delete: "site_ok lower w \<Longrightarrow> site_ok lower (site_room_delete c r i p w)"
proof -
  assume ok: "site_ok lower w"
  have "site_ok lower (case site_delete_room c a j w of
         (w1, Some err) \<Rightarrow> on_srv (send_error r i (room_code err)) w1
       | (w1, None) \<Rightarrow> on_srv (send_message r ''room.deleted'' i (PRoomRef j)) w1)" for a j
    using site_ok_delete [OF ok, of c a j]
    by (cases "site_delete_room c a j w") (auto intro: site_ok_sends split: option.split)
  with ok show ?thesis
    by (auto simp: site_room_delete_def site_require_def site_decoded_def intro: site_ok_sends split: option.split)
qed

lemma site_ok_request:
  assumes ok: "site_ok (cx_lower (bx c)) w" and l: "mget (live (srv w)) (s_uuid (heap (srv w) r)) = Some r"
    and f: "fresh (cx_env (bx c)) (srv w)"
  shows "site_ok (cx_lower (bx c)) (site_read_frame c r i q w)"
proof (cases "s_closed (heap (srv w) r)")
  case False
  show ?thesis
  proof (cases q)
    case (BotRequest x)
    then show ?thesis
      using False site_ok_calm [OF ok srv_calm_dispatch] bots_ok_dispatch ok
      by (simp add: site_read_frame_def site_dispatch_def site_ok_def)
  next
    case (ServerRequest x)
    have "server_ok (cx_lower (bx c)) (dispatch (bx c) r i x (srv w))"
      using ok_read_frame [of "bx c" "srv w" r i x] ok l f False by (simp add: site_ok_def read_frame_def)
    then have "site_ok (cx_lower (bx c)) (on_srv (dispatch (bx c) r i x) w)"
      using ok by (simp add: site_ok_def)
    moreover have "site_dispatch c r i q w = on_srv (dispatch (bx c) r i x) w
        \<or> (\<exists>p. site_dispatch c r i q w = site_room_delete c r i p w)"
      unfolding ServerRequest site_dispatch_def by (cases x) auto
    ultimately show ?thesis
      using False site_ok_room_delete [OF ok, of c r i] by (auto simp: site_read_frame_def)
  qed
qed (use ok in \<open>simp add: site_read_frame_def\<close>)

lemma site_ok_reload:
  assumes ok: "site_ok (cx_lower (bx c)) w" and ids: "\<forall>d \<in> set (t_rooms (db_of (srv w))). rd_id d \<noteq> []"
  shows "site_ok (cx_lower (bx c)) (fst (site_reload_rooms c w))"
proof -
  have s: "server_ok (cx_lower (bx c)) (srv w)" and b: "bots_ok w" using ok by (simp_all add: site_ok_def)
  note wf = server_ok_wf [OF s]
  have "server_ok (cx_lower (bx c)) (fst (reload_rooms (cx_env (bx c)) (cx_lower (bx c)) (srv w)))"
    by (rule ok_step [OF gate_step.rooms_reloaded [OF ids] s])
  then show ?thesis
    using site_reload_calm [of w c] wf ids ok_calm bots_ok_site_rooms(2) [OF b] unfolding site_ok_def by blast
qed

lemma site_ok_srv: "site_ok lower w \<Longrightarrow> calm (srv w) (f (srv w)) \<Longrightarrow> site_ok lower (on_srv f w)"
  using site_ok_calm [of lower w "on_srv f w"] by (simp add: srv_calm_def site_ok_def)

lemma site_ok_ctl_reload:
  assumes ok: "site_ok (cx_lower (bx c)) w" and ids: "\<forall>d \<in> set (t_rooms (db_of (srv w))). rd_id d \<noteq> []"
  shows "site_ok (cx_lower (bx c)) (fst (ctl_reload c vp w))"
proof (cases "reload_config (cx_env (bx c)) vp (db_of (srv w)) (cfg (srv w))")
  case (Pair g res)
  define w1 where "w1 = on_srv (\<lambda>s. s\<lparr>cfg := g\<rparr>) w"
  obtain m r where m: "Reload (cx_env (bx c)) (acc (srv w1)) = (m, r)" by fastforce
  define w2 where "w2 = on_srv (set_acc m) w1"
  have ok1: "site_ok (cx_lower (bx c)) w1" unfolding w1_def by (intro site_ok_srv ok calm_background)
  have ok2: "site_ok (cx_lower (bx c)) w2" unfolding w2_def by (intro site_ok_srv ok1 calm_intros calm_refl)
  have "db_of (srv w2) = store m" by (simp add: w2_def set_acc_def db_of_def)
  then have "\<forall>d \<in> set (t_rooms (db_of (srv w2))). rd_id d \<noteq> []"
    using Reload_rooms [of "cx_env (bx c)" "acc (srv w1)"] ids m by (simp add: w1_def db_of_def)
  then have ok3: "site_ok (cx_lower (bx c)) (fst (site_reload_rooms c w2))" by (rule site_ok_reload [OF ok2])
  obtain w3 r3 where w3: "site_reload_rooms c w2 = (w3, r3)" by fastforce
  obtain w4 r4 where w4: "reload_bots c w3 = (w4, r4)" by fastforce
  have "site_ok (cx_lower (bx c)) (fst (reload_bots c w3))"
    using ok3 by (intro site_ok_calm [OF _ srv_calm_reload] bots_ok_reload) (simp_all add: w3 site_ok_def)
  then have "site_ok (cx_lower (bx c)) w4" by (simp add: w4)
  moreover from this have "site_ok (cx_lower (bx c)) (on_srv (refresh_roles (bx c)) w4)"
    by (intro site_ok_srv calm_intros calm_refl)
  ultimately show ?thesis using ok ok2 ok3
    by (simp add: ctl_reload_def Pair w1_def [symmetric] m w2_def [symmetric] w3 w4 Let_def split: sum.split option.split)
qed

lemma site_ok_with_args:
  "site_ok lower w \<Longrightarrow> (\<And>x. site_ok lower (fst (k x w))) \<Longrightarrow> site_ok lower (fst (with_args f a k w))"
  by (auto simp: with_args_def split: sum.split prod.split option.split) (metis fst_conv)+

lemma site_ok_control:
  assumes ok: "site_ok (cx_lower (bx c)) w" and ids: "\<forall>d \<in> set (t_rooms (db_of (srv w))). rd_id d \<noteq> []"
  shows "site_ok (cx_lower (bx c)) (fst (serve_control secret pr c vp p w))"
proof -
  have "site_ok (cx_lower (bx c)) (fst (ctl_kick c a w))" "site_ok (cx_lower (bx c)) (fst (ctl_notice c t w))"
    "site_ok (cx_lower (bx c)) (fst (ctl_stop_bots c t w))" for a t
    using ok srv_calm_kick srv_calm_notice srv_calm_stop_bots bots_ok_commands site_ok_calm by (simp_all add: site_ok_def)
  then show ?thesis
    using ok site_ok_ctl_reload [OF assms, of vp]
    by (auto simp: serve_control_def dispatch_control_def site_ok_with_args split: option.split prod.split sum.split)
qed

lemma site_ok_op: "srv_calm w w' \<Longrightarrow> (bots_ok w \<Longrightarrow> bots_ok w') \<Longrightarrow> site_ok lower w \<Longrightarrow> site_ok lower w'"
  using site_ok_calm by (simp add: site_ok_def)

lemma site_ok_step: "site_step lower w w' \<Longrightarrow> site_ok lower w \<Longrightarrow> site_ok lower w'"
proof (induction rule: site_step.induct)
  case (request w r c i q)
  then show ?case using site_ok_request [of c w r] by simp
next
  case (arrives c w su av rm i fr)
  then show ?case
    using ok_handshake [of "bx c" "srv w" su "bot_views (cx_lower (bx c)) w" av rm i fr]
    by (cases "handshake (bx c) su (bot_views (cx_lower (bx c)) w) av rm i fr (srv w)")
      (auto simp: site_ok_def site_handshake_def)
next
  case (rooms_reloaded c w)
  then show ?case using site_ok_reload [of c w] by simp
next
  case (panel c w secret pr vp p)
  then show ?case using site_ok_control [of c w] by simp
next
  case (elsewhere w s)
  then show ?case using ok_step by (simp add: site_ok_def)
qed ((erule site_ok_op [rotated 2], simp add: srv_calm_ops, simp add: bots_ok_ops)+)

lemma srv_load: "load_bots c w = (w', None) \<Longrightarrow> srv w' = srv w"
  by (auto simp: load_bots_def Let_def split: sum.splits)

lemma reachable_site_ok: "site_reachable lower w \<Longrightarrow> site_ok lower w"
proof (induction rule: site_reachable.induct)
  case (start w c w')
  then show ?case using ok_starting bots_ok_load srv_load by (simp add: site_ok_def)
qed (rule site_ok_step)

text \<open>C6. Server and bots stay consistent through everything that can happen to the two together: the
  memberships of sessions and rooms agree, names are distinct (each request being one step), every bot is filed under its own id and its
  queue position is inside its queue. This covers the requests about bots, the callbacks of the media
  library, room deletions that send bots away in their middle, and every command of the control channel.\<close>

theorem site_stays_consistent:
  assumes "site_reachable lower w"
  shows "rooms_inv (srv w) \<and> names_distinct lower (srv w) \<and> bots_ok w"
  using reachable_site_ok [OF assms] by (simp add: site_ok_def server_ok_def)

lemma site_starts: "site_reachable lower (bots_site\<lparr>srv := demo_start\<lparr>cfg := bot_cfg\<rparr>\<rparr>)"
proof (rule site_reachable.start)
  show "starting (srv (bots_start\<lparr>srv := demo_start\<lparr>cfg := bot_cfg\<rparr>\<rparr>))"
    using starting_demo by (simp add: starting_def get_room_def)
  show "load_bots (bot_call0 [] []) (bots_start\<lparr>srv := demo_start\<lparr>cfg := bot_cfg\<rparr>\<rparr>)
      = (bots_site\<lparr>srv := demo_start\<lparr>cfg := bot_cfg\<rparr>\<rparr>, None)"
    by (simp add: load_bots_def db_list_bots_def db_list_playlists_def load_map_def rescan_def source_dir_def
        idle_bot_def dj_library bots_site_def bots_start_def demo_start_def Let_def)
qed simp

theorem site_stays_consistent_witness:
  "bots_ok (fst (site_handshake (bot_call0 ''s'' []) [] [] [] [] demo_hello (bots_site\<lparr>srv := demo_start\<lparr>cfg := bot_cfg\<rparr>\<rparr>)))"
  using site_stays_consistent [OF site_reachable.step [OF site_starts site_step.arrives [OF refl]]] by simp

section \<open>Who may ask for what\<close>

fun bot_needs :: "bot_request \<Rightarrow> perm option" where
  "bot_needs BqList = None"
| "bot_needs (BqControl _) = Some perm_control_bots"
| "bot_needs (BqMove _) = Some perm_control_bots"
| "bot_needs (BqQueue p) = (case p of Some (_, pl) \<Rightarrow> if pl \<noteq> [] then Some perm_manage_bots else None | None \<Rightarrow> None)"
| "bot_needs _ = Some perm_manage_bots"

text \<open>C10. A client that lacks the permission a request about bots needs gets one \<open>forbidden\<close> back and
  nothing else happens, on disk or in the database or among the bots, whatever the request names.\<close>

theorem bot_requests_refused:
  assumes "bot_needs q = Some p" "\<not> can (acc (srv w)) (s_uuid (heap (srv w) r)) p"
  shows "dispatch_bot c r i q w = w\<lparr>srv := send_error r i forbidden (srv w)\<rparr>"
  using assms
  by (cases q)
    (auto simp: handle_bot_control_def handle_bot_move_def handle_bot_create_def
      handle_bot_update_def handle_bot_delete_def handle_bot_queue_def handle_bot_playlist_list_def
      handle_bot_playlist_create_def handle_bot_playlist_rename_def handle_bot_playlist_delete_def
      handle_bot_playlist_select_def handle_bot_track_upload_def handle_bot_track_delete_def
      with_playlist_spec_def site_require_def site_decoded_def on_srv_def Let_def split: option.splits if_splits)

theorem bot_requests_refused_witness:
  "dispatch_bot (bot_call0 [] []) 1 ''i'' (BqDelete (Some ''b'')) hall_site
     = hall_site\<lparr>srv := send_error 1 ''i'' forbidden (srv hall_site)\<rparr>"
proof (rule bot_requests_refused)
  show "\<not> can (acc (srv hall_site)) (s_uuid (heap (srv hall_site) 1)) perm_manage_bots"
    by (simp add: can_def perm_manage_bots_def perm_send_messages_def perm_upload_files_def)
qed simp

section \<open>Bots and the deletion of rooms\<close>

text \<open>Deleting a room takes every enabled bot in it out of the room and out of its media session, in
  the same request, and no other bot notices. A disabled bot is not moved: it stays assigned to a room that
  no longer exists.\<close>

theorem room_deletion_evicts_bots:
  assumes "bots_ok w" "site_delete_room c a room w = (w', None)"
  shows "get_room (srv w') room = None
    \<and> (\<forall>i. mget (bots w') i = map_option (\<lambda>b. if b_room b = room \<and> bd_enabled (b_def b)
              then b\<lparr>b_room := [], b_state := BotIdle\<rparr> else b) (mget (bots w) i))
    \<and> (\<forall>i. mget (links w') i = (case mget (bots w) i of
              Some b \<Rightarrow> if b_room b = room \<and> bd_enabled (b_def b) then None else mget (links w) i
            | None \<Rightarrow> mget (links w) i))"
proof -
  obtain x d where x: "get_room (srv w) room = Some x" "db_delete_room (cx_env (bx c)) room (db_of (srv w)) = Inr d"
    using assms(2) by (auto simp: site_delete_room_def split: option.splits sum.splits store_error.splits)
  define w1 where "w1 = on_srv (\<lambda>s. let s0 = set_db d s in s0\<lparr>rooms := mdel room (rooms s0)\<rparr>) w"
  define w2 where "w2 = room_gone c room (on_srv (on_delete room) w1)"
  have w': "w' = on_srv (\<lambda>s. broadcast ''room.deleted'' (PRoomRef room) a
      (clear_content room x (fold (eject room False) (rm_members x) s))) w2"
    using assms(2) x by (simp add: site_delete_room_def site_on_delete_def w2_def w1_def Let_def)
  have "core (srv w2) room = None"
    using srv_calm_room_gone [of "on_srv (on_delete room) w1" c room]
    by (simp add: w2_def w1_def srv_calm_def calm_def core_def get_room_def Let_def)
  then have "get_room (srv w') room = None" by (simp add: w' core_def)
  moreover have "bots_ok (on_srv (on_delete room) w1)" using assms(1) by (simp add: w1_def)
  note room_gone_at [OF this, of c room]
  ultimately show ?thesis
    unfolding w' w2_def
    by (auto simp: w1_def sent_out_def option.map_comp comp_def split: option.split intro!: map_option_cong)
qed

definition hall_rows :: site where
  "hall_rows = hall_site\<lparr>srv := set_db (empty_db\<lparr>t_rooms := [demo_hall]\<rparr>) (srv hall_site)\<rparr>"

theorem room_deletion_evicts_bots_witness:
  "\<exists>w'. site_delete_room (bot_call0 [] []) ''ann'' hall hall_rows = (w', None)
     \<and> mget (bots w') ''b'' = Some (dj_in_hall\<lparr>b_room := [], b_state := BotIdle\<rparr>) \<and> mget (links w') ''b'' = None"
proof -
  have ok: "bots_ok hall_rows" using hall_site_ok by (simp add: hall_rows_def)
  have "get_room (srv hall_rows) hall \<noteq> None"
    by (simp add: hall_rows_def set_db_def get_room_def demo_server_def)
  moreover have "db_delete_room (quiet_env [] 0) hall (db_of (srv hall_rows)) = Inr empty_db"
    by (simp add: hall_rows_def set_db_def db_of_def db_delete_room_def demo_hall_def empty_db_def)
  ultimately obtain w' where d: "site_delete_room (bot_call0 [] []) ''ann'' hall hall_rows = (w', None)"
    by (auto simp: site_delete_room_def Let_def)
  with room_deletion_evicts_bots [OF ok d] show ?thesis by (simp add: hall_rows_def)
qed

end
