(* ===== verification/Control_Correct.thy ===== *)
theory Control_Correct
  imports Bots_Site
begin

text \<open>
  What the commands of the panel guarantee: a reload brings everything in memory to what the database says and
  disconnects nobody, stopping the bots stops every one of them, a kick hits the one it names, and a
  connection without the token changes nothing. That no command breaks the server is part of the invariant
  of \<open>Bots_Site\<close>.
\<close>

section \<open>What a reload leaves alone\<close>

definition same_tables :: "server \<Rightarrow> server \<Rightarrow> bool" where
  "same_tables s s' \<longleftrightarrow> rooms s' = rooms s \<and> acc s' = acc s \<and> cfg s' = cfg s \<and> live s' = live s"

lemma same_tables_refl [simp]: "same_tables s s"
  by (simp add: same_tables_def)

lemma same_tables_trans: "same_tables s t \<Longrightarrow> same_tables t u \<Longrightarrow> same_tables s u"
  by (simp add: same_tables_def)

lemma srv_audio_join: "srv (fst (audio_join c i r n w)) = srv w"
  by (rule audio_srv(1) [OF prod.collapse [symmetric]])

lemma same_tables_move: "same_tables (srv w) (srv (fst (move_bot c a i r w)))"
  by (simp add: move_bot_def announce_bot_def same_tables_def Let_def srv_audio_join split: option.split)

lemma same_tables_room_gone: "same_tables (srv w) (srv (room_gone c r w))"
proof -
  have "same_tables (srv w) (srv (fold (\<lambda>i w. fst (move_bot c [] i [] w)) is w))" for "is"
    by (induction "is" arbitrary: w) (auto intro: same_tables_trans [OF same_tables_move])
  then show ?thesis by (simp add: room_gone_def)
qed

lemma same_tables_drop: "same_tables (srv w) (srv (site_drop_removed c ir w))"
  using same_tables_room_gone [of "on_srv (on_delete (fst ir)) (on_srv (evict (fst ir) (snd ir)) w)" c "fst ir"]
  by (simp add: site_drop_removed_def site_on_delete_def same_tables_def evict_def)

lemma same_tables_drops: "same_tables (srv w) (srv (fold (site_drop_removed c) irs w))"
  by (induction irs arbitrary: w) (auto intro: same_tables_trans [OF same_tables_drop])

lemma reload_bots_srv: "srv (fst (reload_bots c w)) = srv w"
  by (simp add: reload_bots_def Let_def split: sum.split)

section \<open>Rooms after a reload\<close>

lemma merge_defs_other: "merge_defs ds rs = (rs', cr, up) \<Longrightarrow> i \<notin> rd_id ` set ds \<Longrightarrow> mget rs' i = mget rs i"
  by (induction ds arbitrary: rs cr up) (auto split: option.splits prod.splits if_splits)

lemma merge_defs_stored:
  "merge_defs ds rs = (rs', cr, up) \<Longrightarrow> distinct (map rd_id ds) \<Longrightarrow> d \<in> set ds \<Longrightarrow>
     \<exists>x. mget rs' (rd_id d) = Some x \<and> \<not> room_changed (rm_def x) d"
proof (induction ds arbitrary: rs cr up)
  case (Cons e ds)
  have new: "\<not> room_changed (rm_def (new_room e)) e" "\<not> room_changed e e"
    by (simp_all add: new_room_def room_changed_def)
  show ?case
  proof (cases "d = e")
    case True
    have "e \<notin> set ds" "rd_id e \<notin> rd_id ` set ds" using Cons.prems(2) by auto
    then show ?thesis
      using Cons.prems(1) new True
      by (auto split: option.splits prod.splits if_splits dest!: merge_defs_other [where i = "rd_id e"])
  next
    case False
    then show ?thesis using Cons by (auto split: option.splits prod.splits if_splits)
  qed
qed simp

lemma site_reload_rooms_tables:
  assumes r: "site_reload_rooms c w = (w', Inr n)" and inv: "rooms_inv (srv w)"
    and ids: "\<forall>d \<in> set (t_rooms (db_of (srv w))). rd_id d \<noteq> []" "distinct (map rd_id (t_rooms (db_of (srv w))))"
  shows "acc (srv w') = acc (srv w)" "cfg (srv w') = cfg (srv w)" "live (srv w') = live (srv w)"
    "get_room (srv w') i \<noteq> None \<longleftrightarrow> i \<in> rd_id ` set (t_rooms (db_of (srv w)))"
    "d \<in> set (t_rooms (db_of (srv w))) \<Longrightarrow> \<exists>x. get_room (srv w') (rd_id d) = Some x \<and> \<not> room_changed (rm_def x) d"
proof -
  obtain ds where ds: "db_list_rooms (cx_env (bx c)) (db_of (srv w)) = Inr ds"
    using r by (auto simp: site_reload_rooms_def split: sum.splits)
  have set_ds: "set ds = set (t_rooms (db_of (srv w)))" and dist: "distinct (map rd_id ds)"
    using ds ids(2) by (auto simp: db_list_rooms_def distinct_map split: if_splits)
  obtain rs cr up where m: "merge_defs ds (rooms (srv w)) = (rs, cr, up)" by (metis prod_cases3)
  have wfw: "wf_map (rooms (srv w))" "ids_ok (rooms (srv w))"
    using rooms_invD(2) [OF inv] by (auto simp: rooms_wf_def ids_ok_def get_room_def)
  have wf: "wf_map rs" and all: "\<forall>d \<in> set ds. mget rs (rd_id d) \<noteq> None"
    using merge_defs_members [OF m wfw(2)] wfw(1) ids(1) set_ds by auto
  let ?seen = "\<lambda>ir::string \<times> room. fst ir \<in> set (map rd_id ds)"
  define w3 where "w3 = on_srv (fold (announce_room (cx_lower (bx c)) ''room.updated'') up)
      (on_srv (fold (announce_room (cx_lower (bx c)) ''room.created'') cr) (on_srv (\<lambda>s. s\<lparr>rooms := filter ?seen rs\<rparr>) w))"
  have w': "w' = fold (site_drop_removed c) (filter (\<lambda>ir. \<not> ?seen ir) rs) w3"
    using r by (simp add: site_reload_rooms_def ds m Let_def w3_def)
  have same: "same_tables (srv w3) (srv w')" unfolding w' by (rule same_tables_drops)
  have w3: "acc (srv w3) = acc (srv w)" "cfg (srv w3) = cfg (srv w)" "live (srv w3) = live (srv w)"
    "rooms (srv w3) = filter ?seen rs" by (simp_all add: w3_def)
  show "acc (srv w') = acc (srv w)" "cfg (srv w') = cfg (srv w)" "live (srv w') = live (srv w)"
    using same w3 by (simp_all add: same_tables_def)
  have g: "get_room (srv w') i = (if i \<in> rd_id ` set ds then mget rs i else None)" for i
    using same w3(4) by (simp add: get_room_def same_tables_def mget_filter [OF wf] split: option.split)
  show "get_room (srv w') i \<noteq> None \<longleftrightarrow> i \<in> rd_id ` set (t_rooms (db_of (srv w)))"
    using all by (auto simp: g set_ds)
  show "\<exists>x. get_room (srv w') (rd_id d) = Some x \<and> \<not> room_changed (rm_def x) d" if "d \<in> set (t_rooms (db_of (srv w)))"
    using merge_defs_stored [OF m dist, of d] that by (simp add: g set_ds)
qed

section \<open>Roles after a reload\<close>

lemma apply_roles_at:
  "s_roles (heap (apply_roles c r w) x) = (if x = r then role_ids c w (s_uuid (heap w r)) else s_roles (heap w x))"
  "s_muted (heap (apply_roles c r w) x)
     = (if x = r then is_muted (clock (cx_env c)) (acc w) (s_uuid (heap w r)) else s_muted (heap w x))"
  "s_uuid (heap (apply_roles c r w) x) = s_uuid (heap w x)" "acc (apply_roles c r w) = acc w"
  "role_ids c (apply_roles c r w) = role_ids c w"
  by (simp_all add: apply_roles_def Let_def set_muted_def set_roles_def heap_at_session role_ids_def fun_eq_iff)

lemma fold_apply_roles:
  "s_roles (heap (fold (apply_roles c) rs w) x) = (if x \<in> set rs then role_ids c w (s_uuid (heap w x)) else s_roles (heap w x))"
  "s_muted (heap (fold (apply_roles c) rs w) x)
     = (if x \<in> set rs then is_muted (clock (cx_env c)) (acc w) (s_uuid (heap w x)) else s_muted (heap w x))"
  by (induction rs arbitrary: w) (auto simp: apply_roles_at)

lemma refresh_fields [simp]:
  "live (refresh_roles c w) = live w" "rooms (refresh_roles c w) = rooms w" "cfg (refresh_roles c w) = cfg w"
  "s_uuid (heap (refresh_roles c w) x) = s_uuid (heap w x)"
proof -
  have "live (fold (apply_roles c) rs w) = live w \<and> rooms (fold (apply_roles c) rs w) = rooms w
      \<and> cfg (fold (apply_roles c) rs w) = cfg w \<and> s_uuid (heap (fold (apply_roles c) rs w) x) = s_uuid (heap w x)" for rs
    by (induction rs arbitrary: w) (simp_all add: apply_roles_at, simp_all add: apply_roles_def Let_def set_muted_def set_roles_def)
  then show "live (refresh_roles c w) = live w" "rooms (refresh_roles c w) = rooms w" "cfg (refresh_roles c w) = cfg w"
    "s_uuid (heap (refresh_roles c w) x) = s_uuid (heap w x)" by (simp_all add: refresh_roles_def)
qed

lemma refreshed:
  assumes "wf_net w" "mget (live w) u = Some r"
  shows "s_roles (heap (refresh_roles c w) r) = role_ids c w u"
    "s_muted (heap (refresh_roles c w) r) = is_muted (clock (cx_env c)) (acc w) u"
  using assms mget_in_vals [OF assms(2)] wf_net_live [OF assms]
  by (simp_all add: refresh_roles_def fold_apply_roles)

lemma reload_again: "reload e m = Inr m' \<Longrightarrow> reload e m' = Inr m'"
  by (auto simp: reload_def Let_def split: sum.splits)

lemma Reload_again: "Reload e m = (m', Inr n) \<Longrightarrow> reload e m' = Inr m'"
  by (auto simp: Reload_def intro: reload_again split: sum.splits)

lemma ctl_reload_cases:
  assumes "ctl_reload c vp w = (w', Inr res)"
  obtains g n1 m n2 w2 n3 w3 where
    "reload_config (cx_env (bx c)) vp (db_of (srv w)) (cfg (srv w)) = (g, Inr n1)"
    "Reload (cx_env (bx c)) (acc (srv w)) = (m, Inr n2)"
    "site_reload_rooms c (on_srv (\<lambda>s. set_acc m (s\<lparr>cfg := g\<rparr>)) w) = (w2, Inr n3)"
    "reload_bots c w2 = (w3, None)" "w' = on_srv (refresh_roles (bx c)) w3"
proof -
  obtain g n1 where g: "reload_config (cx_env (bx c)) vp (db_of (srv w)) (cfg (srv w)) = (g, Inr n1)"
    using assms by (auto simp: ctl_reload_def split: prod.splits sum.splits)
  obtain m n2 where m: "Reload (cx_env (bx c)) (acc (srv w)) = (m, Inr n2)"
    using assms by (auto simp: ctl_reload_def g Let_def split: prod.splits sum.splits)
  have on: "on_srv (set_acc m) (on_srv (\<lambda>s. s\<lparr>cfg := g\<rparr>) w) = on_srv (\<lambda>s. set_acc m (s\<lparr>cfg := g\<rparr>)) w"
    by (simp add: on_srv_def)
  obtain w2 n3 where w2: "site_reload_rooms c (on_srv (\<lambda>s. set_acc m (s\<lparr>cfg := g\<rparr>)) w) = (w2, Inr n3)"
    using assms by (auto simp: ctl_reload_def g m on Let_def split: prod.splits sum.splits)
  obtain w3 where w3: "reload_bots c w2 = (w3, None)" "w' = on_srv (refresh_roles (bx c)) w3"
    using assms by (auto simp: ctl_reload_def g m on w2 Let_def split: prod.splits option.splits)
  show thesis using that [OF g m w2 w3] .
qed

text \<open>C35. A reload that succeeds brings the server to what the database says: the settings are those a fresh load
  would give, reading roles, grants and sanctions again would change nothing, the rooms are exactly the
  stored ones with their stored fields, and every connected user carries the roles and the mute that now
  hold. It disconnects nobody, so somebody the database bans stays online.\<close>

theorem reload_applies_the_database:
  assumes "site_ok (cx_lower (bx c)) w" "distinct (map rd_id (t_rooms (db_of (srv w))))" "\<forall>d \<in> set (t_rooms (db_of (srv w))). rd_id d \<noteq> []"
    and "ctl_reload c vp w = (w', Inr res)"
  shows "load_config (cx_env (bx c)) vp (db_of (srv w)) = Inr (cfg (srv w'))
    \<and> reload (cx_env (bx c)) (acc (srv w')) = Inr (acc (srv w'))
    \<and> (\<forall>i. get_room (srv w') i \<noteq> None \<longleftrightarrow> i \<in> rd_id ` set (t_rooms (db_of (srv w'))))
    \<and> (\<forall>d \<in> set (t_rooms (db_of (srv w'))). \<exists>x. get_room (srv w') (rd_id d) = Some x \<and> \<not> room_changed (rm_def x) d)
    \<and> live (srv w') = live (srv w)
    \<and> (\<forall>u r. mget (live (srv w')) u = Some r \<longrightarrow>
         s_roles (heap (srv w') r) = role_ids (bx c) (srv w') u
       \<and> s_muted (heap (srv w') r) = is_muted (clock (cx_env (bx c))) (acc (srv w')) u)"
proof -
  obtain g n1 m n2 w2 n3 w3 where
    g: "reload_config (cx_env (bx c)) vp (db_of (srv w)) (cfg (srv w)) = (g, Inr n1)"
    and m: "Reload (cx_env (bx c)) (acc (srv w)) = (m, Inr n2)"
    and w2: "site_reload_rooms c (on_srv (\<lambda>s. set_acc m (s\<lparr>cfg := g\<rparr>)) w) = (w2, Inr n3)"
    and w3: "reload_bots c w2 = (w3, None)" and w': "w' = on_srv (refresh_roles (bx c)) w3"
    using assms(4) by (rule ctl_reload_cases)
  let ?w1 = "on_srv (\<lambda>s. set_acc m (s\<lparr>cfg := g\<rparr>)) w"
  have "calm (srv w) (srv ?w1)"
    using calm_set_acc [OF calm_background(8) [of "srv w" g]] by simp
  then have ok1: "site_ok (cx_lower (bx c)) ?w1"
    using site_ok_srv [OF assms(1), of "\<lambda>s. set_acc m (s\<lparr>cfg := g\<rparr>)"] by simp
  then have inv: "rooms_inv (srv ?w1)" by (simp add: site_ok_def server_ok_def)
  have tr: "t_rooms (db_of (srv ?w1)) = t_rooms (db_of (srv w))"
    using Reload_rooms [of "cx_env (bx c)" "acc (srv w)"] m by (simp add: db_of_def set_acc_def)
  note rooms = site_reload_rooms_tables [OF w2 inv, unfolded tr, OF assms(3,2)]
  have s3: "srv w3 = srv w2" using reload_bots_srv [of c w2] w3 by simp
  have acc: "acc (srv w') = m" using rooms(1) by (simp add: w' s3 set_acc_def)
  have cfg: "cfg (srv w') = g" using rooms(2) by (simp add: w' s3 set_acc_def)
  have live: "live (srv w') = live (srv w)" using rooms(3) by (simp add: w' s3 set_acc_def)
  have get: "get_room (srv w') = get_room (srv w2)" by (simp add: w' s3 get_room_def fun_eq_iff)
  have tr': "t_rooms (db_of (srv w')) = t_rooms (db_of (srv w))" using tr acc by (simp add: db_of_def set_acc_def)
  have "\<forall>d \<in> set (t_rooms (db_of (srv ?w1))). rd_id d \<noteq> []" unfolding tr by (rule assms(3))
  then have "site_ok (cx_lower (bx c)) w2" using site_ok_reload [OF ok1] w2 by simp
  then have wf: "wf_net (srv w3)" using server_ok_wf unfolding site_ok_def s3 by blast
  have "role_ids (bx c) (srv w') = role_ids (bx c) (srv w3)" by (simp add: role_ids_def w' fun_eq_iff)
  then have "s_roles (heap (srv w') r) = role_ids (bx c) (srv w') u
       \<and> s_muted (heap (srv w') r) = is_muted (clock (cx_env (bx c))) (acc (srv w')) u"
    if "mget (live (srv w')) u = Some r" for u r
    using refreshed [OF wf, of u r] that by (simp add: w')
  moreover have "load_config (cx_env (bx c)) vp (db_of (srv w)) = Inr (cfg (srv w'))"
    using g by (simp add: cfg reload_config_def split: sum.splits)
  moreover have "reload (cx_env (bx c)) (acc (srv w')) = Inr (acc (srv w'))"
    using Reload_again [OF m] by (simp add: acc)
  ultimately show ?thesis using rooms(4,5) live by (simp add: get tr')
qed

section \<open>Stopping the bots\<close>

definition stopped :: "bot \<Rightarrow> bot" where
  "stopped b = b\<lparr>b_state := (if b_room b \<noteq> [] then BotStopped else BotIdle)\<rparr>"

lemma stopped_again [simp]: "stopped (stopped b) = stopped b" "b_state (stopped b) \<noteq> BotPlaying"
  by (simp_all add: stopped_def)

lemma stopped_differs: "b_state b = BotPlaying \<Longrightarrow> stopped b \<noteq> b"
  using stopped_again(2) [of b] by force

lemma stop_one:
  "mget (bots w) i = Some b \<Longrightarrow> \<exists>v. snd (control c [] (stop_request i) w) = Inr v"
  "mget (bots (fst (control c [] (stop_request i) w))) j = (if j = i then map_option stopped (mget (bots w) i) else mget (bots w) j)"
  "mget (links (fst (control c [] (stop_request i) w))) j =
     (if j = i \<and> mget (bots w) i \<noteq> None
      then map_option (\<lambda>l. l\<lparr>pu_playing := None, pu_generation := Suc (pu_generation l)\<rparr>) (mget (links w) i) else mget (links w) j)"
  by (auto simp: control_def stop_request_def stop_bot_def Let_def stopped_def audio_stop_def announce_bot_def
      split: option.split)

lemma stop_each_all:
  "\<forall>i \<in> set is. mget (bots w) i \<noteq> None \<Longrightarrow>
     snd (stop_each c is w) = None
   \<and> mget (bots (fst (stop_each c is w))) j = (if j \<in> set is then map_option stopped (mget (bots w) j) else mget (bots w) j)
   \<and> (j \<in> set is \<longrightarrow> (case mget (links (fst (stop_each c is w))) j of None \<Rightarrow> True | Some l \<Rightarrow> pu_playing l = None))
   \<and> ((case mget (links w) j of None \<Rightarrow> True | Some l \<Rightarrow> pu_playing l = None) \<longrightarrow>
        (case mget (links (fst (stop_each c is w))) j of None \<Rightarrow> True | Some l \<Rightarrow> pu_playing l = None))"
proof (induction "is" arbitrary: w)
  case (Cons i "is")
  obtain b where b: "mget (bots w) i = Some b" using Cons.prems by auto
  obtain w1 v where w1: "control c [] (stop_request i) w = (w1, Inr v)"
    using stop_one(1) [OF b] by (metis prod.collapse)
  note at = stop_one(2,3) [of c i w, unfolded w1 fst_conv]
  have "\<forall>k \<in> set is. mget (bots w1) k \<noteq> None" using Cons.prems at(1) by auto
  from Cons.IH [OF this] show ?case
    by (auto simp: w1 at b option.map_comp comp_def split: option.splits if_splits)
qed simp

lemma playing_ids:
  assumes "bots_ok w"
  shows "i \<in> set (map bv_id (playing (bot_views lower w))) \<longleftrightarrow> (\<exists>b. mget (bots w) i = Some b \<and> b_state b = BotPlaying)"
proof -
  have v: "bv_id (view_bot w b) = bd_id (b_def b)" "bv_state (view_bot w b) = b_state b" for b
    by (simp_all add: view_bot_def Let_def)
  have all: "b \<in> set (vals (bots w)) \<longleftrightarrow> (\<exists>k. mget (bots w) k = Some b)" for b
    using vals_wf [of "bots w" b] assms by (simp add: bots_ok_def)
  have "i \<in> set (map bv_id (playing (bot_views lower w)))
      \<longleftrightarrow> (\<exists>b \<in> set (vals (bots w)). bd_id (b_def b) = i \<and> b_state b = BotPlaying)"
    by (auto simp: playing_def bot_views_def sort_bots_eq v image_iff) force
  also have "\<dots> \<longleftrightarrow> (\<exists>b. mget (bots w) i = Some b \<and> b_state b = BotPlaying)"
    using bots_ok_get [OF assms] unfolding Bex_def all by metis
  finally show ?thesis .
qed

text \<open>\<open>bot.stop\<close> without an id never fails and leaves no bot playing: each bot that was playing is stopped and
  its track unpublished, and every other bot is as it was.\<close>

theorem stop_bots_stops_every_bot:
  assumes "bots_ok w" "trim_space txt = []"
  shows "snd (ctl_stop_bots c txt w) = None
    \<and> (case mget (bots (fst (ctl_stop_bots c txt w))) i of None \<Rightarrow> mget (bots w) i = None | Some b \<Rightarrow> b_state b \<noteq> BotPlaying)
    \<and> (case mget (bots w) i of None \<Rightarrow> True | Some b \<Rightarrow>
         if b_state b = BotPlaying
         then mget (bots (fst (ctl_stop_bots c txt w))) i = Some (stopped b)
            \<and> (case mget (links (fst (ctl_stop_bots c txt w))) i of None \<Rightarrow> True | Some l \<Rightarrow> pu_playing l = None)
         else mget (bots (fst (ctl_stop_bots c txt w))) i = Some b)"
proof -
  let ?is = "map bv_id (playing (bot_views (cx_lower (bx c)) w))"
  have eq: "ctl_stop_bots c txt w = stop_each c ?is w" using assms(2) by (simp add: ctl_stop_bots_def)
  have "\<forall>k \<in> set ?is. mget (bots w) k \<noteq> None" using playing_ids [OF assms(1)] by auto
  from stop_each_all [OF this, of c i] playing_ids [OF assms(1), of i "cx_lower (bx c)"] show ?thesis
    unfolding eq by (cases "mget (bots w) i") auto
qed

section \<open>Who may command\<close>

text \<open>C36. A connection to the control channel changes something only if it presents the token of the listener and
  asks for one of the four commands that act; everything else, \<open>status\<close>, \<open>online\<close>, a malformed request, a
  wrong token, an unknown command or missing arguments, leaves the whole server as it was.\<close>

theorem control_needs_the_token:
  assumes "fst (serve_control secret pr c vp p w) \<noteq> w"
  shows "\<exists>q. p = Some q \<and> cr_token q = secret \<and> cr_command q \<in> {''reload'', ''kick'', ''notice'', ''bot.stop''}
    \<and> (cr_command q \<noteq> ''reload'' \<longrightarrow> \<not> ra_empty (cr_args q))"
  using assms
  by (auto simp: serve_control_def dispatch_control_def with_args_def decode_args_def split: option.splits if_splits)

section \<open>Kicking from the panel\<close>

lemma spares_broadcast: "spares w w1 \<Longrightarrow> spares w (broadcast ty p ex w1)"
proof -
  have "spares w1 (broadcast ty p ex w1)"
    by (auto simp: spares_def broadcast_def push_all_spares push_all_closed)
  then show "spares w w1 \<Longrightarrow> spares w (broadcast ty p ex w1)" by (blast intro: spares_trans)
qed

text \<open>A kick from the panel always disconnects the user it names, whatever their rank, and closes no other
  session but those too slow to take the announcement; without such a user nothing happens.\<close>

theorem panel_kick_hits_its_target:
  assumes "session_named (srv w) (trim_space (ka_client a)) = v"
  shows "(case v of None \<Rightarrow> ctl_kick c a w = (w, Some CtlNotOnline)
      | Some r \<Rightarrow> snd (ctl_kick c a w) = None \<and> s_closed (heap (srv (fst (ctl_kick c a w))) r))
    \<and> (s_closed (heap (srv (fst (ctl_kick c a w))) x) \<longrightarrow> s_closed (heap (srv w) x)
        \<or> s_reason (heap (srv (fst (ctl_kick c a w))) x) = ReasonSlow
        \<or> v = Some x \<and> s_reason (heap (srv (fst (ctl_kick c a w))) x) = ReasonKicked)"
proof (cases v)
  case None
  with assms show ?thesis by (simp add: ctl_kick_def)
next
  case (Some r)
  let ?s = "srv w"
  let ?ev = "PModeration \<lparr>mo_uuid = s_uuid (heap ?s r), mo_username = s_username (heap ?s r), mo_by_uuid = [],
      mo_by_username = admin_panel, mo_reason = ka_reason a, mo_expires_at = 0\<rparr>"
  define s1 where "s1 = broadcast ''user.kicked'' ?ev (s_uuid (heap ?s r)) (send_message r ''user.kicked'' [] ?ev ?s)"
  define s2 where "s2 = close_session r ReasonKicked s1"
  have w': "srv (fst (ctl_kick c a w)) = ctl_log c (panel_entry ''kick'' (s_uuid (heap ?s r)) (s_username (heap s2 r)) (ka_reason a)) s2"
    "snd (ctl_kick c a w) = None"
    using assms Some by (simp_all add: ctl_kick_def Let_def s1_def s2_def)
  have sp: "spares ?s s1" unfolding s1_def by (intro spares_broadcast spares_intros spares_refl)
  then have slow: "s_closed (heap s1 y) \<Longrightarrow> s_closed (heap ?s y) \<or> s_reason (heap s1 y) = ReasonSlow" for y
    unfolding spares_def by metis
  have h: "heap (srv (fst (ctl_kick c a w))) y = (if y = r then close_with ReasonKicked (heap s1 r) else heap s1 y)" for y
    by (simp add: w' ctl_log_def set_acc_def s2_def close_session_def heap_at_session)
  have "s_closed (heap (srv (fst (ctl_kick c a w))) r)" by (simp add: h)
  moreover have "s_closed (heap (srv (fst (ctl_kick c a w))) x) \<longrightarrow> s_closed (heap ?s x)
      \<or> s_reason (heap (srv (fst (ctl_kick c a w))) x) = ReasonSlow
      \<or> r = x \<and> s_reason (heap (srv (fst (ctl_kick c a w))) x) = ReasonKicked"
    using slow [of x] by (auto simp: h close_with_def)
  ultimately show ?thesis using Some w'(2) by simp
qed

section \<open>Witnesses\<close>

definition desk :: process where
  "desk = \<lparr>pr_version = ''1'', pr_pid = 1, pr_started = 0, pr_goroutines = 9, pr_heap = 0\<rparr>"

theorem panel_kick_hits_its_target_witness:
  "s_closed (heap (srv (fst (ctl_kick (bot_call0 [] []) \<lparr>ka_client = runes '' bob '', ka_reason = []\<rparr> hall_site))) 1)"
proof -
  have "session_named (srv hall_site) (trim_space (runes '' bob '')) = Some 1"
    by (simp add: session_named_def hall_site_def bots_site_def bots_start_def runes_def trim_space_def trim_by_def is_space_def)
  then show ?thesis
    using panel_kick_hits_its_target [of hall_site "\<lparr>ka_client = runes '' bob '', ka_reason = []\<rparr>" "Some 1" "bot_call0 [] []"]
    by simp
qed

definition loud_site :: site where
  "loud_site = hall_site\<lparr>bots := [(''b'', dj_in_hall\<lparr>b_state := BotPlaying\<rparr>)]\<rparr>"

lemma loud_site_ok: "bots_ok loud_site"
  using hall_site_ok by (auto simp: bots_ok_def loud_site_def wf_map_def hall_site_def)

definition stop_b :: control_request where
  "stop_b = \<lparr>cr_token = ''k'', cr_command = ''bot.stop'',
     cr_args = \<lparr>ra_empty = False, ra_kick = None, ra_notice = None, ra_stop = Some (runes ''b'')\<rparr>\<rparr>"

theorem control_needs_the_token_witness:
  "cr_token stop_b = ''k'' \<and> fst (serve_control ''k'' desk (bot_call0 [] []) (\<lambda>_. True) (Some stop_b) loud_site) \<noteq> loud_site"
proof -
  let ?w = "fst (stop_each (bot_call0 [] []) [''b''] loud_site)"
  have "mget (bots ?w) ''b'' = Some (stopped (dj_in_hall\<lparr>b_state := BotPlaying\<rparr>))"
    using stop_each_all [of "[''b'']" loud_site "bot_call0 [] []" "''b''"] by (simp add: loud_site_def)
  moreover have "mget (bots loud_site) ''b'' = Some (dj_in_hall\<lparr>b_state := BotPlaying\<rparr>)" by (simp add: loud_site_def)
  moreover have "stopped (dj_in_hall\<lparr>b_state := BotPlaying\<rparr>) \<noteq> dj_in_hall\<lparr>b_state := BotPlaying\<rparr>"
    by (rule stopped_differs) simp
  ultimately have "?w \<noteq> loud_site" by force
  moreover have "fst (serve_control ''k'' desk (bot_call0 [] []) (\<lambda>_. True) (Some stop_b) loud_site) = ?w"
    by (simp add: serve_control_def dispatch_control_def with_args_def decode_args_def stop_b_def ctl_stop_bots_def
        bot_named_def loud_site_def runes_def trim_space_def trim_by_def is_space_def del: stop_each.simps split: prod.split option.split)
  ultimately have "fst (serve_control ''k'' desk (bot_call0 [] []) (\<lambda>_. True) (Some stop_b) loud_site) \<noteq> loud_site" by simp
  with control_needs_the_token [OF this] show ?thesis by auto
qed

theorem stop_bots_stops_every_bot_witness:
  "mget (bots (fst (ctl_stop_bots (bot_call0 [] []) [] loud_site))) ''b'' = Some (stopped (dj_in_hall\<lparr>b_state := BotPlaying\<rparr>))"
  using stop_bots_stops_every_bot [OF loud_site_ok, of "[]" "bot_call0 [] []" "''b''"]
  by (simp add: loud_site_def trim_space_def trim_by_def)

lemma reload_succeeds:
  assumes "t_settings (db_of (srv w)) = []"
  shows "\<exists>w' res. ctl_reload (bot_call0 u t) vp w = (w', Inr res)"
proof -
  let ?c = "bot_call0 u t"
  obtain g n1 where 1: "reload_config (quiet_env u 0) vp (db_of (srv w)) (cfg (srv w)) = (g, Inr n1)"
    using assms by (simp add: reload_config_def load_config_def db_load_settings_def)
  obtain m n2 where 2: "Reload (quiet_env u 0) (acc (srv w)) = (m, Inr n2)"
    by (simp add: Reload_def reload_def db_purge_sanctions_def db_list_roles_def db_list_assignments_def db_list_sanctions_def Let_def)
  have r: "\<exists>w2 n. site_reload_rooms ?c w1 = (w2, Inr n)" for w1
    by (simp add: site_reload_rooms_def db_list_rooms_def Let_def split: prod.split)
  obtain w2 n3 where 3: "site_reload_rooms ?c (on_srv (set_acc m) (on_srv (\<lambda>s. s\<lparr>cfg := g\<rparr>) w)) = (w2, Inr n3)"
    using r by blast
  obtain w3 where 4: "reload_bots ?c w2 = (w3, None)"
    by (simp add: reload_bots_def db_list_bots_def db_list_playlists_def Let_def)
  show ?thesis by (simp add: ctl_reload_def 1 2 3 4 Let_def)
qed

theorem reload_applies_the_database_witness:
  "\<exists>w' res. ctl_reload (bot_call0 [] []) (\<lambda>_. True) (bots_site\<lparr>srv := demo_start\<lparr>cfg := bot_cfg\<rparr>\<rparr>) = (w', Inr res)
     \<and> reload (quiet_env [] 0) (acc (srv w')) = Inr (acc (srv w'))"
proof -
  let ?w = "bots_site\<lparr>srv := demo_start\<lparr>cfg := bot_cfg\<rparr>\<rparr>"
  have db: "t_settings (db_of (srv ?w)) = []" "t_rooms (db_of (srv ?w)) = []"
    by (simp_all add: demo_start_def db_of_def demo_acc_def empty_db_def)
  obtain w' res where "ctl_reload (bot_call0 [] []) (\<lambda>_. True) ?w = (w', Inr res)"
    using reload_succeeds [OF db(1)] by blast
  moreover have "site_ok (cx_lower (bx (bot_call0 [] []))) ?w" using reachable_site_ok [OF site_starts] by simp
  ultimately show ?thesis using reload_applies_the_database [of "bot_call0 [] []" ?w] db(2) by fastforce
qed

end
