(* ===== verification/Migrations.thy ===== *)
theory Migrations
  imports Paths
begin

text \<open>
  The schema of the database and how it gets there: \<open>internal/storage/migrations.go\<close> and
  \<open>internal/storage/store.go\<close>. The eleven migrations are data, each a name and the SQL statements of its
  text; \<open>exec\<close> is what SQLite does for the kinds of statement they use, and \<open>migrate\<close> is the loop that brings
  a database up to date, one transaction for each migration that the ledger \<open>schema_migrations\<close> does not
  list. A row is the list of its values in the order of the columns; text is kept as its bytes.
\<close>

section \<open>Tables and statements\<close>

datatype sqlval = SText string | SInt "64 word"

datatype sqltype = TEXT | INTEGER

datatype constr =
    PrimaryKey | AutoIncrement | NotNull | Default sqlval | CheckEq sqlval | RefCascade string string

record col =
  co_name :: string
  co_type :: sqltype
  co_constraints :: "constr list"

record table =
  tb_cols :: "col list"
  tb_key :: "string list"
  tb_strict :: bool
  tb_rows :: "sqlval list list"

record index =
  ix_unique :: bool
  ix_table :: string
  ix_cols :: "(string \<times> bool) list"

record schema =
  sc_tables :: "(string, table) gomap"
  sc_indexes :: "(string, index) gomap"

definition empty_schema :: schema where
  "empty_schema = \<lparr>sc_tables = [], sc_indexes = []\<rparr>"

text \<open>In \<open>CreateIndex\<close> a column carries whether it is compared without regard to case
  (\<open>COLLATE NOCASE\<close>); the order of an index (\<open>DESC\<close>) does not change what it admits. \<open>OrInto\<close> is
  \<open>UPDATE t SET c = c | n WHERE k IN (...)\<close>.\<close>

datatype stmt =
    CreateTable string "col list" "string list" bool
  | CreateIndex bool string string "(string \<times> bool) list"
  | AddColumn string col
  | OrInto string string "64 word" string "string list"

definition fold_char :: "char \<Rightarrow> char" where
  "fold_char c = (let n = of_char c :: nat in if 65 \<le> n \<and> n \<le> 90 then char_of (n + 32) else c)"

fun fold_val :: "bool \<Rightarrow> sqlval \<Rightarrow> sqlval" where
  "fold_val True (SText s) = SText (map fold_char s)"
| "fold_val _ v = v"

definition col_names :: "table \<Rightarrow> string list" where
  "col_names t = map co_name (tb_cols t)"

fun cell :: "string list \<Rightarrow> sqlval list \<Rightarrow> string \<Rightarrow> sqlval option" where
  "cell (n # ns) (v # vs) c = (if n = c then Some v else cell ns vs c)"
| "cell _ _ _ = None"

definition index_key :: "table \<Rightarrow> (string \<times> bool) list \<Rightarrow> sqlval list \<Rightarrow> sqlval option list" where
  "index_key t cs row = map (\<lambda>(c, ci). map_option (fold_val ci) (cell (col_names t) row c)) cs"

fun default_of :: "constr list \<Rightarrow> sqlval option" where
  "default_of [] = None"
| "default_of (Default v # _) = Some v"
| "default_of (_ # cs) = default_of cs"

fun or_val :: "64 word \<Rightarrow> sqlval \<Rightarrow> sqlval" where
  "or_val n (SInt p) = SInt (p OR n)"
| "or_val _ v = v"

fun set_cell :: "string list \<Rightarrow> string \<Rightarrow> (sqlval \<Rightarrow> sqlval) \<Rightarrow> sqlval list \<Rightarrow> sqlval list" where
  "set_cell (n # ns) c f (v # vs) = (if n = c then f v # vs else v # set_cell ns c f vs)"
| "set_cell _ _ _ vs = vs"

definition selected :: "table \<Rightarrow> string \<Rightarrow> string list \<Rightarrow> sqlval list \<Rightarrow> bool" where
  "selected t k ids row \<longleftrightarrow> cell (col_names t) row k \<in> Some ` SText ` set ids"

fun exec :: "stmt \<Rightarrow> schema \<Rightarrow> schema option" where
  "exec (CreateTable n cs key strict) s =
     (if mget (sc_tables s) n \<noteq> None \<or> mget (sc_indexes s) n \<noteq> None \<or> \<not> distinct (map co_name cs) then None
      else Some (s\<lparr>sc_tables := mput n \<lparr>tb_cols = cs, tb_key = key, tb_strict = strict, tb_rows = []\<rparr> (sc_tables s)\<rparr>))"
| "exec (CreateIndex u n t cs) s =
     (case mget (sc_tables s) t of
        None \<Rightarrow> None
      | Some tb \<Rightarrow>
          if mget (sc_tables s) n \<noteq> None \<or> mget (sc_indexes s) n \<noteq> None
             \<or> \<not> list_all (\<lambda>(c, _). c \<in> set (col_names tb)) cs
             \<or> u \<and> \<not> distinct (map (index_key tb cs) (tb_rows tb)) then None
          else Some (s\<lparr>sc_indexes := mput n \<lparr>ix_unique = u, ix_table = t, ix_cols = cs\<rparr> (sc_indexes s)\<rparr>))"
| "exec (AddColumn t c) s =
     (case mget (sc_tables s) t of
        None \<Rightarrow> None
      | Some tb \<Rightarrow>
          (case default_of (co_constraints c) of
             None \<Rightarrow> None
           | Some v \<Rightarrow>
               if co_name c \<in> set (col_names tb) then None
               else Some (s\<lparr>sc_tables := mput t (tb\<lparr>tb_cols := tb_cols tb @ [c],
                        tb_rows := map (\<lambda>r. r @ [v]) (tb_rows tb)\<rparr>) (sc_tables s)\<rparr>)))"
| "exec (OrInto t c n k ids) s =
     (case mget (sc_tables s) t of
        None \<Rightarrow> None
      | Some tb \<Rightarrow>
          if c \<notin> set (col_names tb) \<or> k \<notin> set (col_names tb) then None
          else Some (s\<lparr>sc_tables := mput t (tb\<lparr>tb_rows :=
                   map (\<lambda>r. if selected tb k ids r then set_cell (col_names tb) c (or_val n) r else r) (tb_rows tb)\<rparr>)
                 (sc_tables s)\<rparr>))"

fun exec_all :: "stmt list \<Rightarrow> schema \<Rightarrow> schema option" where
  "exec_all [] s = Some s"
| "exec_all (d # ds) s = (case exec d s of None \<Rightarrow> None | Some s' \<Rightarrow> exec_all ds s')"

section \<open>The migrations\<close>

type_synonym migration = "string \<times> stmt list"

abbreviation text_key :: "string \<Rightarrow> col" where
  "text_key n \<equiv> \<lparr>co_name = n, co_type = TEXT, co_constraints = [PrimaryKey]\<rparr>"

abbreviation text_col :: "string \<Rightarrow> col" where
  "text_col n \<equiv> \<lparr>co_name = n, co_type = TEXT, co_constraints = [NotNull]\<rparr>"

abbreviation text_default :: "string \<Rightarrow> string \<Rightarrow> col" where
  "text_default n v \<equiv> \<lparr>co_name = n, co_type = TEXT, co_constraints = [NotNull, Default (SText v)]\<rparr>"

abbreviation int_col :: "string \<Rightarrow> col" where
  "int_col n \<equiv> \<lparr>co_name = n, co_type = INTEGER, co_constraints = [NotNull]\<rparr>"

abbreviation int_default :: "string \<Rightarrow> 64 word \<Rightarrow> col" where
  "int_default n v \<equiv> \<lparr>co_name = n, co_type = INTEGER, co_constraints = [NotNull, Default (SInt v)]\<rparr>"

definition m_settings :: migration where
  "m_settings = (''0001_settings'',
     [CreateTable ''settings'' [text_key ''key'', text_col ''value'', int_col ''updated_at''] [] True])"

definition m_server_identity :: migration where
  "m_server_identity = (''0002_server_identity'',
     [CreateTable ''server_identity''
        [\<lparr>co_name = ''id'', co_type = INTEGER, co_constraints = [PrimaryKey, CheckEq (SInt 1)]\<rparr>,
         text_col ''server_uuid'', int_col ''created_at''] [] True])"

definition m_users :: migration where
  "m_users = (''0003_users'',
     [CreateTable ''users''
        [text_key ''client_uuid'', text_col ''username'', int_col ''first_seen_at'', int_col ''last_seen_at'',
         int_default ''visit_count'' 1, text_default ''note'' []] [] True,
      CreateIndex False ''idx_users_last_seen'' ''users'' [(''last_seen_at'', False)]])"

definition m_rooms :: migration where
  "m_rooms = (''0004_rooms'',
     [CreateTable ''rooms''
        [text_key ''id'', text_col ''name'', text_default ''password'' [], int_col ''capacity'',
         int_default ''position'' 0, int_col ''created_at'', int_col ''updated_at''] [] True,
      CreateIndex True ''idx_rooms_name'' ''rooms'' [(''name'', True)]])"

definition m_roles :: migration where
  "m_roles = (''0005_roles_and_sanctions'',
     [CreateTable ''roles''
        [text_key ''id'', text_col ''name'', int_default ''permissions'' 0, int_default ''priority'' 0,
         text_default ''color'' [], int_default ''is_default'' 0, int_col ''created_at''] [] True,
      CreateIndex True ''idx_roles_name'' ''roles'' [(''name'', True)],
      CreateTable ''user_roles''
        [text_col ''client_uuid'',
         \<lparr>co_name = ''role_id'', co_type = TEXT, co_constraints = [NotNull, RefCascade ''roles'' ''id'']\<rparr>,
         text_default ''granted_by'' [], int_col ''granted_at''] [''client_uuid'', ''role_id''] True,
      CreateTable ''sanctions''
        [text_key ''id'', text_col ''client_uuid'', text_col ''kind'', text_default ''reason'' [],
         text_default ''username'' [], text_default ''created_by'' [], int_col ''created_at'',
         int_default ''expires_at'' 0] [] True,
      CreateIndex True ''idx_sanctions_target'' ''sanctions'' [(''client_uuid'', False), (''kind'', False)],
      CreateTable ''mod_log''
        [\<lparr>co_name = ''id'', co_type = INTEGER, co_constraints = [PrimaryKey, AutoIncrement]\<rparr>, int_col ''at'',
         text_default ''actor_uuid'' [], text_default ''actor_name'' [], text_col ''action'',
         text_default ''target_uuid'' [], text_default ''target_name'' [], text_default ''detail'' []] [] False,
      CreateIndex False ''idx_mod_log_at'' ''mod_log'' [(''at'', False)],
      AddColumn ''rooms'' (text_default ''required_role_id'' [])])"

definition m_media :: migration where
  "m_media = (''0006_media_permissions'',
     [OrInto ''roles'' ''permissions'' 28672 ''id'' [''role-default'', ''role-admin'']])"

definition m_paint :: migration where
  "m_paint = (''0007_paint_permission'',
     [OrInto ''roles'' ''permissions'' 32768 ''id'' [''role-default'', ''role-admin'']])"

definition m_bots :: migration where
  "m_bots = (''0008_bots'',
     [CreateTable ''bots''
        [text_key ''id'', text_col ''name'', text_default ''kind'' ''music'', text_default ''folder'' [],
         text_default ''color'' [], int_default ''loop_queue'' 1, int_default ''shuffle'' 0,
         int_default ''enabled'' 1, int_col ''created_at''] [] True,
      CreateIndex True ''idx_bots_name'' ''bots'' [(''name'', True)]])"

definition m_tag_style :: migration where
  "m_tag_style = (''0009_role_tag_style'', [AddColumn ''roles'' (text_default ''tag_style'' [])])"

definition m_manage_bots :: migration where
  "m_manage_bots = (''0010_manage_bots_permission'',
     [OrInto ''roles'' ''permissions'' 65536 ''id'' [''role-admin'']])"

definition m_playlists :: migration where
  "m_playlists = (''0011_bot_playlists'',
     [CreateTable ''bot_playlists''
        [text_key ''id'', text_col ''bot_id'', text_col ''name'', int_col ''created_at''] [] True,
      CreateIndex True ''idx_bot_playlists_name'' ''bot_playlists'' [(''bot_id'', False), (''name'', True)],
      CreateIndex False ''idx_bot_playlists_bot'' ''bot_playlists'' [(''bot_id'', False)],
      AddColumn ''bots'' (text_default ''playlist_id'' [])])"

definition migrations :: "migration list" where
  "migrations = [m_settings, m_server_identity, m_users, m_rooms, m_roles, m_media, m_paint, m_bots,
     m_tag_style, m_manage_bots, m_playlists]"

section \<open>Bringing a database up to date\<close>

text \<open>The ledger is the table \<open>schema_migrations\<close>: the name of each migration applied and when; it does not
  exist in a new file. Every call of the driver may fail, and a failed transaction leaves nothing behind.\<close>

record store =
  st_schema :: schema
  st_ledger :: "(string \<times> int) list option"

datatype migcall =
  MkLedger | ReadLedger | BeginTx string | ExecTx string | RecordTx string | CommitTx string | Ping | MkDataDir

record migenv =
  mig_fails :: "migcall \<Rightarrow> bool"
  mig_now :: int

datatype mig_error =
    NoLedger | LedgerUnread | CannotBegin string | CannotApply string | CannotRecord string
  | CannotCommit string | NoPing | NoDataDir

definition ledger_names :: "store \<Rightarrow> string list" where
  "ledger_names s = map fst (case st_ledger s of None \<Rightarrow> [] | Some l \<Rightarrow> l)"

definition run_migration :: "migenv \<Rightarrow> migration \<Rightarrow> store \<Rightarrow> mig_error + store" where
  "run_migration e m s =
     (if mig_fails e (BeginTx (fst m)) then Inl (CannotBegin (fst m))
      else case (if mig_fails e (ExecTx (fst m)) then None else exec_all (snd m) (st_schema s)) of
        None \<Rightarrow> Inl (CannotApply (fst m))
      | Some sc \<Rightarrow>
          if mig_fails e (RecordTx (fst m)) \<or> fst m \<in> set (ledger_names s) then Inl (CannotRecord (fst m))
          else if mig_fails e (CommitTx (fst m)) then Inl (CannotCommit (fst m))
          else Inr (s\<lparr>st_schema := sc,
                 st_ledger := map_option (\<lambda>l. l @ [(fst m, unix (mig_now e))]) (st_ledger s)\<rparr>))"

fun run_pending :: "migenv \<Rightarrow> string list \<Rightarrow> migration list \<Rightarrow> store \<Rightarrow> store \<times> mig_error option" where
  "run_pending e applied [] s = (s, None)"
| "run_pending e applied (m # ms) s =
     (if fst m \<in> set applied then run_pending e applied ms s
      else case run_migration e m s of
        Inl err \<Rightarrow> (s, Some err)
      | Inr s' \<Rightarrow> run_pending e applied ms s')"

definition make_ledger :: "store \<Rightarrow> store" where
  "make_ledger s = s\<lparr>st_ledger := Some (case st_ledger s of None \<Rightarrow> [] | Some l \<Rightarrow> l)\<rparr>"

definition migrate :: "migenv \<Rightarrow> store \<Rightarrow> store \<times> mig_error option" where
  "migrate e s =
     (if mig_fails e MkLedger then (s, Some NoLedger)
      else if mig_fails e ReadLedger then (make_ledger s, Some LedgerUnread)
      else run_pending e (ledger_names s) migrations (make_ledger s))"

section \<open>Opening the database\<close>

definition new_store :: store where
  "new_store = \<lparr>st_schema = empty_schema, st_ledger = None\<rparr>"

text \<open>\<open>Open\<close> creates the folder of the database when the path names one, asks the driver for the file
  (a missing one starts empty) and migrates it. \<open>contents\<close> is what the file holds.\<close>

definition open_store ::
  "migenv \<Rightarrow> ustring \<Rightarrow> ustring \<Rightarrow> tree \<Rightarrow> store \<Rightarrow> tree \<times> store \<times> mig_error option" where
  "open_store e cwd path t contents =
     (case (if path_dir path \<noteq> [] \<and> path_dir path \<noteq> [full_stop]
            then (if mig_fails e MkDataDir then None else mkdir_all (resolve cwd (path_dir path)) t)
            else Some t) of
        None \<Rightarrow> (t, contents, Some NoDataDir)
      | Some t' \<Rightarrow>
          if mig_fails e Ping then (t', contents, Some NoPing)
          else let (s, err) = migrate e contents in (t', s, err))"

end
