(* ===== verification/Migrations_Correct.thy ===== *)
theory Migrations_Correct
  imports Migrations
begin

text \<open>
  What the migrations guarantee. An upgrade that was interrupted anywhere is finished by the next start as
  though nothing had happened; a database that only ever went through this code, with any rows written in
  between, is never stuck and ends with the current schema; and an upgrade keeps every row, adding to the
  permissions of the two seeded roles the bits of the new features and nothing else.
\<close>

definition calm_mig :: "int \<Rightarrow> migenv" where
  "calm_mig t = \<lparr>mig_fails = \<lambda>_. False, mig_now = t\<rparr>"

lemma calm_mig_simps [simp]: "mig_fails (calm_mig t) c = False"
  by (simp add: calm_mig_def)

section \<open>Starting again after an interruption\<close>

text \<open>Two databases that differ at most in when a migration was applied.\<close>

definition same_store :: "store \<Rightarrow> store \<Rightarrow> bool" where
  "same_store a b \<longleftrightarrow> st_schema a = st_schema b
     \<and> map_option (map fst) (st_ledger a) = map_option (map fst) (st_ledger b)"

lemma same_store_refl [simp]: "same_store a a"
  by (simp add: same_store_def)

lemma same_store_trans: "same_store a b \<Longrightarrow> same_store b c \<Longrightarrow> same_store a c"
  by (simp add: same_store_def)

lemma same_store_names: "same_store a b \<Longrightarrow> ledger_names a = ledger_names b"
  by (cases "st_ledger a"; cases "st_ledger b"; simp add: same_store_def ledger_names_def)

lemma run_migration_names:
  "run_migration e m s = Inr s' \<Longrightarrow> st_ledger s \<noteq> None \<Longrightarrow>
   ledger_names s' = ledger_names s @ [fst m] \<and> st_ledger s' \<noteq> None"
  by (auto simp: run_migration_def ledger_names_def split: if_splits option.splits)

lemma run_migration_same:
  assumes "same_store a b"
  shows "rel_sum (=) same_store (run_migration (calm_mig t) m a) (run_migration (calm_mig t') m b)"
proof (cases "exec_all (snd m) (st_schema a)")
  case None
  then show ?thesis using assms by (simp add: run_migration_def same_store_def)
next
  case (Some sc)
  moreover have "exec_all (snd m) (st_schema b) = Some sc" using Some assms by (simp add: same_store_def)
  ultimately show ?thesis using assms same_store_names [OF assms]
    by (cases "st_ledger a"; cases "st_ledger b"; simp add: run_migration_def same_store_def)
qed

definition alike :: "store \<times> mig_error option \<Rightarrow> store \<times> mig_error option \<Rightarrow> bool" where
  "alike x y \<longleftrightarrow> same_store (fst x) (fst y) \<and> snd x = snd y"

lemma run_pending_same:
  "same_store a b \<Longrightarrow> \<forall>m \<in> set ms. fst m \<in> set A \<longleftrightarrow> fst m \<in> set B \<Longrightarrow>
   alike (run_pending (calm_mig t) A ms a) (run_pending (calm_mig t') B ms b)"
proof (induction ms arbitrary: a b)
  case (Cons m ms)
  show ?case
  proof (cases "fst m \<in> set A")
    case True
    then show ?thesis using Cons by simp
  next
    case False
    then have B: "fst m \<notin> set B" using Cons.prems(2) by simp
    show ?thesis
      using run_migration_same [OF Cons.prems(1), of t m t'] False B Cons
      by (auto simp: alike_def rel_sum_simps split: sum.splits)
  qed
qed (simp add: alike_def)

lemma run_pending_grows:
  "st_ledger s \<noteq> None \<Longrightarrow>
   set (ledger_names s) \<subseteq> set (ledger_names (fst (run_pending e A ms s))) \<and> st_ledger (fst (run_pending e A ms s)) \<noteq> None"
proof (induction ms arbitrary: s)
  case (Cons m ms)
  show ?case
  proof (cases "run_migration e m s")
    case (Inr s')
    then show ?thesis using Cons run_migration_names [OF Inr] by fastforce
  qed (use Cons in auto)
qed simp

lemma run_pending_resumes:
  assumes "st_ledger s \<noteq> None" "distinct (map fst ms)"
    "\<forall>m \<in> set ms. fst m \<in> set (ledger_names s) \<longleftrightarrow> fst m \<in> set A"
  shows "let s1 = fst (run_pending e A ms s) in
    alike (run_pending (calm_mig t) (ledger_names s1) ms s1) (run_pending (calm_mig t') A ms s)"
  using assms
proof (induction ms arbitrary: s)
  case (Cons m ms)
  have dist: "distinct (map fst ms)" and new: "\<forall>x \<in> set ms. fst x \<noteq> fst m"
    using Cons.prems(2) by (auto simp: image_iff)
  show ?case
  proof (cases "fst m \<in> set A")
    case True
    then have "fst m \<in> set (ledger_names s)" using Cons.prems(3) by simp
    then have "fst m \<in> set (ledger_names (fst (run_pending e A ms s)))"
      using run_pending_grows [OF Cons.prems(1)] by blast
    then show ?thesis using Cons.IH [OF Cons.prems(1) dist] Cons.prems(3) True by (simp add: Let_def)
  next
    case False
    show ?thesis
    proof (cases "run_migration e m s")
      case (Inl err)
      then show ?thesis
        using False run_pending_same [OF same_store_refl Cons.prems(3), where t = t and t' = t'] by (simp add: Let_def)
    next
      case (Inr s')
      let ?s1 = "fst (run_pending e A ms s')"
      note names = run_migration_names [OF Inr Cons.prems(1)]
      have agree: "\<forall>x \<in> set ms. fst x \<in> set (ledger_names s') \<longleftrightarrow> fst x \<in> set A"
        using names new Cons.prems(3) by auto
      have step: "alike (run_pending (calm_mig t) (ledger_names ?s1) ms ?s1) (run_pending (calm_mig t') A ms s')"
        using Cons.IH [OF _ dist agree] names by (simp add: Let_def)
      have past: "fst m \<in> set (ledger_names ?s1)"
        using run_pending_grows [of s' e A ms] names by auto
      obtain s'' where s'': "run_migration (calm_mig t') m s = Inr s''" and same: "same_store s' s''"
      proof -
        have "\<exists>x. run_migration (calm_mig t') m s = Inr x \<and> same_store s' x"
          using Inr by (auto simp: run_migration_def same_store_def option.map_comp comp_def
            split: if_splits option.splits)
        then show ?thesis using that by blast
      qed
      have "alike (run_pending (calm_mig t') A ms s') (run_pending (calm_mig t') A ms s'')"
        by (rule run_pending_same [OF same]) simp
      then have "alike (run_pending (calm_mig t) (ledger_names ?s1) ms ?s1) (run_pending (calm_mig t') A ms s'')"
        using step same_store_trans by (auto simp: alike_def)
      then show ?thesis using False Inr s'' past by (simp add: Let_def)
    qed
  qed
qed (simp add: alike_def Let_def)

lemma migration_names_distinct: "distinct (map fst migrations)"
  by code_simp

lemma make_ledger_simps [simp]:
  "ledger_names (make_ledger s) = ledger_names s" "st_ledger (make_ledger s) \<noteq> None"
  "st_schema (make_ledger s) = st_schema s"
  by (auto simp: make_ledger_def ledger_names_def split: option.split)

lemma make_ledger_same: "st_ledger s \<noteq> None \<Longrightarrow> make_ledger s = s"
  by (auto simp: make_ledger_def)

lemma migrate_calm: "migrate (calm_mig t) s = run_pending (calm_mig t) (ledger_names s) migrations (make_ledger s)"
  by (simp add: migrate_def)

text \<open>C15. However an upgrade was interrupted, by any call of the database that failed, the next start leaves
  the database and reports exactly what one undisturbed upgrade would have, up to the times it notes.\<close>

theorem interrupted_migration_resumes:
  "alike (migrate (calm_mig t) (fst (migrate e s))) (migrate (calm_mig t') s)"
proof -
  have agree: "alike (run_pending (calm_mig t) (ledger_names s) migrations (make_ledger s))
      (run_pending (calm_mig t') (ledger_names s) migrations (make_ledger s))"
    by (rule run_pending_same) simp_all
  consider "mig_fails e MkLedger" | "\<not> mig_fails e MkLedger" "mig_fails e ReadLedger"
    | "\<not> mig_fails e MkLedger" "\<not> mig_fails e ReadLedger" by blast
  then show ?thesis
  proof cases
    case 1
    then have "fst (migrate e s) = s" by (simp add: migrate_def)
    with agree show ?thesis by (simp add: migrate_calm)
  next
    case 2
    then have "fst (migrate e s) = make_ledger s" by (simp add: migrate_def)
    with agree show ?thesis by (simp add: migrate_calm make_ledger_same)
  next
    case 3
    let ?s1 = "fst (run_pending e (ledger_names s) migrations (make_ledger s))"
    have "fst (migrate e s) = ?s1" using 3 by (simp add: migrate_def)
    moreover have "make_ledger ?s1 = ?s1"
      using run_pending_grows [of "make_ledger s"] by (intro make_ledger_same) simp
    ultimately show ?thesis
      using run_pending_resumes [of "make_ledger s" migrations "ledger_names s" e t t'] migration_names_distinct
      by (simp add: migrate_calm Let_def)
  qed
qed

section \<open>The shape of the database\<close>

definition bare :: "table \<Rightarrow> table" where
  "bare t = t\<lparr>tb_rows := []\<rparr>"

definition shape :: "schema \<Rightarrow> schema" where
  "shape s = s\<lparr>sc_tables := map (\<lambda>(n, t). (n, bare t)) (sc_tables s)\<rparr>"

primrec shape_at :: "nat \<Rightarrow> schema" where
  "shape_at 0 = empty_schema"
| "shape_at (Suc k) = (case exec_all (snd (migrations ! k)) (shape_at k) of None \<Rightarrow> shape_at k | Some s \<Rightarrow> s)"

definition current_shape :: schema where
  "current_shape = shape_at (length migrations)"

lemma mget_shape: "mget (sc_tables (shape s)) n = map_option bare (mget (sc_tables s) n)"
  by (simp add: shape_def mget_map_snd)

lemma shape_simps [simp]: "sc_indexes (shape s) = sc_indexes s"
  by (simp add: shape_def)

lemma bare_simps [simp]: "tb_cols (bare t) = tb_cols t" "tb_rows (bare t) = []" "col_names (bare t) = col_names t"
  by (simp_all add: bare_def col_names_def)

lemma shape_put: "shape (s\<lparr>sc_tables := mput n t (sc_tables s)\<rparr>) = (shape s)\<lparr>sc_tables := mput n (bare t) (sc_tables (shape s))\<rparr>"
proof -
  have "map (\<lambda>(n, t). (n, bare t)) (mput n t m) = mput n (bare t) (map (\<lambda>(n, t). (n, bare t)) m)" for m
    by (induction m) auto
  then show ?thesis by (simp add: shape_def)
qed

text \<open>A unique index of a migration stands on a table the same migration has created, so no row can be in
  its way.\<close>

fun on_new_tables :: "string list \<Rightarrow> stmt list \<Rightarrow> bool" where
  "on_new_tables ns [] \<longleftrightarrow> True"
| "on_new_tables ns (CreateTable n _ _ _ # ds) \<longleftrightarrow> on_new_tables (n # ns) ds"
| "on_new_tables ns (CreateIndex u _ t _ # ds) \<longleftrightarrow> (u \<longrightarrow> t \<in> set ns) \<and> on_new_tables ns ds"
| "on_new_tables ns (_ # ds) \<longleftrightarrow> on_new_tables ns ds"

definition unfilled :: "schema \<Rightarrow> string list \<Rightarrow> bool" where
  "unfilled s ns \<longleftrightarrow> (\<forall>n t. n \<in> set ns \<longrightarrow> mget (sc_tables s) n = Some t \<longrightarrow> tb_rows t = [])"

lemma exec_shape:
  assumes "exec d (shape s) = Some x" "on_new_tables ns (d # ds)" "unfilled s ns"
  obtains s' ns' where "exec d s = Some s'" "shape s' = x" "on_new_tables ns' ds" "unfilled s' ns'"
proof (cases d)
  case (CreateTable n cs key strict)
  let ?t = "\<lparr>tb_cols = cs, tb_key = key, tb_strict = strict, tb_rows = []\<rparr>"
  have "exec d s = Some (s\<lparr>sc_tables := mput n ?t (sc_tables s)\<rparr>)"
    using assms(1) CreateTable by (simp add: mget_shape split: if_splits)
  moreover have "shape (s\<lparr>sc_tables := mput n ?t (sc_tables s)\<rparr>) = x"
    using assms(1) CreateTable by (auto simp: shape_put bare_def split: if_splits)
  moreover have "unfilled (s\<lparr>sc_tables := mput n ?t (sc_tables s)\<rparr>) (n # ns)"
    using assms(3) by (auto simp: unfilled_def)
  ultimately show ?thesis using that [of _ "n # ns"] assms(2) CreateTable by simp
next
  case (CreateIndex u n t cs)
  obtain tb where tb: "mget (sc_tables s) t = Some tb"
    using assms(1) CreateIndex by (auto simp: mget_shape split: option.splits)
  have "u \<Longrightarrow> tb_rows tb = []" using assms(2,3) CreateIndex tb by (auto simp: unfilled_def)
  then have "exec d s = Some (s\<lparr>sc_indexes := mput n \<lparr>ix_unique = u, ix_table = t, ix_cols = cs\<rparr> (sc_indexes s)\<rparr>)"
    using assms(1) CreateIndex tb by (auto simp: mget_shape split: if_splits)
  moreover have "shape (s\<lparr>sc_indexes := mput n \<lparr>ix_unique = u, ix_table = t, ix_cols = cs\<rparr> (sc_indexes s)\<rparr>) = x"
  proof -
    have "x = (shape s)\<lparr>sc_indexes := mput n \<lparr>ix_unique = u, ix_table = t, ix_cols = cs\<rparr> (sc_indexes s)\<rparr>"
      using assms(1) CreateIndex tb by (auto simp: mget_shape split: if_splits)
    then show ?thesis by (simp add: shape_def)
  qed
  ultimately show ?thesis using that [of _ ns] assms(2,3) CreateIndex by (simp add: unfilled_def)
next
  case (AddColumn t c)
  obtain tb where tb: "mget (sc_tables s) t = Some tb"
    using assms(1) AddColumn by (auto simp: mget_shape split: option.splits)
  obtain v where v: "default_of (co_constraints c) = Some v"
    using assms(1) AddColumn tb by (auto simp: mget_shape split: option.splits)
  let ?t = "tb\<lparr>tb_cols := tb_cols tb @ [c], tb_rows := map (\<lambda>r. r @ [v]) (tb_rows tb)\<rparr>"
  have "exec d s = Some (s\<lparr>sc_tables := mput t ?t (sc_tables s)\<rparr>)"
    using assms(1) AddColumn tb v by (simp add: mget_shape split: if_splits)
  moreover have "shape (s\<lparr>sc_tables := mput t ?t (sc_tables s)\<rparr>) = x"
    using assms(1) AddColumn tb v by (auto simp: shape_put mget_shape bare_def split: if_splits)
  moreover have "unfilled (s\<lparr>sc_tables := mput t ?t (sc_tables s)\<rparr>) ns"
    using assms(3) tb by (auto simp: unfilled_def)
  ultimately show ?thesis using that [of _ ns] assms(2) AddColumn by simp
next
  case (OrInto t c n k ids)
  obtain tb where tb: "mget (sc_tables s) t = Some tb"
    using assms(1) OrInto by (auto simp: mget_shape split: option.splits)
  let ?t = "tb\<lparr>tb_rows := map (\<lambda>r. if selected tb k ids r then set_cell (col_names tb) c (or_val n) r else r) (tb_rows tb)\<rparr>"
  have "exec d s = Some (s\<lparr>sc_tables := mput t ?t (sc_tables s)\<rparr>)"
    using assms(1) OrInto tb by (simp add: mget_shape split: if_splits)
  moreover have "shape (s\<lparr>sc_tables := mput t ?t (sc_tables s)\<rparr>) = x"
    using assms(1) OrInto tb by (auto simp: shape_put mget_shape bare_def split: if_splits)
  moreover have "unfilled (s\<lparr>sc_tables := mput t ?t (sc_tables s)\<rparr>) ns"
    using assms(3) tb by (auto simp: unfilled_def)
  ultimately show ?thesis using that [of _ ns] assms(2) OrInto by simp
qed

lemma exec_all_shape:
  "exec_all ds (shape s) = Some x \<Longrightarrow> on_new_tables ns ds \<Longrightarrow> unfilled s ns \<Longrightarrow>
   \<exists>s'. exec_all ds s = Some s' \<and> shape s' = x"
proof (induction ds arbitrary: s ns)
  case (Cons d ds)
  obtain y where y: "exec d (shape s) = Some y" using Cons.prems(1) by (cases "exec d (shape s)") auto
  obtain s' ns' where "exec d s = Some s'" "shape s' = y" "on_new_tables ns' ds" "unfilled s' ns'"
    by (rule exec_shape [OF y Cons.prems(2,3)])
  then show ?case using Cons.IH [of s' ns'] Cons.prems(1) y by simp
qed simp

lemma migrations_apply:
  "list_all (\<lambda>k. exec_all (snd (migrations ! k)) (shape_at k) \<noteq> None \<and> on_new_tables [] (snd (migrations ! k))) [0..<11]"
  by code_simp

lemma migrations_length: "length migrations = 11"
  by (simp add: migrations_def)

lemma next_shape:
  assumes "k < length migrations" "shape s = shape_at k"
  shows "\<exists>s'. exec_all (snd (migrations ! k)) s = Some s' \<and> shape s' = shape_at (Suc k)"
proof -
  have ok: "exec_all (snd (migrations ! k)) (shape_at k) \<noteq> None" "on_new_tables [] (snd (migrations ! k))"
    using migrations_apply assms(1) by (simp_all add: list_all_iff migrations_length)
  then have "exec_all (snd (migrations ! k)) (shape s) = Some (shape_at (Suc k))" using assms(2) by auto
  then show ?thesis by (rule exec_all_shape [OF _ ok(2)]) (simp add: unfilled_def)
qed

section \<open>The rows of the database\<close>

text \<open>The bits the migrations may add to a seeded role: what 0006, 0007 and 0010 hand out.\<close>

definition seeded_bits :: "string \<Rightarrow> 64 word" where
  "seeded_bits i =
     (if i = role_id_default then perm_speak OR perm_publish_video OR perm_share_screen OR perm_paint
      else if i = role_id_admin then perm_speak OR perm_publish_video OR perm_share_screen OR perm_paint OR perm_manage_bots
      else 0)"

fun row_bits :: "string \<Rightarrow> sqlval list \<Rightarrow> 64 word" where
  "row_bits n (SText i # _) = (if n = ''roles'' then seeded_bits i else 0)"
| "row_bits _ _ = 0"

text \<open>A value of the column \<open>permissions\<close> may only gain bits of the mask; every other value stays.\<close>

fun gains :: "64 word \<Rightarrow> sqlval \<Rightarrow> sqlval \<Rightarrow> bool" where
  "gains m (SInt p) (SInt q) \<longleftrightarrow> p AND q = p \<and> q AND NOT m = p AND NOT m"
| "gains _ v w \<longleftrightarrow> v = w"

fun row_kept :: "64 word \<Rightarrow> string list \<Rightarrow> sqlval list \<Rightarrow> sqlval list \<Rightarrow> bool" where
  "row_kept m (n # ns) (v # vs) (w # ws) \<longleftrightarrow>
     (if n = ''permissions'' then gains m v w else v = w) \<and> row_kept m ns vs ws"
| "row_kept _ _ [] _ \<longleftrightarrow> True"
| "row_kept _ _ _ _ \<longleftrightarrow> False"

definition table_kept :: "string \<Rightarrow> table \<Rightarrow> table \<Rightarrow> bool" where
  "table_kept n t t' \<longleftrightarrow> prefix (tb_cols t) (tb_cols t')
     \<and> list_all2 (\<lambda>r r'. row_kept (row_bits n r) (col_names t) r r') (tb_rows t) (tb_rows t')"

definition keeps_data :: "schema \<Rightarrow> schema \<Rightarrow> bool" where
  "keeps_data s s' \<longleftrightarrow>
     list_all (\<lambda>n. case mget (sc_tables s) n of None \<Rightarrow> True
       | Some t \<Rightarrow> (case mget (sc_tables s') n of None \<Rightarrow> False | Some t' \<Rightarrow> table_kept n t t')) (keys (sc_tables s))"

definition well_rows :: "schema \<Rightarrow> bool" where
  "well_rows s \<longleftrightarrow>
     list_all (\<lambda>n. case mget (sc_tables s) n of None \<Rightarrow> True
       | Some t \<Rightarrow> list_all (\<lambda>r. length r = length (tb_cols t)) (tb_rows t)) (keys (sc_tables s))"

lemma list_all_keys:
  "list_all (\<lambda>n. case mget m n of None \<Rightarrow> True | Some t \<Rightarrow> P n t) (keys m) \<longleftrightarrow> (\<forall>n t. mget m n = Some t \<longrightarrow> P n t)"
proof -
  have "mget m n = Some t \<Longrightarrow> n \<in> fst ` set m" for n t
    by (force dest: map_of_SomeD)
  then show ?thesis by (fastforce simp: list_all_iff split: option.split)
qed

lemma keeps_data_iff:
  "keeps_data s s' \<longleftrightarrow> (\<forall>n t. mget (sc_tables s) n = Some t \<longrightarrow> (\<exists>t'. mget (sc_tables s') n = Some t' \<and> table_kept n t t'))"
  unfolding keeps_data_def list_all_keys by (fastforce split: option.splits)

lemma well_rows_iff:
  "well_rows s \<longleftrightarrow> (\<forall>n t. mget (sc_tables s) n = Some t \<longrightarrow> (\<forall>r \<in> set (tb_rows t). length r = length (tb_cols t)))"
  unfolding well_rows_def list_all_keys by (auto simp: list_all_iff)

definition roles_keyed :: "schema \<Rightarrow> bool" where
  "roles_keyed s \<longleftrightarrow> (case mget (sc_tables s) ''roles'' of None \<Rightarrow> True | Some t \<Rightarrow> take 1 (col_names t) = [''id''])"

lemma gains_refl [simp]: "gains m v v"
  by (cases v) simp_all

lemma and_chain: "p AND q = p \<Longrightarrow> q AND r = q \<Longrightarrow> p AND r = p" for p q r :: "64 word"
proof -
  assume 1: "p AND q = p" and 2: "q AND r = q"
  have "p AND (q AND r) = p" by (simp only: 1 2)
  then have "(p AND q) AND r = p" by (simp only: and.assoc)
  then show ?thesis by (simp only: 1)
qed

lemma gains_trans: "gains m u v \<Longrightarrow> gains m v w \<Longrightarrow> gains m u w"
  by (cases u; cases v; cases w) (auto intro: and_chain)

lemma row_kept_refl: "length r = length ns \<Longrightarrow> row_kept m ns r r"
  by (induction ns r rule: list_induct2') simp_all

lemma row_kept_trans: "row_kept m ns u v \<Longrightarrow> row_kept m (ns @ x) v w \<Longrightarrow> row_kept m ns u w"
proof (induction m ns u v arbitrary: w rule: row_kept.induct)
  case (1 m n ns v vs y ys)
  then show ?case using gains_trans by (cases w) (auto split: if_splits)
qed simp_all

lemma row_kept_snoc: "row_kept m ns u v \<Longrightarrow> row_kept m ns u (v @ x)"
  by (induction m ns u v rule: row_kept.induct) simp_all

lemma gains_or: "n AND NOT m = 0 \<Longrightarrow> gains m v (or_val n v)"
proof (cases v)
  case (SInt p)
  assume "n AND NOT m = 0"
  then have "(p OR n) AND NOT m = p AND NOT m" by (simp add: bit.conj_disj_distrib2)
  then show ?thesis using SInt by (simp add: bit.conj_disj_distrib)
qed simp

lemma row_kept_set_cell:
  "length r = length ns \<Longrightarrow> n AND NOT m = 0 \<Longrightarrow>
   row_kept m ns r (set_cell ns ''permissions'' (or_val n) r)"
  by (induction ns r rule: list_induct2') (simp_all add: gains_or row_kept_refl)

lemma length_set_cell [simp]: "length (set_cell ns c f r) = length r"
  by (induction ns r rule: list_induct2') simp_all

section \<open>A statement keeps what is there\<close>

definition data_ok :: "schema \<Rightarrow> bool" where
  "data_ok s \<longleftrightarrow> well_rows s \<and> roles_keyed s"

fun gentle :: "stmt \<Rightarrow> bool" where
  "gentle (CreateTable n cs _ _) \<longleftrightarrow> (n = ''roles'' \<longrightarrow> take 1 (map co_name cs) = [''id''])"
| "gentle (OrInto t c n k ids) \<longleftrightarrow>
     t = ''roles'' \<and> c = ''permissions'' \<and> k = ''id'' \<and> list_all (\<lambda>i. n AND NOT (seeded_bits i) = 0) ids"
| "gentle _ \<longleftrightarrow> True"

lemma table_kept_refl: "\<forall>r \<in> set (tb_rows t). length r = length (tb_cols t) \<Longrightarrow> table_kept n t t"
  by (simp add: table_kept_def list.rel_refl_strong row_kept_refl col_names_def)

lemma table_kept_same: "data_ok s \<Longrightarrow> mget (sc_tables s) n = Some t \<Longrightarrow> table_kept n t t"
  using table_kept_refl by (simp add: data_ok_def well_rows_iff)

lemma keeps_data_refl: "data_ok s \<Longrightarrow> keeps_data s s"
  using table_kept_same by (auto simp: keeps_data_iff)

lemma keeps_data_put:
  assumes "data_ok s" "mget (sc_tables s) n = None \<or> (\<exists>t. mget (sc_tables s) n = Some t \<and> table_kept n t t')"
  shows "keeps_data s (s\<lparr>sc_tables := mput n t' (sc_tables s)\<rparr>)"
  using assms(2) table_kept_same [OF assms(1)] by (auto simp: keeps_data_iff)

lemma data_ok_put:
  assumes "data_ok s" "\<forall>r \<in> set (tb_rows t). length r = length (tb_cols t)"
    "n = ''roles'' \<Longrightarrow> take 1 (col_names t) = [''id'']"
  shows "data_ok (s\<lparr>sc_tables := mput n t (sc_tables s)\<rparr>)"
  using assms by (auto simp: data_ok_def well_rows_iff roles_keyed_def)

lemma row_kept_or:
  assumes "take 1 ns = [''id'']" "length r = length ns" "list_all (\<lambda>i. n AND NOT (seeded_bits i) = 0) ids"
    "cell ns r ''id'' \<in> Some ` SText ` set ids"
  shows "row_kept (row_bits ''roles'' r) ns r (set_cell ns ''permissions'' (or_val n) r)"
proof -
  obtain ns' where ns: "ns = ''id'' # ns'" using assms(1) by (cases ns) auto
  then obtain v r' where r: "r = v # r'" using assms(2) by (cases r) auto
  then obtain i where "i \<in> set ids" "v = SText i" using assms(4) ns by auto
  then have "n AND NOT (row_bits ''roles'' r) = 0" using assms(3) r by (simp add: list_all_iff)
  then show ?thesis by (rule row_kept_set_cell [OF assms(2)])
qed

lemma exec_keeps:
  assumes "exec d s = Some s'" "gentle d" "data_ok s"
  shows "keeps_data s s' \<and> data_ok s'"
proof (cases d)
  case (CreateTable n cs key strict)
  let ?t = "\<lparr>tb_cols = cs, tb_key = key, tb_strict = strict, tb_rows = []\<rparr>"
  have s': "s' = s\<lparr>sc_tables := mput n ?t (sc_tables s)\<rparr>" and new: "mget (sc_tables s) n = None"
    using assms(1) CreateTable by (auto split: if_splits)
  have "data_ok s'" unfolding s'
    by (rule data_ok_put [OF assms(3)]) (use assms(2) CreateTable in \<open>auto simp: col_names_def\<close>)
  then show ?thesis using keeps_data_put [OF assms(3)] new s' by simp
next
  case (CreateIndex u n t cs)
  then have s': "sc_tables s' = sc_tables s" using assms(1) by (auto split: option.splits if_splits)
  then have "keeps_data s s' = keeps_data s s" "data_ok s' = data_ok s"
    by (simp_all add: keeps_data_iff data_ok_def well_rows_iff roles_keyed_def)
  then show ?thesis using assms(3) keeps_data_refl by simp
next
  case (AddColumn t c)
  obtain tb v where tb: "mget (sc_tables s) t = Some tb" and
    s': "s' = s\<lparr>sc_tables := mput t (tb\<lparr>tb_cols := tb_cols tb @ [c], tb_rows := map (\<lambda>r. r @ [v]) (tb_rows tb)\<rparr>) (sc_tables s)\<rparr>"
    using assms(1) AddColumn by (auto split: option.splits if_splits)
  have len: "\<forall>r \<in> set (tb_rows tb). length r = length (tb_cols tb)"
    using assms(3) tb by (auto simp: data_ok_def well_rows_iff)
  have "table_kept t tb (tb\<lparr>tb_cols := tb_cols tb @ [c], tb_rows := map (\<lambda>r. r @ [v]) (tb_rows tb)\<rparr>)"
    using len by (auto simp: table_kept_def list_all2_conv_all_nth col_names_def intro!: row_kept_snoc row_kept_refl)
  moreover have "data_ok s'" unfolding s'
  proof (rule data_ok_put [OF assms(3)])
    show "take 1 (col_names (tb\<lparr>tb_cols := tb_cols tb @ [c], tb_rows := map (\<lambda>r. r @ [v]) (tb_rows tb)\<rparr>)) = [''id'']"
      if "t = ''roles''"
      using assms(3) tb that by (cases "tb_cols tb") (auto simp: data_ok_def roles_keyed_def col_names_def)
  qed (use len in auto)
  ultimately show ?thesis using keeps_data_put [OF assms(3)] tb s' by blast
next
  case (OrInto t c n k ids)
  then have t: "t = ''roles''" "c = ''permissions''" "k = ''id''" and bits: "list_all (\<lambda>i. n AND NOT (seeded_bits i) = 0) ids"
    using assms(2) by auto
  let ?f = "\<lambda>tb r. if selected tb k ids r then set_cell (col_names tb) c (or_val n) r else r"
  obtain tb where tb: "mget (sc_tables s) t = Some tb" and
    s': "s' = s\<lparr>sc_tables := mput t (tb\<lparr>tb_rows := map (?f tb) (tb_rows tb)\<rparr>) (sc_tables s)\<rparr>"
    using assms(1) OrInto by (auto split: option.splits if_splits)
  have len: "\<forall>r \<in> set (tb_rows tb). length r = length (tb_cols tb)" and key: "take 1 (col_names tb) = [''id'']"
    using assms(3) tb t(1) by (auto simp: data_ok_def well_rows_iff roles_keyed_def)
  have row: "row_kept (row_bits t r) (col_names tb) r (?f tb r)" if "r \<in> set (tb_rows tb)" for r
    using row_kept_or [OF key _ bits, of r] row_kept_refl [of r "col_names tb"] len that
    by (auto simp: t selected_def col_names_def)
  then have "table_kept t tb (tb\<lparr>tb_rows := map (?f tb) (tb_rows tb)\<rparr>)"
    by (simp add: table_kept_def list_all2_conv_all_nth)
  moreover have "data_ok s'" unfolding s'
    by (rule data_ok_put [OF assms(3)]) (use len key in \<open>auto simp: col_names_def\<close>)
  ultimately show ?thesis using keeps_data_put [OF assms(3)] tb s' by blast
qed

lemma row_bits_kept:
  "row_kept m ns r r' \<Longrightarrow> n = ''roles'' \<Longrightarrow> take 1 ns = [''id''] \<Longrightarrow> length r = length ns \<Longrightarrow> row_bits n r' = row_bits n r"
  by (cases ns; cases r; cases r'; cases "hd r") auto

lemma table_kept_trans:
  assumes "table_kept n t u" "table_kept n u v"
    "n = ''roles'' \<Longrightarrow> take 1 (col_names t) = [''id'']" "\<forall>r \<in> set (tb_rows t). length r = length (tb_cols t)"
  shows "table_kept n t v"
proof -
  obtain x where x: "col_names u = col_names t @ x"
    using assms(1) by (auto simp: table_kept_def col_names_def prefix_def)
  have bits: "row_bits n r' = row_bits n r"
    if "row_kept (row_bits n r) (col_names t) r r'" "r \<in> set (tb_rows t)" for r r'
  proof (cases "n = ''roles''")
    case True
    then show ?thesis using row_bits_kept [OF that(1)] assms(3,4) that(2) by (simp add: col_names_def)
  next
    case False
    then have "row_bits n y = 0" for y by (cases "(n, y)" rule: row_bits.cases) auto
    then show ?thesis by simp
  qed
  have "list_all2 (\<lambda>r r'. row_kept (row_bits n r) (col_names t) r r') (tb_rows t) (tb_rows v)"
    unfolding list_all2_conv_all_nth
  proof (intro conjI allI impI)
    show "length (tb_rows t) = length (tb_rows v)"
      using assms(1,2) by (simp add: table_kept_def list_all2_conv_all_nth)
    fix i assume i: "i < length (tb_rows t)"
    then have 1: "row_kept (row_bits n (tb_rows t ! i)) (col_names t) (tb_rows t ! i) (tb_rows u ! i)"
      and 2: "row_kept (row_bits n (tb_rows u ! i)) (col_names u) (tb_rows u ! i) (tb_rows v ! i)"
      using assms(1,2) by (simp_all add: table_kept_def list_all2_conv_all_nth)
    show "row_kept (row_bits n (tb_rows t ! i)) (col_names t) (tb_rows t ! i) (tb_rows v ! i)"
      by (rule row_kept_trans [OF 1]) (use 2 bits [OF 1] i in \<open>simp add: x\<close>)
  qed
  then show ?thesis using assms(1,2) prefix_order.trans by (auto simp: table_kept_def)
qed

lemma keeps_data_trans:
  assumes "keeps_data s u" "keeps_data u v" "data_ok s"
  shows "keeps_data s v"
  unfolding keeps_data_iff
proof (intro allI impI)
  fix n t assume t: "mget (sc_tables s) n = Some t"
  obtain t' where t': "mget (sc_tables u) n = Some t'" "table_kept n t t'"
    using assms(1) t by (auto simp: keeps_data_iff)
  obtain t'' where t'': "mget (sc_tables v) n = Some t''" "table_kept n t' t''"
    using assms(2) t'(1) by (auto simp: keeps_data_iff)
  have "table_kept n t t''"
    by (rule table_kept_trans [OF t'(2) t''(2)])
      (use assms(3) t in \<open>auto simp: data_ok_def well_rows_iff roles_keyed_def\<close>)
  then show "\<exists>t'. mget (sc_tables v) n = Some t' \<and> table_kept n t t'" using t''(1) by blast
qed

lemma exec_all_keeps:
  "exec_all ds s = Some s' \<Longrightarrow> list_all gentle ds \<Longrightarrow> data_ok s \<Longrightarrow> keeps_data s s' \<and> data_ok s'"
proof (induction ds arbitrary: s)
  case (Cons d ds)
  obtain u where u: "exec d s = Some u" using Cons.prems(1) by (cases "exec d s") auto
  have 1: "keeps_data s u \<and> data_ok u" using exec_keeps [OF u] Cons.prems by simp
  then have 2: "keeps_data u s' \<and> data_ok s'" using Cons u by simp
  show ?case using keeps_data_trans [of s u s'] 1 2 Cons.prems(3) by simp
qed (simp add: keeps_data_refl)

lemma migrations_gentle: "list_all (\<lambda>m. list_all gentle (snd m)) migrations"
  by code_simp

lemma run_pending_keeps:
  "data_ok (st_schema s) \<Longrightarrow> list_all (\<lambda>m. list_all gentle (snd m)) ms \<Longrightarrow>
   keeps_data (st_schema s) (st_schema (fst (run_pending e A ms s))) \<and> data_ok (st_schema (fst (run_pending e A ms s)))"
proof (induction ms arbitrary: s)
  case (Cons m ms)
  show ?case
  proof (cases "fst m \<in> set A")
    case False
    show ?thesis
    proof (cases "run_migration e m s")
      case (Inr u)
      then have "exec_all (snd m) (st_schema s) = Some (st_schema u)"
        by (auto simp: run_migration_def split: if_splits option.splits)
      then have 1: "keeps_data (st_schema s) (st_schema u) \<and> data_ok (st_schema u)"
        using exec_all_keeps Cons.prems by simp
      then have 2: "keeps_data (st_schema u) (st_schema (fst (run_pending e A ms u)))
          \<and> data_ok (st_schema (fst (run_pending e A ms u)))"
        using Cons.IH Cons.prems(2) by simp
      show ?thesis using keeps_data_trans [OF conjunct1 [OF 1] conjunct1 [OF 2] Cons.prems(1)] 2 Inr False by simp
    qed (use Cons.prems False in \<open>simp add: keeps_data_refl\<close>)
  qed (use Cons in simp)
qed (simp add: keeps_data_refl)

lemma migrate_keeps:
  "data_ok (st_schema s) \<Longrightarrow>
   keeps_data (st_schema s) (st_schema (fst (migrate e s))) \<and> data_ok (st_schema (fst (migrate e s)))"
  using run_pending_keeps [of "make_ledger s" migrations e] migrations_gentle
  by (simp add: migrate_def keeps_data_refl)

section \<open>The life of a database\<close>

text \<open>A database that only this program has touched: created empty, brought up to date any number of times
  with any failures (so also by the older versions, which stopped at a shorter list), and filled in between
  with rows that fit its tables.\<close>

inductive history :: "store \<Rightarrow> bool" where
  created: "history new_store"
| upgraded: "history s \<Longrightarrow> history (fst (migrate e s))"
| filled: "history s \<Longrightarrow> shape sc = shape (st_schema s) \<Longrightarrow> well_rows sc \<Longrightarrow> history (s\<lparr>st_schema := sc\<rparr>)"

definition stands_at :: "nat \<Rightarrow> store \<Rightarrow> bool" where
  "stands_at k s \<longleftrightarrow> k \<le> length migrations \<and> ledger_names s = map fst (take k migrations) \<and> shape (st_schema s) = shape_at k"

lemma stands_run:
  assumes "stands_at k s" "st_ledger s \<noteq> None" "k < length migrations"
  shows "run_migration e (migrations ! k) s = Inr s' \<Longrightarrow> stands_at (Suc k) s' \<and> st_ledger s' \<noteq> None"
    and "\<exists>s'. run_migration (calm_mig t) (migrations ! k) s = Inr s'"
proof -
  obtain sc where sc: "exec_all (snd (migrations ! k)) (st_schema s) = Some sc" "shape sc = shape_at (Suc k)"
    using next_shape [OF assms(3)] assms(1) by (auto simp: stands_at_def)
  have taken: "map fst (take (Suc k) migrations) = map fst (take k migrations) @ [fst (migrations ! k)]"
    using assms(3) by (simp add: take_Suc_conv_app_nth)
  show "stands_at (Suc k) s' \<and> st_ledger s' \<noteq> None" if run: "run_migration e (migrations ! k) s = Inr s'"
  proof -
    have "st_schema s' = sc" using run sc(1) by (auto simp: run_migration_def split: if_splits)
    then show ?thesis
      using run_migration_names [OF run assms(2)] assms(1,3) sc(2) taken by (simp add: stands_at_def)
  qed
  have "distinct (map fst (take (Suc k) migrations))"
    using migration_names_distinct by (metis distinct_take take_map)
  then have "fst (migrations ! k) \<notin> set (ledger_names s)"
    using assms(1) unfolding taken by (simp add: stands_at_def)
  then show "\<exists>s'. run_migration (calm_mig t) (migrations ! k) s = Inr s'"
    using sc(1) by (simp add: run_migration_def)
qed

lemma fresh_name:
  assumes "k0 \<le> k" "k < length migrations"
  shows "fst (migrations ! k) \<notin> set (map fst (take k0 migrations))"
proof
  assume "fst (migrations ! k) \<in> set (map fst (take k0 migrations))"
  then obtain j where "j < k0" "map fst migrations ! j = map fst migrations ! k"
    using assms by (force simp: in_set_conv_nth)
  then show False using assms nth_eq_iff_index_eq [OF migration_names_distinct, of j k] by simp
qed

lemma stands_pending:
  assumes "stands_at k s" "st_ledger s \<noteq> None" "k0 \<le> k"
  shows "(\<exists>k'. stands_at k' (fst (run_pending e (map fst (take k0 migrations)) (drop k migrations) s)))
    \<and> stands_at (length migrations) (fst (run_pending (calm_mig t) (map fst (take k0 migrations)) (drop k migrations) s))
    \<and> snd (run_pending (calm_mig t) (map fst (take k0 migrations)) (drop k migrations) s) = None"
  using assms
proof (induction "length migrations - k" arbitrary: k s)
  case 0
  then show ?case by (auto simp: stands_at_def)
next
  case (Suc i)
  then have k: "k < length migrations" by simp
  have split: "drop k migrations = migrations ! k # drop (Suc k) migrations"
    by (rule Cons_nth_drop_Suc [OF k, symmetric])
  note fresh = fresh_name [OF Suc.prems(3) k]
  have IH: "(\<exists>k'. stands_at k' (fst (run_pending e (map fst (take k0 migrations)) (drop (Suc k) migrations) s')))
    \<and> stands_at (length migrations) (fst (run_pending (calm_mig t) (map fst (take k0 migrations)) (drop (Suc k) migrations) s'))
    \<and> snd (run_pending (calm_mig t) (map fst (take k0 migrations)) (drop (Suc k) migrations) s') = None"
    if "stands_at (Suc k) s' \<and> st_ledger s' \<noteq> None" for s'
    by (rule Suc.hyps(1)) (use that Suc.hyps(2) Suc.prems(3) in auto)
  have 1: "\<exists>k'. stands_at k' (fst (run_pending e (map fst (take k0 migrations)) (drop k migrations) s))"
  proof (cases "run_migration e (migrations ! k) s")
    case (Inl err)
    then show ?thesis using fresh Suc.prems(1) by (auto simp: split)
  next
    case (Inr s')
    then show ?thesis using IH [OF stands_run(1) [OF Suc.prems(1,2) k Inr]] fresh by (auto simp: split)
  qed
  obtain u where u: "run_migration (calm_mig t) (migrations ! k) s = Inr u"
    using stands_run(2) [OF Suc.prems(1,2) k] by blast
  show ?case using 1 IH [OF stands_run(1) [OF Suc.prems(1,2) k u]] fresh u by (auto simp: split)
qed

lemma run_pending_skips:
  "\<forall>m \<in> set ms. fst m \<in> set A \<Longrightarrow> run_pending e A (ms @ rest) s = run_pending e A rest s"
  by (induction ms) auto

lemma stands_migrate:
  assumes "stands_at k s"
  shows "(\<exists>k'. stands_at k' (fst (migrate e s)))
    \<and> stands_at (length migrations) (fst (migrate (calm_mig t) s)) \<and> snd (migrate (calm_mig t) s) = None"
proof -
  have ready: "stands_at k (make_ledger s)" using assms by (simp add: stands_at_def)
  have pending: "run_pending e' (ledger_names s) migrations (make_ledger s)
      = run_pending e' (map fst (take k migrations)) (drop k migrations) (make_ledger s)" for e'
    using run_pending_skips [of "take k migrations" "ledger_names s" e' "drop k migrations"] assms
    by (simp add: stands_at_def)
  have "(\<exists>k'. stands_at k' (fst (run_pending e (ledger_names s) migrations (make_ledger s))))
    \<and> stands_at (length migrations) (fst (migrate (calm_mig t) s)) \<and> snd (migrate (calm_mig t) s) = None"
    using stands_pending [OF ready _ order_refl, of e t] by (simp add: migrate_calm pending)
  moreover have "\<exists>k'. stands_at k' s" using assms by blast
  ultimately show ?thesis using ready by (auto simp: migrate_def)
qed

lemma roles_keyed_shape: "roles_keyed (shape s) = roles_keyed s"
  by (simp add: roles_keyed_def mget_shape option.case_eq_if option.map_sel)

lemma history_invariant: "history s \<Longrightarrow> (\<exists>k. stands_at k s) \<and> data_ok (st_schema s)"
proof (induction rule: history.induct)
  case created
  have "stands_at 0 new_store"
    by (simp add: stands_at_def new_store_def ledger_names_def shape_def empty_schema_def)
  moreover have "data_ok (st_schema new_store)"
    by (simp add: data_ok_def well_rows_iff roles_keyed_def new_store_def empty_schema_def)
  ultimately show ?case by blast
next
  case (upgraded s e)
  then show ?case using stands_migrate migrate_keeps by blast
next
  case (filled s sc)
  then have "roles_keyed sc" by (metis data_ok_def roles_keyed_shape)
  moreover have "\<exists>k. stands_at k (s\<lparr>st_schema := sc\<rparr>)"
    using filled by (auto simp: stands_at_def ledger_names_def)
  ultimately show ?case using filled.hyps by (simp add: data_ok_def)
qed

section \<open>Properties\<close>

text \<open>C14. Whatever failures its earlier upgrades met and whatever rows it holds, a database of this program
  is never stuck half way: an upgrade that meets no failure reports none, lists all eleven migrations in
  order and leaves the tables and indexes of the current schema.\<close>

theorem upgrade_reaches_the_current_schema:
  assumes "history s"
  shows "let (s', err) = migrate (calm_mig t) s in
    err = None \<and> ledger_names s' = map fst migrations \<and> shape (st_schema s') = current_shape"
proof -
  obtain k where "stands_at k s" using history_invariant [OF assms] by blast
  then have "stands_at (length migrations) (fst (migrate (calm_mig t) s)) \<and> snd (migrate (calm_mig t) s) = None"
    using stands_migrate by blast
  then show ?thesis by (simp add: stands_at_def current_shape_def case_prod_beta Let_def)
qed

text \<open>C16. An upgrade, finished or interrupted, loses nothing: every table is still there with every row in its
  place, every value of the old columns is the same, and the only values that change are the permissions of
  the two seeded roles, which gain at most the bits of the features those roles always had.\<close>

theorem upgrade_keeps_every_row:
  assumes "history s"
  shows "keeps_data (st_schema s) (st_schema (fst (migrate e s)))"
  using history_invariant [OF assms] migrate_keeps by blast

text \<open>A server of the fifth migration, with the two roles it seeded.\<close>

definition old_env :: migenv where
  "old_env = \<lparr>mig_fails = \<lambda>c. c = BeginTx ''0006_media_permissions'', mig_now = 0\<rparr>"

definition old_rows :: "sqlval list list" where
  "old_rows =
     [[SText ''role-default'', SText ''User'', SInt 1025, SInt 0, SText [], SInt 1, SInt 0],
      [SText ''role-admin'', SText ''Admin'', SInt 4095, SInt 100, SText [], SInt 0, SInt 0],
      [SText ''guest'', SText ''Guest'', SInt 1, SInt 0, SText [], SInt 0, SInt 0]]"

definition old_store :: store where
  "old_store = fst (migrate old_env new_store)"

definition old_schema :: schema where
  "old_schema = (case mget (sc_tables (st_schema old_store)) ''roles'' of
     Some t \<Rightarrow> (st_schema old_store)\<lparr>sc_tables := mput ''roles'' (t\<lparr>tb_rows := old_rows\<rparr>) (sc_tables (st_schema old_store))\<rparr>
   | None \<Rightarrow> empty_schema)"

definition old_server :: store where
  "old_server = old_store\<lparr>st_schema := old_schema\<rparr>"

definition role_permissions_in :: "schema \<Rightarrow> (sqlval option \<times> sqlval option) list" where
  "role_permissions_in s = (case mget (sc_tables s) ''roles'' of None \<Rightarrow> []
     | Some t \<Rightarrow> map (\<lambda>r. (cell (col_names t) r ''id'', cell (col_names t) r ''permissions'')) (tb_rows t))"

lemma old_server_facts:
  "shape old_schema = shape (st_schema old_store) \<and> well_rows old_schema"
  by code_simp

lemma old_server_history: "history old_server"
  unfolding old_server_def
  by (rule history.filled) (use old_server_facts history.upgraded [OF history.created, of old_env] in \<open>auto simp: old_store_def\<close>)

theorem upgrade_reaches_the_current_schema_witness:
  "snd (migrate (calm_mig 7) old_server) = None"
  using upgrade_reaches_the_current_schema [OF old_server_history, of 7] by (simp add: case_prod_beta Let_def)

theorem upgrade_keeps_every_row_witness:
  "keeps_data (st_schema old_server) (st_schema (fst (migrate (calm_mig 7) old_server)))
   \<and> role_permissions_in (st_schema (fst (migrate (calm_mig 7) old_server)))
       = [(Some (SText ''role-default''), Some (SInt 62465)), (Some (SText ''role-admin''), Some (SInt 131071)),
          (Some (SText ''guest''), Some (SInt 1))]"
proof
  show "keeps_data (st_schema old_server) (st_schema (fst (migrate (calm_mig 7) old_server)))"
    by (rule upgrade_keeps_every_row [OF old_server_history])
  show "role_permissions_in (st_schema (fst (migrate (calm_mig 7) old_server)))
       = [(Some (SText ''role-default''), Some (SInt 62465)), (Some (SText ''role-admin''), Some (SInt 131071)),
          (Some (SText ''guest''), Some (SInt 1))]"
    by code_simp
qed

text \<open>An upgraded server's seeded roles are the roles a new server is seeded with.\<close>

lemma upgraded_roles_are_the_seeded_roles:
  "role_permissions_in (st_schema (fst (migrate (calm_mig 7) old_server)))
     = [(Some (SText (role_id default_role)), Some (SInt (role_permissions default_role))),
        (Some (SText (role_id admin_role)), Some (SInt (role_permissions admin_role))),
        (Some (SText ''guest''), Some (SInt 1))]"
  by code_simp

end
