(* ===== verification/Backups.thy ===== *)
theory Backups
  imports Paths "HOL-Library.Multiset"
begin

text \<open>
  Copies of the database: \<open>internal/storage/backup.go\<close>. A volume holds directories and files with their bytes
  and times of change. What the outside decides is the environment: which calls fail, the clock and its
  stamp in local time, what \<open>VACUUM INTO\<close> writes for the database as it is, what a failed write leaves
  behind, and the order \<open>sort.Slice\<close> gives entries of one time, which Go leaves open.
\<close>

section \<open>The volume\<close>

type_synonym bytes = "8 word list"

record bfile =
  bf_bytes :: bytes
  bf_mtime :: int

record volume =
  vo_dirs :: "ustring list list"
  vo_files :: "(ustring list, bfile) gomap"

datatype node = IsFile bfile | IsDir

definition node_at :: "volume \<Rightarrow> ustring list \<Rightarrow> node option" where
  "node_at v p =
     (case mget (vo_files v) p of
        Some f \<Rightarrow> Some (IsFile f)
      | None \<Rightarrow> if p = [] \<or> p \<in> set (vo_dirs v) then Some IsDir else None)"

text \<open>\<open>os.Stat\<close> of a path; the empty path names nothing.\<close>

definition stat :: "ustring \<Rightarrow> ustring \<Rightarrow> volume \<Rightarrow> node option" where
  "stat cwd path v = (if path = [] then None else node_at v (resolve cwd path))"

definition make_dirs :: "ustring \<Rightarrow> ustring \<Rightarrow> volume \<Rightarrow> volume option" where
  "make_dirs cwd path v =
     (if path = [] \<or> list_ex (\<lambda>q. mget (vo_files v) q \<noteq> None) (prefixes (resolve cwd path)) then None
      else Some (v\<lparr>vo_dirs := vo_dirs v @ filter (\<lambda>q. q \<noteq> [] \<and> q \<notin> set (vo_dirs v)) (prefixes (resolve cwd path))\<rparr>))"

definition put_file :: "ustring \<Rightarrow> ustring \<Rightarrow> bfile \<Rightarrow> volume \<Rightarrow> volume" where
  "put_file cwd path f v = v\<lparr>vo_files := mput (resolve cwd path) f (vo_files v)\<rparr>"

definition drop_file :: "ustring \<Rightarrow> ustring \<Rightarrow> volume \<Rightarrow> volume" where
  "drop_file cwd path v = v\<lparr>vo_files := mdel (resolve cwd path) (vo_files v)\<rparr>"

text \<open>\<open>os.Rename\<close>: a file replaces a file, nothing replaces a directory, and a directory takes along what is
  below it.\<close>

definition rebase :: "ustring list \<Rightarrow> ustring list \<Rightarrow> ustring list \<Rightarrow> ustring list" where
  "rebase p q x = (if prefix p x then q @ drop (length p) x else x)"

definition rename_node :: "ustring \<Rightarrow> ustring \<Rightarrow> ustring \<Rightarrow> volume \<Rightarrow> volume option" where
  "rename_node cwd from_path to_path v =
     (let p = resolve cwd from_path; q = resolve cwd to_path in
      case node_at v p of
        None \<Rightarrow> None
      | Some (IsFile f) \<Rightarrow>
          if node_at v q = Some IsDir then None else Some (v\<lparr>vo_files := mput q f (mdel p (vo_files v))\<rparr>)
      | Some IsDir \<Rightarrow>
          if node_at v q \<noteq> None then None
          else Some (v\<lparr>vo_dirs := map (rebase p q) (vo_dirs v), vo_files := map (\<lambda>(x, f). (rebase p q x, f)) (vo_files v)\<rparr>))"

section \<open>The environment\<close>

record backup =
  bk_name :: ustring
  bk_path :: ustring
  bk_size :: nat
  bk_at :: int

datatype bkcall =
    BkMkdir | BkVacuum | BkStat | BkReadDir | BkRemove ustring | BkOpen | BkRead | BkRename | BkRenameBack
  | BkReadAll | BkWrite

record bkenv =
  be_fails :: "bkcall \<Rightarrow> bool"
  be_now :: int
  be_stamp :: ustring
  be_dump :: bytes
  be_partial :: "bytes option"
  be_order :: "backup list \<Rightarrow> backup list"

datatype bk_error =
    BkNoDir | BkExists | BkVacuumFailed | BkNoStat | BkUnlisted | BkNotFound | BkNotAFile | BkNotOpened
  | BkUnreadable | BkNotSqlite | BkNotAside | BkNotCopied

text \<open>A failed write leaves what it had written so far, or nothing.\<close>

definition left_over :: "bkenv \<Rightarrow> ustring \<Rightarrow> ustring \<Rightarrow> volume \<Rightarrow> volume" where
  "left_over e cwd path v =
     (case be_partial e of None \<Rightarrow> v | Some bs \<Rightarrow> put_file cwd path \<lparr>bf_bytes = bs, bf_mtime = be_now e\<rparr> v)"

section \<open>Taking a backup\<close>

definition backup_prefix :: ustring where "backup_prefix = runes ''tamizchat-''"
definition backup_ext :: ustring where "backup_ext = runes ''.db''"

abbreviation quote_rune :: rune where "quote_rune \<equiv> 39"

text \<open>The path inside the SQL text: every quote doubled, and how SQL reads such a literal.\<close>

definition sql_quoted :: "ustring \<Rightarrow> ustring" where
  "sql_quoted p = quote_rune # concat (map (\<lambda>c. if c = quote_rune then [c, c] else [c]) p) @ [quote_rune]"

fun literal_body :: "ustring \<Rightarrow> (ustring \<times> ustring) option" where
  "literal_body (c # d # cs) =
     (if c = quote_rune then
        (if d = quote_rune then map_option (\<lambda>(b, r). (c # b, r)) (literal_body cs) else Some ([], d # cs))
      else map_option (\<lambda>(b, r). (c # b, r)) (literal_body (d # cs)))"
| "literal_body [c] = (if c = quote_rune then Some ([], []) else None)"
| "literal_body [] = None"

fun sql_literal :: "ustring \<Rightarrow> (ustring \<times> ustring) option" where
  "sql_literal (c # cs) = (if c = quote_rune then literal_body cs else None)"
| "sql_literal [] = None"

definition backup_name :: "bkenv \<Rightarrow> ustring" where
  "backup_name e = backup_prefix @ be_stamp e @ backup_ext"

definition vacuum_into :: "bkenv \<Rightarrow> ustring \<Rightarrow> ustring \<Rightarrow> volume \<Rightarrow> volume option" where
  "vacuum_into e cwd sql v =
     (case sql_literal sql of
        Some (path, []) \<Rightarrow>
          if be_fails e BkVacuum then None
          else Some (put_file cwd path \<lparr>bf_bytes = be_dump e, bf_mtime = be_now e\<rparr> v)
      | _ \<Rightarrow> None)"

definition backup_to :: "bkenv \<Rightarrow> ustring \<Rightarrow> ustring \<Rightarrow> volume \<Rightarrow> volume \<times> (bk_error + backup)" where
  "backup_to e cwd dir v =
     (case (if be_fails e BkMkdir then None else make_dirs cwd dir v) of
        None \<Rightarrow> (v, Inl BkNoDir)
      | Some v1 \<Rightarrow>
          (let path = path_join dir (backup_name e) in
           if stat cwd path v1 \<noteq> None then (v1, Inl BkExists)
           else case vacuum_into e cwd (sql_quoted path) v1 of
             None \<Rightarrow> (left_over e cwd path v1, Inl BkVacuumFailed)
           | Some v2 \<Rightarrow>
               (case (if be_fails e BkStat then None else stat cwd path v2) of
                  Some (IsFile f) \<Rightarrow>
                    (v2, Inr \<lparr>bk_name = backup_name e, bk_path = path, bk_size = length (bf_bytes f), bk_at = bf_mtime f\<rparr>)
                | _ \<Rightarrow> (v2, Inl BkNoStat))))"

section \<open>Listing and pruning\<close>

definition backup_named :: "ustring \<Rightarrow> bool" where
  "backup_named n \<longleftrightarrow> prefix backup_prefix n \<and> suffix backup_ext n"

text \<open>The entries of a directory come in the order of their names.\<close>

definition entries :: "volume \<Rightarrow> ustring list \<Rightarrow> (ustring \<times> bfile) list" where
  "entries v d =
     sort_key fst (map (\<lambda>(p, f). (last p, f)) (filter (\<lambda>(p, _). p \<noteq> [] \<and> butlast p = d) (vo_files v)))"

definition saved :: "ustring \<Rightarrow> ustring \<Rightarrow> volume \<Rightarrow> backup list" where
  "saved cwd dir v =
     map (\<lambda>(n, f). \<lparr>bk_name = n, bk_path = path_join dir n, bk_size = length (bf_bytes f), bk_at = bf_mtime f\<rparr>)
       (filter (\<lambda>(n, _). backup_named n) (entries v (resolve cwd dir)))"

definition list_backups :: "bkenv \<Rightarrow> ustring \<Rightarrow> ustring \<Rightarrow> volume \<Rightarrow> bk_error + backup list" where
  "list_backups e cwd dir v =
     (case stat cwd dir v of
        None \<Rightarrow> Inr []
      | Some (IsFile _) \<Rightarrow> Inl BkUnlisted
      | Some IsDir \<Rightarrow> if be_fails e BkReadDir then Inl BkUnlisted else Inr (be_order e (saved cwd dir v)))"

fun remove_each :: "bkenv \<Rightarrow> ustring \<Rightarrow> backup list \<Rightarrow> volume \<Rightarrow> volume \<times> nat" where
  "remove_each e cwd [] v = (v, 0)"
| "remove_each e cwd (b # bs) v =
     (if be_fails e (BkRemove (bk_path b)) \<or> node_at v (resolve cwd (bk_path b)) = None then remove_each e cwd bs v
      else let (v', n) = remove_each e cwd bs (drop_file cwd (bk_path b) v) in (v', Suc n))"

definition prune_backups :: "bkenv \<Rightarrow> ustring \<Rightarrow> ustring \<Rightarrow> int \<Rightarrow> volume \<Rightarrow> volume \<times> (bk_error + nat)" where
  "prune_backups e cwd dir keep v =
     (let keep = nat (if keep < 1 then 1 else keep) in
      case list_backups e cwd dir v of
        Inl err \<Rightarrow> (v, Inl err)
      | Inr bs \<Rightarrow>
          if length bs \<le> keep then (v, Inr 0)
          else let (v', n) = remove_each e cwd (drop keep bs) v in (v', Inr n))"

section \<open>Restoring\<close>

definition sqlite_header :: bytes where
  "sqlite_header = map of_char ''SQLite format 3''"

definition verify_backup :: "bkenv \<Rightarrow> ustring \<Rightarrow> ustring \<Rightarrow> volume \<Rightarrow> bk_error option" where
  "verify_backup e cwd path v =
     (case stat cwd path v of
        None \<Rightarrow> Some BkNotFound
      | Some IsDir \<Rightarrow> Some BkNotAFile
      | Some (IsFile f) \<Rightarrow>
          if bf_bytes f = [] then Some BkNotAFile
          else if be_fails e BkOpen then Some BkNotOpened
          else if be_fails e BkRead then Some BkUnreadable
          else if take 15 (take 16 (bf_bytes f) @ replicate (16 - length (bf_bytes f)) 0) \<noteq> sqlite_header then Some BkNotSqlite
          else None)"

definition copy_file :: "bkenv \<Rightarrow> ustring \<Rightarrow> ustring \<Rightarrow> ustring \<Rightarrow> volume \<Rightarrow> volume \<times> bool" where
  "copy_file e cwd src dst v =
     (case (if be_fails e BkReadAll then None else stat cwd src v) of
        Some (IsFile f) \<Rightarrow>
          if dst = [] \<or> stat cwd dst v = Some IsDir \<or> node_at v (butlast (resolve cwd dst)) \<noteq> Some IsDir then (v, False)
          else if be_fails e BkWrite then (left_over e cwd dst v, False)
          else (put_file cwd dst \<lparr>bf_bytes = bf_bytes f, bf_mtime = be_now e\<rparr> v, True)
      | _ \<Rightarrow> (v, False))"

definition rescue_path :: "bkenv \<Rightarrow> ustring \<Rightarrow> ustring" where
  "rescue_path e db_path = db_path @ runes ''.replaced-'' @ be_stamp e"

definition try_remove :: "bkenv \<Rightarrow> ustring \<Rightarrow> ustring \<Rightarrow> volume \<Rightarrow> volume" where
  "try_remove e cwd path v = (if be_fails e (BkRemove path) then v else drop_file cwd path v)"

definition drop_sidecars :: "bkenv \<Rightarrow> ustring \<Rightarrow> ustring \<Rightarrow> volume \<Rightarrow> volume" where
  "drop_sidecars e cwd db_path v =
     try_remove e cwd (db_path @ runes ''-shm'') (try_remove e cwd (db_path @ runes ''-wal'') v)"

text \<open>The result is the path the current database was moved to, empty when there was none.\<close>

definition restore_from ::
  "bkenv \<Rightarrow> ustring \<Rightarrow> ustring \<Rightarrow> ustring \<Rightarrow> volume \<Rightarrow> volume \<times> (bk_error + ustring)" where
  "restore_from e cwd db_path backup_path v =
     (case verify_backup e cwd backup_path v of
        Some err \<Rightarrow> (v, Inl err)
      | None \<Rightarrow>
          (let rescued = (if stat cwd db_path v = None then [] else rescue_path e db_path) in
           case (if rescued = [] then Some v
                 else if be_fails e BkRename then None else rename_node cwd db_path rescued v) of
             None \<Rightarrow> (v, Inl BkNotAside)
           | Some v1 \<Rightarrow>
               (case copy_file e cwd backup_path db_path v1 of
                  (v2, False) \<Rightarrow>
                    (if rescued = [] \<or> be_fails e BkRenameBack then v2
                     else case rename_node cwd rescued db_path v2 of None \<Rightarrow> v2 | Some v3 \<Rightarrow> v3, Inl BkNotCopied)
                | (v2, True) \<Rightarrow> (drop_sidecars e cwd db_path v2, Inr rescued))))"

end
