(* ===== verification/Backups_Correct.thy ===== *)
theory Backups_Correct
  imports Backups
begin

text \<open>
  What the backups guarantee: pruning keeps the newest of the program's backups, whole ones, and removes nothing
  but older ones of them; a backup that was restored is the database it was taken from while the replaced one is
  kept; and a restore that fails leaves the current database under its own name or, when even the renaming back
  fails, under the name it was set aside with. Where the conditions end is shown by examples: a backup whose
  writing failed, an operator's file with the name of a backup, a restore that had no database to put back.
\<close>

section \<open>The files of a volume\<close>

definition wf_volume :: "volume \<Rightarrow> bool" where
  "wf_volume v \<longleftrightarrow> wf_map (vo_files v) \<and> list_all (\<lambda>(p, _). list_all plain p) (vo_files v)
     \<and> list_all (\<lambda>d. mget (vo_files v) d = None) (vo_dirs v)"

definition file_at :: "ustring \<Rightarrow> ustring \<Rightarrow> volume \<Rightarrow> bfile option" where
  "file_at cwd path v = mget (vo_files v) (resolve cwd path)"

lemma put_file_get [simp]:
  "mget (vo_files (put_file cwd path f v)) q = (if q = resolve cwd path then Some f else mget (vo_files v) q)"
  "vo_dirs (put_file cwd path f v) = vo_dirs v"
  by (auto simp: put_file_def)

lemma drop_file_get [simp]:
  "mget (vo_files (drop_file cwd path v)) q = (if q = resolve cwd path then None else mget (vo_files v) q)"
  "vo_dirs (drop_file cwd path v) = vo_dirs v"
  by (auto simp: drop_file_def)

lemma entries_mem:
  assumes "wf_volume v"
  shows "(n, f) \<in> set (entries v d) \<longleftrightarrow> mget (vo_files v) (d @ [n]) = Some f"
proof -
  have wf: "wf_map (vo_files v)" using assms by (simp add: wf_volume_def)
  have "(n, f) \<in> set (entries v d) \<longleftrightarrow> (\<exists>p. (p, f) \<in> set (vo_files v) \<and> p \<noteq> [] \<and> butlast p = d \<and> last p = n)"
    by (force simp: entries_def image_iff)
  also have "\<dots> \<longleftrightarrow> (d @ [n], f) \<in> set (vo_files v)"
    by (metis append_butlast_last_id butlast_snoc last_snoc snoc_eq_iff_butlast)
  also have "\<dots> \<longleftrightarrow> mget (vo_files v) (d @ [n]) = Some f" using wf by (rule set_wf_map)
  finally show ?thesis .
qed

lemma entries_plain:
  assumes "wf_volume v" "(n, f) \<in> set (entries v d)"
  shows "plain n"
proof -
  have "(d @ [n], f) \<in> set (vo_files v)" using assms entries_mem by (metis map_of_SomeD)
  then show ?thesis using assms(1) by (auto simp: wf_volume_def list_all_iff)
qed

lemma last_butlast_eq: "p \<noteq> [] \<Longrightarrow> q \<noteq> [] \<Longrightarrow> last p = last q \<Longrightarrow> butlast p = butlast q \<Longrightarrow> p = q"
  by (metis append_butlast_last_id)

lemma entries_distinct:
  assumes "wf_volume v"
  shows "distinct (map fst (entries v d))"
proof -
  let ?fs = "filter (\<lambda>(p, _). p \<noteq> [] \<and> butlast p = d) (vo_files v)"
  have "distinct (map fst ?fs)"
    using assms by (simp add: wf_volume_def wf_map_def distinct_map_filter)
  moreover have "inj_on last (set (map fst ?fs))"
    by (rule inj_onI) (auto intro: last_butlast_eq)
  ultimately have "distinct (map last (map fst ?fs))" by (simp only: distinct_map)
  then have "distinct (map fst (map (\<lambda>(p, f). (last p, f)) ?fs))"
    by (simp add: comp_def case_prod_beta)
  moreover have "mset (map fst (entries v d)) = mset (map fst (map (\<lambda>(p, f). (last p, f)) ?fs))"
    by (simp only: entries_def mset_map mset_sort)
  ultimately show ?thesis by (simp only: mset_eq_imp_distinct_iff [of "map fst (entries v d)"])
qed

abbreviation place :: "ustring \<Rightarrow> backup \<Rightarrow> ustring list" where
  "place cwd b \<equiv> resolve cwd (bk_path b)"

lemma saved_mem:
  assumes "wf_volume v" "dir \<noteq> []" "b \<in> set (saved cwd dir v)"
  obtains f where "place cwd b = resolve cwd dir @ [bk_name b]" "backup_named (bk_name b)"
    "mget (vo_files v) (place cwd b) = Some f" "bk_at b = bf_mtime f"
proof -
  obtain n f where n: "(n, f) \<in> set (entries v (resolve cwd dir))" "backup_named n"
    "b = \<lparr>bk_name = n, bk_path = path_join dir n, bk_size = length (bf_bytes f), bk_at = bf_mtime f\<rparr>"
    using assms(3) by (auto simp: saved_def)
  then show ?thesis
    using that [of f] entries_plain [OF assms(1) n(1)] entries_mem [OF assms(1)] assms(2) by simp
qed

lemma saved_distinct:
  assumes "wf_volume v" "dir \<noteq> []"
  shows "distinct (map (place cwd) (saved cwd dir v))"
proof -
  have "distinct (map bk_name (saved cwd dir v))"
    using entries_distinct [OF assms(1), of "resolve cwd dir"]
    by (simp add: saved_def comp_def case_prod_beta distinct_map_filter)
  then have "distinct (map (\<lambda>n. resolve cwd dir @ [n]) (map bk_name (saved cwd dir v)))"
    by (simp add: distinct_map inj_on_def)
  moreover have "map (place cwd) (saved cwd dir v) = map (\<lambda>n. resolve cwd dir @ [n]) (map bk_name (saved cwd dir v))"
    by (auto elim: saved_mem [OF assms])
  ultimately show ?thesis by (simp only:)
qed

section \<open>Pruning\<close>

text \<open>What Go promises of \<open>sort.Slice\<close> with the comparison of the code: the same elements, none after a newer one.\<close>

definition newest_first :: "(backup list \<Rightarrow> backup list) \<Rightarrow> bool" where
  "newest_first f \<longleftrightarrow> (\<forall>bs. mset (f bs) = mset bs \<and> sorted_wrt (\<lambda>a b. bk_at b \<le> bk_at a) (f bs))"

lemma remove_each_spec:
  assumes "\<forall>b \<in> set bs. \<not> be_fails e (BkRemove (bk_path b))" "distinct (map (place cwd) bs)"
    "\<forall>b \<in> set bs. mget (vo_files v) (place cwd b) \<noteq> None"
  shows "let (v', n) = remove_each e cwd bs v in n = length bs \<and> vo_dirs v' = vo_dirs v
    \<and> (\<forall>p. mget (vo_files v') p = (if p \<in> place cwd ` set bs then None else mget (vo_files v) p))"
  using assms
proof (induction bs arbitrary: v)
  case (Cons b bs)
  let ?v = "drop_file cwd (bk_path b) v"
  obtain nd where there: "node_at v (place cwd b) = Some nd" using Cons.prems(3) by (auto simp: node_at_def)
  have calm: "\<forall>c \<in> set bs. \<not> be_fails e (BkRemove (bk_path c))" and dist: "distinct (map (place cwd) bs)"
    using Cons.prems(1,2) by simp_all
  have "place cwd b \<notin> place cwd ` set bs" using Cons.prems(2) by simp
  then have rest: "\<forall>c \<in> set bs. mget (vo_files ?v) (place cwd c) \<noteq> None"
    using Cons.prems(3) by (auto simp: image_iff)
  obtain v' n where r: "remove_each e cwd bs ?v = (v', n)" by fastforce
  then have "n = length bs" "vo_dirs v' = vo_dirs v"
    "mget (vo_files v') p = (if p \<in> place cwd ` set bs then None else mget (vo_files ?v) p)" for p
    using Cons.IH [OF calm dist rest] by simp_all
  then show ?case using Cons.prems(1) there r by simp
qed simp

text \<open>Whatever carries the name of a backup, pruning keeps the newest and deletes the others.\<close>

lemma prune_by_name:
  assumes "wf_volume v" "dir \<noteq> []" "stat cwd dir v = Some IsDir" "newest_first (be_order e)"
    "be_fails e = (\<lambda>_. False)"
  shows "\<exists>kept gone. mset (kept @ gone) = mset (saved cwd dir v)
    \<and> length kept = min (nat (max 1 keep)) (length (saved cwd dir v))
    \<and> (\<forall>b \<in> set kept. \<forall>c \<in> set gone. bk_at c \<le> bk_at b)
    \<and> (\<forall>c \<in> set gone. backup_named (bk_name c) \<and> place cwd c = resolve cwd dir @ [bk_name c])
    \<and> snd (prune_backups e cwd dir keep v) = Inr (length gone)
    \<and> (\<forall>p. mget (vo_files (fst (prune_backups e cwd dir keep v))) p
            = (if p \<in> place cwd ` set gone then None else mget (vo_files v) p))"
proof -
  let ?k = "nat (max 1 keep)" and ?bs = "be_order e (saved cwd dir v)"
  let ?kept = "take ?k ?bs" and ?gone = "drop ?k ?bs"
  have ms: "mset ?bs = mset (saved cwd dir v)" and srt: "sorted_wrt (\<lambda>a b. bk_at b \<le> bk_at a) ?bs"
    using assms(4) by (simp_all add: newest_first_def)
  have len: "length ?bs = length (saved cwd dir v)" using ms by (metis size_mset)
  have mem: "set ?bs = set (saved cwd dir v)" using ms by (metis set_mset_mset)
  have keep: "nat (if keep < 1 then 1 else keep) = ?k" by (simp add: max_def)
  have listed: "list_backups e cwd dir v = Inr ?bs" using assms(3,5) by (simp add: list_backups_def)
  have "sorted_wrt (\<lambda>a b. bk_at b \<le> bk_at a) (?kept @ ?gone)" using srt by (simp only: append_take_drop_id)
  then have order: "\<forall>b \<in> set ?kept. \<forall>c \<in> set ?gone. bk_at c \<le> bk_at b"
    unfolding sorted_wrt_append by blast
  have gone: "\<exists>f. place cwd c = resolve cwd dir @ [bk_name c] \<and> backup_named (bk_name c)
      \<and> mget (vo_files v) (place cwd c) = Some f" if "c \<in> set ?gone" for c
  proof -
    have "c \<in> set (saved cwd dir v)" using that mem by (metis in_set_dropD)
    then show ?thesis by (rule saved_mem [OF assms(1,2)]) blast
  qed
  have "distinct (map (place cwd) ?bs)"
    using saved_distinct [OF assms(1,2), of cwd]
      mset_eq_imp_distinct_iff [of "map (place cwd) ?bs" "map (place cwd) (saved cwd dir v)"] by (simp only: mset_map ms)
  then have dist: "distinct (map (place cwd) ?gone)" by (metis distinct_drop drop_map)
  have spec: "let (v', n) = remove_each e cwd ?gone v in n = length ?gone \<and> vo_dirs v' = vo_dirs v
    \<and> (\<forall>p. mget (vo_files v') p = (if p \<in> place cwd ` set ?gone then None else mget (vo_files v) p))"
  proof (rule remove_each_spec [OF _ dist])
    show "\<forall>b \<in> set ?gone. \<not> be_fails e (BkRemove (bk_path b))" using assms(5) by simp
    show "\<forall>b \<in> set ?gone. mget (vo_files v) (place cwd b) \<noteq> None" using gone by fastforce
  qed
  obtain v' n where r: "remove_each e cwd ?gone v = (v', n)" by fastforce
  have none: "?gone = []" if "length ?bs \<le> ?k" using that by simp
  have pruned: "snd (prune_backups e cwd dir keep v) = Inr (length ?gone)
    \<and> (\<forall>p. mget (vo_files (fst (prune_backups e cwd dir keep v))) p
            = (if p \<in> place cwd ` set ?gone then None else mget (vo_files v) p))"
  proof (cases "length ?bs \<le> ?k")
    case True
    then show ?thesis using none by (simp add: prune_backups_def Let_def keep listed)
  next
    case False
    then have "prune_backups e cwd dir keep v = (v', Inr n)"
      using r by (simp only: prune_backups_def Let_def keep listed) simp
    then show ?thesis using spec r by simp
  qed
  have named: "\<forall>c \<in> set ?gone. backup_named (bk_name c) \<and> place cwd c = resolve cwd dir @ [bk_name c]"
    using gone by blast
  have all: "mset (?kept @ ?gone) = mset (saved cwd dir v)" and some: "length ?kept = min ?k (length (saved cwd dir v))"
    using ms len by simp_all
  show ?thesis
    by (rule exI [of _ ?kept], rule exI [of _ ?gone]) (intro conjI all some order named conjunct1 [OF pruned] conjunct2 [OF pruned])
qed

section \<open>The path in the SQL text\<close>

lemma literal_body_plain: "c \<noteq> quote_rune \<Longrightarrow> s \<noteq> [] \<Longrightarrow>
  literal_body (c # s) = map_option (\<lambda>(b, r). (c # b, r)) (literal_body s)"
  by (cases s) simp_all

lemma literal_body_quoted:
  "literal_body (concat (map (\<lambda>c. if c = quote_rune then [c, c] else [c]) p) @ [quote_rune]) = Some (p, [])"
proof (induction p)
  case (Cons c p)
  then show ?case by (cases "c = quote_rune") (simp_all add: literal_body_plain)
qed simp

text \<open>Whatever quotes the path holds, SQL reads the literal the code writes back as that path, with nothing
  left over.\<close>

theorem quoted_path_is_one_literal: "sql_literal (sql_quoted p) = Some (p, [])"
  by (simp add: sql_quoted_def literal_body_quoted)

section \<open>The folder as the program fills it\<close>

text \<open>What happens to a folder that starts without a file named as backups are: attempts at a backup, of which
  those that fail leave no unfinished file, prunings, and other changes, which neither add nor alter a file of such
  a name. The list holds the names the attempts used.\<close>

inductive backup_folder :: "ustring \<Rightarrow> ustring \<Rightarrow> ustring list \<Rightarrow> volume \<Rightarrow> bool" for cwd dir where
  start: "wf_volume v \<Longrightarrow> (\<And>n. backup_named n \<Longrightarrow> mget (vo_files v) (resolve cwd dir @ [n]) = None) \<Longrightarrow>
    backup_folder cwd dir [] v"
| attempt: "backup_folder cwd dir ns v \<Longrightarrow> plain (backup_name e) \<Longrightarrow> take 15 (be_dump e) = sqlite_header \<Longrightarrow>
    be_fails e BkVacuum = False \<or> be_partial e = None \<Longrightarrow> backup_to e cwd dir v = (v', res) \<Longrightarrow>
    backup_folder cwd dir (backup_name e # ns) v'"
| pruned: "backup_folder cwd dir ns v \<Longrightarrow> prune_backups e cwd dir keep v = (v', res) \<Longrightarrow> backup_folder cwd dir ns v'"
| elsewhere: "backup_folder cwd dir ns v \<Longrightarrow> wf_volume v' \<Longrightarrow>
    (\<And>n. backup_named n \<Longrightarrow> mget (vo_files v') (resolve cwd dir @ [n]) \<in> {None, mget (vo_files v) (resolve cwd dir @ [n])}) \<Longrightarrow>
    backup_folder cwd dir ns v'"

definition own_backups :: "ustring \<Rightarrow> ustring \<Rightarrow> ustring list \<Rightarrow> volume \<Rightarrow> bool" where
  "own_backups cwd dir ns v \<longleftrightarrow> wf_volume v \<and> (\<forall>n f. backup_named n \<longrightarrow> mget (vo_files v) (resolve cwd dir @ [n]) = Some f \<longrightarrow>
     n \<in> set ns \<and> take 15 (bf_bytes f) = sqlite_header)"

lemma wf_volume_alt:
  "wf_volume v \<longleftrightarrow> wf_map (vo_files v) \<and> (\<forall>p f. mget (vo_files v) p = Some f \<longrightarrow> list_all plain p)
     \<and> (\<forall>d \<in> set (vo_dirs v). mget (vo_files v) d = None)"
proof (cases "wf_map (vo_files v)")
  case True
  have "list_all (\<lambda>(p, _). list_all plain p) (vo_files v) \<longleftrightarrow> (\<forall>p f. mget (vo_files v) p = Some f \<longrightarrow> list_all plain p)"
    unfolding list_all_iff [of _ "vo_files v"] set_wf_map [OF True, symmetric] by blast
  then show ?thesis using True unfolding wf_volume_def list_all_iff [of _ "vo_dirs v"] by simp
qed (simp add: wf_volume_def)

lemma wf_volume_put:
  assumes "wf_volume v" "stat cwd path v = None" "path \<noteq> []"
  shows "wf_volume (put_file cwd path f v)"
proof -
  have "resolve cwd path \<notin> set (vo_dirs v)"
    using assms(2,3) by (auto simp: stat_def node_at_def split: option.splits if_splits)
  moreover have "list_all plain (resolve cwd path)" using resolve_plain by (auto simp: list_all_iff)
  ultimately show ?thesis using assms(1) unfolding wf_volume_alt by (auto simp: put_file_def)
qed

lemma wf_volume_drop: "wf_volume v \<Longrightarrow> wf_volume (drop_file cwd path v)"
  unfolding wf_volume_alt by (auto simp: drop_file_def)

lemma wf_volume_make_dirs: "wf_volume v \<Longrightarrow> make_dirs cwd path v = Some v' \<Longrightarrow> wf_volume v'"
  unfolding wf_volume_alt by (auto simp: make_dirs_def list_ex_iff split: if_splits)

lemma remove_each_drops:
  "remove_each e cwd bs v = (v', n) \<Longrightarrow> wf_volume v \<Longrightarrow>
     wf_volume v' \<and> (\<forall>p. mget (vo_files v') p \<in> {None, mget (vo_files v) p})"
proof (induction e cwd bs v arbitrary: v' n rule: remove_each.induct)
  case (2 e cwd b bs v)
  let ?v = "drop_file cwd (bk_path b) v"
  have wf: "wf_volume ?v" by (rule wf_volume_drop [OF 2(4)])
  show ?case
  proof (cases "be_fails e (BkRemove (bk_path b)) \<or> node_at v (resolve cwd (bk_path b)) = None")
    case True
    then show ?thesis using 2(1) [OF True _ 2(4)] 2(3) by simp
  next
    case False
    obtain m where m: "remove_each e cwd bs ?v = (v', m)"
      using 2(3) False by (auto simp: Let_def split: prod.splits)
    have "wf_volume v' \<and> (\<forall>p. mget (vo_files v') p \<in> {None, mget (vo_files ?v) p})" by (rule 2(2) [OF False m wf])
    then show ?thesis by (auto split: if_splits)
  qed
qed simp

lemma backup_folder_own: "backup_folder cwd dir ns v \<Longrightarrow> own_backups cwd dir ns v"
proof (induction rule: backup_folder.induct)
  case (attempt ns v e v' res)
  let ?path = "path_join dir (backup_name e)" and ?f = "\<lparr>bf_bytes = be_dump e, bf_mtime = be_now e\<rparr>"
  have own: "own_backups cwd dir ns v" by (rule attempt.IH)
  show ?case
  proof (cases "v' = v")
    case True
    then show ?thesis using own by (auto simp: own_backups_def)
  next
    case False
    then obtain v1 where v1: "make_dirs cwd dir v = Some v1"
      "v' = v1 \<or> v' = put_file cwd ?path ?f v1 \<and> stat cwd ?path v1 = None"
      using attempt.hyps(4,5)
      by (auto simp: backup_to_def vacuum_into_def literal_body_quoted sql_quoted_def Let_def left_over_def
          split: option.splits if_splits node.splits)
    have same: "vo_files v1 = vo_files v" and dir: "dir \<noteq> []"
      using v1(1) by (auto simp: make_dirs_def split: if_splits)
    have wf1: "wf_volume v1" using own wf_volume_make_dirs v1(1) by (auto simp: own_backups_def)
    have there: "resolve cwd ?path = resolve cwd dir @ [backup_name e]" "?path \<noteq> []"
      using attempt.hyps(2) dir by simp_all
    have "wf_volume v'" using v1(2) wf1 wf_volume_put [OF wf1 _ there(2)] by auto
    then show ?thesis using own v1(2) same there(1) attempt.hyps(3) by (auto simp: own_backups_def split: if_splits)
  qed
next
  case (pruned ns v e keep v' res)
  have wf: "wf_volume v" using pruned.IH by (simp add: own_backups_def)
  have "wf_volume v' \<and> (\<forall>p. mget (vo_files v') p \<in> {None, mget (vo_files v) p})"
    using pruned.hyps(2) remove_each_drops [OF _ wf] wf
    by (auto simp: prune_backups_def Let_def split: sum.splits if_splits prod.splits)
  then show ?case using pruned.IH unfolding own_backups_def by (metis empty_iff insert_iff option.distinct(1))
next
  case (elsewhere ns v v')
  then show ?case unfolding own_backups_def by (metis empty_iff insert_iff option.distinct(1))
qed (simp add: own_backups_def)

lemma verify_backup_ok:
  assumes "file_at cwd path v = Some f" "path \<noteq> []" "take 15 (bf_bytes f) = sqlite_header" "be_fails e = (\<lambda>_. False)"
  shows "verify_backup e cwd path v = None"
proof -
  have "length (take 15 (bf_bytes f)) = 15" using assms(3) by (simp add: sqlite_header_def)
  then have "15 \<le> length (bf_bytes f)" by simp
  then show ?thesis using assms
    by (auto simp: verify_backup_def file_at_def stat_def node_at_def)
qed

text \<open>C19. In a folder where every file named as backups are was written whole by the program itself, pruning keeps
  the newest backups, as many as asked for but at least one, and every one it keeps is a usable one: a restore
  accepts it. What it deletes are older backups of the program in that folder, all the others of them, and nothing
  else on the disk changes, whatever other files the folder holds.\<close>

theorem prune_keeps_the_newest:
  assumes "backup_folder cwd dir ns v" "dir \<noteq> []" "stat cwd dir v = Some IsDir" "newest_first (be_order e)"
    "be_fails e = (\<lambda>_. False)"
  shows "\<exists>kept gone. mset (kept @ gone) = mset (saved cwd dir v)
    \<and> length kept = min (nat (max 1 keep)) (length (saved cwd dir v))
    \<and> (\<forall>b \<in> set kept. \<forall>c \<in> set gone. bk_at c \<le> bk_at b)
    \<and> (\<forall>b \<in> set kept. verify_backup e cwd (bk_path b) (fst (prune_backups e cwd dir keep v)) = None)
    \<and> (\<forall>c \<in> set gone. bk_name c \<in> set ns \<and> place cwd c = resolve cwd dir @ [bk_name c])
    \<and> snd (prune_backups e cwd dir keep v) = Inr (length gone)
    \<and> (\<forall>p. mget (vo_files (fst (prune_backups e cwd dir keep v))) p
            = (if p \<in> place cwd ` set gone then None else mget (vo_files v) p))"
proof -
  let ?v = "fst (prune_backups e cwd dir keep v)"
  have own: "own_backups cwd dir ns v" by (rule backup_folder_own [OF assms(1)])
  then have wf: "wf_volume v" by (simp add: own_backups_def)
  obtain kept gone where k: "mset (kept @ gone) = mset (saved cwd dir v)"
    "length kept = min (nat (max 1 keep)) (length (saved cwd dir v))"
    "\<forall>b \<in> set kept. \<forall>c \<in> set gone. bk_at c \<le> bk_at b"
    "\<forall>c \<in> set gone. backup_named (bk_name c) \<and> place cwd c = resolve cwd dir @ [bk_name c]"
    "snd (prune_backups e cwd dir keep v) = Inr (length gone)"
    "\<forall>p. mget (vo_files ?v) p = (if p \<in> place cwd ` set gone then None else mget (vo_files v) p)"
    using prune_by_name [OF wf assms(2-5), of keep] by blast
  have mem: "set (saved cwd dir v) = set kept \<union> set gone" using k(1) by (metis set_append set_mset_mset)
  have "distinct (map (place cwd) (kept @ gone))"
    using saved_distinct [OF wf assms(2), of cwd] mset_eq_imp_distinct_iff k(1) by (metis mset_map)
  then have apart: "place cwd b \<notin> place cwd ` set gone" if "b \<in> set kept" for b
    using that by auto
  have "verify_backup e cwd (bk_path b) ?v = None" if b: "b \<in> set kept" for b
  proof (rule saved_mem [OF wf assms(2)])
    show here: "b \<in> set (saved cwd dir v)" using b mem by simp
    fix f
    assume f: "place cwd b = resolve cwd dir @ [bk_name b]" "backup_named (bk_name b)"
      "mget (vo_files v) (place cwd b) = Some f"
    then have "take 15 (bf_bytes f) = sqlite_header" using own unfolding own_backups_def by metis
    moreover have "file_at cwd (bk_path b) ?v = Some f" using k(6) f(3) apart [OF b] by (simp add: file_at_def)
    moreover have "bk_path b \<noteq> []" using here assms(2) by (auto simp: saved_def)
    ultimately show ?thesis using verify_backup_ok assms(5) by blast
  qed
  moreover have "bk_name c \<in> set ns \<and> place cwd c = resolve cwd dir @ [bk_name c]" if c: "c \<in> set gone" for c
  proof (rule saved_mem [OF wf assms(2)])
    show "c \<in> set (saved cwd dir v)" using c mem by simp
  next
    fix f
    assume "place cwd c = resolve cwd dir @ [bk_name c]" "backup_named (bk_name c)" "mget (vo_files v) (place cwd c) = Some f"
    then show ?thesis using own unfolding own_backups_def by metis
  qed
  ultimately show ?thesis using k by blast
qed

section \<open>Taking and restoring\<close>

lemma backup_to_cases:
  assumes "backup_to e cwd dir v = (v', Inr b)"
  shows "bk_path b = path_join dir (backup_name e) \<and> bk_size b = length (be_dump e)
    \<and> file_at cwd (bk_path b) v' = Some \<lparr>bf_bytes = be_dump e, bf_mtime = be_now e\<rparr>
    \<and> file_at cwd (bk_path b) v = None
    \<and> (\<forall>p. p \<noteq> resolve cwd (bk_path b) \<longrightarrow> mget (vo_files v') p = mget (vo_files v) p)"
proof -
  let ?path = "path_join dir (backup_name e)"
  obtain v1 where v1: "make_dirs cwd dir v = Some v1" and none: "stat cwd ?path v1 = None"
    and v': "v' = put_file cwd ?path \<lparr>bf_bytes = be_dump e, bf_mtime = be_now e\<rparr> v1"
    and b: "stat cwd ?path v' \<noteq> None"
      "b = \<lparr>bk_name = backup_name e, bk_path = ?path, bk_size = length (be_dump e), bk_at = be_now e\<rparr>"
    using assms
    by (auto simp: backup_to_def vacuum_into_def literal_body_quoted sql_quoted_def stat_def node_at_def Let_def
      split: option.splits if_splits node.splits)
  have same: "vo_files v1 = vo_files v" using v1 by (auto simp: make_dirs_def split: if_splits)
  have "?path \<noteq> []" using b(1) by (auto simp: stat_def)
  then have "mget (vo_files v) (resolve cwd ?path) = None"
    using none same by (auto simp: stat_def node_at_def split: option.splits)
  then show ?thesis using v' b(2) same by (simp add: file_at_def)
qed

text \<open>A name with something appended stays an entry of the same directory.\<close>

lemma resolve_named:
  assumes "plain n" "slash \<notin> set x"
  shows "resolve cwd ((d @ slash # n) @ x) = butlast (resolve cwd (d @ slash # n)) @ [n @ x]"
proof -
  have nx: "plain (n @ x)" using assms by (auto simp: plain_def append_eq_Cons_conv)
  have r: "rooted (d @ slash # m) = rooted (d @ [slash])" for m by (cases d) (auto simp: rooted_def)
  have elems: "clean_elems True [] (split_on slash (y @ slash # m)) = clean_elems True [] (split_on slash y) @ [m]"
    if "plain m" for y m
    using that plain_facts [OF that]
    by (simp add: split_on_append split_on_no_sep clean_elems_append) (simp add: clean_elems_def)
  have "resolve cwd (d @ slash # m)
      = clean_elems True [] (split_on slash (if rooted (d @ [slash]) then d else cwd @ slash # d)) @ [m]"
    if "plain m" for m
    using elems [OF that, of d] elems [OF that, of "cwd @ slash # d"] by (simp add: resolve_def r [of m])
  then show ?thesis using assms(1) nx by simp
qed

text \<open>Where a restore works: the database \<open>db\<close> is a file of an existing directory, and nothing stands where
  it would be set aside.\<close>

definition restorable :: "bkenv \<Rightarrow> ustring \<Rightarrow> ustring \<Rightarrow> volume \<Rightarrow> bool" where
  "restorable e cwd db v \<longleftrightarrow> wf_volume v \<and> db \<noteq> []
     \<and> file_at cwd db v \<noteq> None \<and> resolve cwd db \<noteq> []
     \<and> node_at v (butlast (resolve cwd db)) = Some IsDir
     \<and> node_at v (resolve cwd (rescue_path e db)) = None
     \<and> butlast (resolve cwd (rescue_path e db)) = butlast (resolve cwd db)
     \<and> resolve cwd (rescue_path e db) \<notin> {resolve cwd db, resolve cwd (db @ runes ''-wal''), resolve cwd (db @ runes ''-shm'')}
     \<and> resolve cwd db \<notin> {resolve cwd (db @ runes ''-wal''), resolve cwd (db @ runes ''-shm'')}"

lemma restorable_named:
  assumes "wf_volume v" "plain n" "slash \<notin> set (be_stamp e)" "file_at cwd (d @ slash # n) v \<noteq> None"
    "node_at v (butlast (resolve cwd (d @ slash # n))) = Some IsDir"
    "node_at v (resolve cwd (rescue_path e (d @ slash # n))) = None"
  shows "restorable e cwd (d @ slash # n) v"
proof -
  let ?db = "d @ slash # n"
  have sfx: "slash \<notin> set (runes ''.replaced-'' @ be_stamp e)" "slash \<notin> set (runes ''-wal'')" "slash \<notin> set (runes ''-shm'')"
    using assms(3) by (simp_all add: runes_def)
  have r: "resolve cwd (?db @ x) = butlast (resolve cwd ?db) @ [n @ x]" if "slash \<notin> set x" for x
    by (rule resolve_named [OF assms(2) that])
  have db: "resolve cwd ?db = butlast (resolve cwd ?db) @ [n]" using r [of "[]"] by simp
  have differ: "runes ''.replaced-'' @ y \<noteq> []" "runes ''.replaced-'' @ y \<noteq> runes ''-wal''"
    "runes ''.replaced-'' @ y \<noteq> runes ''-shm''" "runes ''-wal'' \<noteq> []" "runes ''-shm'' \<noteq> []" for y
    by (simp_all add: runes_def)
  have last: "last (resolve cwd (?db @ x)) = n @ x" if "slash \<notin> set x" for x using r [OF that] by simp
  have ne: "resolve cwd (?db @ x) \<noteq> resolve cwd (?db @ y)" if "slash \<notin> set x" "slash \<notin> set y" "x \<noteq> y" for x y
    using last [OF that(1)] last [OF that(2)] that(3) by (metis same_append_eq)
  have "resolve cwd ?db \<noteq> []" using db by (metis snoc_eq_iff_butlast)
  moreover have "butlast (resolve cwd (rescue_path e ?db)) = butlast (resolve cwd ?db)"
    using r [OF sfx(1)] by (simp add: rescue_path_def)
  moreover have "resolve cwd (rescue_path e ?db)
      \<notin> {resolve cwd ?db, resolve cwd (?db @ runes ''-wal''), resolve cwd (?db @ runes ''-shm'')}"
    using ne [OF sfx(1), of "[]"] ne [OF sfx(1) sfx(2)] ne [OF sfx(1) sfx(3)] differ
    by (simp add: rescue_path_def)
  moreover have "resolve cwd ?db \<notin> {resolve cwd (?db @ runes ''-wal''), resolve cwd (?db @ runes ''-shm'')}"
    using ne [OF _ sfx(2), of "[]"] ne [OF _ sfx(3), of "[]"] differ by simp
  ultimately show ?thesis using assms(1,4,5,6) by (simp add: restorable_def)
qed

lemma set_aside:
  assumes "restorable e cwd db v" "file_at cwd db v = Some f"
  obtains v1 where "rename_node cwd db (rescue_path e db) v = Some v1"
    "v1 = v\<lparr>vo_files := mput (resolve cwd (rescue_path e db)) f (mdel (resolve cwd db) (vo_files v))\<rparr>"
    "stat cwd db v1 = None" "node_at v1 (butlast (resolve cwd db)) = Some IsDir"
proof -
  let ?p = "resolve cwd db" and ?q = "resolve cwd (rescue_path e db)"
  let ?v = "v\<lparr>vo_files := mput ?q f (mdel ?p (vo_files v))\<rparr>"
  have wf: "wf_volume v" and free: "node_at v ?q = None" and dirs: "node_at v (butlast ?p) = Some IsDir"
    and bl: "butlast ?q = butlast ?p" and ne: "?p \<noteq> []" "?q \<noteq> ?p"
    using assms(1) by (simp_all only: restorable_def insert_iff) simp_all
  have f: "mget (vo_files v) ?p = Some f" using assms(2) by (simp add: file_at_def)
  have nodir: "?p \<notin> set (vo_dirs v)" using wf f by (auto simp: wf_volume_def list_all_iff)
  have "node_at v ?p = Some (IsFile f)" using f by (simp add: node_at_def)
  then have 1: "rename_node cwd db (rescue_path e db) v = Some ?v" using free by (simp add: rename_node_def Let_def)
  have 2: "stat cwd db ?v = None" using ne nodir by (simp add: stat_def node_at_def)
  have "node_at v [] \<noteq> None" by (simp add: node_at_def split: option.split)
  then have "?q \<noteq> []" using free by metis
  then have "length ?q = length ?p" using bl ne(1) by (metis append_butlast_last_id length_append_singleton)
  moreover have "length (butlast ?p) < length ?p" using ne(1) by simp
  ultimately have long: "butlast ?p \<noteq> ?q" "butlast ?p \<noteq> ?p" by (metis less_irrefl)+
  have "node_at ?v (butlast ?p) = node_at v (butlast ?p)" using long by (simp add: node_at_def)
  then have 3: "node_at ?v (butlast ?p) = Some IsDir" using dirs by simp
  show ?thesis by (rule that [OF 1 refl 2 3])
qed

text \<open>C17. A backup restores the database it was taken from: whatever happened to the disk in between, as long as
  the backup's own bytes are there, the database holds afterwards exactly what \<open>VACUUM INTO\<close> wrote, the
  database it replaced is kept under the name that is reported, and no log of it is left behind.\<close>

theorem backup_restores_the_database:
  assumes "backup_to e cwd dir v = (v', Inr b)" "take 15 (be_dump e) = sqlite_header"
    "map_option bf_bytes (file_at cwd (bk_path b) w) = map_option bf_bytes (file_at cwd (bk_path b) v')"
    "restorable r cwd db w" "file_at cwd db w = Some f" "be_fails r = (\<lambda>_. False)"
    "place cwd b \<noteq> resolve cwd db" "bk_path b \<noteq> []"
  shows "let (w', res) = restore_from r cwd db (bk_path b) w in
    res = Inr (rescue_path r db)
    \<and> file_at cwd db w' = Some \<lparr>bf_bytes = be_dump e, bf_mtime = be_now r\<rparr>
    \<and> file_at cwd (rescue_path r db) w' = Some f
    \<and> file_at cwd (db @ runes ''-wal'') w' = None \<and> file_at cwd (db @ runes ''-shm'') w' = None"
proof -
  let ?p = "resolve cwd db" and ?q = "resolve cwd (rescue_path r db)"
  note rs = assms(4) [unfolded restorable_def]
  obtain g where g: "mget (vo_files w) (place cwd b) = Some g" "bf_bytes g = be_dump e"
    using backup_to_cases [OF assms(1)] assms(3) by (auto simp: file_at_def)
  then have ok: "verify_backup r cwd (bk_path b) w = None"
    using verify_backup_ok [of cwd "bk_path b" w g r] assms(2,6,8) by (simp add: file_at_def)
  obtain w1 where w1: "rename_node cwd db (rescue_path r db) w = Some w1"
    "w1 = w\<lparr>vo_files := mput ?q f (mdel ?p (vo_files w))\<rparr>" "stat cwd db w1 = None"
    "node_at w1 (butlast ?p) = Some IsDir"
    by (rule set_aside [OF assms(4,5)])
  have there: "stat cwd db w = Some (IsFile f)" "db \<noteq> []" "rescue_path r db \<noteq> []"
    using assms(5) conjunct1 [OF conjunct2 [OF rs]] by (simp_all add: file_at_def stat_def node_at_def rescue_path_def runes_def)
  have free: "node_at w ?q = None" and d: "?q \<noteq> ?p" "?q \<noteq> resolve cwd (db @ runes ''-wal'')"
    "?q \<noteq> resolve cwd (db @ runes ''-shm'')" "?p \<noteq> resolve cwd (db @ runes ''-wal'')"
    "?p \<noteq> resolve cwd (db @ runes ''-shm'')"
    using assms(4) by (simp_all only: restorable_def insert_iff) simp_all
  have "place cwd b \<noteq> ?q" using g free by (auto simp: node_at_def)
  then have "stat cwd (bk_path b) w1 = Some (IsFile g)"
    using g assms(7,8) w1(2) by (simp add: stat_def node_at_def)
  then have copied: "copy_file r cwd (bk_path b) db w1
      = (put_file cwd db \<lparr>bf_bytes = be_dump e, bf_mtime = be_now r\<rparr> w1, True)"
    using assms(6) w1(3,4) there(2) g(2) by (simp add: copy_file_def)
  have res: "restore_from r cwd db (bk_path b) w
      = (drop_sidecars r cwd db (put_file cwd db \<lparr>bf_bytes = be_dump e, bf_mtime = be_now r\<rparr> w1), Inr (rescue_path r db))"
    using ok there copied w1(1) assms(6) by (simp add: restore_from_def Let_def)
  show ?thesis
    unfolding res using assms(6) d by (simp add: drop_sidecars_def try_remove_def file_at_def w1(2))
qed

text \<open>Where the rescue name of a database in a directory leads: to another place.\<close>

lemma rescue_elsewhere:
  assumes "plain n" "slash \<notin> set (be_stamp e)"
  shows "resolve cwd (rescue_path e (d @ slash # n)) \<noteq> resolve cwd (d @ slash # n)"
proof -
  have "slash \<notin> set (runes ''.replaced-'' @ be_stamp e)" using assms(2) by (simp add: runes_def)
  from resolve_named [OF assms(1) this, of cwd d]
  have "last (resolve cwd (rescue_path e (d @ slash # n))) = n @ runes ''.replaced-'' @ be_stamp e"
    by (simp add: rescue_path_def)
  moreover have "last (resolve cwd (d @ slash # n)) = n"
    using arg_cong [OF resolve_named [OF assms(1), of "[]" cwd d], of last] by simp
  ultimately show ?thesis by (auto simp: runes_def)
qed

lemma failed_copy_frame:
  assumes "copy_file e cwd src dst v = (v', False)"
  shows "vo_dirs v' = vo_dirs v" "x \<noteq> resolve cwd dst \<Longrightarrow> mget (vo_files v') x = mget (vo_files v) x"
    "file_at cwd dst v' \<in> {file_at cwd dst v, map_option (\<lambda>bs. \<lparr>bf_bytes = bs, bf_mtime = be_now e\<rparr>) (be_partial e)}"
  using assms by (auto simp: copy_file_def left_over_def file_at_def split: option.splits node.splits if_splits)

text \<open>C18. A restore that fails never loses the current database. When it fails before the copy is begun, nothing has
  changed. When the copy fails, no file but those at the database's path and at its rescue path has changed, and:
  a database that was there is back under its own name, with nothing left at the rescue path, unless the system
  fails to rename it back, when it stands complete at the rescue path and its own name holds at most what the
  copy had written; where there was no database, its path holds at most what the copy had written. The path of the
  database is not that of a directory, and the rescue path is another one.\<close>

theorem failed_restore_keeps_the_database:
  assumes "wf_volume v" "stat cwd db v \<noteq> Some IsDir" "resolve cwd db \<noteq> []"
    "resolve cwd (rescue_path e db) \<noteq> resolve cwd db" "restore_from e cwd db path v = (v', Inl err)"
  shows "if err \<noteq> BkNotCopied then v' = v
    else (\<forall>x. x \<noteq> resolve cwd db \<and> x \<noteq> resolve cwd (rescue_path e db) \<longrightarrow> mget (vo_files v') x = mget (vo_files v) x)
      \<and> (case stat cwd db v of
           Some (IsFile f) \<Rightarrow>
             if be_fails e BkRenameBack
             then file_at cwd (rescue_path e db) v' = Some f \<and> file_at cwd db v'
                \<in> {None, map_option (\<lambda>bs. \<lparr>bf_bytes = bs, bf_mtime = be_now e\<rparr>) (be_partial e)}
             else file_at cwd db v' = Some f \<and> file_at cwd (rescue_path e db) v' = None
         | _ \<Rightarrow> file_at cwd (rescue_path e db) v' = file_at cwd (rescue_path e db) v \<and> file_at cwd db v'
              \<in> {file_at cwd db v, map_option (\<lambda>bs. \<lparr>bf_bytes = bs, bf_mtime = be_now e\<rparr>) (be_partial e)})"
proof (cases "stat cwd db v")
  case None
  consider "err \<noteq> BkNotCopied" "v' = v" | "err = BkNotCopied" "copy_file e cwd path db v = (v', False)"
    using assms(5) None
    by (auto simp: restore_from_def verify_backup_def Let_def split: option.splits if_splits prod.splits bool.splits node.splits)
  then show ?thesis
  proof cases
    case 2
    show ?thesis
      using None 2(1) failed_copy_frame(2) [OF 2(2)] failed_copy_frame(3) [OF 2(2)] assms(4) by (simp add: file_at_def)
  qed simp
next
  case (Some nd)
  then obtain f where f: "stat cwd db v = Some (IsFile f)" using assms(2) by (cases nd) auto
  let ?p = "resolve cwd db" and ?q = "resolve cwd (rescue_path e db)"
  have at_p: "mget (vo_files v) ?p = Some f"
    using f by (auto simp: stat_def node_at_def split: option.splits if_splits)
  then have nodir: "?p \<notin> set (vo_dirs v)" "node_at v ?p = Some (IsFile f)"
    using assms(1) by (auto simp: wf_volume_alt node_at_def)
  have there: "db \<noteq> []" "rescue_path e db \<noteq> []" using f by (simp_all add: stat_def rescue_path_def runes_def split: if_splits)
  let ?v = "v\<lparr>vo_files := mput ?q f (mdel ?p (vo_files v))\<rparr>"
  have aside: "rename_node cwd db (rescue_path e db) v \<in> {None, Some ?v}"
    using nodir(2) by (simp add: rename_node_def Let_def)
  consider "err \<noteq> BkNotCopied" "v' = v"
    | v2 where "err = BkNotCopied" "copy_file e cwd path db ?v = (v2, False)"
      "v' = (if be_fails e BkRenameBack then v2
             else case rename_node cwd (rescue_path e db) db v2 of None \<Rightarrow> v2 | Some v3 \<Rightarrow> v3)"
    using assms(5) f there aside
    by (auto simp: restore_from_def verify_backup_def Let_def split: option.splits if_splits prod.splits bool.splits node.splits)
  then show ?thesis
  proof cases
    case 2
    note fr = failed_copy_frame [OF 2(2)]
    have q: "mget (vo_files v2) ?q = Some f" using fr(2) [OF assms(4)] by simp
    have p: "node_at v2 ?p \<noteq> Some IsDir"
      using nodir(1) assms(3) fr(1) by (auto simp: node_at_def split: option.splits)
    have rb: "rename_node cwd (rescue_path e db) db v2 = Some (v2\<lparr>vo_files := mput ?p f (mdel ?q (vo_files v2))\<rparr>)"
      using q p by (simp add: rename_node_def Let_def node_at_def)
    have rest: "mget (vo_files v2) x = mget (vo_files v) x" if "x \<noteq> ?p" "x \<noteq> ?q" for x
      using fr(2) [OF that(1)] that by simp
    show ?thesis
    proof (cases "be_fails e BkRenameBack")
      case True
      then have "v' = v2" using 2(3) by simp
      then show ?thesis using True 2(1) q rest fr(3) f assms(4) by (simp add: file_at_def)
    next
      case False
      then have "v' = v2\<lparr>vo_files := mput ?p f (mdel ?q (vo_files v2))\<rparr>" using 2(3) rb by simp
      then show ?thesis using False 2(1) rest f assms(4) by (simp add: file_at_def)
    qed
  qed simp
qed

section \<open>What a failed backup leaves\<close>

text \<open>A backup whose writing failed leaves what was written under the name of a backup, with the newest time:
  it is listed, counts as one of those to keep, and pushes out a good one.\<close>

lemma failed_backup_is_listed:
  assumes "wf_volume v" "dir \<noteq> []" "plain (backup_name e)" "make_dirs cwd dir v = Some v1"
    "stat cwd (path_join dir (backup_name e)) v1 = None" "be_fails e = (\<lambda>c. c = BkVacuum)" "be_partial e = Some bs"
    "backup_to e cwd dir v = (v', res)"
  shows "res = Inl BkVacuumFailed \<and> \<lparr>bk_name = backup_name e, bk_path = path_join dir (backup_name e),
      bk_size = length bs, bk_at = be_now e\<rparr> \<in> set (saved cwd dir v')"
proof -
  let ?path = "path_join dir (backup_name e)" and ?f = "\<lparr>bf_bytes = bs, bf_mtime = be_now e\<rparr>"
  have res: "backup_to e cwd dir v = (put_file cwd ?path ?f v1, Inl BkVacuumFailed)"
    using assms(4-7) by (simp add: backup_to_def Let_def vacuum_into_def sql_quoted_def literal_body_quoted left_over_def)
  have "vo_files v1 = vo_files v" using assms(4) by (auto simp: make_dirs_def split: if_splits)
  then have files: "vo_files (put_file cwd ?path ?f v1) = mput (resolve cwd dir @ [backup_name e]) ?f (vo_files v)"
    using assms(2,3) by (simp add: put_file_def)
  have "(resolve cwd dir @ [backup_name e], ?f) \<in> set (mput (resolve cwd dir @ [backup_name e]) ?f (vo_files v))"
    by (rule map_of_SomeD) simp
  then have "(backup_name e, ?f) \<in> set (entries (put_file cwd ?path ?f v1) (resolve cwd dir))"
    unfolding entries_def files by (force simp: image_iff)
  moreover have "backup_named (backup_name e)" by (simp add: backup_named_def backup_name_def suffix_def)
  ultimately show ?thesis
    using assms(8) res by (force simp: saved_def image_iff)
qed

section \<open>A server with two backups\<close>

definition two_backups :: volume where
  "two_backups = \<lparr>vo_dirs = [[runes ''data''], [runes ''data'', runes ''backups'']],
     vo_files = [([runes ''data'', runes ''backups'', runes ''tamizchat-1.db''], \<lparr>bf_bytes = sqlite_header, bf_mtime = 5\<rparr>),
       ([runes ''data'', runes ''backups'', runes ''tamizchat-mine.db''], \<lparr>bf_bytes = [1], bf_mtime = 3\<rparr>),
       ([runes ''data'', runes ''chat.db''], \<lparr>bf_bytes = [7], bf_mtime = 9\<rparr>)]\<rparr>"

definition calm_bk :: bkenv where
  "calm_bk = \<lparr>be_fails = (\<lambda>_. False), be_now = 20, be_stamp = runes ''20260102-030405'', be_dump = sqlite_header @ [0, 9],
     be_partial = None, be_order = sort_key (\<lambda>b. - bk_at b)\<rparr>"

lemma calm_bk_order: "newest_first (be_order calm_bk)"
proof -
  have "sorted_wrt (\<lambda>a b. bk_at b \<le> bk_at a) (sort_key (\<lambda>b. - bk_at b) bs)" for bs :: "backup list"
    using sorted_sort_key [of "\<lambda>b. - bk_at b" bs] by (simp add: sorted_map)
  then show ?thesis by (simp add: newest_first_def calm_bk_def)
qed

lemma two_backups_wf: "wf_volume two_backups"
  by (simp add: wf_volume_def two_backups_def wf_map_def plain_def runes_def)

abbreviation backups_dir :: ustring where "backups_dir \<equiv> runes ''data/backups''"
abbreviation chat_db :: ustring where "chat_db \<equiv> runes ''data'' @ slash # runes ''chat.db''"

lemmas disk_eval = resolve_def rooted_def clean_elems_def clean_step_def runes_def stat_def node_at_def

lemma two_backups_dir: "stat [slash] backups_dir two_backups = Some IsDir"
  by (simp add: disk_eval two_backups_def)

text \<open>The second file is an operator's own: its name is enough to have it deleted.\<close>

lemma operators_file_is_pruned:
  "map (map (map char_of) \<circ> fst) (vo_files (fst (prune_backups calm_bk [slash] backups_dir 1 two_backups)))
     = [[''data'', ''backups'', ''tamizchat-1.db''], [''data'', ''chat.db'']]"
  by code_simp

text \<open>Two nights of backups in a folder that was empty, and a pruning to one.\<close>

definition first_day :: volume where
  "first_day = \<lparr>vo_dirs = [[runes ''data''], [runes ''data'', runes ''backups'']],
     vo_files = [([runes ''data'', runes ''chat.db''], \<lparr>bf_bytes = [7], bf_mtime = 9\<rparr>),
       ([runes ''data'', runes ''backups'', runes ''notes.txt''], \<lparr>bf_bytes = [1], bf_mtime = 3\<rparr>)]\<rparr>"

definition night :: "nat \<Rightarrow> bkenv" where
  "night i = calm_bk\<lparr>be_now := int i, be_stamp := runes ''2026010'' @ [48 + i] @ runes ''-030000''\<rparr>"

definition second_day :: volume where "second_day = fst (backup_to (night 1) [slash] backups_dir first_day)"
definition third_day :: volume where "third_day = fst (backup_to (night 2) [slash] backups_dir second_day)"

lemma third_day_folder: "backup_folder [slash] backups_dir [backup_name (night 2), backup_name (night 1)] third_day"
proof -
  have "mget (vo_files first_day) (resolve [slash] backups_dir @ [n]) = None" if "backup_named n" for n
    using that by (auto simp: backup_named_def backup_prefix_def disk_eval first_day_def)
  moreover have "wf_volume first_day" by code_simp
  ultimately have f: "backup_folder [slash] backups_dir [] first_day" by (rule backup_folder.start [rotated])
  have p: "plain (backup_name (night 1))" "plain (backup_name (night 2))" by code_simp+
  have d: "take 15 (be_dump (night i)) = sqlite_header" "be_fails (night i) BkVacuum = False" for i
    by (simp_all add: night_def calm_bk_def sqlite_header_def)
  have "backup_folder [slash] backups_dir [backup_name (night 1)] second_day"
    using backup_folder.attempt [OF f p(1) d(1) disjI1 [OF d(2)]] unfolding second_day_def by (metis prod.collapse)
  from backup_folder.attempt [OF this p(2) d(1) disjI1 [OF d(2)]]
  show ?thesis unfolding third_day_def by (metis prod.collapse)
qed

theorem prune_keeps_the_newest_witness:
  "\<exists>b c. bk_at c \<le> bk_at b \<and> mset [b, c] = mset (saved [slash] backups_dir third_day)
    \<and> verify_backup calm_bk [slash] (bk_path b) (fst (prune_backups calm_bk [slash] backups_dir 1 third_day)) = None
    \<and> file_at [slash] (bk_path c) (fst (prune_backups calm_bk [slash] backups_dir 1 third_day)) = None
    \<and> snd (prune_backups calm_bk [slash] backups_dir 1 third_day) = Inr 1"
proof -
  have two: "length (saved [slash] backups_dir third_day) = 2" by code_simp
  have dir: "backups_dir \<noteq> []" "stat [slash] backups_dir third_day = Some IsDir" by code_simp+
  have c: "be_fails calm_bk = (\<lambda>_. False)" by (simp add: calm_bk_def)
  obtain kept gone where k: "mset (kept @ gone) = mset (saved [slash] backups_dir third_day)"
    "length kept = min (nat (max 1 1)) (length (saved [slash] backups_dir third_day))"
    "\<forall>b \<in> set kept. \<forall>c \<in> set gone. bk_at c \<le> bk_at b"
    "\<forall>b \<in> set kept. verify_backup calm_bk [slash] (bk_path b) (fst (prune_backups calm_bk [slash] backups_dir 1 third_day)) = None"
    "snd (prune_backups calm_bk [slash] backups_dir 1 third_day) = Inr (length gone)"
    "\<forall>p. mget (vo_files (fst (prune_backups calm_bk [slash] backups_dir 1 third_day))) p
            = (if p \<in> place [slash] ` set gone then None else mget (vo_files third_day) p)"
    using prune_keeps_the_newest [OF third_day_folder dir calm_bk_order c, of 1] by blast
  have "length kept = 1" using k(2) two by simp
  moreover have "length (kept @ gone) = 2" using k(1) two by (metis size_mset)
  ultimately obtain b c where bc: "kept = [b]" "gone = [c]"
    by (auto simp: length_Suc_conv numeral_2_eq_2)
  show ?thesis
    using k by (intro exI [of _ b] exI [of _ c]) (simp add: bc file_at_def)
qed

definition one_more :: "volume \<times> (bk_error + backup)" where
  "one_more = backup_to calm_bk [slash] backups_dir two_backups"

definition new_backup :: backup where
  "new_backup = \<lparr>bk_name = runes ''tamizchat-20260102-030405.db'',
     bk_path = runes ''data/backups/tamizchat-20260102-030405.db'', bk_size = 17, bk_at = 20\<rparr>"

lemma one_more_eq: "backup_to calm_bk [slash] backups_dir two_backups = (fst one_more, Inr new_backup)"
proof -
  have "snd one_more = Inr new_backup" by code_simp
  then show ?thesis unfolding one_more_def by (metis prod.collapse)
qed

lemma chat_db_restorable: "restorable calm_bk [slash] chat_db (fst one_more)"
proof (rule restorable_named)
  show "wf_volume (fst one_more)" by code_simp
  show "file_at [slash] chat_db (fst one_more) \<noteq> None"
    "node_at (fst one_more) (butlast (resolve [slash] chat_db)) = Some IsDir"
    "node_at (fst one_more) (resolve [slash] (rescue_path calm_bk chat_db)) = None"
    by code_simp+
qed (simp_all add: plain_def runes_def calm_bk_def)

theorem backup_restores_the_database_witness:
  "snd (restore_from calm_bk [slash] chat_db (bk_path new_backup) (fst one_more)) = Inr (rescue_path calm_bk chat_db)
   \<and> file_at [slash] chat_db (fst (restore_from calm_bk [slash] chat_db (bk_path new_backup) (fst one_more)))
       = Some \<lparr>bf_bytes = sqlite_header @ [0, 9], bf_mtime = 20\<rparr>"
proof -
  have f: "file_at [slash] chat_db (fst one_more) = Some \<lparr>bf_bytes = [7], bf_mtime = 9\<rparr>" by code_simp
  have h: "take 15 (be_dump calm_bk) = sqlite_header" by code_simp
  have d: "place [slash] new_backup \<noteq> resolve [slash] chat_db" "bk_path new_backup \<noteq> []" by code_simp+
  have c: "be_fails calm_bk = (\<lambda>_. False)" by (simp add: calm_bk_def)
  show ?thesis
    using backup_restores_the_database [OF one_more_eq h refl chat_db_restorable f c d]
    by (auto simp: Let_def calm_bk_def split: prod.splits)
qed

definition failing_bk :: bkenv where
  "failing_bk = calm_bk\<lparr>be_fails := (\<lambda>c. c = BkWrite), be_partial := Some [1, 2]\<rparr>"

theorem failed_restore_keeps_the_database_witness:
  "file_at [slash] chat_db (fst (restore_from failing_bk [slash] chat_db (bk_path new_backup) (fst one_more)))
     = Some \<lparr>bf_bytes = [7], bf_mtime = 9\<rparr>"
proof -
  let ?out = "restore_from failing_bk [slash] chat_db (bk_path new_backup) (fst one_more)"
  have "snd ?out = Inl BkNotCopied" by code_simp
  then have res: "?out = (fst ?out, Inl BkNotCopied)" by (metis prod.collapse)
  have wf: "wf_volume (fst one_more)" by code_simp
  have f: "stat [slash] chat_db (fst one_more) = Some (IsFile \<lparr>bf_bytes = [7], bf_mtime = 9\<rparr>)" by code_simp
  have p: "resolve [slash] chat_db \<noteq> []" by code_simp
  have q: "resolve [slash] (rescue_path failing_bk chat_db) \<noteq> resolve [slash] chat_db"
    by (rule rescue_elsewhere) (simp_all add: plain_def runes_def failing_bk_def calm_bk_def)
  have b: "\<not> be_fails failing_bk BkRenameBack" by (simp add: failing_bk_def)
  show ?thesis
    using failed_restore_keeps_the_database [OF wf _ p q res] f b by simp
qed

text \<open>A restore that finds no database, and one that cannot rename back: when the copy breaks off, what it had
  written stands where the database belongs.\<close>

lemma failed_first_restore_leaves_its_piece:
  "let (v, res) = restore_from failing_bk [slash] chat_db (bk_path new_backup) (drop_file [slash] chat_db (fst one_more)) in
     res = Inl BkNotCopied \<and> map_option bf_bytes (file_at [slash] chat_db v) = Some [1, 2]"
  by code_simp

lemma failed_rename_back_leaves_a_piece:
  "let (v, res) = restore_from (failing_bk\<lparr>be_fails := \<lambda>c. c = BkWrite \<or> c = BkRenameBack\<rparr>) [slash] chat_db
      (bk_path new_backup) (fst one_more) in
     res = Inl BkNotCopied \<and> map_option bf_bytes (file_at [slash] chat_db v) = Some [1, 2]"
  by code_simp

end
