(* ===== verification/Storage_Queries.thy ===== *)
theory Storage_Queries
  imports Storage "HOL-Library.Multiset"
begin

text \<open>
  The rest of the statements on the tables of \<open>Storage\<close>: looking up one role or room, what the panel lists
  (\<open>RecentModLog\<close>, \<open>RecentUsers\<close>, \<open>CountUsers\<close>), and the identity of the installation with the UUIDs the
  server makes up (\<open>ServerUUID\<close>, \<open>NewUUID\<close> of \<open>internal/storage/settings.go\<close>).
\<close>

section \<open>Looking up and listing\<close>

definition db_get_role :: "env \<Rightarrow> string \<Rightarrow> db \<Rightarrow> store_error + role" where
  "db_get_role e i d =
     (if fails e GetRole then Inl DbError
      else case find (\<lambda>r. role_id r = i) (t_roles d) of None \<Rightarrow> Inl RoleNotFound | Some r \<Rightarrow> Inr r)"

definition db_get_room :: "env \<Rightarrow> string \<Rightarrow> db \<Rightarrow> store_error + room_def" where
  "db_get_room e i d =
     (if fails e GetRoom then Inl DbError
      else case find (\<lambda>r. rd_id r = i) (t_rooms d) of None \<Rightarrow> Inl RoomNotFound | Some r \<Rightarrow> Inr r)"

text \<open>A negative \<open>LIMIT\<close> is no limit in SQLite.\<close>

definition sql_limit :: "int \<Rightarrow> 'a list \<Rightarrow> 'a list" where
  "sql_limit n xs = (if n < 0 then xs else take (nat n) xs)"

text \<open>The ids of the log grow with each entry, so the table is in their order; \<open>ORDER BY at DESC, id DESC\<close> is
  the stable sort of the reversed table. Users of one moment come in the order of their rows.\<close>

definition db_recent_mod_log :: "env \<Rightarrow> int \<Rightarrow> db \<Rightarrow> store_error + mod_entry list" where
  "db_recent_mod_log e n d =
     (if fails e RecentModLog then Inl DbError
      else Inr (sql_limit n (sort_key (\<lambda>m. - me_at m) (rev (t_mod_log d)))))"

definition db_recent_users :: "env \<Rightarrow> int \<Rightarrow> db \<Rightarrow> store_error + known_user list" where
  "db_recent_users e n d =
     (if fails e RecentUsers then Inl DbError
      else Inr (sql_limit n (sort_key (\<lambda>u. - ku_last_seen u) (t_users d))))"

definition db_count_users :: "env \<Rightarrow> db \<Rightarrow> store_error + nat" where
  "db_count_users e d = (if fails e CountUsers then Inl DbError else Inr (length (t_users d)))"

section \<open>The identity of the server\<close>

definition hex_rune :: "nat \<Rightarrow> rune" where
  "hex_rune n = (if n < 10 then 48 + n else 87 + n)"

definition hex_byte :: "8 word \<Rightarrow> ustring" where
  "hex_byte b = [hex_rune (unat b div 16), hex_rune (unat b mod 16)]"

definition hex_bytes :: "8 word list \<Rightarrow> ustring" where
  "hex_bytes bs = concat (map hex_byte bs)"

text \<open>\<open>NewUUID\<close> of the sixteen bytes the random source yields; without them it panics.\<close>

definition new_uuid_of :: "8 word list \<Rightarrow> ustring" where
  "new_uuid_of b =
     (let b = b[6 := (b ! 6 AND 0x0F) OR 0x40];
          b = b[8 := (b ! 8 AND 0x3F) OR 0x80];
          part = \<lambda>i j. hex_bytes (take (j - i) (drop i b)) in
      part 0 4 @ [45] @ part 4 6 @ [45] @ part 6 8 @ [45] @ part 8 10 @ [45] @ part 10 16)"

text \<open>\<open>row\<close> is the one row of \<open>server_identity\<close>, and \<open>fresh\<close> what \<open>NewUUID\<close> returns.\<close>

definition server_uuid :: "env \<Rightarrow> ustring \<Rightarrow> ustring option \<Rightarrow> ustring option \<times> (store_error + ustring)" where
  "server_uuid e fresh row =
     (if fails e ReadIdentity then (row, Inl DbError)
      else case row of
        Some i \<Rightarrow> (row, Inr i)
      | None \<Rightarrow> if fails e CreateIdentity then (row, Inl DbError) else (Some fresh, Inr fresh))"

fun starts :: "(env \<times> ustring) list \<Rightarrow> ustring option \<Rightarrow> (store_error + ustring) list" where
  "starts [] row = []"
| "starts ((e, fresh) # es) row = (let (row', r) = server_uuid e fresh row in r # starts es row')"

section \<open>Properties\<close>

lemma is_hex_rune: "n < 16 \<Longrightarrow> is_hex (hex_rune n) \<and> lower_ascii (hex_rune n) = hex_rune n"
  by (auto simp: is_hex_def lower_ascii_def hex_rune_def)

lemma byte_nibbles: "unat (b :: 8 word) div 16 < 16" "unat b mod 16 < 16"
proof -
  have "unat b < 2 ^ LENGTH(8)" by (rule unsigned_less)
  then show "unat b div 16 < 16" "unat b mod 16 < 16" by simp_all
qed

lemmas nibble_hex = is_hex_rune [OF byte_nibbles(1)] is_hex_rune [OF byte_nibbles(2)]

lemma not_space_hex: "is_hex r \<Longrightarrow> \<not> is_space r"
  by (auto simp: is_hex_def is_space_def)

lemma ends_kept: "s \<noteq> [] \<Longrightarrow> \<not> P (hd s) \<Longrightarrow> \<not> P (last s) \<Longrightarrow> trim_by P s = s"
proof -
  assume s: "s \<noteq> []" "\<not> P (hd s)" "\<not> P (last s)"
  have "dropWhile P s = s" using s(1,2) by (cases s) auto
  moreover have "dropWhile P (rev s) = rev s" using s(1,3) by (cases s rule: rev_cases) auto
  ultimately show ?thesis by (simp add: trim_by_def)
qed

lemma uuid_text_accepted:
  assumes "match_uuid s" "map lower_ascii s = s" "s \<noteq> []" "is_hex (hd s)" "is_hex (last s)"
  shows "normalize_client_uuid s = Inr s"
  using assms ends_kept [of s is_space] not_space_hex
  by (simp add: normalize_client_uuid_def trim_space_def)

lemma high_nibble: "unat (b :: 8 word) div 16 = unat (drop_bit 4 b)"
  by (simp add: unat_drop_bit_eq drop_bit_nat_def)

lemma version_nibble: "unat (((b :: 8 word) AND 0x0F) OR 0x40) div 16 = 4"
  unfolding high_nibble by (simp add: drop_bit_and drop_bit_or)

lemma variant_nibble: "unat (((b :: 8 word) AND 0x3F) OR 0x80) div 16 \<in> {8, 9, 10, 11}"
proof -
  have "drop_bit 4 ((b AND 0x3F) OR 0x80) = take_bit 2 (drop_bit 4 b) OR 8"
    by (simp add: drop_bit_and drop_bit_or take_bit_eq_mask mask_numeral mask_eq_exp_minus_1)
  moreover have "take_bit 2 (drop_bit 4 b) \<in> {0, 1, 2, 3}"
  proof -
    have "unat (take_bit 2 (drop_bit 4 b)) < 4"
      by (simp add: unsigned_take_bit_eq take_bit_nat_def)
    then have "unat (take_bit 2 (drop_bit 4 b)) \<in> {0, 1, 2, 3}" by auto
    then show ?thesis by (auto simp flip: word_unat_eq_iff dest: arg_cong [where f = "of_nat :: nat \<Rightarrow> 8 word"])
  qed
  ultimately show ?thesis unfolding high_nibble by auto
qed

text \<open>Every UUID the server makes up, whatever the random bytes, is a version 4 UUID in the form the server
  itself demands of clients, and normalizing it changes nothing.\<close>

theorem new_uuid_is_canonical:
  assumes "length b = 16"
  shows "normalize_client_uuid (new_uuid_of b) = Inr (new_uuid_of b) \<and> length (new_uuid_of b) = 36
    \<and> new_uuid_of b ! 14 = 52 \<and> new_uuid_of b ! 19 \<in> {56, 57, 97, 98}"
proof -
  obtain b0 b1 b2 b3 b4 b5 b6 b7 b8 b9 b10 b11 b12 b13 b14 b15
    where b: "b = [b0, b1, b2, b3, b4, b5, b6, b7, b8, b9, b10, b11, b12, b13, b14, b15]"
    using assms by (auto simp: numeral_eq_Suc length_Suc_conv)
  let ?b6 = "(b6 AND 0x0F) OR 0x40" and ?b8 = "(b8 AND 0x3F) OR 0x80"
  have u: "new_uuid_of b = concat (map hex_byte [b0, b1, b2, b3]) @ 45 # concat (map hex_byte [b4, b5])
      @ 45 # concat (map hex_byte [?b6, b7]) @ 45 # concat (map hex_byte [?b8, b9])
      @ 45 # concat (map hex_byte [b10, b11, b12, b13, b14, b15])"
    by (simp add: new_uuid_of_def b hex_bytes_def Let_def)
  have low: "lower_ascii 45 = 45" by (simp add: lower_ascii_def)
  have "normalize_client_uuid (new_uuid_of b) = Inr (new_uuid_of b)"
    by (rule uuid_text_accepted) (simp_all add: u hex_byte_def match_uuid_def uuid_pattern_eval nibble_hex low)
  moreover have "length (new_uuid_of b) = 36" by (simp add: u hex_byte_def)
  moreover have "new_uuid_of b ! 14 = hex_rune 4" by (simp add: u hex_byte_def version_nibble del: push_bit_numeral)
  moreover have "new_uuid_of b ! 19 = hex_rune (unat ?b8 div 16)" by (simp add: u hex_byte_def)
  ultimately show ?thesis using variant_nibble [of b8] by (auto simp: hex_rune_def)
qed

theorem new_uuid_is_canonical_witness:
  "normalize_client_uuid (new_uuid_of (replicate 16 0xFF)) = Inr (new_uuid_of (replicate 16 0xFF))"
  using new_uuid_is_canonical [of "replicate 16 0xFF"] by simp

text \<open>The server keeps its identity: once it has told one, every later start tells the same or fails, and no
  new one is ever made up.\<close>

lemma starts_known: "list_all (\<lambda>r. r = Inr i \<or> r = Inl DbError) (starts es (Some i))"
  by (induction es) (auto simp: server_uuid_def)

theorem identity_is_stable:
  assumes "snd (server_uuid e fresh row) = Inr i"
  shows "fst (server_uuid e fresh row) = Some i
    \<and> list_all (\<lambda>r. r = Inr i \<or> r = Inl DbError) (starts es (fst (server_uuid e fresh row)))"
proof -
  have "fst (server_uuid e fresh row) = Some i"
    using assms by (auto simp: server_uuid_def split: if_splits option.splits)
  then show ?thesis by (simp add: starts_known)
qed

text \<open>The log that the panel shows starts with the newest entry and leaves out only older ones.\<close>

lemma recent_mod_log_newest:
  assumes "\<not> fails e RecentModLog" "0 \<le> n"
  shows "\<exists>shown hidden. db_recent_mod_log e n d = Inr shown \<and> mset (shown @ hidden) = mset (t_mod_log d)
    \<and> length shown = min (nat n) (length (t_mod_log d))
    \<and> sorted_wrt (\<lambda>a b. me_at b \<le> me_at a) (shown @ hidden)"
proof -
  let ?l = "sort_key (\<lambda>m. - me_at m) (rev (t_mod_log d))"
  have srt: "sorted_wrt (\<lambda>a b. me_at b \<le> me_at a) ?l"
    using sorted_sort_key [of "\<lambda>m. - me_at m" "rev (t_mod_log d)"] by (simp add: sorted_map)
  show ?thesis
    by (rule exI [of _ "take (nat n) ?l"], rule exI [of _ "drop (nat n) ?l"])
      (use srt assms in \<open>simp add: db_recent_mod_log_def sql_limit_def min.commute\<close>)
qed

text \<open>Looking a role up finds what the last update of it wrote.\<close>

lemma get_role_after_update:
  assumes "db_update_role e r d = Inr d'" "\<not> fails e' GetRole"
  shows "\<exists>x. db_get_role e' (role_id r) d' = Inr x \<and> x = r\<lparr>role_created_at := role_created_at x\<rparr>"
proof -
  have d': "d' = d\<lparr>t_roles := map (\<lambda>x. if role_id x = role_id r
      then r\<lparr>role_created_at := role_created_at x\<rparr> else x) (t_roles d)\<rparr>"
    and mem: "role_id r \<in> set (map role_id (t_roles d))"
    using assms(1) by (auto simp: db_update_role_def split: if_splits)
  obtain y where "y \<in> set (t_roles d)" "role_id y = role_id r" using mem by auto
  then have "r\<lparr>role_created_at := role_created_at y\<rparr> \<in> set (t_roles d')" unfolding d' by force
  then have "\<exists>x \<in> set (t_roles d'). role_id x = role_id r"
    by (rule bexI [rotated]) simp
  then have "find (\<lambda>x. role_id x = role_id r) (t_roles d') \<noteq> None" by (auto simp: find_None_iff)
  then obtain x where x: "find (\<lambda>x. role_id x = role_id r) (t_roles d') = Some x" by blast
  then have "x \<in> set (t_roles d')" "role_id x = role_id r" by (auto simp: find_Some_iff in_set_conv_nth)
  then have "x = r\<lparr>role_created_at := role_created_at x\<rparr>" unfolding d' by auto
  then show ?thesis using x assms(2) by (simp add: db_get_role_def)
qed

end
