(* ===== verification/Addresses.thy ===== *)
theory Addresses
  imports Config
begin

unbundle bit_operations_syntax

text \<open>
  Whose address counts: \<open>internal/httpapi/clientip.go\<close>, with what it uses of the package \<open>net\<close>. An address
  is the list of its bytes, sixteen of them, an IPv4 address mapped into them as Go does.
\<close>

section \<open>Parsing addresses\<close>

definition octet :: "ustring \<Rightarrow> 8 word option" where
  "octet f =
     (if f = [] \<or> \<not> list_all is_digit f \<or> (length f > 1 \<and> hd f = 48) \<or> digits_val f > 255 then None
      else Some (word_of_int (digits_val f)))"

fun all_some :: "'a option list \<Rightarrow> 'a list option" where
  "all_some [] = Some []"
| "all_some (None # _) = None"
| "all_some (Some x # xs) = map_option ((#) x) (all_some xs)"

definition parse_ipv4 :: "ustring \<Rightarrow> 8 word list option" where
  "parse_ipv4 s =
     (let fs = split_on 46 s in if length fs = 4 then all_some (map octet fs) else None)"

definition hex_val :: "rune \<Rightarrow> nat" where
  "hex_val r = (if r \<le> 57 then r - 48 else if r \<le> 70 then r - 55 else r - 87)"

definition hex_group :: "ustring \<Rightarrow> 8 word list" where
  "hex_group ds = (let n = foldl (\<lambda>n r. 16 * n + hex_val r) 0 ds in [of_nat (n div 256), of_nat (n mod 256)])"

text \<open>The loop of \<open>netip.parseIPv6\<close>: \<open>k\<close> groups fit yet, \<open>ip\<close> are the bytes so far, \<open>e\<close> where the ellipsis
  stands, \<open>s\<close> what is left of the text.\<close>

fun ipv6_groups :: "nat \<Rightarrow> 8 word list \<Rightarrow> nat option \<Rightarrow> ustring \<Rightarrow> (8 word list \<times> nat option \<times> ustring) option" where
  "ipv6_groups 0 ip e s = Some (ip, e, s)"
| "ipv6_groups (Suc k) ip e s =
     (let ds = takeWhile is_hex s; rest = dropWhile is_hex s in
      if ds = [] \<or> length ds > 4 then None
      else if rest \<noteq> [] \<and> hd rest = 46 then
        (if e = None \<and> length ip \<noteq> 12 \<or> length ip + 4 > 16 then None
         else map_option (\<lambda>b. (ip @ b, e, [])) (parse_ipv4 s))
      else
        (let ip' = ip @ hex_group ds in
         case rest of
           [] \<Rightarrow> Some (ip', e, [])
         | c # s1 \<Rightarrow>
             if c \<noteq> colon \<or> s1 = [] then None
             else if hd s1 \<noteq> colon then ipv6_groups k ip' e s1
             else if e \<noteq> None then None
             else if tl s1 = [] then Some (ip', Some (length ip'), [])
             else ipv6_groups k ip' (Some (length ip')) (tl s1)))"

definition expand :: "8 word list \<times> nat option \<times> ustring \<Rightarrow> 8 word list option" where
  "expand = (\<lambda>(ip, e, s).
     if s \<noteq> [] then None
     else if length ip < 16 then
       (case e of None \<Rightarrow> None | Some i \<Rightarrow> Some (take i ip @ replicate (16 - length ip) 0 @ drop i ip))
     else if e \<noteq> None then None else Some ip)"

definition parse_ipv6 :: "ustring \<Rightarrow> 8 word list option" where
  "parse_ipv6 s =
     (if 37 \<in> set s then None
      else if take 2 s = [colon, colon] then
        (if drop 2 s = [] then Some (replicate 16 0)
         else Option.bind (ipv6_groups 8 [] (Some 0) (drop 2 s)) expand)
      else Option.bind (ipv6_groups 8 [] None s) expand)"

datatype ip_addr = V4 "8 word list" | V6 "8 word list"

definition parse_addr :: "ustring \<Rightarrow> ip_addr option" where
  "parse_addr s =
     (case find (\<lambda>c. c = 46 \<or> c = colon \<or> c = 37) s of
        None \<Rightarrow> None
      | Some c \<Rightarrow>
          if c = 46 then map_option V4 (parse_ipv4 s)
          else if c = colon then map_option V6 (parse_ipv6 s) else None)"

fun as16 :: "ip_addr \<Rightarrow> 8 word list" where
  "as16 (V4 b) = replicate 10 0 @ [0xFF, 0xFF] @ b"
| "as16 (V6 b) = b"

fun bit_len :: "ip_addr \<Rightarrow> nat" where
  "bit_len (V4 _) = 32"
| "bit_len (V6 _) = 128"

definition parse_ip :: "ustring \<Rightarrow> 8 word list option" where
  "parse_ip s = map_option as16 (parse_addr s)"

definition to4 :: "8 word list \<Rightarrow> 8 word list option" where
  "to4 ip =
     (if length ip = 4 then Some ip
      else if length ip = 16 \<and> take 12 ip = replicate 10 0 @ [0xFF, 0xFF] then Some (drop 12 ip) else None)"

section \<open>Blocks of addresses\<close>

record ipnet =
  nt_ip :: "8 word list"
  nt_mask :: "8 word list"

text \<open>\<open>net.CIDRMask\<close>: the first \<open>n\<close> bits of \<open>k\<close> bytes.\<close>

fun mask_bytes :: "nat \<Rightarrow> nat \<Rightarrow> 8 word list" where
  "mask_bytes 0 n = []"
| "mask_bytes (Suc k) n = (if n \<ge> 8 then 0xFF # mask_bytes k (n - 8) else NOT (drop_bit n 0xFF) # mask_bytes k 0)"

definition and_bytes :: "8 word list \<Rightarrow> 8 word list \<Rightarrow> 8 word list" where
  "and_bytes a m = map2 (AND) a m"

fun cidr_block :: "ip_addr \<Rightarrow> nat \<Rightarrow> ipnet" where
  "cidr_block (V4 b) n = \<lparr>nt_ip = and_bytes b (mask_bytes 4 n), nt_mask = mask_bytes 4 n\<rparr>"
| "cidr_block (V6 b) n = \<lparr>nt_ip = and_bytes b (mask_bytes 16 n), nt_mask = mask_bytes 16 n\<rparr>"

definition cidr_parts :: "ustring \<Rightarrow> (ip_addr \<times> nat) option" where
  "cidr_parts s =
     (let a = takeWhile (\<lambda>c. c \<noteq> 47) s; m = drop (length a + 1) s in
      if 47 \<notin> set s then None
      else case parse_addr a of
        None \<Rightarrow> None
      | Some ip \<Rightarrow>
          if m = [] \<or> \<not> list_all is_digit m \<or> digits_val m > int (bit_len ip) then None
          else Some (ip, nat (digits_val m)))"

definition parse_cidr :: "ustring \<Rightarrow> ipnet option" where
  "parse_cidr s = map_option (\<lambda>(a, n). cidr_block a n) (cidr_parts s)"

definition contains_ip :: "ipnet \<Rightarrow> 8 word list \<Rightarrow> bool" where
  "contains_ip net ip =
     (let nn = (case to4 (nt_ip net) of Some b \<Rightarrow> b | None \<Rightarrow> nt_ip net);
          m = (if length (nt_mask net) = 16 \<and> length nn = 4 then drop 12 (nt_mask net) else nt_mask net);
          x = (case to4 ip of Some b \<Rightarrow> b | None \<Rightarrow> ip) in
      length m = length nn \<and> length x = length nn \<and> and_bytes nn m = and_bytes x m)"

section \<open>Trusted proxies\<close>

definition parse_entry :: "ustring \<Rightarrow> ipnet option" where
  "parse_entry entry =
     (case parse_cidr entry of
        Some block \<Rightarrow> Some block
      | None \<Rightarrow>
          (case parse_ip entry of
             None \<Rightarrow> None
           | Some ip \<Rightarrow>
               (let k = (if to4 ip = None then 16 else 4) in
                Some \<lparr>nt_ip = ip, nt_mask = mask_bytes k (8 * k)\<rparr>)))"

fun parse_entries :: "ustring list \<Rightarrow> ustring + ipnet list" where
  "parse_entries [] = Inr []"
| "parse_entries (raw # rest) =
     (let entry = trim_space raw in
      if entry = [] then parse_entries rest
      else case parse_entry entry of
        None \<Rightarrow> Inl entry
      | Some net \<Rightarrow> (case parse_entries rest of Inl err \<Rightarrow> Inl err | Inr nets \<Rightarrow> Inr (net # nets)))"

definition parse_trusted_proxies :: "ustring \<Rightarrow> ustring + ipnet list" where
  "parse_trusted_proxies raw = parse_entries (split_on 44 raw)"

definition trusts :: "ipnet list \<Rightarrow> ustring \<Rightarrow> bool" where
  "trusts t addr =
     (if t = [] then False
      else case parse_ip (host_of addr) of
        None \<Rightarrow> False
      | Some ip \<Rightarrow> list_ex (\<lambda>block. contains_ip block ip) t)"

text \<open>The headers of a request: the values of each line with the name, in order. \<open>Header.Get\<close> returns the
  first line only.\<close>

definition header_get :: "ustring list \<Rightarrow> ustring" where
  "header_get vs = (case vs of [] \<Rightarrow> [] | v # _ \<Rightarrow> v)"

fun pick_client :: "ipnet list \<Rightarrow> ustring list \<Rightarrow> ustring option" where
  "pick_client t [] = None"
| "pick_client t (part # left) =
     (let candidate = trim_space part in
      if candidate = [] \<or> parse_ip candidate = None then pick_client t left
      else if trusts t candidate then pick_client t left
      else Some candidate)"

definition client_ip :: "ipnet list \<Rightarrow> ustring \<Rightarrow> ustring list \<Rightarrow> ustring list \<Rightarrow> ustring" where
  "client_ip t remote forwarded_for real_ip =
     (let host = host_of remote;
          chain = header_get forwarded_for;
          real = trim_space (header_get real_ip) in
      if \<not> trusts t remote then host
      else case (if chain = [] then None else pick_client t (rev (split_on 44 chain))) of
        Some c \<Rightarrow> c
      | None \<Rightarrow> if real \<noteq> [] \<and> parse_ip real \<noteq> None then real else host)"

end
