(* ===== verification/Http.thy ===== *)
theory Http
  imports Bots_Gateway Avatars Addresses
begin

text \<open>
  The HTTP surface: the router and discovery of \<open>internal/httpapi/server.go\<close>, room files in \<open>files.go\<close>, the
  wrappers of \<open>middleware.go\<close>, and the front door of the web socket in \<open>gateway/gateway.go\<close>, which asks the
  guard about the address of \<open>Addresses\<close>. Tracks and pictures are the endpoints of \<open>Bots_Gateway\<close> and
  \<open>Avatars\<close>. A path is the list of its segments; a body is what it means, not its bytes.
\<close>

section \<open>Requests and responses\<close>

record http_request =
  rq_method :: string
  rq_path :: "string list"
  rq_query :: "(string \<times> string) list"
  rq_headers :: "(string \<times> ustring list) list"
  rq_remote :: ustring
  rq_upload :: upload_io
  rq_picture :: picture_io

record server_info =
  in_uuid :: string
  in_name :: ustring
  in_welcome :: ustring
  in_protocol :: int
  in_version :: string
  in_password_required :: bool
  in_max_users :: int
  in_online :: nat
  in_media :: bool
  in_uploads :: bool
  in_max_upload_mb :: int

datatype http_body =
    BodyHealth int | BodyInfo server_info | BodyError string | BodyAttachment attachment
  | BodyTrack bot_view | BodyAvatar uuid string | BodyFile ustring | BodyPicture picture | BodyNone
  | BodyText string

record response =
  rs_status :: nat
  rs_headers :: "(string, ustring) gomap"
  rs_body :: http_body

definition json_response :: "nat \<Rightarrow> http_body \<Rightarrow> response" where
  "json_response st b =
     \<lparr>rs_status = st, rs_headers = [(''Content-Type'', runes ''application/json; charset=utf-8'')], rs_body = b\<rparr>"

text \<open>What the server consists of for this layer: the site with its bots, the pictures when they are
  enabled, the guard, the trusted proxies.\<close>

record backend =
  hb_site :: site
  hb_avatars :: "avatars option"
  hb_guard :: guard
  hb_limits :: limits
  hb_proxies :: "ipnet list"
  hb_uuid :: string
  hb_version :: string
  hb_started :: int

section \<open>The token\<close>

definition query_get :: "http_request \<Rightarrow> string \<Rightarrow> string" where
  "query_get q k = (case map_of (rq_query q) k of None \<Rightarrow> [] | Some v \<Rightarrow> v)"

definition header_of :: "http_request \<Rightarrow> string \<Rightarrow> ustring list" where
  "header_of q k = (case map_of (rq_headers q) k of None \<Rightarrow> [] | Some vs \<Rightarrow> vs)"

text \<open>Tokens are ASCII, so a header that is not has none.\<close>

definition ascii :: "ustring \<Rightarrow> string" where
  "ascii s = (if list_all (\<lambda>r. r < 256) s then map char_of s else [])"

definition bearer_token :: "http_request \<Rightarrow> string" where
  "bearer_token q =
     (if query_get q ''token'' \<noteq> [] then query_get q ''token''
      else
        (let auth = header_get (header_of q ''Authorization'') in
         if has_prefix ''Bearer '' auth then ascii (trim_space (drop 7 auth)) else []))"

section \<open>Room files\<close>

fun upload_error :: "files_error \<Rightarrow> nat \<times> string" where
  "upload_error FilesBadTicket = (403, forbidden)"
| "upload_error FilesNotInRoom = (409, not_in_a_room)"
| "upload_error FilesTooLarge = (413, ''file_too_large'')"
| "upload_error FilesQuotaFull = (507, ''room_quota_exceeded'')"
| "upload_error FilesEmpty = (400, ''file_invalid'')"
| "upload_error _ = (500, internal_error)"

definition error_response :: "nat \<times> string \<Rightarrow> response" where
  "error_response e = json_response (fst e) (BodyError (snd e))"

definition handle_upload :: "env \<Rightarrow> http_request \<Rightarrow> server \<Rightarrow> server \<times> response" where
  "handle_upload e q w =
     (let token = bearer_token q in
      if token = [] then (w, error_response (401, bad_request))
      else
        (let ceiling = max_file_size (cfg w) + 2 ^ 20;
             limit = (case mget (tickets w) token of None \<Rightarrow> 0 | Some t \<Rightarrow> tk_max t) in
         case upload e token (cut_body ceiling limit (rq_upload q)) w of
           (w1, Inl err) \<Rightarrow> (w1, error_response (upload_error err))
         | (w1, Inr (f, uploader)) \<Rightarrow>
             (announce_upload e uploader f w1, json_response 200 (BodyAttachment (attachment_of f)))))"

fun download_error :: "files_error \<Rightarrow> nat \<times> string" where
  "download_error FilesBadToken = (403, forbidden)"
| "download_error _ = (404, ''file_not_found'')"

text \<open>\<open>disposition\<close> stands for \<open>mime.FormatMediaType\<close>; its result is only ever sent.\<close>

definition handle_download ::
  "(ustring \<Rightarrow> ustring) \<Rightarrow> env \<Rightarrow> string \<Rightarrow> http_request \<Rightarrow> server \<Rightarrow> server \<times> response" where
  "handle_download disposition e fid q w =
     (let thumb = (query_get q ''thumb'' = ''1'') in
      case open_file (clock e) fid (bearer_token q) thumb w of
        (w1, Inl err) \<Rightarrow> (w1, error_response (download_error err))
      | (w1, Inr (f, path)) \<Rightarrow>
          (w1, \<lparr>rs_status = 200,
             rs_headers =
               [(''X-Content-Type-Options'', runes ''nosniff''), (''Cache-Control'', runes ''private, no-store'')]
               @ (if thumb then
                    [(''Content-Type'', runes ''image/jpeg''), (''Content-Disposition'', runes ''inline'')]
                  else
                    [(''Content-Type'', runes (fl_mime f)), (''Content-Disposition'', disposition (fl_name f)),
                     (''Content-Length'', decimal (nat (fl_size f)))]),
             rs_body = BodyFile path\<rparr>))"

section \<open>Discovery\<close>

definition healthz :: "int \<Rightarrow> backend \<Rightarrow> response" where
  "healthz now b = json_response 200 (BodyHealth ((now - hb_started b) div 1000000000))"

definition server_info_of :: "backend \<Rightarrow> server_info" where
  "server_info_of b =
     (let c = cfg (srv (hb_site b)) in
      \<lparr>in_uuid = hb_uuid b, in_name = cfg_string c KeyServerName, in_welcome = cfg_string c KeyServerWelcome,
       in_protocol = 1, in_version = hb_version b,
       in_password_required = (cfg_string c KeyServerPassword \<noteq> []),
       in_max_users = cfg_int c KeyServerMaxUsers, in_online = length (live (srv (hb_site b))),
       in_media = cfg_bool c KeyLiveKitEnabled, in_uploads = cfg_bool c KeyUploadsEnabled,
       in_max_upload_mb = cfg_int c KeyUploadsMaxSizeMB\<rparr>)"

section \<open>The front door of the web socket\<close>

definition remote_addr :: "backend \<Rightarrow> http_request \<Rightarrow> ustring" where
  "remote_addr b q =
     client_ip (hb_proxies b) (rq_remote q) (header_of q ''X-Forwarded-For'') (header_of q ''X-Real-Ip'')"

text \<open>An admitted request goes on to the handshake, with the address it is counted under.\<close>

definition serve_ws :: "int \<Rightarrow> http_request \<Rightarrow> backend \<Rightarrow> backend \<times> (response + ustring)" where
  "serve_ws now q b =
     (case admit now (hb_limits b) (remote_addr b q) (hb_guard b) of
        (g, Inl _) \<Rightarrow>
          (b\<lparr>hb_guard := g\<rparr>,
           Inl \<lparr>rs_status = 429, rs_headers = [(''Content-Type'', runes ''text/plain; charset=utf-8'')],
             rs_body = BodyText ''too many connections''\<rparr>)
      | (g, Inr ip) \<Rightarrow> (b\<lparr>hb_guard := g\<rparr>, Inr ip))"

section \<open>The router\<close>

datatype endpoint =
    Healthz | ServerInfo | WebSocket | Upload | Download string | BotTrack | AvatarUpload | AvatarFetch string

definition on_site :: "(site \<Rightarrow> site \<times> 'a) \<Rightarrow> backend \<Rightarrow> backend \<times> 'a" where
  "on_site f b = (case f (hb_site b) of (s, x) \<Rightarrow> (b\<lparr>hb_site := s\<rparr>, x))"

definition on_server :: "(server \<Rightarrow> server \<times> 'a) \<Rightarrow> backend \<Rightarrow> backend \<times> 'a" where
  "on_server f = on_site (\<lambda>s. case f (srv s) of (w, x) \<Rightarrow> (s\<lparr>srv := w\<rparr>, x))"

text \<open>The patterns of \<open>Handler\<close>, with the method each one names; \<open>GET\<close> also takes \<open>HEAD\<close>, a wildcard one
  segment that is not empty, and the pictures' patterns are there only when pictures are enabled.\<close>

definition path_endpoint :: "bool \<Rightarrow> string list \<Rightarrow> (string list \<times> endpoint) option" where
  "path_endpoint avatars p =
     (if p = [''healthz''] then Some ([''GET'', ''HEAD''], Healthz)
      else if p = [''ws''] then Some ([], WebSocket)
      else if take 2 p \<noteq> [''api'', ''v1''] then None
      else
        (case drop 2 p of
           [x] \<Rightarrow>
             if x = ''server-info'' then Some ([''GET'', ''HEAD''], ServerInfo)
             else if x = ''upload'' then Some ([''POST''], Upload)
             else if x = ''bot-track'' then Some ([''POST''], BotTrack)
             else if x = ''avatar'' \<and> avatars then Some ([''POST''], AvatarUpload)
             else None
         | [x, i] \<Rightarrow>
             if i = [] then None
             else if x = ''file'' then Some ([''GET'', ''HEAD''], Download i)
             else if x = ''avatar'' \<and> avatars then Some ([''GET'', ''HEAD''], AvatarFetch i)
             else None
         | _ \<Rightarrow> None))"

definition plain_error :: "nat \<Rightarrow> string \<Rightarrow> response" where
  "plain_error st msg =
     \<lparr>rs_status = st, rs_headers = [(''Content-Type'', runes ''text/plain; charset=utf-8'')], rs_body = BodyText msg\<rparr>"

definition avatar_upload_token :: "http_request \<Rightarrow> string" where
  "avatar_upload_token q = (if bearer_token q \<noteq> [] then bearer_token q else query_get q ''token'')"

definition avatar_response :: "fetched \<Rightarrow> response" where
  "avatar_response r =
     (case r of
        NoPicture \<Rightarrow> error_response (404, ''file_not_found'')
      | NotModified \<Rightarrow> \<lparr>rs_status = 304, rs_headers = [], rs_body = BodyNone\<rparr>
      | Picture etag f \<Rightarrow>
          \<lparr>rs_status = 200,
           rs_headers = [(''Content-Type'', runes ''image/jpeg''), (''ETag'', runes etag),
             (''X-Content-Type-Options'', runes ''nosniff''), (''Cache-Control'', runes ''private, max-age=86400'')],
           rs_body = BodyPicture f\<rparr>)"

text \<open>A request that ends in the web socket has no response here but the address it was admitted under.\<close>

definition serve_endpoint ::
  "(ustring \<Rightarrow> ustring) \<Rightarrow> bot_call \<Rightarrow> http_request \<Rightarrow> endpoint \<Rightarrow> backend \<Rightarrow> backend \<times> (response + ustring)" where
  "serve_endpoint disposition c q ep b =
     (let e = cx_env (bx c); now = clock e in
      case ep of
        Healthz \<Rightarrow> (b, Inl (healthz now b))
      | ServerInfo \<Rightarrow> (b, Inl (json_response 200 (BodyInfo (server_info_of b))))
      | WebSocket \<Rightarrow> serve_ws now q b
      | Upload \<Rightarrow> (case on_server (handle_upload e q) b of (b1, r) \<Rightarrow> (b1, Inl r))
      | Download fid \<Rightarrow> (case on_server (handle_download disposition e fid q) b of (b1, r) \<Rightarrow> (b1, Inl r))
      | BotTrack \<Rightarrow>
          (case on_site (http_bot_track_upload c (bearer_token q) (rq_upload q)) b of
             (b1, Inl err) \<Rightarrow> (b1, Inl (error_response err))
           | (b1, Inr v) \<Rightarrow> (b1, Inl (json_response 200 (BodyTrack v))))
      | AvatarUpload \<Rightarrow>
          (case hb_avatars b of
             None \<Rightarrow> (b, Inl (plain_error 404 ''404 page not found''))
           | Some m \<Rightarrow>
               (case http_avatar_upload now (avatar_upload_token q) (rq_picture q) (m, srv (hb_site b)) of
                  ((m1, w1), res) \<Rightarrow>
                    (b\<lparr>hb_avatars := Some m1, hb_site := on_srv (\<lambda>_. w1) (hb_site b)\<rparr>,
                     Inl (case res of Inl err \<Rightarrow> error_response err
                          | Inr (u, v) \<Rightarrow> json_response 200 (BodyAvatar u v)))))
      | AvatarFetch i \<Rightarrow>
          (case hb_avatars b of
             None \<Rightarrow> (b, Inl (plain_error 404 ''404 page not found''))
           | Some m \<Rightarrow>
               (b, Inl (avatar_response
                     (http_avatar_fetch (runes i) (ascii (header_get (header_of q ''If-None-Match''))) m)))))"

definition route ::
  "(ustring \<Rightarrow> ustring) \<Rightarrow> bot_call \<Rightarrow> http_request \<Rightarrow> backend \<Rightarrow> backend \<times> (response + ustring)" where
  "route disposition c q b =
     (case path_endpoint (hb_avatars b \<noteq> None) (rq_path q) of
        None \<Rightarrow> (b, Inl (plain_error 404 ''404 page not found''))
      | Some (methods, ep) \<Rightarrow>
          if methods \<noteq> [] \<and> rq_method q \<notin> set methods then (b, Inl (plain_error 405 ''Method Not Allowed''))
          else serve_endpoint disposition c q ep b)"

section \<open>The wrappers\<close>

text \<open>\<open>secureHeaders\<close> sets its headers first, so a handler that sets one of them again decides.\<close>

definition security_headers :: "(string, ustring) gomap" where
  "security_headers =
     [(''X-Content-Type-Options'', runes ''nosniff''), (''X-Frame-Options'', runes ''DENY''),
      (''Referrer-Policy'', runes ''no-referrer''),
      (''Content-Security-Policy'', runes (''default-src '' @ CHR 0x27 # ''none'' @ CHR 0x27 # ''; frame-ancestors '' @ CHR 0x27 # ''none'' @ [CHR 0x27]))]"

definition secure_headers :: "response \<Rightarrow> response" where
  "secure_headers r = r\<lparr>rs_headers := foldl (\<lambda>h (k, v). mput k v h) security_headers (rs_headers r)\<rparr>"

text \<open>\<open>recoverPanics\<close> turns a panic of a handler into status 500; the only one the model has is that of the
  track upload, \<open>BotsPanic\<close>, which is answered so already.\<close>

definition handler ::
  "(ustring \<Rightarrow> ustring) \<Rightarrow> bot_call \<Rightarrow> http_request \<Rightarrow> backend \<Rightarrow> backend \<times> (response + ustring)" where
  "handler disposition c q b =
     (case route disposition c q b of
        (b1, Inl r) \<Rightarrow> (b1, Inl (secure_headers r))
      | (b1, Inr ip) \<Rightarrow> (b1, Inr ip))"

end
