(* ===== verification/Addresses_Correct.thy ===== *)
theory Addresses_Correct
  imports Addresses
begin

text \<open>
  Test vectors for the parsers, which addresses a list of trusted proxies stands for, and who is held responsible
  for a request: a client that is not a proxy cannot make the server take it for somebody else, and behind a
  proxy the address that proxy itself wrote down is the one that counts.
\<close>

section \<open>Test vectors\<close>

lemmas addr_eval = runes_def host_of_def split_host_def colon_def lbracket_def rbracket_def trim_space_def trim_by_def
  is_space_def parse_ip_def parse_addr_def parse_ipv4_def octet_def is_digit_def digits_val_def parse_ipv6_def is_hex_def
  hex_group_def hex_val_def expand_def to4_def contains_ip_def and_bytes_def trusts_def header_get_def client_ip_def
  cidr_parts_def parse_cidr_def parse_entry_def parse_trusted_proxies_def Let_def

lemma mask_eval: "mask_bytes 4 32 = [0xFF, 0xFF, 0xFF, 0xFF]" "mask_bytes 4 8 = [0xFF, 0, 0, 0]"
  "mask_bytes 4 12 = [0xFF, 0xF0, 0, 0]"
  by code_simp+

lemma groups_eval: "ipv6_groups 8 = ipv6_groups (Suc (Suc (Suc (Suc (Suc (Suc (Suc (Suc 0))))))))"
  by (simp add: numeral_eq_Suc)

lemma ipv4_vectors:
  "parse_ip (runes ''203.0.113.9'') = Some (replicate 10 0 @ [0xFF, 0xFF, 203, 0, 113, 9])"
  "parse_ip (runes ''1.2.3'') = None" "parse_ip (runes ''1.2.3.256'') = None" "parse_ip (runes ''1.2.3.04'') = None"
  "parse_ip (runes ''1.2..4'') = None" "parse_ip (runes ''not-an-ip'') = None" "parse_ip (runes ''10.0.0.1:80'') = None"
  by (simp_all add: addr_eval)

lemma ipv6_vectors:
  "parse_ip (runes ''::1'') = Some (replicate 15 0 @ [1])"
  "parse_ip (runes ''2001:db8::8:800:200C:417A'') = Some [0x20, 1, 0xd, 0xb8, 0, 0, 0, 0, 0, 8, 8, 0, 0x20, 0xc, 0x41, 0x7a]"
  "parse_ip (runes ''::ffff:1.2.3.4'') = parse_ip (runes ''1.2.3.4'')"
  "parse_ip (runes ''fe80::'') = Some ([0xfe, 0x80] @ replicate 14 0)"
  "parse_ip (runes ''1:2:3:4:5:6:7::'') = Some [0, 1, 0, 2, 0, 3, 0, 4, 0, 5, 0, 6, 0, 7, 0, 0]"
  "parse_ip (runes ''1:2:3:4:5:6:7:8:9'') = None" "parse_ip (runes ''1::2::3'') = None"
  "parse_ip (runes ''1:2:3:4:5:6:7:8::'') = None" "parse_ip (runes ''12345::'') = None"
  "parse_ip (runes ''fe80::1%eth0'') = None"
  by (simp_all add: addr_eval groups_eval) (simp_all add: numeral_eq_Suc)

section \<open>A block holds the addresses with its prefix\<close>

definition bits_of_byte :: "8 word \<Rightarrow> bool list" where
  "bits_of_byte b = map (\<lambda>i. bit b (7 - i)) [0..<8]"

definition bits_of :: "8 word list \<Rightarrow> bool list" where
  "bits_of bs = concat (map bits_of_byte bs)"

lemma length_bits_of_byte [simp]: "length (bits_of_byte b) = 8"
  by (simp add: bits_of_byte_def)

lemma nth_bits_of_byte: "i < 8 \<Longrightarrow> bits_of_byte b ! i = bit b (7 - i)"
proof -
  assume i: "i < 8"
  then have "[0..<8] ! i = i" by (metis add_0 nth_upt)
  then show ?thesis using i by (simp add: bits_of_byte_def)
qed

lemma bits_of_byte_eq: "bits_of_byte p = bits_of_byte q \<longleftrightarrow> p = q"
proof
  assume eq: "bits_of_byte p = bits_of_byte q"
  show "p = q"
  proof (rule bit_word_eqI)
    fix n assume "n < LENGTH(8)"
    then have n: "n < 8" by simp
    have "bits_of_byte p ! (7 - n) = bits_of_byte q ! (7 - n)" using eq by simp
    then show "bit p n = bit q n" using n by (simp add: nth_bits_of_byte)
  qed
qed simp

lemma full_byte: "(0xFF :: 8 word) = mask 8"
  by (simp add: mask_numeral)

lemma byte_prefix:
  fixes p q :: "8 word"
  assumes "n < 8"
  shows "p AND NOT (drop_bit n 0xFF) = q AND NOT (drop_bit n 0xFF) \<longleftrightarrow> take n (bits_of_byte p) = take n (bits_of_byte q)"
proof -
  have m: "bit (NOT (drop_bit n 0xFF) :: 8 word) i \<longleftrightarrow> 8 - n \<le> i" if "i < 8" for i
  proof -
    have "bit (0xFF :: 8 word) (n + i) \<longleftrightarrow> n + i < 8" by (simp only: full_byte bit_mask_iff) auto
    then show ?thesis using that assms by (auto simp: bit_simps)
  qed
  have "p AND NOT (drop_bit n 0xFF) = q AND NOT (drop_bit n 0xFF) \<longleftrightarrow> (\<forall>i < 8. 8 - n \<le> i \<longrightarrow> bit p i = bit q i)"
    unfolding bit_eq_iff using m by (auto simp: bit_simps)
  also have "\<dots> \<longleftrightarrow> (\<forall>j < n. bit p (7 - j) = bit q (7 - j))"
  proof
    assume "\<forall>i < 8. 8 - n \<le> i \<longrightarrow> bit p i = bit q i"
    then show "\<forall>j < n. bit p (7 - j) = bit q (7 - j)" using assms by auto
  next
    assume h: "\<forall>j < n. bit p (7 - j) = bit q (7 - j)"
    show "\<forall>i < 8. 8 - n \<le> i \<longrightarrow> bit p i = bit q i"
    proof (intro allI impI)
      fix i :: nat assume "i < 8" "8 - n \<le> i"
      then have "7 - i < n" "7 - (7 - i) = i" using assms by auto
      then show "bit p i = bit q i" using h by metis
    qed
  qed
  also have "\<dots> \<longleftrightarrow> take n (bits_of_byte p) = take n (bits_of_byte q)"
    using assms by (auto simp: list_eq_iff_nth_eq nth_bits_of_byte)
  finally show ?thesis .
qed

lemma masked_prefix:
  "length a = k \<Longrightarrow> length x = k \<Longrightarrow>
   and_bytes a (mask_bytes k n) = and_bytes x (mask_bytes k n) \<longleftrightarrow> take n (bits_of a) = take n (bits_of x)"
proof (induction k arbitrary: n a x)
  case (Suc k)
  then obtain p a' q x' where ax: "a = p # a'" "x = q # x'" "length a' = k" "length x' = k"
    by (auto simp: length_Suc_conv)
  have full: "b AND 0xFF = b" for b :: "8 word"
    by (rule bit_word_eqI) (simp only: full_byte bit_and_iff bit_mask_iff, auto)
  show ?case
  proof (cases "n \<ge> 8")
    case True
    then show ?thesis using Suc.IH [of a' x' "n - 8"] ax
      by (auto simp: and_bytes_def bits_of_def full bits_of_byte_eq)
  next
    case False
    then show ?thesis using Suc.IH [of a' x' 0] ax byte_prefix [of n p q]
      by (auto simp: and_bytes_def bits_of_def)
  qed
qed (simp add: and_bytes_def bits_of_def)

lemma all_some_length: "all_some xs = Some ys \<Longrightarrow> length ys = length xs"
  by (induction xs arbitrary: ys rule: all_some.induct) auto

lemma parse_ipv4_length: "parse_ipv4 s = Some b \<Longrightarrow> length b = 4"
  by (auto simp: parse_ipv4_def Let_def dest: all_some_length split: if_splits)

lemma length_mask_bytes [simp]: "length (mask_bytes k n) = k"
  by (induction k arbitrary: n) auto

lemma and_bytes_twice: "and_bytes (and_bytes a m) m = and_bytes a m"
  by (induction a m rule: list_induct2') (simp_all add: and_bytes_def and.assoc)

lemma length_and_bytes [simp]: "length (and_bytes a m) = min (length a) (length m)"
  by (simp add: and_bytes_def)

lemma to4_4 [simp]: "length x = 4 \<Longrightarrow> to4 x = Some x"
  by (simp add: to4_def)

lemma to4_length: "to4 ip = Some x \<Longrightarrow> length x = 4"
  by (auto simp: to4_def split: if_splits)

lemma length_hex_group [simp]: "length (hex_group ds) = 2"
  by (simp add: hex_group_def Let_def)

lemma length_ipv6_groups:
  "ipv6_groups k ip e s = Some (ip', e', s') \<Longrightarrow> length ip + 2 * k \<le> 16 \<Longrightarrow> length ip' \<le> 16"
proof (induction k arbitrary: ip e s)
  case (Suc k)
  let ?ip = "ip @ hex_group (takeWhile is_hex s)"
  have len: "length ?ip + 2 * k \<le> 16" using Suc.prems(2) by simp
  consider b where "length ip + 4 \<le> 16" "parse_ipv4 s = Some b" "ip' = ip @ b" | "ip' = ?ip"
    | e1 s1 where "ipv6_groups k ?ip e1 s1 = Some (ip', e', s')"
    using Suc.prems(1) by (auto simp: Let_def split: if_splits list.splits)
  then show ?case
  proof cases
    case 3
    show ?thesis by (rule Suc.IH [OF 3 len])
  qed (use len parse_ipv4_length in auto)
qed simp

lemma parse_ipv6_length: "parse_ipv6 s = Some b \<Longrightarrow> length b = 16"
proof -
  have ex: "length b = 16" if "ipv6_groups 8 [] e t = Some x" "expand x = Some b" for e t x
  proof -
    obtain ip e' s' where x: "x = (ip, e', s')" using prod_cases3 by blast
    have "length ip \<le> 16" using length_ipv6_groups [OF that(1) [unfolded x]] by simp
    then show ?thesis using that(2) by (auto simp: x expand_def split: if_splits option.splits)
  qed
  assume "parse_ipv6 s = Some b"
  then show ?thesis using ex by (auto simp: parse_ipv6_def bind_eq_Some_conv split: if_splits)
qed

lemma parse_addr_length:
  "parse_addr s = Some (V4 b) \<Longrightarrow> length b = 4" "parse_addr s = Some (V6 b) \<Longrightarrow> length b = 16"
  by (auto simp: parse_addr_def dest: parse_ipv4_length parse_ipv6_length split: option.splits if_splits)

lemma parse_ip_length: "parse_ip s = Some ip \<Longrightarrow> length ip = 16"
  by (cases "the (parse_addr s)") (auto simp: parse_ip_def dest: parse_addr_length)

text \<open>The form of an address that holds an IPv4 one.\<close>

abbreviation mapped :: "8 word list" where
  "mapped \<equiv> replicate 10 0 @ [0xFF, 0xFF]"

lemma mapped_split: "take 12 (mapped @ x) = mapped" "drop 12 (mapped @ x) = x"
  by simp_all

lemma to4_16: "length ip = 16 \<Longrightarrow> to4 ip = Some x \<longleftrightarrow> ip = mapped @ x"
proof -
  assume l: "length ip = 16"
  have "to4 ip = Some x \<longleftrightarrow> take 12 ip = mapped \<and> drop 12 ip = x" using l by (simp add: to4_def)
  also have "\<dots> \<longleftrightarrow> ip = mapped @ x" using mapped_split [of x] by (metis append_take_drop_id)
  finally show ?thesis .
qed

lemma to4_take: "length ip = 16 \<Longrightarrow> take 12 ip = mapped \<Longrightarrow> to4 ip = Some (drop 12 ip)"
  by (simp add: to4_def)

lemma bits_of_append: "bits_of (a @ b) = bits_of a @ bits_of b"
  by (simp add: bits_of_def)

lemma length_bits_of [simp]: "length (bits_of a) = 8 * length a"
  by (induction a) (simp_all add: bits_of_def)

lemma bits_of_eq: "length a = length b \<Longrightarrow> bits_of a = bits_of b \<longleftrightarrow> a = b"
proof (induction a b rule: list_induct2)
  case (Cons x xs y ys)
  then show ?case by (simp add: bits_of_def bits_of_byte_eq)
qed (simp add: bits_of_def)

text \<open>What an entry of the list stands for: a block all addresses that begin with the same bits, in the form of
  sixteen bytes, where a block wider than the IPv4 addresses holds none of them; an address just itself.\<close>

definition covers :: "ustring \<Rightarrow> 8 word list \<Rightarrow> bool" where
  "covers entry ip \<longleftrightarrow>
     (case cidr_parts entry of
        Some (a, n) \<Rightarrow>
          (let k = 128 - bit_len a + n in
           take k (bits_of (as16 a)) = take k (bits_of ip) \<and> (to4 ip = None \<or> 96 \<le> k))
      | None \<Rightarrow> parse_ip entry = Some ip)"

lemma take_mapped: "take (96 + n) (bits_of (mapped @ a)) = bits_of mapped @ take n (bits_of a)"
proof -
  have "length (bits_of mapped) = 96" by simp
  then show ?thesis by (simp add: bits_of_append [of mapped] del: append_assoc length_bits_of)
qed

lemma mapped_prefix:
  assumes "length ip = 16" "take (96 + n) (bits_of (mapped @ a)) = take (96 + n) (bits_of ip)"
  shows "to4 ip \<noteq> None"
proof -
  have "bits_of mapped = take 96 (take (96 + n) (bits_of (mapped @ a)))" unfolding take_mapped by simp
  also have "\<dots> = take 96 (bits_of (take 12 ip @ drop 12 ip))" unfolding assms(2) by simp
  also have "\<dots> = bits_of (take 12 ip)" using assms(1) by (simp only: bits_of_append) simp
  finally have "mapped = take 12 ip" using assms(1) bits_of_eq [of mapped "take 12 ip"] by simp
  then show ?thesis using to4_take [OF assms(1)] by simp
qed

lemma v4_block_contains:
  assumes "length b = 4" "length ip = 16"
  shows "contains_ip (cidr_block (V4 b) n) ip \<longleftrightarrow> take (96 + n) (bits_of (as16 (V4 b))) = take (96 + n) (bits_of ip)"
proof (cases "to4 ip")
  case None
  have "take (96 + n) (bits_of (mapped @ b)) \<noteq> take (96 + n) (bits_of ip)" using mapped_prefix [OF assms(2)] None by blast
  then show ?thesis using None assms by (simp add: contains_ip_def Let_def)
next
  case (Some x)
  have "ip = mapped @ x" using Some to4_16 [OF assms(2)] by simp
  then have "take (96 + n) (bits_of (as16 (V4 b))) = take (96 + n) (bits_of ip) \<longleftrightarrow> take n (bits_of b) = take n (bits_of x)"
    using take_mapped [of n b] take_mapped [of n x] by simp
  then show ?thesis
    using Some assms to4_length [OF Some] masked_prefix [of b 4 x n]
    by (simp add: contains_ip_def Let_def and_bytes_twice)
qed

lemma and_bytes_append: "length a = length m \<Longrightarrow> and_bytes (a @ b) (m @ n) = and_bytes a m @ and_bytes b n"
  by (simp add: and_bytes_def)

lemma and_full: "b AND 0xFF = (b :: 8 word)"
  by (rule bit_word_eqI) (simp only: full_byte bit_and_iff bit_mask_iff, auto)

lemma and_bytes_full: "and_bytes a (replicate (length a) 0xFF) = a"
  by (induction a) (simp_all add: and_bytes_def and_full)

lemma mask_bytes_split: "mask_bytes (j + k) (8 * j + n) = replicate j 0xFF @ mask_bytes k n"
  by (induction j) simp_all

lemma long_mask: "96 \<le> n \<Longrightarrow> mask_bytes 16 n = replicate 12 0xFF @ mask_bytes 4 (n - 96)"
  using mask_bytes_split [of 12 4 "n - 96"] by simp

lemma masked_long:
  assumes "96 \<le> n" "length a = 16"
  shows "and_bytes a (mask_bytes 16 n) = take 12 a @ and_bytes (drop 12 a) (mask_bytes 4 (n - 96))"
proof -
  have "and_bytes (take 12 a @ drop 12 a) (replicate 12 0xFF @ mask_bytes 4 (n - 96))
      = and_bytes (take 12 a) (replicate 12 0xFF) @ and_bytes (drop 12 a) (mask_bytes 4 (n - 96))"
    by (rule and_bytes_append) (simp add: assms(2))
  then show ?thesis using and_bytes_full [of "take 12 a"] assms by (simp add: long_mask)
qed

text \<open>A block that starts like the IPv4 addresses says so in its bits.\<close>

lemma masked_mapped_long:
  assumes "length b = 16" "to4 (and_bytes b (mask_bytes 16 n)) = Some x"
  shows "96 \<le> n"
proof (rule ccontr)
  let ?m = "mask_bytes 16 n"
  assume "\<not> 96 \<le> n"
  define y where "y = (replicate 10 0 @ [0xFF, 0xFE]) @ x"
  have N: "and_bytes b ?m = mapped @ x" and lx: "length x = 4"
    using assms(1) to4_16 [of "and_bytes b ?m" x] assms(2) to4_length [OF assms(2)] by simp_all
  let ?h = "bits_of (replicate 10 0 @ [0xFF]) @ replicate 7 True"
  have last: "bits_of [0xFF] = replicate 7 True @ [True]" "bits_of [0xFE] = replicate 7 True @ [False]" by code_simp+
  have "mapped @ x = (replicate 10 0 @ [0xFF]) @ [0xFF] @ x" "y = (replicate 10 0 @ [0xFF]) @ [0xFE] @ x"
    by (simp_all add: y_def)
  moreover have "bits_of (z @ [w] @ x) = bits_of z @ bits_of [w] @ bits_of x" for z w by (simp only: bits_of_append)
  ultimately have "bits_of (mapped @ x) = bits_of (replicate 10 0 @ [0xFF]) @ (replicate 7 True @ [True]) @ bits_of x"
    "bits_of y = bits_of (replicate 10 0 @ [0xFF]) @ (replicate 7 True @ [False]) @ bits_of x"
    unfolding last [symmetric] by metis+
  then have bits: "bits_of (mapped @ x) = ?h @ True # bits_of x" "bits_of y = ?h @ False # bits_of x" by simp_all
  have lh: "n \<le> length ?h" using \<open>\<not> 96 \<le> n\<close> by simp
  have "take n (bits_of (mapped @ x)) = take n (bits_of y)"
    unfolding bits take_append using lh by simp
  moreover have "length (mapped @ x) = 16" "length y = 16" using lx by (simp_all add: y_def)
  ultimately have "and_bytes (mapped @ x) ?m = and_bytes y ?m" using masked_prefix by blast
  then have "mapped @ x = and_bytes y ?m" using N and_bytes_twice [of b ?m] by simp
  then have "(mapped @ x) ! 11 = y ! 11 AND ?m ! 11" using lx by (simp add: and_bytes_def y_def)
  then have "(0xFF :: 8 word) = 0xFE AND ?m ! 11" by (simp add: y_def nth_append)
  then have "bit (0xFF :: 8 word) 0 = bit (0xFE AND ?m ! 11) 0" by simp
  then show False by (simp add: bit_simps)
qed

lemma v6_block_contains:
  assumes "length b = 16" "length ip = 16"
  shows "contains_ip (cidr_block (V6 b) n) ip \<longleftrightarrow>
    take n (bits_of b) = take n (bits_of ip) \<and> (to4 ip = None \<or> 96 \<le> n)"
proof -
  let ?m = "mask_bytes 16 n"
  let ?N = "and_bytes b ?m"
  have pre: "take n (bits_of b) = take n (bits_of ip) \<longleftrightarrow> ?N = and_bytes ip ?m"
    using masked_prefix [of b 16 ip n] assms by simp
  have lN: "length ?N = 16" using assms by simp
  note c = contains_ip_def Let_def and_bytes_twice
  show ?thesis
  proof (cases "to4 ?N")
    case None
    show ?thesis
    proof (cases "to4 ip")
      case None
      then show ?thesis using \<open>to4 ?N = None\<close> assms by (simp add: c pre)
    next
      case (Some x)
      have "?N \<noteq> and_bytes ip ?m" if n: "96 \<le> n"
      proof
        assume "?N = and_bytes ip ?m"
        moreover have "take 12 ip = mapped" using to4_16 [OF assms(2)] Some mapped_split(1) by metis
        ultimately have "take 12 ?N = mapped"
          using masked_long [OF n assms(2)] assms(2) by simp
        then show False using to4_take [OF lN] None by simp
      qed
      then show ?thesis using None Some assms to4_length [OF Some] by (auto simp: c pre)
    qed
  next
    case (Some y)
    have n: "96 \<le> n" by (rule masked_mapped_long [OF assms(1) Some])
    have N: "?N = mapped @ y" using Some to4_16 [OF lN] by simp
    have ly: "length y = 4" by (rule to4_length [OF Some])
    have "?N = and_bytes ?N ?m" by (simp add: and_bytes_twice)
    also have "\<dots> = mapped @ and_bytes y (mask_bytes 4 (n - 96))"
      using masked_long [OF n lN] N by simp
    finally have y: "and_bytes y (mask_bytes 4 (n - 96)) = y" using N by simp
    have m: "drop 12 ?m = mask_bytes 4 (n - 96)" using long_mask [OF n] by simp
    show ?thesis
    proof (cases "to4 ip")
      case None
      have "?N \<noteq> and_bytes ip ?m"
      proof
        assume "?N = and_bytes ip ?m"
        moreover have "take 12 (and_bytes ip ?m) = take 12 ip" using masked_long [OF n assms(2)] assms(2) by simp
        ultimately have "take 12 ip = mapped" using N mapped_split(1) [of y] by metis
        then show False using to4_take [OF assms(2)] None by simp
      qed
      then show ?thesis using None Some assms ly by (simp add: c pre)
    next
      case (Some x)
      have "ip = mapped @ x" using Some to4_16 [OF assms(2)] by simp
      then have "and_bytes ip ?m = mapped @ and_bytes x (mask_bytes 4 (n - 96))"
        using masked_long [OF n assms(2)] by simp
      then have "?N = and_bytes ip ?m \<longleftrightarrow> y = and_bytes x (mask_bytes 4 (n - 96))" using N by simp
      then show ?thesis using \<open>to4 ?N = Some y\<close> Some ly to4_length [OF Some] n m y by (simp add: c pre)
    qed
  qed
qed

lemma address_contains:
  assumes "length a = 16" "length ip = 16" "k = (if to4 a = None then 16 else 4)"
  shows "contains_ip \<lparr>nt_ip = a, nt_mask = mask_bytes k (8 * k)\<rparr> ip \<longleftrightarrow> ip = a"
proof -
  have all: "and_bytes u (mask_bytes k (8 * k)) = and_bytes v (mask_bytes k (8 * k)) \<longleftrightarrow> u = v"
    if "length u = k" "length v = k" for u v
    using masked_prefix [OF that] bits_of_eq [of u v] that by simp
  show ?thesis
  proof (cases "to4 a")
    case None
    then have k: "k = 16" using assms(3) by simp
    show ?thesis
    proof (cases "to4 ip")
      case (Some x)
      then show ?thesis using None assms(1) k to4_length [OF Some] by (auto simp: contains_ip_def Let_def)
    qed (use None assms(1,2) k all [of a ip] in \<open>auto simp: contains_ip_def Let_def\<close>)
  next
    case (Some y)
    then have k: "k = 4" and a: "a = mapped @ y" using assms(3) to4_16 [OF assms(1)] by simp_all
    show ?thesis
    proof (cases "to4 ip")
      case None
      then show ?thesis using Some assms(2) k to4_length [OF Some] by (auto simp: contains_ip_def Let_def)
    next
      case (Some x)
      have ip: "ip = mapped @ x" using Some to4_16 [OF assms(2)] by simp
      show ?thesis
        using \<open>to4 a = Some y\<close> Some k to4_length [OF Some] to4_length [OF \<open>to4 a = Some y\<close>] all [of y x]
        unfolding contains_ip_def Let_def a ip by auto
    qed
  qed
qed

lemma entry_covers:
  assumes "parse_entry entry = Some net" "length ip = 16"
  shows "contains_ip net ip \<longleftrightarrow> covers entry ip"
proof (cases "cidr_parts entry")
  case (Some p)
  obtain a n where p: "p = (a, n)" by fastforce
  have addr: "parse_addr (takeWhile (\<lambda>c. c \<noteq> 47) entry) = Some a" "n \<le> bit_len a"
    using Some p by (auto simp: cidr_parts_def Let_def split: if_splits option.splits)
  have net: "net = cidr_block a n" using assms(1) Some p by (simp add: parse_entry_def parse_cidr_def)
  show ?thesis
  proof (cases a)
    case (V4 b)
    then show ?thesis
      using v4_block_contains [of b ip n] addr parse_addr_length(1) assms(2) by (simp add: net covers_def Let_def Some p add.commute)
  next
    case (V6 b)
    then show ?thesis
      using v6_block_contains [of b ip n] addr parse_addr_length(2) assms(2) by (simp add: net covers_def Some p)
  qed
next
  case None
  then obtain a where a: "parse_ip entry = Some a"
    "net = \<lparr>nt_ip = a, nt_mask = mask_bytes (if to4 a = None then 16 else 4) (8 * (if to4 a = None then 16 else 4))\<rparr>"
    using assms(1) by (auto simp: parse_entry_def parse_cidr_def Let_def split: option.splits)
  show ?thesis
    using address_contains [OF parse_ip_length [OF a(1)] assms(2) refl] a by (auto simp: covers_def None)
qed

lemma covers_nothing: "\<not> covers [] ip"
proof -
  have "cidr_parts [] = None" "parse_ip [] = None" by code_simp+
  then show ?thesis by (simp add: covers_def)
qed

lemma entries_cover:
  "length ip = 16 \<Longrightarrow> parse_entries raws = Inr nets \<Longrightarrow>
     list_ex (\<lambda>net. contains_ip net ip) nets \<longleftrightarrow> list_ex (\<lambda>raw. covers (trim_space raw) ip) raws"
  by (induction raws arbitrary: nets)
    (auto simp: Let_def entry_covers covers_nothing split: if_splits option.splits sum.splits)

lemma unreadable_entry:
  "parse_entries raws = Inl entry \<Longrightarrow>
     entry \<in> set (map trim_space raws) \<and> entry \<noteq> [] \<and> cidr_parts entry = None \<and> parse_ip entry = None"
  by (induction raws)
    (auto simp: Let_def parse_entry_def parse_cidr_def split: if_splits option.splits sum.splits)

text \<open>C29. The list of trusted proxies says what it reads like. It is refused only for an entry that is neither a
  block nor an address; and a list that is accepted trusts an address, with a port or without, exactly when one of
  the entries between its commas is that address or a block the address begins with the bits of, whether either
  is written in the IPv4 or the IPv6 form, but never an IPv4 address for a block wider than all of them.\<close>

theorem trusted_proxies_are_those_listed:
  "case parse_trusted_proxies raw of
     Inl entry \<Rightarrow> entry \<in> set (map trim_space (split_on 44 raw)) \<and> entry \<noteq> []
       \<and> cidr_parts entry = None \<and> parse_ip entry = None
   | Inr nets \<Rightarrow> trusts nets addr \<longleftrightarrow>
       (case parse_ip (host_of addr) of
          None \<Rightarrow> False
        | Some ip \<Rightarrow> list_ex (\<lambda>part. covers (trim_space part) ip) (split_on 44 raw))"
proof (cases "parse_trusted_proxies raw")
  case (Inl entry)
  then show ?thesis using unreadable_entry by (auto simp: parse_trusted_proxies_def)
next
  case (Inr nets)
  then show ?thesis
    using entries_cover [OF parse_ip_length, of "host_of addr" _ "split_on 44 raw" nets]
    by (auto simp: parse_trusted_proxies_def trusts_def split: option.split)
qed

text \<open>The list of the tests, an IPv4 and an IPv6 address inside its block, and an address outside.\<close>

lemma listed_proxies:
  "parse_trusted_proxies (runes ''127.0.0.1, 10.0.0.0/8'') = Inr [\<lparr>nt_ip = mapped @ [127, 0, 0, 1],
     nt_mask = mask_bytes 4 32\<rparr>, cidr_block (V4 [10, 0, 0, 0]) 8]"
  by (simp_all add: addr_eval mask_eval)

theorem trusted_proxies_are_those_listed_witness:
  "trusts [\<lparr>nt_ip = mapped @ [127, 0, 0, 1], nt_mask = mask_bytes 4 32\<rparr>, cidr_block (V4 [10, 0, 0, 0]) 8]
     (runes ''[::ffff:10.9.8.7]:5000'')"
proof -
  have a: "parse_ip (host_of (runes ''[::ffff:10.9.8.7]:5000'')) = Some (mapped @ [10, 9, 8, 7])"
    by (simp add: addr_eval groups_eval)
  have parts: "map trim_space (split_on 44 (runes ''127.0.0.1, 10.0.0.0/8'')) = [runes ''127.0.0.1'', runes ''10.0.0.0/8'']"
    by (simp add: addr_eval)
  have c: "cidr_parts (runes ''10.0.0.0/8'') = Some (V4 [10, 0, 0, 0], 8)" by code_simp
  have same: "take 104 (bits_of (as16 (V4 [10, 0, 0, 0]))) = take 104 (bits_of (mapped @ [10, 9, 8, 7]))" by code_simp
  have "covers (runes ''10.0.0.0/8'') (mapped @ [10, 9, 8, 7])"
    unfolding covers_def c using same by simp
  then have "list_ex (\<lambda>entry. covers entry (mapped @ [10, 9, 8, 7])) (map trim_space (split_on 44 (runes ''127.0.0.1, 10.0.0.0/8'')))"
    unfolding parts by simp
  then show ?thesis
    using trusted_proxies_are_those_listed [of "runes ''127.0.0.1, 10.0.0.0/8''" "runes ''[::ffff:10.9.8.7]:5000''"]
    unfolding listed_proxies a by (simp add: list_ex_iff)
qed

section \<open>Who is held responsible\<close>

lemma split_last_comma: "44 \<notin> set entry \<Longrightarrow> split_on 44 (front @ 44 # entry) = split_on 44 front @ [entry]"
proof -
  assume e: "44 \<notin> set entry"
  then have one: "split_on 44 entry = [entry]" by (induction entry) auto
  have "split_on 44 (front @ 44 # entry) = split_on 44 front @ split_on 44 entry"
  proof (induction front)
    case (Cons x front)
    have "split_on 44 front \<noteq> []" by (cases front) (auto split: list.split)
    then show ?case using Cons by (cases "split_on 44 front") auto
  qed simp
  then show ?thesis using one by simp
qed

lemma client_ip_behind_proxy:
  assumes "trusts t remote" "44 \<notin> set entry" "parse_ip (trim_space entry) \<noteq> None" "\<not> trusts t (trim_space entry)"
  shows "client_ip t remote ((forged @ 44 # entry) # more_lines) real_ip = trim_space entry"
    "client_ip t remote (entry # more_lines) real_ip = trim_space entry"
proof -
  have "parse_ip [] = None" by code_simp
  then have ne: "trim_space entry \<noteq> []" using assms(3) by auto
  then have "entry \<noteq> []" by (auto simp: trim_space_def trim_by_def)
  moreover have "split_on 44 entry = [entry]" using assms(2) by (induction entry) auto
  ultimately show "client_ip t remote ((forged @ 44 # entry) # more_lines) real_ip = trim_space entry"
    "client_ip t remote (entry # more_lines) real_ip = trim_space entry"
    using ne split_last_comma [OF assms(2), of forged] assms by (auto simp: client_ip_def Let_def header_get_def)
qed

text \<open>C28. Whoever connects from an address that is no trusted proxy is that address, whatever the headers say;
  and behind a trusted proxy the answer is the entry that proxy appended to the chain, when it is an address
  and not a proxy itself, whatever the client put before it and into every other header.\<close>

theorem forwarded_address_cannot_be_forged:
  assumes "44 \<notin> set entry" "parse_ip (trim_space entry) \<noteq> None" "\<not> trusts t (trim_space entry)"
  shows "client_ip t remote ((forged @ 44 # entry) # more_lines) real_ip
      = (if trusts t remote then trim_space entry else host_of remote)
    \<and> client_ip t remote (entry # more_lines) real_ip = (if trusts t remote then trim_space entry else host_of remote)
    \<and> (trusts t remote \<or> client_ip t remote forwarded_for any_real_ip = host_of remote)"
  using client_ip_behind_proxy [OF _ assms] by (auto simp: client_ip_def Let_def)

theorem forwarded_address_cannot_be_forged_witness:
  "client_ip [\<lparr>nt_ip = [127, 0, 0, 1], nt_mask = mask_bytes 4 32\<rparr>] (runes ''127.0.0.1:5000'')
     [runes ''6.6.6.6, 203.0.113.9''] [] = runes ''203.0.113.9''"
proof -
  let ?t = "[\<lparr>nt_ip = [127, 0, 0, 1], nt_mask = mask_bytes 4 32\<rparr>]" and ?e = "runes '' 203.0.113.9''"
  have trim: "trim_space ?e = runes ''203.0.113.9''" by (simp add: trim_space_def trim_by_def is_space_def runes_def)
  have line: "runes ''6.6.6.6, 203.0.113.9'' = runes ''6.6.6.6'' @ 44 # ?e" by (simp add: runes_def)
  have "44 \<notin> set ?e" by (simp add: runes_def)
  moreover have "parse_ip (trim_space ?e) \<noteq> None" "\<not> trusts ?t (trim_space ?e)" "trusts ?t (runes ''127.0.0.1:5000'')"
    unfolding trim by (simp_all add: addr_eval mask_eval)
  ultimately show ?thesis
    unfolding line
    using forwarded_address_cannot_be_forged [of ?e ?t "runes ''127.0.0.1:5000''" "runes ''6.6.6.6''" "[]" "[]"] trim by simp
qed

text \<open>What that leaves open. An entry that is no address, such as one with a port, is passed over, so the next
  one to the left is believed although only the client vouches for it; and of two lines with the header the
  first counts, which is the client's when the proxy adds a line of its own.\<close>

lemma entry_with_port_lets_the_client_choose:
  "client_ip [\<lparr>nt_ip = [127, 0, 0, 1], nt_mask = mask_bytes 4 32\<rparr>] (runes ''127.0.0.1:5000'')
     [runes ''6.6.6.6, 203.0.113.9:4711''] [] = runes ''6.6.6.6''"
  by (simp_all add: addr_eval mask_eval)

lemma second_header_line_is_ignored:
  "client_ip [\<lparr>nt_ip = [127, 0, 0, 1], nt_mask = mask_bytes 4 32\<rparr>] (runes ''127.0.0.1:5000'')
     [runes ''6.6.6.6'', runes ''203.0.113.9''] [] = runes ''6.6.6.6''"
  by (simp_all add: addr_eval mask_eval)

section \<open>The list of proxies\<close>

text \<open>What the check of the setting takes for an entry.\<close>

definition valid_entry :: "ustring \<Rightarrow> bool" where
  "valid_entry entry \<longleftrightarrow> parse_cidr entry \<noteq> None \<or> parse_ip entry \<noteq> None"

lemma parse_entry_valid: "parse_entry entry \<noteq> None \<longleftrightarrow> valid_entry entry"
  by (auto simp: parse_entry_def valid_entry_def Let_def split: option.split)

lemma parse_entries_valid:
  "(\<exists>nets. parse_entries raws = Inr nets) \<longleftrightarrow> list_all (\<lambda>r. trim_space r = [] \<or> valid_entry (trim_space r)) raws"
proof (induction raws)
  case (Cons r raws)
  then show ?case
    using parse_entry_valid [of "trim_space r"]
    by (auto simp: Let_def split: option.splits sum.splits)
qed simp

text \<open>The settings accept a list of proxies exactly when the server that starts with it can read it, so no
  value that was accepted keeps the server from starting, and a list with a typo is refused by both.\<close>

theorem accepted_proxies_are_readable:
  "validate valid_entry k TrustedProxies v = None \<longleftrightarrow> (\<exists>nets. parse_trusted_proxies v = Inr nets)"
  by (simp add: validate_def parse_trusted_proxies_def parse_entries_valid)

text \<open>The chains of the tests.\<close>

definition test_proxies :: "ipnet list" where
  "test_proxies = [\<lparr>nt_ip = replicate 10 0 @ [0xFF, 0xFF, 127, 0, 0, 1], nt_mask = mask_bytes 4 32\<rparr>,
     cidr_block (V4 [10, 0, 0, 0]) 8]"

lemma client_ip_vectors:
  "parse_trusted_proxies (runes ''127.0.0.1, 10.0.0.0/8'') = Inr test_proxies"
  "client_ip test_proxies (runes ''127.0.0.1:5000'') [runes ''198.51.100.7, 203.0.113.9''] [] = runes ''203.0.113.9''"
  "client_ip test_proxies (runes ''127.0.0.1:5000'') [runes ''203.0.113.9, 10.1.2.3''] [] = runes ''203.0.113.9''"
  "client_ip test_proxies (runes ''10.0.0.5:5000'') [] [runes ''203.0.113.9''] = runes ''203.0.113.9''"
  "client_ip test_proxies (runes ''127.0.0.1:5000'') [runes ''not-an-ip''] [] = runes ''127.0.0.1''"
  by (simp_all add: addr_eval mask_eval test_proxies_def)

end
