(* ===== verification/Panel.thy ===== *)
theory Panel
  imports Control Storage_Queries Backups "HOL-Library.While_Combinator"
begin

text \<open>
  The admin panel: \<open>internal/panel\<close>. A session is a function of the lines that are typed; at the end of the
  input \<open>ask\<close> answers \<open>0\<close>. The panel has its own access manager and settings on the same database file as the
  server: \<open>pn_live\<close> is the running server, if there is one, and a command to it goes through the control
  channel with the tables as they are then. What is printed is left out but for the outcome of each operation.
  The outside of an operation is the one that belongs to the number of lines left, and every round of a menu uses up a line.
\<close>

section \<open>The console\<close>

datatype remark = Warned string | Did string

record console =
  pn_in :: "ustring list"
  pn_out :: "remark list"
  pn_acc :: access
  pn_cfg :: config
  pn_bots :: bot_db
  pn_live :: "site option"
  pn_volume :: volume
  pn_identity :: "ustring option"
  pn_closed :: bool

record panel_env =
  pe_call :: bot_call
  pe_valid :: "ustring \<Rightarrow> bool"
  pe_process :: process
  pe_listening :: "string \<Rightarrow> string option"
  pe_endpoint :: endpoint_file
  pe_backup :: bkenv
  pe_close_fails :: bool
  pe_cwd :: ustring
  pe_db_path :: ustring
  pe_music :: tree
  pe_fresh :: ustring
  pe_writes :: "ustring \<Rightarrow> bool"

type_synonym outside = "nat \<Rightarrow> panel_env"

definition now_of :: "outside \<Rightarrow> console \<Rightarrow> panel_env" where
  "now_of E p = E (length (pn_in p))"

text \<open>Once the database is closed, for a restore, every statement fails.\<close>

definition penv :: "outside \<Rightarrow> console \<Rightarrow> env" where
  "penv E p = (let e = cx_env (bx (pe_call (now_of E p))) in if pn_closed p then e\<lparr>fails := \<lambda>_. True\<rparr> else e)"

definition plower :: "outside \<Rightarrow> console \<Rightarrow> ustring \<Rightarrow> ustring" where
  "plower E p = cx_lower (bx (pe_call (now_of E p)))"

definition pdb :: "console \<Rightarrow> db" where
  "pdb p = store (pn_acc p)"

definition set_pdb :: "db \<Rightarrow> console \<Rightarrow> console" where
  "set_pdb d p = p\<lparr>pn_acc := (pn_acc p)\<lparr>store := d\<rparr>\<rparr>"

definition ask :: "console \<Rightarrow> console \<times> ustring" where
  "ask p = (case pn_in p of [] \<Rightarrow> (p, runes ''0'') | l # ls \<Rightarrow> (p\<lparr>pn_in := ls\<rparr>, trim_space l))"

definition pause :: "console \<Rightarrow> console" where
  "pause p = p\<lparr>pn_in := tl (pn_in p)\<rparr>"

definition tell :: "remark \<Rightarrow> console \<Rightarrow> console" where
  "tell n p = p\<lparr>pn_out := pn_out p @ [n]\<rparr>"

definition warn :: "string \<Rightarrow> console \<Rightarrow> console" where
  "warn msg p = pause (tell (Warned msg) p)"

definition ok :: "string \<Rightarrow> console \<Rightarrow> console" where
  "ok msg p = pause (tell (Did msg) p)"

abbreviation yes :: "ustring \<Rightarrow> bool" where "yes a \<equiv> a = runes ''y''"

text \<open>\<open>pickRole\<close>, \<open>pickRoom\<close> and \<open>pickBot\<close>: a row number from the list that was shown.\<close>

definition pick_row :: "string \<Rightarrow> 'a list \<Rightarrow> console \<Rightarrow> console \<times> 'a option" where
  "pick_row none xs p =
     (if xs = [] then (warn none p, None)
      else
        (case ask p of (p1, a) \<Rightarrow>
           (case atoi a of
              None \<Rightarrow> (warn ''Invalid number'' p1, None)
            | Some n \<Rightarrow>
                if n < 1 \<or> n > int (length xs) then (warn ''Invalid number'' p1, None)
                else (p1, Some (xs ! nat (n - 1))))))"

section \<open>The running server\<close>

definition share_out :: "console \<Rightarrow> site \<Rightarrow> site" where
  "share_out p w = (on_srv (\<lambda>s. set_acc ((acc s)\<lparr>store := pdb p\<rparr>) s) w)\<lparr>bdb := pn_bots p\<rparr>"

definition share_in :: "site \<Rightarrow> console \<Rightarrow> console" where
  "share_in w p = (set_pdb (store (acc (srv w))) p)\<lparr>pn_bots := bdb w, pn_live := Some w\<rparr>"

definition server_running :: "outside \<Rightarrow> console \<Rightarrow> bool" where
  "server_running E p \<longleftrightarrow> pn_live p \<noteq> None
     \<and> control_running (pe_listening (now_of E p)) (pe_endpoint (now_of E p)) \<noteq> None"

definition send_command ::
  "outside \<Rightarrow> string \<Rightarrow> raw_args \<Rightarrow> console \<Rightarrow> console \<times> (client_error + control_data)" where
  "send_command E command args p =
     (case pn_live p of
        None \<Rightarrow> (p, Inl NotRunning)
      | Some w \<Rightarrow>
          (let o' = now_of E p in
           case call_control (pe_listening o') (pe_endpoint o') (pe_process o') (pe_call o') (pe_valid o')
                  command args (share_out p w) of
             (w1, r) \<Rightarrow> (share_in w1 p, r)))"

definition no_args :: raw_args where
  "no_args = \<lparr>ra_empty = True, ra_kick = None, ra_notice = None, ra_stop = None\<rparr>"

definition control_error :: "client_error \<Rightarrow> console \<Rightarrow> console" where
  "control_error err = warn (case err of NotRunning \<Rightarrow> ''The server is not running'' | _ \<Rightarrow> ''Error'')"

definition offer_reload :: "outside \<Rightarrow> console \<Rightarrow> console" where
  "offer_reload E p =
     (if \<not> server_running E p then p
      else case ask p of (p1, a) \<Rightarrow>
        if \<not> yes a then p1
        else case send_command E ''reload'' no_args p1 of
          (p2, Inl err) \<Rightarrow> control_error err p2
        | (p2, Inr _) \<Rightarrow> tell (Did ''Applied to the running server'') p2)"

definition saved_note :: "outside \<Rightarrow> string \<Rightarrow> console \<Rightarrow> console" where
  "saved_note E msg p = pause (offer_reload E (tell (Did msg) p))"

section \<open>Settings\<close>

definition edit_setting :: "outside \<Rightarrow> setting \<Rightarrow> console \<Rightarrow> console" where
  "edit_setting E s p =
     (case ask p of (p1, val) \<Rightarrow>
        if val = [] then warn ''Nothing changed'' p1
        else case set_config (penv E p1) (pe_valid (now_of E p1)) (st_key s) val (pdb p1, pn_cfg p1) of
          (_, Some err) \<Rightarrow> warn ''Error'' p1
        | ((d, g), None) \<Rightarrow>
            (let p2 = (set_pdb d p1)\<lparr>pn_cfg := g\<rparr> in
             if st_key s = KeyListenAddr then ok ''Saved'' p2 else saved_note E ''Saved'' p2))"

definition reset_setting :: "outside \<Rightarrow> console \<Rightarrow> console" where
  "reset_setting E p =
     (case ask p of (p1, key) \<Rightarrow>
        if key = [] then p1
        else case find (\<lambda>s. runes (st_key s) = key) registry of
          None \<Rightarrow> warn ''No such key'' p1
        | Some s \<Rightarrow>
            (case ask p1 of (p2, a) \<Rightarrow>
               if \<not> yes a then warn ''Cancelled'' p2
               else case reset_config (penv E p2) (st_key s) (pdb p2, pn_cfg p2) of
                 (_, Some err) \<Rightarrow> warn ''Error'' p2
               | ((d, g), None) \<Rightarrow> ok ''Reset to default'' ((set_pdb d p2)\<lparr>pn_cfg := g\<rparr>)))"

definition sections :: "string list" where
  "sections = [''server'', ''network'', ''tls'', ''users'', ''rooms'', ''chat'', ''uploads'', ''paint'', ''livekit'',
     ''bots'', ''backup'', ''log'']"

section \<open>Roles and sanctions\<close>

text \<open>\<open>askPermissions\<close> goes through the list of all permissions; any other answer leaves the bit alone.\<close>

definition ask_permission :: "outside \<Rightarrow> descriptor \<Rightarrow> console \<times> perm \<Rightarrow> console \<times> perm" where
  "ask_permission E d pm =
     (case ask (fst pm) of (p1, raw) \<Rightarrow>
        let answer = plower E p1 raw in
        (p1,
         if answer = runes ''y'' \<or> answer = runes ''yes'' then snd pm OR d_perm d
         else if answer = runes ''n'' \<or> answer = runes ''no'' then snd pm AND NOT (d_perm d)
         else snd pm))"

definition ask_permissions :: "outside \<Rightarrow> perm \<Rightarrow> console \<Rightarrow> console \<times> perm" where
  "ask_permissions E current p = fold (ask_permission E) all_perms (p, current)"

definition panel_create_role :: "outside \<Rightarrow> console \<Rightarrow> console" where
  "panel_create_role E p =
     (case ask p of (p1, name) \<Rightarrow>
        if name = [] then warn ''Cancelled'' p1
        else case ask p1 of (p2, raw) \<Rightarrow>
          (case (if raw = [] then Some 0 else atoi raw) of
             None \<Rightarrow> warn ''Priority must be a number'' p2
           | Some n \<Rightarrow>
               (case ask_permissions E 0 p2 of (p3, perms) \<Rightarrow>
                  case create_role (penv E p3) \<lparr>sp_name = Some name, sp_permissions = Some perms, sp_priority = Some n,
                         sp_color = None, sp_tag_style = None\<rparr> (pn_acc p3) of
                    (m, Inl err) \<Rightarrow> warn ''Error'' (p3\<lparr>pn_acc := m\<rparr>)
                  | (m, Inr _) \<Rightarrow> ok ''Role created'' (p3\<lparr>pn_acc := m\<rparr>))))"

definition pick_role :: "outside \<Rightarrow> console \<Rightarrow> console \<times> role option" where
  "pick_role E p = pick_row ''There are no roles'' (all_roles (plower E p) (pn_acc p)) p"

definition edit_role_permissions :: "outside \<Rightarrow> console \<Rightarrow> console" where
  "edit_role_permissions E p =
     (case pick_role E p of
        (p1, None) \<Rightarrow> p1
      | (p1, Some r) \<Rightarrow>
          (case ask_permissions E (role_permissions r) p1 of (p2, perms) \<Rightarrow>
             case update_role (penv E p2) (role_id r) \<lparr>sp_name = None, sp_permissions = Some perms, sp_priority = None,
                    sp_color = None, sp_tag_style = None\<rparr> (pn_acc p2) of
               (m, Inl err) \<Rightarrow> warn ''Error'' (p2\<lparr>pn_acc := m\<rparr>)
             | (m, Inr _) \<Rightarrow> ok ''Permissions saved'' (p2\<lparr>pn_acc := m\<rparr>)))"

definition panel_delete_role :: "outside \<Rightarrow> console \<Rightarrow> console" where
  "panel_delete_role E p =
     (case pick_role E p of
        (p1, None) \<Rightarrow> p1
      | (p1, Some r) \<Rightarrow>
          (case ask p1 of (p2, a) \<Rightarrow>
             if \<not> yes a then warn ''Cancelled'' p2
             else case delete_role (penv E p2) (role_id r) (pn_acc p2) of
               (m, Some err) \<Rightarrow> warn ''Error'' (p2\<lparr>pn_acc := m\<rparr>)
             | (m, None) \<Rightarrow> ok ''Role deleted'' (p2\<lparr>pn_acc := m\<rparr>)))"

text \<open>A client id is text on the terminal; outside ASCII it is cut to bytes here.\<close>

definition pick_user :: "outside \<Rightarrow> console \<Rightarrow> console \<times> uuid option" where
  "pick_user E p =
     (case db_recent_users (penv E p) 30 (pdb p) of
        Inl _ \<Rightarrow> (warn ''Could not read users'' p, None)
      | Inr users \<Rightarrow>
          (case ask p of (p1, raw) \<Rightarrow>
             if raw = [] then (p1, None)
             else case atoi raw of
               Some n \<Rightarrow>
                 if n < 1 \<or> n > int (length users) then (warn ''Invalid number'' p1, None)
                 else (p1, Some (ku_client (users ! nat (n - 1))))
             | None \<Rightarrow> (p1, Some (map char_of (plower E p1 raw)))))"

definition assign_role :: "outside \<Rightarrow> bool \<Rightarrow> console \<Rightarrow> console" where
  "assign_role E give p =
     (case pick_role E p of
        (p1, None) \<Rightarrow> p1
      | (p1, Some r) \<Rightarrow>
          (case pick_user E p1 of
             (p2, None) \<Rightarrow> p2
           | (p2, Some u) \<Rightarrow>
               (case (if give then grant (penv E p2) [] u (role_id r) (pn_acc p2)
                      else revoke (penv E p2) [] u (role_id r) (pn_acc p2)) of
                  (m, Some err) \<Rightarrow> warn ''Error'' (p2\<lparr>pn_acc := m\<rparr>)
                | (m, None) \<Rightarrow> ok ''Done'' (p2\<lparr>pn_acc := m\<rparr>))))"

definition lift_sanction :: "outside \<Rightarrow> sanction_row list \<Rightarrow> console \<Rightarrow> console" where
  "lift_sanction E xs p =
     (case pick_row ''Nothing to lift'' xs p of
        (p1, None) \<Rightarrow> p1
      | (p1, Some row) \<Rightarrow>
          (case lift (penv E p1) (sn_kind row) (sn_client row) (pn_acc p1) of
             (m, Inl err) \<Rightarrow> warn ''Error'' (p1\<lparr>pn_acc := m\<rparr>)
           | (m, Inr _) \<Rightarrow> ok ''Lifted'' (p1\<lparr>pn_acc := m\<rparr>)))"

section \<open>Rooms\<close>

definition panel_room_name :: "ustring \<Rightarrow> text_error + ustring" where
  "panel_room_name raw = normalize_name raw ''room name'' 1 40"

text \<open>A capacity: empty for what it was, otherwise a number above zero.\<close>

definition panel_capacity :: "int \<Rightarrow> ustring \<Rightarrow> int option" where
  "panel_capacity old raw =
     (if raw = [] then Some old else case atoi raw of None \<Rightarrow> None | Some n \<Rightarrow> if n < 1 then None else Some n)"

definition panel_create_room :: "outside \<Rightarrow> console \<Rightarrow> console" where
  "panel_create_room E p =
     (case ask p of (p1, raw) \<Rightarrow>
        case panel_room_name raw of
          Inl _ \<Rightarrow> warn ''Bad name'' p1
        | Inr name \<Rightarrow>
            (case ask p1 of (p2, password) \<Rightarrow>
               case ask p2 of (p3, cap) \<Rightarrow>
                 case panel_capacity (cfg_int (pn_cfg p3) KeyRoomsDefaultMaxUsers) cap of
                   None \<Rightarrow> warn ''Capacity must be a number greater than zero'' p3
                 | Some n \<Rightarrow>
                     (case db_next_room_position (penv E p3) (pdb p3) of
                        Inl _ \<Rightarrow> warn ''Error'' p3
                      | Inr pos \<Rightarrow>
                          (case db_create_room (penv E p3) \<lparr>rd_id = new_uuid (penv E p3), rd_name = name, rd_password = password,
                                 rd_capacity = n, rd_position = pos, rd_required_role = [], rd_created_at = 0,
                                 rd_updated_at = 0\<rparr> (pdb p3) of
                             Inl _ \<Rightarrow> warn ''Error'' p3
                           | Inr d \<Rightarrow> saved_note E ''Room created'' (set_pdb d p3)))))"

definition edit_room :: "outside \<Rightarrow> room_def list \<Rightarrow> console \<Rightarrow> console" where
  "edit_room E xs p =
     (case pick_row ''There are no rooms'' xs p of
        (p1, None) \<Rightarrow> p1
      | (p1, Some r) \<Rightarrow>
          (case ask p1 of (p2, raw) \<Rightarrow>
             case (if raw = [] then Inr (rd_name r) else panel_room_name raw) of
               Inl _ \<Rightarrow> warn ''Bad name'' p2
             | Inr name \<Rightarrow>
                 (case ask p2 of (p3, answer) \<Rightarrow>
                    let password = (if answer = [] then rd_password r else if answer = runes ''-'' then [] else answer) in
                    case ask p3 of (p4, cap) \<Rightarrow>
                      case panel_capacity (rd_capacity r) cap of
                        None \<Rightarrow> warn ''Capacity must be a number greater than zero'' p4
                      | Some n \<Rightarrow>
                          (case db_update_room (penv E p4)
                                  (r\<lparr>rd_name := name, rd_password := password, rd_capacity := n\<rparr>) (pdb p4) of
                             Inl _ \<Rightarrow> warn ''Error'' p4
                           | Inr d \<Rightarrow> saved_note E ''Saved'' (set_pdb d p4)))))"

definition panel_delete_room :: "outside \<Rightarrow> room_def list \<Rightarrow> console \<Rightarrow> console" where
  "panel_delete_room E xs p =
     (case pick_row ''There are no rooms'' xs p of
        (p1, None) \<Rightarrow> p1
      | (p1, Some r) \<Rightarrow>
          (case ask p1 of (p2, a) \<Rightarrow>
             if \<not> yes a then warn ''Cancelled'' p2
             else case db_delete_room (penv E p2) (rd_id r) (pdb p2) of
               Inl _ \<Rightarrow> warn ''Error'' p2
             | Inr d \<Rightarrow> saved_note E ''Room deleted'' (set_pdb d p2)))"

section \<open>Bots\<close>

definition playable_in :: "outside \<Rightarrow> ustring \<Rightarrow> console \<Rightarrow> nat option" where
  "playable_in E folder p =
     count_playable (plower E p) (pe_cwd (now_of E p)) (pe_music (now_of E p)) folder"

definition panel_bot_name :: "ustring \<Rightarrow> text_error + ustring" where
  "panel_bot_name raw = normalize_name raw ''bot name'' 1 32"

definition panel_create_bot :: "outside \<Rightarrow> console \<Rightarrow> console" where
  "panel_create_bot E p =
     (case ask p of (p1, raw) \<Rightarrow>
        case panel_bot_name raw of
          Inl _ \<Rightarrow> warn ''Bad name'' p1
        | Inr name \<Rightarrow>
            (case ask p1 of (p2, folder) \<Rightarrow>
               if folder = [] then warn ''The folder path is required'' p2
               else case playable_in E folder p2 of
                 None \<Rightarrow> warn ''Could not read that folder'' p2
               | Some n \<Rightarrow>
                   (case ask (if n = 0 then warn ''No audio files in that folder'' p2 else p2) of (p3, a) \<Rightarrow>
                      case db_create_bot (penv E p3) \<lparr>bd_id = new_uuid (penv E p3), bd_name = name, bd_kind = ''music'',
                             bd_folder = folder, bd_color = [], bd_loop = True, bd_shuffle = yes a, bd_enabled = True,
                             bd_playlist = [], bd_created_at = 0\<rparr> (pn_bots p3) of
                        Inl _ \<Rightarrow> warn ''Error'' p3
                      | Inr d \<Rightarrow> saved_note E ''Bot created'' (p3\<lparr>pn_bots := d\<rparr>))))"

text \<open>A yes, a no, or as it was.\<close>

definition switch :: "bool \<Rightarrow> ustring \<Rightarrow> bool" where
  "switch old a = (if yes a then True else if a = runes ''n'' then False else old)"

definition edit_bot :: "outside \<Rightarrow> bot_def list \<Rightarrow> console \<Rightarrow> console" where
  "edit_bot E xs p =
     (case pick_row ''There are no bots'' xs p of
        (p1, None) \<Rightarrow> p1
      | (p1, Some b) \<Rightarrow>
          (case ask p1 of (p2, raw) \<Rightarrow>
             case (if raw = [] then Inr (bd_name b) else panel_bot_name raw) of
               Inl _ \<Rightarrow> warn ''Bad name'' p2
             | Inr name \<Rightarrow>
                 (case ask p2 of (p3, folder) \<Rightarrow>
                    if folder \<noteq> [] \<and> playable_in E folder p3 = None then warn ''Could not read that folder'' p3
                    else case ask p3 of (p4, shuffle) \<Rightarrow> case ask p4 of (p5, repeats) \<Rightarrow> case ask p5 of (p6, on) \<Rightarrow>
                      case db_update_bot (penv E p6)
                             (b\<lparr>bd_name := name, bd_folder := (if folder = [] then bd_folder b else folder),
                                bd_shuffle := switch (bd_shuffle b) shuffle, bd_loop := switch (bd_loop b) repeats,
                                bd_enabled := switch (bd_enabled b) on\<rparr>) (pn_bots p6) of
                        Inl _ \<Rightarrow> warn ''Error'' p6
                      | Inr d \<Rightarrow> saved_note E ''Saved'' (p6\<lparr>pn_bots := d\<rparr>))))"

definition panel_delete_bot :: "outside \<Rightarrow> bot_def list \<Rightarrow> console \<Rightarrow> console" where
  "panel_delete_bot E xs p =
     (case pick_row ''There are no bots'' xs p of
        (p1, None) \<Rightarrow> p1
      | (p1, Some b) \<Rightarrow>
          (case ask p1 of (p2, a) \<Rightarrow>
             if \<not> yes a then warn ''Cancelled'' p2
             else case db_delete_bot (penv E p2) (bd_id b) (pn_bots p2) of
               Inl _ \<Rightarrow> warn ''Error'' p2
             | Inr d \<Rightarrow> saved_note E ''Bot deleted'' (p2\<lparr>pn_bots := d\<rparr>)))"

section \<open>The running server's menu\<close>

text \<open>\<open>liveStatus\<close>, \<open>liveReload\<close>, \<open>liveStopBots\<close> and, with its text, \<open>liveNotice\<close>: one command, then a line.\<close>

definition live_command :: "outside \<Rightarrow> string \<Rightarrow> raw_args \<Rightarrow> string \<Rightarrow> console \<Rightarrow> console" where
  "live_command E command args msg p =
     (case send_command E command args p of
        (p1, Inl err) \<Rightarrow> control_error err p1
      | (p1, Inr _) \<Rightarrow> ok msg p1)"

definition live_notice :: "outside \<Rightarrow> console \<Rightarrow> console" where
  "live_notice E p =
     (case ask p of (p1, txt) \<Rightarrow>
        if txt = [] then warn ''Cancelled'' p1
        else live_command E ''notice'' (no_args\<lparr>ra_empty := False, ra_notice := Some txt\<rparr>) ''Notice sent'' p1)"

definition live_kick :: "outside \<Rightarrow> console \<Rightarrow> console" where
  "live_kick E p =
     (case send_command E ''online'' no_args p of
        (p1, Inr (CtlOnline users)) \<Rightarrow>
          (case pick_row ''Nobody is online'' users p1 of
             (p2, None) \<Rightarrow> p2
           | (p2, Some u) \<Rightarrow>
               (case ask p2 of (p3, reason) \<Rightarrow>
                  live_command E ''kick''
                    (no_args\<lparr>ra_empty := False, ra_kick := Some \<lparr>ka_client = runes (ou_uuid u), ka_reason = reason\<rparr>\<rparr>)
                    ''Kicked'' p3))
      | (p1, Inr _) \<Rightarrow> warn ''Error'' p1
      | (p1, Inl err) \<Rightarrow> control_error err p1)"

section \<open>Backups and the service\<close>

definition pbackup :: "outside \<Rightarrow> console \<Rightarrow> bkenv" where
  "pbackup E p =
     (let e = pe_backup (now_of E p) in
      if pn_closed p then e\<lparr>be_fails := (\<lambda>c. c = BkVacuum \<or> be_fails e c), be_partial := None\<rparr> else e)"

definition create_backup :: "outside \<Rightarrow> ustring \<Rightarrow> console \<Rightarrow> console" where
  "create_backup E dir p =
     (case backup_to (pbackup E p) (pe_cwd (now_of E p)) dir (pn_volume p) of
        (v, Inl _) \<Rightarrow> warn ''Backup failed'' (p\<lparr>pn_volume := v\<rparr>)
      | (v, Inr _) \<Rightarrow>
          (case prune_backups (pbackup E p) (pe_cwd (now_of E p)) dir (cfg_int (pn_cfg p) KeyBackupKeep) v of
             (v1, _) \<Rightarrow> ok ''Backup taken'' (p\<lparr>pn_volume := v1\<rparr>)))"

definition restore_backup :: "outside \<Rightarrow> backup list \<Rightarrow> console \<Rightarrow> console" where
  "restore_backup E xs p =
     (if xs = [] then warn ''There is no backup to restore from'' p
      else if server_running E p then warn ''The server is running'' p
      else case pick_row ''There is no backup to restore from'' xs p of
        (p1, None) \<Rightarrow> p1
      | (p1, Some chosen) \<Rightarrow>
          (case ask p1 of (p2, a) \<Rightarrow>
             if a \<noteq> runes ''yes'' then warn ''Cancelled'' p2
             else if pe_close_fails (now_of E p2) then warn ''Could not close the database'' p2
             else
               (let o' = now_of E p2; p3 = p2\<lparr>pn_closed := True\<rparr> in
                case restore_from (pe_backup o') (pe_cwd o') (pe_db_path o') (bk_path chosen) (pn_volume p3) of
                  (v, Inl _) \<Rightarrow> warn ''Restore failed'' (p3\<lparr>pn_volume := v\<rparr>)
                | (v, Inr _) \<Rightarrow> ok ''Restore complete'' (p3\<lparr>pn_volume := v\<rparr>))))"

text \<open>The service menu on Linux; on other systems it only prints. The unit file itself is text that is only written.\<close>

definition write_unit :: "outside \<Rightarrow> ustring \<Rightarrow> console \<Rightarrow> console" where
  "write_unit E path p = (if pe_writes (now_of E p) path then ok ''Written'' p else warn ''Could not write the file'' p)"

definition service_menu :: "outside \<Rightarrow> console \<Rightarrow> console" where
  "service_menu E p =
     (case ask p of (p1, a) \<Rightarrow>
        if a = runes ''1'' then write_unit E (runes ''/etc/systemd/system/tamizchat.service'') p1
        else if a = runes ''2'' then (case ask p1 of (p2, path) \<Rightarrow> if path = [] then p2 else write_unit E path p2)
        else p1)"

section \<open>What is only shown\<close>

definition show_status :: "outside \<Rightarrow> console \<Rightarrow> console" where
  "show_status E p =
     (case server_uuid (penv E p) (pe_fresh (now_of E p)) (pn_identity p) of
        (i, Inl _) \<Rightarrow> warn ''Could not read the server ID'' (p\<lparr>pn_identity := i\<rparr>)
      | (i, Inr _) \<Rightarrow> pause (p\<lparr>pn_identity := i\<rparr>))"

definition show_users :: "outside \<Rightarrow> console \<Rightarrow> console" where
  "show_users E p =
     (case db_count_users (penv E p) (pdb p) of
        Inl _ \<Rightarrow> warn ''Could not read users'' p
      | Inr _ \<Rightarrow> (case db_recent_users (penv E p) 50 (pdb p) of Inl _ \<Rightarrow> warn ''Could not read users'' p | Inr _ \<Rightarrow> pause p))"

definition show_mod_log :: "outside \<Rightarrow> console \<Rightarrow> console" where
  "show_mod_log E p =
     (case db_recent_mod_log (penv E p) 40 (pdb p) of Inl _ \<Rightarrow> warn ''Could not read the log'' p | Inr _ \<Rightarrow> pause p)"

section \<open>Every operation only reads on\<close>

named_theorems reads_on "no operation puts lines back"

abbreviation lines_left :: "console \<Rightarrow> nat" where "lines_left p \<equiv> length (pn_in p)"

lemma lines_simps [simp]:
  "pn_in (pause p) = tl (pn_in p)" "pn_in (tell n p) = pn_in p" "pn_in (warn msg p) = tl (pn_in p)"
  "pn_in (ok msg p) = tl (pn_in p)" "pn_in (set_pdb d p) = pn_in p" "pn_in (share_in w p) = pn_in p"
  by (simp_all add: pause_def tell_def warn_def ok_def set_pdb_def share_in_def)

lemma ask_reads [reads_on]: "ask p = (p1, a) \<Longrightarrow> lines_left p1 \<le> lines_left p"
  by (auto simp: ask_def split: list.splits)

text \<open>Any answer but a zero has used up a line.\<close>

lemma ask_consumes: "ask p = (p1, a) \<Longrightarrow> a \<noteq> runes ''0'' \<Longrightarrow> lines_left p1 < lines_left p"
  by (auto simp: ask_def split: list.splits)

lemma pick_row_reads [reads_on]: "pick_row none xs p = (p1, r) \<Longrightarrow> lines_left p1 \<le> lines_left p"
  by (auto simp: pick_row_def split: prod.splits option.splits if_splits dest: ask_reads)

lemma send_command_reads [reads_on]: "send_command E cmd args p = (p1, r) \<Longrightarrow> lines_left p1 = lines_left p"
  by (auto simp: send_command_def Let_def split: prod.splits option.splits)

lemma control_error_lines [simp]: "pn_in (control_error err p) = tl (pn_in p)"
  by (simp add: control_error_def)

lemma offer_reload_reads [reads_on]: "lines_left (offer_reload E p) \<le> lines_left p"
  by (auto simp: offer_reload_def split: prod.split sum.split dest!: ask_reads send_command_reads)

lemma saved_note_reads [reads_on]: "lines_left p \<le> k \<Longrightarrow> lines_left (saved_note E msg p) \<le> k"
  using offer_reload_reads [of E "tell (Did msg) p"] by (simp add: saved_note_def)

lemmas reading = ask_reads pick_row_reads send_command_reads

lemma edit_setting_reads [reads_on]: "lines_left (edit_setting E s p) \<le> lines_left p"
  by (auto simp: edit_setting_def Let_def split: prod.split option.split dest!: reading intro!: saved_note_reads)

lemma reset_setting_reads [reads_on]: "lines_left (reset_setting E p) \<le> lines_left p"
  by (auto simp: reset_setting_def split: prod.split option.split dest!: reading)

lemma ask_permission_reads: "lines_left (fst (ask_permission E d pm)) \<le> lines_left (fst pm)"
  by (auto simp: ask_permission_def Let_def split: prod.split dest!: reading)

lemma fold_permission_reads: "lines_left (fst (fold (ask_permission E) ds pm)) \<le> lines_left (fst pm)"
proof (induction ds arbitrary: pm)
  case (Cons d ds)
  show ?case using le_trans [OF Cons.IH ask_permission_reads [of E d pm]] by simp
qed simp

lemma ask_permissions_reads: "ask_permissions E m p = (p1, ps) \<Longrightarrow> lines_left p1 \<le> lines_left p"
  using fold_permission_reads [of E all_perms "(p, m)"] by (simp add: ask_permissions_def)

lemma pick_role_reads: "pick_role E p = (p1, r) \<Longrightarrow> lines_left p1 \<le> lines_left p"
  unfolding pick_role_def by (rule pick_row_reads)

lemma pick_user_reads: "pick_user E p = (p1, r) \<Longrightarrow> lines_left p1 \<le> lines_left p"
  by (auto simp: pick_user_def split: prod.splits option.splits sum.splits if_splits dest!: ask_reads)

lemmas reading_more = reading ask_permissions_reads pick_role_reads pick_user_reads

lemma panel_create_role_reads [reads_on]: "lines_left (panel_create_role E p) \<le> lines_left p"
  by (auto simp: panel_create_role_def split: prod.split option.split sum.split dest!: reading_more)

lemma edit_role_permissions_reads [reads_on]: "lines_left (edit_role_permissions E p) \<le> lines_left p"
  by (auto simp: edit_role_permissions_def split: prod.split option.split sum.split dest!: reading_more)

lemma panel_delete_role_reads [reads_on]: "lines_left (panel_delete_role E p) \<le> lines_left p"
  by (auto simp: panel_delete_role_def split: prod.split option.split dest!: reading_more)

lemma assign_role_reads [reads_on]: "lines_left (assign_role E give p) \<le> lines_left p"
  by (auto simp: assign_role_def split: prod.split option.split dest!: reading_more)

lemma lift_sanction_reads [reads_on]: "lines_left (lift_sanction E xs p) \<le> lines_left p"
  by (auto simp: lift_sanction_def split: prod.split option.split sum.split dest!: reading_more)

lemma panel_create_room_reads [reads_on]: "lines_left (panel_create_room E p) \<le> lines_left p"
  by (auto simp: panel_create_room_def split: prod.split option.split sum.split dest!: reading_more intro!: saved_note_reads)

lemma if_reads: "(c \<Longrightarrow> lines_left p \<le> k) \<Longrightarrow> (\<not> c \<Longrightarrow> lines_left q \<le> k) \<Longrightarrow> lines_left (if c then p else q) \<le> k"
  by simp

lemma edit_room_reads [reads_on]: "lines_left (edit_room E xs p) \<le> lines_left p"
  by (auto simp: edit_room_def Let_def split del: if_split split: prod.split option.split sum.split
    dest!: reading_more intro!: saved_note_reads)

lemma panel_delete_room_reads [reads_on]: "lines_left (panel_delete_room E xs p) \<le> lines_left p"
  by (auto simp: panel_delete_room_def split: prod.split option.split sum.split dest!: reading_more intro!: saved_note_reads)

lemma le_warned: "k \<le> lines_left (if b then warn msg p else p) \<Longrightarrow> k \<le> lines_left p"
  by (cases b) simp_all

lemma panel_create_bot_reads [reads_on]: "lines_left (panel_create_bot E p) \<le> lines_left p"
  by (auto simp: panel_create_bot_def split del: if_split split: prod.split option.split sum.split
    dest!: ask_reads intro!: saved_note_reads if_reads)
    (auto dest: le_warned)

lemma edit_bot_reads [reads_on]: "lines_left (edit_bot E xs p) \<le> lines_left p"
  by (auto simp: edit_bot_def split del: if_split split: prod.split option.split sum.split
    dest!: reading_more intro!: saved_note_reads if_reads)

lemma panel_delete_bot_reads [reads_on]: "lines_left (panel_delete_bot E xs p) \<le> lines_left p"
  by (auto simp: panel_delete_bot_def split: prod.split option.split sum.split dest!: reading_more intro!: saved_note_reads)

lemma live_command_reads [reads_on]: "lines_left (live_command E cmd args msg p) \<le> lines_left p"
  by (auto simp: live_command_def split: prod.split sum.split dest!: reading_more)

lemma live_notice_reads [reads_on]: "lines_left (live_notice E p) \<le> lines_left p"
  by (auto simp: live_notice_def split: prod.split dest!: reading_more intro!: le_trans [OF live_command_reads])

lemma live_kick_reads [reads_on]: "lines_left (live_kick E p) \<le> lines_left p"
  by (auto simp: live_kick_def split: prod.split sum.split option.split control_data.split dest!: reading_more
    intro!: le_trans [OF live_command_reads])

lemma create_backup_reads [reads_on]: "lines_left (create_backup E dir p) \<le> lines_left p"
  by (auto simp: create_backup_def split: prod.split sum.split)

lemma restore_backup_reads [reads_on]: "lines_left (restore_backup E xs p) \<le> lines_left p"
  by (auto simp: restore_backup_def Let_def split: prod.split sum.split option.split dest!: reading_more)

lemma write_unit_reads [reads_on]: "lines_left (write_unit E path p) \<le> lines_left p"
  by (simp add: write_unit_def)

lemma service_menu_reads [reads_on]: "lines_left (service_menu E p) \<le> lines_left p"
  by (auto simp: service_menu_def split: prod.split dest!: reading_more intro!: le_trans [OF write_unit_reads])

lemma show_reads [reads_on]: "lines_left (show_status E p) \<le> lines_left p" "lines_left (show_users E p) \<le> lines_left p"
  "lines_left (show_mod_log E p) \<le> lines_left p"
  by (auto simp: show_status_def show_users_def show_mod_log_def split: prod.split sum.split)

section \<open>The menus\<close>

text \<open>A menu is a loop without an end of its own. A round of it is a function to the console after it and
  whether it returned from the menu.\<close>

type_synonym round = "console \<Rightarrow> console \<times> bool"

definition menu_from :: "round \<Rightarrow> console \<times> bool \<Rightarrow> (console \<times> bool) option" where
  "menu_from f = while_option (\<lambda>(_, left). \<not> left) (\<lambda>(p, _). f p)"

definition menu :: "round \<Rightarrow> console \<Rightarrow> console" where
  "menu f p = fst (while (\<lambda>(_, left). \<not> left) (\<lambda>(p, _). f p) (p, False))"

abbreviation chose :: "ustring \<Rightarrow> string \<Rightarrow> bool" where "chose a k \<equiv> a = runes k"

abbreviation stay :: "console \<Rightarrow> console \<times> bool" where "stay p \<equiv> (p, False)"
abbreviation leave :: "console \<Rightarrow> console \<times> bool" where "leave p \<equiv> (p, True)"

definition section_round :: "outside \<Rightarrow> string \<Rightarrow> round" where
  "section_round E sec p =
     (case ask p of (p1, a) \<Rightarrow>
        if chose a ''0'' \<or> a = [] then leave p1
        else case atoi a of
          None \<Rightarrow> stay (warn ''Invalid choice'' p1)
        | Some n \<Rightarrow>
            if n < 1 \<or> n > int (length (by_section sec)) then stay (warn ''Invalid choice'' p1)
            else stay (edit_setting E (by_section sec ! nat (n - 1)) p1))"

definition sections_round :: "outside \<Rightarrow> round" where
  "sections_round E p =
     (case ask p of (p1, a) \<Rightarrow>
        if chose a ''0'' \<or> a = [] then leave p1
        else case atoi a of
          None \<Rightarrow> stay (warn ''Invalid choice'' p1)
        | Some n \<Rightarrow>
            if n < 1 \<or> n > int (length sections) then stay (warn ''Invalid choice'' p1)
            else stay (menu (section_round E (sections ! nat (n - 1))) p1))"

definition access_round :: "outside \<Rightarrow> round" where
  "access_round E p =
     (case ask p of (p1, a) \<Rightarrow>
        if chose a ''1'' then stay (pause p1)
        else if chose a ''2'' then stay (panel_create_role E p1)
        else if chose a ''3'' then stay (edit_role_permissions E p1)
        else if chose a ''4'' then stay (panel_delete_role E p1)
        else if chose a ''5'' then stay (assign_role E True p1)
        else if chose a ''6'' then stay (assign_role E False p1)
        else if chose a ''0'' \<or> a = [] then leave p1
        else stay (warn ''Invalid choice'' p1))"

definition sanctions_round :: "outside \<Rightarrow> round" where
  "sanctions_round E p =
     (case db_list_sanctions (penv E p) (pdb p) of
        Inl _ \<Rightarrow> leave (warn ''Read failed'' p)
      | Inr xs \<Rightarrow>
          (case ask p of (p1, a) \<Rightarrow>
             if chose a ''l'' then stay (lift_sanction E xs p1)
             else if chose a ''0'' \<or> a = [] then leave p1
             else stay (warn ''Invalid choice'' p1)))"

definition rooms_round :: "outside \<Rightarrow> round" where
  "rooms_round E p =
     (case db_list_rooms (penv E p) (pdb p) of
        Inl _ \<Rightarrow> leave (warn ''Could not read rooms'' p)
      | Inr xs \<Rightarrow>
          (case ask p of (p1, a) \<Rightarrow>
             if chose a ''n'' then stay (panel_create_room E p1)
             else if chose a ''e'' then stay (edit_room E xs p1)
             else if chose a ''d'' then stay (panel_delete_room E xs p1)
             else if chose a ''0'' \<or> a = [] then leave p1
             else stay (warn ''Invalid choice'' p1)))"

definition bots_round :: "outside \<Rightarrow> round" where
  "bots_round E p =
     (case db_list_bots (penv E p) (pn_bots p) of
        Inl _ \<Rightarrow> leave (warn ''Could not read bots'' p)
      | Inr xs \<Rightarrow>
          (case ask p of (p1, a) \<Rightarrow>
             if chose a ''n'' then stay (panel_create_bot E p1)
             else if chose a ''e'' then stay (edit_bot E xs p1)
             else if chose a ''d'' then stay (panel_delete_bot E xs p1)
             else if chose a ''0'' \<or> a = [] then leave p1
             else stay (warn ''Invalid choice'' p1)))"

definition live_round :: "outside \<Rightarrow> round" where
  "live_round E p =
     (if \<not> server_running E p then leave (pause p)
      else case ask p of (p1, a) \<Rightarrow>
        if chose a ''1'' then stay (live_command E ''status'' no_args ''Live status'' p1)
        else if chose a ''2'' then stay (live_command E ''online'' no_args ''Online users'' p1)
        else if chose a ''3'' then stay (live_command E ''reload'' no_args ''Applied'' p1)
        else if chose a ''4'' then stay (live_kick E p1)
        else if chose a ''5'' then stay (live_notice E p1)
        else if chose a ''6'' then
          stay (live_command E ''bot.stop'' (no_args\<lparr>ra_empty := False, ra_stop := Some []\<rparr>) ''Stopped playback on all bots'' p1)
        else if chose a ''0'' \<or> a = [] then leave p1
        else stay (warn ''Invalid choice'' p1))"

definition backup_round :: "outside \<Rightarrow> round" where
  "backup_round E p =
     (let dir = cfg_string (pn_cfg p) KeyBackupDir in
      case list_backups (pbackup E p) (pe_cwd (now_of E p)) dir (pn_volume p) of
        Inl _ \<Rightarrow> leave (warn ''Could not read the backup folder'' p)
      | Inr xs \<Rightarrow>
          (case ask p of (p1, a) \<Rightarrow>
             if chose a ''n'' then stay (create_backup E dir p1)
             else if chose a ''r'' then stay (restore_backup E xs p1)
             else if chose a ''0'' \<or> a = [] then leave p1
             else stay (warn ''Invalid choice'' p1)))"

definition main_round :: "outside \<Rightarrow> round" where
  "main_round E p =
     (case ask p of (p1, a) \<Rightarrow>
        if chose a ''1'' then stay (show_status E p1)
        else if chose a ''2'' then stay (menu (sections_round E) p1)
        else if chose a ''3'' then stay (pause p1)
        else if chose a ''4'' then stay (reset_setting E p1)
        else if chose a ''5'' then stay (show_users E p1)
        else if chose a ''6'' then stay (menu (rooms_round E) p1)
        else if chose a ''7'' then stay (menu (access_round E) p1)
        else if chose a ''8'' then stay (menu (sanctions_round E) p1)
        else if chose a ''9'' then stay (show_mod_log E p1)
        else if chose a ''10'' then stay (menu (bots_round E) p1)
        else if chose a ''11'' then stay (menu (live_round E) p1)
        else if chose a ''12'' then stay (service_menu E p1)
        else if chose a ''13'' then stay (menu (backup_round E) p1)
        else if chose a ''0'' \<or> chose a ''q'' \<or> chose a ''exit'' then leave p1
        else stay (warn ''Invalid choice'' p1))"

definition panel_session :: "outside \<Rightarrow> console \<Rightarrow> console" where
  "panel_session E = menu (main_round E)"

text \<open>\<open>Run\<close>, after the database was opened.\<close>

definition panel_start ::
  "panel_env \<Rightarrow> db \<Rightarrow> bot_db \<Rightarrow> site option \<Rightarrow> volume \<Rightarrow> ustring option \<Rightarrow> ustring list \<Rightarrow> console option" where
  "panel_start pe d bd running v i lines =
     (let e = cx_env (bx (pe_call pe)) in
      case load_config e (pe_valid pe) d of
        Inl _ \<Rightarrow> None
      | Inr g \<Rightarrow>
          (case New e d of
             (_, Inl _) \<Rightarrow> None
           | (_, Inr m) \<Rightarrow>
               Some \<lparr>pn_in = lines, pn_out = [], pn_acc = m, pn_cfg = g, pn_bots = bd, pn_live = running, pn_volume = v,
                 pn_identity = i, pn_closed = False\<rparr>))"

section \<open>The menus end\<close>

text \<open>A round that stays has used up a line, because the end of the input reads as the choice that leaves.\<close>

definition consuming :: "round \<Rightarrow> bool" where
  "consuming f \<longleftrightarrow> (\<forall>p q l. f p = (q, l) \<longrightarrow> lines_left q \<le> lines_left p \<and> (\<not> l \<longrightarrow> lines_left q < lines_left p))"

lemma consuming_ends:
  assumes "consuming f"
  shows "\<exists>q. menu_from f (p, False) = Some (q, True) \<and> menu f p = q \<and> lines_left q \<le> lines_left p"
proof -
  let ?b = "\<lambda>(_ :: console, left). \<not> left" and ?c = "\<lambda>(p, _ :: bool). f p"
  let ?P = "\<lambda>s :: console \<times> bool. lines_left (fst s) \<le> lines_left p"
  have step: "?P (?c s) \<and> (if snd (?c s) then 0 else Suc (lines_left (fst (?c s)))) < (if snd s then 0 else Suc (lines_left (fst s)))"
    if "?P s" "?b s" for s
  proof -
    obtain q l where q: "f (fst s) = (q, l)" by fastforce
    then show ?thesis using assms that unfolding consuming_def by (cases s) fastforce
  qed
  obtain t where t: "while_option ?b ?c (p, False) = Some t"
    using measure_while_option_Some [of ?P ?b ?c "\<lambda>s. if snd s then 0 else Suc (lines_left (fst s))", OF step] by fastforce
  have "\<not> ?b t" using while_option_stop [OF t] .
  moreover have "?P t"
    using while_option_rule [OF _ t, of ?P] step by simp
  moreover have "menu f p = fst t" using t by (simp add: menu_def while_def)
  ultimately show ?thesis using t by (cases t) (auto simp: menu_from_def)
qed

lemma menu_reads: "consuming f \<Longrightarrow> lines_left (menu f p) \<le> lines_left p"
  using consuming_ends by metis

lemma asked_round:
  assumes "\<And>p. f p = (case ask p of (p1, a) \<Rightarrow> g p1 a)"
    "\<And>p a. lines_left (fst (g p a)) \<le> lines_left p" "\<And>p. snd (g p (runes ''0''))"
  shows "consuming f"
  unfolding consuming_def
proof (intro allI impI)
  fix p q l
  assume f: "f p = (q, l)"
  obtain p1 a where a: "ask p = (p1, a)" by fastforce
  then have g: "g p1 a = (q, l)" using f assms(1) [of p] by simp
  have le: "lines_left q \<le> lines_left p1" using assms(2) [of p1 a] g by simp
  moreover have "a \<noteq> runes ''0''" if "\<not> l" using assms(3) [of p1] g that by auto
  ultimately show "lines_left q \<le> lines_left p \<and> (\<not> l \<longrightarrow> lines_left q < lines_left p)"
    using ask_reads [OF a] ask_consumes [OF a] by fastforce
qed

lemma runes_choice: "runes (c # cs) = runes (d # ds) \<longleftrightarrow> c = d \<and> runes cs = runes ds"
  by (simp add: runes_def)

end
