(* ===== verification/Panel_Correct.thy ===== *)
theory Panel_Correct
  imports Panel Access_Correct Backups_Correct Bots_Demo
begin

text \<open>
  The panel: every session ends, whatever is typed; the settings it holds pass their checks throughout; the database
  is not given up for a restore while a server is running; and what happens to a session whose input has ended.
\<close>

section \<open>Every menu ends\<close>

lemma guarded_round:
  assumes "\<And>p. (\<exists>q. f p = (q, True) \<and> lines_left q \<le> lines_left p) \<or> f p = (case ask p of (p1, a) \<Rightarrow> g p p1 a)"
    "\<And>p0 p a. lines_left (fst (g p0 p a)) \<le> lines_left p" "\<And>p0 p. snd (g p0 p (runes ''0''))"
  shows "consuming f"
  unfolding consuming_def
proof (intro allI impI)
  fix p q l
  assume f: "f p = (q, l)"
  show "lines_left q \<le> lines_left p \<and> (\<not> l \<longrightarrow> lines_left q < lines_left p)"
  proof (cases "\<exists>q. f p = (q, True) \<and> lines_left q \<le> lines_left p")
    case True
    with f show ?thesis by auto
  next
    case False
    obtain p1 a where a: "ask p = (p1, a)" by fastforce
    with False f assms(1) [of p] have g: "g p p1 a = (q, l)" by auto
    have le: "lines_left q \<le> lines_left p1" using assms(2) [of p p1 a] g by simp
    moreover have "a \<noteq> runes ''0''" if "\<not> l" using assms(3) [of p p1] g that by auto
    ultimately show ?thesis using ask_reads [OF a] ask_consumes [OF a] by fastforce
  qed
qed

lemmas round_intros = le_trans [OF menu_reads] reads_on

lemma section_round_consumes: "consuming (section_round E sec)"
  unfolding section_round_def
  by (rule asked_round [where g = "\<lambda>p1 a.
        if chose a ''0'' \<or> a = [] then leave p1
        else case atoi a of
          None \<Rightarrow> stay (warn ''Invalid choice'' p1)
        | Some n \<Rightarrow>
            if n < 1 \<or> n > int (length (by_section sec)) then stay (warn ''Invalid choice'' p1)
            else stay (edit_setting E (by_section sec ! nat (n - 1)) p1)"])
    (auto simp: reads_on split: option.split)

lemma sections_round_consumes: "consuming (sections_round E)"
  unfolding sections_round_def
  by (rule asked_round [where g = "\<lambda>p1 a.
        if chose a ''0'' \<or> a = [] then leave p1
        else case atoi a of
          None \<Rightarrow> stay (warn ''Invalid choice'' p1)
        | Some n \<Rightarrow>
            if n < 1 \<or> n > int (length sections) then stay (warn ''Invalid choice'' p1)
            else stay (menu (section_round E (sections ! nat (n - 1))) p1)"])
    (auto simp: menu_reads section_round_consumes split: option.split)

lemma access_round_consumes: "consuming (access_round E)"
  unfolding access_round_def
  by (rule asked_round [OF refl]) (simp_all add: reads_on runes_def)

lemma sanctions_round_consumes: "consuming (sanctions_round E)"
proof (rule guarded_round [where g = "\<lambda>p p1 a. case db_list_sanctions (penv E p) (pdb p) of
     Inl _ \<Rightarrow> leave p1
   | Inr xs \<Rightarrow>
       if chose a ''l'' then stay (lift_sanction E xs p1)
       else if chose a ''0'' \<or> a = [] then leave p1
       else stay (warn ''Invalid choice'' p1)"])
qed (auto simp: sanctions_round_def reads_on runes_def split: sum.split)

lemma rooms_round_consumes: "consuming (rooms_round E)"
proof (rule guarded_round [where g = "\<lambda>p p1 a. case db_list_rooms (penv E p) (pdb p) of
     Inl _ \<Rightarrow> leave p1
   | Inr xs \<Rightarrow>
       if chose a ''n'' then stay (panel_create_room E p1)
       else if chose a ''e'' then stay (edit_room E xs p1)
       else if chose a ''d'' then stay (panel_delete_room E xs p1)
       else if chose a ''0'' \<or> a = [] then leave p1
       else stay (warn ''Invalid choice'' p1)"])
qed (auto simp: rooms_round_def reads_on runes_def split: sum.split)

lemma bots_round_consumes: "consuming (bots_round E)"
proof (rule guarded_round [where g = "\<lambda>p p1 a. case db_list_bots (penv E p) (pn_bots p) of
     Inl _ \<Rightarrow> leave p1
   | Inr xs \<Rightarrow>
       if chose a ''n'' then stay (panel_create_bot E p1)
       else if chose a ''e'' then stay (edit_bot E xs p1)
       else if chose a ''d'' then stay (panel_delete_bot E xs p1)
       else if chose a ''0'' \<or> a = [] then leave p1
       else stay (warn ''Invalid choice'' p1)"])
qed (auto simp: bots_round_def reads_on runes_def split: sum.split)

lemma live_round_consumes: "consuming (live_round E)"
  by (rule guarded_round [where g = "\<lambda>p p1 a.
        if chose a ''1'' then stay (live_command E ''status'' no_args ''Live status'' p1)
        else if chose a ''2'' then stay (live_command E ''online'' no_args ''Online users'' p1)
        else if chose a ''3'' then stay (live_command E ''reload'' no_args ''Applied'' p1)
        else if chose a ''4'' then stay (live_kick E p1)
        else if chose a ''5'' then stay (live_notice E p1)
        else if chose a ''6'' then
          stay (live_command E ''bot.stop'' (no_args\<lparr>ra_empty := False, ra_stop := Some []\<rparr>) ''Stopped playback on all bots'' p1)
        else if chose a ''0'' \<or> a = [] then leave p1
        else stay (warn ''Invalid choice'' p1)"])
    (auto simp: live_round_def reads_on runes_def)

lemma backup_round_consumes: "consuming (backup_round E)"
proof (rule guarded_round [where g = "\<lambda>p p1 a.
     case list_backups (pbackup E p) (pe_cwd (now_of E p)) (cfg_string (pn_cfg p) KeyBackupDir) (pn_volume p) of
     Inl _ \<Rightarrow> leave p1
   | Inr xs \<Rightarrow>
       if chose a ''n'' then stay (create_backup E (cfg_string (pn_cfg p) KeyBackupDir) p1)
       else if chose a ''r'' then stay (restore_backup E xs p1)
       else if chose a ''0'' \<or> a = [] then leave p1
       else stay (warn ''Invalid choice'' p1)"])
qed (auto simp: backup_round_def Let_def reads_on runes_def split: sum.split)

lemmas rounds_consume = section_round_consumes sections_round_consumes access_round_consumes sanctions_round_consumes
  rooms_round_consumes bots_round_consumes live_round_consumes backup_round_consumes

lemma main_round_consumes: "consuming (main_round E)"
  unfolding main_round_def
  by (rule asked_round [OF refl]) (simp_all add: reads_on menu_reads rounds_consume runes_def)

text \<open>The loops of the panel, each with its body.\<close>

definition panel_loops :: "outside \<Rightarrow> round list" where
  "panel_loops E = main_round E # sections_round E # map (section_round E) sections
     @ [access_round E, sanctions_round E, rooms_round E, bots_round E, live_round E, backup_round E]"

text \<open>C37. No menu of the panel can trap a session: whatever lines are typed, whatever the database, the disk and the
  running server answer, each of the panel's loops returns after finitely many rounds, with its last round's console.
  When the input has ended, every menu reads the choice that leaves it.\<close>

theorem panel_session_ends: "list_all (\<lambda>f. menu_from f (p, False) = Some (menu f p, True)) (panel_loops E)"
proof -
  have "menu_from f (p, False) = Some (menu f p, True)" if "consuming f" for f
    using consuming_ends [OF that, of p] by auto
  moreover have "list_all consuming (panel_loops E)"
    by (simp add: panel_loops_def list_all_iff rounds_consume main_round_consumes)
  ultimately show ?thesis by (auto simp: list_all_iff)
qed

section \<open>What a session holds on to\<close>

text \<open>The settings, whether the database was given up, and whether there is a server: only three operations change any
  of them.\<close>

definition held :: "console \<Rightarrow> config \<times> bool \<times> bool" where
  "held p = (pn_cfg p, pn_closed p, pn_live p \<noteq> None)"

lemma held_simps [simp]:
  "held (pause p) = held p" "held (tell n p) = held p" "held (warn msg p) = held p" "held (ok msg p) = held p"
  "held (set_pdb d p) = held p" "held (p\<lparr>pn_acc := m\<rparr>) = held p"
  "held (p\<lparr>pn_bots := b\<rparr>) = held p" "held (p\<lparr>pn_volume := v\<rparr>) = held p" "held (p\<lparr>pn_identity := i\<rparr>) = held p"
  "held (p\<lparr>pn_closed := c\<rparr>) = (fst (held p), c, snd (snd (held p)))"
  "held (p\<lparr>pn_cfg := g\<rparr>) = (g, snd (held p))"
  by (simp_all add: held_def pause_def tell_def warn_def ok_def set_pdb_def)

named_theorems holding "operations that leave the settings and the database handle alone"

lemma ask_holds: "ask p = (p1, a) \<Longrightarrow> held p1 = held p"
  by (auto simp: ask_def held_def split: list.splits)

lemma held_if: "(c \<Longrightarrow> held p = k) \<Longrightarrow> (\<not> c \<Longrightarrow> held q = k) \<Longrightarrow> held (if c then p else q) = k"
  by simp

lemma pick_row_holds: "pick_row none xs p = (p1, r) \<Longrightarrow> held p1 = held p"
  by (auto simp: pick_row_def split: prod.splits option.splits if_splits dest!: ask_holds)

lemma send_command_holds: "send_command E cmd args p = (p1, r) \<Longrightarrow> held p1 = held p"
  by (auto simp: send_command_def Let_def held_def share_in_def set_pdb_def split: prod.splits option.splits)

lemma control_error_holds [simp]: "held (control_error err p) = held p"
  by (simp add: control_error_def)

lemma offer_reload_holds [simp]: "held (offer_reload E p) = held p"
  by (auto simp: offer_reload_def split: prod.split sum.split dest!: ask_holds send_command_holds)

lemma saved_note_holds [simp]: "held (saved_note E msg p) = held p"
  by (simp add: saved_note_def)

lemma fold_permission_holds: "held (fst (fold (ask_permission E) ds pm)) = held (fst pm)"
proof (induction ds arbitrary: pm)
  case (Cons d ds)
  have "held (fst (ask_permission E d pm)) = held (fst pm)"
    by (auto simp: ask_permission_def Let_def split: prod.split dest!: ask_holds)
  with Cons.IH show ?case by simp
qed simp

lemma ask_permissions_holds: "ask_permissions E m p = (p1, ps) \<Longrightarrow> held p1 = held p"
  using fold_permission_holds [of E all_perms "(p, m)"] by (simp add: ask_permissions_def)

lemma pick_role_holds: "pick_role E p = (p1, r) \<Longrightarrow> held p1 = held p"
  unfolding pick_role_def by (rule pick_row_holds)

lemma pick_user_holds: "pick_user E p = (p1, r) \<Longrightarrow> held p1 = held p"
  by (auto simp: pick_user_def split: prod.splits option.splits sum.splits if_splits dest!: ask_holds)

lemmas steps_hold = ask_holds pick_row_holds send_command_holds ask_permissions_holds pick_role_holds pick_user_holds

lemma role_operations_hold [holding]:
  "held (panel_create_role E p) = held p" "held (edit_role_permissions E p) = held p"
  "held (panel_delete_role E p) = held p" "held (assign_role E give p) = held p" "held (lift_sanction E xs p) = held p"
  by (auto simp: panel_create_role_def edit_role_permissions_def panel_delete_role_def assign_role_def
    lift_sanction_def split: prod.split option.split sum.split dest!: steps_hold)

lemma room_operations_hold [holding]:
  "held (panel_create_room E p) = held p" "held (edit_room E xs p) = held p" "held (panel_delete_room E xs p) = held p"
  by (auto simp: panel_create_room_def edit_room_def panel_delete_room_def Let_def split del: if_split
    split: prod.split option.split sum.split dest!: steps_hold intro!: held_if)

lemma warned_holds: "held (if b then warn msg p else p) = held p"
  by simp

lemma bot_operations_hold [holding]:
  "held (panel_create_bot E p) = held p" "held (edit_bot E xs p) = held p" "held (panel_delete_bot E xs p) = held p"
  by (auto simp: panel_create_bot_def edit_bot_def panel_delete_bot_def warned_holds split del: if_split
    split: prod.split option.split sum.split dest!: steps_hold intro!: held_if)

lemma live_command_holds [holding]: "held (live_command E cmd args msg p) = held p"
  by (auto simp: live_command_def split: prod.split sum.split dest!: steps_hold)

lemma live_operations_hold [holding]: "held (live_notice E p) = held p" "held (live_kick E p) = held p"
  by (auto simp: live_notice_def live_kick_def live_command_holds split: prod.split sum.split option.split control_data.split
    dest!: steps_hold)

lemma other_operations_hold [holding]:
  "held (create_backup E dir p) = held p" "held (write_unit E path p) = held p" "held (service_menu E p) = held p"
  "held (show_status E p) = held p" "held (show_users E p) = held p" "held (show_mod_log E p) = held p"
  by (auto simp: create_backup_def write_unit_def service_menu_def show_status_def show_users_def show_mod_log_def
    split: prod.split sum.split dest!: steps_hold)

section \<open>A session at the desk\<close>

definition desk_env :: panel_env where
  "desk_env = \<lparr>pe_call = bot_call0 ''r'' ''t'', pe_valid = \<lambda>_. True,
     pe_process = \<lparr>pr_version = ''1'', pr_pid = 1, pr_started = 0, pr_goroutines = 9, pr_heap = 0\<rparr>,
     pe_listening = \<lambda>_. Some ''s'', pe_endpoint = Endpoint \<lparr>ep_addr = ''a'', ep_token = ''s'', ep_pid = 1\<rparr>,
     pe_backup = calm_bk, pe_close_fails = False, pe_cwd = runes ''/'', pe_db_path = chat_db, pe_music = demo_music,
     pe_fresh = [], pe_writes = \<lambda>_. True\<rparr>"

definition at_desk :: "site option \<Rightarrow> ustring list \<Rightarrow> console" where
  "at_desk running lines = \<lparr>pn_in = lines, pn_out = [], pn_acc = fresh_access, pn_cfg = defaults,
     pn_bots = \<lparr>t_bots = [], t_playlists = []\<rparr>, pn_live = running, pn_volume = two_backups, pn_identity = None,
     pn_closed = False\<rparr>"

lemma desk_starts:
  "panel_start desk_env empty_db \<lparr>t_bots = [], t_playlists = []\<rparr> running two_backups None lines = Some (at_desk running lines)"
proof -
  have "t_settings empty_db = []" by (simp add: empty_db_def)
  then show ?thesis
    by (simp add: panel_start_def desk_env_def New_empty load_config_def db_load_settings_def at_desk_def)
qed

lemma desk_runs: "control_running (pe_listening desk_env) (pe_endpoint desk_env) = Some 1"
  by (simp add: desk_env_def control_running_def read_endpoint_def)

section \<open>Invariants of a session\<close>

text \<open>An invariant of a round is one of the menu.\<close>

lemma menu_keeps:
  assumes "consuming f" "\<And>p. P p \<Longrightarrow> P (fst (f p))" "P p"
  shows "P (menu f p)"
proof -
  obtain t where t: "while_option (\<lambda>(_ :: console, left). \<not> left) (\<lambda>(p, _ :: bool). f p) (p, False) = Some t"
    using consuming_ends [OF assms(1), of p] by (auto simp: menu_from_def)
  have "P (fst t)"
    using while_option_rule [OF _ t, of "\<lambda>s. P (fst s)"] assms(2,3) by (force split: prod.splits)
  then show ?thesis using t by (simp add: menu_def while_def)
qed

text \<open>What the three operations keep, the whole session keeps.\<close>

definition kept_by_operations :: "outside \<Rightarrow> (config \<times> bool \<times> bool \<Rightarrow> bool) \<Rightarrow> bool" where
  "kept_by_operations E Q \<longleftrightarrow> (\<forall>q. Q (held q) \<longrightarrow>
     (\<forall>s. Q (held (edit_setting E s q))) \<and> Q (held (reset_setting E q)) \<and> (\<forall>xs. Q (held (restore_backup E xs q))))"

lemma section_round_keeps:
  assumes "kept_by_operations E Q" "Q (held p)"
  shows "Q (held (fst (section_round E sec p)))"
  using assms by (auto simp: section_round_def kept_by_operations_def split: prod.split option.split dest!: ask_holds)

lemma sections_round_keeps:
  assumes "kept_by_operations E Q" "Q (held p)"
  shows "Q (held (fst (sections_round E p)))"
proof -
  have "Q (held (menu (section_round E sec) q))" if "Q (held q)" for sec q
    using menu_keeps [OF section_round_consumes, of "\<lambda>p. Q (held p)"] section_round_keeps [OF assms(1)] that by simp
  then show ?thesis using assms(2)
    by (auto simp: sections_round_def split: prod.split option.split dest!: ask_holds)
qed

lemma round_keeps:
  assumes "kept_by_operations E Q" "Q (held p)"
  shows "Q (held (fst (access_round E p)))" "Q (held (fst (sanctions_round E p)))" "Q (held (fst (rooms_round E p)))"
    "Q (held (fst (bots_round E p)))" "Q (held (fst (live_round E p)))" "Q (held (fst (backup_round E p)))"
proof -
  obtain p1 a where a: "ask p = (p1, a)" by fastforce
  have p1: "Q (held p1)" using assms(2) ask_holds [OF a] by simp
  have r: "Q (held (restore_backup E xs p1))" for xs using assms(1) p1 by (simp add: kept_by_operations_def)
  show "Q (held (fst (access_round E p)))" "Q (held (fst (live_round E p)))"
    using p1 assms(2) by (simp_all add: access_round_def live_round_def a holding)
  show "Q (held (fst (sanctions_round E p)))" "Q (held (fst (rooms_round E p)))" "Q (held (fst (bots_round E p)))"
    "Q (held (fst (backup_round E p)))"
    using p1 assms(2) r
    by (simp_all add: sanctions_round_def rooms_round_def bots_round_def backup_round_def Let_def a holding
      split: sum.split)
qed

lemma main_round_keeps:
  assumes "kept_by_operations E Q" "Q (held p)"
  shows "Q (held (fst (main_round E p)))"
proof -
  obtain p1 a where a: "ask p = (p1, a)" by fastforce
  have p1: "Q (held p1)" using assms(2) ask_holds [OF a] by simp
  have k: "Q (held (menu f p1))" if "consuming f" "\<And>q. Q (held q) \<Longrightarrow> Q (held (fst (f q)))" for f
    using menu_keeps [of f "\<lambda>p. Q (held p)"] that p1 by simp
  have r: "Q (held (reset_setting E p1))" using assms(1) p1 by (simp add: kept_by_operations_def)
  show ?thesis
    using p1 r
    by (simp add: main_round_def a holding k rounds_consume round_keeps [OF assms(1)] sections_round_keeps [OF assms(1)])
qed

lemma session_keeps:
  assumes "kept_by_operations E Q" "Q (held p)"
  shows "Q (held (panel_session E p))"
  unfolding panel_session_def
  by (rule menu_keeps [where P = "\<lambda>p. Q (held p)", OF main_round_consumes main_round_keeps [OF assms(1)] assms(2)])

section \<open>The settings stay valid\<close>

lemma set_config_ok: "set_config e vp k v (d, g) = ((d', g'), None) \<Longrightarrow> config_ok vp g \<Longrightarrow> config_ok vp g'"
  by (auto simp: set_config_def config_ok_mput split: option.splits sum.splits)

lemma reset_config_ok:
  assumes "reset_config e k (d, g) = ((d', g'), None)" "config_ok vp g"
  shows "config_ok vp g'"
proof -
  have "check_value vp s (st_default s) = None" if "lookup_setting k = Some s" for s
    using registry_defaults_ok that lookup_setting_key by blast
  with assms show ?thesis by (auto simp: reset_config_def config_ok_mput split: option.splits sum.splits)
qed

lemma held_cfg: "held p = h \<Longrightarrow> pn_cfg p = fst h"
  by (auto simp: held_def)

lemma edit_setting_valid:
  assumes "\<And>n. pe_valid (E n) = vp" "config_ok vp (fst (held p))"
  shows "config_ok vp (fst (held (edit_setting E s p)))"
  using assms(2) set_config_ok
  by (auto simp: edit_setting_def now_of_def assms(1) Let_def held_cfg split: prod.split option.split dest!: ask_holds)

lemma reset_setting_valid:
  assumes "config_ok vp (fst (held p))"
  shows "config_ok vp (fst (held (reset_setting E p)))"
  using assms reset_config_ok
  by (auto simp: reset_setting_def held_cfg split: prod.split option.split dest!: ask_holds)

lemma restore_backup_config: "fst (held (restore_backup E xs p)) = fst (held p)"
  by (auto simp: restore_backup_def Let_def split: prod.split sum.split option.split dest!: steps_hold)

text \<open>C38. Whatever is typed into the panel, the settings it holds are valid when the session ends, and so at every
  point of it: a value that does not pass the check of its setting is not taken over, and a reset takes the default,
  which passes.\<close>

theorem panel_keeps_settings_valid:
  assumes "panel_start pe d b running v i lines = Some p" "\<And>n. pe_valid (E n) = pe_valid pe"
  shows "config_ok (pe_valid pe) (pn_cfg (panel_session E p))"
proof -
  have "config_ok (pe_valid pe) (pn_cfg p)"
    using assms(1) config_ok_load by (auto simp: panel_start_def Let_def split: sum.splits prod.splits)
  moreover have "kept_by_operations E (\<lambda>h. config_ok (pe_valid pe) (fst h))"
    unfolding kept_by_operations_def
    using edit_setting_valid [of E "pe_valid pe"] reset_setting_valid restore_backup_config assms(2) by simp
  ultimately show ?thesis
    using session_keeps [of E "\<lambda>h. config_ok (pe_valid pe) (fst h)" p] by (simp add: held_def)
qed

theorem panel_keeps_settings_valid_witness:
  "config_ok (\<lambda>_. True) (pn_cfg (panel_session (\<lambda>_. desk_env) (at_desk None [runes ''2'', runes ''1'', runes ''1'', runes ''Home''])))"
  using panel_keeps_settings_valid [OF desk_starts, of "\<lambda>_. desk_env" None "[runes ''2'', runes ''1'', runes ''1'', runes ''Home'']"]
  by (simp add: desk_env_def)

section \<open>No restore under a running server\<close>

lemma setting_operations_hold:
  "snd (held (edit_setting E s p)) = snd (held p)" "snd (held (reset_setting E p)) = snd (held p)"
  by (auto simp: edit_setting_def reset_setting_def Let_def split: prod.split option.split dest!: ask_holds)

text \<open>While a server answers on the control channel the panel does not let go of the database and does not replace
  its file, whatever is typed: the restore refuses every time it is chosen.\<close>

theorem running_server_keeps_its_database:
  assumes "\<And>n. control_running (pe_listening (E n)) (pe_endpoint (E n)) \<noteq> None" "pn_live p \<noteq> None" "\<not> pn_closed p"
  shows "\<not> pn_closed (panel_session E p) \<and> pn_volume (restore_backup E xs p) = pn_volume p"
proof -
  have run: "server_running E q \<longleftrightarrow> pn_live q \<noteq> None" for q
    using assms(1) by (simp add: server_running_def now_of_def)
  have "kept_by_operations E (\<lambda>h. snd h = (False, True))"
    unfolding kept_by_operations_def
    by (auto simp: setting_operations_hold restore_backup_def run) (auto simp: held_def warn_def tell_def pause_def)
  then have "snd (held (panel_session E p)) = (False, True)"
    using session_keeps [of E "\<lambda>h. snd h = (False, True)" p] assms(2,3) by (simp add: held_def)
  then show ?thesis
    using assms(2) by (simp add: held_def restore_backup_def run warn_def tell_def pause_def)
qed

theorem running_server_keeps_its_database_witness:
  "\<not> pn_closed (panel_session (\<lambda>_. desk_env) (at_desk (Some bots_site) [runes ''13'', runes ''r'', runes ''1'', runes ''yes'']))
     \<and> pn_volume (restore_backup (\<lambda>_. desk_env) [] (at_desk (Some bots_site) [runes ''13'', runes ''r'', runes ''1'', runes ''yes'']))
         = two_backups"
  using running_server_keeps_its_database [of "\<lambda>_. desk_env" "at_desk (Some bots_site) [runes ''13'', runes ''r'', runes ''1'', runes ''yes'']" "[]"]
  by (simp add: desk_runs at_desk_def)

section \<open>When the input ends\<close>

text \<open>The end of the input reads as \<open>0\<close>, which leaves a menu, but is an answer to a question as well: closing the
  terminal at the prompt for a new value saves the value \<open>0\<close>, for instance as the password of the server.\<close>

lemma end_of_input_is_saved:
  assumes "pn_in p = []" "lookup_setting (st_key s) = Some s" "check_value (pe_valid (E 0)) s (runes ''0'') = None"
    "\<not> fails (penv E p) PutSetting"
  shows "cfg_string (pn_cfg (edit_setting E s p)) (st_key s) = runes ''0''"
proof -
  have t: "trim_space (runes ''0'') = runes ''0''" by (simp add: runes_def trim_space_def trim_by_def is_space_def)
  have k: "ask p = (p, runes ''0'')" "runes ''0'' \<noteq> []" using assms(1) by (simp_all add: ask_def runes_def)
  have c: "set_config (penv E p) (pe_valid (now_of E p)) (st_key s) (runes ''0'') (pdb p, pn_cfg p)
      = (((pdb p)\<lparr>t_settings := mput (st_key s) (runes ''0'') (t_settings (pdb p))\<rparr>,
          mput (st_key s) (runes ''0'') (pn_cfg p)), None)"
    using assms by (simp add: set_config_def t now_of_def db_put_setting_def)
  have "fst (held (edit_setting E s p)) = mput (st_key s) (runes ''0'') (pn_cfg p)"
    by (simp add: edit_setting_def k c Let_def)
  then show ?thesis by (simp add: held_def cfg_string_def)
qed

lemma end_of_input_sets_the_password:
  "cfg_string (pn_cfg (edit_setting (\<lambda>_. desk_env) (the (lookup_setting KeyServerPassword)) (at_desk None []))) KeyServerPassword
     = runes ''0''"
proof -
  obtain s where s: "lookup_setting KeyServerPassword = Some s" "st_key s = KeyServerPassword"
    "check_value (\<lambda>_. True) s (runes ''0'') = None"
    by (simp add: lookup_setting_def registry_defs check_value_def validate_def)
  then show ?thesis
    using end_of_input_is_saved [of "at_desk None []" s "\<lambda>_. desk_env"]
    by (simp add: at_desk_def desk_env_def penv_def now_of_def)
qed

text \<open>In the same way it names and creates a role.\<close>

lemma end_of_input_creates_a_role:
  assumes "pn_in p = []" "plower E p (runes ''0'') = runes ''0''"
    "create_role (penv E p) \<lparr>sp_name = Some (runes ''0''), sp_permissions = Some 0, sp_priority = Some 0, sp_color = None,
       sp_tag_style = None\<rparr> (pn_acc p) = (m, Inr r)"
  shows "pn_acc (panel_create_role E p) = m"
proof -
  have a: "ask p = (p, runes ''0'')" using assms(1) by (simp add: ask_def)
  have d: "ask_permission E x (p, n) = (p, n)" for x n
    using assms(2) by (simp add: ask_permission_def a Let_def runes_def)
  have "fold (ask_permission E) ds (p, n) = (p, n)" for ds n
    by (induction ds) (simp_all add: d)
  then have "ask_permissions E 0 p = (p, 0)" by (simp add: ask_permissions_def)
  moreover have "atoi (runes ''0'') = Some 0" by (simp add: atoi_def runes_def digits_val_def is_digit_def)
  ultimately show ?thesis
    using assms(3) by (simp add: panel_create_role_def a runes_def ok_def tell_def pause_def)
qed

section \<open>Deleting a bot from the panel\<close>

text \<open>The panel deletes the row of the bot only: its playlists stay in their table and its music on the disk.\<close>

lemma ask_bots: "ask p = (p1, a) \<Longrightarrow> pn_bots p1 = pn_bots p \<and> pn_live p1 = pn_live p"
  by (auto simp: ask_def split: list.splits)

lemma warn_bots [simp]: "pn_bots (warn msg p) = pn_bots p" "pn_live (warn msg p) = pn_live p"
  by (simp_all add: warn_def tell_def pause_def)

lemma pick_row_bots: "pick_row none xs p = (p1, r) \<Longrightarrow> pn_bots p1 = pn_bots p \<and> pn_live p1 = pn_live p"
  by (auto simp: pick_row_def split: prod.splits option.splits if_splits dest!: ask_bots)

lemma saved_note_offline: "pn_live p = None \<Longrightarrow> pn_bots (saved_note E msg p) = pn_bots p"
  by (simp add: saved_note_def offer_reload_def server_running_def tell_def pause_def)

lemma deleted_bot_keeps_its_playlists:
  assumes "pn_live p = None"
  shows "t_playlists (pn_bots (panel_delete_bot E xs p)) = t_playlists (pn_bots p)"
  using assms
  by (auto simp: panel_delete_bot_def saved_note_offline db_delete_bot_def split: prod.split option.split sum.split if_splits
    dest!: pick_row_bots ask_bots)

end
