(* ===== verification/Spec2Isabelle.thy ===== *)
theory Spec2Isabelle
  imports Access_Correct Contents_Correct Session_Correct Guard Ratelimit Gateway_Privacy Bots_Library Bots_Disk
    Gateway_Names Avatars_Correct Control_Correct Migrations_Correct Backups_Correct Storage_Queries Http_Correct
    Panel_Correct
begin

text \<open>
  A model of the TamizChat server (Go, under \<open>src/\<close>) and what is proved of it.

  The server is one process. Clients hold a WebSocket each; the gateway reads their frames, checks the
  permission a request needs and calls the component that does the work; the components queue frames for
  the sessions that have to hear of it. Roles, sanctions, rooms and settings live in SQLite and are held in
  memory as well; messages, strokes and uploaded files live in memory and on disk only while their room is
  in use.

  \<^bold>\<open>Theories and code.\<close> Paths are below \<open>src/internal\<close>; a theory \<open>X_Correct\<close> holds the theorems about \<open>X\<close>.
  \<^item> \<open>Prelude\<close>: Go maps as association lists, runes, results as sums, lemmas on lists and maps.
  \<^item> \<open>Textutil\<close>: \<open>textutil/textutil.go\<close>, \<open>session/validate.go\<close>. \<open>Authz\<close>: \<open>authz/authz.go\<close>. \<open>Ratelimit\<close>:
    \<open>ratelimit/bucket.go\<close> (with the rounding of float64). \<open>Guard\<close>: \<open>guard/guard.go\<close>. \<open>Config\<close>: \<open>config/schema.go\<close>,
    \<open>config.go\<close>. \<open>Paths\<close>: the part of \<open>path/filepath\<close> the code uses, and directories of files with sizes.
  \<^item> \<open>Storage\<close>, \<open>Storage_Queries\<close>: the statements of \<open>storage/roles.go\<close>, \<open>sanctions.go\<close>, \<open>rooms.go\<close>, \<open>users.go\<close>,
    \<open>settings.go\<close> as operations on tables with their unique keys and cascades; \<open>Bot_Storage\<close>: \<open>bots.go\<close>,
    \<open>playlists.go\<close>. Each takes an \<open>env\<close>, which says which database calls fail, which id \<open>NewUUID\<close> returns and what
    the clock shows; all theorems hold for every \<open>env\<close>.
  \<^item> \<open>Migrations\<close>: \<open>storage/migrations.go\<close>, \<open>store.go\<close>: the eleven migrations as data, SQLite's effect on tables and
    rows for the statements they use, and the loop with its transactions. \<open>Backups\<close>: \<open>storage/backup.go\<close> on a
    volume of directories and files with their bytes.
  \<^item> \<open>Access\<close>: \<open>access/*.go\<close>: roles, assignments and sanctions in memory.
  \<^item> \<open>Protocol\<close>: the payloads of \<open>protocol/protocol.go\<close>; an encoded frame is its type, id and payload.
  \<^item> \<open>Session\<close>: \<open>session/session.go\<close>, \<open>manager.go\<close>. Sessions are shared by pointer in the code, so they sit on
    a heap here and registry and rooms refer to them.
  \<^item> \<open>Contents\<close>: \<open>chat/buffer.go\<close>, \<open>paint/board.go\<close>, \<open>files/files.go\<close>, what a room holds and drops when it is
    emptied (the locale \<open>ephemeral\<close>, interpreted for each of them).
  \<^item> \<open>Rooms\<close>: \<open>rooms/*.go\<close>, with the state \<open>server\<close> of the whole process.
  \<^item> \<open>Chat\<close>, \<open>Paint\<close>, \<open>Files\<close>, \<open>Media\<close>: the managers of the same names. \<open>Demo\<close>: a small server the witnesses
    run on. \<open>Pixels\<close>: \<open>files/thumbnail.go\<close> and \<open>avatars/image.go\<close> on machine words. \<open>Avatars\<close>:
    \<open>avatars/avatars.go\<close>, \<open>gateway/avatars.go\<close>, \<open>httpapi/avatars.go\<close>.
  \<^item> \<open>Moderation\<close>: \<open>gateway/admin.go\<close>, \<open>roles.go\<close>. \<open>Gateway\<close>: \<open>gateway.go\<close>, \<open>pump.go\<close>, \<open>rooms.go\<close>, \<open>chat.go\<close>,
    \<open>files.go\<close>, \<open>media.go\<close>, \<open>paint.go\<close>: \<open>handshake\<close>, \<open>dispatch\<close>, \<open>client_left\<close>.
  \<^item> \<open>Gateway_Calm\<close>: which operations keep registry and memberships. \<open>Gateway_Correct\<close>: the server as the
    step relation \<open>gate_step\<close>, and the invariant \<open>server_ok\<close> of everything reachable. \<open>Gateway_Safety\<close>: who is
    let in, who may act, who hears of it. \<open>Gateway_Names\<close>: the names of users when the checks and uses of
    handshakes and renames interleave (\<open>race_step\<close>). \<open>Gateway_Privacy\<close>: nothing outlives the room being empty.
  \<^item> \<open>Bots\<close>: \<open>bots/manager.go\<close>, \<open>lifecycle.go\<close>, \<open>library.go\<close>, \<open>publisher.go\<close>, with the state \<open>site\<close>, which is the server
    with its bots and their music; \<open>Bot_Playlists\<close>: \<open>bots/playlists.go\<close>; \<open>Bots_Gateway\<close>: \<open>gateway/bots.go\<close>,
    \<open>httpapi/bots.go\<close>. \<open>Bots_Correct\<close>: the
    step relation \<open>bot_step\<close> and its invariant. \<open>Bots_Tables\<close>: memory and tables. \<open>Bots_Library\<close>: lists and track names.
    \<open>Bots_Playback\<close>: queues and audio. \<open>Bots_Disk\<close>: files and uploads. \<open>Bots_Site\<close>: the
    invariant of server and bots together. \<open>Bots_Demo\<close>: a site for the witnesses.
  \<^item> \<open>Control\<close>: both ends of the control channel, \<open>control/*.go\<close> and \<open>app/control.go\<close>.
  \<^item> \<open>Addresses\<close>: \<open>httpapi/clientip.go\<close> with the parsers of addresses and blocks of \<open>net\<close>. \<open>Http\<close>:
    \<open>httpapi/server.go\<close>, \<open>files.go\<close>, \<open>middleware.go\<close> and the front door of \<open>gateway.go\<close>: \<open>handler\<close> is the whole
    surface, from a request to its response.
  \<^item> \<open>Panel\<close>: \<open>panel/*.go\<close>: a session of the admin panel as a function of the lines that are typed, beside a
    running server or alone.

  \<^bold>\<open>How the state corresponds.\<close> A struct is a record with the code's fields, a map an association list whose
  order stands for the order Go leaves open, an error an \<open>Inl\<close> or a \<open>Some\<close>. Times are nanoseconds. Goroutines that
  tell the media server are recorded in \<open>hooks\<close>; the timer of a purge is the time it is due. An operation
  that holds one mutex throughout is one step; uploads and playback, which do not, are several. A request is one
  step, although the code runs requests of different clients concurrently; the interleavings inside a request
  that are covered are those of names, uploads and playback. Case folding (\<open>strings.ToLower\<close>), the media
  signature, what \<open>VACUUM INTO\<close> writes and the results of decoding, encoding and sniffing are parameters.

  \<^bold>\<open>Recursion.\<close> Nearly every definition is structural or a fold. Two are not: \<open>draw_other\<close>, which draws random
  numbers until one differs, is a \<open>partial_function\<close> into \<open>option\<close>, and \<open>shuffle_terminates\<close> says when it returns;
  the menus of the panel are \<open>while\<close> loops, and \<open>panel_session_ends\<close> shows that each of them ends. There is no fuel.

  \<^bold>\<open>What the theorems show.\<close>
  \<^item> The access manager decides as the database would, and no moderation gets around the ranks except where
    \<open>low_rank_strips_administrators\<close> says so.
  \<^item> The registry, the rooms and the bots stay consistent under everything that can happen, including reconnects,
    reloads and deletions, and names stay unique but for uses of a name that overlap with a check of it. Limits
    hold: connections, rates, queues, histories, boards, settings, uploads.
  \<^item> What is said in a room reaches its members only, and is gone when the room has been empty.
  \<^item> Bots play what they show, touch no file outside their folder, and leave nothing behind when deleted.
  \<^item> Pictures and thumbnails average what was uploaded; a picture survives a restart with its version.
  \<^item> A database is upgraded from wherever it stands without losing a row, and a backup restores it; pruning keeps
    the newest of the program's backups, and a failed restore keeps the database, under one of two names.
  \<^item> The list of trusted proxies means what it reads like, and a client cannot choose the address it is counted
    under; without a token HTTP changes nothing; a control connection needs the secret.
  \<^item> The panel always ends, keeps its settings valid and does not replace the database of a running server.

  Where the code does not do what it means to, a theorem shows the case: \<open>normalize_name_below_minimum\<close>,
  \<open>ban_created_at_lost\<close>, \<open>sanitized_name_can_be_dots\<close>, \<open>overlapping_uploads_exceed_quota\<close>, \<open>upload_outlives_emptying\<close>,
  \<open>ban_of_584_years_ends_at_once\<close>, \<open>low_rank_strips_administrators\<close>, \<open>deleted_bot_plays_on\<close>,
  \<open>overlapping_uploads_lose_a_track\<close>, \<open>callback_survives_rejoin\<close>, \<open>moving_in_place_keeps_playing\<close>,
  \<open>long_extension_panics\<close>, \<open>new_playlist_sorts_first\<close>, \<open>overlapping_uploads_publish_half_a_picture\<close>,
  \<open>failed_backup_is_listed\<close>, \<open>operators_file_is_pruned\<close>, \<open>failed_first_restore_leaves_its_piece\<close>,
  \<open>failed_rename_back_leaves_a_piece\<close>, \<open>overlapping_handshakes_share_a_name\<close>, \<open>entry_with_port_lets_the_client_choose\<close>,
  \<open>second_header_line_is_ignored\<close>, \<open>end_of_input_is_saved\<close>, \<open>end_of_input_creates_a_role\<close>,
  \<open>deleted_bot_keeps_its_playlists\<close>.

  \<^bold>\<open>Not modelled.\<close> The wiring of the application (\<open>app/app.go\<close>, the command line), logging and the version;
  JSON, SQL text, sockets, timeouts and keepalive; the recovery from panics and the log of requests around the
  HTTP handler; what the panel prints beyond the outcome of each operation, and the text of the systemd unit;
  decoding and encoding of pictures and audio and MIME sniffing, whose results are inputs.
\<close>

end
